(* ===== verification/Prelude.thy ===== *)
theory Prelude
  imports Main "HOL-Library.Char_ord" "HOL-Library.List_Lexorder"
begin

section \<open>Go values and the string helpers the components share\<close>

text \<open>
  The generic layer of the development. A Go \<open>string\<close> or \<open>[]byte\<close> is a HOL \<open>string\<close>,
  a list of bytes (\<open>char\<close> is an 8-bit value). A Go \<open>int\<close> is a HOL \<open>int\<close>; where the
  code computes on it without a guard the result goes through \<open>wrap64\<close>, two's complement
  at 64 bits. The functions of the packages \<open>strings\<close> and \<open>strconv\<close> that the program
  calls are defined here with the byte semantics Go gives them: white space is the ASCII
  white space, digits are the ASCII digits. A Go error is a value of type \<open>error\<close>, and
  a fallible function returns \<open>error + 'a\<close>.
\<close>

named_theorems go_simps \<open>unfolding rules of the Go library helpers\<close>

subsection \<open>Errors\<close>

datatype errno = ENOENT | EEXIST | EIO | EINVAL | ENOTSUP | EOPNOTSUPP | ENOTTY | EPERM | EBUSY | ENXIO | ENOSPC

text \<open>
  \<open>Sys\<close> is an errno that a system call returned, \<open>Errorf\<close> an error made by
  \<open>fmt.Errorf\<close> or \<open>errors.New\<close>, and \<open>Wrap\<close> one made with the verb \<open>%w\<close>,
  which \<open>errors.Is\<close> looks through.
\<close>

datatype error = Sys errno | Errorf string | Wrap string error

primrec errors_Is :: "error \<Rightarrow> errno \<Rightarrow> bool" where
  "errors_Is (Sys e) n = (e = n)"
| "errors_Is (Errorf s) n = False"
| "errors_Is (Wrap s e) n = errors_Is e n"

definition err_bind :: "error + 'a \<Rightarrow> ('a \<Rightarrow> error + 'b) \<Rightarrow> error + 'b" where
  "err_bind r f = (case r of Inl e \<Rightarrow> Inl e | Inr x \<Rightarrow> f x)"

lemma err_bind_simps [simp]:
  "err_bind (Inl e) f = Inl e"
  "err_bind (Inr x) f = f x"
  by (simp_all add: err_bind_def)

lemma err_bind_Inr_iff:
  "err_bind r f = Inr y \<longleftrightarrow> (\<exists>x. r = Inr x \<and> f x = Inr y)"
  by (cases r) auto

subsection \<open>Machine integers\<close>

definition wrap64 :: "int \<Rightarrow> int" where
  "wrap64 x = (x + 2 ^ 63) mod 2 ^ 64 - 2 ^ 63"

definition int64_range :: "int \<Rightarrow> bool" where
  "int64_range x \<longleftrightarrow> - (2 ^ 63) \<le> x \<and> x < 2 ^ 63"

lemma wrap64_range [simp]: "int64_range (wrap64 x)"
  unfolding wrap64_def int64_range_def
  using pos_mod_bound [of "2 ^ 64 :: int" "x + 2 ^ 63"]
    pos_mod_sign [of "2 ^ 64 :: int" "x + 2 ^ 63"]
  by simp

lemma wrap64_id: "int64_range x \<Longrightarrow> wrap64 x = x"
  unfolding wrap64_def int64_range_def by (simp add: mod_pos_pos_trivial)

lemma wrap64_small [simp]: "0 \<le> x \<Longrightarrow> x < 2 ^ 63 \<Longrightarrow> wrap64 x = x"
  by (rule wrap64_id) (simp add: int64_range_def)

subsection \<open>Characters\<close>

definition is_digit :: "char \<Rightarrow> bool" where
  "is_digit c \<longleftrightarrow> 48 \<le> (of_char c :: nat) \<and> (of_char c :: nat) \<le> 57"

definition digit_val :: "char \<Rightarrow> nat" where
  "digit_val c = of_char c - 48"

definition digit_char :: "nat \<Rightarrow> char" where
  "digit_char n = char_of (48 + n)"

definition is_space :: "char \<Rightarrow> bool" where
  "is_space c \<longleftrightarrow> of_char c \<in> {9, 10, 11, 12, 13, 32 :: nat}"

definition to_lower :: "char \<Rightarrow> char" where
  "to_lower c = (if 65 \<le> (of_char c :: nat) \<and> (of_char c :: nat) \<le> 90
                 then char_of (of_char c + 32 :: nat) else c)"

definition newline :: char where
  "newline = CHR 0x0A"

lemma of_char_digit_char: "n < 10 \<Longrightarrow> of_char (digit_char n) = 48 + n"
  by (simp add: digit_char_def)

lemma is_digit_digit_char [simp]: "n < 10 \<Longrightarrow> is_digit (digit_char n)"
  by (simp add: is_digit_def of_char_digit_char)

lemma digit_val_digit_char [simp]: "n < 10 \<Longrightarrow> digit_val (digit_char n) = n"
  by (simp add: digit_val_def of_char_digit_char)

lemma digit_val_less [simp]: "is_digit c \<Longrightarrow> digit_val c < 10"
  by (auto simp: is_digit_def digit_val_def)

subsection \<open>Decimal numbers\<close>

text \<open>The value of a run of digits, most significant digit first.\<close>

definition digits_val :: "string \<Rightarrow> nat" where
  "digits_val s = foldl (\<lambda>n c. n * 10 + digit_val c) 0 s"

fun nat_str :: "nat \<Rightarrow> string" where
  "nat_str n = (if n < 10 then [digit_char n] else nat_str (n div 10) @ [digit_char (n mod 10)])"

declare nat_str.simps [simp del]

text \<open>\<open>strconv.Itoa\<close>, and the verb \<open>%d\<close>.\<close>

definition itoa :: "int \<Rightarrow> string" where
  "itoa n = (if n < 0 then CHR ''-'' # nat_str (nat (- n)) else nat_str (nat n))"

text \<open>\<open>strconv.Atoi\<close>: an optional sign and at least one digit, in the range of \<open>int\<close>.\<close>

definition atoi_digits :: "string \<Rightarrow> nat option" where
  "atoi_digits s = (if s \<noteq> [] \<and> list_all is_digit s then Some (digits_val s) else None)"

definition atoi :: "string \<Rightarrow> int option" where
  "atoi s =
    (case s of
       [] \<Rightarrow> None
     | c # t \<Rightarrow>
         let neg = (c = CHR ''-'');
             ds = (if c = CHR ''-'' \<or> c = CHR ''+'' then t else s)
         in (case atoi_digits ds of
               None \<Rightarrow> None
             | Some n \<Rightarrow>
                 let v = (if neg then - int n else int n)
                 in if int64_range v then Some v else None))"

text \<open>\<open>strconv.ParseUint(s, 10, 64)\<close>: digits only, below \<open>2 ^ 64\<close>.\<close>

definition parse_uint64 :: "string \<Rightarrow> nat option" where
  "parse_uint64 s =
    (case atoi_digits s of
       None \<Rightarrow> None
     | Some n \<Rightarrow> if n < 2 ^ 64 then Some n else None)"

lemma digits_val_snoc [simp]: "digits_val (s @ [c]) = digits_val s * 10 + digit_val c"
  by (simp add: digits_val_def)

lemma digits_val_Nil [simp]: "digits_val [] = 0"
  by (simp add: digits_val_def)

lemma nat_str_digits: "list_all is_digit (nat_str n) \<and> nat_str n \<noteq> []"
proof (induction n rule: nat_str.induct)
  case (1 n)
  then show ?case by (subst (1 2) nat_str.simps) auto
qed

lemma digits_val_nat_str [simp]: "digits_val (nat_str n) = n"
proof (induction n rule: nat_str.induct)
  case (1 n)
  show ?case
  proof (cases "n < 10")
    case True
    then show ?thesis by (subst nat_str.simps) (simp add: digits_val_def)
  next
    case False
    with "1.IH" show ?thesis by (subst nat_str.simps) (simp add: div_mult_mod_eq)
  qed
qed

lemma atoi_digits_nat_str [simp]: "atoi_digits (nat_str n) = Some n"
  using nat_str_digits [of n] by (simp add: atoi_digits_def)

lemma nat_str_first: "\<exists>c t. nat_str n = c # t \<and> is_digit c"
  using nat_str_digits [of n] by (cases "nat_str n") auto

lemma not_digit_sign [simp]: "\<not> is_digit (CHR ''-'')" "\<not> is_digit (CHR ''+'')"
  by (simp_all add: is_digit_def)

lemma atoi_itoa [simp]: "int64_range n \<Longrightarrow> atoi (itoa n) = Some n"
proof (cases "n < 0")
  case True
  assume "int64_range n"
  with True show ?thesis by (simp add: itoa_def atoi_def)
next
  case False
  assume "int64_range n"
  obtain c t where ct: "nat_str (nat n) = c # t" "is_digit c"
    using nat_str_first by blast
  then have "c \<noteq> CHR ''-''" "c \<noteq> CHR ''+''" by auto
  moreover have "atoi_digits (c # t) = Some (nat n)"
    using atoi_digits_nat_str [of "nat n"] ct by simp
  ultimately show ?thesis
    using False \<open>int64_range n\<close> ct by (simp add: itoa_def atoi_def)
qed

lemma parse_uint64_nat_str [simp]: "n < 2 ^ 64 \<Longrightarrow> parse_uint64 (nat_str n) = Some n"
  by (simp add: parse_uint64_def)

subsection \<open>Strings\<close>

text \<open>\<open>strings.CutPrefix\<close>: the rest of the string after the prefix.\<close>

fun cut_prefix :: "string \<Rightarrow> string \<Rightarrow> string option" where
  "cut_prefix [] s = Some s"
| "cut_prefix (p # ps) [] = None"
| "cut_prefix (p # ps) (c # cs) = (if p = c then cut_prefix ps cs else None)"

definition has_prefix :: "string \<Rightarrow> string \<Rightarrow> bool" where
  "has_prefix p s \<longleftrightarrow> cut_prefix p s \<noteq> None"

definition has_suffix :: "string \<Rightarrow> string \<Rightarrow> bool" where
  "has_suffix p s \<longleftrightarrow> has_prefix (rev p) (rev s)"

definition trim_prefix :: "string \<Rightarrow> string \<Rightarrow> string" where
  "trim_prefix p s = (case cut_prefix p s of None \<Rightarrow> s | Some t \<Rightarrow> t)"

definition trim_space :: "string \<Rightarrow> string" where
  "trim_space s = rev (dropWhile is_space (rev (dropWhile is_space s)))"

text \<open>\<open>strings.Cut\<close> at a one-byte separator.\<close>

fun str_cut :: "char \<Rightarrow> string \<Rightarrow> (string \<times> string) option" where
  "str_cut sep [] = None"
| "str_cut sep (c # cs) =
    (if c = sep then Some ([], cs)
     else (case str_cut sep cs of None \<Rightarrow> None | Some (a, b) \<Rightarrow> Some (c # a, b)))"

text \<open>\<open>strings.FieldsFunc\<close>: the maximal runs of bytes outside the separator class.\<close>

fun fields_func_acc :: "(char \<Rightarrow> bool) \<Rightarrow> string \<Rightarrow> string \<Rightarrow> string list" where
  "fields_func_acc p acc [] = (if acc = [] then [] else [rev acc])"
| "fields_func_acc p acc (c # cs) =
    (if p c then (if acc = [] then [] else [rev acc]) @ fields_func_acc p [] cs
     else fields_func_acc p (c # acc) cs)"

definition fields_func :: "(char \<Rightarrow> bool) \<Rightarrow> string \<Rightarrow> string list" where
  "fields_func p s = fields_func_acc p [] s"

definition fields :: "string \<Rightarrow> string list" where
  "fields s = fields_func is_space s"

text \<open>\<open>strings.Split\<close> at a one-byte separator: never the empty list.\<close>

fun split_on :: "char \<Rightarrow> string \<Rightarrow> string list" where
  "split_on sep [] = [[]]"
| "split_on sep (c # cs) =
    (if c = sep then [] # split_on sep cs
     else (case split_on sep cs of [] \<Rightarrow> [[c]] | l # ls \<Rightarrow> (c # l) # ls))"

text \<open>
  The lines a \<open>bufio.Scanner\<close> yields: split at newlines, the empty text after a final
  newline is no line, and a carriage return before the newline is dropped.
\<close>

definition drop_cr :: "string \<Rightarrow> string" where
  "drop_cr l = (if l \<noteq> [] \<and> last l = CHR 0x0D then butlast l else l)"

definition scan_lines :: "string \<Rightarrow> string list" where
  "scan_lines s =
    (let ls = split_on newline s
     in map drop_cr (if last ls = [] then butlast ls else ls))"

fun join_with :: "string \<Rightarrow> string list \<Rightarrow> string" where
  "join_with sep [] = []"
| "join_with sep [s] = s"
| "join_with sep (s # t # ss) = s @ sep @ join_with sep (t # ss)"

definition equal_fold :: "string \<Rightarrow> string \<Rightarrow> bool" where
  "equal_fold a b \<longleftrightarrow> map to_lower a = map to_lower b"

text \<open>The trailing run of digits of a string, which the version helpers of the code scan for.\<close>

definition trailing_digits :: "string \<Rightarrow> string" where
  "trailing_digits s = rev (takeWhile is_digit (rev s))"

lemma cut_prefix_append [simp]: "cut_prefix p (p @ s) = Some s"
  by (induction p) auto

lemma cut_prefix_Some_iff: "cut_prefix p s = Some t \<longleftrightarrow> s = p @ t"
  by (induction p s rule: cut_prefix.induct) auto

lemma has_prefix_iff: "has_prefix p s \<longleftrightarrow> (\<exists>t. s = p @ t)"
  by (auto simp: has_prefix_def cut_prefix_Some_iff)

lemma str_cut_append [simp]: "sep \<notin> set a \<Longrightarrow> str_cut sep (a @ sep # b) = Some (a, b)"
  by (induction a) auto

lemma split_on_neq_Nil [simp]: "split_on sep s \<noteq> []"
  by (induction s) (auto split: list.splits)

lemma split_on_no_sep: "sep \<notin> set s \<Longrightarrow> split_on sep s = [s]"
  by (induction s) auto

lemma split_on_append [simp]:
  "sep \<notin> set a \<Longrightarrow> split_on sep (a @ sep # b) = a # split_on sep b"
  by (induction a) auto

lemma trailing_digits_append:
  assumes "list_all is_digit ds" and "p = [] \<or> \<not> is_digit (last p)"
  shows "trailing_digits (p @ ds) = ds"
proof -
  have ds: "\<forall>c \<in> set (rev ds). is_digit c"
    using assms(1) by (simp add: list_all_iff)
  have p: "takeWhile is_digit (rev p) = []"
    using assms(2) by (cases p rule: rev_cases) auto
  show ?thesis
    unfolding trailing_digits_def using ds p by (simp add: takeWhile_append)
qed

lemma trailing_digits_digits: "list_all is_digit (trailing_digits s)"
  by (auto simp: trailing_digits_def list_all_iff dest: set_takeWhileD)

subsection \<open>File modes\<close>

text \<open>The bits of \<open>info.Mode() & 0o111\<close>.\<close>

definition executable_mode :: "nat \<Rightarrow> bool" where
  "executable_mode mode \<longleftrightarrow> odd mode \<or> odd (mode div 8) \<or> odd (mode div 64)"

subsection \<open>Lists and options\<close>

text \<open>The first element that satisfies a predicate: a \<open>for\<close> loop with a \<open>return\<close> in it.\<close>

lemma list_all_filter [simp]: "list_all P (filter P xs)"
  by (simp add: list_all_iff)

lemma find_Some_set: "List.find P xs = Some x \<Longrightarrow> x \<in> set xs \<and> P x"
  by (auto simp: find_Some_iff)

end
