(* ===== verification/Deployment.thy ===== *)
theory Deployment
  imports Prelude "HOL-Library.AList"
begin

section \<open>The deployment record and its transitions\<close>

text \<open>
  internal/deployment: the record \<open>deployment.json\<close> holds (deployment.go), the transitions
  the daemon and the initramfs perform on it (transition.go) and the slot selection
  (slots.go). Every method with a pointer receiver is a function from the record to the new
  record, paired with its result if it has one. The clock is an argument: \<open>now k\<close> is the
  text of the \<open>k\<close>-th reading the call makes. A Go map is an association list with distinct
  keys, \<open>None\<close> is the nil map or the nil slice.
\<close>

subsection \<open>The record\<close>

definition FirmwareStableThreshold :: int where
  "FirmwareStableThreshold = 3"

record rootfs =
  rf_current :: string
  rf_pending :: string
  rf_pending_hash :: string
  rf_rollback :: string
  rf_boot_attempts :: int
  rf_max_attempts :: int
  rf_last_known_good :: string
  rf_last_known_good_at :: string

record kernelcache =
  kc_current_version :: int
  kc_pending_version :: int
  kc_state :: string
  kc_stable_boots :: int
  kc_stable_threshold :: int
  kc_format :: string

record firmware_bundle =
  fb_current_version :: int
  fb_pending_version :: int
  fb_pending_hash :: string
  fb_state :: string
  fb_probe_confirms :: int
  fb_stable_threshold :: int
  fb_last_known_good :: int
  fb_min_version :: int
  fb_last_updated :: string

record firmware =
  fw_bundles :: "(string \<times> firmware_bundle) list option"

record recovery =
  rc_version :: string
  rc_path :: string
  rc_last_updated :: string

record security =
  sc_level :: int
  sc_dm_verity :: bool
  sc_secure_boot :: bool
  sc_ima :: bool
  sc_signing_cert :: string
  sc_remote_attestation :: bool

record anti_rollback =
  ar_hardware :: string
  ar_counter_value :: int
  ar_last_updated :: string

record meta =
  mt_schema_version :: int
  mt_device_id :: string
  mt_channel :: string
  mt_last_update_check :: string

record deployment =
  d_rootfs :: rootfs
  d_kernelcache :: kernelcache
  d_firmware :: firmware
  d_recovery :: recovery
  d_security :: security
  d_anti_rollback :: anti_rollback
  d_orphan_homes :: "string list option"
  d_recovery_entry :: string
  d_meta :: meta

definition KCStable :: string where
  "KCStable = ''stable''"

definition KCUpdating :: string where
  "KCUpdating = ''updating''"

lemma KC_distinct [simp]: "KCStable \<noteq> KCUpdating" "KCUpdating \<noteq> KCStable" "KCUpdating \<noteq> []"
  by (simp_all add: KCStable_def KCUpdating_def)

type_synonym clock = "nat \<Rightarrow> string"

text \<open>The zero values Go gives a struct before anything is assigned to it.\<close>

definition zero_rootfs :: rootfs where
  "zero_rootfs = \<lparr>rf_current = [], rf_pending = [], rf_pending_hash = [], rf_rollback = [],
     rf_boot_attempts = 0, rf_max_attempts = 0, rf_last_known_good = [], rf_last_known_good_at = []\<rparr>"

definition zero_kernelcache :: kernelcache where
  "zero_kernelcache = \<lparr>kc_current_version = 0, kc_pending_version = 0, kc_state = [],
     kc_stable_boots = 0, kc_stable_threshold = 0, kc_format = []\<rparr>"

definition zero_bundle :: firmware_bundle where
  "zero_bundle = \<lparr>fb_current_version = 0, fb_pending_version = 0, fb_pending_hash = [],
     fb_state = [], fb_probe_confirms = 0, fb_stable_threshold = 0, fb_last_known_good = 0,
     fb_min_version = 0, fb_last_updated = []\<rparr>"

definition zero_recovery :: recovery where
  "zero_recovery = \<lparr>rc_version = [], rc_path = [], rc_last_updated = []\<rparr>"

definition zero_security :: security where
  "zero_security = \<lparr>sc_level = 0, sc_dm_verity = False, sc_secure_boot = False, sc_ima = False,
     sc_signing_cert = [], sc_remote_attestation = False\<rparr>"

definition zero_anti_rollback :: anti_rollback where
  "zero_anti_rollback = \<lparr>ar_hardware = [], ar_counter_value = 0, ar_last_updated = []\<rparr>"

definition zero_meta :: meta where
  "zero_meta = \<lparr>mt_schema_version = 0, mt_device_id = [], mt_channel = [], mt_last_update_check = []\<rparr>"

definition zero_deployment :: deployment where
  "zero_deployment = \<lparr>d_rootfs = zero_rootfs, d_kernelcache = zero_kernelcache,
     d_firmware = \<lparr>fw_bundles = None\<rparr>, d_recovery = zero_recovery, d_security = zero_security,
     d_anti_rollback = zero_anti_rollback, d_orphan_homes = None, d_recovery_entry = [],
     d_meta = zero_meta\<rparr>"

subsection \<open>The rootfs and kernelcache track\<close>

definition HasPending :: "deployment \<Rightarrow> bool" where
  "HasPending d \<longleftrightarrow> rf_pending (d_rootfs d) \<noteq> []"

text \<open>\<open>kcOf\<close>: the trailing digit run of a rootfs version, with the flag \<open>ok\<close>.\<close>

definition kcOf :: "string \<Rightarrow> int \<times> bool" where
  "kcOf rootfsVersion =
    (let ds = trailing_digits rootfsVersion in
     if ds = [] then (0, False)
     else (case atoi ds of None \<Rightarrow> (0, False) | Some n \<Rightarrow> (n, True)))"

definition New :: "clock \<Rightarrow> string \<Rightarrow> string \<Rightarrow> deployment" where
  "New now deviceID rootfsVersion =
    (let kc = fst (kcOf rootfsVersion) in
     zero_deployment\<lparr>
       d_rootfs := zero_rootfs\<lparr>rf_current := rootfsVersion, rf_max_attempts := 3,
         rf_last_known_good := rootfsVersion, rf_last_known_good_at := now 0\<rparr>,
       d_kernelcache := zero_kernelcache\<lparr>kc_current_version := kc, kc_state := KCStable,
         kc_stable_threshold := 3, kc_format := ''uki''\<rparr>,
       d_firmware := \<lparr>fw_bundles = Some []\<rparr>,
       d_anti_rollback := zero_anti_rollback\<lparr>ar_hardware := ''none''\<rparr>,
       d_orphan_homes := Some [],
       d_recovery_entry := ''recovery'',
       d_meta := zero_meta\<lparr>mt_schema_version := 1, mt_device_id := deviceID, mt_channel := ''stable''\<rparr>\<rparr>)"

definition Deploy :: "string \<Rightarrow> deployment \<Rightarrow> deployment" where
  "Deploy rootfsVersion d =
    (let r = (d_rootfs d)\<lparr>rf_pending := rootfsVersion,
               rf_boot_attempts := rf_max_attempts (d_rootfs d)\<rparr>;
         k0 = d_kernelcache d;
         k1 = (case kcOf rootfsVersion of (kc, ok) \<Rightarrow>
                 if ok then k0\<lparr>kc_pending_version := kc\<rparr> else k0);
         k2 = k1\<lparr>kc_state := KCUpdating, kc_stable_boots := 0\<rparr>
     in d\<lparr>d_rootfs := r, d_kernelcache := k2\<rparr>)"

definition promote :: "clock \<Rightarrow> deployment \<Rightarrow> deployment" where
  "promote now d =
    (let r = (d_rootfs d)\<lparr>rf_last_known_good := rf_current (d_rootfs d),
               rf_last_known_good_at := now 0, rf_pending := [], rf_boot_attempts := 0\<rparr>;
         k = (d_kernelcache d)\<lparr>kc_pending_version := 0, kc_stable_boots := 0, kc_state := KCStable\<rparr>;
         a = (d_anti_rollback d)\<lparr>ar_counter_value := kc_current_version k, ar_last_updated := now 1\<rparr>
     in d\<lparr>d_rootfs := r, d_kernelcache := k, d_anti_rollback := a\<rparr>)"

text \<open>The first good boot of a candidate makes the switch.\<close>

definition switch_to_pending :: "deployment \<Rightarrow> deployment" where
  "switch_to_pending d =
    (if rf_current (d_rootfs d) \<noteq> rf_pending (d_rootfs d)
     then d\<lparr>d_rootfs := (d_rootfs d)\<lparr>rf_rollback := rf_current (d_rootfs d),
              rf_current := rf_pending (d_rootfs d)\<rparr>,
            d_kernelcache := (d_kernelcache d)\<lparr>
              kc_current_version := kc_pending_version (d_kernelcache d)\<rparr>\<rparr>
     else d)"

definition RecordGoodBoot :: "clock \<Rightarrow> bool \<Rightarrow> deployment \<Rightarrow> bool \<times> deployment" where
  "RecordGoodBoot now identityConfirmed d =
    (if \<not> HasPending d then (False, d)
     else let d1 = switch_to_pending d;
              d2 = d1\<lparr>d_kernelcache := (d_kernelcache d1)\<lparr>
                       kc_stable_boots := wrap64 (kc_stable_boots (d_kernelcache d1) + 1)\<rparr>,
                      d_rootfs := (d_rootfs d1)\<lparr>
                       rf_boot_attempts := rf_max_attempts (d_rootfs d1)\<rparr>\<rparr>
          in if identityConfirmed \<and>
                kc_stable_boots (d_kernelcache d2) \<ge> kc_stable_threshold (d_kernelcache d2)
             then (True, promote now d2) else (False, d2))"

definition PromoteRunning :: "clock \<Rightarrow> deployment \<Rightarrow> deployment" where
  "PromoteRunning now d = (if HasPending d then promote now d else d)"

subsection \<open>The initramfs side\<close>

definition BootVersion :: "deployment \<Rightarrow> string \<times> bool" where
  "BootVersion d = (if HasPending d then (rf_pending (d_rootfs d), True)
                    else (rf_current (d_rootfs d), False))"

definition DecrementBootAttempt :: "deployment \<Rightarrow> bool \<times> deployment" where
  "DecrementBootAttempt d =
    (if \<not> HasPending d then (False, d)
     else let d1 = (if rf_boot_attempts (d_rootfs d) > 0
                    then d\<lparr>d_rootfs := (d_rootfs d)\<lparr>
                           rf_boot_attempts := rf_boot_attempts (d_rootfs d) - 1\<rparr>\<rparr>
                    else d)
          in (rf_boot_attempts (d_rootfs d1) \<le> 0, d1))"

definition Rollback :: "deployment \<Rightarrow> deployment" where
  "Rollback d =
    (let r0 = d_rootfs d;
         r1 = (if rf_last_known_good r0 \<noteq> [] then r0\<lparr>rf_current := rf_last_known_good r0\<rparr>
               else if rf_rollback r0 \<noteq> [] then r0\<lparr>rf_current := rf_rollback r0\<rparr>
               else r0);
         k0 = d_kernelcache d;
         k1 = (case kcOf (rf_current r1) of (kc, ok) \<Rightarrow>
                 if ok then k0\<lparr>kc_current_version := kc\<rparr> else k0)
     in d\<lparr>d_rootfs := r1\<lparr>rf_pending := [], rf_boot_attempts := 0\<rparr>,
          d_kernelcache := k1\<lparr>kc_pending_version := 0, kc_stable_boots := 0, kc_state := KCStable\<rparr>\<rparr>)"

definition NeedsRecovery :: "deployment \<Rightarrow> bool" where
  "NeedsRecovery d \<longleftrightarrow> HasPending d \<and> rf_boot_attempts (d_rootfs d) \<le> 0 \<and>
     rf_last_known_good (d_rootfs d) = []"

subsection \<open>Slot selection\<close>

datatype slot = SlotActive | SlotNext | SlotPrev | SlotRecovery

primrec slot_name :: "slot \<Rightarrow> string" where
  "slot_name SlotActive = ''active''"
| "slot_name SlotNext = ''next''"
| "slot_name SlotPrev = ''prev''"
| "slot_name SlotRecovery = ''recovery''"

definition PickBootTarget :: "deployment option \<Rightarrow> error + (slot \<times> slot)" where
  "PickBootTarget dp =
    (case dp of
       None \<Rightarrow> Inl (Errorf ''deployment: nil WAL'')
     | Some d \<Rightarrow>
         if NeedsRecovery d then Inr (SlotRecovery, SlotRecovery)
         else if HasPending d \<and> rf_boot_attempts (d_rootfs d) \<le> 0 then Inr (SlotPrev, SlotPrev)
         else if HasPending d then Inr (SlotNext, SlotNext)
         else Inr (SlotActive, SlotActive))"

subsection \<open>The firmware track\<close>

definition bundle_map :: "deployment \<Rightarrow> (string \<times> firmware_bundle) list" where
  "bundle_map d = (case fw_bundles (d_firmware d) of None \<Rightarrow> [] | Some m \<Rightarrow> m)"

definition set_bundle :: "string \<Rightarrow> firmware_bundle \<Rightarrow> deployment \<Rightarrow> deployment" where
  "set_bundle name b d = d\<lparr>d_firmware := \<lparr>fw_bundles = Some (AList.update name b (bundle_map d))\<rparr>\<rparr>"

text \<open>\<open>Bundle\<close>: the named bundle, created on first use; the deployment has it afterwards.\<close>

definition new_bundle :: firmware_bundle where
  "new_bundle = zero_bundle\<lparr>fb_state := KCStable, fb_stable_threshold := FirmwareStableThreshold\<rparr>"

definition Bundle :: "string \<Rightarrow> deployment \<Rightarrow> firmware_bundle \<times> deployment" where
  "Bundle name d =
    (case map_of (bundle_map d) name of
       Some b \<Rightarrow> (b, d)
     | None \<Rightarrow> (new_bundle, set_bundle name new_bundle d))"

definition HasPendingFirmware :: "string \<Rightarrow> deployment \<Rightarrow> bool" where
  "HasPendingFirmware bundle d =
    (case map_of (bundle_map d) bundle of
       None \<Rightarrow> False
     | Some b \<Rightarrow> fb_state b = KCUpdating \<and> fb_pending_version b \<noteq> 0)"

definition PendingFirmwareBundles :: "deployment \<Rightarrow> string list" where
  "PendingFirmwareBundles d = filter (\<lambda>name. HasPendingFirmware name d) (map fst (bundle_map d))"

definition HasAnyPendingFirmware :: "deployment \<Rightarrow> bool" where
  "HasAnyPendingFirmware d = list_ex (\<lambda>name. HasPendingFirmware name d) (map fst (bundle_map d))"

definition DeployFirmware :: "string \<Rightarrow> int \<Rightarrow> string \<Rightarrow> deployment \<Rightarrow> bool \<times> deployment" where
  "DeployFirmware bundle version hash d =
    (case Bundle bundle d of (b, d1) \<Rightarrow>
      if version \<le> fb_min_version b then (False, d1)
      else (True, set_bundle bundle (b\<lparr>fb_pending_version := version, fb_pending_hash := hash,
              fb_state := KCUpdating, fb_probe_confirms := 0\<rparr>) d1))"

definition promoteFirmware :: "clock \<Rightarrow> string \<Rightarrow> deployment \<Rightarrow> deployment" where
  "promoteFirmware now bundle d =
    (case Bundle bundle d of (b, d1) \<Rightarrow>
      set_bundle bundle (b\<lparr>fb_last_known_good := fb_current_version b,
        fb_min_version := fb_current_version b, fb_pending_version := 0, fb_pending_hash := [],
        fb_probe_confirms := 0, fb_state := KCStable, fb_last_updated := now 0\<rparr>) d1)"

definition RecordFirmwareProbe :: "clock \<Rightarrow> string \<Rightarrow> deployment \<Rightarrow> bool \<times> deployment" where
  "RecordFirmwareProbe now bundle d =
    (if \<not> HasPendingFirmware bundle d then (False, d)
     else case Bundle bundle d of (b, d1) \<Rightarrow>
       let b1 = (if fb_current_version b \<noteq> fb_pending_version b
                 then b\<lparr>fb_current_version := fb_pending_version b\<rparr> else b);
           b2 = b1\<lparr>fb_probe_confirms := wrap64 (fb_probe_confirms b1 + 1)\<rparr>;
           d2 = set_bundle bundle b2 d1
       in if fb_probe_confirms b2 \<ge> fb_stable_threshold b2
          then (True, promoteFirmware now bundle d2) else (False, d2))"

definition RollbackFirmware :: "string \<Rightarrow> deployment \<Rightarrow> deployment" where
  "RollbackFirmware bundle d =
    (case Bundle bundle d of (b, d1) \<Rightarrow>
      set_bundle bundle ((if fb_last_known_good b \<noteq> 0
                          then b\<lparr>fb_current_version := fb_last_known_good b\<rparr> else b)
        \<lparr>fb_pending_version := 0, fb_pending_hash := [], fb_probe_confirms := 0,
         fb_state := KCStable\<rparr>) d1)"

subsection \<open>Rewriting with the transitions\<close>

named_theorems transition_defs \<open>the transitions of the record, unfolded\<close>

lemmas [transition_defs] =
  Deploy_def promote_def switch_to_pending_def RecordGoodBoot_def PromoteRunning_def
  DecrementBootAttempt_def Rollback_def HasPending_def Let_def

text \<open>What the transitions do to the version pair, whatever the record holds.\<close>

lemma promote_sel [simp]:
  "rf_current (d_rootfs (promote now d)) = rf_current (d_rootfs d)"
  "rf_last_known_good (d_rootfs (promote now d)) = rf_current (d_rootfs d)"
  "rf_pending (d_rootfs (promote now d)) = []"
  "rf_boot_attempts (d_rootfs (promote now d)) = 0"
  "rf_max_attempts (d_rootfs (promote now d)) = rf_max_attempts (d_rootfs d)"
  "kc_state (d_kernelcache (promote now d)) = KCStable"
  "kc_stable_boots (d_kernelcache (promote now d)) = 0"
  "kc_pending_version (d_kernelcache (promote now d)) = 0"
  "kc_current_version (d_kernelcache (promote now d)) = kc_current_version (d_kernelcache d)"
  "kc_stable_threshold (d_kernelcache (promote now d)) = kc_stable_threshold (d_kernelcache d)"
  "ar_counter_value (d_anti_rollback (promote now d)) = kc_current_version (d_kernelcache d)"
  "d_firmware (promote now d) = d_firmware d"
  by (simp_all add: promote_def Let_def)

lemma HasPending_promote [simp]: "\<not> HasPending (promote now d)"
  by (simp add: HasPending_def)

lemma Deploy_sel [simp]:
  "rf_current (d_rootfs (Deploy v d)) = rf_current (d_rootfs d)"
  "rf_last_known_good (d_rootfs (Deploy v d)) = rf_last_known_good (d_rootfs d)"
  "rf_rollback (d_rootfs (Deploy v d)) = rf_rollback (d_rootfs d)"
  "rf_pending (d_rootfs (Deploy v d)) = v"
  "rf_boot_attempts (d_rootfs (Deploy v d)) = rf_max_attempts (d_rootfs d)"
  "rf_max_attempts (d_rootfs (Deploy v d)) = rf_max_attempts (d_rootfs d)"
  "kc_state (d_kernelcache (Deploy v d)) = KCUpdating"
  "kc_stable_boots (d_kernelcache (Deploy v d)) = 0"
  "kc_current_version (d_kernelcache (Deploy v d)) = kc_current_version (d_kernelcache d)"
  "kc_stable_threshold (d_kernelcache (Deploy v d)) = kc_stable_threshold (d_kernelcache d)"
  "d_anti_rollback (Deploy v d) = d_anti_rollback d"
  "d_firmware (Deploy v d) = d_firmware d"
  by (simp_all add: Deploy_def Let_def split: prod.splits)

lemma Deploy_pending_version:
  "kc_pending_version (d_kernelcache (Deploy v d)) =
     (if snd (kcOf v) then fst (kcOf v) else kc_pending_version (d_kernelcache d))"
  by (simp add: Deploy_def Let_def split: prod.splits)

lemma HasPending_Deploy [simp]: "HasPending (Deploy v d) \<longleftrightarrow> v \<noteq> []"
  by (simp add: HasPending_def)

lemma Rollback_sel [simp]:
  "rf_pending (d_rootfs (Rollback d)) = []"
  "rf_boot_attempts (d_rootfs (Rollback d)) = 0"
  "rf_max_attempts (d_rootfs (Rollback d)) = rf_max_attempts (d_rootfs d)"
  "rf_last_known_good (d_rootfs (Rollback d)) = rf_last_known_good (d_rootfs d)"
  "kc_state (d_kernelcache (Rollback d)) = KCStable"
  "kc_stable_boots (d_kernelcache (Rollback d)) = 0"
  "kc_pending_version (d_kernelcache (Rollback d)) = 0"
  "kc_stable_threshold (d_kernelcache (Rollback d)) = kc_stable_threshold (d_kernelcache d)"
  "d_anti_rollback (Rollback d) = d_anti_rollback d"
  "d_firmware (Rollback d) = d_firmware d"
  by (simp_all add: Rollback_def Let_def split: prod.splits)

lemma Rollback_current:
  "rf_current (d_rootfs (Rollback d)) =
     (if rf_last_known_good (d_rootfs d) \<noteq> [] then rf_last_known_good (d_rootfs d)
      else if rf_rollback (d_rootfs d) \<noteq> [] then rf_rollback (d_rootfs d)
      else rf_current (d_rootfs d))"
  by (simp add: Rollback_def Let_def split: prod.splits)

lemma Rollback_kc_current:
  "kc_current_version (d_kernelcache (Rollback d)) =
     (if snd (kcOf (rf_current (d_rootfs (Rollback d)))) then fst (kcOf (rf_current (d_rootfs (Rollback d))))
      else kc_current_version (d_kernelcache d))"
  by (simp add: Rollback_def Let_def split: prod.splits)

lemma Decrement_sel [simp]:
  "rf_pending (d_rootfs (snd (DecrementBootAttempt d))) = rf_pending (d_rootfs d)"
  "rf_current (d_rootfs (snd (DecrementBootAttempt d))) = rf_current (d_rootfs d)"
  "rf_max_attempts (d_rootfs (snd (DecrementBootAttempt d))) = rf_max_attempts (d_rootfs d)"
  "rf_last_known_good (d_rootfs (snd (DecrementBootAttempt d))) = rf_last_known_good (d_rootfs d)"
  "d_kernelcache (snd (DecrementBootAttempt d)) = d_kernelcache d"
  "d_anti_rollback (snd (DecrementBootAttempt d)) = d_anti_rollback d"
  "d_firmware (snd (DecrementBootAttempt d)) = d_firmware d"
  by (simp_all add: DecrementBootAttempt_def Let_def)

lemma Decrement_attempts:
  "rf_boot_attempts (d_rootfs (snd (DecrementBootAttempt d))) =
     (if HasPending d \<and> rf_boot_attempts (d_rootfs d) > 0
      then rf_boot_attempts (d_rootfs d) - 1 else rf_boot_attempts (d_rootfs d))"
  by (simp add: DecrementBootAttempt_def Let_def)

lemma Decrement_exhausted:
  "fst (DecrementBootAttempt d) \<longleftrightarrow>
     HasPending d \<and> rf_boot_attempts (d_rootfs (snd (DecrementBootAttempt d))) \<le> 0"
  by (simp add: DecrementBootAttempt_def Let_def)

lemma HasPending_Decrement [simp]: "HasPending (snd (DecrementBootAttempt d)) = HasPending d"
  by (simp add: HasPending_def)

text \<open>\<open>kcOf\<close> reads back the number at the end of a version.\<close>

lemma kcOf_numbered:
  assumes "p = [] \<or> \<not> is_digit (last p)" and "int n < 2 ^ 63"
  shows "kcOf (p @ nat_str n) = (int n, True)"
proof -
  have td: "trailing_digits (p @ nat_str n) = nat_str n"
    using nat_str_digits [of n] assms(1) by (intro trailing_digits_append) auto
  have "atoi (itoa (int n)) = Some (int n)"
    using assms(2) by (intro atoi_itoa) (simp add: int64_range_def)
  then have "atoi (nat_str n) = Some (int n)"
    by (simp add: itoa_def)
  then show ?thesis
    using nat_str_digits [of n] by (simp add: kcOf_def td)
qed

lemma kcOf_nonneg: "0 \<le> fst (kcOf v)"
proof (cases "atoi (trailing_digits v)")
  case None
  then show ?thesis by (simp add: kcOf_def Let_def)
next
  case (Some n)
  have ds: "list_all is_digit (trailing_digits v)" by (rule trailing_digits_digits)
  show ?thesis
  proof (cases "trailing_digits v")
    case Nil
    then show ?thesis by (simp add: kcOf_def)
  next
    case (Cons c t)
    with ds have "c \<noteq> CHR ''-''" by auto
    with Cons Some have "0 \<le> n"
      by (auto simp: atoi_def Let_def split: option.splits if_splits)
    with Some show ?thesis by (simp add: kcOf_def Let_def)
  qed
qed

subsection \<open>The firmware map\<close>

lemma bundle_map_set_bundle [simp]:
  "bundle_map (set_bundle name b d) = AList.update name b (bundle_map d)"
  by (simp add: bundle_map_def set_bundle_def)

lemma map_of_set_bundle:
  "map_of (bundle_map (set_bundle name b d)) = (map_of (bundle_map d))(name \<mapsto> b)"
  by (simp add: update_conv')

lemma set_bundle_sel [simp]:
  "d_rootfs (set_bundle name b d) = d_rootfs d"
  "d_kernelcache (set_bundle name b d) = d_kernelcache d"
  "d_anti_rollback (set_bundle name b d) = d_anti_rollback d"
  by (simp_all add: set_bundle_def)

text \<open>A firmware call changes nothing but the one bundle.\<close>

lemma Bundle_cases:
  obtains b d1 where "Bundle name d = (b, d1)"
    "d1 = d \<and> map_of (bundle_map d) name = Some b \<or>
     d1 = set_bundle name new_bundle d \<and> map_of (bundle_map d) name = None \<and> b = new_bundle"
  by (cases "map_of (bundle_map d) name") (auto simp: Bundle_def)

lemma HasPendingFirmware_Bundle:
  "HasPendingFirmware name d \<Longrightarrow>
     \<exists>b. Bundle name d = (b, d) \<and> map_of (bundle_map d) name = Some b \<and>
         fb_state b = KCUpdating \<and> fb_pending_version b \<noteq> 0"
  by (auto simp: HasPendingFirmware_def Bundle_def split: option.splits)

end
