(* ===== verification/Lifecycle.thy ===== *)
theory Lifecycle
  imports Deployment
begin

section \<open>The life of a deployment record\<close>

text \<open>
  The record as a state machine. \<open>wal_step\<close> collects the changes the program makes to a
  stored record: the daemon stages a candidate (otad/stage.go, \<open>Deploy\<close>), records a confirmed
  good boot or a boot of something else (\<open>BootSuccess\<close>), promotes the running candidate before
  the next update (otad/promote.go), abandons it (\<open>Rollback\<close>), stages, probes and rolls back
  firmware bundles; the initramfs spends a boot attempt. Each rule is one call of
  internal/deployment under the guard its callers have. \<open>wal_inv\<close> is the invariant of the
  reachable records, and the properties of the two-track update protocol follow from it.
\<close>

subsection \<open>Steps\<close>

text \<open>What \<open>BootSuccess\<close> does to the record when the running system is not the candidate:
  the good-boot count restarts and the budget follows the loader's, which never exceeds it.\<close>

definition reconcile_attempts :: "int \<Rightarrow> deployment \<Rightarrow> deployment" where
  "reconcile_attempts n d = d\<lparr>d_kernelcache := (d_kernelcache d)\<lparr>kc_stable_boots := 0\<rparr>,
      d_rootfs := (d_rootfs d)\<lparr>rf_boot_attempts := n\<rparr>\<rparr>"

inductive wal_step :: "deployment \<Rightarrow> deployment \<Rightarrow> bool" where
  stage: "v \<noteq> [] \<Longrightarrow> wal_step d (Deploy v d)"
| good_boot: "wal_step d (snd (RecordGoodBoot now True d))"
| promote_running: "1 \<le> kc_stable_boots (d_kernelcache d) \<Longrightarrow> wal_step d (PromoteRunning now d)"
| attempt: "wal_step d (snd (DecrementBootAttempt d))"
| other_boot: "HasPending d \<Longrightarrow> n \<le> rf_boot_attempts (d_rootfs d) \<Longrightarrow> wal_step d (reconcile_attempts n d)"
| rollback: "wal_step d (Rollback d)"
| stage_firmware: "wal_step d (snd (DeployFirmware name ver hash d))"
| probe_firmware: "wal_step d (snd (RecordFirmwareProbe now name d))"
| rollback_firmware: "wal_step d (RollbackFirmware name d)"

inductive reachable_wal :: "deployment \<Rightarrow> bool" where
  init: "v \<noteq> [] \<Longrightarrow> reachable_wal (New now dev v)"
| step: "reachable_wal d \<Longrightarrow> wal_step d d' \<Longrightarrow> reachable_wal d'"

inductive_cases wal_stepE: "wal_step d d'"

inductive_simps wal_step_New: "wal_step (New now dev v) d'"

subsection \<open>The invariant\<close>

definition bundle_inv :: "firmware_bundle \<Rightarrow> bool" where
  "bundle_inv b \<longleftrightarrow>
     fb_stable_threshold b = FirmwareStableThreshold \<and> 0 \<le> fb_min_version b \<and>
     fb_min_version b = fb_last_known_good b \<and>
     0 \<le> fb_probe_confirms b \<and> fb_probe_confirms b < FirmwareStableThreshold \<and>
     (fb_state b = KCStable \<and> fb_pending_version b = 0 \<and> fb_pending_hash b = [] \<and> fb_probe_confirms b = 0 \<or>
      fb_state b = KCUpdating \<and> fb_min_version b < fb_pending_version b) \<and>
     (0 < fb_probe_confirms b \<longrightarrow> fb_current_version b = fb_pending_version b)"

definition rootfs_inv :: "deployment \<Rightarrow> bool" where
  "rootfs_inv d \<longleftrightarrow>
     rf_max_attempts (d_rootfs d) = 3 \<and> kc_stable_threshold (d_kernelcache d) = 3 \<and>
     rf_current (d_rootfs d) \<noteq> [] \<and> rf_last_known_good (d_rootfs d) \<noteq> [] \<and>
     rf_boot_attempts (d_rootfs d) \<le> 3 \<and>
     0 \<le> kc_stable_boots (d_kernelcache d) \<and> kc_stable_boots (d_kernelcache d) < 3 \<and>
     (0 < kc_stable_boots (d_kernelcache d) \<longrightarrow> rf_current (d_rootfs d) = rf_pending (d_rootfs d)) \<and>
     (if HasPending d then kc_state (d_kernelcache d) = KCUpdating
      else rf_current (d_rootfs d) = rf_last_known_good (d_rootfs d) \<and>
           kc_state (d_kernelcache d) = KCStable \<and> kc_pending_version (d_kernelcache d) = 0 \<and>
           kc_stable_boots (d_kernelcache d) = 0 \<and> rf_boot_attempts (d_rootfs d) = 0)"

definition firmware_inv :: "deployment \<Rightarrow> bool" where
  "firmware_inv d \<longleftrightarrow> distinct (map fst (bundle_map d)) \<and>
     (\<forall>name b. map_of (bundle_map d) name = Some b \<longrightarrow> bundle_inv b)"

definition wal_inv :: "deployment \<Rightarrow> bool" where
  "wal_inv d \<longleftrightarrow> rootfs_inv d \<and> firmware_inv d"

lemma firmware_inv_cong: "d_firmware d' = d_firmware d \<Longrightarrow> firmware_inv d' = firmware_inv d"
  by (simp add: firmware_inv_def bundle_map_def)

lemma rootfs_inv_cong:
  "d_rootfs d' = d_rootfs d \<Longrightarrow> d_kernelcache d' = d_kernelcache d \<Longrightarrow> rootfs_inv d' = rootfs_inv d"
  by (simp add: rootfs_inv_def HasPending_def)

lemma bundle_inv_new [simp]: "bundle_inv new_bundle"
  by (simp add: bundle_inv_def new_bundle_def zero_bundle_def FirmwareStableThreshold_def)

lemma set_bundle_twice: "set_bundle name b (set_bundle name b' d) = set_bundle name b d"
  by (simp add: set_bundle_def bundle_map_def update_last)

lemma firmware_inv_set_bundle [simp]:
  "firmware_inv d \<Longrightarrow> bundle_inv b \<Longrightarrow> firmware_inv (set_bundle name b d)"
  unfolding firmware_inv_def
  by (auto simp: update_conv' distinct_update split: if_splits)

lemma firmware_inv_Bundle:
  assumes "firmware_inv d" and "Bundle name d = (b, d1)"
  shows "firmware_inv d1" "bundle_inv b"
  using assms by (auto simp: Bundle_def split: option.splits) (auto simp: firmware_inv_def)

lemma Bundle_sel:
  assumes "Bundle name d = (b, d1)"
  shows "d_rootfs d1 = d_rootfs d" "d_kernelcache d1 = d_kernelcache d"
    "d_anti_rollback d1 = d_anti_rollback d"
  using assms by (auto simp: Bundle_def split: option.splits)

text \<open>A firmware call leaves the rootfs track alone.\<close>

lemma firmware_calls_sel [simp]:
  "d_rootfs (snd (DeployFirmware n v h d)) = d_rootfs d"
  "d_kernelcache (snd (DeployFirmware n v h d)) = d_kernelcache d"
  "d_anti_rollback (snd (DeployFirmware n v h d)) = d_anti_rollback d"
  "d_rootfs (promoteFirmware now n d) = d_rootfs d"
  "d_kernelcache (promoteFirmware now n d) = d_kernelcache d"
  "d_anti_rollback (promoteFirmware now n d) = d_anti_rollback d"
  "d_rootfs (snd (RecordFirmwareProbe now n d)) = d_rootfs d"
  "d_kernelcache (snd (RecordFirmwareProbe now n d)) = d_kernelcache d"
  "d_anti_rollback (snd (RecordFirmwareProbe now n d)) = d_anti_rollback d"
  "d_rootfs (RollbackFirmware n d) = d_rootfs d"
  "d_kernelcache (RollbackFirmware n d) = d_kernelcache d"
  "d_anti_rollback (RollbackFirmware n d) = d_anti_rollback d"
  by (auto simp: DeployFirmware_def promoteFirmware_def RecordFirmwareProbe_def RollbackFirmware_def
      Let_def Bundle_sel split: prod.splits)

subsection \<open>Every step keeps the invariant\<close>

lemma rootfs_inv_New: "v \<noteq> [] \<Longrightarrow> rootfs_inv (New now dev v)"
  by (simp add: rootfs_inv_def New_def Let_def HasPending_def zero_deployment_def zero_rootfs_def
      zero_kernelcache_def)

lemma firmware_inv_New: "firmware_inv (New now dev v)"
  by (simp add: firmware_inv_def New_def Let_def bundle_map_def)

lemma New_sel [simp]:
  "rf_current (d_rootfs (New now dev v)) = v"
  "rf_last_known_good (d_rootfs (New now dev v)) = v"
  "rf_pending (d_rootfs (New now dev v)) = []"
  "kc_current_version (d_kernelcache (New now dev v)) = fst (kcOf v)"
  "kc_pending_version (d_kernelcache (New now dev v)) = 0"
  "ar_counter_value (d_anti_rollback (New now dev v)) = 0"
  by (simp_all add: New_def Let_def zero_deployment_def zero_rootfs_def zero_kernelcache_def
      zero_anti_rollback_def)

lemma rootfs_inv_Deploy: "rootfs_inv d \<Longrightarrow> v \<noteq> [] \<Longrightarrow> rootfs_inv (Deploy v d)"
  by (auto simp: rootfs_inv_def)

lemma rootfs_inv_promote: "rootfs_inv d \<Longrightarrow> rootfs_inv (promote now d)"
  by (simp add: rootfs_inv_def)

lemma rootfs_inv_RecordGoodBoot:
  assumes "rootfs_inv d"
  shows "rootfs_inv (snd (RecordGoodBoot now c d)) \<or> \<not> c"
proof (cases "HasPending d")
  case False
  with assms show ?thesis by (simp add: RecordGoodBoot_def)
next
  case True
  then show ?thesis
    using assms
    by (auto simp: rootfs_inv_def RecordGoodBoot_def switch_to_pending_def HasPending_def Let_def
        promote_def)
qed

lemma rootfs_inv_Decrement: "rootfs_inv d \<Longrightarrow> rootfs_inv (snd (DecrementBootAttempt d))"
  by (auto simp: rootfs_inv_def Decrement_attempts HasPending_def)

lemma rootfs_inv_reconcile:
  "rootfs_inv d \<Longrightarrow> HasPending d \<Longrightarrow> n \<le> rf_boot_attempts (d_rootfs d) \<Longrightarrow>
   rootfs_inv (reconcile_attempts n d)"
  by (auto simp: rootfs_inv_def reconcile_attempts_def HasPending_def)

lemma rootfs_inv_Rollback: "rootfs_inv d \<Longrightarrow> rootfs_inv (Rollback d)"
  by (auto simp: rootfs_inv_def Rollback_current HasPending_def)

lemma rootfs_calls_firmware [simp]:
  "d_firmware (snd (RecordGoodBoot now c d)) = d_firmware d"
  "d_firmware (PromoteRunning now d) = d_firmware d"
  "d_firmware (reconcile_attempts n d) = d_firmware d"
  by (simp_all add: RecordGoodBoot_def switch_to_pending_def PromoteRunning_def Let_def
      reconcile_attempts_def)

lemma firmware_inv_Deploy: "firmware_inv d \<Longrightarrow> firmware_inv (snd (DeployFirmware name ver hash d))"
  by (cases "Bundle name d")
    (auto simp: DeployFirmware_def bundle_inv_def dest: firmware_inv_Bundle
      intro!: firmware_inv_set_bundle)

lemma firmware_inv_probe:
  assumes "firmware_inv d"
  shows "firmware_inv (snd (RecordFirmwareProbe now name d))"
proof (cases "HasPendingFirmware name d")
  case False
  with assms show ?thesis by (simp add: RecordFirmwareProbe_def)
next
  case True
  then obtain b where b: "Bundle name d = (b, d)" "fb_state b = KCUpdating" "fb_pending_version b \<noteq> 0"
    by (blast dest: HasPendingFirmware_Bundle)
  have inv: "bundle_inv b" using firmware_inv_Bundle [OF assms b(1)] by simp
  have get: "Bundle name (set_bundle name b' d) = (b', set_bundle name b' d)" for b'
    by (simp add: Bundle_def map_of_set_bundle del: bundle_map_set_bundle)
  show ?thesis
    using True b inv assms
    by (auto simp: RecordFirmwareProbe_def promoteFirmware_def Let_def get set_bundle_twice bundle_inv_def
        FirmwareStableThreshold_def intro!: firmware_inv_set_bundle)
qed

lemma firmware_inv_rollback:
  assumes "firmware_inv d"
  shows "firmware_inv (RollbackFirmware name d)"
proof -
  obtain b d1 where b: "Bundle name d = (b, d1)" by (cases "Bundle name d")
  show ?thesis
    using firmware_inv_Bundle [OF assms b]
    by (auto simp: RollbackFirmware_def b bundle_inv_def FirmwareStableThreshold_def
        intro!: firmware_inv_set_bundle)
qed

lemmas rootfs_inv_calls =
  rootfs_inv_Deploy rootfs_inv_promote rootfs_inv_Decrement rootfs_inv_reconcile rootfs_inv_Rollback

lemma wal_inv_step:
  assumes "wal_step d d'" and "wal_inv d"
  shows "wal_inv d'"
  using assms
proof (induction rule: wal_step.induct)
  case (good_boot d now)
  then show ?case
    using rootfs_inv_RecordGoodBoot [of d now True]
    by (auto simp: wal_inv_def cong: firmware_inv_cong)
next
  case (promote_running d now)
  then show ?case
    by (auto simp: wal_inv_def PromoteRunning_def rootfs_inv_promote cong: firmware_inv_cong)
qed (auto simp: wal_inv_def firmware_inv_Deploy firmware_inv_probe firmware_inv_rollback
    intro: rootfs_inv_calls cong: firmware_inv_cong rootfs_inv_cong)

lemma wal_inv_New: "v \<noteq> [] \<Longrightarrow> wal_inv (New now dev v)"
  by (simp add: wal_inv_def rootfs_inv_New firmware_inv_New)

lemma reachable_inv: "reachable_wal d \<Longrightarrow> wal_inv d"
  by (induction rule: reachable_wal.induct) (auto intro: wal_inv_New wal_inv_step)

lemma reachable_rootfs_inv: "reachable_wal d \<Longrightarrow> rootfs_inv d"
  using reachable_inv by (simp add: wal_inv_def)

text \<open>C11. Whatever sequence of stagings, good boots, failed boots, promotions, rollbacks and
  firmware operations a device goes through, its record satisfies the invariant: with no
  candidate in flight it is stable, its counters are zero and its current version is the last
  known good one; with a candidate the state is \<open>updating\<close>, the boot budget is at most three
  and fewer than three good boots are counted; every firmware bundle's candidate is above its
  anti-rollback floor.\<close>

theorem reachable_wal_inv:
  assumes "reachable_wal d"
  shows "wal_inv d"
  using assms by (rule reachable_inv)

definition sample_clock :: clock where
  "sample_clock k = ''2026-01-01T00:00:00Z''"

definition sample_wal :: deployment where
  "sample_wal = New sample_clock ''dev'' ''v42''"

definition sample_trial :: deployment where
  "sample_trial = Deploy ''v43'' sample_wal"

lemma reachable_sample: "reachable_wal sample_wal" "reachable_wal sample_trial"
proof -
  show w: "reachable_wal sample_wal"
    unfolding sample_wal_def by (rule reachable_wal.init) simp
  show "reachable_wal sample_trial"
    unfolding sample_trial_def by (rule reachable_wal.step [OF w]) (simp add: wal_step.stage)
qed

lemma reachable_wal_inv_witness: "wal_inv sample_trial"
  by (rule reachable_wal_inv [OF reachable_sample(2)])

subsection \<open>Booting and counting\<close>

text \<open>C12. The slot both halves boot from: on a reachable record the selection always returns
  a slot, the same one for the root file system and the kernel cache, never the recovery slot;
  it is \<open>next\<close> exactly while a candidate has boot attempts left, \<open>prev\<close> exactly when the
  budget is spent, \<open>active\<close> exactly without a candidate.\<close>

theorem PickBootTarget_reachable:
  assumes "reachable_wal d"
  shows "PickBootTarget (Some d) =
    Inr (let s = (if \<not> HasPending d then SlotActive
                  else if 0 < rf_boot_attempts (d_rootfs d) then SlotNext else SlotPrev) in (s, s))"
  using reachable_rootfs_inv [OF assms]
  by (simp add: PickBootTarget_def NeedsRecovery_def rootfs_inv_def)

lemma PickBootTarget_reachable_witness: "PickBootTarget (Some sample_trial) = Inr (SlotNext, SlotNext)"
  using PickBootTarget_reachable [OF reachable_sample(2)]
  by (simp add: sample_trial_def sample_wal_def New_def zero_rootfs_def Let_def)

definition good_boots :: "clock \<Rightarrow> nat \<Rightarrow> deployment \<Rightarrow> deployment" where
  "good_boots now n = (\<lambda>d. snd (RecordGoodBoot now True d)) ^^ n"

definition failed_boots :: "nat \<Rightarrow> deployment \<Rightarrow> deployment" where
  "failed_boots n = (\<lambda>d. snd (DecrementBootAttempt d)) ^^ n"

text \<open>One confirmed good boot of a candidate, with a budget and threshold in range.\<close>

lemma RecordGoodBoot_confirmed:
  assumes "HasPending d" and "0 \<le> kc_stable_boots (d_kernelcache d)"
    and "kc_stable_boots (d_kernelcache d) < kc_stable_threshold (d_kernelcache d)"
    and "kc_stable_threshold (d_kernelcache d) = 3"
  shows "RecordGoodBoot now True d =
    (let d1 = switch_to_pending d;
         d2 = d1\<lparr>d_kernelcache := (d_kernelcache d1)\<lparr>kc_stable_boots := kc_stable_boots (d_kernelcache d) + 1\<rparr>,
                d_rootfs := (d_rootfs d1)\<lparr>rf_boot_attempts := rf_max_attempts (d_rootfs d)\<rparr>\<rparr>
     in if kc_stable_boots (d_kernelcache d) + 1 = 3 then (True, promote now d2) else (False, d2))"
  using assms by (auto simp: RecordGoodBoot_def switch_to_pending_def Let_def)

lemma switch_to_pending_sel [simp]:
  "rf_current (d_rootfs (switch_to_pending d)) = rf_pending (d_rootfs d)"
  "rf_pending (d_rootfs (switch_to_pending d)) = rf_pending (d_rootfs d)"
  "rf_last_known_good (d_rootfs (switch_to_pending d)) = rf_last_known_good (d_rootfs d)"
  "rf_max_attempts (d_rootfs (switch_to_pending d)) = rf_max_attempts (d_rootfs d)"
  "kc_state (d_kernelcache (switch_to_pending d)) = kc_state (d_kernelcache d)"
  "kc_stable_boots (d_kernelcache (switch_to_pending d)) = kc_stable_boots (d_kernelcache d)"
  "kc_stable_threshold (d_kernelcache (switch_to_pending d)) = kc_stable_threshold (d_kernelcache d)"
  "kc_pending_version (d_kernelcache (switch_to_pending d)) = kc_pending_version (d_kernelcache d)"
  "d_anti_rollback (switch_to_pending d) = d_anti_rollback d"
  "d_firmware (switch_to_pending d) = d_firmware d"
  by (simp_all add: switch_to_pending_def)

text \<open>C13. A freshly staged candidate is promoted by the third confirmed good boot and by no
  earlier one: until then the record still holds the old last known good version and the old
  anti-rollback counter, after it the candidate is the last known good one.\<close>

theorem promotion_at_threshold:
  assumes "reachable_wal d" and "v \<noteq> []"
  shows "(\<forall>n \<in> {0, 1, 2}. rf_pending (d_rootfs (good_boots now n (Deploy v d))) = v \<and>
           rf_last_known_good (d_rootfs (good_boots now n (Deploy v d))) = rf_last_known_good (d_rootfs d) \<and>
           d_anti_rollback (good_boots now n (Deploy v d)) = d_anti_rollback d) \<and>
         rf_pending (d_rootfs (good_boots now 3 (Deploy v d))) = [] \<and>
         rf_current (d_rootfs (good_boots now 3 (Deploy v d))) = v \<and>
         rf_last_known_good (d_rootfs (good_boots now 3 (Deploy v d))) = v"
proof -
  have thr: "kc_stable_threshold (d_kernelcache d) = 3"
    using reachable_rootfs_inv [OF assms(1)] by (simp add: rootfs_inv_def)
  note gb = RecordGoodBoot_confirmed HasPending_def good_boots_def numeral_3_eq_3 assms(2) thr Let_def
  show ?thesis by (simp add: gb numeral_2_eq_2)
qed

lemma promotion_at_threshold_witness:
  "rf_pending (d_rootfs (good_boots sample_clock 2 sample_trial)) = ''v43'' \<and>
   rf_last_known_good (d_rootfs (good_boots sample_clock 3 sample_trial)) = ''v43''"
  using promotion_at_threshold [OF reachable_sample(1), of "''v43''" sample_clock]
  by (simp add: sample_trial_def)

text \<open>C14. A staged candidate that never comes up good is tried exactly three times: the record
  still selects the \<open>next\<close> slot before each of the first three boots, the third failed
  boot is the one reported as exhausting the budget, and from then on \<open>prev\<close> is selected and
  a rollback leads to the version that was last known good before.\<close>

theorem budget_exhausted_at_third_failure:
  assumes "reachable_wal d" and "v \<noteq> []"
  shows "(\<forall>n \<in> {0, 1, 2}. PickBootTarget (Some (failed_boots n (Deploy v d))) = Inr (SlotNext, SlotNext)) \<and>
         map (\<lambda>n. fst (DecrementBootAttempt (failed_boots n (Deploy v d)))) [0, 1, 2] = [False, False, True] \<and>
         PickBootTarget (Some (failed_boots (3 + k) (Deploy v d))) = Inr (SlotPrev, SlotPrev) \<and>
         rf_current (d_rootfs (Rollback (failed_boots (3 + k) (Deploy v d)))) = rf_last_known_good (d_rootfs d)"
proof -
  have inv: "rf_max_attempts (d_rootfs d) = 3" "rf_last_known_good (d_rootfs d) \<noteq> []"
    using reachable_rootfs_inv [OF assms(1)] by (simp_all add: rootfs_inv_def)
  have att: "HasPending (failed_boots n (Deploy v d))"
    "rf_boot_attempts (d_rootfs (failed_boots n (Deploy v d))) = max 0 (3 - int n)"
    "rf_last_known_good (d_rootfs (failed_boots n (Deploy v d))) = rf_last_known_good (d_rootfs d)" for n
    by (induction n) (auto simp: failed_boots_def Decrement_attempts inv assms(2))
  show ?thesis
    using inv(2)
    by (simp add: PickBootTarget_def NeedsRecovery_def Decrement_exhausted Decrement_attempts att Rollback_current)
qed

lemma budget_exhausted_at_third_failure_witness:
  "PickBootTarget (Some (failed_boots 3 sample_trial)) = Inr (SlotPrev, SlotPrev) \<and>
   rf_current (d_rootfs (Rollback (failed_boots 3 sample_trial))) = ''v42''"
  using budget_exhausted_at_third_failure [OF reachable_sample(1), of "''v43''" 0]
  by (simp add: sample_trial_def sample_wal_def)

subsection \<open>The anti-rollback counter\<close>

lemma wal_step_counter:
  assumes "wal_step d d'" and "rootfs_inv d" and "ar_counter_value (d_anti_rollback d') \<noteq> ar_counter_value (d_anti_rollback d)"
  shows "HasPending d \<and> 1 \<le> kc_stable_boots (d_kernelcache d) \<and> \<not> HasPending d' \<and>
    rf_current (d_rootfs d) = rf_pending (d_rootfs d) \<and>
    rf_last_known_good (d_rootfs d') = rf_pending (d_rootfs d) \<and>
    ar_counter_value (d_anti_rollback d') = kc_current_version (d_kernelcache d)"
  using assms
proof (induction rule: wal_step.induct)
  case (good_boot d now)
  then show ?case
    by (auto simp: RecordGoodBoot_def Let_def rootfs_inv_def switch_to_pending_def HasPending_def
        split: if_splits)
next
  case (promote_running d now)
  then show ?case
    by (auto simp: PromoteRunning_def rootfs_inv_def split: if_splits)
qed (auto simp: reconcile_attempts_def)

text \<open>C15. The recorded anti-rollback counter moves only when a candidate is promoted that is
  running already and has had a good boot: then the candidate becomes the last known good
  version and the counter becomes its kernel cache version. No staged, failed or rolled back
  candidate and no firmware operation moves it.\<close>

theorem counter_moves_only_on_promotion:
  assumes "reachable_wal d" and "wal_step d d'"
    and "ar_counter_value (d_anti_rollback d') \<noteq> ar_counter_value (d_anti_rollback d)"
  shows "HasPending d \<and> 1 \<le> kc_stable_boots (d_kernelcache d) \<and> \<not> HasPending d' \<and>
    rf_current (d_rootfs d) = rf_pending (d_rootfs d) \<and>
    rf_last_known_good (d_rootfs d') = rf_pending (d_rootfs d) \<and>
    ar_counter_value (d_anti_rollback d') = kc_current_version (d_kernelcache d)"
  using wal_step_counter [OF assms(2) reachable_rootfs_inv [OF assms(1)] assms(3)] .

lemma reachable_good_boots: "reachable_wal d \<Longrightarrow> reachable_wal (good_boots now n d)"
  by (induction n) (auto simp: good_boots_def intro: reachable_wal.step wal_step.good_boot)

lemma sample_promotion:
  "ar_counter_value (d_anti_rollback (good_boots sample_clock 3 sample_trial)) = 43 \<and>
   ar_counter_value (d_anti_rollback (good_boots sample_clock 2 sample_trial)) = 0"
  by code_simp

lemma counter_moves_only_on_promotion_witness:
  "HasPending (good_boots sample_clock 2 sample_trial) \<and>
   ar_counter_value (d_anti_rollback (good_boots sample_clock 3 sample_trial)) = 43"
proof -
  have st: "wal_step (good_boots sample_clock 2 sample_trial) (good_boots sample_clock 3 sample_trial)"
    unfolding good_boots_def numeral_3_eq_3 numeral_2_eq_2 by (auto intro: wal_step.good_boot)
  show ?thesis
    using counter_moves_only_on_promotion [OF reachable_good_boots [OF reachable_sample(2)] st]
      sample_promotion by simp
qed

subsection \<open>Rollback and the version coupling\<close>

text \<open>Abandoning a candidate at any reachable moment returns the device to the last known
  good version with no candidate, the active slot selected and the anti-rollback counter and
  the firmware track untouched; doing it twice is doing it once.\<close>

theorem Rollback_restores_last_known_good:
  assumes "reachable_wal d"
  shows "rf_current (d_rootfs (Rollback d)) = rf_last_known_good (d_rootfs d) \<and>
    \<not> HasPending (Rollback d) \<and> PickBootTarget (Some (Rollback d)) = Inr (SlotActive, SlotActive) \<and>
    d_anti_rollback (Rollback d) = d_anti_rollback d \<and> d_firmware (Rollback d) = d_firmware d \<and>
    Rollback (Rollback d) = Rollback d"
proof -
  have lkg: "rf_last_known_good (d_rootfs d) \<noteq> []"
    using reachable_rootfs_inv [OF assms] by (simp add: rootfs_inv_def)
  then have "Rollback (Rollback d) = Rollback d"
    by (simp add: Rollback_def Let_def split: prod.splits)
  with lkg show ?thesis
    by (simp add: Rollback_current HasPending_def PickBootTarget_def NeedsRecovery_def)
qed

lemma Rollback_restores_last_known_good_witness:
  "rf_current (d_rootfs (Rollback sample_trial)) = ''v42''"
  using Rollback_restores_last_known_good [OF reachable_sample(2)]
  by (simp add: sample_trial_def sample_wal_def)

text \<open>A record is coupled when its version strings carry a number and the kernel cache
  integers are these numbers.\<close>

definition numbered :: "string \<Rightarrow> bool" where
  "numbered v \<longleftrightarrow> snd (kcOf v)"

definition coupled :: "deployment \<Rightarrow> bool" where
  "coupled d \<longleftrightarrow>
     numbered (rf_current (d_rootfs d)) \<and> kc_current_version (d_kernelcache d) = fst (kcOf (rf_current (d_rootfs d))) \<and>
     numbered (rf_last_known_good (d_rootfs d)) \<and>
     (HasPending d \<longrightarrow> kc_pending_version (d_kernelcache d) = fst (kcOf (rf_pending (d_rootfs d))))"

lemma numbered_Nil [simp]: "\<not> numbered []"
  by (simp add: numbered_def kcOf_def trailing_digits_def)

lemma coupled_cong:
  "d_rootfs d' = d_rootfs d \<Longrightarrow> d_kernelcache d' = d_kernelcache d \<Longrightarrow> coupled d' = coupled d"
  by (simp add: coupled_def HasPending_def)

text \<open>The root file system and the kernel cache move together: as long as every staged
  version ends in a number, each step keeps the kernel cache versions equal to the numbers of
  the root file system versions, through staging, the switch at the first good boot, promotion
  and rollback.\<close>

theorem step_keeps_versions_coupled:
  assumes "wal_step d d'" and "coupled d"
    and "rf_pending (d_rootfs d) = [] \<or> numbered (rf_pending (d_rootfs d))"
    and "rf_pending (d_rootfs d') = [] \<or> numbered (rf_pending (d_rootfs d'))"
  shows "coupled d'"
  using assms
proof (induction rule: wal_step.induct)
  case (good_boot d now)
  then show ?case
    by (auto simp: RecordGoodBoot_def switch_to_pending_def Let_def coupled_def HasPending_def promote_def)
next
  case (promote_running d now)
  then show ?case
    by (auto simp: PromoteRunning_def coupled_def HasPending_def)
next
  case (rollback d)
  then show ?case
    by (auto simp: coupled_def HasPending_def Rollback_kc_current Rollback_current numbered_def [symmetric])
next
  case (stage v d)
  then show ?case
    by (auto simp: coupled_def HasPending_def Deploy_pending_version numbered_def)
next
  case (attempt d)
  then show ?case by (simp add: coupled_def)
next
  case (other_boot d n)
  then show ?case by (simp add: coupled_def HasPending_def reconcile_attempts_def)
qed (auto simp: coupled_def HasPending_def)

lemma step_keeps_versions_coupled_witness:
  "coupled sample_trial \<and> kc_pending_version (d_kernelcache sample_trial) = 43"
proof -
  have "coupled sample_wal" "numbered ''v43''" "rf_pending (d_rootfs sample_wal) = []"
    "rf_pending (d_rootfs sample_trial) = ''v43''"
    "kc_pending_version (d_kernelcache sample_trial) = 43"
    by code_simp+
  moreover have "wal_step sample_wal sample_trial"
    unfolding sample_trial_def by (rule wal_step.stage) simp
  ultimately show ?thesis
    using step_keeps_versions_coupled [of sample_wal sample_trial] by simp
qed

subsection \<open>The firmware floor\<close>

definition firmware_floor :: "string \<Rightarrow> deployment \<Rightarrow> int" where
  "firmware_floor name d =
    (case map_of (bundle_map d) name of None \<Rightarrow> 0 | Some b \<Rightarrow> fb_min_version b)"

lemma firmware_floor_set_bundle:
  "firmware_floor n (set_bundle name b d) = (if n = name then fb_min_version b else firmware_floor n d)"
  by (simp add: firmware_floor_def update_conv')

lemma firmware_floor_Bundle:
  assumes "Bundle name d = (b, d1)"
  shows "fb_min_version b = firmware_floor name d" "firmware_floor n d1 = firmware_floor n d"
  using assms
  by (auto simp: Bundle_def firmware_floor_def update_conv' new_bundle_def zero_bundle_def
      split: option.splits if_splits)

lemma firmware_floor_cong: "d_firmware d' = d_firmware d \<Longrightarrow> firmware_floor n d' = firmware_floor n d"
  by (simp add: firmware_floor_def bundle_map_def)

lemma firmware_floor_probe:
  assumes "firmware_inv d"
  shows "firmware_floor n d \<le> firmware_floor n (snd (RecordFirmwareProbe now name d))"
proof (cases "HasPendingFirmware name d")
  case False
  then show ?thesis by (simp add: RecordFirmwareProbe_def)
next
  case True
  then obtain b where b: "Bundle name d = (b, d)" "fb_state b = KCUpdating"
    by (blast dest: HasPendingFirmware_Bundle)
  have inv: "bundle_inv b" using firmware_inv_Bundle [OF assms b(1)] by simp
  have get: "Bundle name (set_bundle name b' d) = (b', set_bundle name b' d)" for b'
    by (simp add: Bundle_def map_of_set_bundle del: bundle_map_set_bundle)
  show ?thesis
    using True b inv
    by (auto simp: RecordFirmwareProbe_def promoteFirmware_def Let_def get bundle_inv_def
        firmware_floor_set_bundle firmware_floor_Bundle(1) [OF b(1)])
qed

lemma firmware_floor_calls [simp]:
  "firmware_floor n (snd (DeployFirmware name ver hash d)) = firmware_floor n d"
  "firmware_floor n (RollbackFirmware name d) = firmware_floor n d"
proof -
  obtain b d1 where b: "Bundle name d = (b, d1)" by (cases "Bundle name d")
  show "firmware_floor n (snd (DeployFirmware name ver hash d)) = firmware_floor n d"
    "firmware_floor n (RollbackFirmware name d) = firmware_floor n d"
    by (simp_all add: DeployFirmware_def RollbackFirmware_def b firmware_floor_set_bundle
        firmware_floor_Bundle [OF b])
qed

text \<open>C16. No operation lowers the anti-rollback floor of a firmware bundle, and
  \<open>DeployFirmware\<close> accepts a version exactly when it is above that floor; a refused one
  changes no bundle that exists.\<close>

theorem firmware_floor_monotone:
  assumes "reachable_wal d" and "wal_step d d'"
  shows "firmware_floor name d \<le> firmware_floor name d' \<and>
    (fst (DeployFirmware name ver hash d) = (firmware_floor name d < ver)) \<and>
    (if firmware_floor name d < ver then HasPendingFirmware name (snd (DeployFirmware name ver hash d))
     else map_of (bundle_map (snd (DeployFirmware name ver hash d))) name \<in>
       {map_of (bundle_map d) name, Some new_bundle})"
proof -
  have inv: "firmware_inv d" using reachable_inv [OF assms(1)] by (simp add: wal_inv_def)
  obtain b d1 where b: "Bundle name d = (b, d1)" by (cases "Bundle name d")
  have "0 \<le> firmware_floor name d"
    using firmware_inv_Bundle(2) [OF inv b] firmware_floor_Bundle(1) [OF b] by (simp add: bundle_inv_def)
  moreover have "firmware_floor name d \<le> firmware_floor name d'"
    using assms(2) inv
  proof (induction rule: wal_step.induct)
    case (probe_firmware d now n)
    then show ?case by (rule_tac firmware_floor_probe)
  qed (simp_all add: reconcile_attempts_def cong: firmware_floor_cong)
  moreover have "map_of (bundle_map d1) name \<in> {map_of (bundle_map d) name, Some new_bundle}"
    using b by (auto simp: Bundle_def update_conv' split: option.splits)
  ultimately show ?thesis
    using firmware_floor_Bundle(1) [OF b]
    by (auto simp: DeployFirmware_def b HasPendingFirmware_def update_conv')
qed

lemma firmware_floor_monotone_witness:
  "fst (DeployFirmware ''wifi'' 7 [] sample_trial) \<and> \<not> fst (DeployFirmware ''wifi'' 0 [] sample_trial)"
proof -
  have "wal_step sample_trial (Rollback sample_trial)" by (rule wal_step.rollback)
  note m = firmware_floor_monotone [OF reachable_sample(2) this, of "''wifi''"]
  have "firmware_floor ''wifi'' sample_trial = 0" by code_simp
  with m [of 7 "[]"] m [of 0 "[]"] show ?thesis by simp
qed

text \<open>The same number of device probes promotes a firmware candidate.\<close>

definition good_probes :: "clock \<Rightarrow> string \<Rightarrow> nat \<Rightarrow> deployment \<Rightarrow> deployment" where
  "good_probes now name n = (\<lambda>d. snd (RecordFirmwareProbe now name d)) ^^ n"

lemma probe_set_bundle:
  assumes "fb_state b = KCUpdating" and "fb_pending_version b \<noteq> 0" and "fb_stable_threshold b = 3"
    and "0 \<le> fb_probe_confirms b" and "fb_probe_confirms b < 3"
  shows "snd (RecordFirmwareProbe now name (set_bundle name b d)) =
    set_bundle name
      (if fb_probe_confirms b + 1 = 3
       then b\<lparr>fb_current_version := fb_pending_version b, fb_probe_confirms := 0,
             fb_last_known_good := fb_pending_version b, fb_min_version := fb_pending_version b,
             fb_pending_version := 0, fb_pending_hash := [], fb_state := KCStable, fb_last_updated := now 0\<rparr>
       else b\<lparr>fb_current_version := fb_pending_version b, fb_probe_confirms := fb_probe_confirms b + 1\<rparr>) d"
proof -
  have get: "Bundle name (set_bundle name b' d) = (b', set_bundle name b' d)" for b'
    by (simp add: Bundle_def map_of_set_bundle del: bundle_map_set_bundle)
  show ?thesis
    using assms
    by (cases b) (auto simp: RecordFirmwareProbe_def promoteFirmware_def HasPendingFirmware_def get
        set_bundle_twice update_conv' Let_def)
qed

text \<open>A firmware candidate above the floor is in flight after it is staged, stays in flight
  through two clean device probes with the floor where it was, and the third probe promotes it
  and raises the floor to its version, from where staging it again is refused. A failed probe
  instead ends the trial with the floor unchanged.\<close>

theorem firmware_promotion_at_threshold:
  assumes "reachable_wal d" and "firmware_floor name d < ver"
    and "d' = snd (DeployFirmware name ver hash d)"
  shows "map (\<lambda>n. (HasPendingFirmware name (good_probes now name n d'), firmware_floor name (good_probes now name n d'))) [0, 1, 2, 3]
      = [(True, firmware_floor name d), (True, firmware_floor name d), (True, firmware_floor name d), (False, ver)] \<and>
    \<not> fst (DeployFirmware name ver hash (good_probes now name 3 d')) \<and>
    \<not> HasPendingFirmware name (RollbackFirmware name d') \<and>
    firmware_floor name (RollbackFirmware name d') = firmware_floor name d"
proof -
  have inv: "firmware_inv d" using reachable_inv [OF assms(1)] by (simp add: wal_inv_def)
  obtain b d1 where b: "Bundle name d = (b, d1)" by (cases "Bundle name d")
  have bi: "bundle_inv b" using firmware_inv_Bundle(2) [OF inv b] .
  have floor: "fb_min_version b = firmware_floor name d" using firmware_floor_Bundle(1) [OF b] .
  define b' where "b' = b\<lparr>fb_pending_version := ver, fb_pending_hash := hash, fb_state := KCUpdating, fb_probe_confirms := 0\<rparr>"
  have d': "d' = set_bundle name b' d1"
    using assms(2,3) floor by (simp add: DeployFirmware_def b b'_def)
  have b'_sel: "fb_state b' = KCUpdating" "fb_pending_version b' = ver" "fb_stable_threshold b' = 3"
    "fb_probe_confirms b' = 0" "fb_min_version b' = firmware_floor name d" and ver: "ver \<noteq> 0"
    using bi assms(2) floor by (auto simp: b'_def bundle_inv_def FirmwareStableThreshold_def)
  have get: "Bundle name (set_bundle name b'' d1) = (b'', set_bundle name b'' d1)" for b''
    by (simp add: Bundle_def map_of_set_bundle del: bundle_map_set_bundle)
  have pend: "HasPendingFirmware name (set_bundle name b'' d1) \<longleftrightarrow>
      fb_state b'' = KCUpdating \<and> fb_pending_version b'' \<noteq> 0" for b''
    by (simp add: HasPendingFirmware_def update_conv')
  note eval = good_probes_def probe_set_bundle d' b'_sel ver pend firmware_floor_set_bundle get
    numeral_2_eq_2 numeral_3_eq_3
  show ?thesis
    by (simp add: eval DeployFirmware_def RollbackFirmware_def set_bundle_twice)
qed

lemma firmware_promotion_at_threshold_witness:
  "firmware_floor ''wifi'' (good_probes sample_clock ''wifi'' 3 (snd (DeployFirmware ''wifi'' 7 ''h'' sample_trial))) = 7"
proof -
  have "firmware_floor ''wifi'' sample_trial < 7" by code_simp
  from firmware_promotion_at_threshold [OF reachable_sample(2) this refl]
  show ?thesis by simp
qed

subsection \<open>The abstract update protocol\<close>

text \<open>
  What the record promises, without its fields: a device is settled on a version, or it is
  trying a candidate with so many boots left and so many good boots counted, and falls back to
  the version it was settled on.
\<close>

datatype track = Settled string | Trying string string int int

inductive track_step :: "track \<Rightarrow> track \<Rightarrow> bool" where
  offer: "track_step (Settled v) (Trying v c 3 0)"
| replace: "track_step (Trying v c a g) (Trying v c' 3 0)"
| good: "g + 1 < 3 \<Longrightarrow> track_step (Trying v c a g) (Trying v c 3 (g + 1))"
| accept: "1 \<le> g \<or> g + 1 = 3 \<Longrightarrow> track_step (Trying v c a g) (Settled c)"
| spend: "a' \<le> a \<Longrightarrow> g' = g \<or> g' = 0 \<Longrightarrow> track_step (Trying v c a g) (Trying v c a' g')"
| abandon: "track_step (Trying v c a g) (Settled v)"

definition track_of :: "deployment \<Rightarrow> track" where
  "track_of d =
    (if HasPending d
     then Trying (rf_last_known_good (d_rootfs d)) (rf_pending (d_rootfs d))
            (rf_boot_attempts (d_rootfs d)) (kc_stable_boots (d_kernelcache d))
     else Settled (rf_current (d_rootfs d)))"

lemma track_of_cong:
  "d_rootfs d' = d_rootfs d \<Longrightarrow> d_kernelcache d' = d_kernelcache d \<Longrightarrow> track_of d' = track_of d"
  by (simp add: track_of_def HasPending_def)

text \<open>C17. The record refines the abstract update protocol: every step of the program either
  is a step of the protocol on the abstraction or leaves the abstraction unchanged. So a
  version is only ever settled on by being the fallback or by being accepted after good boots
  as the candidate, and nothing else can replace the fallback.\<close>

theorem record_refines_update_protocol:
  assumes "reachable_wal d" and "wal_step d d'"
  shows "track_of d' = track_of d \<or> track_step (track_of d) (track_of d')"
  using assms(2) reachable_rootfs_inv [OF assms(1)]
proof (induction rule: wal_step.induct)
  case (stage v d)
  then show ?case
    by (auto simp: track_of_def HasPending_def rootfs_inv_def intro: track_step.intros)
next
  case (good_boot d now)
  show ?case
  proof (cases "HasPending d")
    case False
    then show ?thesis by (simp add: RecordGoodBoot_def)
  next
    case True
    with good_boot have step: "RecordGoodBoot now True d =
        (let d1 = switch_to_pending d;
             d2 = d1\<lparr>d_kernelcache := (d_kernelcache d1)\<lparr>kc_stable_boots := kc_stable_boots (d_kernelcache d) + 1\<rparr>,
                    d_rootfs := (d_rootfs d1)\<lparr>rf_boot_attempts := rf_max_attempts (d_rootfs d)\<rparr>\<rparr>
         in if kc_stable_boots (d_kernelcache d) + 1 = 3 then (True, promote now d2) else (False, d2))"
      by (intro RecordGoodBoot_confirmed) (auto simp: rootfs_inv_def)
    show ?thesis
      unfolding step
      using True good_boot
      by (auto simp: track_of_def HasPending_def rootfs_inv_def Let_def intro: track_step.intros)
  qed
next
  case (promote_running d now)
  then show ?case
    by (auto simp: PromoteRunning_def track_of_def rootfs_inv_def HasPending_def
        intro: track_step.intros split: if_splits)
next
  case (attempt d)
  then show ?case
    by (auto simp: track_of_def Decrement_attempts intro: track_step.intros)
next
  case (other_boot d n)
  then show ?case
    by (auto simp: track_of_def reconcile_attempts_def HasPending_def intro: track_step.intros)
next
  case (rollback d)
  then show ?case
    by (auto simp: track_of_def Rollback_current HasPending_def rootfs_inv_def intro: track_step.intros)
qed (simp_all add: HasPending_def cong: track_of_cong)

lemma record_refines_update_protocol_witness:
  "track_step (Trying ''v42'' ''v43'' 3 0) (Settled ''v42'')"
proof -
  have "wal_step sample_trial (Rollback sample_trial)" by (rule wal_step.rollback)
  moreover have "track_of sample_trial = Trying ''v42'' ''v43'' 3 0"
    "track_of (Rollback sample_trial) = Settled ''v42''" by code_simp+
  ultimately show ?thesis
    using record_refines_update_protocol [OF reachable_sample(2)] by fastforce
qed

end
