(* ===== verification/Json.thy ===== *)
theory Json
  imports Prelude "HOL-Library.AList"
begin

section \<open>JSON texts\<close>

text \<open>
  The package \<open>encoding/json\<close> as far as the program uses it: a value is a \<open>json\<close> (a number
  keeps its literal, the members of an object keep their order and duplicates), \<open>json_indent\<close>
  prints it as \<open>json.MarshalIndent(v, "", "  ")\<close> does, \<open>json_parse\<close> reads a text.
  The reader takes fuel, twice the length of the text and two: opening a bracket costs two units
  of fuel and one byte, a further element one unit and at least two bytes.
  \<open>decode_fields\<close> is the decoding of an object into a struct: members in order, unknown ones
  skipped, names compared exactly first and then up to ASCII case, \<open>null\<close> leaving the
  target as it is. Not modelled: the nesting limit of the reader (10000) and the two
  non-ASCII letters that Unicode folds to ASCII ones.
\<close>

datatype json =
    JNull
  | JBool bool
  | JNum string
  | JStr string
  | JArr "json list"
  | JObj "(string \<times> json) list"

subsection \<open>Bytes and runes\<close>

definition byte :: "char \<Rightarrow> nat" where
  "byte c = of_char c"

definition in_range :: "nat \<Rightarrow> nat \<Rightarrow> char \<Rightarrow> bool" where
  "in_range lo hi c \<longleftrightarrow> lo \<le> byte c \<and> byte c \<le> hi"

text \<open>The length of the UTF-8 sequence at the head of the bytes, 0 when they are not valid.\<close>

fun utf8_size :: "string \<Rightarrow> nat" where
  "utf8_size [] = 0"
| "utf8_size (a # s) =
    (let cont = in_range 0x80 0xBF in
     if byte a < 0x80 then 1
     else if in_range 0xC2 0xDF a then (case s of b # _ \<Rightarrow> if cont b then 2 else 0 | _ \<Rightarrow> 0)
     else if in_range 0xE0 0xEF a then
       (case s of b # c # _ \<Rightarrow>
          if in_range (if byte a = 0xE0 then 0xA0 else 0x80) (if byte a = 0xED then 0x9F else 0xBF) b \<and> cont c
          then 3 else 0
        | _ \<Rightarrow> 0)
     else if in_range 0xF0 0xF4 a then
       (case s of b # c # d # _ \<Rightarrow>
          if in_range (if byte a = 0xF0 then 0x90 else 0x80) (if byte a = 0xF4 then 0x8F else 0xBF) b
             \<and> cont c \<and> cont d
          then 4 else 0
        | _ \<Rightarrow> 0)
     else 0)"

definition utf8_encode :: "nat \<Rightarrow> string" where
  "utf8_encode r =
    (if r < 0x80 then [char_of r]
     else if r < 0x800 then map char_of [0xC0 + r div 64, 0x80 + r mod 64]
     else if r < 0x10000 then map char_of [0xE0 + r div 4096, 0x80 + r div 64 mod 64, 0x80 + r mod 64]
     else map char_of [0xF0 + r div 262144, 0x80 + r div 4096 mod 64, 0x80 + r div 64 mod 64, 0x80 + r mod 64])"

definition replacement_rune :: nat where
  "replacement_rune = 0xFFFD"

definition hex_digit :: "nat \<Rightarrow> char" where
  "hex_digit n = (if n < 10 then char_of (48 + n) else char_of (87 + n))"

definition hex_val :: "char \<Rightarrow> nat option" where
  "hex_val c =
    (if is_digit c then Some (byte c - 48)
     else if in_range 97 102 c then Some (byte c - 87)
     else if in_range 65 70 c then Some (byte c - 55)
     else None)"

fun hex4 :: "string \<Rightarrow> (nat \<times> string) option" where
  "hex4 (a # b # c # d # s) =
    (case (hex_val a, hex_val b, hex_val c, hex_val d) of
       (Some w, Some x, Some y, Some z) \<Rightarrow> Some (w * 4096 + x * 256 + y * 16 + z, s)
     | _ \<Rightarrow> None)"
| "hex4 _ = None"

subsection \<open>Printing\<close>

definition quote_mark :: char where "quote_mark = CHR 0x22"
definition backslash :: char where "backslash = CHR 0x5C"

definition safe_byte :: "char \<Rightarrow> bool" where
  "safe_byte c \<longleftrightarrow> 0x20 \<le> byte c \<and> c \<noteq> quote_mark \<and> c \<noteq> backslash \<and> c \<notin> set ''<>&''"

text \<open>The escape of an ASCII byte that is not copied.\<close>

definition escape_byte :: "char \<Rightarrow> string" where
  "escape_byte c =
    (if c = quote_mark \<or> c = backslash then [backslash, c]
     else if c = CHR 0x08 then [backslash, CHR ''b'']
     else if c = CHR 0x0C then [backslash, CHR ''f'']
     else if c = CHR 0x0A then [backslash, CHR ''n'']
     else if c = CHR 0x0D then [backslash, CHR ''r'']
     else if c = CHR 0x09 then [backslash, CHR ''t'']
     else [backslash, CHR ''u'', CHR ''0'', CHR ''0'', hex_digit (byte c div 16), hex_digit (byte c mod 16)])"

fun json_chars :: "nat \<Rightarrow> string \<Rightarrow> string" where
  "json_chars (Suc n) (c # s) =
    (if byte c < 0x80 then (if safe_byte c then [c] else escape_byte c) @ json_chars n s
     else case utf8_size (c # s) of
       0 \<Rightarrow> backslash # ''ufffd'' @ json_chars n s
     | k \<Rightarrow>
        (if take 3 (c # s) = utf8_encode 0x2028 then backslash # ''u2028''
         else if take 3 (c # s) = utf8_encode 0x2029 then backslash # ''u2029''
         else take k (c # s)) @ json_chars n (drop (k - 1) s))"
| "json_chars _ _ = []"

definition json_string :: "string \<Rightarrow> string" where
  "json_string s = quote_mark # json_chars (length s) s @ [quote_mark]"

definition indent_to :: "nat \<Rightarrow> string" where
  "indent_to n = newline # replicate (2 * n) (CHR '' '')"

text \<open>The printer, over what goes before the members of an object or array and what follows a colon:
  \<open>json_indent\<close> puts each member on its own line, \<open>json_compact\<close> is \<open>json.Marshal\<close>.\<close>

fun json_print :: "(nat \<Rightarrow> string) \<Rightarrow> string \<Rightarrow> nat \<Rightarrow> json \<Rightarrow> string" where
  "json_print nl sp n JNull = ''null''"
| "json_print nl sp n (JBool b) = (if b then ''true'' else ''false'')"
| "json_print nl sp n (JNum s) = s"
| "json_print nl sp n (JStr s) = json_string s"
| "json_print nl sp n (JArr js) =
    (if js = [] then ''[]''
     else ''['' @ join_with '','' (map (\<lambda>j. nl (Suc n) @ json_print nl sp (Suc n) j) js) @ nl n @ '']'')"
| "json_print nl sp n (JObj ms) =
    (if ms = [] then ''{}''
     else ''{'' @ join_with '','' (map (\<lambda>(k, j). nl (Suc n) @ json_string k @ '':'' @ sp @ json_print nl sp (Suc n) j) ms)
          @ nl n @ ''}'')"

definition json_indent :: "nat \<Rightarrow> json \<Rightarrow> string" where
  "json_indent = json_print indent_to '' ''"

definition json_compact :: "json \<Rightarrow> string" where
  "json_compact = json_print (\<lambda>_. []) [] 0"

subsection \<open>Reading\<close>

definition json_space :: "char \<Rightarrow> bool" where
  "json_space c \<longleftrightarrow> byte c \<in> {9, 10, 13, 32}"

definition skip_ws :: "string \<Rightarrow> string" where
  "skip_ws = dropWhile json_space"

fun unescape :: "string \<Rightarrow> (string \<times> string) option" where
  "unescape [] = None"
| "unescape (c # s) =
    (if c = quote_mark \<or> c = backslash \<or> c = CHR ''/'' then Some ([c], s)
     else if c = CHR ''b'' then Some ([CHR 0x08], s)
     else if c = CHR ''f'' then Some ([CHR 0x0C], s)
     else if c = CHR ''n'' then Some ([CHR 0x0A], s)
     else if c = CHR ''r'' then Some ([CHR 0x0D], s)
     else if c = CHR ''t'' then Some ([CHR 0x09], s)
     else if c = CHR ''u'' then
       (case hex4 s of
          None \<Rightarrow> None
        | Some (r, s') \<Rightarrow>
            if r < 0xD800 \<or> 0xDFFF < r then Some (utf8_encode r, s')
            else (case s' of
                x # y # s'' \<Rightarrow>
                  (if x = backslash \<and> y = CHR ''u'' then
                     (case hex4 s'' of
                        Some (r2, s3) \<Rightarrow>
                          if r < 0xDC00 \<and> 0xDC00 \<le> r2 \<and> r2 \<le> 0xDFFF
                          then Some (utf8_encode (0x10000 + (r - 0xD800) * 1024 + (r2 - 0xDC00)), s3)
                          else Some (utf8_encode replacement_rune, s')
                      | None \<Rightarrow> Some (utf8_encode replacement_rune, s'))
                   else Some (utf8_encode replacement_rune, s'))
              | _ \<Rightarrow> Some (utf8_encode replacement_rune, s')))
     else None)"

text \<open>The contents of a string literal, up to the closing quote.\<close>

fun parse_chars :: "nat \<Rightarrow> string \<Rightarrow> (string \<times> string) option" where
  "parse_chars (Suc n) (c # s) =
    (if c = quote_mark then Some ([], s)
     else if c = backslash then
       (case unescape s of
          None \<Rightarrow> None
        | Some (t, s') \<Rightarrow> map_option (\<lambda>(u, r). (t @ u, r)) (parse_chars n s'))
     else if byte c < 0x20 then None
     else if byte c < 0x80 then map_option (\<lambda>(u, r). (c # u, r)) (parse_chars n s)
     else case utf8_size (c # s) of
       0 \<Rightarrow> map_option (\<lambda>(u, r). (utf8_encode replacement_rune @ u, r)) (parse_chars n s)
     | k \<Rightarrow> map_option (\<lambda>(u, r). (take k (c # s) @ u, r)) (parse_chars n (drop (k - 1) s)))"
| "parse_chars _ _ = None"

fun lex_int :: "string \<Rightarrow> (string \<times> string) option" where
  "lex_int [] = None"
| "lex_int (c # s) =
    (if c = CHR ''0'' then Some ([c], s)
     else if is_digit c then Some (c # takeWhile is_digit s, dropWhile is_digit s)
     else None)"

fun lex_frac :: "string \<Rightarrow> (string \<times> string) option" where
  "lex_frac [] = Some ([], [])"
| "lex_frac (c # s) =
    (if c \<noteq> CHR ''.'' then Some ([], c # s)
     else if takeWhile is_digit s = [] then None
     else Some (c # takeWhile is_digit s, dropWhile is_digit s))"

fun lex_exp :: "string \<Rightarrow> (string \<times> string) option" where
  "lex_exp [] = Some ([], [])"
| "lex_exp (c # s) =
    (if c \<noteq> CHR ''e'' \<and> c \<noteq> CHR ''E'' then Some ([], c # s)
     else let sign = (case s of d # _ \<Rightarrow> if d = CHR ''+'' \<or> d = CHR ''-'' then [d] else [] | _ \<Rightarrow> []);
              t = drop (length sign) s
          in if takeWhile is_digit t = [] then None
             else Some (c # sign @ takeWhile is_digit t, dropWhile is_digit t))"

definition lex_number :: "string \<Rightarrow> (string \<times> string) option" where
  "lex_number s =
    (let sign = (case s of c # _ \<Rightarrow> if c = CHR ''-'' then [c] else [] | _ \<Rightarrow> [])
     in case lex_int (drop (length sign) s) of None \<Rightarrow> None
      | Some (i, s1) \<Rightarrow> (case lex_frac s1 of None \<Rightarrow> None
      | Some (f, s2) \<Rightarrow> (case lex_exp s2 of None \<Rightarrow> None
      | Some (e, s3) \<Rightarrow> Some (sign @ i @ f @ e, s3))))"

text \<open>\<open>parse_items\<close> and \<open>parse_members\<close> read what follows the first element of an array or
  an object: the next separator decides.\<close>

fun parse_value :: "nat \<Rightarrow> string \<Rightarrow> (json \<times> string) option"
and parse_items :: "nat \<Rightarrow> string \<Rightarrow> (json list \<times> string) option"
and parse_members :: "nat \<Rightarrow> string \<Rightarrow> ((string \<times> json) list \<times> string) option" where
  "parse_value 0 s = None"
| "parse_value (Suc n) s =
    (case skip_ws s of
       [] \<Rightarrow> None
     | c # t \<Rightarrow>
         if c = quote_mark then map_option (\<lambda>(u, r). (JStr u, r)) (parse_chars n t)
         else if c = CHR ''['' then
           (case skip_ws t of
              [] \<Rightarrow> None
            | d # r \<Rightarrow> if d = CHR '']'' then Some (JArr [], r)
                       else map_option (\<lambda>(js, r). (JArr js, r)) (parse_items n t))
         else if c = CHR ''{'' then
           (case skip_ws t of
              [] \<Rightarrow> None
            | d # r \<Rightarrow> if d = CHR ''}'' then Some (JObj [], r)
                       else map_option (\<lambda>(ms, r). (JObj ms, r)) (parse_members n t))
         else (case cut_prefix ''null'' (c # t) of Some r \<Rightarrow> Some (JNull, r) | None \<Rightarrow>
              (case cut_prefix ''true'' (c # t) of Some r \<Rightarrow> Some (JBool True, r) | None \<Rightarrow>
              (case cut_prefix ''false'' (c # t) of Some r \<Rightarrow> Some (JBool False, r) | None \<Rightarrow>
                map_option (\<lambda>(u, r). (JNum u, r)) (lex_number (c # t))))))"
| "parse_items 0 s = None"
| "parse_items (Suc n) s =
    (case parse_value n s of
       None \<Rightarrow> None
     | Some (j, r) \<Rightarrow>
         (case skip_ws r of
            [] \<Rightarrow> None
          | c # t \<Rightarrow>
              if c = CHR '']'' then Some ([j], t)
              else if c = CHR '','' then map_option (\<lambda>(js, u). (j # js, u)) (parse_items n t)
              else None))"
| "parse_members 0 s = None"
| "parse_members (Suc n) s =
    (case skip_ws s of
       [] \<Rightarrow> None
     | q # s1 \<Rightarrow>
         if q \<noteq> quote_mark then None
         else (case parse_chars n s1 of
            None \<Rightarrow> None
          | Some (k, s2) \<Rightarrow>
              (case skip_ws s2 of
                 [] \<Rightarrow> None
               | e # s3 \<Rightarrow>
                   if e \<noteq> CHR '':'' then None
                   else (case parse_value n s3 of
                      None \<Rightarrow> None
                    | Some (j, r) \<Rightarrow>
                        (case skip_ws r of
                           [] \<Rightarrow> None
                         | c # t \<Rightarrow>
                             if c = CHR ''}'' then Some ([(k, j)], t)
                             else if c = CHR '','' then map_option (\<lambda>(ms, u). ((k, j) # ms, u)) (parse_members n t)
                             else None)))))"

definition json_parse :: "string \<Rightarrow> error + json" where
  "json_parse s =
    (case parse_value (2 * length s + 2) s of
       None \<Rightarrow> Inl (Errorf ''json: syntax error'')
     | Some (j, r) \<Rightarrow> if skip_ws r = [] then Inr j else Inl (Errorf ''json: syntax error''))"

subsection \<open>Printing and reading back\<close>

definition ascii :: "string \<Rightarrow> bool" where
  "ascii s \<longleftrightarrow> list_all (\<lambda>c. byte c < 128) s"

text \<open>Valid UTF-8.\<close>

function utf8_text :: "string \<Rightarrow> bool" where
  "utf8_text [] = True"
| "utf8_text (c # s) = (utf8_size (c # s) \<noteq> 0 \<and> utf8_text (drop (utf8_size (c # s) - 1) s))"
  by pat_completeness (simp_all del: utf8_size.simps)

termination
  by (relation "measure length") (simp_all del: utf8_size.simps)

declare utf8_text.simps(2) [simp del]

lemma ascii_utf8 [simp]: "ascii s \<Longrightarrow> utf8_text s"
  by (induction s) (simp_all add: ascii_def utf8_text.simps(2))

text \<open>The text a reader sees: every byte that is no UTF-8 has become U+FFFD.\<close>

function coerced :: "string \<Rightarrow> string" where
  "coerced [] = []"
| "coerced (c # s) =
    (let n = utf8_size (c # s) in
     if n = 0 then utf8_encode replacement_rune @ coerced s else take n (c # s) @ coerced (drop (n - 1) s))"
  by pat_completeness (simp_all del: utf8_size.simps)

termination
  by (relation "measure length") (simp_all del: utf8_size.simps)

declare coerced.simps(2) [simp del]

lemma coerced_valid [simp]: "utf8_text s \<Longrightarrow> coerced s = s"
proof (induction s rule: utf8_text.induct)
  case (2 c s)
  then have "utf8_size (c # s) \<noteq> 0" "coerced (drop (utf8_size (c # s) - 1) s) = drop (utf8_size (c # s) - 1) s"
    by (simp_all add: utf8_text.simps(2) del: utf8_size.simps)
  then show ?case by (cases "utf8_size (c # s)") (simp_all add: coerced.simps(2) del: utf8_size.simps)
qed simp

text \<open>The values the printer prints so that they can be read, and what is read then.\<close>

fun printable :: "json \<Rightarrow> bool" where
  "printable (JNum s) = (\<exists>n. s = itoa n)"
| "printable (JArr js) = list_all printable js"
| "printable (JObj ms) = list_all (\<lambda>(k, j). utf8_text k \<and> printable j) ms"
| "printable _ = True"

fun coerce_json :: "json \<Rightarrow> json" where
  "coerce_json (JStr s) = JStr (coerced s)"
| "coerce_json (JArr js) = JArr (map coerce_json js)"
| "coerce_json (JObj ms) = JObj (map (\<lambda>(k, j). (k, coerce_json j)) ms)"
| "coerce_json j = j"

fun wf_json :: "json \<Rightarrow> bool" where
  "wf_json (JNum s) = (case atoi s of None \<Rightarrow> False | Some n \<Rightarrow> s = itoa n)"
| "wf_json (JStr s) = utf8_text s"
| "wf_json (JArr js) = list_all wf_json js"
| "wf_json (JObj ms) = list_all (\<lambda>(k, j). utf8_text k \<and> wf_json j) ms"
| "wf_json _ = True"

lemma wf_json_printable: "wf_json j \<Longrightarrow> printable j"
  by (induction j) (auto simp: list_all_iff split: option.splits)

lemma wf_json_coerced: "wf_json j \<Longrightarrow> coerce_json j = j"
  by (induction j) (auto simp: list_all_iff intro!: map_idI)

lemma byte_char_of [simp]: "byte (char_of (n :: nat)) = n mod 256"
  by (simp add: byte_def)

lemma byte_less [simp]: "byte c < 256"
  by (cases c) (auto simp: byte_def of_char_def horner_sum_simps split: if_splits)

lemma char_of_byte [simp]: "char_of (byte c) = c"
  by (simp add: byte_def)

lemma byte_eq_iff: "byte c = byte d \<longleftrightarrow> c = d"
  by (simp add: byte_def)

lemma hex_val_hex_digit [simp]: "n < 16 \<Longrightarrow> hex_val (hex_digit n) = Some n"
  by (auto simp: hex_val_def hex_digit_def is_digit_def in_range_def simp flip: byte_def)

lemma unescape_escape_byte:
  assumes "byte c < 128" and "\<not> safe_byte c"
  shows "escape_byte c = backslash # tl (escape_byte c) \<and> unescape (tl (escape_byte c) @ r) = Some ([c], r)"
proof -
  have h: "hex_val (CHR ''0'') = Some 0" by code_simp
  have d: "byte c div 16 < 16" "byte c div 16 * 16 + byte c mod 16 = byte c"
    using assms(1) by simp_all
  show ?thesis
    using assms d
    by (auto simp: escape_byte_def quote_mark_def backslash_def h utf8_encode_def)
qed

text \<open>What makes the sequence at the head of the bytes is its own bytes.\<close>

lemma utf8_size_cases:
  assumes "utf8_size (a # s) \<noteq> 0" "128 \<le> byte a"
  obtains (two) b t where "s = b # t" "128 \<le> byte b" "utf8_size (a # s) = 2" "\<And>r. utf8_size (a # b # r) = 2"
  | (three) b c t where "s = b # c # t" "128 \<le> byte b" "128 \<le> byte c" "utf8_size (a # s) = 3" "\<And>r. utf8_size (a # b # c # r) = 3"
  | (four) b c d t where "s = b # c # d # t" "128 \<le> byte b" "128 \<le> byte c" "128 \<le> byte d" "utf8_size (a # s) = 4" "\<And>r. utf8_size (a # b # c # d # r) = 4"
proof -
  let ?cont = "in_range 0x80 0xBF"
  let ?e = "in_range (if byte a = 0xE0 then 0xA0 else 0x80) (if byte a = 0xED then 0x9F else 0xBF)"
  let ?f = "in_range (if byte a = 0xF0 then 0x90 else 0x80) (if byte a = 0xF4 then 0x8F else 0xBF)"
  note eq = utf8_size.simps(2) [of a, unfolded Let_def]
  from assms(2) have n: "\<not> byte a < 0x80" by simp
  consider (c) "in_range 0xC2 0xDF a" | (e) "\<not> in_range 0xC2 0xDF a" "in_range 0xE0 0xEF a"
    | (f) "\<not> in_range 0xC2 0xDF a" "\<not> in_range 0xE0 0xEF a" "in_range 0xF0 0xF4 a"
    using assms(1) n unfolding eq by (auto split: if_splits)
  then show thesis
  proof cases
    case c
    then have u: "utf8_size (a # x) = (case x of b # _ \<Rightarrow> if ?cont b then 2 else 0 | _ \<Rightarrow> 0)" for x
      unfolding eq using n by simp
    from assms(1) obtain b t where "s = b # t" "?cont b" unfolding u by (auto split: list.splits if_splits)
    then show thesis by (intro two [of b t]) (simp_all add: u in_range_def del: utf8_size.simps split: if_splits)
  next
    case e
    then have u: "utf8_size (a # x) = (case x of b # c # _ \<Rightarrow> if ?e b \<and> ?cont c then 3 else 0 | _ \<Rightarrow> 0)" for x
      unfolding eq using n by simp
    from assms(1) obtain b c t where "s = b # c # t" "?e b" "?cont c" unfolding u by (auto split: list.splits if_split_asm)
    then show thesis by (intro three [of b c t]) (simp_all add: u in_range_def del: utf8_size.simps split: if_splits)
  next
    case f
    then have u: "utf8_size (a # x) = (case x of b # c # d # _ \<Rightarrow> if ?f b \<and> ?cont c \<and> ?cont d then 4 else 0 | _ \<Rightarrow> 0)" for x
      unfolding eq using n by simp
    from assms(1) obtain b c d t where "s = b # c # d # t" "?f b" "?cont c" "?cont d" unfolding u by (auto split: list.splits if_split_asm)
    then show thesis by (intro four [of b c d t]) (simp_all add: u in_range_def del: utf8_size.simps split: if_splits)
  qed
qed

lemma utf8_size_take:
  assumes "utf8_size (a # s) \<noteq> 0" "128 \<le> byte a"
  shows "utf8_size (take (utf8_size (a # s)) (a # s) @ r) = utf8_size (a # s)"
  by (rule utf8_size_cases [OF assms]) (simp_all del: utf8_size.simps)

lemma utf8_size_bounds:
  assumes "utf8_size (c # s) \<noteq> 0" "128 \<le> byte c"
  shows "2 \<le> utf8_size (c # s) \<and> utf8_size (c # s) \<le> Suc (length s)"
  by (rule utf8_size_cases [OF assms]) (simp_all del: utf8_size.simps)

lemma utf8_size_high:
  assumes "utf8_size (c # s) \<noteq> 0" "128 \<le> byte c" "x \<in> set (take (utf8_size (c # s)) (c # s))"
  shows "128 \<le> byte x"
  by (rule utf8_size_cases [OF assms(1,2)]) (use assms(2,3) in \<open>auto simp del: utf8_size.simps\<close>)

lemma utf8_text_rest: "utf8_text (c # s) \<Longrightarrow> utf8_text (drop (utf8_size (c # s) - 1) s)" "utf8_text (c # s) \<Longrightarrow> utf8_size (c # s) \<noteq> 0"
  by (simp_all add: utf8_text.simps(2))

lemma line_separators:
  "unescape (''u2028'' @ r) = Some (utf8_encode 0x2028, r)" "unescape (''u2029'' @ r) = Some (utf8_encode 0x2029, r)"
proof -
  have "hex_val (CHR ''2'') = Some 2" "hex_val (CHR ''0'') = Some 0" "hex_val (CHR ''8'') = Some 8" "hex_val (CHR ''9'') = Some 9"
    by code_simp+
  then show "unescape (''u2028'' @ r) = Some (utf8_encode 0x2028, r)" "unescape (''u2029'' @ r) = Some (utf8_encode 0x2029, r)"
    by (simp_all add: quote_mark_def backslash_def)
qed

lemma separator_size:
  assumes "take 3 s \<in> {utf8_encode 0x2028, utf8_encode 0x2029}"
  shows "utf8_size s = 3" "take 3 s @ drop 3 s = s"
proof -
  have e: "utf8_encode 0x2028 = map char_of [226, 128, 168 :: nat]" "utf8_encode 0x2029 = map char_of [226, 128, 169 :: nat]"
    by (simp_all add: utf8_encode_def)
  from assms obtain a b c r where s: "s = a # b # c # r" "[a, b, c] \<in> {utf8_encode 0x2028, utf8_encode 0x2029}"
    unfolding e by (cases s; cases "tl s"; cases "tl (tl s)") (simp_all add: eval_nat_numeral)
  then have "byte a = 226" "byte b = 128" "byte c \<in> {168, 169}" unfolding e by auto
  with s(1) show "utf8_size s = 3" by (auto simp: in_range_def)
qed simp

lemma parse_quote: "0 < n \<Longrightarrow> parse_chars n (quote_mark # r) = Some ([], r)"
  by (cases n) simp_all

lemma unescape_replacement: "unescape (''ufffd'' @ r) = Some (utf8_encode replacement_rune, r)"
proof -
  have "hex_val (CHR ''f'') = Some 15" "hex_val (CHR ''d'') = Some 13" by code_simp+
  then show ?thesis by (simp add: quote_mark_def backslash_def replacement_rune_def)
qed

lemma parse_json_chars:
  assumes "length s \<le> k" and "length s < n"
  shows "parse_chars n (json_chars k s @ quote_mark # r) = Some (coerced s, r)"
  using assms
proof (induction k s arbitrary: n rule: json_chars.induct)
  case (1 k c s)
  then obtain m where n: "n = Suc m" "length s < m" by (cases n) auto
  have bq: "backslash \<noteq> quote_mark" by (simp add: backslash_def quote_mark_def)
  show ?case
  proof (cases "byte c < 0x80")
    case True
    then have "utf8_size (c # s) = 1" by simp
    then have co: "coerced (c # s) = c # coerced s" by (simp add: coerced.simps(2) del: utf8_size.simps)
    have s: "length s \<le> k" using "1.prems" by simp
    note IH = "1.IH"(1) [OF True s n(2)]
    show ?thesis
    proof (cases "safe_byte c")
      case True
      with \<open>byte c < 0x80\<close> IH show ?thesis by (simp add: n safe_byte_def co)
    next
      case False
      define t where "t = tl (escape_byte c)"
      have t: "escape_byte c = backslash # t" "unescape (t @ u) = Some ([c], u)" for u
        using unescape_escape_byte [OF _ False] True by (simp_all add: t_def)
      with True False IH bq show ?thesis by (simp add: n t co del: unescape.simps)
    qed
  next
    case False
    show ?thesis
    proof (cases "utf8_size (c # s)")
      case 0
      then have "coerced (c # s) = utf8_encode replacement_rune @ coerced s" by (simp add: coerced.simps(2) del: utf8_size.simps)
      moreover have "json_chars (Suc k) (c # s) = backslash # ''ufffd'' @ json_chars k s" using False 0 by (simp del: utf8_size.simps)
      moreover have "parse_chars m (json_chars k s @ quote_mark # r) = Some (coerced s, r)"
        using "1.IH"(2) [OF False 0] "1.prems" n by simp
      ultimately show ?thesis using bq unescape_replacement by (simp add: n del: unescape.simps json_chars.simps append_Cons) (simp del: unescape.simps json_chars.simps)
    next
    case j: (Suc j)
    have len: "1 \<le> j" "j \<le> length s" using utf8_size_bounds [of c s] False j by simp_all
    have co: "coerced (c # s) = take (Suc j) (c # s) @ coerced (drop j s)" using j by (simp add: coerced.simps(2) del: utf8_size.simps)
    have IH: "parse_chars m (json_chars k (drop j s) @ quote_mark # r) = Some (coerced (drop j s), r)"
      using "1.IH"(3) [OF False j] "1.prems" n len by simp
    let ?sep = "take 3 (c # s)"
    show ?thesis
    proof (cases "?sep \<in> {utf8_encode 0x2028, utf8_encode 0x2029}")
      case True
      then have j2: "j = 2" "c # s = ?sep @ drop 2 s" using separator_size [OF True] j by simp_all
      obtain u where u: "json_chars (Suc k) (c # s) = backslash # u @ json_chars k (drop 2 s)" "unescape (u @ v) = Some (?sep, v)" for v
      proof (cases "?sep = utf8_encode 0x2028")
        case True
        then show ?thesis using that [of "''u2028''"] line_separators(1) False j j2 by (simp del: unescape.simps utf8_size.simps)
      next
        case nsep: False
        then show ?thesis using that [of "''u2029''"] line_separators(2) True False j j2 by (simp del: unescape.simps utf8_size.simps)
      qed
      have "coerced (c # s) = ?sep @ coerced (drop 2 s)" using co j2(1) by (simp add: eval_nat_numeral)
      then show ?thesis using u IH j2 bq by (simp add: n del: unescape.simps json_chars.simps take_Suc_Cons)
    next
      case nosep: False
      have "json_chars (Suc k) (c # s) = take (Suc j) (c # s) @ json_chars k (drop j s)"
        using nosep False j by (simp del: utf8_size.simps)
      moreover have "c \<noteq> quote_mark" "c \<noteq> backslash" using False by (auto simp: quote_mark_def backslash_def byte_def)
      moreover have "utf8_size (c # take j s @ v) = Suc j" for v
        using utf8_size_take [of c s v] j False by (simp del: utf8_size.simps)
      ultimately show ?thesis using IH False len by (simp add: n co del: utf8_size.simps)
    qed
    qed
  qed
qed (simp_all add: parse_quote)

text \<open>What may follow a number.\<close>

definition num_end :: "string \<Rightarrow> bool" where
  "num_end r \<longleftrightarrow> (case r of [] \<Rightarrow> True | c # _ \<Rightarrow> \<not> is_digit c \<and> c \<notin> set ''.eE'')"

lemma nat_str_no_zero: "0 < n \<Longrightarrow> hd (nat_str n) \<noteq> CHR ''0''"
proof (induction n rule: nat_str.induct)
  case (1 n)
  show ?case
  proof (cases "n < 10")
    case True
    have "digit_char n \<noteq> CHR ''0''"
    proof
      assume "digit_char n = CHR ''0''"
      then have "of_char (digit_char n) = (48 :: nat)" by simp
      with True 1(2) show False by (simp add: of_char_digit_char)
    qed
    with True show ?thesis by (subst nat_str.simps) simp
  next
    case False
    have "nat_str (n div 10) \<noteq> []" using nat_str_digits by blast
    with False 1 show ?thesis by (subst nat_str.simps) simp
  qed
qed

lemma lex_int_nat_str:
  assumes "num_end r"
  shows "lex_int (nat_str n @ r) = Some (nat_str n, r)"
proof (cases "n = 0")
  case True
  have "nat_str 0 = ''0''" by code_simp
  with True show ?thesis by simp
next
  case False
  obtain c t where ct: "nat_str n = c # t" "is_digit c" using nat_str_first by blast
  have "c \<noteq> CHR ''0''" using nat_str_no_zero [of n] False ct by simp
  moreover have "list_all is_digit t" using nat_str_digits [of n] ct by simp
  moreover have "takeWhile is_digit r = []" "dropWhile is_digit r = r"
    using assms by (auto simp: num_end_def split: list.splits)
  ultimately show ?thesis
    using ct by (simp add: list_all_iff takeWhile_append2 dropWhile_append2)
qed

lemma lex_number_itoa:
  assumes "num_end r"
  shows "lex_number (itoa n @ r) = Some (itoa n, r)"
proof -
  obtain c t where ct: "nat_str (nat n) = c # t" "is_digit c" using nat_str_first by blast
  have sign: "c \<noteq> CHR ''-''" using ct(2) by auto
  have "lex_frac r = Some ([], r)" "lex_exp r = Some ([], r)"
    using assms by (auto simp: num_end_def split: list.splits)
  moreover have "lex_int (c # t @ r) = Some (c # t, r)"
    using lex_int_nat_str [OF assms, of "nat n"] ct(1) by simp
  ultimately show ?thesis
    using lex_int_nat_str [OF assms, of "nat (- n)"] ct sign
    by (simp add: lex_number_def itoa_def del: lex_int.simps)
qed

lemma skip_ws_indent [simp]: "skip_ws (indent_to n @ s) = skip_ws s"
proof -
  have "byte (CHR '' '') = 32" "byte newline = 10" by code_simp+
  then show ?thesis
    by (induction n) (simp_all add: skip_ws_def indent_to_def json_space_def)
qed

lemma skip_ws_first: "\<not> json_space c \<Longrightarrow> skip_ws (c # s) = c # s"
  by (simp add: skip_ws_def)

lemma not_space [simp]:
  "\<not> json_space (CHR ''['')" "\<not> json_space (CHR '']'')" "\<not> json_space (CHR ''{'')"
  "\<not> json_space (CHR ''}'')" "\<not> json_space (CHR '','')" "\<not> json_space (CHR '':'')"
  "\<not> json_space (CHR ''n'')" "\<not> json_space (CHR ''t'')" "\<not> json_space (CHR ''f'')"
  "\<not> json_space (CHR ''-'')" "\<not> json_space quote_mark" "json_space (CHR '' '')"
  by code_simp+

lemma digit_not_space [simp]: "is_digit c \<Longrightarrow> \<not> json_space c"
  by (auto simp: is_digit_def json_space_def byte_def)

text \<open>A printed value starts with a byte that is no white space and no closing bracket.\<close>

lemma itoa_first: "\<exists>c t. itoa n = c # t \<and> (is_digit c \<or> c = CHR ''-'')"
  using nat_str_first [of "nat n"] by (auto simp: itoa_def)

lemma digit_bounds: "is_digit c \<Longrightarrow> c \<notin> set ''[]{}ntf,:'' \<and> c \<noteq> quote_mark"
  by (auto simp: is_digit_def quote_mark_def)

lemma json_print_first:
  assumes "printable j"
  shows "\<exists>c t. json_print nl sp k j = c # t \<and> \<not> json_space c \<and> c \<noteq> CHR '']'' \<and> c \<noteq> CHR ''}''"
proof (cases j)
  case (JNum s)
  with assms obtain n where "s = itoa n" by (auto split: option.splits)
  moreover obtain c t where "itoa n = c # t" "is_digit c \<or> c = CHR ''-''"
    using itoa_first by blast
  moreover from this(2) have "\<not> json_space c \<and> c \<noteq> CHR '']'' \<and> c \<noteq> CHR ''}''"
    using digit_bounds [of c] by auto
  ultimately show ?thesis using JNum by simp
qed (auto simp: json_string_def quote_mark_def [symmetric], auto simp: quote_mark_def)

definition reads_back :: "(nat \<Rightarrow> string) \<Rightarrow> string \<Rightarrow> json \<Rightarrow> bool" where
  "reads_back nl sp j \<longleftrightarrow> (\<forall>k n r. num_end r \<longrightarrow> 2 * length (json_print nl sp k j) < n \<longrightarrow>
     parse_value n (json_print nl sp k j @ r) = Some (coerce_json j, r))"

definition json_member :: "(nat \<Rightarrow> string) \<Rightarrow> string \<Rightarrow> nat \<Rightarrow> string \<times> json \<Rightarrow> string" where
  "json_member nl sp k = (\<lambda>(key, j). nl k @ json_string key @ '':'' @ sp @ json_print nl sp k j)"

lemma num_end_byte [simp]: "num_end (CHR '','' # r)" "num_end (CHR '']'' # r)" "num_end (CHR ''}'' # r)" "num_end []"
  by (simp_all add: num_end_def is_digit_def)

lemma num_end_space: "list_all json_space s \<Longrightarrow> num_end r \<Longrightarrow> num_end (s @ r)"
proof (cases s)
  case (Cons c cs)
  assume "list_all json_space s"
  with Cons have "json_space c" by simp
  then have "\<not> is_digit c \<and> c \<notin> set ''.eE''" by (auto simp: json_space_def is_digit_def byte_def)
  with Cons show ?thesis by (simp add: num_end_def)
qed simp

lemma skip_ws_space: "list_all json_space s \<Longrightarrow> skip_ws (s @ r) = skip_ws r"
  by (induction s) (simp_all add: skip_ws_def)

lemma parse_value_space: "list_all json_space s \<Longrightarrow> parse_value n (s @ r) = parse_value n r"
  by (cases n) (simp_all add: skip_ws_space)

lemma escape_byte_length: "1 \<le> length (escape_byte c)"
  by (simp add: escape_byte_def)

lemma json_chars_length: "length s \<le> k \<Longrightarrow> length s \<le> length (json_chars k s)"
proof (induction k s rule: json_chars.induct)
  case (1 k c s)
  show ?case
  proof (cases "byte c < 0x80")
    case True
    from "1.IH"(1) [OF True] "1.prems" True escape_byte_length [of c] show ?thesis by auto
  next
    case False
    show ?thesis
    proof (cases "utf8_size (c # s)")
      case 0
      with "1.IH"(2) [OF False 0] "1.prems" False show ?thesis by (simp del: utf8_size.simps)
    next
      case j: (Suc j)
      have len: "1 \<le> j" "j \<le> length s" using utf8_size_bounds [of c s] False j by simp_all
      have IH: "length s - j \<le> length (json_chars k (drop j s))"
        using "1.IH"(3) [OF False j] "1.prems" len by simp
      have "take 3 (c # s) \<in> {utf8_encode 0x2028, utf8_encode 0x2029} \<Longrightarrow> j = 2"
        using separator_size [of "c # s"] j by simp
      with False j IH len show ?thesis by (auto simp del: utf8_size.simps)
    qed
  qed
qed simp_all

text \<open>The interface of the two printers: what they put between the tokens is white space.\<close>

locale json_layout =
  fixes nl :: "nat \<Rightarrow> string" and sp :: string
  assumes nl_space: "list_all json_space (nl k)"
    and sp_space: "list_all json_space sp"
begin

abbreviation "pr \<equiv> json_print nl sp"
abbreviation "prints_back \<equiv> reads_back nl sp"
abbreviation "member \<equiv> json_member nl sp"

lemmas layout_simps [simp] = skip_ws_space [OF nl_space] parse_value_space [OF nl_space] parse_value_space [OF sp_space]
  num_end_space [OF nl_space]

lemmas prints_back_def = reads_back_def [of nl sp]

lemma prints_backD:
  "prints_back j \<Longrightarrow> num_end r \<Longrightarrow> 2 * length (pr k j) < n \<Longrightarrow> parse_value n (pr k j @ r) = Some (coerce_json j, r)"
  by (simp add: prints_back_def)

lemma parse_items_print:
  assumes "js \<noteq> []" and "list_all prints_back js"
    and "2 * length (join_with '','' (map (\<lambda>j. nl k @ pr k j) js)) + 1 < n"
  shows "parse_items n (join_with '','' (map (\<lambda>j. nl k @ pr k j) js) @
           nl i @ '']'' @ r) = Some (map coerce_json js, r)"
  using assms
proof (induction js arbitrary: n)
  case Nil
  then show ?case by simp
next
  case (Cons j js)
  then obtain m where n: "n = Suc m" by (cases n) auto
  have j: "prints_back j" using Cons.prems(2) by simp
  show ?case
  proof (cases js)
    case Nil
    with Cons.prems(3) n have "2 * length (pr k j) < m" by simp
    with j have "parse_value m (pr k j @ nl i @ '']'' @ r) = Some (coerce_json j, nl i @ '']'' @ r)"
      by (intro prints_backD) simp_all
    with Nil show ?thesis by (simp add: n skip_ws_first)
  next
    case (Cons j' js')
    let ?rest = "join_with '','' (map (\<lambda>j. nl k @ pr k j) js) @ nl i @ '']'' @ r"
    have len: "2 * length (pr k j) < m"
      "2 * length (join_with '','' (map (\<lambda>j. nl k @ pr k j) js)) + 1 < m"
      using Cons.prems(3) n Cons by simp_all
    have "parse_value m (pr k j @ '','' @ ?rest) = Some (coerce_json j, '','' @ ?rest)"
      using j len(1) by (simp add: prints_back_def)
    moreover have "parse_items m ?rest = Some (map coerce_json js, r)"
      using Cons.IH [of m] Cons.prems(2) len(2) Cons by simp
    ultimately show ?thesis
      using Cons by (simp add: n skip_ws_first)
  qed
qed

lemma parse_member_print:
  assumes "utf8_text key" and "prints_back j" and "num_end r" and "2 * length (member k (key, j)) < m"
  shows "\<exists>s1. skip_ws (member k (key, j) @ r) = quote_mark # s1 \<and>
    (\<exists>s3. parse_chars m s1 = Some (key, CHR '':'' # s3) \<and> parse_value m s3 = Some (coerce_json j, r))"
proof (intro exI conjI)
  have q: "skip_ws (quote_mark # s) = quote_mark # s" for s by (simp add: skip_ws_first)
  show "skip_ws (member k (key, j) @ r) =
      quote_mark # json_chars (length key) key @ quote_mark # CHR '':'' # sp @ pr k j @ r"
    by (simp add: json_member_def json_string_def q)
  have "length key < m"
    using assms(4) json_chars_length [of key, OF order_refl] by (simp add: json_member_def json_string_def)
  from parse_json_chars [OF order_refl this] assms(1)
  show "parse_chars m (json_chars (length key) key @ quote_mark # CHR '':'' # sp @ pr k j @ r) =
      Some (key, CHR '':'' # sp @ pr k j @ r)"
    by simp
  have "2 * length (pr k j) < m" using assms(4) by (simp add: json_member_def)
  then have "parse_value m (pr k j @ r) = Some (coerce_json j, r)"
    using assms(2,3) by (simp add: prints_back_def)
  then show "parse_value m (sp @ pr k j @ r) = Some (coerce_json j, r)"
    by simp
qed

lemma parse_members_print:
  assumes "ms \<noteq> []" and "list_all (\<lambda>(key, j). utf8_text key \<and> prints_back j) ms"
    and "2 * length (join_with '','' (map (member k) ms)) + 1 < n"
  shows "parse_members n (join_with '','' (map (member k) ms) @ nl i @ ''}'' @ r) = Some (map (\<lambda>(key, j). (key, coerce_json j)) ms, r)"
  using assms
proof (induction ms arbitrary: n)
  case Nil
  then show ?case by simp
next
  case (Cons mb ms)
  obtain key j where mb: "mb = (key, j)" by (cases mb)
  obtain m where n: "n = Suc m" using Cons.prems(3) by (cases n) auto
  have j: "utf8_text key" "prints_back j" using Cons.prems(2) mb by auto
  show ?case
  proof (cases ms)
    case Nil
    have "2 * length (member k (key, j)) < m" using Cons.prems(3) n Nil mb by simp
    from parse_member_print [OF j _ this, of "nl i @ ''}'' @ r"]
    show ?thesis using Nil mb by (auto simp: n skip_ws_first)
  next
    case (Cons mb' ms')
    let ?rest = "join_with '','' (map (member k) ms) @ nl i @ ''}'' @ r"
    have len: "2 * length (member k (key, j)) < m"
      "2 * length (join_with '','' (map (member k) ms)) + 1 < m"
      using Cons.prems(3) n Cons mb by simp_all
    moreover have "parse_members m ?rest = Some (map (\<lambda>(key, j). (key, coerce_json j)) ms, r)"
      using Cons.IH [of m] Cons.prems(2) len(2) Cons by simp
    ultimately show ?thesis
      using Cons mb parse_member_print [OF j _ len(1), of "'','' @ ?rest"]
      by (auto simp: n skip_ws_first)
  qed
qed

lemma print_members:
  "ms \<noteq> [] \<Longrightarrow> pr k (JObj ms) =
     ''{'' @ join_with '','' (map (member (Suc k)) ms) @ nl k @ ''}''"
  by (simp add: json_member_def)

lemma prints_back_scalar:
  assumes "printable j" and "\<forall>js. j \<noteq> JArr js" and "\<forall>ms. j \<noteq> JObj ms"
  shows "prints_back j"
  unfolding prints_back_def
proof (intro allI impI)
  fix k n r assume r: "num_end r" and len: "2 * length (pr k j) < n"
  then obtain m where n: "n = Suc m" by (cases n) auto
  show "parse_value n (pr k j @ r) = Some (coerce_json j, r)"
  proof (cases j)
    case (JNum s)
    with assms(1) obtain i where s: "s = itoa i" by (auto split: option.splits)
    obtain c t where ct: "itoa i = c # t" "is_digit c \<or> c = CHR ''-''"
      using itoa_first by blast
    from ct(2) have c: "\<not> json_space c" by auto
    from ct(2) have "c \<notin> set ''[]{}ntf'' \<and> c \<noteq> quote_mark"
      using digit_bounds [of c] by (elim disjE) (simp_all add: quote_mark_def)
    note c = c this
    from lex_number_itoa [OF r, of i] c ct show ?thesis
      by (auto simp: n JNum s skip_ws_first)
  next
    case (JStr s)
    have "length s < m"
      using len json_chars_length [of s, OF order_refl] by (simp add: JStr n json_string_def)
    then show ?thesis
      by (simp add: n JStr json_string_def skip_ws_first parse_json_chars)
  qed (use assms in \<open>auto simp: n skip_ws_first quote_mark_def\<close>)
qed

lemma printable_prints_back: "printable j \<Longrightarrow> prints_back j"
proof (induction j)
  case (JArr js)
  show ?case
    unfolding prints_back_def
  proof (intro allI impI)
    fix k n r assume len: "2 * length (pr k (JArr js)) < n"
    then obtain m where n: "n = Suc m" by (cases n) auto
    show "parse_value n (pr k (JArr js) @ r) = Some (coerce_json (JArr js), r)"
    proof (cases "js = []")
      case True
      then show ?thesis by (simp add: n skip_ws_first quote_mark_def)
    next
      case False
      let ?body = "join_with '','' (map (\<lambda>j. nl (Suc k) @ pr (Suc k) j) js)"
      have "list_all prints_back js" using JArr by (auto simp: list_all_iff)
      moreover have "2 * length ?body + 1 < m" using len False n by simp
      ultimately have "parse_items m (?body @ nl k @ '']'' @ r) = Some (map coerce_json js, r)"
        using parse_items_print [OF False] by blast
      moreover obtain j js' where js: "js = j # js'" using False by (cases js) auto
      obtain c t where "pr (Suc k) j = c # t" "\<not> json_space c \<and> c \<noteq> CHR '']''"
        using json_print_first [of j nl sp "Suc k"] JArr.prems js by auto
      then have "\<exists>d u. skip_ws (?body @ nl k @ '']'' @ r) = d # u \<and> d \<noteq> CHR '']''"
        using js by (cases js') (simp_all add: skip_ws_first)
      ultimately show ?thesis
        using False by (auto simp: n skip_ws_first quote_mark_def)
    qed
  qed
next
  case (JObj ms)
  show ?case
    unfolding prints_back_def
  proof (intro allI impI)
    fix k n r assume len: "2 * length (pr k (JObj ms)) < n"
    then obtain m where n: "n = Suc m" by (cases n) auto
    show "parse_value n (pr k (JObj ms) @ r) = Some (coerce_json (JObj ms), r)"
    proof (cases "ms = []")
      case True
      then show ?thesis by (simp add: n skip_ws_first quote_mark_def)
    next
      case False
      let ?body = "join_with '','' (map (member (Suc k)) ms)"
      note print = print_members [OF False, of k]
      have "list_all (\<lambda>(key, j). utf8_text key \<and> prints_back j) ms"
        using JObj by (fastforce simp: list_all_iff)
      moreover have "2 * length ?body + 1 < m" using len n unfolding print by simp
      ultimately have "parse_members m (?body @ nl k @ ''}'' @ r) = Some (map (\<lambda>(key, j). (key, coerce_json j)) ms, r)"
        using parse_members_print [OF False] by blast
      moreover obtain key j ms' where ms: "ms = (key, j) # ms'" using False by (cases ms) auto
      have "\<exists>d u. skip_ws (?body @ nl k @ ''}'' @ r) = d # u \<and> d \<noteq> CHR ''}''"
        using ms by (cases ms') (simp_all add: json_member_def json_string_def skip_ws_first, simp_all add: quote_mark_def)
      ultimately show ?thesis
        unfolding print by (auto simp: n skip_ws_first quote_mark_def)
    qed
  qed
qed (auto intro!: prints_back_scalar)

lemma json_parse_print:
  assumes "printable j" and "skip_ws r = []" and "num_end r"
  shows "json_parse (pr k j @ r) = Inr (coerce_json j)"
proof -
  have "2 * length (pr k j) < 2 * length (pr k j @ r) + 2" by simp
  with printable_prints_back [OF assms(1)] assms(3)
  have "parse_value (2 * length (pr k j @ r) + 2) (pr k j @ r) = Some (coerce_json j, r)"
    unfolding prints_back_def by blast
  with assms(2) show ?thesis by (simp add: json_parse_def del: length_append)
qed

end

interpretation indented: json_layout indent_to "'' ''"
  by unfold_locales (auto simp: indent_to_def json_space_def newline_def byte_def list_all_iff)

interpretation compact: json_layout "\<lambda>_. []" "[]"
  by unfold_locales simp_all

lemma json_parse_indent:
  "wf_json j \<Longrightarrow> skip_ws r = [] \<Longrightarrow> num_end r \<Longrightarrow> json_parse (json_indent k j @ r) = Inr j"
  by (simp add: json_indent_def indented.json_parse_print wf_json_printable wf_json_coerced)

lemma json_parse_compact:
  "wf_json j \<Longrightarrow> skip_ws r = [] \<Longrightarrow> num_end r \<Longrightarrow> json_parse (json_compact j @ r) = Inr j"
  by (simp add: json_compact_def compact.json_parse_print wf_json_printable wf_json_coerced)

text \<open>Without the condition on strings: invalid bytes come back as U+FFFD.\<close>

lemma json_parse_indent_coerced:
  "printable j \<Longrightarrow> json_parse (json_indent k j) = Inr (coerce_json j)"
  using indented.json_parse_print [of j "[]" k] by (simp add: json_indent_def skip_ws_def)

subsection \<open>Decoding into Go values\<close>

text \<open>A decoder takes the JSON value and the Go value already there.\<close>

type_synonym 'a decoder = "json \<Rightarrow> 'a \<Rightarrow> error + 'a"

definition json_type_error :: error where
  "json_type_error = Errorf ''json: cannot unmarshal''"

definition dec_int :: "int decoder" where
  "dec_int j x = (case j of JNull \<Rightarrow> Inr x
     | JNum s \<Rightarrow> (case atoi s of None \<Rightarrow> Inl json_type_error | Some n \<Rightarrow> Inr n)
     | _ \<Rightarrow> Inl json_type_error)"

definition dec_str :: "string decoder" where
  "dec_str j x = (case j of JNull \<Rightarrow> Inr x | JStr s \<Rightarrow> Inr s | _ \<Rightarrow> Inl json_type_error)"

definition dec_bool :: "bool decoder" where
  "dec_bool j x = (case j of JNull \<Rightarrow> Inr x | JBool b \<Rightarrow> Inr b | _ \<Rightarrow> Inl json_type_error)"

text \<open>A slice: the elements it already has are decoded into, \<open>null\<close> makes it nil.\<close>

fun dec_elems :: "'a decoder \<Rightarrow> 'a \<Rightarrow> json list \<Rightarrow> 'a list \<Rightarrow> error + 'a list" where
  "dec_elems dec z [] xs = Inr []"
| "dec_elems dec z (j # js) xs =
     err_bind (dec j (case xs of [] \<Rightarrow> z | x # _ \<Rightarrow> x)) (\<lambda>y.
     err_bind (dec_elems dec z js (tl xs)) (\<lambda>ys. Inr (y # ys)))"

definition dec_slice :: "'a decoder \<Rightarrow> 'a \<Rightarrow> 'a list option decoder" where
  "dec_slice dec z j x = (case j of JNull \<Rightarrow> Inr None
     | JArr js \<Rightarrow> err_bind (dec_elems dec z js (case x of None \<Rightarrow> [] | Some xs \<Rightarrow> xs)) (\<lambda>ys. Inr (Some ys))
     | _ \<Rightarrow> Inl json_type_error)"

text \<open>The decoder of one field of a struct, from the field's selector and update.\<close>

definition field :: "('a \<Rightarrow> 'b) \<Rightarrow> (('b \<Rightarrow> 'b) \<Rightarrow> 'a \<Rightarrow> 'a) \<Rightarrow> 'b decoder \<Rightarrow> 'a decoder" where
  "field get upd dec j x = err_bind (dec j (get x)) (\<lambda>v. Inr (upd (\<lambda>_. v) x))"

definition find_field :: "(string \<times> 'a decoder) list \<Rightarrow> string \<Rightarrow> 'a decoder option" where
  "find_field fs k = (case map_of fs k of Some f \<Rightarrow> Some f
     | None \<Rightarrow> map_option snd (List.find (\<lambda>(n, _). equal_fold n k) fs))"

fun decode_members :: "(string \<times> 'a decoder) list \<Rightarrow> (string \<times> json) list \<Rightarrow> 'a \<Rightarrow> error + 'a" where
  "decode_members fs [] x = Inr x"
| "decode_members fs ((k, j) # ms) x =
     (case find_field fs k of
        None \<Rightarrow> decode_members fs ms x
      | Some f \<Rightarrow> err_bind (f j x) (decode_members fs ms))"

definition decode_fields :: "(string \<times> 'a decoder) list \<Rightarrow> 'a decoder" where
  "decode_fields fs j x = (case j of JNull \<Rightarrow> Inr x | JObj ms \<Rightarrow> decode_members fs ms x
     | _ \<Rightarrow> Inl json_type_error)"

text \<open>\<open>map[string]*T\<close>: every member is decoded into a fresh \<open>T\<close>; a \<open>null\<close> member, which
  would put a nil pointer into the map, is taken as an error.\<close>

fun dec_entries :: "'a decoder \<Rightarrow> 'a \<Rightarrow> (string \<times> json) list \<Rightarrow> (string \<times> 'a) list \<Rightarrow> error + (string \<times> 'a) list" where
  "dec_entries dec z [] m = Inr m"
| "dec_entries dec z ((k, j) # ms) m =
     (if j = JNull then Inl json_type_error
      else err_bind (dec j z) (\<lambda>v. dec_entries dec z ms (AList.update k v m)))"

definition dec_map :: "'a decoder \<Rightarrow> 'a \<Rightarrow> (string \<times> 'a) list option decoder" where
  "dec_map dec z j x = (case j of JNull \<Rightarrow> Inr None
     | JObj ms \<Rightarrow> err_bind (dec_entries dec z ms (case x of None \<Rightarrow> [] | Some m \<Rightarrow> m)) (\<lambda>m. Inr (Some m))
     | _ \<Rightarrow> Inl json_type_error)"

definition JInt :: "int \<Rightarrow> json" where
  "JInt n = JNum (itoa n)"

lemma dec_scalar [simp]:
  "dec_str (JStr s) x = Inr s" "dec_bool (JBool b) y = Inr b"
  "int64_range n \<Longrightarrow> dec_int (JInt n) z = Inr n"
  by (simp_all add: dec_str_def dec_bool_def dec_int_def JInt_def)

lemma wf_JInt [simp]: "int64_range n \<Longrightarrow> wf_json (JInt n)"
  by (simp add: JInt_def)

lemma dec_elems_strs [simp]: "dec_elems dec_str z (map JStr ss) xs = Inr ss"
  by (induction ss arbitrary: xs) simp_all

lemma decode_members_hit:
  "find_field fs k = Some f \<Longrightarrow> decode_members fs ((k, j) # ms) x = err_bind (f j x) (decode_members fs ms)"
  by simp

lemma update_new: "k \<notin> fst ` set m \<Longrightarrow> AList.update k v m = m @ [(k, v)]"
  by (induction m) auto

lemma dec_entries_map:
  assumes "\<And>k v. (k, v) \<in> set kvs \<Longrightarrow> enc v \<noteq> JNull \<and> dec (enc v) z = Inr v"
    and "distinct (map fst (m @ kvs))"
  shows "dec_entries dec z (map (\<lambda>(k, v). (k, enc v)) kvs) m = Inr (m @ kvs)"
  using assms
proof (induction kvs arbitrary: m)
  case (Cons kv kvs)
  obtain k v where kv: "kv = (k, v)" by (cases kv)
  have "AList.update k v m = m @ [(k, v)]"
    using Cons.prems(2) kv by (intro update_new) auto
  moreover have "enc v \<noteq> JNull" "dec (enc v) z = Inr v"
    using Cons.prems(1) [of k v] kv by simp_all
  moreover have "dec_entries dec z (map (\<lambda>(k, v). (k, enc v)) kvs) (m @ [(k, v)]) = Inr ((m @ [(k, v)]) @ kvs)"
    using Cons.prems kv by (intro Cons.IH) auto
  ultimately show ?case using kv by simp
qed simp

end
