(* ===== verification/Sys.thy ===== *)
theory Sys
  imports Prelude
begin

section \<open>The system the program runs on: files, faults, the I/O monad\<close>

text \<open>
  The program's effects are those of the package \<open>os\<close>: it reads, writes, renames, links
  and removes files. This theory models them by state passing. A file name leads to an inode
  number, an inode holds bytes and the flag that says whether these bytes have been fsync'd,
  so hard links and unflushed data are visible to the model. Every system call first takes
  the next entry of \<open>w_faults\<close>: an errno makes the call fail with it and do nothing, so a
  statement about all worlds is a statement about every pattern of I/O failures (missing
  directories, full disks, read-only mounts are such failures; the directory tree itself is
  not modelled). Every change of the disk is recorded in \<open>w_history\<close>: its entries are the
  disks a crash could leave behind.
\<close>

subsection \<open>Disks\<close>

type_synonym path = "string list"

record inode =
  ino_data :: string
  ino_synced :: bool

record disk =
  dk_names :: "path \<Rightarrow> nat option"
  dk_inodes :: "nat \<Rightarrow> inode"
  dk_next :: nat

record world =
  w_disk :: disk
  w_faults :: "errno option list"
  w_entropy :: "string list"
  w_history :: "disk list"
  w_urls :: "string list"
  w_hw :: nat

definition lookup :: "disk \<Rightarrow> path \<Rightarrow> inode option" where
  "lookup d p = map_option (dk_inodes d) (dk_names d p)"

definition file_data :: "disk \<Rightarrow> path \<Rightarrow> string option" where
  "file_data d p = map_option ino_data (lookup d p)"

text \<open>Paths are lists of components: \<open>filepath.Join\<close>, \<open>Dir\<close>, \<open>Base\<close> and the
  addition of a suffix to a path.\<close>

definition path_join :: "path \<Rightarrow> string \<Rightarrow> path" where
  "path_join dir name = dir @ [name]"

definition path_dir :: "path \<Rightarrow> path" where
  "path_dir p = butlast p"

definition path_base :: "path \<Rightarrow> string" where
  "path_base p = (if p = [] then ''.'' else last p)"

definition path_suffix :: "path \<Rightarrow> string \<Rightarrow> path" where
  "path_suffix p s = butlast p @ [last p @ s]"

text \<open>The well-formed disks: inode numbers in use are below the next free one.\<close>

definition wf_disk :: "disk \<Rightarrow> bool" where
  "wf_disk d \<longleftrightarrow> (\<forall>p i. dk_names d p = Some i \<longrightarrow> i < dk_next d)"

definition empty_disk :: disk where
  "empty_disk = \<lparr>dk_names = (\<lambda>_. None), dk_inodes = (\<lambda>_. \<lparr>ino_data = [], ino_synced = False\<rparr>), dk_next = 0\<rparr>"

text \<open>A disk with one more durable file, for building concrete worlds.\<close>

definition put_file :: "path \<Rightarrow> string \<Rightarrow> disk \<Rightarrow> disk" where
  "put_file p s d = \<lparr>dk_names = (dk_names d)(p := Some (dk_next d)),
     dk_inodes = (dk_inodes d)(dk_next d := \<lparr>ino_data = s, ino_synced = True\<rparr>),
     dk_next = Suc (dk_next d)\<rparr>"

definition world_of :: "disk \<Rightarrow> world" where
  "world_of d = \<lparr>w_disk = d, w_faults = [], w_entropy = [''1'', ''2'', ''3'', ''4'', ''5'', ''6'', ''7'', ''8''],
     w_history = [], w_urls = [], w_hw = 0\<rparr>"

lemma path_join_inj [simp]: "path_join d a = path_join e b \<longleftrightarrow> d = e \<and> a = b"
  by (simp add: path_join_def)

lemma path_dir_join [simp]: "path_dir (path_join d a) = d"
  by (simp add: path_dir_def path_join_def)

lemma path_base_join [simp]: "path_base (path_join d a) = a"
  by (simp add: path_base_def path_join_def)

lemma path_suffix_join [simp]: "path_suffix (path_join d a) s = path_join d (a @ s)"
  by (simp add: path_suffix_def path_join_def)

lemma path_join_dir_base: "p \<noteq> [] \<Longrightarrow> path_join (path_dir p) (path_base p) = p"
  by (simp add: path_join_def path_dir_def path_base_def)

lemma path_suffix_neq [simp]: "s \<noteq> [] \<Longrightarrow> p \<noteq> [] \<Longrightarrow> path_suffix p s \<noteq> p"
  by (metis append_self_conv last_snoc path_suffix_def)

lemma path_suffix_neq2 [simp]: "s \<noteq> [] \<Longrightarrow> p \<noteq> [] \<Longrightarrow> p \<noteq> path_suffix p s"
  by (metis path_suffix_neq)

lemma wf_empty_disk [simp]: "wf_disk empty_disk"
  by (simp add: wf_disk_def empty_disk_def)

lemma wf_put_file [simp]: "wf_disk d \<Longrightarrow> wf_disk (put_file p s d)"
  by (auto simp: wf_disk_def put_file_def less_Suc_eq)

lemma lookup_put_file:
  "wf_disk d \<Longrightarrow> lookup (put_file p s d) q =
     (if q = p then Some \<lparr>ino_data = s, ino_synced = True\<rparr> else lookup d q)"
  by (cases "dk_names d q") (auto simp: lookup_def put_file_def wf_disk_def)

subsection \<open>The I/O monad\<close>

type_synonym 'a io = "world \<Rightarrow> (error + 'a) \<times> world"

definition ret :: "'a \<Rightarrow> 'a io" where
  "ret x = (\<lambda>w. (Inr x, w))"

definition throw :: "error \<Rightarrow> 'a io" where
  "throw e = (\<lambda>w. (Inl e, w))"

text \<open>\<open>trying m k\<close> is \<open>x, err := m()\<close> followed by code that looks at \<open>err\<close> itself;
  \<open>seqE m k\<close> is the same followed by \<open>if err != nil { return err }\<close>.\<close>

definition trying :: "'a io \<Rightarrow> (error + 'a \<Rightarrow> 'b io) \<Rightarrow> 'b io" where
  "trying m k = (\<lambda>w. case m w of (r, w') \<Rightarrow> k r w')"

definition seqE :: "'a io \<Rightarrow> ('a \<Rightarrow> 'b io) \<Rightarrow> 'b io" where
  "seqE m k = trying m (\<lambda>r. case r of Inl e \<Rightarrow> throw e | Inr x \<Rightarrow> k x)"

text \<open>\<open>wrapE s m\<close> wraps an error of \<open>m\<close> with \<open>fmt.Errorf("s: %w", err)\<close>; \<open>finally m c\<close>
  runs the deferred call \<open>c\<close>, whose error is dropped, after \<open>m\<close>.\<close>

definition wrapE :: "string \<Rightarrow> 'a io \<Rightarrow> 'a io" where
  "wrapE s m = trying m (\<lambda>r. case r of Inl e \<Rightarrow> throw (Wrap s e) | Inr x \<Rightarrow> ret x)"

definition deferred :: "'a io \<Rightarrow> unit io \<Rightarrow> 'a io" where
  "deferred m c = trying m (\<lambda>r. trying c (\<lambda>_ w. (r, w)))"

definition ignoring :: "unit io \<Rightarrow> unit io" where
  "ignoring m = trying m (\<lambda>_. ret ())"

definition lift_err :: "error + 'a \<Rightarrow> 'a io" where
  "lift_err r = (\<lambda>w. (r, w))"

text \<open>A \<open>for\<close> loop over a slice whose body may return an error.\<close>

primrec for_each :: "'a list \<Rightarrow> ('a \<Rightarrow> unit io) \<Rightarrow> unit io" where
  "for_each [] f = ret ()"
| "for_each (x # xs) f = seqE (f x) (\<lambda>_. for_each xs f)"

subsection \<open>System calls\<close>

definition next_fault :: "world \<Rightarrow> errno option" where
  "next_fault w = (case w_faults w of [] \<Rightarrow> None | f # _ \<Rightarrow> f)"

definition pop_fault :: "world \<Rightarrow> world" where
  "pop_fault w = w\<lparr>w_faults := tl (w_faults w)\<rparr>"

definition sys_call :: "(world \<Rightarrow> (errno + 'a) \<times> world) \<Rightarrow> 'a io" where
  "sys_call f w =
    (case next_fault w of
       Some e \<Rightarrow> (Inl (Sys e), pop_fault w)
     | None \<Rightarrow> (case f (pop_fault w) of
                 (Inl e, w') \<Rightarrow> (Inl (Sys e), w')
               | (Inr x, w') \<Rightarrow> (Inr x, w')))"

definition put_disk :: "disk \<Rightarrow> world \<Rightarrow> world" where
  "put_disk d w = w\<lparr>w_disk := d, w_history := d # w_history w\<rparr>"

definition read_file :: "path \<Rightarrow> string io" where
  "read_file p = sys_call (\<lambda>w. case lookup (w_disk w) p of
     None \<Rightarrow> (Inl ENOENT, w) | Some n \<Rightarrow> (Inr (ino_data n), w))"

text \<open>\<open>os.Stat\<close>: the inode number and the size.\<close>

definition stat :: "path \<Rightarrow> (nat \<times> nat) io" where
  "stat p = sys_call (\<lambda>w. case dk_names (w_disk w) p of
     None \<Rightarrow> (Inl ENOENT, w)
   | Some i \<Rightarrow> (Inr (i, length (ino_data (dk_inodes (w_disk w) i))), w))"

text \<open>The name \<open>p\<close> now leads to a new, empty inode.\<close>

definition new_inode :: "path \<Rightarrow> disk \<Rightarrow> disk" where
  "new_inode p d = \<lparr>dk_names = (dk_names d)(p := Some (dk_next d)),
     dk_inodes = (dk_inodes d)(dk_next d := \<lparr>ino_data = [], ino_synced = False\<rparr>),
     dk_next = Suc (dk_next d)\<rparr>"

definition set_inode :: "nat \<Rightarrow> inode \<Rightarrow> disk \<Rightarrow> disk" where
  "set_inode i n d = d\<lparr>dk_inodes := (dk_inodes d)(i := n)\<rparr>"

text \<open>\<open>os.Create\<close>, and the opening of \<open>os.WriteFile\<close>: an existing file is truncated in
  place. The handle is the inode number.\<close>

definition create :: "path \<Rightarrow> nat io" where
  "create p = sys_call (\<lambda>w. case dk_names (w_disk w) p of
     None \<Rightarrow> (Inr (dk_next (w_disk w)), put_disk (new_inode p (w_disk w)) w)
   | Some i \<Rightarrow> (Inr i, put_disk (set_inode i \<lparr>ino_data = [], ino_synced = False\<rparr> (w_disk w)) w))"

text \<open>\<open>os.CreateTemp(dir, pre + "*")\<close>: the first random suffix that gives a free name
  (the file is opened with \<open>O_EXCL\<close>); an error when the attempts run out.\<close>

definition create_temp :: "path \<Rightarrow> string \<Rightarrow> (path \<times> nat) io" where
  "create_temp dir pre = sys_call (\<lambda>w.
     case dropWhile (\<lambda>r. dk_names (w_disk w) (path_join dir (pre @ r)) \<noteq> None) (w_entropy w) of
       [] \<Rightarrow> (Inl EEXIST, w\<lparr>w_entropy := []\<rparr>)
     | r # rs \<Rightarrow>
         (Inr (path_join dir (pre @ r), dk_next (w_disk w)),
          put_disk (new_inode (path_join dir (pre @ r)) (w_disk w)) (w\<lparr>w_entropy := rs\<rparr>)))"

definition fwrite :: "nat \<Rightarrow> string \<Rightarrow> unit io" where
  "fwrite i s = sys_call (\<lambda>w.
     (Inr (), put_disk (set_inode i \<lparr>ino_data = ino_data (dk_inodes (w_disk w) i) @ s,
                                     ino_synced = False\<rparr> (w_disk w)) w))"

definition fsync :: "nat \<Rightarrow> unit io" where
  "fsync i = sys_call (\<lambda>w.
     (Inr (), put_disk (set_inode i ((dk_inodes (w_disk w) i)\<lparr>ino_synced := True\<rparr>) (w_disk w)) w))"

definition fclose :: "nat \<Rightarrow> unit io" where
  "fclose i = sys_call (\<lambda>w. (Inr (), w))"

text \<open>\<open>rename(2)\<close>: it replaces the target, and does nothing when both names already are links
  to the same inode.\<close>

definition rename_disk :: "path \<Rightarrow> path \<Rightarrow> disk \<Rightarrow> disk" where
  "rename_disk src dst d =
     (if dk_names d src = dk_names d dst then d
      else d\<lparr>dk_names := (dk_names d)(dst := dk_names d src, src := None)\<rparr>)"

definition rename :: "path \<Rightarrow> path \<Rightarrow> unit io" where
  "rename src dst = sys_call (\<lambda>w. case dk_names (w_disk w) src of
     None \<Rightarrow> (Inl ENOENT, w)
   | Some i \<Rightarrow> (Inr (), put_disk (rename_disk src dst (w_disk w)) w))"

definition link :: "path \<Rightarrow> path \<Rightarrow> unit io" where
  "link src dst = sys_call (\<lambda>w. case dk_names (w_disk w) src of
     None \<Rightarrow> (Inl ENOENT, w)
   | Some i \<Rightarrow>
       if dk_names (w_disk w) dst \<noteq> None then (Inl EEXIST, w)
       else (Inr (), put_disk ((w_disk w)\<lparr>dk_names := (dk_names (w_disk w))(dst := Some i)\<rparr>) w))"

definition remove :: "path \<Rightarrow> unit io" where
  "remove p = sys_call (\<lambda>w. case dk_names (w_disk w) p of
     None \<Rightarrow> (Inl ENOENT, w)
   | Some i \<Rightarrow> (Inr (), put_disk ((w_disk w)\<lparr>dk_names := (dk_names (w_disk w))(p := None)\<rparr>) w))"

text \<open>Opening a directory, its fsync, \<open>os.MkdirAll\<close>: calls with no effect on file contents.\<close>

definition open_dir :: "path \<Rightarrow> unit io" where
  "open_dir p = sys_call (\<lambda>w. (Inr (), w))"

definition fsync_dir :: "path \<Rightarrow> unit io" where
  "fsync_dir p = sys_call (\<lambda>w. (Inr (), w))"

definition mkdir_all :: "path \<Rightarrow> unit io" where
  "mkdir_all p = sys_call (\<lambda>w. (Inr (), w))"

text \<open>\<open>os.WriteFile\<close>: truncate, write, close, no fsync.\<close>

definition write_file :: "path \<Rightarrow> string \<Rightarrow> unit io" where
  "write_file p s =
     seqE (create p) (\<lambda>i.
     trying (fwrite i s) (\<lambda>r1.
     trying (fclose i) (\<lambda>r2.
       case r1 of Inl e \<Rightarrow> throw e | Inr _ \<Rightarrow> lift_err r2)))"

text \<open>\<open>os.Stat\<close> of a directory: whether it is there is the system's answer.\<close>

definition stat_dir :: "path \<Rightarrow> unit io" where
  "stat_dir p = sys_call (\<lambda>w. (Inr (), w))"

subsection \<open>Weakest preconditions\<close>

text \<open>
  \<open>wp m Q w\<close>: running \<open>m\<close> in \<open>w\<close> ends in a result and a world that satisfy \<open>Q\<close>.
  The rewrite rules below evaluate the condition over the program text; a system call leaves
  one case where it fails and one where it acts.
\<close>

definition wp :: "'a io \<Rightarrow> (error + 'a \<Rightarrow> world \<Rightarrow> bool) \<Rightarrow> world \<Rightarrow> bool" where
  "wp m Q w = (case m w of (r, w') \<Rightarrow> Q r w')"

named_theorems wp_simps \<open>evaluation of wp over the program text\<close>
named_theorems sys_defs \<open>the system calls as instances of sys_call\<close>

lemma wp_iff: "wp m Q w \<longleftrightarrow> (\<forall>r w'. m w = (r, w') \<longrightarrow> Q r w')"
  by (simp add: wp_def split: prod.splits)

lemma wpD: "wp m Q w \<Longrightarrow> m w = (r, w') \<Longrightarrow> Q r w'"
  by (simp add: wp_def)

lemma wp_mono:
  "wp m P w \<Longrightarrow> (\<And>r w'. P r w' \<Longrightarrow> Q r w') \<Longrightarrow> wp m Q w"
  by (auto simp: wp_def split: prod.splits)

lemma wp_conj: "wp m P w \<Longrightarrow> wp m Q w \<Longrightarrow> wp m (\<lambda>r w'. P r w' \<and> Q r w') w"
  by (auto simp: wp_def split: prod.splits)

lemma wp_ret [wp_simps]: "wp (ret x) Q w = Q (Inr x) w"
  by (simp add: wp_def ret_def)

lemma wp_throw [wp_simps]: "wp (throw e) Q w = Q (Inl e) w"
  by (simp add: wp_def throw_def)

lemma wp_lift_err [wp_simps]: "wp (lift_err r) Q w = Q r w"
  by (simp add: wp_def lift_err_def)

lemma wp_trying [wp_simps]: "wp (trying m k) Q w = wp m (\<lambda>r. wp (k r) Q) w"
  by (simp add: wp_def trying_def split: prod.splits)

lemma wp_seqE [wp_simps]:
  "wp (seqE m k) Q w =
     wp m (\<lambda>r w'. case r of Inl e \<Rightarrow> Q (Inl e) w' | Inr x \<Rightarrow> wp (k x) Q w') w"
  by (auto simp: seqE_def wp_def trying_def throw_def split: prod.splits sum.splits)

lemma wp_wrapE [wp_simps]:
  "wp (wrapE s m) Q w =
     wp m (\<lambda>r w'. case r of Inl e \<Rightarrow> Q (Inl (Wrap s e)) w' | Inr x \<Rightarrow> Q (Inr x) w') w"
  by (auto simp: wrapE_def wp_def trying_def throw_def ret_def split: prod.splits sum.splits)

lemma wp_deferred [wp_simps]:
  "wp (deferred m c) Q w = wp m (\<lambda>r. wp c (\<lambda>_. Q r)) w"
  by (auto simp: deferred_def wp_def trying_def split: prod.splits)

lemma wp_ignoring [wp_simps]: "wp (ignoring m) Q w = wp m (\<lambda>_. Q (Inr ())) w"
  by (auto simp: ignoring_def wp_def trying_def ret_def split: prod.splits)

lemma wp_if [wp_simps]:
  "wp (if b then m else n) Q w = (if b then wp m Q w else wp n Q w)"
  by simp

lemma wp_case_sum [wp_simps]:
  "wp (case r of Inl e \<Rightarrow> f e | Inr x \<Rightarrow> g x) Q w =
     (case r of Inl e \<Rightarrow> wp (f e) Q w | Inr x \<Rightarrow> wp (g x) Q w)"
  by (cases r) auto

lemma wp_case_prod [wp_simps]:
  "wp (case p of (x, y) \<Rightarrow> f x y) Q w = (case p of (x, y) \<Rightarrow> wp (f x y) Q w)"
  by (cases p) auto

lemma wp_case_option [wp_simps]:
  "wp (case r of None \<Rightarrow> f | Some x \<Rightarrow> g x) Q w =
     (case r of None \<Rightarrow> wp f Q w | Some x \<Rightarrow> wp (g x) Q w)"
  by (cases r) auto

lemma wp_let [wp_simps]: "wp (let x = y in f x) Q w = wp (f y) Q w"
  by simp

lemma wp_sys_call [wp_simps]:
  "wp (sys_call f) Q w \<longleftrightarrow>
     (case next_fault w of
        Some e \<Rightarrow> Q (Inl (Sys e)) (pop_fault w)
      | None \<Rightarrow> (case f (pop_fault w) of
                   (Inl e, w') \<Rightarrow> Q (Inl (Sys e)) w'
                 | (Inr x, w') \<Rightarrow> Q (Inr x) w'))"
  by (simp add: wp_def sys_call_def split: option.splits prod.splits sum.splits)

lemmas sys_call_defs [sys_defs] =
  read_file_def stat_def create_def create_temp_def fwrite_def fsync_def fclose_def
  rename_def link_def remove_def open_dir_def fsync_dir_def mkdir_all_def stat_dir_def

lemma pop_fault_sel [simp]:
  "w_disk (pop_fault w) = w_disk w"
  "w_history (pop_fault w) = w_history w"
  "w_entropy (pop_fault w) = w_entropy w"
  "w_urls (pop_fault w) = w_urls w"
  "w_hw (pop_fault w) = w_hw w"
  "w_faults (pop_fault w) = tl (w_faults w)"
  by (simp_all add: pop_fault_def)

lemma put_disk_sel [simp]:
  "w_disk (put_disk d w) = d"
  "w_history (put_disk d w) = d # w_history w"
  "w_entropy (put_disk d w) = w_entropy w"
  "w_urls (put_disk d w) = w_urls w"
  "w_hw (put_disk d w) = w_hw w"
  "w_faults (put_disk d w) = w_faults w"
  by (simp_all add: put_disk_def)

subsection \<open>Disks on the way\<close>

text \<open>
  \<open>evolves P w w'\<close>: the run from \<open>w\<close> to \<open>w'\<close> only passed through disks that satisfy
  \<open>P\<close>, and ends in one. A crash at any moment of the run leaves a disk that satisfies \<open>P\<close>.
\<close>

definition evolves :: "(disk \<Rightarrow> bool) \<Rightarrow> world \<Rightarrow> world \<Rightarrow> bool" where
  "evolves P w w' \<longleftrightarrow>
     (\<exists>hs. w_history w' = hs @ w_history w \<and> (\<forall>h \<in> set hs. P h)) \<and> P (w_disk w')"

lemma evolves_refl [simp]: "P (w_disk w) \<Longrightarrow> evolves P w w"
  by (simp add: evolves_def)

lemma evolves_trans:
  assumes "evolves P w w'" and "evolves P w' w''"
  shows "evolves P w w''"
proof -
  obtain hs where hs: "w_history w' = hs @ w_history w" "\<forall>h \<in> set hs. P h"
    using assms(1) by (auto simp: evolves_def)
  obtain hs' where hs': "w_history w'' = hs' @ w_history w'" "\<forall>h \<in> set hs'. P h"
    and P: "P (w_disk w'')"
    using assms(2) by (auto simp: evolves_def)
  have "w_history w'' = (hs' @ hs) @ w_history w" "\<forall>h \<in> set (hs' @ hs). P h"
    using hs hs' by auto
  with P show ?thesis unfolding evolves_def by blast
qed

lemma evolves_mono: "evolves P w w' \<Longrightarrow> (\<And>h. P h \<Longrightarrow> Q h) \<Longrightarrow> evolves Q w w'"
  unfolding evolves_def by blast

lemma evolves_final: "evolves P w w' \<Longrightarrow> P (w_disk w')"
  by (simp add: evolves_def)

lemma evolves_conj:
  "evolves P w w' \<Longrightarrow> evolves Q w w' \<Longrightarrow> evolves (\<lambda>h. P h \<and> Q h) w w'"
  by (auto simp: evolves_def)

lemma evolves_put_disk [simp]:
  "evolves P w w' \<Longrightarrow> P d \<Longrightarrow> evolves P w (put_disk d w')"
  unfolding evolves_def by (auto intro: exI [of _ "d # _"])

lemma evolves_pop_fault [simp]: "evolves P w (pop_fault w') = evolves P w w'"
  by (simp add: evolves_def)

lemma evolves_entropy [simp]: "evolves P w (w'\<lparr>w_entropy := e\<rparr>) = evolves P w w'"
  by (simp add: evolves_def)

lemma evolves_urls [simp]: "evolves P w (w'\<lparr>w_urls := e\<rparr>) = evolves P w w'"
  by (simp add: evolves_def)

lemma evolves_hw [simp]: "evolves P w (w'\<lparr>w_hw := e\<rparr>) = evolves P w w'"
  by (simp add: evolves_def)

subsection \<open>What the calls do to lookups\<close>

lemma lookup_new_inode:
  "wf_disk d \<Longrightarrow> lookup (new_inode p d) q =
     (if q = p then Some \<lparr>ino_data = [], ino_synced = False\<rparr> else lookup d q)"
  by (cases "dk_names d q") (auto simp: lookup_def new_inode_def wf_disk_def)

lemma lookup_set_inode:
  "lookup (set_inode i n d) q = (if dk_names d q = Some i then Some n else lookup d q)"
  by (cases "dk_names d q") (auto simp: lookup_def set_inode_def)

lemma lookup_names_update:
  "lookup (d\<lparr>dk_names := m\<rparr>) q = map_option (dk_inodes d) (m q)"
  by (simp add: lookup_def)

lemma names_set_inode [simp]: "dk_names (set_inode i n d) = dk_names d"
  "dk_next (set_inode i n d) = dk_next d"
  "dk_inodes (set_inode i n d) = (dk_inodes d)(i := n)"
  by (simp_all add: set_inode_def)

lemma names_new_inode [simp]: "dk_names (new_inode p d) = (dk_names d)(p := Some (dk_next d))"
  "dk_next (new_inode p d) = Suc (dk_next d)"
  "dk_inodes (new_inode p d) = (dk_inodes d)(dk_next d := \<lparr>ino_data = [], ino_synced = False\<rparr>)"
  by (simp_all add: new_inode_def)

lemma names_fresh: "wf_disk d \<Longrightarrow> dk_names d q \<noteq> Some (dk_next d)"
  by (auto simp: wf_disk_def)

lemma wf_new_inode [simp]: "wf_disk d \<Longrightarrow> wf_disk (new_inode p d)"
  by (auto simp: wf_disk_def less_Suc_eq)

lemma wf_set_inode [simp]: "wf_disk (set_inode i n d) = wf_disk d"
  by (simp add: wf_disk_def)

lemma wf_rename [simp]: "wf_disk d \<Longrightarrow> wf_disk (rename_disk src dst d)"
  by (auto simp: wf_disk_def rename_disk_def)

lemma wf_unlink [simp]: "wf_disk d \<Longrightarrow> wf_disk (d\<lparr>dk_names := (dk_names d)(p := None)\<rparr>)"
  by (auto simp: wf_disk_def)

lemma wf_link [simp]:
  "wf_disk d \<Longrightarrow> dk_names d src = Some i \<Longrightarrow>
   wf_disk (d\<lparr>dk_names := (dk_names d)(p := Some i)\<rparr>)"
  by (auto simp: wf_disk_def)

text \<open>The disk changes of the naming calls, as facts about lookups.\<close>

lemma lookup_unlink:
  "lookup (d\<lparr>dk_names := (dk_names d)(p := None)\<rparr>) q = (if q = p then None else lookup d q)"
  by (simp add: lookup_def)

lemma lookup_link:
  "lookup (d\<lparr>dk_names := (dk_names d)(p := Some i)\<rparr>) q =
     (if q = p then Some (dk_inodes d i) else lookup d q)"
  by (simp add: lookup_def)

lemma lookup_rename_disk:
  "lookup (rename_disk src dst d) q =
     (if dk_names d src = dk_names d dst then lookup d q
      else if q = src then None else if q = dst then lookup d src else lookup d q)"
  by (simp add: lookup_def rename_disk_def)

subsection \<open>Frames\<close>

text \<open>
  \<open>same_outside S d h\<close>: the disks agree on every name outside \<open>S\<close>. \<open>dot_names\<close> are
  the names that begin with a dot, which every temporary file of the program has.
\<close>

definition same_outside :: "path set \<Rightarrow> disk \<Rightarrow> disk \<Rightarrow> bool" where
  "same_outside S d h \<longleftrightarrow> (\<forall>q. q \<notin> S \<longrightarrow> lookup h q = lookup d q)"

definition dot_names :: "path set" where
  "dot_names = {p. p \<noteq> [] \<and> has_prefix ''.'' (last p)}"

lemma same_outside_refl [simp]: "same_outside S d d"
  by (simp add: same_outside_def)

lemma same_outside_trans:
  "same_outside S d e \<Longrightarrow> same_outside S e f \<Longrightarrow> same_outside S d f"
  by (simp add: same_outside_def)

lemma same_outside_mono: "same_outside S d e \<Longrightarrow> S \<subseteq> T \<Longrightarrow> same_outside T d e"
  by (auto simp: same_outside_def)

lemma same_outsideD: "same_outside S d h \<Longrightarrow> q \<notin> S \<Longrightarrow> lookup h q = lookup d q"
  by (simp add: same_outside_def)

lemma dot_names_join [simp]: "path_join d (CHR ''.'' # s) \<in> dot_names"
  by (simp add: dot_names_def path_join_def has_prefix_def)

lemma dot_names_join_iff: "path_join d s \<in> dot_names \<longleftrightarrow> has_prefix ''.'' s"
  by (simp add: dot_names_def path_join_def)

text \<open>
  \<open>frames S m\<close>: whatever fails, the program \<open>m\<close> keeps the disk well formed and only ever
  changes what the names of \<open>S\<close> lead to.
\<close>

definition frames :: "path set \<Rightarrow> 'a io \<Rightarrow> bool" where
  "frames S m \<longleftrightarrow> (\<forall>w. wf_disk (w_disk w) \<longrightarrow>
     wp m (\<lambda>r w'. evolves (\<lambda>h. wf_disk h \<and> same_outside S (w_disk w) h) w w') w)"

lemma framesI:
  assumes "\<And>w. wf_disk (w_disk w) \<Longrightarrow>
    wp m (\<lambda>r w'. evolves (\<lambda>h. wf_disk h \<and> same_outside S (w_disk w) h) w w') w"
  shows "frames S m"
  using assms by (simp add: frames_def)

lemma framesD:
  assumes "frames S m" and "wf_disk (w_disk w)" and "m w = (r, w')"
  shows "evolves (\<lambda>h. wf_disk h \<and> same_outside S (w_disk w) h) w w'"
  using assms wpD unfolding frames_def by blast

lemma frames_mono:
  assumes "frames S m" and "S \<subseteq> T"
  shows "frames T m"
proof (rule framesI)
  fix w :: world assume "wf_disk (w_disk w)"
  then have "wp m (\<lambda>r w'. evolves (\<lambda>h. wf_disk h \<and> same_outside S (w_disk w) h) w w') w"
    using assms(1) by (simp add: frames_def)
  then show "wp m (\<lambda>r w'. evolves (\<lambda>h. wf_disk h \<and> same_outside T (w_disk w) h) w w') w"
    by (rule wp_mono) (use assms(2) in \<open>auto elim!: evolves_mono intro: same_outside_mono\<close>)
qed

lemma frames_trying:
  assumes m: "frames S m" and k: "\<And>r. frames S (k r)"
  shows "frames S (trying m k)"
proof (rule framesI)
  fix w :: world assume wf: "wf_disk (w_disk w)"
  obtain r w' where run: "m w = (r, w')" by (cases "m w")
  have 1: "evolves (\<lambda>h. wf_disk h \<and> same_outside S (w_disk w) h) w w'"
    using framesD [OF m wf run] .
  have wf': "wf_disk (w_disk w')" and same: "same_outside S (w_disk w) (w_disk w')"
    using evolves_final [OF 1] by auto
  obtain r' w'' where run': "k r w' = (r', w'')" by (cases "k r w'")
  have "evolves (\<lambda>h. wf_disk h \<and> same_outside S (w_disk w') h) w' w''"
    using framesD [OF k wf' run'] .
  then have "evolves (\<lambda>h. wf_disk h \<and> same_outside S (w_disk w) h) w' w''"
    by (rule evolves_mono) (use same in \<open>auto intro: same_outside_trans\<close>)
  with 1 have "evolves (\<lambda>h. wf_disk h \<and> same_outside S (w_disk w) h) w w''"
    by (rule evolves_trans)
  with run run' show "wp (trying m k) (\<lambda>r w'. evolves (\<lambda>h. wf_disk h \<and> same_outside S (w_disk w) h) w w') w"
    by (simp add: wp_def trying_def)
qed

lemma frames_ret [simp]: "frames S (ret x)"
  by (rule framesI) (simp add: wp_simps)

lemma frames_throw [simp]: "frames S (throw e)"
  by (rule framesI) (simp add: wp_simps)

lemma frames_lift_err [simp]: "frames S (lift_err r)"
  by (rule framesI) (simp add: wp_simps)

lemma frames_seqE:
  assumes "frames S m" and "\<And>x. frames S (k x)"
  shows "frames S (seqE m k)"
  unfolding seqE_def by (rule frames_trying) (auto simp: assms split: sum.splits)

lemma frames_wrapE: "frames S m \<Longrightarrow> frames S (wrapE s m)"
  unfolding wrapE_def by (rule frames_trying) (auto split: sum.splits)

lemma frames_world: "frames S (\<lambda>w. (r, w))"
  by (rule framesI) (simp add: wp_def)

lemma frames_deferred: "frames S m \<Longrightarrow> frames S c \<Longrightarrow> frames S (deferred m c)"
  unfolding deferred_def by (intro frames_trying frames_world) auto

lemma frames_ignoring: "frames S m \<Longrightarrow> frames S (ignoring m)"
  unfolding ignoring_def by (rule frames_trying) auto

lemma frames_if: "frames S m \<Longrightarrow> frames S n \<Longrightarrow> frames S (if b then m else n)"
  by simp

lemma frames_for_each: "(\<And>x. x \<in> set xs \<Longrightarrow> frames S (f x)) \<Longrightarrow> frames S (for_each xs f)"
  by (induction xs) (auto intro!: frames_seqE)

lemma frames_pure_call:
  assumes "\<And>w. \<exists>r. f w = (r, w)"
  shows "frames S (sys_call f)"
proof (rule framesI)
  fix w :: world
  obtain r where "f (pop_fault w) = (r, pop_fault w)" using assms by blast
  moreover assume "wf_disk (w_disk w)"
  ultimately show "wp (sys_call f) (\<lambda>r w'. evolves (\<lambda>h. wf_disk h \<and> same_outside S (w_disk w) h) w w') w"
    by (auto simp: wp_simps split: option.splits sum.splits)
qed

lemma frames_reading [simp]:
  "frames S (read_file p)" "frames S (stat p)" "frames S (fclose i)" "frames S (open_dir p)"
  "frames S (fsync_dir p)" "frames S (mkdir_all p)" "frames S (stat_dir p)"
  unfolding sys_defs by (rule frames_pure_call; auto split: option.splits)+

lemma frames_remove: "p \<in> S \<Longrightarrow> frames S (remove p)"
  by (rule framesI)
    (auto simp: wp_simps sys_defs same_outside_def lookup_unlink split: option.splits)

lemma frames_rename: "src \<in> S \<Longrightarrow> dst \<in> S \<Longrightarrow> frames S (rename src dst)"
  by (rule framesI)
    (auto simp: wp_simps sys_defs same_outside_def lookup_rename_disk split: option.splits)

lemma frames_link: "dst \<in> S \<Longrightarrow> frames S (link src dst)"
  by (rule framesI)
    (auto simp: wp_simps sys_defs same_outside_def lookup_link split: option.splits)

lemmas frames_intros =
  frames_trying frames_seqE frames_wrapE frames_deferred frames_ignoring frames_if frames_for_each
  frames_ret frames_throw frames_lift_err frames_reading frames_remove frames_rename frames_link

subsection \<open>Runs without faults\<close>

lemma no_fault [simp]: "w_faults w = [] \<Longrightarrow> next_fault w = None"
  by (simp add: next_fault_def)

lemma pop_no_fault [simp]: "w_faults w = [] \<Longrightarrow> pop_fault w = w"
  by (simp add: pop_fault_def)

lemma world_of_sel [simp]:
  "w_disk (world_of d) = d" "w_faults (world_of d) = []" "w_history (world_of d) = []"
  "w_urls (world_of d) = []" "w_hw (world_of d) = 0"
  by (simp_all add: world_of_def)

end
