(* ===== verification/AtomicFile.thy ===== *)
theory AtomicFile
  imports Sys
begin

section \<open>Atomic replacement of a file\<close>

text \<open>
  The pattern that every durable write of the program follows: a temporary file beside the
  target receives the bytes, is fsync'd and closed, and is renamed over the target; the
  directory is synced last, and a deferred call removes the temporary name.
  \<open>commit_temp\<close> is that tail as \<open>writeFileSync\<close> (internal/deployment/wal.go),
  \<open>WriteBootState\<close> and \<open>copyFileSync\<close> (internal/otad/slots.go) write it; they differ
  in the writing call and in the directory sync, its two parameters. The lemmas show that
  under every pattern of faults each disk on the way holds the old file or the complete,
  synced new one under the target's name, and that without faults the new one is in place.
\<close>

subsection \<open>The shared tail\<close>

definition commit_temp :: "path \<Rightarrow> nat \<Rightarrow> unit io \<Rightarrow> path \<Rightarrow> unit io \<Rightarrow> unit io" where
  "commit_temp tmpName tmp wr path dirsync =
     deferred
       (trying wr (\<lambda>r. case r of
          Inl e \<Rightarrow> trying (fclose tmp) (\<lambda>_. throw e)
        | Inr _ \<Rightarrow>
       trying (fsync tmp) (\<lambda>r. case r of
          Inl e \<Rightarrow> trying (fclose tmp) (\<lambda>_. throw e)
        | Inr _ \<Rightarrow>
       seqE (fclose tmp) (\<lambda>_.
       seqE (rename tmpName path) (\<lambda>_.
       dirsync)))))
       (remove tmpName)"

definition atomic_put :: "path \<Rightarrow> string \<Rightarrow> path \<Rightarrow> (nat \<Rightarrow> unit io) \<Rightarrow> unit io \<Rightarrow> unit io" where
  "atomic_put dir pre path wr dirsync =
     seqE (create_temp dir pre) (\<lambda>(t, i). commit_temp t i (wr i) path dirsync)"

subsection \<open>Reasoning about a temporary file\<close>

text \<open>
  \<open>owned t i n d h\<close>: the disk \<open>h\<close> is \<open>d\<close> with the one additional name \<open>t\<close>, which
  alone leads to the inode \<open>i\<close> with contents \<open>n\<close>. \<open>replaced p n d h\<close>: under the name
  \<open>p\<close> the disk \<open>h\<close> has what \<open>d\<close> had there or \<open>n\<close>, and apart from dotted names
  nothing else differs.
\<close>

definition quiet :: "world \<Rightarrow> world \<Rightarrow> bool" where
  "quiet w w' \<longleftrightarrow> w_disk w' = w_disk w \<and> w_history w' = w_history w"

definition owned :: "path \<Rightarrow> nat \<Rightarrow> inode \<Rightarrow> disk \<Rightarrow> disk \<Rightarrow> bool" where
  "owned t i n d h \<longleftrightarrow> wf_disk h \<and> t \<in> dot_names \<and> dk_names h t = Some i \<and> dk_inodes h i = n \<and>
     (\<forall>q. q \<noteq> t \<longrightarrow> dk_names h q \<noteq> Some i \<and> lookup h q = lookup d q) \<and>
     (\<forall>j. j < dk_next d \<longrightarrow> dk_inodes h j = dk_inodes d j) \<and> dk_next d \<le> i"

definition replaced :: "path \<Rightarrow> inode \<Rightarrow> disk \<Rightarrow> disk \<Rightarrow> bool" where
  "replaced p n d h \<longleftrightarrow> wf_disk h \<and> same_outside ({p} \<union> dot_names) d h \<and> lookup h p \<in> {lookup d p, Some n}"

lemma dropWhile_head: "dropWhile P xs = y # ys \<Longrightarrow> \<not> P y" 
  by (metis dropWhile_eq_Cons_conv)

lemma owned_replaced: "owned t i n d h \<Longrightarrow> p \<notin> dot_names \<Longrightarrow> replaced p m d h"
  unfolding owned_def replaced_def same_outside_def by auto

lemma owned_set_inode: "owned t i n d h \<Longrightarrow> owned t i m d (set_inode i m h)"
  by (auto simp: owned_def lookup_set_inode)

lemma owned_old_inode: "owned t i n d h \<Longrightarrow> j < dk_next d \<Longrightarrow> dk_inodes h j = dk_inodes d j"
  by (simp add: owned_def)

lemma quiet_refl [simp]: "quiet w w"
  by (simp add: quiet_def)

lemma quiet_trans: "quiet w w' \<Longrightarrow> quiet w' w'' \<Longrightarrow> quiet w w''"
  by (simp add: quiet_def)

lemma quiet_pop_fault [simp]: "quiet w (pop_fault w') = quiet w w'"
  by (simp add: quiet_def)

lemma evolves_quiet: "evolves P w w' \<Longrightarrow> quiet w' w'' \<Longrightarrow> evolves P w w''"
  by (simp add: evolves_def quiet_def)


lemma wp_tryingI:
  "wp m P w \<Longrightarrow> (\<And>r w'. P r w' \<Longrightarrow> wp (k r) Q w') \<Longrightarrow> wp (trying m k) Q w"
  by (fastforce simp: wp_def trying_def split: prod.splits)

lemma wp_seqEI:
  assumes "wp m P w" and "\<And>e w'. P (Inl e) w' \<Longrightarrow> Q (Inl e) w'"
    and "\<And>x w'. P (Inr x) w' \<Longrightarrow> wp (k x) Q w'"
  shows "wp (seqE m k) Q w"
  unfolding seqE_def by (rule wp_tryingI [OF assms(1)]) (auto simp: wp_simps assms split: sum.splits)

lemma wp_deferredI:
  "wp m P w \<Longrightarrow> (\<And>r w'. P r w' \<Longrightarrow> wp c (\<lambda>_ w'. Q r w') w') \<Longrightarrow> wp (deferred m c) Q w"
  by (fastforce simp: wp_def deferred_def trying_def split: prod.splits)

lemma ownedD:
  assumes "owned t i n d h"
  shows "wf_disk h" "t \<in> dot_names" "dk_names h t = Some i" "dk_inodes h i = n" "lookup h t = Some n"
    and "q \<noteq> t \<Longrightarrow> dk_names h q \<noteq> Some i" "q \<noteq> t \<Longrightarrow> lookup h q = lookup d q"
  using assms by (auto simp: owned_def lookup_def)

lemma owned_rename:
  assumes own: "owned t i n d h" and p: "p \<notin> dot_names"
  shows "replaced p n d (rename_disk t p h)" and "lookup (rename_disk t p h) p = Some n" 
    and "dk_names (rename_disk t p h) t = None"
proof -
  note o = ownedD [OF own]
  have "t \<noteq> p" using p o(2) by blast
  with o(3) o(6) [of p] have ne: "t \<noteq> p" "dk_names h t \<noteq> dk_names h p" by auto
  show "lookup (rename_disk t p h) p = Some n" 
    using ne o(5) by (simp add: lookup_rename_disk)
  moreover have "lookup (rename_disk t p h) q = lookup d q" if "q \<notin> {p} \<union> dot_names" for q
    using that ne o(2) o(7) [of q] by (auto simp: lookup_rename_disk)
  ultimately show "replaced p n d (rename_disk t p h)"
    using o(1) by (simp add: replaced_def same_outside_def)
  show "dk_names (rename_disk t p h) t = None"
    using ne by (simp add: rename_disk_def)
qed

lemma owned_unlink:
  assumes "owned t i n d h" and "p \<notin> dot_names"
  shows "replaced p m d (h\<lparr>dk_names := (dk_names h)(t := None)\<rparr>)"
  using assms by (auto simp: replaced_def same_outside_def lookup_unlink owned_def)

lemma replaced_unlink:
  assumes "replaced p m d h" and "p \<notin> dot_names" "t \<in> dot_names"
  shows "replaced p m d (h\<lparr>dk_names := (dk_names h)(t := None)\<rparr>)"
  using assms by (auto simp: replaced_def same_outside_def lookup_unlink)

lemma wp_commit_temp:
  assumes own: "owned t i m (w_disk w0) (w_disk w)" and p: "p \<notin> dot_names"
    and ev: "evolves (replaced p n (w_disk w0)) w0 w"
    and wr: "\<And>w. owned t i m (w_disk w0) (w_disk w) \<Longrightarrow> evolves (replaced p n (w_disk w0)) w0 w \<Longrightarrow>
        wp wr (\<lambda>r w'. evolves (replaced p n (w_disk w0)) w0 w' \<and> 
           (\<exists>n'. owned t i n' (w_disk w0) (w_disk w') \<and> (r = Inr () \<longrightarrow> n' = n\<lparr>ino_synced := False\<rparr>))) w"
    and n: "ino_synced n"
    and ds: "\<And>w. wp ds (\<lambda>r w'. quiet w w') w"
  shows "wp (commit_temp t i wr p ds) (\<lambda>r w'. evolves (replaced p n (w_disk w0)) w0 w' \<and>
      (r = Inr () \<longrightarrow> lookup (w_disk w') p = Some n)) w"
proof -
  note t = own[unfolded owned_def]
  let ?R = "replaced p n (w_disk w0)"
  have rm: "wp (remove t) (\<lambda>_ w'. evolves ?R w0 w' \<and> (dk_names (w_disk w) t = None \<longrightarrow> w_disk w' = w_disk w)) w" if "evolves ?R w0 w" for w
    using that t evolves_final[OF that] p
    by (auto simp: wp_simps sys_defs replaced_unlink split: option.splits)
  have ren: "wp (rename t p) (\<lambda>r w'. evolves ?R w0 w' \<and> (r = Inr () \<longrightarrow> dk_names (w_disk w') t = None \<and> lookup (w_disk w') p = Some n)) w"
    if "owned t i n (w_disk w0) (w_disk w)" "evolves ?R w0 w" for w
    using that p
    by (auto simp: wp_simps sys_defs owned_rename  split: option.splits)
  have fs: "wp (fsync i) (\<lambda>r w'. evolves ?R w0 w' \<and> (r = Inr () \<longrightarrow> owned t i n (w_disk w0) (w_disk w'))) w" 
    if "owned t i (n\<lparr>ino_synced := False\<rparr>) (w_disk w0) (w_disk w)" "evolves ?R w0 w" for w
  proof -
    have "dk_inodes (w_disk w) i = n\<lparr>ino_synced := False\<rparr>" using that(1) by (simp add: owned_def)
    then have e: "(dk_inodes (w_disk w) i)\<lparr>ino_synced := True\<rparr> = n" using n by simp
    show ?thesis using that owned_set_inode[OF that(1), of n] owned_replaced[OF _ p]
      by (auto simp: wp_simps sys_defs e split: option.splits)
  qed
  have fc: "wp (fclose i) (\<lambda>r w'. evolves ?R w0 w' \<and> w_disk w' = w_disk w) w" if "evolves ?R w0 w" for w
    using that by (auto simp: wp_simps sys_defs split: option.splits)
  let ?Q = "\<lambda>r w'. evolves ?R w0 w' \<and>
    (r = Inr () \<longrightarrow> dk_names (w_disk w') t = None \<and> lookup (w_disk w') p = Some n)"
  have err: "wp (trying (fclose i) (\<lambda>_. throw e)) ?Q w" if "evolves ?R w0 w" for w e
    by (rule wp_tryingI [OF fc [OF that]]) (simp add: wp_simps)
  have rens: "wp (seqE (rename t p) (\<lambda>_. ds)) ?Q w"
    if "owned t i n (w_disk w0) (w_disk w)" and "evolves ?R w0 w" for w
    by (rule wp_seqEI [OF ren [OF that]]) (auto intro!: wp_mono [OF ds] simp: quiet_def evolves_def)
  have closed: "wp (seqE (fclose i) (\<lambda>_. seqE (rename t p) (\<lambda>_. ds))) ?Q w"
    if "owned t i n (w_disk w0) (w_disk w)" and "evolves ?R w0 w" for w
    by (rule wp_seqEI [OF fc [OF that(2)]]) (use that in \<open>auto intro!: rens\<close>)
  have synced: "wp (trying (fsync i) (\<lambda>r. case r of
          Inl e \<Rightarrow> trying (fclose i) (\<lambda>_. throw e)
        | Inr _ \<Rightarrow> seqE (fclose i) (\<lambda>_. seqE (rename t p) (\<lambda>_. ds)))) ?Q w"
    if "owned t i (n\<lparr>ino_synced := False\<rparr>) (w_disk w0) (w_disk w)" and "evolves ?R w0 w" for w
    by (rule wp_tryingI [OF fs [OF that]]) (auto intro!: err closed split: sum.splits)
  have body: "wp (trying wr (\<lambda>r. case r of
          Inl e \<Rightarrow> trying (fclose i) (\<lambda>_. throw e)
        | Inr _ \<Rightarrow> trying (fsync i) (\<lambda>r. case r of
          Inl e \<Rightarrow> trying (fclose i) (\<lambda>_. throw e)
        | Inr _ \<Rightarrow> seqE (fclose i) (\<lambda>_. seqE (rename t p) (\<lambda>_. ds))))) ?Q w"
    by (rule wp_tryingI [OF wr [OF own ev]]) (auto intro!: err synced split: sum.splits)
  show ?thesis
    unfolding commit_temp_def
    by (rule wp_deferredI [OF body]) (auto intro!: wp_mono [OF rm])
qed

text \<open>Programs that only look: the disk and its history stay as they are.\<close>

definition quietly :: "'a io \<Rightarrow> bool" where
  "quietly m \<longleftrightarrow> (\<forall>w. wp m (\<lambda>r w'. quiet w w') w)"

lemma quietlyD: "quietly m \<Longrightarrow> wp m (\<lambda>r w'. quiet w w') w"
  by (simp add: quietly_def)

lemma quietly_trying:
  assumes "quietly m" and "\<And>r. quietly (k r)"
  shows "quietly (trying m k)"
  unfolding quietly_def
proof
  fix w :: world
  show "wp (trying m k) (\<lambda>r w'. quiet w w') w"
    by (rule wp_tryingI [OF quietlyD [OF assms(1)]])
      (rule wp_mono [OF quietlyD [OF assms(2)]], erule (1) quiet_trans)
qed

lemma quietly_ret [simp]: "quietly (ret x)" "quietly (throw e)" "quietly (lift_err y)"
  by (simp_all add: quietly_def wp_simps quiet_def)

lemma quietly_seqE:
  assumes "quietly m" and "\<And>x. quietly (k x)"
  shows "quietly (seqE m k)"
  unfolding seqE_def by (rule quietly_trying) (auto simp: assms split: sum.splits)

lemma quietly_for_each: "(\<And>x. quietly (f x)) \<Longrightarrow> quietly (for_each xs f)"
  by (induction xs) (auto intro!: quietly_seqE)

lemma quietly_reading [simp]:
  "quietly (read_file p)" "quietly (stat p)" "quietly (open_dir p)" "quietly (fsync_dir p)"
  "quietly (mkdir_all p)" "quietly (stat_dir p)"
  by (auto simp: quietly_def quiet_def wp_simps sys_defs split: option.splits)

lemmas quietly_intros = quietly_trying quietly_seqE quietly_for_each

subsection \<open>The whole replacement\<close>

lemma wp_create_temp:
  assumes wf: "wf_disk (w_disk w)" and pre: "has_prefix ''.'' pre"
  shows "wp (create_temp dir pre) (\<lambda>r w'. case r of
      Inl e \<Rightarrow> quiet w w'
    | Inr (t, i) \<Rightarrow> owned t i \<lparr>ino_data = [], ino_synced = False\<rparr> (w_disk w) (w_disk w') \<and>
        w_history w' = w_disk w' # w_history w) w"
proof -
  have dots: "path_join dir (pre @ r) \<in> dot_names" for r
    using pre by (auto simp: dot_names_join_iff has_prefix_iff)
  have own: "owned (path_join dir (pre @ r)) (dk_next (w_disk w)) \<lparr>ino_data = [], ino_synced = False\<rparr>
      (w_disk w) (new_inode (path_join dir (pre @ r)) (w_disk w))" for r
    using wf dots names_fresh [OF wf] by (auto simp: owned_def lookup_new_inode)
  show ?thesis
    by (auto simp: create_temp_def wp_simps quiet_def own split: option.splits list.splits)
qed

lemma wp_fwrite_owned:
  assumes "owned t i m d (w_disk w)" and "evolves (replaced p n d) w0 w" and "p \<notin> dot_names"
    and "n = \<lparr>ino_data = ino_data m @ s, ino_synced = True\<rparr>"
  shows "wp (fwrite i s) (\<lambda>r w'. evolves (replaced p n d) w0 w' \<and>
     (\<exists>n'. owned t i n' d (w_disk w') \<and> (r = Inr () \<longrightarrow> n' = n\<lparr>ino_synced := False\<rparr>))) w"
proof -
  let ?m = "\<lparr>ino_data = ino_data (dk_inodes (w_disk w) i) @ s, ino_synced = False\<rparr>"
  have m: "?m = n\<lparr>ino_synced := False\<rparr>"
    using ownedD(4) [OF assms(1)] assms(4) by simp
  have "owned t i ?m d (set_inode i ?m (w_disk w))"
    by (rule owned_set_inode [OF assms(1)])
  moreover from this have "replaced p n d (set_inode i ?m (w_disk w))"
    by (rule owned_replaced [OF _ assms(3)])
  ultimately show ?thesis
    using assms(1,2) m by (auto simp: fwrite_def wp_simps split: option.splits)
qed

text \<open>
  \<open>writes_to d s wr\<close>: over any disk that extends \<open>d\<close> by a temporary file, the call
  \<open>wr\<close> appends \<open>s\<close> to that file when it returns without an error.
\<close>

definition writes_to :: "disk \<Rightarrow> string \<Rightarrow> (nat \<Rightarrow> unit io) \<Rightarrow> bool" where
  "writes_to d s wr \<longleftrightarrow> (\<forall>t i p w0 w.
     owned t i \<lparr>ino_data = [], ino_synced = False\<rparr> d (w_disk w) \<longrightarrow>
     evolves (replaced p \<lparr>ino_data = s, ino_synced = True\<rparr> d) w0 w \<longrightarrow> p \<notin> dot_names \<longrightarrow>
     wp (wr i) (\<lambda>r w'. evolves (replaced p \<lparr>ino_data = s, ino_synced = True\<rparr> d) w0 w' \<and>
       (\<exists>n'. owned t i n' d (w_disk w') \<and> (r = Inr () \<longrightarrow> n' = \<lparr>ino_data = s, ino_synced = False\<rparr>))) w)"

lemma writes_to_fwrite: "writes_to d s (\<lambda>i. fwrite i s)"
  unfolding writes_to_def
  using wp_fwrite_owned [where m = "\<lparr>ino_data = [], ino_synced = False\<rparr>"] by fastforce

lemma wp_atomic_put:
  assumes wf: "wf_disk (w_disk w)" and pre: "has_prefix ''.'' pre" and p: "p \<notin> dot_names"
    and wr: "writes_to (w_disk w) s wr"
    and ds: "\<And>w. wp ds (\<lambda>r w'. quiet w w') w"
  shows "wp (atomic_put dir pre p wr ds) (\<lambda>r w'.
      evolves (replaced p \<lparr>ino_data = s, ino_synced = True\<rparr> (w_disk w)) w w' \<and>
      (r = Inr () \<longrightarrow> lookup (w_disk w') p = Some \<lparr>ino_data = s, ino_synced = True\<rparr>)) w"
  unfolding atomic_put_def
proof (rule wp_seqEI [OF wp_create_temp [OF wf pre]])
  fix e w'
  assume "case Inl e :: error + path \<times> nat of Inl e \<Rightarrow> quiet w w' | Inr (t, i) \<Rightarrow> owned t i \<lparr>ino_data = [], ino_synced = False\<rparr> (w_disk w) (w_disk w') \<and>
        w_history w' = w_disk w' # w_history w"
  then show "evolves (replaced p \<lparr>ino_data = s, ino_synced = True\<rparr> (w_disk w)) w w' \<and>
      ((Inl e :: error + unit) = Inr () \<longrightarrow> lookup (w_disk w') p = Some \<lparr>ino_data = s, ino_synced = True\<rparr>)"
    using wf by (simp add: quiet_def evolves_def replaced_def)
next
  fix x :: "path \<times> nat" and w'
  obtain t i where x: "x = (t, i)" by (cases x)
  assume "case Inr x :: error + path \<times> nat of Inl e \<Rightarrow> quiet w w' | Inr (t, i) \<Rightarrow> owned t i \<lparr>ino_data = [], ino_synced = False\<rparr> (w_disk w) (w_disk w') \<and>
        w_history w' = w_disk w' # w_history w"
  then have own: "owned t i \<lparr>ino_data = [], ino_synced = False\<rparr> (w_disk w) (w_disk w')"
    and hist: "w_history w' = w_disk w' # w_history w" by (simp_all add: x)
  have ev: "evolves (replaced p \<lparr>ino_data = s, ino_synced = True\<rparr> (w_disk w)) w w'"
    using owned_replaced [OF own p] hist by (auto simp: evolves_def)
  have "wp (commit_temp t i (wr i) p ds) (\<lambda>r w'.
      evolves (replaced p \<lparr>ino_data = s, ino_synced = True\<rparr> (w_disk w)) w w' \<and>
      (r = Inr () \<longrightarrow> lookup (w_disk w') p = Some \<lparr>ino_data = s, ino_synced = True\<rparr>)) w'"
    by (rule wp_commit_temp [OF own p ev _ _ ds]) (use wr p in \<open>simp_all add: writes_to_def\<close>)
  then show "wp (case x of (t, i) \<Rightarrow> commit_temp t i (wr i) p ds) (\<lambda>r w'.
      evolves (replaced p \<lparr>ino_data = s, ino_synced = True\<rparr> (w_disk w)) w w' \<and>
      (r = Inr () \<longrightarrow> lookup (w_disk w') p = Some \<lparr>ino_data = s, ino_synced = True\<rparr>)) w'"
    by (simp add: x)
qed

subsection \<open>Runs without faults\<close>

text \<open>
  \<open>calm k w\<close>: no fault is scheduled, no stale temporary file lies on the disk, and random
  names are left for \<open>k\<close> temporary files.
\<close>

definition clean :: "disk \<Rightarrow> bool" where
  "clean d \<longleftrightarrow> wf_disk d \<and> (\<forall>p \<in> dot_names. dk_names d p = None)"

definition calm :: "nat \<Rightarrow> world \<Rightarrow> bool" where
  "calm k w \<longleftrightarrow> w_faults w = [] \<and> clean (w_disk w) \<and> k \<le> length (w_entropy w)"

lemma calm_atomic_put:
  assumes calm: "calm (Suc k) w" and pre: "has_prefix ''.'' pre" and p: "p \<notin> dot_names"
    and wr: "\<And>i w'. w_faults w' = [] \<Longrightarrow> (\<And>j. j < dk_next (w_disk w) \<Longrightarrow> dk_inodes (w_disk w') j = dk_inodes (w_disk w) j) \<Longrightarrow>
        wr i w' = fwrite i s w'"
    and ds: "\<And>w. w_faults w = [] \<Longrightarrow> ds w = (Inr (), w)"
  shows "\<exists>w'. atomic_put dir pre p wr ds w = (Inr (), w') \<and> calm k w' \<and>
     lookup (w_disk w') = (lookup (w_disk w))(p := Some \<lparr>ino_data = s, ino_synced = True\<rparr>) \<and>
     w_urls w' = w_urls w \<and> w_hw w' = w_hw w"
proof -
  obtain r rs where en: "w_entropy w = r # rs" and k: "k \<le> length rs"
    using calm by (cases "w_entropy w") (auto simp: calm_def)
  define t where "t = path_join dir (pre @ r)"
  have t: "t \<in> dot_names" 
    using pre by (auto simp: t_def dot_names_join_iff has_prefix_iff)
  then have tp: "t \<noteq> p" "dk_names (w_disk w) t = None" and nf: "w_faults w = []" and wf: "wf_disk (w_disk w)"
    using p calm by (auto simp: calm_def clean_def)
  let ?i = "dk_next (w_disk w)"
  have pn: "dk_names (w_disk w) p \<noteq> Some ?i" using names_fresh [OF wf] .
  have pt: "p \<noteq> t" using tp by simp
  have old: "map_option ((dk_inodes (w_disk w))(?i := n)) (dk_names (w_disk w) x) = lookup (w_disk w) x" for x n
    using names_fresh [OF wf, of x] by (cases "dk_names (w_disk w) x") (auto simp: lookup_def)
  have new: "\<And>j. j < ?i \<Longrightarrow> dk_inodes (new_inode t (w_disk w)) j = dk_inodes (w_disk w) j"
    by simp
  have lt: "lookup (w_disk w) t = None"
    using tp by (simp add: lookup_def)
  show ?thesis
    using en nf tp ds t pn pt
    apply (simp add: atomic_put_def commit_temp_def seqE_def trying_def deferred_def wr new sys_defs
        sys_call_def rename_disk_def flip: t_def)
    using calm k wf p
    apply (auto simp: calm_def clean_def wf_disk_def less_Suc_eq fun_eq_iff)
       apply (simp_all add: lookup_def [of "_\<lparr>dk_names := _\<rparr>"] old lt)
    done
qed

end
