(* ===== verification/Store.thy ===== *)
theory Store
  imports AtomicFile
begin

section \<open>Durable stores\<close>

text \<open>
  The contract between the code that keeps a value in a file and the code that updates it. The
  provider says what a disk holds (\<open>content\<close>: what a reader finds, \<open>versions\<close>: what a
  reader may find when reads fail now and then) and promises that reading changes nothing, that
  writing moves the content from the old value to the new one with no state in between whatever
  fails, and that it touches only its own \<open>files\<close>. The client, a load-change-save
  operation, inherits that. \<open>Wal\<close> provides the deployment record, \<open>Slots\<close> the boot
  state of the ESP.
\<close>

locale durable_store =
  fixes content :: "disk \<Rightarrow> 's option"
    and versions :: "disk \<Rightarrow> 's set"
    and ok :: "'s \<Rightarrow> bool"
    and norm :: "'s \<Rightarrow> 's"
    and get :: "'s io"
    and put :: "'s \<Rightarrow> unit io"
    and files :: "path set"
  assumes get_versions: "wp get (\<lambda>r w'. quiet w w' \<and> (\<forall>s. r = Inr s \<longrightarrow> s \<in> versions (w_disk w))) w"
    and get_content: "w_faults w = [] \<Longrightarrow> content (w_disk w) = Some s \<Longrightarrow> get w = (Inr s, w)"
    and put_atomic: "wf_disk (w_disk w) \<Longrightarrow> ok s \<Longrightarrow>
      wp (put s) (\<lambda>r w'.
        evolves (\<lambda>h. wf_disk h \<and> content h \<in> {content (w_disk w), Some (norm s)} \<and>
                     same_outside (files \<union> dot_names) (w_disk w) h) w w' \<and>
        (r = Inr () \<longrightarrow> content (w_disk w') = Some (norm s))) w"
    and put_calm: "calm (2 + k) w \<Longrightarrow> ok s \<Longrightarrow> \<exists>w'. put s w = (Inr (), w') \<and> calm k w' \<and>
        content (w_disk w') = Some (norm s) \<and> same_outside files (w_disk w) (w_disk w') \<and>
        w_urls w' = w_urls w \<and> w_hw w' = w_hw w"
begin

text \<open>Load, change, save: every disk on the way holds the old content or a changed version.\<close>

definition update :: "('s \<Rightarrow> 's) \<Rightarrow> 's io" where
  "update f = seqE get (\<lambda>s. seqE (put (f s)) (\<lambda>_. ret (f s)))"

lemma wp_put_then_ret:
  assumes "wf_disk (w_disk w)" and "ok s"
  shows "wp (seqE (put s) (\<lambda>_. ret x)) (\<lambda>r w'.
        evolves (\<lambda>h. wf_disk h \<and> content h \<in> {content (w_disk w), Some (norm s)} \<and>
                     same_outside (files \<union> dot_names) (w_disk w) h) w w' \<and>
        (\<forall>y. r = Inr y \<longrightarrow> y = x \<and> content (w_disk w') = Some (norm s))) w"
  by (rule wp_seqEI [OF put_atomic [OF assms]]) (simp_all add: wp_simps)

lemma update_atomic:
  assumes wf: "wf_disk (w_disk w)" and ok: "\<And>s. s \<in> versions (w_disk w) \<Longrightarrow> ok (f s)"
  shows "wp (update f) (\<lambda>r w'.
      evolves (\<lambda>h. wf_disk h \<and> (content h = content (w_disk w) \<or> (\<exists>s \<in> versions (w_disk w). content h = Some (norm (f s)))) \<and>
                   same_outside (files \<union> dot_names) (w_disk w) h) w w' \<and>
      (\<forall>t. r = Inr t \<longrightarrow> (\<exists>s \<in> versions (w_disk w). t = f s \<and> content (w_disk w') = Some (norm t)))) w"
  unfolding update_def
proof (rule wp_seqEI [OF get_versions])
  fix e w' assume "quiet w w' \<and> (\<forall>s. Inl e = Inr s \<longrightarrow> s \<in> versions (w_disk w))"
  then show "evolves (\<lambda>h. wf_disk h \<and> (content h = content (w_disk w) \<or> (\<exists>s \<in> versions (w_disk w). content h = Some (norm (f s)))) \<and>
                   same_outside (files \<union> dot_names) (w_disk w) h) w w' \<and>
      (\<forall>t. Inl e = Inr t \<longrightarrow> (\<exists>s \<in> versions (w_disk w). t = f s \<and> content (w_disk w') = Some (norm t)))"
    using wf by (simp add: quiet_def evolves_def)
next
  fix s w' assume q: "quiet w w' \<and> (\<forall>t. Inr s = Inr t \<longrightarrow> t \<in> versions (w_disk w))"
  then have d: "w_disk w' = w_disk w" and s: "s \<in> versions (w_disk w)" and h: "w_history w' = w_history w"
    by (simp_all add: quiet_def)
  have "wf_disk (w_disk w')" using wf d by simp
  from wp_put_then_ret [OF this ok [OF s], of "f s"]
  show "wp (seqE (put (f s)) (\<lambda>_. ret (f s))) (\<lambda>r w'.
      evolves (\<lambda>h. wf_disk h \<and> (content h = content (w_disk w) \<or> (\<exists>s \<in> versions (w_disk w). content h = Some (norm (f s)))) \<and>
                   same_outside (files \<union> dot_names) (w_disk w) h) w w' \<and>
      (\<forall>t. r = Inr t \<longrightarrow> (\<exists>s \<in> versions (w_disk w). t = f s \<and> content (w_disk w') = Some (norm t)))) w'"
    by (rule wp_mono) (use s d h in \<open>auto simp: evolves_def\<close>)
qed

lemma update_calm:
  assumes "calm (2 + k) w" and "content (w_disk w) = Some s" and "ok (f s)"
  shows "\<exists>w'. update f w = (Inr (f s), w') \<and> calm k w' \<and> content (w_disk w') = Some (norm (f s)) \<and>
     same_outside files (w_disk w) (w_disk w')"
proof -
  have g: "get w = (Inr s, w)" using assms(1,2) by (intro get_content) (simp_all add: calm_def)
  obtain w' where "put (f s) w = (Inr (), w')" "calm k w'" "content (w_disk w') = Some (norm (f s))"
    "same_outside files (w_disk w) (w_disk w')"
    using put_calm [OF assms(1,3)] by blast
  with g show ?thesis by (simp add: update_def seqE_def trying_def ret_def)
qed

text \<open>After a successful save the value is read back as long as nobody else writes the files.\<close>

lemma put_then_get:
  assumes "calm (2 + k) w" and "ok s"
  shows "\<exists>w'. put s w = (Inr (), w') \<and> get w' = (Inr (norm s), w')"
proof -
  obtain w' where w': "put s w = (Inr (), w')" "calm k w'" "content (w_disk w') = Some (norm s)"
    using put_calm [OF assms] by blast
  then have "get w' = (Inr (norm s), w')"
    by (intro get_content) (simp_all add: calm_def)
  with w' show ?thesis by blast
qed

end

end
