(* ===== verification/Wal.thy ===== *)
theory Wal
  imports Json Deployment Store "HOL-Library.Multiset"
begin

section \<open>The write-ahead log on disk\<close>

text \<open>
  internal/deployment/wal.go and the JSON form of the record (the struct tags of
  deployment.go). \<open>enc_\<close> is the marshalling of a struct, \<open>dec_\<close> its decoding;
  \<open>dec_firmware\<close> is \<open>Firmware.UnmarshalJSON\<close> with the migration of the single-track
  shape. \<open>Load\<close> and \<open>Save\<close> run over the disk of the theory \<open>Sys\<close>. A deferred
  \<open>Close\<close> of a handle that was only read from has no effect and is not modelled.
\<close>

subsection \<open>Encoding\<close>

definition omitempty :: "string \<Rightarrow> string \<Rightarrow> (string \<times> json) list" where
  "omitempty k s = (if s = [] then [] else [(k, JStr s)])"

definition enc_rootfs :: "rootfs \<Rightarrow> json" where
  "enc_rootfs r = JObj ([(''current'', JStr (rf_current r)), (''pending'', JStr (rf_pending r))]
     @ omitempty ''pending_hash'' (rf_pending_hash r)
     @ [(''rollback'', JStr (rf_rollback r)), (''boot_attempts'', JInt (rf_boot_attempts r)),
        (''max_attempts'', JInt (rf_max_attempts r)), (''last_known_good'', JStr (rf_last_known_good r)),
        (''last_known_good_at'', JStr (rf_last_known_good_at r))])"

definition enc_kernelcache :: "kernelcache \<Rightarrow> json" where
  "enc_kernelcache k = JObj [(''current_version'', JInt (kc_current_version k)),
     (''pending_version'', JInt (kc_pending_version k)), (''state'', JStr (kc_state k)),
     (''stable_boots'', JInt (kc_stable_boots k)), (''stable_threshold'', JInt (kc_stable_threshold k)),
     (''format'', JStr (kc_format k))]"

definition enc_bundle :: "firmware_bundle \<Rightarrow> json" where
  "enc_bundle b = JObj ([(''current_version'', JInt (fb_current_version b)),
     (''pending_version'', JInt (fb_pending_version b))]
     @ omitempty ''pending_hash'' (fb_pending_hash b)
     @ [(''state'', JStr (fb_state b)), (''probe_confirms'', JInt (fb_probe_confirms b)),
        (''stable_threshold'', JInt (fb_stable_threshold b)), (''last_known_good'', JInt (fb_last_known_good b)),
        (''min_version'', JInt (fb_min_version b)), (''last_updated'', JStr (fb_last_updated b))])"

text \<open>The keys of a Go map are printed in sorted order.\<close>

definition sort_bundles :: "(string \<times> firmware_bundle) list \<Rightarrow> (string \<times> firmware_bundle) list" where
  "sort_bundles m = sort_key fst m"

definition enc_firmware :: "firmware \<Rightarrow> json" where
  "enc_firmware f = JObj [(''bundles'', case fw_bundles f of None \<Rightarrow> JNull
     | Some m \<Rightarrow> JObj (map (\<lambda>(k, b). (k, enc_bundle b)) (sort_bundles m)))]"

definition enc_recovery :: "recovery \<Rightarrow> json" where
  "enc_recovery r = JObj [(''version'', JStr (rc_version r)), (''path'', JStr (rc_path r)),
     (''last_updated'', JStr (rc_last_updated r))]"

definition enc_security :: "security \<Rightarrow> json" where
  "enc_security s = JObj [(''level'', JInt (sc_level s)), (''dm_verity'', JBool (sc_dm_verity s)),
     (''secure_boot'', JBool (sc_secure_boot s)), (''ima'', JBool (sc_ima s)),
     (''signing_cert'', JStr (sc_signing_cert s)), (''remote_attestation'', JBool (sc_remote_attestation s))]"

definition enc_anti_rollback :: "anti_rollback \<Rightarrow> json" where
  "enc_anti_rollback a = JObj [(''hardware'', JStr (ar_hardware a)),
     (''counter_value'', JInt (ar_counter_value a)), (''last_updated'', JStr (ar_last_updated a))]"

definition enc_meta :: "meta \<Rightarrow> json" where
  "enc_meta m = JObj [(''schema_version'', JInt (mt_schema_version m)), (''device_id'', JStr (mt_device_id m)),
     (''channel'', JStr (mt_channel m)), (''last_update_check'', JStr (mt_last_update_check m))]"

definition enc_deployment :: "deployment \<Rightarrow> json" where
  "enc_deployment d = JObj [(''rootfs'', enc_rootfs (d_rootfs d)),
     (''kernelcache'', enc_kernelcache (d_kernelcache d)), (''firmware'', enc_firmware (d_firmware d)),
     (''recovery'', enc_recovery (d_recovery d)), (''security'', enc_security (d_security d)),
     (''anti_rollback'', enc_anti_rollback (d_anti_rollback d)),
     (''orphan_homes'', case d_orphan_homes d of None \<Rightarrow> JNull | Some hs \<Rightarrow> JArr (map JStr hs)),
     (''recovery_entry'', JStr (d_recovery_entry d)), (''meta'', enc_meta (d_meta d))]"

subsection \<open>Decoding\<close>

definition dec_rootfs :: "rootfs decoder" where
  "dec_rootfs = decode_fields
     [(''current'', field rf_current rf_current_update dec_str),
      (''pending'', field rf_pending rf_pending_update dec_str),
      (''pending_hash'', field rf_pending_hash rf_pending_hash_update dec_str),
      (''rollback'', field rf_rollback rf_rollback_update dec_str),
      (''boot_attempts'', field rf_boot_attempts rf_boot_attempts_update dec_int),
      (''max_attempts'', field rf_max_attempts rf_max_attempts_update dec_int),
      (''last_known_good'', field rf_last_known_good rf_last_known_good_update dec_str),
      (''last_known_good_at'', field rf_last_known_good_at rf_last_known_good_at_update dec_str)]"

definition dec_kernelcache :: "kernelcache decoder" where
  "dec_kernelcache = decode_fields
     [(''current_version'', field kc_current_version kc_current_version_update dec_int),
      (''pending_version'', field kc_pending_version kc_pending_version_update dec_int),
      (''state'', field kc_state kc_state_update dec_str),
      (''stable_boots'', field kc_stable_boots kc_stable_boots_update dec_int),
      (''stable_threshold'', field kc_stable_threshold kc_stable_threshold_update dec_int),
      (''format'', field kc_format kc_format_update dec_str)]"

definition bundle_fields :: "(string \<times> firmware_bundle decoder) list" where
  "bundle_fields =
     [(''current_version'', field fb_current_version fb_current_version_update dec_int),
      (''pending_version'', field fb_pending_version fb_pending_version_update dec_int),
      (''pending_hash'', field fb_pending_hash fb_pending_hash_update dec_str),
      (''state'', field fb_state fb_state_update dec_str),
      (''probe_confirms'', field fb_probe_confirms fb_probe_confirms_update dec_int),
      (''stable_threshold'', field fb_stable_threshold fb_stable_threshold_update dec_int),
      (''last_known_good'', field fb_last_known_good fb_last_known_good_update dec_int),
      (''min_version'', field fb_min_version fb_min_version_update dec_int),
      (''last_updated'', field fb_last_updated fb_last_updated_update dec_str)]"

definition dec_bundle :: "firmware_bundle decoder" where
  "dec_bundle = decode_fields bundle_fields"

text \<open>The anonymous struct of \<open>Firmware.UnmarshalJSON\<close>: the map, and the embedded bundle whose
  fields are promoted.\<close>

record raw_firmware =
  raw_bundles :: "(string \<times> firmware_bundle) list option"
  raw_legacy :: firmware_bundle

definition dec_raw_firmware :: "raw_firmware decoder" where
  "dec_raw_firmware = decode_fields
     ((''bundles'', field raw_bundles raw_bundles_update (dec_map dec_bundle zero_bundle)) #
      map (\<lambda>(k, f). (k, field raw_legacy raw_legacy_update f)) bundle_fields)"

definition dec_firmware :: "firmware decoder" where
  "dec_firmware j f =
     err_bind (dec_raw_firmware j \<lparr>raw_bundles = None, raw_legacy = zero_bundle\<rparr>) (\<lambda>raw.
       if raw_bundles raw \<noteq> None \<and> raw_bundles raw \<noteq> Some [] then Inr (f\<lparr>fw_bundles := raw_bundles raw\<rparr>)
       else let legacy = raw_legacy raw in
         if fb_state legacy \<noteq> [] \<or> fb_current_version legacy \<noteq> 0 \<or> fb_pending_version legacy \<noteq> 0
         then Inr (f\<lparr>fw_bundles := Some [(''default'', legacy)]\<rparr>)
         else Inr (f\<lparr>fw_bundles := Some []\<rparr>))"

definition dec_recovery :: "recovery decoder" where
  "dec_recovery = decode_fields
     [(''version'', field rc_version rc_version_update dec_str),
      (''path'', field rc_path rc_path_update dec_str),
      (''last_updated'', field rc_last_updated rc_last_updated_update dec_str)]"

definition dec_security :: "security decoder" where
  "dec_security = decode_fields
     [(''level'', field sc_level sc_level_update dec_int),
      (''dm_verity'', field sc_dm_verity sc_dm_verity_update dec_bool),
      (''secure_boot'', field sc_secure_boot sc_secure_boot_update dec_bool),
      (''ima'', field sc_ima sc_ima_update dec_bool),
      (''signing_cert'', field sc_signing_cert sc_signing_cert_update dec_str),
      (''remote_attestation'', field sc_remote_attestation sc_remote_attestation_update dec_bool)]"

definition dec_anti_rollback :: "anti_rollback decoder" where
  "dec_anti_rollback = decode_fields
     [(''hardware'', field ar_hardware ar_hardware_update dec_str),
      (''counter_value'', field ar_counter_value ar_counter_value_update dec_int),
      (''last_updated'', field ar_last_updated ar_last_updated_update dec_str)]"

definition dec_meta :: "meta decoder" where
  "dec_meta = decode_fields
     [(''schema_version'', field mt_schema_version mt_schema_version_update dec_int),
      (''device_id'', field mt_device_id mt_device_id_update dec_str),
      (''channel'', field mt_channel mt_channel_update dec_str),
      (''last_update_check'', field mt_last_update_check mt_last_update_check_update dec_str)]"

definition dec_deployment :: "deployment decoder" where
  "dec_deployment = decode_fields
     [(''rootfs'', field d_rootfs d_rootfs_update dec_rootfs),
      (''kernelcache'', field d_kernelcache d_kernelcache_update dec_kernelcache),
      (''firmware'', field d_firmware d_firmware_update dec_firmware),
      (''recovery'', field d_recovery d_recovery_update dec_recovery),
      (''security'', field d_security d_security_update dec_security),
      (''anti_rollback'', field d_anti_rollback d_anti_rollback_update dec_anti_rollback),
      (''orphan_homes'', field d_orphan_homes d_orphan_homes_update (dec_slice dec_str [])),
      (''recovery_entry'', field d_recovery_entry d_recovery_entry_update dec_str),
      (''meta'', field d_meta d_meta_update dec_meta)]"

subsection \<open>Texts\<close>

definition marshal :: "deployment \<Rightarrow> string" where
  "marshal d = json_indent 0 (enc_deployment d) @ [newline]"

definition unmarshal :: "string \<Rightarrow> error + deployment" where
  "unmarshal b = err_bind (json_parse b) (\<lambda>j. dec_deployment j zero_deployment)"

subsection \<open>Files\<close>

definition BakSuffix :: string where
  "BakSuffix = ''.bak''"

definition fsyncDir :: "path \<Rightarrow> unit io" where
  "fsyncDir dir =
     seqE (open_dir dir) (\<lambda>_.
     trying (fsync_dir dir) (\<lambda>r. case r of
         Inl e \<Rightarrow> if \<not> errors_Is e EINVAL then throw e else ret ()
       | Inr _ \<Rightarrow> ret ()))"

definition writeFileSync :: "path \<Rightarrow> string \<Rightarrow> unit io" where
  "writeFileSync p s =
     (let dir = path_dir p in
      atomic_put dir (''.'' @ path_base p @ ''.tmp-'') p (\<lambda>tmp. fwrite tmp s) (fsyncDir dir))"

definition readOne :: "path \<Rightarrow> deployment io" where
  "readOne p = seqE (read_file p) (\<lambda>b. lift_err (unmarshal b))"

definition Load :: "path \<Rightarrow> deployment io" where
  "Load p =
     trying (readOne p) (\<lambda>r1. case r1 of Inr d \<Rightarrow> ret d | Inl err1 \<Rightarrow>
     trying (readOne (path_suffix p BakSuffix)) (\<lambda>r2. case r2 of Inr d \<Rightarrow> ret d | Inl err2 \<Rightarrow>
       throw (Errorf ''deployment: no valid WAL'')))"

definition Save :: "path \<Rightarrow> deployment \<Rightarrow> unit io" where
  "Save p d =
     (let s = marshal d in
      seqE (wrapE ''deployment: write backup'' (writeFileSync (path_suffix p BakSuffix) s)) (\<lambda>_.
      wrapE ''deployment: write primary'' (writeFileSync p s)))"

subsection \<open>The JSON round trip\<close>

text \<open>
  \<open>storable d\<close>: the integers are in the range of a Go \<open>int\<close>, the texts are valid UTF-8 and the
  bundle names distinct. \<open>stored d\<close> is what comes back: a nil bundle map is read as an empty
  one, and the bundles come in sorted order.
\<close>

definition ok_ints :: "int list \<Rightarrow> bool" where
  "ok_ints ns = list_all int64_range ns"

definition ok_bundle :: "firmware_bundle \<Rightarrow> bool" where
  "ok_bundle b \<longleftrightarrow>
     ok_ints [fb_current_version b, fb_pending_version b, fb_probe_confirms b, fb_stable_threshold b,
              fb_last_known_good b, fb_min_version b] \<and>
     list_all utf8_text [fb_pending_hash b, fb_state b, fb_last_updated b]"

definition ok_rootfs :: "rootfs \<Rightarrow> bool" where
  "ok_rootfs r \<longleftrightarrow> ok_ints [rf_boot_attempts r, rf_max_attempts r] \<and>
     list_all utf8_text [rf_current r, rf_pending r, rf_pending_hash r, rf_rollback r,
       rf_last_known_good r, rf_last_known_good_at r]"

definition ok_kernelcache :: "kernelcache \<Rightarrow> bool" where
  "ok_kernelcache k \<longleftrightarrow> ok_ints [kc_current_version k, kc_pending_version k, kc_stable_boots k,
     kc_stable_threshold k] \<and> list_all utf8_text [kc_state k, kc_format k]"

definition ok_rest :: "deployment \<Rightarrow> bool" where
  "ok_rest d \<longleftrightarrow>
     ok_ints [sc_level (d_security d), ar_counter_value (d_anti_rollback d), mt_schema_version (d_meta d)] \<and>
     list_all utf8_text [rc_version (d_recovery d), rc_path (d_recovery d), rc_last_updated (d_recovery d),
       sc_signing_cert (d_security d), ar_hardware (d_anti_rollback d), ar_last_updated (d_anti_rollback d),
       mt_device_id (d_meta d), mt_channel (d_meta d), mt_last_update_check (d_meta d), d_recovery_entry d] \<and>
     list_all utf8_text (case d_orphan_homes d of None \<Rightarrow> [] | Some hs \<Rightarrow> hs)"

definition storable :: "deployment \<Rightarrow> bool" where
  "storable d \<longleftrightarrow> ok_rootfs (d_rootfs d) \<and> ok_kernelcache (d_kernelcache d) \<and> ok_rest d \<and>
     distinct (map fst (bundle_map d)) \<and> list_all (\<lambda>(k, b). utf8_text k \<and> ok_bundle b) (bundle_map d)"

definition stored :: "deployment \<Rightarrow> deployment" where
  "stored d = d\<lparr>d_firmware := \<lparr>fw_bundles = Some (sort_bundles (bundle_map d))\<rparr>\<rparr>"

lemmas decode_eval = decode_fields_def find_field_def field_def ok_ints_def omitempty_def

lemma dec_rootfs_enc [simp]: "ok_rootfs r \<Longrightarrow> dec_rootfs (enc_rootfs r) zero_rootfs = Inr r"
  by (cases r) (simp add: dec_rootfs_def enc_rootfs_def ok_rootfs_def decode_eval zero_rootfs_def)

lemma dec_kernelcache_enc [simp]:
  "ok_kernelcache k \<Longrightarrow> dec_kernelcache (enc_kernelcache k) zero_kernelcache = Inr k"
  by (cases k) (simp add: dec_kernelcache_def enc_kernelcache_def ok_kernelcache_def decode_eval zero_kernelcache_def)

lemma dec_bundle_enc [simp]: "ok_bundle b \<Longrightarrow> dec_bundle (enc_bundle b) zero_bundle = Inr b"
  by (cases b) (simp add: dec_bundle_def bundle_fields_def enc_bundle_def ok_bundle_def decode_eval zero_bundle_def)

lemma dec_recovery_enc [simp]: "dec_recovery (enc_recovery r) zero_recovery = Inr r"
  by (cases r) (simp add: dec_recovery_def enc_recovery_def decode_eval zero_recovery_def)

lemma dec_security_enc [simp]:
  "int64_range (sc_level s) \<Longrightarrow> dec_security (enc_security s) zero_security = Inr s"
  by (cases s) (simp add: dec_security_def enc_security_def decode_eval zero_security_def)

lemma dec_anti_rollback_enc [simp]:
  "int64_range (ar_counter_value a) \<Longrightarrow> dec_anti_rollback (enc_anti_rollback a) zero_anti_rollback = Inr a"
  by (cases a) (simp add: dec_anti_rollback_def enc_anti_rollback_def decode_eval zero_anti_rollback_def)

lemma dec_meta_enc [simp]:
  "int64_range (mt_schema_version m) \<Longrightarrow> dec_meta (enc_meta m) zero_meta = Inr m"
  by (cases m) (simp add: dec_meta_def enc_meta_def decode_eval zero_meta_def)

lemma sort_bundles_sel [simp]:
  "set (sort_bundles m) = set m" "distinct (map fst (sort_bundles m)) = distinct (map fst m)"
  "sort_bundles m = [] \<longleftrightarrow> m = []"
proof -
  have m: "mset (sort_bundles m) = mset m" by (simp add: sort_bundles_def)
  then show "set (sort_bundles m) = set m" by (rule mset_eq_setD)
  show "distinct (map fst (sort_bundles m)) = distinct (map fst m)"
    using m by (metis mset_eq_imp_distinct_iff mset_map)
  show "sort_bundles m = [] \<longleftrightarrow> m = []" using m by (metis mset_zero_iff)
qed

lemma enc_bundle_neq [simp]: "enc_bundle b \<noteq> JNull"
  by (simp add: enc_bundle_def)

lemma dec_bundles_enc:
  assumes "distinct (map fst m)" and "list_all (\<lambda>(k, b). utf8_text k \<and> ok_bundle b) m"
  shows "dec_entries dec_bundle zero_bundle (map (\<lambda>(k, b). (k, enc_bundle b)) (sort_bundles m)) [] = Inr (sort_bundles m)"
  using dec_entries_map [of "sort_bundles m" enc_bundle dec_bundle zero_bundle "[]"] assms
  by (fastforce simp: list_all_iff)

lemma dec_firmware_enc [simp]:
  assumes "distinct (map fst (case fw_bundles f of None \<Rightarrow> [] | Some m \<Rightarrow> m))"
    and "list_all (\<lambda>(k, b). utf8_text k \<and> ok_bundle b) (case fw_bundles f of None \<Rightarrow> [] | Some m \<Rightarrow> m)"
  shows "dec_firmware (enc_firmware f) \<lparr>fw_bundles = None\<rparr> =
    Inr \<lparr>fw_bundles = Some (sort_bundles (case fw_bundles f of None \<Rightarrow> [] | Some m \<Rightarrow> m))\<rparr>"
proof (cases "fw_bundles f")
  case None
  then show ?thesis
    by (simp add: dec_firmware_def enc_firmware_def dec_raw_firmware_def decode_eval dec_map_def
        zero_bundle_def sort_bundles_def)
next
  case (Some m)
  then show ?thesis
    using assms dec_bundles_enc [of m]
    by (auto simp: dec_firmware_def enc_firmware_def dec_raw_firmware_def decode_eval dec_map_def
        zero_bundle_def sort_bundles_def [of "[]"] Let_def)
qed

lemma dec_enc_deployment:
  assumes "storable d"
  shows "dec_deployment (enc_deployment d) zero_deployment = Inr (stored d)"
proof -
  have fw: "dec_firmware (enc_firmware (d_firmware d)) \<lparr>fw_bundles = None\<rparr> =
      Inr \<lparr>fw_bundles = Some (sort_bundles (bundle_map d))\<rparr>"
    using assms by (simp add: storable_def bundle_map_def)
  have oh: "dec_slice dec_str [] (case d_orphan_homes d of None \<Rightarrow> JNull | Some hs \<Rightarrow> JArr (map JStr hs)) None =
      Inr (d_orphan_homes d)"
    by (simp add: dec_slice_def split: option.split)
  show ?thesis
    using assms fw oh
    by (cases d) (simp add: dec_deployment_def enc_deployment_def decode_fields_def find_field_def field_def
        zero_deployment_def storable_def stored_def ok_rest_def ok_ints_def)
qed

lemma ascii_literals:
  "ascii ''current''" "ascii ''pending''" "ascii ''pending_hash''" "ascii ''rollback''"
  "ascii ''boot_attempts''" "ascii ''max_attempts''" "ascii ''last_known_good''"
  "ascii ''last_known_good_at''" "ascii ''current_version''" "ascii ''pending_version''"
  "ascii ''state''" "ascii ''stable_boots''" "ascii ''stable_threshold''" "ascii ''format''"
  "ascii ''probe_confirms''" "ascii ''min_version''" "ascii ''last_updated''" "ascii ''bundles''"
  "ascii ''version''" "ascii ''path''" "ascii ''level''" "ascii ''dm_verity''"
  "ascii ''secure_boot''" "ascii ''ima''" "ascii ''signing_cert''" "ascii ''remote_attestation''"
  "ascii ''hardware''" "ascii ''counter_value''" "ascii ''schema_version''" "ascii ''device_id''"
  "ascii ''channel''" "ascii ''last_update_check''" "ascii ''rootfs''" "ascii ''kernelcache''"
  "ascii ''firmware''" "ascii ''recovery''" "ascii ''security''" "ascii ''anti_rollback''"
  "ascii ''orphan_homes''" "ascii ''recovery_entry''" "ascii ''meta''"
  by code_simp+

lemma wf_enc_firmware:
  assumes "list_all (\<lambda>(k, b). utf8_text k \<and> ok_bundle b) (bundle_map d)"
  shows "wf_json (enc_firmware (d_firmware d))"
proof -
  have "wf_json (enc_bundle b)" if "ok_bundle b" for b
    using that by (simp add: enc_bundle_def ok_bundle_def ok_ints_def omitempty_def ascii_literals)
  then show ?thesis
    using assms
    by (fastforce simp: enc_firmware_def bundle_map_def list_all_iff ascii_literals split: option.splits)
qed

lemma wf_enc_deployment: "storable d \<Longrightarrow> wf_json (enc_deployment d)"
  using wf_enc_firmware [of d]
  by (auto simp: enc_deployment_def storable_def ok_rest_def ok_rootfs_def ok_kernelcache_def ok_ints_def
      enc_rootfs_def enc_kernelcache_def enc_recovery_def enc_security_def enc_anti_rollback_def enc_meta_def
      omitempty_def ascii_literals list_all_iff split: option.split)

lemma unmarshal_marshal: "storable d \<Longrightarrow> unmarshal (marshal d) = Inr (stored d)"
proof -
  assume st: "storable d"
  have "skip_ws [newline] = []" "num_end [newline]" by code_simp+
  with wf_enc_deployment [OF st] have "json_parse (marshal d) = Inr (enc_deployment d)"
    unfolding marshal_def by (rule json_parse_indent)
  then show ?thesis
    by (simp add: unmarshal_def dec_enc_deployment [OF st])
qed

subsection \<open>What a disk says the record is\<close>

definition wal_at :: "disk \<Rightarrow> path \<Rightarrow> deployment option" where
  "wal_at h p = (case file_data h p of None \<Rightarrow> None
     | Some b \<Rightarrow> (case unmarshal b of Inl e \<Rightarrow> None | Inr d \<Rightarrow> Some d))"

definition wal_of :: "path \<Rightarrow> disk \<Rightarrow> deployment option" where
  "wal_of p h = (case wal_at h p of Some d \<Rightarrow> Some d | None \<Rightarrow> wal_at h (path_suffix p BakSuffix))"

definition wal_versions :: "path \<Rightarrow> disk \<Rightarrow> deployment set" where
  "wal_versions p h = set_option (wal_at h p) \<union> set_option (wal_at h (path_suffix p BakSuffix))"

definition wal_files :: "path \<Rightarrow> path set" where
  "wal_files p = {p, path_suffix p BakSuffix}"

text \<open>A file name that is no temporary one.\<close>

definition plain_path :: "path \<Rightarrow> bool" where
  "plain_path p \<longleftrightarrow> p \<noteq> [] \<and> last p \<noteq> [] \<and> \<not> has_prefix ''.'' (last p)"

lemma plain_path_names:
  assumes "plain_path p"
  shows "p \<notin> dot_names" "path_suffix p s \<notin> dot_names" "s \<noteq> [] \<Longrightarrow> path_suffix p s \<noteq> p"
  using assms
  by (auto simp: plain_path_def dot_names_def path_suffix_def has_prefix_iff append_eq_Cons_conv snoc_eq_iff_butlast)

lemma bak_names:
  assumes "plain_path p"
  shows "path_suffix p BakSuffix \<noteq> p" "p \<noteq> path_suffix p BakSuffix"
  using plain_path_names(3) [OF assms, of BakSuffix] by (auto simp: BakSuffix_def)

lemma wal_at_cong: "lookup h p = lookup d p \<Longrightarrow> wal_at h p = wal_at d p"
  by (simp add: wal_at_def file_data_def)

lemma wal_at_new: "storable d \<Longrightarrow> lookup h p = Some \<lparr>ino_data = marshal d, ino_synced = b\<rparr> \<Longrightarrow> wal_at h p = Some (stored d)"
  by (simp add: wal_at_def file_data_def unmarshal_marshal)

subsection \<open>Reading\<close>

lemma wp_readOne:
  "wp (readOne p) (\<lambda>r w'. quiet w w' \<and> (\<forall>d. r = Inr d \<longrightarrow> wal_at (w_disk w) p = Some d)) w"
  by (auto simp: readOne_def wp_simps sys_defs quiet_def wal_at_def file_data_def split: option.splits sum.splits)

lemma wp_Load:
  "wp (Load p) (\<lambda>r w'. quiet w w' \<and> (\<forall>d. r = Inr d \<longrightarrow> d \<in> wal_versions p (w_disk w))) w"
  unfolding Load_def
proof (rule wp_tryingI [OF wp_readOne])
  fix r1 and w1 :: world
  assume r1: "quiet w w1 \<and> (\<forall>d. r1 = Inr d \<longrightarrow> wal_at (w_disk w) p = Some d)"
  have bak: "wp (trying (readOne (path_suffix p BakSuffix))
     (\<lambda>r2. case r2 of Inr d \<Rightarrow> ret d | Inl err2 \<Rightarrow> throw (Errorf ''deployment: no valid WAL'')))
     (\<lambda>r w'. quiet w w' \<and> (\<forall>d. r = Inr d \<longrightarrow> d \<in> wal_versions p (w_disk w))) w1"
    by (rule wp_tryingI [OF wp_readOne])
      (use r1 in \<open>auto simp: wp_simps quiet_def wal_versions_def split: sum.splits\<close>)
  show "wp (case r1 of Inr d \<Rightarrow> ret d | Inl err1 \<Rightarrow>
       trying (readOne (path_suffix p BakSuffix))
         (\<lambda>r2. case r2 of Inr d \<Rightarrow> ret d | Inl err2 \<Rightarrow> throw (Errorf ''deployment: no valid WAL'')))
     (\<lambda>r w'. quiet w w' \<and> (\<forall>d. r = Inr d \<longrightarrow> d \<in> wal_versions p (w_disk w))) w1"
    using r1 bak by (auto simp: wp_simps wal_versions_def split: sum.splits)
qed

lemma readOne_calm:
  assumes "w_faults w = []"
  shows "\<exists>e. readOne p w = (case wal_at (w_disk w) p of None \<Rightarrow> (Inl e, w) | Some d \<Rightarrow> (Inr d, w))"
  using assms
  by (auto simp: readOne_def seqE_def trying_def sys_defs sys_call_def wal_at_def file_data_def
      throw_def lift_err_def split: option.splits sum.splits)

lemma Load_calm:
  assumes "w_faults w = []"
  shows "Load p w = (case wal_of p (w_disk w) of
     None \<Rightarrow> (Inl (Errorf ''deployment: no valid WAL''), w) | Some d \<Rightarrow> (Inr d, w))"
proof -
  obtain e where "readOne p w = (case wal_at (w_disk w) p of None \<Rightarrow> (Inl e, w) | Some d \<Rightarrow> (Inr d, w))"
    using readOne_calm [OF assms] by blast
  moreover obtain e' where "readOne (path_suffix p BakSuffix) w =
      (case wal_at (w_disk w) (path_suffix p BakSuffix) of None \<Rightarrow> (Inl e', w) | Some d \<Rightarrow> (Inr d, w))"
    using readOne_calm [OF assms] by blast
  ultimately show ?thesis
    by (auto simp: Load_def trying_def ret_def throw_def wal_of_def split: option.splits)
qed

subsection \<open>Writing\<close>

lemma wp_fsyncDir: "wp (fsyncDir dir) (\<lambda>r w'. quiet w w') w"
  by (auto simp: fsyncDir_def wp_simps sys_defs quiet_def split: option.splits)

lemma wp_writeFileSync:
  assumes "wf_disk (w_disk w)" and "p \<notin> dot_names"
  shows "wp (writeFileSync p s) (\<lambda>r w'.
      evolves (replaced p \<lparr>ino_data = s, ino_synced = True\<rparr> (w_disk w)) w w' \<and>
      (r = Inr () \<longrightarrow> lookup (w_disk w') p = Some \<lparr>ino_data = s, ino_synced = True\<rparr>)) w"
  unfolding writeFileSync_def Let_def
  by (rule wp_atomic_put [OF assms(1) _ assms(2) writes_to_fwrite wp_fsyncDir]) (simp add: has_prefix_def)

lemma calm_writeFileSync:
  assumes "calm (Suc k) w" and "p \<notin> dot_names"
  shows "\<exists>w'. writeFileSync p s w = (Inr (), w') \<and> calm k w' \<and>
     lookup (w_disk w') = (lookup (w_disk w))(p := Some \<lparr>ino_data = s, ino_synced = True\<rparr>) \<and>
     w_urls w' = w_urls w \<and> w_hw w' = w_hw w"
  unfolding writeFileSync_def Let_def
  by (rule calm_atomic_put [OF assms(1) _ assms(2)])
    (simp_all add: has_prefix_def fsyncDir_def seqE_def trying_def sys_defs sys_call_def ret_def)

lemma replaced_bak:
  assumes "plain_path p" and "storable d"
    and "replaced (path_suffix p BakSuffix) \<lparr>ino_data = marshal d, ino_synced = True\<rparr> d0 h"
  shows "wf_disk h \<and> wal_of p h \<in> {wal_of p d0, Some (stored d)} \<and> same_outside (wal_files p \<union> dot_names) d0 h"
proof -
  have out: "same_outside ({path_suffix p BakSuffix} \<union> dot_names) d0 h" and wf: "wf_disk h"
    and bak: "lookup h (path_suffix p BakSuffix) \<in> {lookup d0 (path_suffix p BakSuffix), Some \<lparr>ino_data = marshal d, ino_synced = True\<rparr>}"
    using assms(3) by (simp_all add: replaced_def)
  have "p \<notin> {path_suffix p BakSuffix} \<union> dot_names"
    using plain_path_names [OF assms(1)] bak_names [OF assms(1)] by simp
  then have "wal_at h p = wal_at d0 p"
    using out by (intro wal_at_cong) (rule same_outsideD)
  moreover have "wal_at h (path_suffix p BakSuffix) \<in> {wal_at d0 (path_suffix p BakSuffix), Some (stored d)}"
    using bak wal_at_cong wal_at_new [OF assms(2)] by blast
  ultimately have "wal_of p h \<in> {wal_of p d0, Some (stored d)}"
    by (auto simp: wal_of_def split: option.splits)
  with wf out show ?thesis
    by (auto simp: wal_files_def intro: same_outside_mono)
qed

lemma replaced_primary:
  assumes "plain_path p" and "storable d"
    and "replaced p \<lparr>ino_data = marshal d, ino_synced = True\<rparr> d1 h"
  shows "wf_disk h \<and> wal_of p h \<in> {wal_of p d1, Some (stored d)} \<and> same_outside (wal_files p \<union> dot_names) d1 h"
proof -
  have out: "same_outside ({p} \<union> dot_names) d1 h" and wf: "wf_disk h"
    and pri: "lookup h p \<in> {lookup d1 p, Some \<lparr>ino_data = marshal d, ino_synced = True\<rparr>}"
    using assms(3) by (simp_all add: replaced_def)
  have "path_suffix p BakSuffix \<notin> {p} \<union> dot_names"
    using plain_path_names(2) [OF assms(1)] bak_names [OF assms(1)] by simp
  then have "wal_at h (path_suffix p BakSuffix) = wal_at d1 (path_suffix p BakSuffix)"
    using out by (intro wal_at_cong) (rule same_outsideD)
  moreover have "wal_at h p \<in> {wal_at d1 p, Some (stored d)}"
    using pri wal_at_cong wal_at_new [OF assms(2)] by blast
  ultimately have "wal_of p h \<in> {wal_of p d1, Some (stored d)}"
    by (auto simp: wal_of_def split: option.splits)
  with wf out show ?thesis
    by (auto simp: wal_files_def intro: same_outside_mono)
qed

text \<open>The durable state a save ends in: both files hold the new text, synced.\<close>

definition saved :: "path \<Rightarrow> deployment \<Rightarrow> disk \<Rightarrow> bool" where
  "saved p d h \<longleftrightarrow>
     lookup h p = Some \<lparr>ino_data = marshal d, ino_synced = True\<rparr> \<and>
     lookup h (path_suffix p BakSuffix) = Some \<lparr>ino_data = marshal d, ino_synced = True\<rparr>"

definition wal_step_disk :: "path \<Rightarrow> deployment \<Rightarrow> disk \<Rightarrow> disk \<Rightarrow> bool" where
  "wal_step_disk p d d0 h \<longleftrightarrow> wf_disk h \<and> wal_of p h \<in> {wal_of p d0, Some (stored d)} \<and>
     same_outside (wal_files p \<union> dot_names) d0 h"

lemma wp_Save:
  assumes wf: "wf_disk (w_disk w)" and p: "plain_path p" and st: "storable d"
  shows "wp (Save p d) (\<lambda>r w'. evolves (wal_step_disk p d (w_disk w)) w w' \<and>
     (r = Inr () \<longrightarrow> saved p d (w_disk w'))) w"
proof -
  let ?b = "path_suffix p BakSuffix" and ?n = "\<lparr>ino_data = marshal d, ino_synced = True\<rparr>"
  have names: "p \<notin> dot_names" "?b \<notin> dot_names" "?b \<noteq> p"
    using plain_path_names [OF p] by (simp_all add: BakSuffix_def)
  have bak: "wp (wrapE s (writeFileSync ?b (marshal d))) (\<lambda>r w'. evolves (wal_step_disk p d (w_disk w)) w w' \<and>
      (r = Inr () \<longrightarrow> lookup (w_disk w') ?b = Some ?n)) w" for s
  proof -
    have "wp (writeFileSync ?b (marshal d)) (\<lambda>r w'. evolves (wal_step_disk p d (w_disk w)) w w' \<and>
      (r = Inr () \<longrightarrow> lookup (w_disk w') ?b = Some ?n)) w"
      by (rule wp_mono [OF wp_writeFileSync [OF wf names(2)]])
        (auto simp: wal_step_disk_def elim!: evolves_mono dest: replaced_bak [OF p st])
    then show ?thesis by (simp add: wp_wrapE) (erule wp_mono, auto split: sum.splits)
  qed
  have pri: "wp (wrapE s (writeFileSync p (marshal d))) (\<lambda>r w'. evolves (wal_step_disk p d (w_disk w)) w w' \<and>
     (r = Inr () \<longrightarrow> saved p d (w_disk w'))) w1"
    if ev: "evolves (wal_step_disk p d (w_disk w)) w w1" and b: "lookup (w_disk w1) ?b = Some ?n" for s w1
  proof -
    have d1: "wal_step_disk p d (w_disk w) (w_disk w1)" using evolves_final [OF ev] .
    then have wf1: "wf_disk (w_disk w1)" by (simp add: wal_step_disk_def)
    have step: "wal_step_disk p d (w_disk w) h" if "replaced p ?n (w_disk w1) h" for h
      using replaced_primary [OF p st that] d1
      by (auto simp: wal_step_disk_def intro: same_outside_trans)
    have keep: "lookup h ?b = Some ?n" if "replaced p ?n (w_disk w1) h" for h
      using that b names same_outsideD [of "{p} \<union> dot_names" "w_disk w1" h ?b] by (auto simp: replaced_def)
    have "wp (writeFileSync p (marshal d)) (\<lambda>r w'. evolves (wal_step_disk p d (w_disk w)) w w' \<and>
     (r = Inr () \<longrightarrow> saved p d (w_disk w'))) w1"
    proof (rule wp_mono [OF wp_writeFileSync [OF wf1 names(1)]])
      fix r and w' :: world
      assume r: "evolves (replaced p ?n (w_disk w1)) w1 w' \<and> (r = Inr () \<longrightarrow> lookup (w_disk w') p = Some ?n)"
      then have "evolves (wal_step_disk p d (w_disk w)) w1 w'"
        by (auto elim!: evolves_mono intro: step)
      then have "evolves (wal_step_disk p d (w_disk w)) w w'" by (rule evolves_trans [OF ev])
      moreover have "lookup (w_disk w') ?b = Some ?n"
        using r by (auto dest!: evolves_final keep)
      ultimately show "evolves (wal_step_disk p d (w_disk w)) w w' \<and> (r = Inr () \<longrightarrow> saved p d (w_disk w'))"
        using r by (simp add: saved_def)
    qed
    then show ?thesis by (simp add: wp_wrapE) (erule wp_mono, auto split: sum.splits)
  qed
  show ?thesis
    unfolding Save_def Let_def
    by (rule wp_seqEI [OF bak]) (auto intro: pri)
qed

lemma saved_content: "storable d \<Longrightarrow> saved p d h \<Longrightarrow> wal_of p h = Some (stored d)"
  by (simp add: saved_def wal_of_def wal_at_new)

lemma calm_Save:
  assumes "calm (2 + k) w" and p: "plain_path p"
  shows "\<exists>w'. Save p d w = (Inr (), w') \<and> calm k w' \<and> saved p d (w_disk w') \<and>
     same_outside (wal_files p) (w_disk w) (w_disk w') \<and> w_urls w' = w_urls w \<and> w_hw w' = w_hw w"
proof -
  note names = plain_path_names [OF p] bak_names [OF p]
  have "calm (Suc (Suc k)) w" using assms(1) by simp
  then obtain w1 where w1: "writeFileSync (path_suffix p BakSuffix) (marshal d) w = (Inr (), w1)" "calm (Suc k) w1"
    "lookup (w_disk w1) = (lookup (w_disk w))(path_suffix p BakSuffix := Some \<lparr>ino_data = marshal d, ino_synced = True\<rparr>)"
    "w_urls w1 = w_urls w" "w_hw w1 = w_hw w"
    using calm_writeFileSync names(2) by blast
  obtain w2 where w2: "writeFileSync p (marshal d) w1 = (Inr (), w2)" "calm k w2"
    "lookup (w_disk w2) = (lookup (w_disk w1))(p := Some \<lparr>ino_data = marshal d, ino_synced = True\<rparr>)"
    "w_urls w2 = w_urls w1" "w_hw w2 = w_hw w1"
    using calm_writeFileSync [OF w1(2) names(1)] by blast
  have "Save p d w = (Inr (), w2)"
    using w1(1) w2(1) by (simp add: Save_def Let_def seqE_def trying_def wrapE_def ret_def)
  moreover have "saved p d (w_disk w2)"
    using w1(3) w2(3) names(4) by (simp add: saved_def)
  moreover have "same_outside (wal_files p) (w_disk w) (w_disk w2)"
    using w1(3) w2(3) by (auto simp: same_outside_def wal_files_def)
  ultimately show ?thesis using w1 w2 by auto
qed

definition savable :: "path \<Rightarrow> deployment \<Rightarrow> bool" where
  "savable p d \<longleftrightarrow> plain_path p \<and> storable d"

interpretation wal: durable_store "wal_of p" "wal_versions p" "savable p" stored "Load p" "Save p" "wal_files p"
  for p
proof unfold_locales
  show "wp (Load p) (\<lambda>r w'. quiet w w' \<and> (\<forall>s. r = Inr s \<longrightarrow> s \<in> wal_versions p (w_disk w))) w" for w
    by (rule wp_Load)
  show "Load p w = (Inr s, w)" if "w_faults w = []" "wal_of p (w_disk w) = Some s" for w s
    using that by (simp add: Load_calm)
  show "wp (Save p s) (\<lambda>r w'. evolves (\<lambda>h. wf_disk h \<and> wal_of p h \<in> {wal_of p (w_disk w), Some (stored s)} \<and>
          same_outside (wal_files p \<union> dot_names) (w_disk w) h) w w' \<and>
      (r = Inr () \<longrightarrow> wal_of p (w_disk w') = Some (stored s))) w"
    if "wf_disk (w_disk w)" "savable p s" for w s
    by (rule wp_mono [OF wp_Save [OF that(1)]])
      (use that in \<open>auto simp: savable_def wal_step_disk_def saved_content elim!: evolves_mono\<close>)
  show "\<exists>w'. Save p s w = (Inr (), w') \<and> calm k w' \<and> wal_of p (w_disk w') = Some (stored s) \<and>
      same_outside (wal_files p) (w_disk w) (w_disk w') \<and> w_urls w' = w_urls w \<and> w_hw w' = w_hw w"
    if "calm (2 + k) w" "savable p s" for w s k
    using calm_Save [OF that(1)] that(2) saved_content by (fastforce simp: savable_def)
qed

subsection \<open>Properties\<close>

definition sample_storable :: deployment where
  "sample_storable = Deploy ''v43'' (New (\<lambda>_. ''2026-01-01T00:00:00Z'') ''dev'' ''v42'')"

lemma sample_storable_ok: "storable sample_storable" "stored sample_storable = sample_storable"
  by code_simp+

definition sample_path :: path where
  "sample_path = [''var'', ''deployment.json'']"

lemma sample_path_ok: "plain_path sample_path"
  by code_simp

text \<open>C18. Encoding a record with \<open>json.MarshalIndent\<close> and decoding the text gives the record
  back, up to the order of the firmware bundles: no field is lost, renamed or defaulted.\<close>

theorem wal_round_trip:
  assumes "storable d"
  shows "unmarshal (marshal d) = Inr (stored d)"
  using assms by (rule unmarshal_marshal)

lemma wal_round_trip_witness: "unmarshal (marshal sample_storable) = Inr sample_storable"
  using wal_round_trip [OF sample_storable_ok(1)] by (simp add: sample_storable_ok(2))

text \<open>C19. Saving is atomic under every pattern of I/O failures and at every moment of a crash:
  each disk the save passes through is one from which the record that is loaded is the old one
  or the complete new one, and only the two WAL files and dotted temporary names differ; when
  the save reports success both copies hold the new text and have been synced.\<close>

theorem Save_atomic:
  assumes "wf_disk (w_disk w)" and "plain_path p" and "storable d" and "Save p d w = (r, w')"
  shows "evolves (\<lambda>h. wal_of p h \<in> {wal_of p (w_disk w), Some (stored d)} \<and>
           same_outside (wal_files p \<union> dot_names) (w_disk w) h) w w' \<and>
         (r = Inr () \<longrightarrow> saved p d (w_disk w'))"
  using wpD [OF wp_Save [OF assms(1-3)] assms(4)]
  by (auto simp: wal_step_disk_def elim!: evolves_mono)

lemma wf_world_of_empty: "wf_disk (w_disk (world_of empty_disk))"
  by simp

lemma Save_atomic_witness:
  "evolves (\<lambda>h. wal_of sample_path h \<in> {wal_of sample_path empty_disk, Some sample_storable}) (world_of empty_disk)
     (snd (Save sample_path sample_storable (world_of empty_disk)))"
  using Save_atomic [OF wf_world_of_empty sample_path_ok sample_storable_ok(1) prod.collapse [symmetric]]
  by (auto simp: sample_storable_ok(2) elim!: evolves_mono)

text \<open>C20. Loading heals itself: after a successful save, whatever later happens to the primary
  file, as long as it does not become a readable record and the backup is left alone, a load
  returns the saved record.\<close>

theorem Load_heals_from_backup:
  assumes "storable d" and "saved p d (w_disk w)" and "w_faults w' = []"
    and "lookup (w_disk w') (path_suffix p BakSuffix) = lookup (w_disk w) (path_suffix p BakSuffix)"
    and "lookup (w_disk w') p = lookup (w_disk w) p \<or> wal_at (w_disk w') p = None"
  shows "Load p w' = (Inr (stored d), w')"
proof -
  have "wal_at (w_disk w') (path_suffix p BakSuffix) = Some (stored d)"
    using assms(1,2,4) by (intro wal_at_new [OF assms(1)]) (simp add: saved_def)
  moreover have "wal_at (w_disk w') p \<in> {None, Some (stored d)}"
    using assms(1,2,5) wal_at_new [OF assms(1), of "w_disk w'" p] by (auto simp: saved_def)
  ultimately have "wal_of p (w_disk w') = Some (stored d)"
    by (auto simp: wal_of_def)
  then show ?thesis using assms(3) by (simp add: Load_calm)
qed

lemma Load_heals_from_backup_witness:
  "Load sample_path (world_of (put_file sample_path ''{torn''
      (put_file (path_suffix sample_path BakSuffix) (marshal sample_storable) empty_disk)))
   = (Inr sample_storable, world_of (put_file sample_path ''{torn''
      (put_file (path_suffix sample_path BakSuffix) (marshal sample_storable) empty_disk)))"
proof -
  let ?b = "path_suffix sample_path BakSuffix"
  let ?d = "put_file ?b (marshal sample_storable) empty_disk"
  have ne: "?b \<noteq> sample_path" by code_simp
  have "saved sample_path sample_storable (w_disk (world_of (put_file sample_path (marshal sample_storable) ?d)))"
    using ne by (simp add: saved_def lookup_put_file)
  moreover have "json_parse ''{torn'' = Inl (Errorf ''json: syntax error'')" by code_simp
  then have "wal_at (put_file sample_path ''{torn'' ?d) sample_path = None"
    by (simp add: wal_at_def file_data_def lookup_put_file unmarshal_def)
  ultimately show ?thesis
    using Load_heals_from_backup [OF sample_storable_ok(1), of sample_path
        "world_of (put_file sample_path (marshal sample_storable) ?d)" "world_of (put_file sample_path ''{torn'' ?d)"] ne
    by (simp add: lookup_put_file sample_storable_ok(2))
qed

end
