(* ===== verification/Counter.thy ===== *)
theory Counter
  imports AtomicFile
begin

section \<open>The anti-rollback counter stores\<close>

text \<open>
  internal/otad/counter.go. \<open>CounterStore\<close> is a locale with the contract its comment states:
  reading changes nothing, advancing never lowers the counter and, when it reports success, the
  counter is at least the target. \<open>FileCounter\<close> keeps the value in a file;
  \<open>CommandCounter\<close> runs the operator's commands, which are the parameter \<open>sh\<close> of the
  model: \<open>sh cmd env\<close> is \<open>sh -c cmd\<close> with the additional environment, its result the
  standard output.
\<close>

type_synonym shell = "string \<Rightarrow> (string \<times> string) list \<Rightarrow> string io"

datatype counter_store = FileCounter path | CommandCounter string string

subsection \<open>Operations\<close>

definition parse_counter :: "string \<Rightarrow> string \<Rightarrow> error + nat" where
  "parse_counter what b = (case parse_uint64 (trim_space b) of
     None \<Rightarrow> Inl (Errorf what) | Some n \<Rightarrow> Inr n)"

definition FileCounter_Read :: "path \<Rightarrow> nat io" where
  "FileCounter_Read p =
     trying (read_file p) (\<lambda>r. case r of
         Inl e \<Rightarrow> if errors_Is e ENOENT then ret 0 else throw e
       | Inr b \<Rightarrow> lift_err (parse_counter ''counter: bad value'' b))"

definition FileCounter_Advance :: "path \<Rightarrow> nat \<Rightarrow> unit io" where
  "FileCounter_Advance p to =
     seqE (FileCounter_Read p) (\<lambda>cur.
       if to \<le> cur then ret ()
       else let tmp = path_suffix p ''.tmp'' in
         seqE (mkdir_all (path_dir p)) (\<lambda>_.
         seqE (write_file tmp (nat_str to)) (\<lambda>_.
         rename tmp p)))"

definition CommandCounter_Read :: "shell \<Rightarrow> string \<Rightarrow> nat io" where
  "CommandCounter_Read sh readCmd =
     seqE (wrapE ''counter read'' (sh readCmd [])) (\<lambda>out.
     lift_err (parse_counter ''counter read: bad value'' out))"

definition CommandCounter_Advance :: "shell \<Rightarrow> string \<Rightarrow> string \<Rightarrow> nat \<Rightarrow> unit io" where
  "CommandCounter_Advance sh readCmd advanceCmd to =
     seqE (CommandCounter_Read sh readCmd) (\<lambda>cur.
       if to \<le> cur then ret ()
       else seqE (wrapE ''counter advance'' (sh advanceCmd [(''ATOM_COUNTER'', nat_str to)])) (\<lambda>_. ret ()))"

text \<open>The method calls through the interface.\<close>

primrec CounterStore_Read :: "shell \<Rightarrow> counter_store \<Rightarrow> nat io" where
  "CounterStore_Read sh (FileCounter p) = FileCounter_Read p"
| "CounterStore_Read sh (CommandCounter rc ac) = CommandCounter_Read sh rc"

primrec CounterStore_Advance :: "shell \<Rightarrow> counter_store \<Rightarrow> nat \<Rightarrow> unit io" where
  "CounterStore_Advance sh (FileCounter p) to = FileCounter_Advance p to"
| "CounterStore_Advance sh (CommandCounter rc ac) to = CommandCounter_Advance sh rc ac to"

subsection \<open>The contract\<close>

locale monotonic_counter =
  fixes counter :: "world \<Rightarrow> nat option"
    and ready :: "world \<Rightarrow> bool"
    and Read :: "nat io"
    and Advance :: "nat \<Rightarrow> unit io"
  assumes Read_ok: "ready w \<Longrightarrow>
      wp Read (\<lambda>r w'. ready w' \<and> counter w' = counter w \<and> (\<forall>n. r = Inr n \<longrightarrow> counter w = Some n)) w"
    and Advance_ok: "ready w \<Longrightarrow> to < 2 ^ 64 \<Longrightarrow>
      wp (Advance to) (\<lambda>r w'. ready w' \<and> (\<forall>c. counter w = Some c \<longrightarrow> (\<exists>m \<ge> c. counter w' = Some m)) \<and>
        (r = Inr () \<longrightarrow> (\<exists>m \<ge> to. counter w' = Some m))) w"
begin

text \<open>The catch-up of \<open>BootSuccess\<close>: read, and advance when the store is behind.\<close>

definition catch_up :: "nat \<Rightarrow> unit io" where
  "catch_up to = trying Read (\<lambda>r. case r of
     Inl _ \<Rightarrow> ret ()
   | Inr cur \<Rightarrow> if cur < to then ignoring (Advance to) else ret ())"

lemma catch_up_monotone:
  assumes "ready w" and "to < 2 ^ 64"
  shows "wp (catch_up to) (\<lambda>r w'. r = Inr () \<and> ready w' \<and>
    (\<forall>c. counter w = Some c \<longrightarrow> (\<exists>m \<ge> c. counter w' = Some m))) w"
  unfolding catch_up_def
proof (rule wp_tryingI [OF Read_ok [OF assms(1)]])
  fix r and w1 :: world
  assume w1: "ready w1 \<and> counter w1 = counter w \<and> (\<forall>n. r = Inr n \<longrightarrow> counter w = Some n)"
  have "wp (ignoring (Advance to)) (\<lambda>r w'. r = Inr () \<and> ready w' \<and>
      (\<forall>c. counter w = Some c \<longrightarrow> (\<exists>m \<ge> c. counter w' = Some m))) w1"
    unfolding ignoring_def
    by (rule wp_tryingI [OF Advance_ok]) (use w1 assms(2) in \<open>auto simp: wp_simps\<close>)
  then show "wp (case r of Inl _ \<Rightarrow> ret () | Inr cur \<Rightarrow> if cur < to then ignoring (Advance to) else ret ())
     (\<lambda>r w'. r = Inr () \<and> ready w' \<and> (\<forall>c. counter w = Some c \<longrightarrow> (\<exists>m \<ge> c. counter w' = Some m))) w1"
    using w1 by (auto simp: wp_simps split: sum.splits)
qed

text \<open>Any sequence of advances leaves the counter where it was or higher.\<close>

lemma advances_monotone:
  assumes "ready w" and "counter w = Some c" and "list_all (\<lambda>n. n < 2 ^ 64) ns"
  shows "wp (for_each ns (\<lambda>n. ignoring (Advance n))) (\<lambda>r w'. ready w' \<and> (\<exists>m \<ge> c. counter w' = Some m)) w"
  using assms
proof (induction ns arbitrary: w c)
  case Nil
  then show ?case by (simp add: wp_simps)
next
  case (Cons n ns)
  have "wp (ignoring (Advance n)) (\<lambda>r w'. r = Inr () \<and> ready w' \<and> (\<exists>m \<ge> c. counter w' = Some m)) w"
    unfolding ignoring_def
    by (rule wp_tryingI [OF Advance_ok [OF Cons.prems(1)]]) (use Cons.prems in \<open>auto simp: wp_simps\<close>)
  then show ?case
    by (simp add: wp_seqE) (erule wp_mono, use Cons.prems(3) in \<open>auto intro: wp_mono [OF Cons.IH]\<close>)
qed

end

subsection \<open>The file counter\<close>

definition file_counter :: "path \<Rightarrow> disk \<Rightarrow> nat option" where
  "file_counter p h = (case file_data h p of None \<Rightarrow> Some 0 | Some b \<Rightarrow> parse_uint64 (trim_space b))"

lemma digit_no_space: "is_digit c \<Longrightarrow> \<not> is_space c"
  by (auto simp: is_digit_def is_space_def)

lemma trim_space_digits [simp]: "trim_space (nat_str n) = nat_str n"
proof -
  have d: "list_all is_digit (nat_str n)" using nat_str_digits by blast
  then have "dropWhile is_space (nat_str n) = nat_str n"
    using digit_no_space by (cases "nat_str n") auto
  moreover have "dropWhile is_space (rev (nat_str n)) = rev (nat_str n)"
    using d digit_no_space by (cases "rev (nat_str n)") (auto simp: list_all_iff dest: arg_cong [of _ _ set])
  ultimately show ?thesis by (simp add: trim_space_def)
qed

lemma file_counter_cong: "lookup h p = lookup d p \<Longrightarrow> file_counter p h = file_counter p d"
  by (simp add: file_counter_def file_data_def)

text \<open>
  A disk is fit for the counter file \<open>p\<close> when its temporary name is no second link to the
  counter's inode; the faults are honest when \<open>ENOENT\<close>, which the code reads as "no counter
  yet", is not among the errors injected for a file that is there.
\<close>

definition tmp_of :: "path \<Rightarrow> path" where
  "tmp_of p = path_suffix p ''.tmp''"

definition counter_disk :: "path \<Rightarrow> disk \<Rightarrow> bool" where
  "counter_disk p h \<longleftrightarrow> wf_disk h \<and> p \<noteq> [] \<and>
     (dk_names h (tmp_of p) = None \<or> dk_names h (tmp_of p) \<noteq> dk_names h p)"

definition honest :: "world \<Rightarrow> bool" where
  "honest w \<longleftrightarrow> Some ENOENT \<notin> set (w_faults w)"

definition counter_world :: "path \<Rightarrow> world \<Rightarrow> bool" where
  "counter_world p w \<longleftrightarrow> counter_disk p (w_disk w) \<and> honest w"

lemma honest_pop [simp]: "honest w \<Longrightarrow> honest (pop_fault w)" "honest (put_disk d w) = honest w"
  by (auto simp: honest_def dest: list.set_sel(2) [rotated]) (metis list.sel(2) list.set_sel(2))

lemma honest_fault: "honest w \<Longrightarrow> next_fault w \<noteq> Some ENOENT"
  by (auto simp: honest_def next_fault_def split: list.splits)

lemma tmp_of_neq: "counter_disk p h \<Longrightarrow> tmp_of p \<noteq> p \<and> p \<noteq> tmp_of p"
  by (metis counter_disk_def list.distinct(1) path_suffix_neq tmp_of_def)

lemma wp_FileCounter_Read:
  assumes "counter_world p w"
  shows "wp (FileCounter_Read p) (\<lambda>r w'. quiet w w' \<and> counter_world p w' \<and>
    (\<forall>n. r = Inr n \<longrightarrow> file_counter p (w_disk w) = Some n)) w"
  using assms honest_fault [of w]
  by (auto simp: FileCounter_Read_def wp_simps sys_defs quiet_def file_counter_def file_data_def
      parse_counter_def counter_world_def split: option.splits errno.splits)

lemma wp_write_tmp:
  assumes "counter_world p w"
  shows "wp (write_file (tmp_of p) s) (\<lambda>r w'.
      evolves (\<lambda>h. counter_disk p h \<and> lookup h p = lookup (w_disk w) p) w w' \<and> honest w' \<and>
      (r = Inr () \<longrightarrow> file_data (w_disk w') (tmp_of p) = Some s)) w"
proof -
  have "counter_disk p (w_disk w)" "honest w" using assms by (simp_all add: counter_world_def)
  moreover have "tmp_of p \<noteq> p" using tmp_of_neq [OF calculation(1)] by simp
  ultimately show ?thesis
    using names_fresh [of "w_disk w" p]
    by (auto simp: write_file_def wp_simps sys_defs counter_disk_def lookup_new_inode lookup_set_inode
        file_data_def split: option.splits sum.splits)
qed

lemma wp_rename_tmp:
  assumes "counter_world p w" and "file_data (w_disk w) (tmp_of p) = Some (nat_str n)" and "n < 2 ^ 64"
  shows "wp (rename (tmp_of p) p) (\<lambda>r w'. 
      evolves (\<lambda>h. counter_disk p h \<and> file_counter p h \<in> {file_counter p (w_disk w), Some n}) w w' \<and> honest w' \<and>
      (r = Inr () \<longrightarrow> file_counter p (w_disk w') = Some n)) w"
proof -
  have cd: "counter_disk p (w_disk w)" "honest w" using assms(1) by (simp_all add: counter_world_def)
  note ne = tmp_of_neq [OF cd(1)]
  obtain i where i: "dk_names (w_disk w) (tmp_of p) = Some i" "ino_data (dk_inodes (w_disk w) i) = nat_str n"
    using assms(2) by (auto simp: file_data_def lookup_def)
  then have "file_counter p (rename_disk (tmp_of p) p (w_disk w)) = Some n"
    using ne cd(1) assms(3) by (auto simp: file_counter_def file_data_def lookup_def rename_disk_def counter_disk_def)
  moreover have "counter_disk p (rename_disk (tmp_of p) p (w_disk w))"
    using cd(1) ne by (auto simp: counter_disk_def rename_disk_def wf_disk_def)
  ultimately show ?thesis
    using cd i by (auto simp: wp_simps sys_defs split: option.splits)
qed

definition counter_moves :: "path \<Rightarrow> nat \<Rightarrow> disk \<Rightarrow> disk \<Rightarrow> bool" where
  "counter_moves p to d h \<longleftrightarrow> counter_disk p h \<and>
     (file_counter p h = file_counter p d \<or>
      (\<exists>c < to. file_counter p d = Some c) \<and> file_counter p h = Some to)"

lemma wp_FileCounter_Advance:
  assumes cw: "counter_world p w" and to: "to < 2 ^ 64"
  shows "wp (FileCounter_Advance p to) (\<lambda>r w'. evolves (counter_moves p to (w_disk w)) w w' \<and> honest w' \<and>
      (r = Inr () \<longrightarrow> (\<exists>m \<ge> to. file_counter p (w_disk w') = Some m))) w"
  unfolding FileCounter_Advance_def
proof (rule wp_seqEI [OF wp_FileCounter_Read [OF cw]])
  fix e and w' :: world
  assume "quiet w w' \<and> counter_world p w' \<and> (\<forall>n. (Inl e :: error + nat) = Inr n \<longrightarrow> file_counter p (w_disk w) = Some n)"
  then show "evolves (counter_moves p to (w_disk w)) w w' \<and> honest w' \<and>
      ((Inl e :: error + unit) = Inr () \<longrightarrow> (\<exists>m \<ge> to. file_counter p (w_disk w') = Some m))"
    using cw by (auto simp: quiet_def evolves_def counter_moves_def counter_world_def)
next
  fix cur and w1 :: world
  assume "quiet w w1 \<and> counter_world p w1 \<and> (\<forall>n. Inr cur = Inr n \<longrightarrow> file_counter p (w_disk w) = Some n)"
  then have q: "w_disk w1 = w_disk w" "w_history w1 = w_history w" and cw1: "counter_world p w1"
    and cur: "file_counter p (w_disk w) = Some cur"
    by (auto simp: quiet_def)
  let ?M = "counter_moves p to (w_disk w)"
  let ?Q = "\<lambda>r w'. evolves ?M w w' \<and> honest w' \<and> (r = Inr () \<longrightarrow> (\<exists>m \<ge> to. file_counter p (w_disk w') = Some m))"
  have ev1: "evolves ?M w w1"
    using q cw1 by (simp add: evolves_def counter_moves_def counter_world_def)
  show "wp (if to \<le> cur then ret () else let tmp = path_suffix p ''.tmp'' in
         seqE (mkdir_all (path_dir p)) (\<lambda>_. seqE (write_file tmp (nat_str to)) (\<lambda>_. rename tmp p))) ?Q w1"
  proof (cases "to \<le> cur")
    case True
    then show ?thesis using ev1 cw1 cur q by (auto simp: wp_simps counter_world_def)
  next
    case False
    have wrt: "wp (seqE (write_file (tmp_of p) (nat_str to)) (\<lambda>_. rename (tmp_of p) p)) ?Q w2"
      if w2: "counter_world p w2" "evolves ?M w w2" "file_counter p (w_disk w2) = Some cur" for w2
      unfolding seqE_def
    proof (rule wp_tryingI [OF wp_write_tmp [OF w2(1)]])
      fix r :: "error + unit" and w3
      assume r: "evolves (\<lambda>h. counter_disk p h \<and> lookup h p = lookup (w_disk w2) p) w2 w3 \<and> honest w3 \<and>
        (r = Inr () \<longrightarrow> file_data (w_disk w3) (tmp_of p) = Some (nat_str to))"
      have "?M h" if "counter_disk p h \<and> lookup h p = lookup (w_disk w2) p" for h
        using that w2(3) cur file_counter_cong [of h p "w_disk w2"] by (simp add: counter_moves_def)
      then have ev3: "evolves ?M w w3"
        using r by (auto intro: evolves_trans [OF w2(2)] elim!: evolves_mono)
      have "counter_disk p (w_disk w3) \<and> lookup (w_disk w3) p = lookup (w_disk w2) p"
        using r by (auto dest!: evolves_final)
      then have c3: "file_counter p (w_disk w3) = Some cur" "counter_world p w3"
        using r w2(3) file_counter_cong [of "w_disk w3" p "w_disk w2"] by (simp_all add: counter_world_def)
      have ren: "wp (rename (tmp_of p) p) ?Q w3" if "r = Inr ()"
      proof (rule wp_mono [OF wp_rename_tmp [OF c3(2) _ to]])
        show "file_data (w_disk w3) (tmp_of p) = Some (nat_str to)" using r that by simp
        fix r' :: "error + unit" and w4
        assume r': "evolves (\<lambda>h. counter_disk p h \<and> file_counter p h \<in> {file_counter p (w_disk w3), Some to}) w3 w4 \<and>
          honest w4 \<and> (r' = Inr () \<longrightarrow> file_counter p (w_disk w4) = Some to)"
        then have "evolves ?M w3 w4"
          using c3 cur False by (auto simp: counter_moves_def elim!: evolves_mono)
        then show "?Q r' w4" using evolves_trans [OF ev3] r' by auto
      qed
      show "wp (case r of Inl e \<Rightarrow> throw e | Inr x \<Rightarrow> rename (tmp_of p) p) ?Q w3"
        using ev3 r ren by (auto simp: wp_throw split: sum.splits)
    qed
    have "wp (mkdir_all (path_dir p)) (\<lambda>r w'. counter_world p w' \<and> evolves ?M w w' \<and> file_counter p (w_disk w') = Some cur) w1"
      using cw1 ev1 cur q by (auto simp: wp_simps sys_defs counter_world_def split: option.splits)
    then have "wp (seqE (mkdir_all (path_dir p)) (\<lambda>_. seqE (write_file (tmp_of p) (nat_str to)) (\<lambda>_. rename (tmp_of p) p))) ?Q w1"
      by (rule wp_seqEI) (auto simp: counter_world_def intro: wrt)
    with False show ?thesis by (simp add: Let_def tmp_of_def)
  qed
qed

interpretation fcounter: monotonic_counter "\<lambda>w. file_counter p (w_disk w)" "counter_world p"
  "FileCounter_Read p" "FileCounter_Advance p" for p
proof unfold_locales
  fix w :: world and to :: nat assume w: "counter_world p w"
  show "wp (FileCounter_Read p) (\<lambda>r w'. counter_world p w' \<and>
      file_counter p (w_disk w') = file_counter p (w_disk w) \<and>
      (\<forall>n. r = Inr n \<longrightarrow> file_counter p (w_disk w) = Some n)) w"
    by (rule wp_mono [OF wp_FileCounter_Read [OF w]]) (auto simp: quiet_def)
  assume "to < 2 ^ 64"
  from wp_FileCounter_Advance [OF w this]
  show "wp (FileCounter_Advance p to) (\<lambda>r w'. counter_world p w' \<and>
      (\<forall>c. file_counter p (w_disk w) = Some c \<longrightarrow> (\<exists>m \<ge> c. file_counter p (w_disk w') = Some m)) \<and>
      (r = Inr () \<longrightarrow> (\<exists>m \<ge> to. file_counter p (w_disk w') = Some m))) w"
    by (rule wp_mono) (auto simp: counter_world_def counter_moves_def dest!: evolves_final)
qed

subsection \<open>The command counter\<close>

text \<open>
  What the operator's commands promise (the comment of \<open>CommandCounter\<close>): the first prints
  the hardware counter as a decimal number, the second moves it up to at least the value of
  \<open>ATOM_COUNTER\<close> when it exits 0; the hardware counter never goes down.
\<close>

definition shell_counter :: "shell \<Rightarrow> string \<Rightarrow> string \<Rightarrow> bool" where
  "shell_counter sh rc ac \<longleftrightarrow>
     (\<forall>w. wp (sh rc []) (\<lambda>r w'. w_hw w' = w_hw w \<and> (\<forall>out. r = Inr out \<longrightarrow> trim_space out = nat_str (w_hw w))) w) \<and>
     (\<forall>n w. wp (sh ac [(''ATOM_COUNTER'', nat_str n)]) (\<lambda>r w'. w_hw w \<le> w_hw w' \<and> (\<forall>out. r = Inr out \<longrightarrow> n \<le> w_hw w')) w)"

lemma wp_CommandCounter_Read:
  assumes "shell_counter sh rc ac"
  shows "wp (CommandCounter_Read sh rc) (\<lambda>r w'. w_hw w' = w_hw w \<and> (\<forall>n. r = Inr n \<longrightarrow> w_hw w = n)) w"
proof -
  have "wp (sh rc []) (\<lambda>r w'. w_hw w' = w_hw w \<and> (\<forall>out. r = Inr out \<longrightarrow> trim_space out = nat_str (w_hw w))) w"
    using assms by (simp add: shell_counter_def)
  then show ?thesis
    unfolding CommandCounter_Read_def
    by (simp add: wp_seqE wp_wrapE wp_lift_err)
      (erule wp_mono, auto simp: wp_lift_err parse_counter_def parse_uint64_def split: sum.splits option.splits if_splits)
qed

lemma wp_CommandCounter_Advance:
  assumes "shell_counter sh rc ac"
  shows "wp (CommandCounter_Advance sh rc ac to) (\<lambda>r w'. w_hw w \<le> w_hw w' \<and> (r = Inr () \<longrightarrow> to \<le> w_hw w')) w"
  unfolding CommandCounter_Advance_def
proof (rule wp_seqEI [OF wp_CommandCounter_Read [OF assms]])
  fix cur and w1 :: world
  assume "w_hw w1 = w_hw w \<and> (\<forall>n. Inr cur = Inr n \<longrightarrow> w_hw w = n)"
  then have w1: "w_hw w1 = w_hw w" "w_hw w = cur" by simp_all
  have "wp (sh ac [(''ATOM_COUNTER'', nat_str to)]) (\<lambda>r w'. w_hw w1 \<le> w_hw w' \<and> (\<forall>out. r = Inr out \<longrightarrow> to \<le> w_hw w')) w1"
    using assms by (simp add: shell_counter_def)
  then have "wp (seqE (wrapE ''counter advance'' (sh ac [(''ATOM_COUNTER'', nat_str to)])) (\<lambda>_. ret ()))
     (\<lambda>r w'. w_hw w \<le> w_hw w' \<and> (r = Inr () \<longrightarrow> to \<le> w_hw w')) w1"
    by (simp add: wp_seqE wp_wrapE wp_ret) (erule wp_mono, use w1 in \<open>auto simp: wp_ret split: sum.splits\<close>)
  then show "wp (if to \<le> cur then ret ()
      else seqE (wrapE ''counter advance'' (sh ac [(''ATOM_COUNTER'', nat_str to)])) (\<lambda>_. ret ()))
     (\<lambda>r w'. w_hw w \<le> w_hw w' \<and> (r = Inr () \<longrightarrow> to \<le> w_hw w')) w1"
    using w1 by (simp add: wp_simps)
qed auto

interpretation ccounter: monotonic_counter "\<lambda>w. Some (w_hw w)" "\<lambda>_. shell_counter sh rc ac"
  "CommandCounter_Read sh rc" "CommandCounter_Advance sh rc ac" for sh rc ac
proof unfold_locales
  fix w :: world and to :: nat assume sh: "shell_counter sh rc ac"
  show "wp (CommandCounter_Read sh rc) (\<lambda>r w'. shell_counter sh rc ac \<and> Some (w_hw w') = Some (w_hw w) \<and>
      (\<forall>n. r = Inr n \<longrightarrow> Some (w_hw w) = Some n)) w"
    by (rule wp_mono [OF wp_CommandCounter_Read [OF sh]]) (use sh in auto)
  show "wp (CommandCounter_Advance sh rc ac to) (\<lambda>r w'. shell_counter sh rc ac \<and>
      (\<forall>c. Some (w_hw w) = Some c \<longrightarrow> (\<exists>m \<ge> c. Some (w_hw w') = Some m)) \<and>
      (r = Inr () \<longrightarrow> (\<exists>m \<ge> to. Some (w_hw w') = Some m))) w"
    by (rule wp_mono [OF wp_CommandCounter_Advance [OF sh]]) (use sh in auto)
qed

subsection \<open>The configured store\<close>

definition store_value :: "counter_store \<Rightarrow> world \<Rightarrow> nat option" where
  "store_value st w = (case st of FileCounter p \<Rightarrow> file_counter p (w_disk w) | CommandCounter rc ac \<Rightarrow> Some (w_hw w))"

definition store_ready :: "shell \<Rightarrow> counter_store \<Rightarrow> world \<Rightarrow> bool" where
  "store_ready sh st w = (case st of FileCounter p \<Rightarrow> counter_world p w | CommandCounter rc ac \<Rightarrow> shell_counter sh rc ac)"

interpretation cstore: monotonic_counter "store_value st" "store_ready sh st" "CounterStore_Read sh st"
  "CounterStore_Advance sh st" for sh st
proof unfold_locales
  fix w :: world and to :: nat assume w: "store_ready sh st w"
  show "wp (CounterStore_Read sh st) (\<lambda>r w'. store_ready sh st w' \<and> store_value st w' = store_value st w \<and>
      (\<forall>n. r = Inr n \<longrightarrow> store_value st w = Some n)) w"
    using w fcounter.Read_ok ccounter.Read_ok by (cases st) (simp_all add: store_ready_def store_value_def)
  assume "to < 2 ^ 64"
  then show "wp (CounterStore_Advance sh st to) (\<lambda>r w'. store_ready sh st w' \<and>
      (\<forall>c. store_value st w = Some c \<longrightarrow> (\<exists>m \<ge> c. store_value st w' = Some m)) \<and>
      (r = Inr () \<longrightarrow> (\<exists>m \<ge> to. store_value st w' = Some m))) w"
    using w fcounter.Advance_ok ccounter.Advance_ok by (cases st) (simp_all add: store_ready_def store_value_def)
qed

subsection \<open>Properties\<close>

text \<open>C21. Advancing the file counter is atomic and monotonic under every pattern of I/O failures:
  on every disk on the way the counter file reads as its old value or, when the target is
  above it, as the target, and success means the value is at least the target.\<close>

theorem FileCounter_Advance_atomic:
  assumes "counter_world p w" and "to < 2 ^ 64" and "FileCounter_Advance p to w = (r, w')"
  shows "evolves (counter_moves p to (w_disk w)) w w' \<and>
    (r = Inr () \<longrightarrow> (\<exists>m \<ge> to. file_counter p (w_disk w') = Some m))"
  using wpD [OF wp_FileCounter_Advance [OF assms(1,2)] assms(3)] by blast

lemma FileCounter_Advance_atomic_witness:
  "counter_world [''c''] (world_of (put_file [''c''] ''41'' empty_disk)) \<and>
   (case FileCounter_Advance [''c''] 43 (world_of (put_file [''c''] ''41'' empty_disk)) of (r, w') \<Rightarrow>
      evolves (counter_moves [''c''] 43 (put_file [''c''] ''41'' empty_disk)) (world_of (put_file [''c''] ''41'' empty_disk)) w')"
proof -
  have "counter_world [''c''] (world_of (put_file [''c''] ''41'' empty_disk))"
    by (simp add: counter_world_def counter_disk_def honest_def tmp_of_def path_suffix_def) 
      (simp add: put_file_def empty_disk_def)
  then show ?thesis
    using FileCounter_Advance_atomic [of "[''c'']" "world_of (put_file [''c''] ''41'' empty_disk)" 43]
    by (auto split: prod.splits)
qed

text \<open>Whatever advances are made through the configured store, file or commands, in any
  order, with targets above or below the current value and with any of them failing, the
  counter ends at least as high as it began.\<close>

theorem advances_never_regress:
  assumes "store_ready sh st w" and "store_value st w = Some c" and "list_all (\<lambda>n. n < 2 ^ 64) ns"
    and "for_each ns (\<lambda>n. ignoring (CounterStore_Advance sh st n)) w = (r, w')"
  shows "\<exists>m \<ge> c. store_value st w' = Some m"
  using wpD [OF cstore.advances_monotone [OF assms(1-3)] assms(4)] by blast

definition tpm :: shell where
  "tpm cmd env w = (if cmd = ''read'' then (Inr (nat_str (w_hw w) @ [newline]), w)
     else case parse_uint64 (snd (hd env)) of None \<Rightarrow> (Inl (Errorf ''exit status 1''), w)
      | Some n \<Rightarrow> (Inr [], w\<lparr>w_hw := max n (w_hw w)\<rparr>))"

lemma advances_never_regress_witness:
  "\<exists>m \<ge> 5. store_value (CommandCounter ''read'' ''advance'')
     (snd (for_each [3, 9, 4] (\<lambda>n. ignoring (CounterStore_Advance tpm (CommandCounter ''read'' ''advance'') n))
        ((world_of empty_disk)\<lparr>w_hw := 5\<rparr>))) = Some m"
proof -
  let ?st = "CommandCounter ''read'' ''advance''" and ?w = "(world_of empty_disk)\<lparr>w_hw := 5\<rparr>"
  have "trim_space (nat_str n @ [newline]) = nat_str n" for n
  proof -
    have "is_space newline" "\<And>s. trim_space (s @ [newline]) = trim_space s \<or> s = [] \<or> list_all is_space s"
      by (auto simp: trim_space_def newline_def is_space_def dropWhile_append list_all_iff)
    moreover have "\<not> list_all is_space (nat_str n)" "nat_str n \<noteq> []"
      using nat_str_first [of n] digit_no_space by auto
    ultimately show ?thesis by (metis trim_space_digits)
  qed
  then have "store_ready tpm ?st ?w"
    by (auto simp: store_ready_def shell_counter_def wp_def tpm_def parse_uint64_def split: option.splits)
  moreover have "store_value ?st ?w = Some 5" by (simp add: store_value_def)
  ultimately show ?thesis
    using advances_never_regress [of tpm ?st ?w 5 "[3, 9, 4]"] by (auto simp: prod_eq_iff)
qed

end
