(* ===== verification/Trust.thy ===== *)
theory Trust
  imports Json
begin

section \<open>The two-level key chain\<close>

text \<open>
  internal/trust/trust.go: a root key vouches for a signing certificate and signs the
  revocation list, the certificate's key signs manifests. The Ed25519 verification is the
  parameter \<open>ed25519\<close> (public key, data, signature). Base64 and RFC 3339 times are decoded as
  the standard library does; a time is a number of nanoseconds since 1970. SHA-256 and Ed25519
  travel together in the record \<open>crypto\<close>.
\<close>

record crypto =
  ed25519 :: "string \<Rightarrow> string \<Rightarrow> string \<Rightarrow> bool"
  sha256 :: "string \<Rightarrow> string"

subsection \<open>Hexadecimal and base64\<close>

text \<open>\<open>hex.DecodeString\<close> and \<open>hex.EncodeToString\<close>.\<close>

fun hex_decode :: "string \<Rightarrow> string option" where
  "hex_decode [] = Some []"
| "hex_decode [c] = None"
| "hex_decode (a # b # s) =
    (case (hex_val a, hex_val b, hex_decode s) of
       (Some x, Some y, Some t) \<Rightarrow> Some (char_of (16 * x + y) # t)
     | _ \<Rightarrow> None)"

definition hex_encode :: "string \<Rightarrow> string" where
  "hex_encode s = concat (map (\<lambda>c. [hex_digit (byte c div 16), hex_digit (byte c mod 16)]) s)"

lemma hex_decode_encode [simp]: "hex_decode (hex_encode s) = Some s"
proof (induction s)
  case (Cons c s)
  have "byte c div 16 < 16" using byte_less [of c] by (intro less_mult_imp_div_less) simp
  with Cons show ?case by (simp add: hex_encode_def)
qed (simp add: hex_encode_def)

definition b64_val :: "char \<Rightarrow> nat option" where
  "b64_val c =
    (if in_range 65 90 c then Some (byte c - 65)
     else if in_range 97 122 c then Some (byte c - 71)
     else if in_range 48 57 c then Some (byte c + 4)
     else if c = CHR ''+'' then Some 62 else if c = CHR ''/'' then Some 63 else None)"

text \<open>\<open>base64.StdEncoding.DecodeString\<close>: line breaks are skipped, the last quantum is padded,
  and the unused bits of a padded quantum are ignored.\<close>

fun b64_quanta :: "string \<Rightarrow> string option" where
  "b64_quanta [] = Some []"
| "b64_quanta (a # b # c # d # s) =
    (case (b64_val a, b64_val b) of
       (Some w, Some x) \<Rightarrow>
         if c = CHR ''='' then (if d = CHR ''='' \<and> s = [] then Some [char_of (w * 4 + x div 16)] else None)
         else (case b64_val c of None \<Rightarrow> None
          | Some y \<Rightarrow>
              if d = CHR ''='' then
                (if s = [] then Some [char_of (w * 4 + x div 16), char_of (x mod 16 * 16 + y div 4)] else None)
              else (case (b64_val d, b64_quanta s) of
                  (Some z, Some t) \<Rightarrow>
                    Some (char_of (w * 4 + x div 16) # char_of (x mod 16 * 16 + y div 4) # char_of (y mod 4 * 64 + z) # t)
                | _ \<Rightarrow> None))
     | _ \<Rightarrow> None)"
| "b64_quanta _ = None"

definition base64_decode :: "string \<Rightarrow> string option" where
  "base64_decode s = b64_quanta (filter (\<lambda>c. byte c \<noteq> 10 \<and> byte c \<noteq> 13) s)"

subsection \<open>Times\<close>

fun take_digits :: "nat \<Rightarrow> string \<Rightarrow> (nat \<times> string) option" where
  "take_digits n s =
    (if n \<le> length s \<and> list_all is_digit (take n s) then Some (digits_val (take n s), drop n s) else None)"

fun take_char :: "char \<Rightarrow> string \<Rightarrow> string option" where
  "take_char c [] = None"
| "take_char c (d # s) = (if c = d then Some s else None)"

definition leap_year :: "nat \<Rightarrow> bool" where
  "leap_year y \<longleftrightarrow> (4 dvd y \<and> \<not> 100 dvd y) \<or> 400 dvd y"

definition days_in_month :: "nat \<Rightarrow> nat \<Rightarrow> nat" where
  "days_in_month y m = (if m = 2 then (if leap_year y then 29 else 28) else if m \<in> {4, 6, 9, 11} then 30 else 31)"

definition days_before_year :: "nat \<Rightarrow> int" where
  "days_before_year y = (let p = int y - 1 in 365 * p + p div 4 - p div 100 + p div 400)"

definition days_from_epoch :: "nat \<Rightarrow> nat \<Rightarrow> nat \<Rightarrow> int" where
  "days_from_epoch y m d =
    days_before_year y - days_before_year 1970 + (\<Sum>k \<leftarrow> [1..<m]. int (days_in_month y k)) + int d - 1"

definition civil_nanos :: "nat \<Rightarrow> nat \<Rightarrow> nat \<Rightarrow> nat \<Rightarrow> nat \<Rightarrow> nat \<Rightarrow> int \<Rightarrow> int \<Rightarrow> int" where
  "civil_nanos y mo d h mi s ns off =
    ((days_from_epoch y mo d * 86400 + int h * 3600 + int mi * 60 + int s) - off) * 1000000000 + ns"

text \<open>The hour may have one digit only, as \<open>time.Parse\<close> takes it.\<close>

definition take_hour :: "string \<Rightarrow> (nat \<times> string) option" where
  "take_hour s = (case take_digits 2 s of Some r \<Rightarrow> Some r | None \<Rightarrow> take_digits 1 s)"

text \<open>The fraction after the seconds, in nanoseconds; digits after the ninth are dropped.\<close>

definition take_fraction :: "string \<Rightarrow> int \<times> string" where
  "take_fraction s =
    (case s of
       c # t \<Rightarrow>
         if (c = CHR ''.'' \<or> c = CHR '','') \<and> takeWhile is_digit t \<noteq> [] then
           (let ds = take 9 (takeWhile is_digit t)
            in (int (digits_val ds) * 10 ^ (9 - length ds), dropWhile is_digit t))
         else (0, s)
     | [] \<Rightarrow> (0, []))"

definition take_zone :: "string \<Rightarrow> int option" where
  "take_zone s =
    (case s of [] \<Rightarrow> None
     | c # t \<Rightarrow>
         if c = CHR ''Z'' then (if t = [] then Some 0 else None)
         else if c = CHR ''+'' \<or> c = CHR ''-'' then
           (case take_digits 2 t of None \<Rightarrow> None | Some (h, t1) \<Rightarrow>
           (case take_char (CHR '':'') t1 of None \<Rightarrow> None | Some t2 \<Rightarrow>
           (case take_digits 2 t2 of None \<Rightarrow> None | Some (m, t3) \<Rightarrow>
             if t3 = [] \<and> h \<le> 24 \<and> m \<le> 60 then
               Some ((if c = CHR ''-'' then -1 else 1) * (int h * 3600 + int m * 60)) else None)))
         else None)"

definition parse_rfc3339 :: "string \<Rightarrow> int option" where
  "parse_rfc3339 s0 =
    (case take_digits 4 s0 of None \<Rightarrow> None | Some (y, s1) \<Rightarrow>
    (case take_char (CHR ''-'') s1 of None \<Rightarrow> None | Some s2 \<Rightarrow>
    (case take_digits 2 s2 of None \<Rightarrow> None | Some (mo, s3) \<Rightarrow>
    (case take_char (CHR ''-'') s3 of None \<Rightarrow> None | Some s4 \<Rightarrow>
    (case take_digits 2 s4 of None \<Rightarrow> None | Some (d, s5) \<Rightarrow>
    (case take_char (CHR ''T'') s5 of None \<Rightarrow> None | Some s6 \<Rightarrow>
    (case take_hour s6 of None \<Rightarrow> None | Some (h, s7) \<Rightarrow>
    (case take_char (CHR '':'') s7 of None \<Rightarrow> None | Some s8 \<Rightarrow>
    (case take_digits 2 s8 of None \<Rightarrow> None | Some (mi, s9) \<Rightarrow>
    (case take_char (CHR '':'') s9 of None \<Rightarrow> None | Some s10 \<Rightarrow>
    (case take_digits 2 s10 of None \<Rightarrow> None | Some (se, s11) \<Rightarrow>
    (case take_fraction s11 of (ns, s12) \<Rightarrow>
    (case take_zone s12 of None \<Rightarrow> None | Some off \<Rightarrow>
       if 1 \<le> mo \<and> mo \<le> 12 \<and> 1 \<le> d \<and> d \<le> days_in_month y mo \<and> h < 24 \<and> mi < 60 \<and> se < 60
       then Some (civil_nanos y mo d h mi se ns off) else None)))))))))))))"

subsection \<open>Certificates and revocation lists\<close>

record signing_cert =
  cert_version :: int
  cert_signing_pubkey :: string
  cert_issued_at :: string
  cert_not_after :: string

record revocation =
  rev_min_cert_version :: int
  rev_revoked :: "int list option"
  rev_updated_at :: string

definition zero_cert :: signing_cert where
  "zero_cert = \<lparr>cert_version = 0, cert_signing_pubkey = [], cert_issued_at = [], cert_not_after = []\<rparr>"

definition zero_revocation :: revocation where
  "zero_revocation = \<lparr>rev_min_cert_version = 0, rev_revoked = None, rev_updated_at = []\<rparr>"

definition dec_cert :: "signing_cert decoder" where
  "dec_cert = decode_fields
     [(''version'', field cert_version cert_version_update dec_int),
      (''signing_pubkey'', field cert_signing_pubkey cert_signing_pubkey_update dec_str),
      (''issued_at'', field cert_issued_at cert_issued_at_update dec_str),
      (''not_after'', field cert_not_after cert_not_after_update dec_str)]"

definition dec_revocation :: "revocation decoder" where
  "dec_revocation = decode_fields
     [(''min_cert_version'', field rev_min_cert_version rev_min_cert_version_update dec_int),
      (''revoked'', field rev_revoked rev_revoked_update (dec_slice dec_int 0)),
      (''updated_at'', field rev_updated_at rev_updated_at_update dec_str)]"

definition cert_of_json :: "string \<Rightarrow> error + signing_cert" where
  "cert_of_json b = err_bind (json_parse b) (\<lambda>j. dec_cert j zero_cert)"

definition revocation_of_json :: "string \<Rightarrow> error + revocation" where
  "revocation_of_json b = err_bind (json_parse b) (\<lambda>j. dec_revocation j zero_revocation)"

definition Verify :: "crypto \<Rightarrow> string \<Rightarrow> string \<Rightarrow> string \<Rightarrow> bool" where
  "Verify cr dat sig pub =
    (if length pub \<noteq> 32 \<or> length sig \<noteq> 64 then False else ed25519 cr pub dat sig)"

definition VerifyCert :: "crypto \<Rightarrow> string \<Rightarrow> string \<Rightarrow> string \<Rightarrow> int \<Rightarrow> error + (string \<times> int)" where
  "VerifyCert cr certBytes certSig rootPub now =
    (if \<not> Verify cr certBytes certSig rootPub
     then Inl (Errorf ''trust: signing cert not signed by the root key'')
     else (case cert_of_json certBytes of
         Inl e \<Rightarrow> Inl (Wrap ''trust: bad cert json'' e)
       | Inr c \<Rightarrow>
           (case base64_decode (cert_signing_pubkey c) of
              None \<Rightarrow> Inl (Errorf ''trust: cert has a bad signing_pubkey'')
            | Some pub \<Rightarrow>
                if length pub \<noteq> 32 then Inl (Errorf ''trust: cert has a bad signing_pubkey'')
                else if cert_not_after c \<noteq> [] then
                  (case parse_rfc3339 (cert_not_after c) of
                     None \<Rightarrow> Inl (Errorf ''trust: cert has a bad not_after'')
                   | Some ex \<Rightarrow>
                       if now > ex then Inl (Errorf ''trust: signing cert expired'')
                       else Inr (pub, cert_version c))
                else Inr (pub, cert_version c))))"

definition CheckRevocation :: "crypto \<Rightarrow> string \<Rightarrow> string \<Rightarrow> string \<Rightarrow> int \<Rightarrow> error + unit" where
  "CheckRevocation cr revBytes revSig rootPub certVersion =
    (if \<not> Verify cr revBytes revSig rootPub
     then Inl (Errorf ''trust: revocation list not signed by the root key'')
     else (case revocation_of_json revBytes of
         Inl e \<Rightarrow> Inl (Wrap ''trust: bad revocation json'' e)
       | Inr r \<Rightarrow>
           if certVersion < rev_min_cert_version r then Inl (Errorf ''trust: signing cert below the minimum (revoked)'')
           else if list_ex (\<lambda>v. v = certVersion) (case rev_revoked r of None \<Rightarrow> [] | Some vs \<Rightarrow> vs)
           then Inl (Errorf ''trust: signing cert is explicitly revoked'')
           else Inr ()))"

subsection \<open>What the chain guarantees\<close>

text \<open>\<open>vouched cr rootPub now cert sig pub v\<close>: the root key signed this certificate, which
  carries the key \<open>pub\<close> and the version \<open>v\<close> and has not expired.\<close>

definition vouched :: "crypto \<Rightarrow> string \<Rightarrow> int \<Rightarrow> string \<Rightarrow> string \<Rightarrow> string \<Rightarrow> int \<Rightarrow> bool" where
  "vouched cr rootPub now certBytes certSig pub v \<longleftrightarrow>
     length rootPub = 32 \<and> length certSig = 64 \<and> ed25519 cr rootPub certBytes certSig \<and>
     (\<exists>c. cert_of_json certBytes = Inr c \<and> base64_decode (cert_signing_pubkey c) = Some pub \<and>
          length pub = 32 \<and> cert_version c = v \<and>
          (cert_not_after c = [] \<or> (\<exists>t. parse_rfc3339 (cert_not_after c) = Some t \<and> now \<le> t)))"

definition not_revoked :: "crypto \<Rightarrow> string \<Rightarrow> string \<Rightarrow> string \<Rightarrow> int \<Rightarrow> bool" where
  "not_revoked cr rootPub revBytes revSig v \<longleftrightarrow>
     length rootPub = 32 \<and> length revSig = 64 \<and> ed25519 cr rootPub revBytes revSig \<and>
     (\<exists>r. revocation_of_json revBytes = Inr r \<and> rev_min_cert_version r \<le> v \<and>
          (\<forall>vs. rev_revoked r = Some vs \<longrightarrow> v \<notin> set vs))"

lemma VerifyCert_iff: "VerifyCert cr c s rootPub now = Inr (pub, v) \<longleftrightarrow> vouched cr rootPub now c s pub v"
  by (auto simp: VerifyCert_def vouched_def Verify_def split: sum.splits option.splits if_splits)

lemma CheckRevocation_iff: "CheckRevocation cr b s rootPub v = Inr () \<longleftrightarrow> not_revoked cr rootPub b s v"
  unfolding CheckRevocation_def not_revoked_def Verify_def
  by (cases "revocation_of_json b") (auto simp: list_ex_iff dest: sym split: option.splits)

text \<open>A concrete instance for the examples: every signature of the right length is accepted.\<close>

definition sample_crypto :: crypto where
  "sample_crypto = \<lparr>ed25519 = (\<lambda>_ _ _. True), sha256 = (\<lambda>s. replicate 32 (CHR ''h''))\<rparr>"

definition sample_key :: string where
  "sample_key = replicate 32 (CHR ''k'')"

definition sample_sig :: string where
  "sample_sig = replicate 64 (CHR ''s'')"

definition sample_cert :: string where
  "sample_cert = json_indent 0 (JObj [(''version'', JInt 7), (''signing_pubkey'', JStr (replicate 43 (CHR ''A'') @ ''='')),
     (''not_after'', JStr ''2030-01-01T00:00:00Z'')])"

lemma sample_cert_vouched:
  "case VerifyCert sample_crypto sample_cert sample_sig sample_key 0 of Inl e \<Rightarrow> False | Inr (pub, v) \<Rightarrow> v = 7"
  by code_simp

text \<open>C23. The certificate check accepts exactly the certificates of the trust chain: those the
  root key signed, that carry a well-formed 32-byte key, and whose expiry time, when there is
  one, has not passed; it returns that key and the certificate's version. The revocation check
  accepts exactly the versions that a root-signed list neither names nor cuts off.\<close>

theorem trust_chain_checks:
  "(VerifyCert cr certBytes certSig rootPub now = Inr (pub, v) \<longleftrightarrow> vouched cr rootPub now certBytes certSig pub v) \<and>
   (CheckRevocation cr revBytes revSig rootPub v = Inr () \<longleftrightarrow> not_revoked cr rootPub revBytes revSig v)"
  by (simp add: VerifyCert_iff CheckRevocation_iff)

end
