(* ===== verification/Manifest.thy ===== *)
theory Manifest
  imports Trust Sys "HOL-Library.Word"
begin

section \<open>Update manifests\<close>

text \<open>
  internal/otad/manifest.go: the signed description of an update, its validation, and the
  check of a downloaded file against its SHA-256. The rune classes that \<open>ParseManifest\<close> asks
  the package \<open>unicode\<close> for are written out. A file is read in one call where the code streams
  it through the hash.
\<close>

subsection \<open>The manifest\<close>

record bundle_spec =
  bd_name :: "string"
  bd_url :: "string"
  bd_hash :: "string"
  bd_verity_hash :: "string"
  bd_hashtree_url :: "string"
  bd_hashtree_hash :: "string"
  bd_version :: "int"
  bd_min_version :: "int"
  bd_chips :: "string list option"
  bd_kernel_min :: "string"
  bd_kernel_max :: "string"
  bd_critical_devices :: "string list option"

record manifest =
  m_version :: string
  m_min_version :: string
  m_product_name :: string
  m_product_version :: string
  m_product_build :: string
  m_rootfs_url :: string
  m_rootfs_hash :: string
  m_rootfs_verity_hash :: string
  m_rootfs_hashtree_url :: string
  m_rootfs_hashtree_hash :: string
  m_kernelcache_url :: string
  m_kernelcache_hash :: string
  m_kernelcache_sig_url :: string
  m_kernelcache_sig_hash :: string
  m_kernel_release :: string
  m_loader_version :: int
  m_loader_url :: string
  m_loader_hash :: string
  m_loader_sig_url :: string
  m_loader_sig_hash :: string
  m_recovery_version :: int
  m_recovery_url :: string
  m_recovery_hash :: string
  m_recovery_sig_url :: string
  m_recovery_sig_hash :: string
  m_firmware_url :: string
  m_firmware_hash :: string
  m_firmware_verity_hash :: string
  m_firmware_version :: int
  m_firmware_min_version :: int
  m_firmware_hashtree_url :: string
  m_firmware_hashtree_hash :: string
  m_firmware_bundles :: "bundle_spec list option"

definition zero_spec :: bundle_spec where
  "zero_spec = \<lparr>bd_name = [],
     bd_url = [],
     bd_hash = [],
     bd_verity_hash = [],
     bd_hashtree_url = [],
     bd_hashtree_hash = [],
     bd_version = 0,
     bd_min_version = 0,
     bd_chips = None,
     bd_kernel_min = [],
     bd_kernel_max = [],
     bd_critical_devices = None\<rparr>"

definition zero_manifest :: manifest where
  "zero_manifest = \<lparr>m_version = [], m_min_version = [], m_product_name = [], m_product_version = [], 
     m_product_build = [], m_rootfs_url = [], m_rootfs_hash = [], m_rootfs_verity_hash = [], 
     m_rootfs_hashtree_url = [], m_rootfs_hashtree_hash = [], m_kernelcache_url = [], m_kernelcache_hash = [], 
     m_kernelcache_sig_url = [], m_kernelcache_sig_hash = [], m_kernel_release = [], m_loader_version = 0, 
     m_loader_url = [], m_loader_hash = [], m_loader_sig_url = [], m_loader_sig_hash = [], 
     m_recovery_version = 0, m_recovery_url = [], m_recovery_hash = [], m_recovery_sig_url = [], 
     m_recovery_sig_hash = [], m_firmware_url = [], m_firmware_hash = [], m_firmware_verity_hash = [], 
     m_firmware_version = 0, m_firmware_min_version = 0, m_firmware_hashtree_url = [], m_firmware_hashtree_hash = [],
     m_firmware_bundles = None\<rparr>"

definition dec_spec :: "bundle_spec decoder" where
  "dec_spec = decode_fields
     [(''name'', field bd_name bd_name_update dec_str),
      (''url'', field bd_url bd_url_update dec_str),
      (''hash'', field bd_hash bd_hash_update dec_str),
      (''verity_hash'', field bd_verity_hash bd_verity_hash_update dec_str),
      (''hashtree_url'', field bd_hashtree_url bd_hashtree_url_update dec_str),
      (''hashtree_hash'', field bd_hashtree_hash bd_hashtree_hash_update dec_str),
      (''version'', field bd_version bd_version_update dec_int),
      (''min_version'', field bd_min_version bd_min_version_update dec_int),
      (''chips'', field bd_chips bd_chips_update (dec_slice dec_str [])),
      (''kernel_min'', field bd_kernel_min bd_kernel_min_update dec_str),
      (''kernel_max'', field bd_kernel_max bd_kernel_max_update dec_str),
      (''critical_devices'', field bd_critical_devices bd_critical_devices_update (dec_slice dec_str []))]"

definition dec_manifest :: "manifest decoder" where
  "dec_manifest = decode_fields
     [(''version'', field m_version m_version_update dec_str),
      (''min_version'', field m_min_version m_min_version_update dec_str),
      (''product_name'', field m_product_name m_product_name_update dec_str),
      (''product_version'', field m_product_version m_product_version_update dec_str),
      (''product_build'', field m_product_build m_product_build_update dec_str),
      (''rootfs_url'', field m_rootfs_url m_rootfs_url_update dec_str),
      (''rootfs_hash'', field m_rootfs_hash m_rootfs_hash_update dec_str),
      (''rootfs_verity_hash'', field m_rootfs_verity_hash m_rootfs_verity_hash_update dec_str),
      (''rootfs_hashtree_url'', field m_rootfs_hashtree_url m_rootfs_hashtree_url_update dec_str),
      (''rootfs_hashtree_hash'', field m_rootfs_hashtree_hash m_rootfs_hashtree_hash_update dec_str),
      (''kernelcache_url'', field m_kernelcache_url m_kernelcache_url_update dec_str),
      (''kernelcache_hash'', field m_kernelcache_hash m_kernelcache_hash_update dec_str),
      (''kernelcache_sig_url'', field m_kernelcache_sig_url m_kernelcache_sig_url_update dec_str),
      (''kernelcache_sig_hash'', field m_kernelcache_sig_hash m_kernelcache_sig_hash_update dec_str),
      (''kernel_release'', field m_kernel_release m_kernel_release_update dec_str),
      (''loader_version'', field m_loader_version m_loader_version_update dec_int),
      (''loader_url'', field m_loader_url m_loader_url_update dec_str),
      (''loader_hash'', field m_loader_hash m_loader_hash_update dec_str),
      (''loader_sig_url'', field m_loader_sig_url m_loader_sig_url_update dec_str),
      (''loader_sig_hash'', field m_loader_sig_hash m_loader_sig_hash_update dec_str),
      (''recovery_version'', field m_recovery_version m_recovery_version_update dec_int),
      (''recovery_url'', field m_recovery_url m_recovery_url_update dec_str),
      (''recovery_hash'', field m_recovery_hash m_recovery_hash_update dec_str),
      (''recovery_sig_url'', field m_recovery_sig_url m_recovery_sig_url_update dec_str),
      (''recovery_sig_hash'', field m_recovery_sig_hash m_recovery_sig_hash_update dec_str),
      (''firmware_url'', field m_firmware_url m_firmware_url_update dec_str),
      (''firmware_hash'', field m_firmware_hash m_firmware_hash_update dec_str),
      (''firmware_verity_hash'', field m_firmware_verity_hash m_firmware_verity_hash_update dec_str),
      (''firmware_version'', field m_firmware_version m_firmware_version_update dec_int),
      (''firmware_min_version'', field m_firmware_min_version m_firmware_min_version_update dec_int),
      (''firmware_hashtree_url'', field m_firmware_hashtree_url m_firmware_hashtree_url_update dec_str),
      (''firmware_hashtree_hash'', field m_firmware_hashtree_hash m_firmware_hashtree_hash_update dec_str),
      (''firmware_bundles'', field m_firmware_bundles m_firmware_bundles_update (dec_slice dec_spec zero_spec))]"

definition FirmwareBundleList :: "manifest \<Rightarrow> bundle_spec list" where
  "FirmwareBundleList m =
    (case m_firmware_bundles m of
       Some (b # bs) \<Rightarrow> b # bs
     | _ \<Rightarrow>
         if m_firmware_url m \<noteq> [] then
           [zero_spec\<lparr>bd_name := ''default'', bd_url := m_firmware_url m, bd_hash := m_firmware_hash m,
              bd_verity_hash := m_firmware_verity_hash m, bd_hashtree_url := m_firmware_hashtree_url m,
              bd_hashtree_hash := m_firmware_hashtree_hash m, bd_version := m_firmware_version m,
              bd_min_version := m_firmware_min_version m\<rparr>]
         else [])"

definition HasFirmware :: "manifest \<Rightarrow> bool" where
  "HasFirmware m \<longleftrightarrow> 0 < length (FirmwareBundleList m)"

subsection \<open>Runes\<close>

definition rune_of :: "string \<Rightarrow> nat" where
  "rune_of s =
    (case map byte s of
       [a] \<Rightarrow> a
     | [a, b] \<Rightarrow> a mod 32 * 64 + b mod 64
     | [a, b, c] \<Rightarrow> a mod 16 * 4096 + b mod 64 * 64 + c mod 64
     | [a, b, c, d] \<Rightarrow> a mod 8 * 262144 + b mod 64 * 4096 + c mod 64 * 64 + d mod 64
     | _ \<Rightarrow> replacement_rune)"

text \<open>The runes of a text, and whether it is valid UTF-8; the fuel is the length of the text.\<close>

fun runes_fuel :: "nat \<Rightarrow> string \<Rightarrow> nat list" where
  "runes_fuel (Suc n) (c # s) =
    (case utf8_size (c # s) of
       0 \<Rightarrow> replacement_rune # runes_fuel n s
     | k \<Rightarrow> rune_of (take k (c # s)) # runes_fuel n (drop (k - 1) s))"
| "runes_fuel _ _ = []"

definition runes :: "string \<Rightarrow> nat list" where
  "runes s = runes_fuel (length s) s"

fun utf8_valid_fuel :: "nat \<Rightarrow> string \<Rightarrow> bool" where
  "utf8_valid_fuel (Suc n) (c # s) =
    (case utf8_size (c # s) of 0 \<Rightarrow> False | k \<Rightarrow> utf8_valid_fuel n (drop (k - 1) s))"
| "utf8_valid_fuel _ s = (s = [])"

definition utf8_valid :: "string \<Rightarrow> bool" where
  "utf8_valid s = utf8_valid_fuel (length s) s"

definition in_ranges :: "(nat \<times> nat) list \<Rightarrow> nat \<Rightarrow> bool" where
  "in_ranges rs r = list_ex (\<lambda>(lo, hi). lo \<le> r \<and> r \<le> hi) rs"

definition rune_control :: "nat \<Rightarrow> bool" where
  "rune_control = in_ranges [(0, 0x1F), (0x7F, 0x9F)]"

definition rune_format :: "nat \<Rightarrow> bool" where
  "rune_format = in_ranges
    [(0xAD, 0xAD), (0x600, 0x605), (0x61C, 0x61C), (0x6DD, 0x6DD), (0x70F, 0x70F), (0x890, 0x891), (0x8E2, 0x8E2),
     (0x180E, 0x180E), (0x200B, 0x200F), (0x202A, 0x202E), (0x2060, 0x2064), (0x2066, 0x206F), (0xFEFF, 0xFEFF),
     (0xFFF9, 0xFFFB), (0x110BD, 0x110BD), (0x110CD, 0x110CD), (0x13430, 0x1343F), (0x1BCA0, 0x1BCA3),
     (0x1D173, 0x1D17A), (0xE0001, 0xE0001), (0xE0020, 0xE007F)]"

definition rune_separator :: "nat \<Rightarrow> bool" where
  "rune_separator r \<longleftrightarrow> r = 0x2028 \<or> r = 0x2029"

definition rune_space :: "nat \<Rightarrow> bool" where
  "rune_space = in_ranges
    [(9, 13), (32, 32), (0x85, 0x85), (0xA0, 0xA0), (0x1680, 0x1680), (0x2000, 0x200A), (0x2028, 0x2029),
     (0x202F, 0x202F), (0x205F, 0x205F), (0x3000, 0x3000)]"

subsection \<open>Parsing and validation\<close>

text \<open>A product field: at most 128 bytes, no white space at its ends, no control, format or
  separator runes.\<close>

definition product_ok :: "string \<Rightarrow> bool" where
  "product_ok v \<longleftrightarrow> v = [] \<or>
     (length v \<le> 128 \<and> \<not> rune_space (hd (runes v)) \<and> \<not> rune_space (last (runes v)) \<and>
      list_all (\<lambda>r. \<not> (rune_control r \<or> rune_format r \<or> rune_separator r)) (runes v))"

text \<open>The members of the text as a map from names to raw values, and the test for a product
  field given as \<open>null\<close>.\<close>

definition raw_fields :: "json \<Rightarrow> (string \<times> json) list" where
  "raw_fields j = (case j of JObj ms \<Rightarrow> foldl (\<lambda>m (k, v). AList.update k v m) [] ms | _ \<Rightarrow> [])"

definition null_field :: "(string \<times> json) list \<Rightarrow> string \<Rightarrow> bool" where
  "null_field ms name = list_ex (\<lambda>(raw, v). equal_fold raw name \<and> v = JNull) ms"

primrec check_bundles :: "string list \<Rightarrow> bundle_spec list \<Rightarrow> error + unit" where
  "check_bundles seen [] = Inr ()"
| "check_bundles seen (fw # fws) =
    (if bd_name fw = [] then Inl (Errorf ''manifest: firmware bundle without a name'')
     else if bd_name fw \<in> set seen then Inl (Errorf ''manifest: duplicate firmware bundle'')
     else if bd_url fw = [] \<or> bd_hash fw = [] then Inl (Errorf ''manifest: firmware bundle url without hash'')
     else if bd_verity_hash fw \<noteq> [] \<and> (bd_hashtree_url fw = [] \<or> bd_hashtree_hash fw = [])
     then Inl (Errorf ''manifest: firmware bundle verity hash without a hash-tree url/hash'')
     else check_bundles (bd_name fw # seen) fws)"

definition check_product :: "(string \<times> json) list \<Rightarrow> string \<Rightarrow> string \<Rightarrow> error + unit" where
  "check_product ms name v =
    (if null_field ms name \<or> \<not> product_ok v then Inl (Errorf ''manifest: invalid product field'') else Inr ())"

definition ParseManifest :: "string \<Rightarrow> error + manifest" where
  "ParseManifest b =
    (if \<not> utf8_valid b then Inl (Errorf ''manifest: invalid UTF-8'')
     else err_bind (json_parse b) (\<lambda>j.
     err_bind (dec_manifest j zero_manifest) (\<lambda>m.
       if m_version m = [] then Inl (Errorf ''manifest: missing version'')
       else if m_rootfs_url m = [] \<or> m_rootfs_hash m = [] then Inl (Errorf ''manifest: missing rootfs url/hash'')
       else if m_kernelcache_url m = [] \<or> m_kernelcache_hash m = []
       then Inl (Errorf ''manifest: missing kernelcache url/hash'')
       else
         err_bind (check_product (raw_fields j) ''product_name'' (m_product_name m)) (\<lambda>_.
         err_bind (check_product (raw_fields j) ''product_version'' (m_product_version m)) (\<lambda>_.
         err_bind (check_product (raw_fields j) ''product_build'' (m_product_build m)) (\<lambda>_.
         err_bind (check_bundles [] (FirmwareBundleList m)) (\<lambda>_. Inr m)))))))"

subsection \<open>Checking a download\<close>

fun hash_diff :: "8 word \<Rightarrow> string \<Rightarrow> string \<Rightarrow> 8 word" where
  "hash_diff diff (a # as) (b # bs) = hash_diff (or diff (xor (word_of_nat (byte a)) (word_of_nat (byte b)))) as bs"
| "hash_diff diff _ _ = diff"

definition hashEqual :: "string \<Rightarrow> string \<Rightarrow> bool" where
  "hashEqual a b = (if length a \<noteq> length b then False else hash_diff 0 a b = 0)"

definition VerifySHA256 :: "crypto \<Rightarrow> path \<Rightarrow> string \<Rightarrow> unit io" where
  "VerifySHA256 cr p wantHex =
    (case hex_decode wantHex of
       None \<Rightarrow> throw (Errorf ''verify: bad expected hash'')
     | Some want \<Rightarrow>
         if length want \<noteq> 32 then throw (Errorf ''verify: bad expected hash'')
         else seqE (read_file p) (\<lambda>s.
           if \<not> hashEqual (sha256 cr s) want then throw (Errorf ''verify: sha256 mismatch'') else ret ()))"

subsection \<open>Properties\<close>

lemma word_byte_eq: "(word_of_nat (byte a) :: 8 word) = word_of_nat (byte b) \<longleftrightarrow> a = b"
  using byte_less [of a] byte_less [of b] by (simp add: word_of_nat_eq_iff take_bit_eq_mod byte_eq_iff)

lemma xor_zero_iff: "xor x y = 0 \<longleftrightarrow> x = (y :: 8 word)"
proof
  assume "xor x y = 0"
  then have "xor (xor x y) y = y" by simp
  then show "x = y" by (simp add: xor.assoc)
qed simp

lemma hash_diff_zero: "length a = length b \<Longrightarrow> hash_diff d a b = 0 \<longleftrightarrow> d = 0 \<and> a = b"
proof (induction d a b rule: hash_diff.induct)
  case (1 d a as b bs)
  then have "hash_diff d (a # as) (b # bs) = 0 \<longleftrightarrow>
      or d (xor (word_of_nat (byte a)) (word_of_nat (byte b))) = 0 \<and> as = bs" by simp
  then show ?case by (simp only: or_eq_0_iff xor_zero_iff word_byte_eq list.inject) blast
qed simp_all

lemma hashEqual_iff: "hashEqual a b \<longleftrightarrow> a = b"
  by (auto simp: hashEqual_def hash_diff_zero)

text \<open>C24. The byte-wise accumulating comparison of two hashes decides equality.\<close>

theorem hashEqual_is_equality: "hashEqual a b = (a = b)"
  by (rule hashEqual_iff)

text \<open>What staging may rely on once a manifest has been accepted.\<close>

definition spec_ok :: "bundle_spec \<Rightarrow> bool" where
  "spec_ok fw \<longleftrightarrow> bd_name fw \<noteq> [] \<and> bd_url fw \<noteq> [] \<and> bd_hash fw \<noteq> [] \<and>
     (bd_verity_hash fw = [] \<or> bd_hashtree_url fw \<noteq> [] \<and> bd_hashtree_hash fw \<noteq> [])"

definition manifest_ok :: "manifest \<Rightarrow> bool" where
  "manifest_ok m \<longleftrightarrow> m_version m \<noteq> [] \<and> m_rootfs_url m \<noteq> [] \<and> m_rootfs_hash m \<noteq> [] \<and>
     m_kernelcache_url m \<noteq> [] \<and> m_kernelcache_hash m \<noteq> [] \<and>
     product_ok (m_product_name m) \<and> product_ok (m_product_version m) \<and> product_ok (m_product_build m) \<and>
     list_all spec_ok (FirmwareBundleList m) \<and> distinct (map bd_name (FirmwareBundleList m))"

lemma check_bundles_iff:
  "check_bundles seen fws = Inr () \<longleftrightarrow>
     list_all spec_ok fws \<and> distinct (map bd_name fws) \<and> set (map bd_name fws) \<inter> set seen = {}"
  by (induction fws arbitrary: seen) (auto simp: spec_ok_def)

lemma ParseManifest_ok: "ParseManifest b = Inr m \<Longrightarrow> manifest_ok m"
  by (auto simp: ParseManifest_def err_bind_Inr_iff check_product_def check_bundles_iff manifest_ok_def
      split: if_splits)

lemma ParseManifest_decodes:
  "ParseManifest b = Inr m \<Longrightarrow> \<exists>j. json_parse b = Inr j \<and> dec_manifest j zero_manifest = Inr m"
  by (auto simp: ParseManifest_def err_bind_Inr_iff split: if_splits)

lemma wp_VerifySHA256:
  "wp (VerifySHA256 cr p wantHex) (\<lambda>r w'. w_disk w' = w_disk w \<and> w_history w' = w_history w \<and>
     (r = Inr () \<longrightarrow> (\<exists>s. file_data (w_disk w) p = Some s \<and> hex_decode wantHex = Some (sha256 cr s)))) w"
  by (auto simp: VerifySHA256_def wp_simps sys_defs file_data_def hashEqual_iff
      split: option.splits)

definition minimal_manifest :: string where
  "minimal_manifest = json_indent 0 (JObj [(''version'', JStr ''v43''), (''rootfs_url'', JStr ''http://h/r''),
     (''rootfs_hash'', JStr ''00''), (''kernelcache_url'', JStr ''http://h/k''), (''kernelcache_hash'', JStr ''00'')])"

lemma minimal_manifest_parses: "case ParseManifest minimal_manifest of Inl e \<Rightarrow> False | Inr m \<Rightarrow> m_version m = ''v43''"
  by code_simp

text \<open>C25. A manifest is only accepted when the update it describes is complete: a version, an
  address and a hash for the root file system and the kernel cache, well-formed product
  texts, and firmware bundles with distinct names, an address and a hash each, and a hash
  tree for each that is to be checked by dm-verity.\<close>

theorem ParseManifest_complete:
  assumes "ParseManifest b = Inr m"
  shows "manifest_ok m"
  using assms by (rule ParseManifest_ok)

lemma ParseManifest_complete_witness:
  "(case ParseManifest minimal_manifest of Inl e \<Rightarrow> False | Inr m \<Rightarrow> manifest_ok m)"
  using minimal_manifest_parses ParseManifest_complete [of minimal_manifest] by (simp split: sum.splits)

end
