(* ===== verification/Hwselect.thy ===== *)
theory Hwselect
  imports Manifest
begin

section \<open>Hardware selection of firmware bundles\<close>

text \<open>
  internal/otad/hwselect.go: which graphics chips the machine has, whether a firmware bundle
  applies to it and to a kernel, and the check that a kernel change does not strand a driver.
  The names below \<open>/sys/bus/pci/devices\<close> are a parameter (the result of \<open>filepath.Glob\<close>);
  the class and vendor files are read from the modelled disk.
\<close>

subsection \<open>Detection\<close>

definition read_trimmed :: "path \<Rightarrow> string option io" where
  "read_trimmed p = trying (read_file p) (\<lambda>r. ret (case r of Inl e \<Rightarrow> None | Inr s \<Rightarrow> Some (trim_space s)))"

primrec gpu_scan :: "path list \<Rightarrow> bool \<times> bool \<Rightarrow> (bool \<times> bool) io" where
  "gpu_scan [] nv_amd = ret nv_amd"
| "gpu_scan (d # ds) nv_amd =
    seqE (read_trimmed (path_join d ''class'')) (\<lambda>cls. case cls of
        None \<Rightarrow> gpu_scan ds nv_amd
      | Some c \<Rightarrow>
          if \<not> has_prefix ''0x03'' c then gpu_scan ds nv_amd
          else seqE (read_trimmed (path_join d ''vendor'')) (\<lambda>ven. case ven of
              None \<Rightarrow> gpu_scan ds nv_amd
            | Some v \<Rightarrow>
                if v = ''0x10de'' then gpu_scan ds (True, snd nv_amd)
                else if v = ''0x1002'' then gpu_scan ds (fst nv_amd, True)
                else gpu_scan ds nv_amd))"

definition DetectGPUChips :: "path list \<Rightarrow> string list io" where
  "DetectGPUChips devs =
     seqE (gpu_scan devs (False, False)) (\<lambda>(nvidia, amd).
       ret ((if nvidia then [''nvidia''] else []) @ (if amd then [''amd''] else [])))"

definition osrelease_path :: path where
  "osrelease_path = [''proc'', ''sys'', ''kernel'', ''osrelease'']"

definition RunningKernel :: "string io" where
  "RunningKernel = trying (read_file osrelease_path) (\<lambda>r. ret (case r of Inl e \<Rightarrow> [] | Inr s \<Rightarrow> trim_space s))"

subsection \<open>Kernel versions\<close>

definition splitVer :: "string \<Rightarrow> string list" where
  "splitVer s = fields_func (\<lambda>c. c = CHR ''.'' \<or> c = CHR ''-'' \<or> c = CHR ''_'') s"

text \<open>The comparison of two parts: as numbers when both are numbers, else as texts; 0 means
  the loop goes on.\<close>

definition cmp_part :: "string \<Rightarrow> string \<Rightarrow> int" where
  "cmp_part x y =
    (case (atoi x, atoi y) of
       (Some xi, Some yi) \<Rightarrow> if xi \<noteq> yi then (if xi < yi then -1 else 1) else 0
     | _ \<Rightarrow> if x \<noteq> y then (if x < y then -1 else 1) else 0)"

fun cmp_parts :: "string list \<Rightarrow> string list \<Rightarrow> int" where
  "cmp_parts [] [] = 0"
| "cmp_parts (x # xs) (y # ys) = (if cmp_part x y \<noteq> 0 then cmp_part x y else cmp_parts xs ys)"
| "cmp_parts (x # xs) [] = (if cmp_part x [] \<noteq> 0 then cmp_part x [] else cmp_parts xs [])"
| "cmp_parts [] (y # ys) = (if cmp_part [] y \<noteq> 0 then cmp_part [] y else cmp_parts [] ys)"

definition cmpKernel :: "string \<Rightarrow> string \<Rightarrow> int" where
  "cmpKernel a b = cmp_parts (splitVer a) (splitVer b)"

subsection \<open>Matching\<close>

definition isGPUChip :: "string \<Rightarrow> bool" where
  "isGPUChip c \<longleftrightarrow> c = ''nvidia'' \<or> c = ''amd''"

definition spec_chips :: "bundle_spec \<Rightarrow> string list" where
  "spec_chips f = (case bd_chips f of None \<Rightarrow> [] | Some cs \<Rightarrow> cs)"

definition MatchesHardware :: "bundle_spec \<Rightarrow> string list \<Rightarrow> string \<Rightarrow> bool" where
  "MatchesHardware f chips kern =
    (let need = filter isGPUChip (spec_chips f) in
     if 0 < length need \<and> \<not> list_ex (\<lambda>c. list_ex (\<lambda>d. c = d) chips) need then False
     else if bd_kernel_min f \<noteq> [] \<and> kern \<noteq> [] \<and> cmpKernel kern (bd_kernel_min f) < 0 then False
     else if bd_kernel_max f \<noteq> [] \<and> kern \<noteq> [] \<and> cmpKernel kern (bd_kernel_max f) > 0 then False
     else True)"

definition isKernelBoundFor :: "bundle_spec \<Rightarrow> string \<Rightarrow> bool" where
  "isKernelBoundFor f chip =
    (if bd_kernel_min f = [] \<and> bd_kernel_max f = [] then False
     else list_ex (\<lambda>c. c = chip) (spec_chips f))"

definition offers_matches :: "bundle_spec list \<Rightarrow> string \<Rightarrow> string \<Rightarrow> bool \<times> bool" where
  "offers_matches bundles target chip =
    foldl (\<lambda>(offers, matches) b.
        if \<not> isKernelBoundFor b chip then (offers, matches)
        else (True, if MatchesHardware b [chip] target then True else matches)) (False, False) bundles"

primrec couple_chips :: "bundle_spec list \<Rightarrow> string \<Rightarrow> string list \<Rightarrow> error + unit" where
  "couple_chips bundles target [] = Inr ()"
| "couple_chips bundles target (chip # chips) =
    (case offers_matches bundles target chip of (offers, matches) \<Rightarrow>
       if offers \<and> \<not> matches then Inl (Errorf ''coupled-kernel: no driver bundle for the target kernel'')
       else couple_chips bundles target chips)"

definition CoupledKernelCheck :: "manifest \<Rightarrow> string list \<Rightarrow> unit io" where
  "CoupledKernelCheck m chips =
    (let target = m_kernel_release m in
     if target = [] then ret ()
     else seqE RunningKernel (\<lambda>running.
       if target = running then ret ()
       else lift_err (couple_chips (FirmwareBundleList m) target chips)))"

subsection \<open>Numbered kernel versions\<close>

text \<open>The dotted text of a list of numbers.\<close>

definition dotted :: "nat list \<Rightarrow> string" where
  "dotted ns = join_with ''.'' (map nat_str ns)"

lemma digit_no_sep: "is_digit c \<Longrightarrow> c \<noteq> CHR ''.'' \<and> c \<noteq> CHR ''-'' \<and> c \<noteq> CHR ''_''"
  by (auto simp: is_digit_def)

lemma fields_func_acc_digits:
  assumes "list_all is_digit ds"
  shows "fields_func_acc (\<lambda>c. c = CHR ''.'' \<or> c = CHR ''-'' \<or> c = CHR ''_'') acc (ds @ s) =
    fields_func_acc (\<lambda>c. c = CHR ''.'' \<or> c = CHR ''-'' \<or> c = CHR ''_'') (rev ds @ acc) s"
  using assms by (induction ds arbitrary: acc) (auto dest: digit_no_sep)

lemma splitVer_dotted: "splitVer (dotted ns) = map nat_str ns"
proof (induction ns)
  case Nil
  show ?case by (simp add: splitVer_def dotted_def fields_func_def)
next
  case (Cons n ns)
  have d: "list_all is_digit (nat_str n)" "nat_str n \<noteq> []" using nat_str_digits by auto
  show ?case
  proof (cases ns)
    case Nil
    then show ?thesis
      using fields_func_acc_digits [OF d(1), of "[]" "[]"] d(2)
      by (simp add: splitVer_def dotted_def fields_func_def)
  next
    case (Cons m ms)
    then have "dotted (n # ns) = nat_str n @ CHR ''.'' # dotted ns" by (simp add: dotted_def)
    then show ?thesis
      using fields_func_acc_digits [OF d(1), of "[]" "CHR ''.'' # dotted ns"] d(2) Cons.IH
      by (simp add: splitVer_def fields_func_def)
  qed
qed

lemma atoi_nat_str: "int n < 2 ^ 63 \<Longrightarrow> atoi (nat_str n) = Some (int n)"
  using atoi_itoa [of "int n"] by (simp add: itoa_def int64_range_def)

lemma nat_str_neq_Nil [simp]: "nat_str n \<noteq> []" "[] \<noteq> nat_str n" "[] < nat_str n" "\<not> nat_str n < []"
  using nat_str_digits [of n] by (auto simp: neq_Nil_conv)

lemma atoi_Nil [simp]: "atoi [] = None"
  by (simp add: atoi_def)

lemma cmp_parts_numbers:
  assumes "list_all (\<lambda>n. int n < 2 ^ 63) as" and "list_all (\<lambda>n. int n < 2 ^ 63) bs"
  shows "cmp_parts (map nat_str as) (map nat_str bs) = (if as = bs then 0 else if as < bs then -1 else 1)"
  using assms
proof (induction as arbitrary: bs)
  case Nil
  then show ?case by (cases bs) (auto simp: cmp_part_def split: option.splits)
next
  case (Cons a as)
  then show ?case
    by (cases bs) (auto simp: cmp_part_def atoi_nat_str Cons_less_Cons split: option.splits)
qed

lemma cmpKernel_dotted:
  assumes "list_all (\<lambda>n. int n < 2 ^ 63) as" and "list_all (\<lambda>n. int n < 2 ^ 63) bs"
  shows "cmpKernel (dotted as) (dotted bs) = (if as = bs then 0 else if as < bs then -1 else 1)"
  using cmp_parts_numbers [OF assms] by (simp add: cmpKernel_def splitVer_dotted)

lemma offers_matches_iff:
  "offers_matches bundles target chip =
     ((\<exists>b \<in> set bundles. isKernelBoundFor b chip),
      (\<exists>b \<in> set bundles. isKernelBoundFor b chip \<and> MatchesHardware b [chip] target))"
proof -
  have "foldl (\<lambda>(offers, matches) b.
        if \<not> isKernelBoundFor b chip then (offers, matches)
        else (True, if MatchesHardware b [chip] target then True else matches)) (p, q) bundles =
     (p \<or> (\<exists>b \<in> set bundles. isKernelBoundFor b chip),
      q \<or> (\<exists>b \<in> set bundles. isKernelBoundFor b chip \<and> MatchesHardware b [chip] target))" for p q
    by (induction bundles arbitrary: p q) auto
  then show ?thesis by (simp add: offers_matches_def)
qed

lemma couple_chips_iff:
  "couple_chips bundles target chips = Inr () \<longleftrightarrow>
     (\<forall>chip \<in> set chips. (\<exists>b \<in> set bundles. isKernelBoundFor b chip) \<longrightarrow>
        (\<exists>b \<in> set bundles. isKernelBoundFor b chip \<and> MatchesHardware b [chip] target))"
  by (induction chips) (auto simp: offers_matches_iff)

subsection \<open>Properties\<close>

text \<open>On numbered kernel versions the comparison is the lexicographic order of the number
  lists: 7.9 is below 7.10, and a version is below its own extensions.\<close>

theorem cmpKernel_lexicographic:
  assumes "list_all (\<lambda>n. int n < 2 ^ 63) as" and "list_all (\<lambda>n. int n < 2 ^ 63) bs"
  shows "cmpKernel (dotted as) (dotted bs) = (if as = bs then 0 else if as < bs then -1 else 1)"
  using assms by (rule cmpKernel_dotted)

lemma cmpKernel_lexicographic_witness: "cmpKernel (dotted [7, 9, 2]) (dotted [7, 10]) = -1"
  using cmpKernel_lexicographic [of "[7, 9, 2]" "[7, 10]"] by (simp add: Cons_less_Cons)

text \<open>A driver bundle pinned to one kernel is staged for that kernel and for no other, and
  only on a machine that has one of its graphics chips; base firmware without graphics chips
  and without kernel bounds is staged everywhere.\<close>

theorem pinned_bundle_matches_its_kernel:
  assumes "bd_kernel_min f = dotted ks" and "bd_kernel_max f = dotted ks" and "ks \<noteq> []" and "js \<noteq> []"
    and "list_all (\<lambda>n. int n < 2 ^ 63) ks" and "list_all (\<lambda>n. int n < 2 ^ 63) js"
    and "list_all isGPUChip (spec_chips f)" and "spec_chips f \<noteq> []"
  shows "MatchesHardware f chips (dotted js) \<longleftrightarrow> js = ks \<and> (\<exists>c \<in> set chips. c \<in> set (spec_chips f))"
proof -
  have ne: "dotted ns \<noteq> []" if ne: "ns \<noteq> []" for ns
  proof -
    obtain n ms where ns: "ns = n # ms" using ne by (cases ns) auto
    then show ?thesis by (cases ms) (simp_all add: dotted_def)
  qed
  have "filter isGPUChip (spec_chips f) = spec_chips f"
    using assms(7) by (simp add: list_all_iff)
  then show ?thesis
    using assms ne [OF assms(3)] ne [OF assms(4)]
    by (auto simp: MatchesHardware_def Let_def cmpKernel_dotted list_ex_iff)
qed

definition sample_driver :: bundle_spec where
  "sample_driver = zero_spec\<lparr>bd_name := ''nvidia'', bd_chips := Some [''nvidia''],
     bd_kernel_min := dotted [7, 1, 3], bd_kernel_max := dotted [7, 1, 3]\<rparr>"

lemma pinned_bundle_matches_its_kernel_witness:
  "MatchesHardware sample_driver [''nvidia''] (dotted [7, 1, 3]) \<and> \<not> MatchesHardware sample_driver [''nvidia''] (dotted [7, 1, 4])"
  using pinned_bundle_matches_its_kernel [of sample_driver "[7, 1, 3]" "[7, 1, 3]" "[''nvidia'']"]
    pinned_bundle_matches_its_kernel [of sample_driver "[7, 1, 3]" "[7, 1, 4]" "[''nvidia'']"]
  by (simp add: sample_driver_def spec_chips_def isGPUChip_def)



end
