(* ===== verification/Slots.thy ===== *)
theory Slots
  imports Deployment Store
begin

section \<open>Boot state and artifact slots\<close>

text \<open>
  internal/otad/slots.go and durable.go: the boot-state file on the ESP that the loader reads,
  and the promotion of the staged (\<open>-next\<close>) files to \<open>-active\<close> with the old ones kept as
  \<open>-prev\<close>. The EFI images are copied (the ESP is FAT), the root file system images are hard
  links. The hash function is a parameter of the definitions that use it. The text of a
  boot-state file is read in one call; lines beyond the 64 KiB limit of the scanner are not
  modelled. In a path, the empty list is Go's empty string: the directory is not configured.
\<close>

subsection \<open>Boot state\<close>

record boot_state =
  bs_target :: string
  bs_trial :: bool
  bs_attempts :: int

record stage_dirs =
  sd_rootfs :: path
  sd_esp :: path
  sd_firmware :: path

definition zero_boot_state :: boot_state where
  "zero_boot_state = \<lparr>bs_target = [], bs_trial = False, bs_attempts = 0\<rparr>"

definition Marshal :: "boot_state \<Rightarrow> string" where
  "Marshal b = ''target='' @ bs_target b @ [newline] @ ''trial='' @ (if bs_trial b then ''1'' else ''0'') @ [newline]
     @ ''attempts='' @ itoa (bs_attempts b) @ [newline]"

text \<open>The value of \<open>n, _ := strconv.Atoi(s)\<close>: zero for a text that is no number, the nearest
  bound for one out of range.\<close>

definition atoi_value :: "string \<Rightarrow> int" where
  "atoi_value s = (case atoi s of Some n \<Rightarrow> n
     | None \<Rightarrow> (case s of [] \<Rightarrow> 0
         | c # t \<Rightarrow> (case atoi_digits (if c = CHR ''-'' \<or> c = CHR ''+'' then t else s) of
              None \<Rightarrow> 0 | Some n \<Rightarrow> if c = CHR ''-'' then - (2 ^ 63) else 2 ^ 63 - 1)))"

definition boot_state_line :: "boot_state \<Rightarrow> string \<Rightarrow> boot_state" where
  "boot_state_line b line =
    (case str_cut (CHR ''='') (trim_space line) of
       None \<Rightarrow> b
     | Some (k, v) \<Rightarrow>
         if k = ''target'' then b\<lparr>bs_target := v\<rparr>
         else if k = ''trial'' then b\<lparr>bs_trial := v = ''1''\<rparr>
         else if k = ''attempts'' then b\<lparr>bs_attempts := atoi_value v\<rparr>
         else b)"

definition parse_boot_state :: "string \<Rightarrow> boot_state" where
  "parse_boot_state s = foldl boot_state_line zero_boot_state (scan_lines s)"

definition ReadBootState :: "path \<Rightarrow> boot_state io" where
  "ReadBootState p = seqE (read_file p) (\<lambda>s. ret (parse_boot_state s))"

definition WriteBootState :: "path \<Rightarrow> boot_state \<Rightarrow> unit io" where
  "WriteBootState p b =
     (let dir = path_dir p in
      seqE (mkdir_all dir) (\<lambda>_.
      atomic_put dir (''.'' @ path_base p @ ''.tmp-'') p (\<lambda>tmp. fwrite tmp (Marshal b))
        (trying (open_dir dir) (\<lambda>r. case r of Inl e \<Rightarrow> ret () | Inr _ \<Rightarrow> ignoring (fsync_dir dir)))))"

definition boot_state_path :: "stage_dirs \<Rightarrow> path" where
  "boot_state_path dirs = path_join (sd_esp dirs) ''boot-state''"

definition boot_state_of :: "deployment \<Rightarrow> boot_state" where
  "boot_state_of d =
    (if NeedsRecovery d then \<lparr>bs_target = ''recovery'', bs_trial = False, bs_attempts = 0\<rparr>
     else if HasPending d then \<lparr>bs_target = ''next'', bs_trial = True, bs_attempts = rf_boot_attempts (d_rootfs d)\<rparr>
     else \<lparr>bs_target = ''active'', bs_trial = False, bs_attempts = 0\<rparr>)"

definition writeDeploymentBootState :: "deployment \<Rightarrow> stage_dirs \<Rightarrow> unit io" where
  "writeDeploymentBootState d dirs =
     (if sd_esp dirs = [] then ret () else WriteBootState (boot_state_path dirs) (boot_state_of d))"

subsection \<open>File helpers\<close>

text \<open>Opening a file for reading gives its inode; the handle keeps leading to it.\<close>

definition open_read :: "path \<Rightarrow> nat io" where
  "open_read p = sys_call (\<lambda>w. case dk_names (w_disk w) p of None \<Rightarrow> (Inl ENOENT, w) | Some i \<Rightarrow> (Inr i, w))"

definition read_all :: "nat \<Rightarrow> string io" where
  "read_all i = sys_call (\<lambda>w. (Inr (ino_data (dk_inodes (w_disk w) i)), w))"

definition nonEmpty :: "path \<Rightarrow> bool io" where
  "nonEmpty p = trying (stat p) (\<lambda>r. ret (case r of Inl e \<Rightarrow> False | Inr (i, len) \<Rightarrow> 0 < len))"

definition sameFileContent :: "(string \<Rightarrow> string) \<Rightarrow> path \<Rightarrow> path \<Rightarrow> bool io" where
  "sameFileContent sha256 a b =
     trying (open_read a) (\<lambda>ra. case ra of Inl e \<Rightarrow> ret False | Inr aa \<Rightarrow>
     trying (open_read b) (\<lambda>rb. case rb of Inl e \<Rightarrow> ret False | Inr bb \<Rightarrow>
     trying (read_all aa) (\<lambda>ra. case ra of Inl e \<Rightarrow> ret False | Inr as \<Rightarrow>
     trying (read_all bb) (\<lambda>rb. case rb of Inl e \<Rightarrow> ret False | Inr bs \<Rightarrow>
       ret (length as = length bs \<and> sha256 as = sha256 bs)))))"

definition sameFileIdentity :: "path \<Rightarrow> path \<Rightarrow> bool io" where
  "sameFileIdentity a b =
     trying (stat a) (\<lambda>ra. case ra of Inl e \<Rightarrow> ret False | Inr (i, _) \<Rightarrow>
     trying (stat b) (\<lambda>rb. ret (case rb of Inl e \<Rightarrow> False | Inr (j, _) \<Rightarrow> i = j)))"

definition syncDir :: "path \<Rightarrow> unit io" where
  "syncDir dir =
     seqE (open_dir dir) (\<lambda>_.
     trying (fsync_dir dir) (\<lambda>r. case r of
         Inl e \<Rightarrow> if \<not> errors_Is e EINVAL \<and> \<not> errors_Is e ENOTSUP then throw e else ret ()
       | Inr _ \<Rightarrow> ret ()))"

text \<open>durable.go: the two raw system calls after the directory sync.\<close>

definition syncfs :: "path \<Rightarrow> unit io" where
  "syncfs dir = sys_call (\<lambda>w. (Inr (), w))"

definition checkpoint_ioctl :: "path \<Rightarrow> unit io" where
  "checkpoint_ioctl dir = sys_call (\<lambda>w. (Inr (), w))"

definition commitDir :: "path \<Rightarrow> unit io" where
  "commitDir dir =
     seqE (syncDir dir) (\<lambda>_.
     seqE (open_dir dir) (\<lambda>_.
     seqE (syncfs dir) (\<lambda>_.
     trying (checkpoint_ioctl dir) (\<lambda>r. case r of
         Inl e \<Rightarrow> if \<not> errors_Is e ENOTTY \<and> \<not> errors_Is e EINVAL \<and> \<not> errors_Is e EOPNOTSUPP \<and> \<not> errors_Is e EPERM
                  then throw e else ret ()
       | Inr _ \<Rightarrow> ret ()))))"

definition copyFileSync :: "path \<Rightarrow> path \<Rightarrow> unit io" where
  "copyFileSync src dst =
     seqE (open_read src) (\<lambda>inp.
     let dir = path_dir dst in
     atomic_put dir (''.'' @ path_base dst @ ''.tmp-'') dst
       (\<lambda>out. seqE (read_all inp) (\<lambda>s. fwrite out s)) (syncDir dir))"

definition linkFileSync :: "path \<Rightarrow> path \<Rightarrow> unit io" where
  "linkFileSync src dst =
     (let dir = path_dir dst in
      seqE (create_temp dir (''.'' @ path_base dst @ ''.link-'')) (\<lambda>(tmp, reservation).
      trying (fclose reservation) (\<lambda>r. case r of
          Inl e \<Rightarrow> trying (remove tmp) (\<lambda>_. throw e)
        | Inr _ \<Rightarrow>
      seqE (remove tmp) (\<lambda>_.
      seqE (link src tmp) (\<lambda>_.
      deferred (seqE (rename tmp dst) (\<lambda>_. syncDir dir)) (remove tmp))))))"

subsection \<open>Promotion\<close>

record slot_group =
  sg_dir :: path
  sg_prefix :: string
  sg_suffixes :: "string list"

definition slot_file :: "slot_group \<Rightarrow> slot \<Rightarrow> string \<Rightarrow> path" where
  "slot_file g sl s = path_join (sg_dir g) (sg_prefix g @ ''-'' @ slot_name sl @ s)"

definition slot_groups :: "stage_dirs \<Rightarrow> slot_group list" where
  "slot_groups dirs =
     [\<lparr>sg_dir = sd_rootfs dirs, sg_prefix = ''rootfs'', sg_suffixes = [''.erofs'', ''.hash'']\<rparr>,
      \<lparr>sg_dir = sd_esp dirs, sg_prefix = ''kernelcache'', sg_suffixes = [''.efi'', ''.efi.sig'']\<rparr>]"

text \<open>The number of non-empty candidates of a group.\<close>

primrec count_staged :: "slot_group \<Rightarrow> string list \<Rightarrow> nat io" where
  "count_staged g [] = ret 0"
| "count_staged g (s # ss) =
     seqE (nonEmpty (slot_file g SlotNext s)) (\<lambda>b.
     seqE (count_staged g ss) (\<lambda>n. ret (if b then Suc n else n)))"

definition preflight_file :: "slot_group \<Rightarrow> string \<Rightarrow> unit io" where
  "preflight_file g s =
     seqE (nonEmpty (slot_file g SlotNext s)) (\<lambda>staged.
       if staged then
         seqE (nonEmpty (slot_file g SlotActive s)) (\<lambda>act.
           if \<not> act then throw (Errorf (''promote: no active slot'')) else ret ())
       else throw (Errorf ''promote: partially staged''))"

definition preflightSlots :: "slot_group list \<Rightarrow> unit io" where
  "preflightSlots groups = for_each groups (\<lambda>g.
     if sg_dir g = [] then ret ()
     else seqE (count_staged g (sg_suffixes g)) (\<lambda>staged.
       if staged = 0 then throw (Errorf ''promote: candidate is missing'')
       else for_each (sg_suffixes g) (preflight_file g)))"

definition promote_file :: "(string \<Rightarrow> string) \<Rightarrow> slot_group \<Rightarrow> string \<Rightarrow> unit io" where
  "promote_file sha256 g s =
     (let nxt = slot_file g SlotNext s; act = slot_file g SlotActive s; prv = slot_file g SlotPrev s in
      seqE (nonEmpty nxt) (\<lambda>staged.
        if \<not> staged then ret ()
        else if sg_prefix g = ''kernelcache'' then
          seqE (sameFileContent sha256 act nxt) (\<lambda>same.
            if same then ret ()
            else seqE (wrapE ''promote: active->prev'' (copyFileSync act prv)) (\<lambda>_.
                 wrapE ''promote: next->active'' (copyFileSync nxt act)))
        else
          seqE (sameFileIdentity act nxt) (\<lambda>same.
            if same then ret ()
            else seqE (wrapE ''promote: active->prev'' (linkFileSync act prv)) (\<lambda>_.
                 wrapE ''promote: next->active'' (linkFileSync nxt act)))))"

definition PromoteSlots :: "(string \<Rightarrow> string) \<Rightarrow> stage_dirs \<Rightarrow> unit io" where
  "PromoteSlots sha256 dirs =
     (let groups = slot_groups dirs in
      seqE (preflightSlots groups) (\<lambda>_.
      for_each groups (\<lambda>g. for_each (sg_suffixes g) (promote_file sha256 g))))"

definition CleanupNextSlots :: "stage_dirs \<Rightarrow> unit io" where
  "CleanupNextSlots dirs =
     seqE (if sd_esp dirs \<noteq> []
           then for_each [''.efi'', ''.efi.sig'']
                  (\<lambda>s. ignoring (remove (path_join (sd_esp dirs) (''kernelcache-next'' @ s))))
           else ret ()) (\<lambda>_.
     if sd_rootfs dirs \<noteq> []
     then for_each [''.erofs'', ''.hash'']
            (\<lambda>s. ignoring (remove (path_join (sd_rootfs dirs) (''rootfs-next'' @ s))))
     else ret ())"

subsection \<open>The boot-state text\<close>

definition boot_text_ok :: "boot_state \<Rightarrow> bool" where
  "boot_text_ok b \<longleftrightarrow> newline \<notin> set (bs_target b) \<and>
     (bs_target b = [] \<or> \<not> is_space (last (bs_target b))) \<and> int64_range (bs_attempts b)"

lemma newline_space [simp]: "is_space newline" "newline \<noteq> CHR ''=''" "\<not> is_space (CHR ''='')"
  by code_simp+

lemma scan_lines_append:
  assumes "newline \<notin> set l" and "l = [] \<or> last l \<noteq> CHR 0x0D"
  shows "scan_lines (l @ newline # s) = l # scan_lines s"
  using assms by (cases s) (auto simp: scan_lines_def Let_def drop_cr_def split: list.splits)

lemma trim_space_id:
  assumes "l \<noteq> []" and "\<not> is_space (hd l)" and "\<not> is_space (last l)"
  shows "trim_space l = l"
proof -
  have "dropWhile is_space l = l" using assms(1,2) by (cases l) auto
  moreover have "dropWhile is_space (rev l) = rev l"
    using assms(1,3) by (cases "rev l") (auto simp: hd_rev [symmetric] hd_conv_nth)
  ultimately show ?thesis by (simp add: trim_space_def)
qed

lemma nat_str_last: "is_digit (last (nat_str n))"
  using nat_str_digits [of n] by (auto simp: list_all_iff)

lemma itoa_ends: "itoa n \<noteq> [] \<and> is_digit (last (itoa n)) \<and> newline \<notin> set (itoa n)"
proof -
  have "newline \<notin> set (nat_str m)" for m
    using nat_str_digits [of m] by (auto simp: list_all_iff newline_def is_digit_def)
  moreover have "newline \<noteq> CHR ''-''" by code_simp
  ultimately show ?thesis
    using nat_str_digits nat_str_last by (auto simp: itoa_def)
qed

lemma digit_plain: "is_digit c \<Longrightarrow> \<not> is_space c \<and> c \<noteq> CHR 0x0D"
  by (auto simp: is_digit_def is_space_def)

text \<open>One line of the file, read back.\<close>

lemma boot_state_line_assign:
  assumes "k \<in> {''target'', ''trial'', ''attempts''}" and "v = [] \<or> \<not> is_space (last v)"
  shows "boot_state_line b (k @ ''='' @ v) =
    (if k = ''target'' then b\<lparr>bs_target := v\<rparr> else if k = ''trial'' then b\<lparr>bs_trial := v = ''1''\<rparr>
     else b\<lparr>bs_attempts := atoi_value v\<rparr>)"
proof -
  have "\<not> is_space (hd (k @ ''='' @ v))" using assms(1) by (auto simp: is_space_def)
  moreover have "\<not> is_space (last (k @ ''='' @ v))" using assms(2) by (cases "v = []") simp_all
  ultimately have t: "trim_space (k @ ''='' @ v) = k @ ''='' @ v" by (intro trim_space_id) simp_all
  have "CHR ''='' \<notin> set k" using assms(1) by auto
  then have "str_cut (CHR ''='') (k @ ''='' @ v) = Some (k, v)" using str_cut_append by simp
  with t assms(1) show ?thesis unfolding boot_state_line_def by auto
qed

lemma parse_Marshal:
  assumes "boot_text_ok b"
  shows "parse_boot_state (Marshal b) = b"
proof -
  let ?l1 = "''target='' @ bs_target b" and ?l2 = "''trial='' @ (if bs_trial b then ''1'' else ''0'')"
  let ?l3 = "''attempts='' @ itoa (bs_attempts b)"
  have nl: "newline \<notin> set ''target=''" "newline \<notin> set ''trial=0''" "newline \<notin> set ''trial=1''" "newline \<notin> set ''attempts=''"
    by code_simp+
  have cr: "is_space (CHR 0x0D)" by code_simp
  have l1: "scan_lines (?l1 @ newline # s) = ?l1 # scan_lines s" for s
    using assms nl cr by (intro scan_lines_append) (auto simp: boot_text_ok_def)
  have l2: "scan_lines (?l2 @ newline # s) = ?l2 # scan_lines s" for s
    using nl by (intro scan_lines_append) auto
  have l3: "scan_lines (?l3 @ newline # s) = ?l3 # scan_lines s" for s
    using itoa_ends [of "bs_attempts b"] nl(4) digit_plain by (intro scan_lines_append) auto
  have "scan_lines [] = []" by code_simp
  then have lines: "scan_lines (Marshal b) = [?l1, ?l2, ?l3]"
    using l1 [of "?l2 @ newline # ?l3 @ [newline]"] l2 [of "?l3 @ [newline]"] l3 [of "[]"] by (simp add: Marshal_def)
  have at: "atoi_value (itoa (bs_attempts b)) = bs_attempts b"
    using assms by (simp add: boot_text_ok_def atoi_value_def)
  have s: "bs_target b = [] \<or> \<not> is_space (last (bs_target b))" using assms by (simp add: boot_text_ok_def)
  have s2: "\<not> is_space (CHR ''0'')" "\<not> is_space (CHR ''1'')" "\<not> is_space (last (itoa (bs_attempts b)))"
    using itoa_ends [of "bs_attempts b"] digit_plain by (auto simp: is_space_def)
  note line = boot_state_line_assign
  show ?thesis
    using line [of "''target''" "bs_target b", OF _ s] line [of "''trial''" "if bs_trial b then ''1'' else ''0''"]
      line [of "''attempts''" "itoa (bs_attempts b)"] s2 at
    by (simp add: parse_boot_state_def lines zero_boot_state_def)
qed

subsection \<open>The boot-state file as a durable store\<close>

definition boot_state_at :: "path \<Rightarrow> disk \<Rightarrow> boot_state option" where
  "boot_state_at p h = map_option parse_boot_state (file_data h p)"

definition boot_state_ok :: "path \<Rightarrow> boot_state \<Rightarrow> bool" where
  "boot_state_ok p b \<longleftrightarrow> p \<notin> dot_names \<and> boot_text_ok b"

lemma boot_state_at_new:
  "boot_text_ok b \<Longrightarrow> lookup h p = Some \<lparr>ino_data = Marshal b, ino_synced = x\<rparr> \<Longrightarrow> boot_state_at p h = Some b"
  by (simp add: boot_state_at_def file_data_def parse_Marshal)

lemma boot_state_at_cong: "lookup h p = lookup d p \<Longrightarrow> boot_state_at p h = boot_state_at p d"
  by (simp add: boot_state_at_def file_data_def)

lemma wp_quiet_dirsync:
  "wp (trying (open_dir dir) (\<lambda>r. case r of Inl e \<Rightarrow> ret () | Inr _ \<Rightarrow> ignoring (fsync_dir dir)))
     (\<lambda>r w'. quiet w w') w"
  by (auto simp: wp_simps sys_defs quiet_def split: option.splits)

lemma wp_WriteBootState:
  assumes wf: "wf_disk (w_disk w)" and p: "p \<notin> dot_names"
  shows "wp (WriteBootState p b) (\<lambda>r w'.
      evolves (replaced p \<lparr>ino_data = Marshal b, ino_synced = True\<rparr> (w_disk w)) w w' \<and>
      (r = Inr () \<longrightarrow> lookup (w_disk w') p = Some \<lparr>ino_data = Marshal b, ino_synced = True\<rparr>)) w"
proof -
  let ?put = "atomic_put (path_dir p) (''.'' @ path_base p @ ''.tmp-'') p (\<lambda>tmp. fwrite tmp (Marshal b))
        (trying (open_dir (path_dir p)) (\<lambda>r. case r of Inl e \<Rightarrow> ret () | Inr _ \<Rightarrow> ignoring (fsync_dir (path_dir p))))"
  have "wp (mkdir_all (path_dir p)) (\<lambda>r w'. quiet w w') w"
    by (auto simp: wp_simps sys_defs quiet_def split: option.splits)
  then show ?thesis
    unfolding WriteBootState_def Let_def
  proof (rule wp_seqEI)
    show "evolves (replaced p \<lparr>ino_data = Marshal b, ino_synced = True\<rparr> (w_disk w)) w w1 \<and>
        ((Inl e :: error + unit) = Inr () \<longrightarrow> lookup (w_disk w1) p = Some \<lparr>ino_data = Marshal b, ino_synced = True\<rparr>)"
      if "quiet w w1" for e w1
      using that wf by (simp add: quiet_def evolves_def replaced_def)
    show "wp ?put (\<lambda>r w'. evolves (replaced p \<lparr>ino_data = Marshal b, ino_synced = True\<rparr> (w_disk w)) w w' \<and>
        (r = Inr () \<longrightarrow> lookup (w_disk w') p = Some \<lparr>ino_data = Marshal b, ino_synced = True\<rparr>)) w1"
      if q: "quiet w w1" for w1
    proof -
      have d: "w_disk w1 = w_disk w" "w_history w1 = w_history w" using q by (simp_all add: quiet_def)
      have "wp ?put (\<lambda>r w'. evolves (replaced p \<lparr>ino_data = Marshal b, ino_synced = True\<rparr> (w_disk w1)) w1 w' \<and>
        (r = Inr () \<longrightarrow> lookup (w_disk w') p = Some \<lparr>ino_data = Marshal b, ino_synced = True\<rparr>)) w1"
        by (rule wp_atomic_put [OF _ _ p writes_to_fwrite wp_quiet_dirsync]) (simp_all add: has_prefix_def d wf)
      then show ?thesis by (simp add: evolves_def d)
    qed
  qed
qed

lemma calm_WriteBootState:
  assumes calm: "calm (Suc k) w" and p: "p \<notin> dot_names"
  shows "\<exists>w'. WriteBootState p b w = (Inr (), w') \<and> calm k w' \<and>
     lookup (w_disk w') = (lookup (w_disk w))(p := Some \<lparr>ino_data = Marshal b, ino_synced = True\<rparr>) \<and>
     w_urls w' = w_urls w \<and> w_hw w' = w_hw w"
proof -
  have nf: "w_faults w = []" using calm by (simp add: calm_def)
  then have "mkdir_all (path_dir p) w = (Inr (), w)" by (simp add: mkdir_all_def sys_call_def)
  then have "WriteBootState p b w = atomic_put (path_dir p) (''.'' @ path_base p @ ''.tmp-'') p (\<lambda>tmp. fwrite tmp (Marshal b))
      (trying (open_dir (path_dir p)) (\<lambda>r. case r of Inl e \<Rightarrow> ret () | Inr _ \<Rightarrow> ignoring (fsync_dir (path_dir p)))) w"
    by (simp add: WriteBootState_def Let_def seqE_def [of "mkdir_all _"] trying_def [of "mkdir_all _"])
  moreover have "\<exists>w'. atomic_put (path_dir p) (''.'' @ path_base p @ ''.tmp-'') p (\<lambda>tmp. fwrite tmp (Marshal b))
      (trying (open_dir (path_dir p)) (\<lambda>r. case r of Inl e \<Rightarrow> ret () | Inr _ \<Rightarrow> ignoring (fsync_dir (path_dir p)))) w
      = (Inr (), w') \<and> calm k w' \<and>
     lookup (w_disk w') = (lookup (w_disk w))(p := Some \<lparr>ino_data = Marshal b, ino_synced = True\<rparr>) \<and>
     w_urls w' = w_urls w \<and> w_hw w' = w_hw w"
    by (rule calm_atomic_put [OF calm _ p])
      (simp_all add: has_prefix_def trying_def sys_defs sys_call_def ret_def ignoring_def)
  ultimately show ?thesis by simp
qed

lemma calm_mono: "calm (Suc k) w \<Longrightarrow> calm k w"
  by (simp add: calm_def)

lemma ReadBootState_calm:
  "w_faults w = [] \<Longrightarrow> boot_state_at p (w_disk w) = Some b \<Longrightarrow> ReadBootState p w = (Inr b, w)"
  by (auto simp: ReadBootState_def boot_state_at_def file_data_def seqE_def trying_def sys_defs sys_call_def ret_def)

interpretation bstate: durable_store "boot_state_at p" "\<lambda>h. set_option (boot_state_at p h)" "boot_state_ok p"
  "\<lambda>b. b" "ReadBootState p" "WriteBootState p" "{p}" for p
proof unfold_locales
  show "wp (ReadBootState p) (\<lambda>r w'. quiet w w' \<and> (\<forall>s. r = Inr s \<longrightarrow> s \<in> set_option (boot_state_at p (w_disk w)))) w" for w
    by (auto simp: ReadBootState_def wp_simps sys_defs quiet_def boot_state_at_def file_data_def split: option.splits)
  show "ReadBootState p w = (Inr s, w)" if "w_faults w = []" "boot_state_at p (w_disk w) = Some s" for w s
    using that by (rule ReadBootState_calm)
  show "wp (WriteBootState p s) (\<lambda>r w'. evolves (\<lambda>h. wf_disk h \<and> boot_state_at p h \<in> {boot_state_at p (w_disk w), Some s} \<and>
          same_outside ({p} \<union> dot_names) (w_disk w) h) w w' \<and>
      (r = Inr () \<longrightarrow> boot_state_at p (w_disk w') = Some s)) w"
    if wf: "wf_disk (w_disk w)" and ok: "boot_state_ok p s" for w s
  proof (rule wp_mono [OF wp_WriteBootState [OF wf]])
    show "p \<notin> dot_names" using ok by (simp add: boot_state_ok_def)
    have rep: "wf_disk h \<and> boot_state_at p h \<in> {boot_state_at p (w_disk w), Some s} \<and>
          same_outside ({p} \<union> dot_names) (w_disk w) h"
      if "replaced p \<lparr>ino_data = Marshal s, ino_synced = True\<rparr> (w_disk w) h" for h
    proof -
      have "lookup h p = lookup (w_disk w) p \<or> lookup h p = Some \<lparr>ino_data = Marshal s, ino_synced = True\<rparr>"
        using that by (auto simp: replaced_def)
      then have "boot_state_at p h \<in> {boot_state_at p (w_disk w), Some s}"
        using boot_state_at_cong [of h p "w_disk w"] boot_state_at_new [of s h p] ok by (auto simp: boot_state_ok_def)
      then show ?thesis using that by (simp add: replaced_def)
    qed
    fix r :: "error + unit" and w'
    assume "evolves (replaced p \<lparr>ino_data = Marshal s, ino_synced = True\<rparr> (w_disk w)) w w' \<and>
      (r = Inr () \<longrightarrow> lookup (w_disk w') p = Some \<lparr>ino_data = Marshal s, ino_synced = True\<rparr>)"
    then show "evolves (\<lambda>h. wf_disk h \<and> boot_state_at p h \<in> {boot_state_at p (w_disk w), Some s} \<and>
          same_outside ({p} \<union> dot_names) (w_disk w) h) w w' \<and>
      (r = Inr () \<longrightarrow> boot_state_at p (w_disk w') = Some s)"
      using rep ok boot_state_at_new [of s "w_disk w'" p] by (auto simp: boot_state_ok_def elim!: evolves_mono)
  qed
  show "\<exists>w'. WriteBootState p s w = (Inr (), w') \<and> calm k w' \<and> boot_state_at p (w_disk w') = Some s \<and>
      same_outside {p} (w_disk w) (w_disk w') \<and> w_urls w' = w_urls w \<and> w_hw w' = w_hw w"
    if "calm (2 + k) w" "boot_state_ok p s" for w s k
  proof -
    have "calm (Suc (Suc k)) w" "p \<notin> dot_names" using that by (simp_all add: boot_state_ok_def)
    then obtain w' where w': "WriteBootState p s w = (Inr (), w')" "calm (Suc k) w'"
      "lookup (w_disk w') = (lookup (w_disk w))(p := Some \<lparr>ino_data = Marshal s, ino_synced = True\<rparr>)"
      "w_urls w' = w_urls w" "w_hw w' = w_hw w"
      using calm_WriteBootState by blast
    then have "boot_state_at p (w_disk w') = Some s"
      using that(2) by (intro boot_state_at_new) (simp_all add: boot_state_ok_def)
    with w' show ?thesis by (auto simp: same_outside_def intro: calm_mono)
  qed
qed

text \<open>The boot-state file the daemon writes is read back as the same slot, trial flag and
  attempt count, for every target name and every attempt count.\<close>

theorem boot_state_round_trip:
  assumes "boot_text_ok b"
  shows "parse_boot_state (Marshal b) = b"
  using assms by (rule parse_Marshal)

lemma boot_state_round_trip_witness:
  "parse_boot_state (Marshal \<lparr>bs_target = ''next'', bs_trial = True, bs_attempts = 3\<rparr>)
   = \<lparr>bs_target = ''next'', bs_trial = True, bs_attempts = 3\<rparr>"
proof -
  have "boot_text_ok \<lparr>bs_target = ''next'', bs_trial = True, bs_attempts = 3\<rparr>" by code_simp
  then show ?thesis by (rule boot_state_round_trip)
qed

text \<open>The file that decides which slot boots is never torn: whatever fails while it is
  written, the boot state read from every disk on the way is the old one or the new one.\<close>

theorem WriteBootState_atomic:
  assumes "wf_disk (w_disk w)" and "boot_state_ok p b" and "WriteBootState p b w = (r, w')"
  shows "evolves (\<lambda>h. boot_state_at p h \<in> {boot_state_at p (w_disk w), Some b} \<and>
           same_outside ({p} \<union> dot_names) (w_disk w) h) w w' \<and>
         (r = Inr () \<longrightarrow> boot_state_at p (w_disk w') = Some b)"
  using wpD [OF bstate.put_atomic [OF assms(1,2)] assms(3)] by (auto elim!: evolves_mono)

lemma WriteBootState_atomic_witness:
  "evolves (\<lambda>h. boot_state_at [''esp'', ''boot-state''] h \<in> {None, Some \<lparr>bs_target = ''next'', bs_trial = True, bs_attempts = 3\<rparr>})
     (world_of empty_disk) (snd (WriteBootState [''esp'', ''boot-state''] \<lparr>bs_target = ''next'', bs_trial = True, bs_attempts = 3\<rparr> (world_of empty_disk)))"
proof -
  have "boot_text_ok \<lparr>bs_target = ''next'', bs_trial = True, bs_attempts = 3\<rparr>" by code_simp
  moreover have "[''esp'', ''boot-state''] \<notin> dot_names" by (simp add: dot_names_def has_prefix_def)
  ultimately have ok: "boot_state_ok [''esp'', ''boot-state''] \<lparr>bs_target = ''next'', bs_trial = True, bs_attempts = 3\<rparr>"
    by (simp add: boot_state_ok_def)
  have "boot_state_at [''esp'', ''boot-state''] empty_disk = None"
    by (simp add: boot_state_at_def file_data_def lookup_def empty_disk_def)
  moreover have "wf_disk (w_disk (world_of empty_disk))" by simp
  ultimately show ?thesis
    using WriteBootState_atomic [OF _ ok prod.collapse [symmetric], of "world_of empty_disk"]
    by (auto elim!: evolves_mono)
qed

subsection \<open>Copying and linking a slot file\<close>

text \<open>\<open>slot_copied src dst d h\<close>: \<open>dst\<close> holds what it held on \<open>d\<close> or what \<open>src\<close> held
  there, nothing else has changed. Both helpers only pass through such disks.\<close>

definition slot_copied :: "path \<Rightarrow> path \<Rightarrow> disk \<Rightarrow> disk \<Rightarrow> bool" where
  "slot_copied src dst d h \<longleftrightarrow> wf_disk h \<and> same_outside ({dst} \<union> dot_names) d h \<and>
     file_data h dst \<in> {file_data d dst, file_data d src}"

lemma slot_copied_refl: "wf_disk d \<Longrightarrow> slot_copied src dst d d"
  by (simp add: slot_copied_def)

lemma file_data_cong: "lookup h p = lookup d p \<Longrightarrow> file_data h p = file_data d p"
  by (simp add: file_data_def)

lemma wp_syncDir: "wp (syncDir dir) (\<lambda>r w'. quiet w w') w"
  by (auto simp: syncDir_def wp_simps sys_defs quiet_def split: option.splits)

lemma writes_to_read_all:
  assumes "j < dk_next d" and "ino_data (dk_inodes d j) = s"
  shows "writes_to d s (\<lambda>out. seqE (read_all j) (\<lambda>s. fwrite out s))"
  unfolding writes_to_def
proof (intro allI impI)
  fix t i p w0 and w :: world
  let ?P = "\<lambda>w. owned t i \<lparr>ino_data = [], ino_synced = False\<rparr> d (w_disk w) \<and>
      evolves (replaced p \<lparr>ino_data = s, ino_synced = True\<rparr> d) w0 w"
  assume own: "owned t i \<lparr>ino_data = [], ino_synced = False\<rparr> d (w_disk w)"
    and ev: "evolves (replaced p \<lparr>ino_data = s, ino_synced = True\<rparr> d) w0 w" and p: "p \<notin> dot_names"
  have j: "ino_data (dk_inodes (w_disk w) j) = s" using own assms by (simp add: owned_def)
  have rd: "wp (read_all j) (\<lambda>r w'. ?P w' \<and> (\<forall>x. r = Inr x \<longrightarrow> x = s)) w"
    using own ev j by (auto simp: read_all_def wp_simps split: option.splits)
  show "wp (seqE (read_all j) (\<lambda>s. fwrite i s)) (\<lambda>r w'. evolves (replaced p \<lparr>ino_data = s, ino_synced = True\<rparr> d) w0 w' \<and>
       (\<exists>n'. owned t i n' d (w_disk w') \<and> (r = Inr () \<longrightarrow> n' = \<lparr>ino_data = s, ino_synced = False\<rparr>))) w"
  proof (rule wp_seqEI [OF rd])
    fix x w' assume x: "?P w' \<and> (\<forall>y. Inr x = Inr y \<longrightarrow> y = s)"
    then have "x = s" by simp
    with x p writes_to_fwrite [of d s]
    show "wp (fwrite i x) (\<lambda>r w'. evolves (replaced p \<lparr>ino_data = s, ino_synced = True\<rparr> d) w0 w' \<and>
       (\<exists>n'. owned t i n' d (w_disk w') \<and> (r = Inr () \<longrightarrow> n' = \<lparr>ino_data = s, ino_synced = False\<rparr>))) w'"
      by (simp add: writes_to_def)
  qed auto
qed

lemma replaced_slot_copied:
  assumes "replaced dst \<lparr>ino_data = s, ino_synced = b\<rparr> d h" and "file_data d src = Some s"
  shows "slot_copied src dst d h"
  using assms by (auto simp: replaced_def slot_copied_def file_data_def)

lemma wp_copyFileSync:
  assumes wf: "wf_disk (w_disk w)" and dst: "dst \<notin> dot_names"
  shows "wp (copyFileSync src dst) (\<lambda>r w'. evolves (slot_copied src dst (w_disk w)) w w' \<and>
     (r = Inr () \<longrightarrow> file_data (w_disk w') dst = file_data (w_disk w) src \<and> file_data (w_disk w) src \<noteq> None)) w"
  unfolding copyFileSync_def
proof (rule wp_seqEI)
  show "wp (open_read src) (\<lambda>r w'. quiet w w' \<and> (\<forall>i. r = Inr i \<longrightarrow> dk_names (w_disk w) src = Some i)) w"
    by (auto simp: open_read_def wp_simps quiet_def split: option.splits)
next
  fix e :: error and w1 :: world
  assume "quiet w w1 \<and> (\<forall>i. Inl e = Inr i \<longrightarrow> dk_names (w_disk w) src = Some i)"
  then show "evolves (slot_copied src dst (w_disk w)) w w1 \<and>
      ((Inl e :: error + unit) = Inr () \<longrightarrow> file_data (w_disk w1) dst = file_data (w_disk w) src \<and> file_data (w_disk w) src \<noteq> None)"
    using wf by (simp add: quiet_def evolves_def slot_copied_refl)
next
  fix j and w1 :: world
  assume "quiet w w1 \<and> (\<forall>i. Inr j = Inr i \<longrightarrow> dk_names (w_disk w) src = Some i)"
  then have q: "w_disk w1 = w_disk w" "w_history w1 = w_history w" and j: "dk_names (w_disk w) src = Some j"
    by (simp_all add: quiet_def)
  define s where "s = ino_data (dk_inodes (w_disk w) j)"
  have src: "file_data (w_disk w) src = Some s" using j by (simp add: file_data_def lookup_def s_def)
  have lt: "j < dk_next (w_disk w1)" using j wf q by (simp add: wf_disk_def)
  have "wp (atomic_put (path_dir dst) (''.'' @ path_base dst @ ''.tmp-'') dst
        (\<lambda>out. seqE (read_all j) (\<lambda>s. fwrite out s)) (syncDir (path_dir dst)))
      (\<lambda>r w'. evolves (replaced dst \<lparr>ino_data = s, ino_synced = True\<rparr> (w_disk w1)) w1 w' \<and>
        (r = Inr () \<longrightarrow> lookup (w_disk w') dst = Some \<lparr>ino_data = s, ino_synced = True\<rparr>)) w1"
    by (rule wp_atomic_put [OF _ _ dst writes_to_read_all wp_syncDir])
      (use wf q lt in \<open>simp_all add: has_prefix_def s_def\<close>)
  then have "wp (atomic_put (path_dir dst) (''.'' @ path_base dst @ ''.tmp-'') dst
        (\<lambda>out. seqE (read_all j) (\<lambda>s. fwrite out s)) (syncDir (path_dir dst)))
      (\<lambda>r w'. evolves (slot_copied src dst (w_disk w)) w w' \<and>
        (r = Inr () \<longrightarrow> file_data (w_disk w') dst = file_data (w_disk w) src \<and> file_data (w_disk w) src \<noteq> None)) w1"
  proof (rule wp_mono)
    fix r :: "error + unit" and w'
    assume a: "evolves (replaced dst \<lparr>ino_data = s, ino_synced = True\<rparr> (w_disk w1)) w1 w' \<and>
        (r = Inr () \<longrightarrow> lookup (w_disk w') dst = Some \<lparr>ino_data = s, ino_synced = True\<rparr>)"
    have "evolves (slot_copied src dst (w_disk w)) w1 w'"
      using a q src by (auto elim!: evolves_mono intro: replaced_slot_copied)
    then show "evolves (slot_copied src dst (w_disk w)) w w' \<and>
        (r = Inr () \<longrightarrow> file_data (w_disk w') dst = file_data (w_disk w) src \<and> file_data (w_disk w) src \<noteq> None)"
      using a src q by (auto simp: evolves_def file_data_def)
  qed
  then show "wp (let dir = path_dir dst in atomic_put dir (''.'' @ path_base dst @ ''.tmp-'') dst
        (\<lambda>out. seqE (read_all j) (\<lambda>s. fwrite out s)) (syncDir dir))
      (\<lambda>r w'. evolves (slot_copied src dst (w_disk w)) w w' \<and>
        (r = Inr () \<longrightarrow> file_data (w_disk w') dst = file_data (w_disk w) src \<and> file_data (w_disk w) src \<noteq> None)) w1"
    by (simp add: Let_def)
qed

lemma lookup_rename_dst: "tmp \<noteq> dst \<Longrightarrow> lookup (rename_disk tmp dst h) dst = lookup h tmp"
  by (simp add: lookup_rename_disk) (simp add: lookup_def)

text \<open>The hard-link variant: the temporary name is a second link to the source's inode.\<close>

lemma wp_link_tail:
  assumes ev: "evolves (slot_copied src dst d) w0 w" and tmp: "tmp \<in> dot_names" and dst: "dst \<notin> dot_names"
    and l: "lookup (w_disk w) tmp = lookup d src" "lookup d src \<noteq> None"
  shows "wp (deferred (seqE (rename tmp dst) (\<lambda>_. syncDir dir)) (remove tmp))
     (\<lambda>r w'. evolves (slot_copied src dst d) w0 w' \<and>
       (r = Inr () \<longrightarrow> file_data (w_disk w') dst = file_data d src \<and> file_data d src \<noteq> None)) w"
proof -
  let ?P = "slot_copied src dst d"
  have ne: "tmp \<noteq> dst" using tmp dst by blast
  have now: "?P (w_disk w)" using evolves_final [OF ev] .
  have to_dst: "lookup (rename_disk tmp dst (w_disk w)) dst = lookup d src"
    using ne l(1) by (simp add: lookup_rename_dst)
  have "lookup (rename_disk tmp dst (w_disk w)) q = lookup d q" if "q \<notin> {dst} \<union> dot_names" for q
    using that now tmp by (auto simp: slot_copied_def same_outside_def lookup_rename_disk)
  then have "?P (rename_disk tmp dst (w_disk w))" "file_data (rename_disk tmp dst (w_disk w)) dst = file_data d src"
    using now to_dst by (simp_all add: slot_copied_def same_outside_def file_data_def)
  then have ren: "wp (rename tmp dst) (\<lambda>r w'. evolves ?P w0 w' \<and> (r = Inr () \<longrightarrow> file_data (w_disk w') dst = file_data d src)) w"
    using ev by (auto simp: wp_simps sys_defs split: option.splits)
  have sync: "wp (seqE (rename tmp dst) (\<lambda>_. syncDir dir)) (\<lambda>r w'. evolves ?P w0 w' \<and> (r = Inr () \<longrightarrow> file_data (w_disk w') dst = file_data d src)) w"
    by (rule wp_seqEI [OF ren]) (auto intro!: wp_mono [OF wp_syncDir] simp: quiet_def evolves_def)
  have rm: "wp (remove tmp) (\<lambda>_ w'. evolves ?P w0 w' \<and> file_data (w_disk w') dst = file_data (w_disk w1) dst) w1"
    if "evolves ?P w0 w1" for w1
  proof -
    have "?P ((w_disk w1)\<lparr>dk_names := (dk_names (w_disk w1))(tmp := None)\<rparr>)"
      using evolves_final [OF that] tmp ne
      by (auto simp: slot_copied_def same_outside_def lookup_unlink file_data_def)
    then show ?thesis
      using that ne by (auto simp: wp_simps sys_defs file_data_def lookup_unlink split: option.splits)
  qed
  have "file_data d src \<noteq> None" using l(2) by (simp add: file_data_def)
  then show ?thesis
    by (intro wp_deferredI [OF sync]) (auto intro!: wp_mono [OF rm])
qed

lemma wp_linkFileSync:
  assumes wf: "wf_disk (w_disk w)" and dst: "dst \<notin> dot_names" and src: "src \<notin> dot_names"
  shows "wp (linkFileSync src dst) (\<lambda>r w'. evolves (slot_copied src dst (w_disk w)) w w' \<and>
     (r = Inr () \<longrightarrow> file_data (w_disk w') dst = file_data (w_disk w) src \<and> file_data (w_disk w) src \<noteq> None)) w"
proof -
  let ?d = "w_disk w" and ?P = "slot_copied src dst (w_disk w)"
  let ?Q = "\<lambda>r w'. evolves ?P w w' \<and> (r = Inr () \<longrightarrow> file_data (w_disk w') dst = file_data ?d src \<and> file_data ?d src \<noteq> None)"
  let ?same = "\<lambda>tmp w'. evolves ?P w w' \<and> (\<forall>q. q \<noteq> tmp \<longrightarrow> lookup (w_disk w') q = lookup ?d q)"
  have keep: "?P h" if "wf_disk h" "tmp \<in> dot_names" "\<forall>q. q \<noteq> tmp \<longrightarrow> lookup h q = lookup ?d q" for h tmp
    using that dst by (auto simp: slot_copied_def same_outside_def file_data_def)
  have rm: "wp (remove tmp) (\<lambda>r w'. ?same tmp w') w1" if s: "?same tmp w1" and tmp: "tmp \<in> dot_names" for tmp w1
  proof -
    have "wf_disk (w_disk w1)" using s by (auto dest!: evolves_final simp: slot_copied_def)
    then have "?P ((w_disk w1)\<lparr>dk_names := (dk_names (w_disk w1))(tmp := None)\<rparr>)"
      using s tmp by (intro keep) (auto simp: lookup_unlink)
    then show ?thesis using s by (auto simp: wp_simps sys_defs lookup_unlink split: option.splits)
  qed
  have lk: "wp (link src tmp) (\<lambda>r w'. evolves ?P w w' \<and> (r = Inr () \<longrightarrow> lookup (w_disk w') tmp = lookup ?d src \<and> lookup ?d src \<noteq> None)) w1"
    if s: "?same tmp w1" and tmp: "tmp \<in> dot_names" for tmp w1
  proof -
    have wf1: "wf_disk (w_disk w1)" using s by (auto dest!: evolves_final simp: slot_copied_def)
    have ne: "src \<noteq> tmp" using tmp src by blast
    have "?P ((w_disk w1)\<lparr>dk_names := (dk_names (w_disk w1))(tmp := Some i)\<rparr>)"
      "Some (dk_inodes (w_disk w1) i) = lookup ?d src" if "dk_names (w_disk w1) src = Some i" for i
      using s tmp wf1 that ne by (auto intro!: keep simp: lookup_link lookup_def [of "w_disk w1" src, symmetric] dest: spec [of _ src])
        (metis lookup_def option.simps(9))
    then show ?thesis
      using s by (auto simp: wp_simps sys_defs lookup_link split: option.splits) (metis option.distinct(1))+
  qed
  show ?thesis
    unfolding linkFileSync_def Let_def
  proof (rule wp_seqEI [OF wp_create_temp [OF wf]])
    show "has_prefix ''.'' (''.'' @ path_base dst @ ''.link-'')" by (simp add: has_prefix_def)
    show "?Q (Inl e) w1" if "case Inl e :: error + path \<times> nat of Inl e \<Rightarrow> quiet w w1
        | Inr (t, i) \<Rightarrow> owned t i \<lparr>ino_data = [], ino_synced = False\<rparr> ?d (w_disk w1) \<and> w_history w1 = w_disk w1 # w_history w" for e w1
      using that wf by (simp add: quiet_def evolves_def slot_copied_refl)
  next
    fix x :: "path \<times> nat" and w1
    obtain tmp i where x: "x = (tmp, i)" by (cases x)
    assume "case Inr x :: error + path \<times> nat of Inl e \<Rightarrow> quiet w w1
        | Inr (t, i) \<Rightarrow> owned t i \<lparr>ino_data = [], ino_synced = False\<rparr> ?d (w_disk w1) \<and> w_history w1 = w_disk w1 # w_history w"
    then have own: "owned tmp i \<lparr>ino_data = [], ino_synced = False\<rparr> ?d (w_disk w1)"
      and h: "w_history w1 = w_disk w1 # w_history w" by (simp_all add: x)
    have tmp: "tmp \<in> dot_names" and out: "\<forall>q. q \<noteq> tmp \<longrightarrow> lookup (w_disk w1) q = lookup ?d q"
      using own by (simp_all add: owned_def)
    have "?P (w_disk w1)" by (rule keep [OF _ tmp out]) (use own in \<open>simp add: owned_def\<close>)
    then have same1: "?same tmp w1" using h out by (auto simp: evolves_def)
    have fc: "wp (fclose i) (\<lambda>r w'. ?same tmp w') w1"
      using same1 by (auto simp: wp_simps sys_defs split: option.splits)
    have linked: "wp (seqE (link src tmp) (\<lambda>_.
        deferred (seqE (rename tmp dst) (\<lambda>_. syncDir (path_dir dst))) (remove tmp))) ?Q w2" if "?same tmp w2" for w2
      by (rule wp_seqEI [OF lk [OF that tmp]]) (simp, rule wp_link_tail [OF _ tmp dst], simp_all)
    have tail: "wp (seqE (remove tmp) (\<lambda>_. seqE (link src tmp) (\<lambda>_.
        deferred (seqE (rename tmp dst) (\<lambda>_. syncDir (path_dir dst))) (remove tmp)))) ?Q w2" if "?same tmp w2" for w2
      by (rule wp_seqEI [OF rm [OF that tmp]]) (simp, rule linked)
    have "wp (trying (fclose i) (\<lambda>r. case r of Inl e \<Rightarrow> trying (remove tmp) (\<lambda>_. throw e)
        | Inr _ \<Rightarrow> seqE (remove tmp) (\<lambda>_. seqE (link src tmp) (\<lambda>_.
            deferred (seqE (rename tmp dst) (\<lambda>_. syncDir (path_dir dst))) (remove tmp))))) ?Q w1"
    proof (rule wp_tryingI [OF fc])
      fix r :: "error + unit" and w2 assume s: "?same tmp w2"
      have "wp (trying (remove tmp) (\<lambda>_. throw e)) ?Q w2" for e
        by (rule wp_tryingI [OF rm [OF s tmp]]) (simp add: wp_throw)
      then show "wp (case r of Inl e \<Rightarrow> trying (remove tmp) (\<lambda>_. throw e)
        | Inr _ \<Rightarrow> seqE (remove tmp) (\<lambda>_. seqE (link src tmp) (\<lambda>_.
            deferred (seqE (rename tmp dst) (\<lambda>_. syncDir (path_dir dst))) (remove tmp)))) ?Q w2"
        using tail [OF s] by (simp split: sum.splits)
    qed
    then show "wp (case x of (tmp, reservation) \<Rightarrow> trying (fclose reservation) (\<lambda>r. case r of Inl e \<Rightarrow> trying (remove tmp) (\<lambda>_. throw e)
        | Inr _ \<Rightarrow> seqE (remove tmp) (\<lambda>_. seqE (link src tmp) (\<lambda>_.
            deferred (seqE (rename tmp dst) (\<lambda>_. syncDir (path_dir dst))) (remove tmp))))) ?Q w1"
      by (simp add: x)
  qed
qed

subsection \<open>Promotion under faults\<close>

lemma quietly_slots [simp]:
  "quietly (open_read p)" "quietly (read_all i)" "quietly (nonEmpty p)" "quietly (sameFileContent sha256 p q)"
  "quietly (sameFileIdentity p q)"
proof -
  show r: "quietly (open_read p)" "quietly (read_all i)" for p i
    by (auto simp: quietly_def quiet_def wp_simps open_read_def read_all_def split: option.splits)
  show "quietly (nonEmpty p)" by (auto simp: nonEmpty_def intro!: quietly_intros)
  show "quietly (sameFileContent sha256 p q)"
    by (auto simp: sameFileContent_def r intro!: quietly_intros split: sum.splits)
  show "quietly (sameFileIdentity p q)"
    by (auto simp: sameFileIdentity_def intro!: quietly_intros split: sum.splits prod.splits)
qed

lemma quietly_count_staged [simp]: "quietly (count_staged g ss)"
  by (induction ss) (auto intro!: quietly_intros)

lemma quietly_preflightSlots [simp]: "quietly (preflightSlots gs)"
  by (auto simp: preflightSlots_def preflight_file_def intro!: quietly_intros)

text \<open>
  What a promotion does to one file of a group, seen from the disk \<open>d\<close> it began on: nothing,
  or the old active file is also kept as the previous one, or the candidate is active as well.
\<close>

definition slot_names :: "slot_group \<times> string \<Rightarrow> path set" where
  "slot_names = (\<lambda>(g, s). {slot_file g SlotActive s, slot_file g SlotPrev s})"

definition promoting :: "disk \<Rightarrow> slot_group \<times> string \<Rightarrow> disk \<Rightarrow> bool" where
  "promoting d = (\<lambda>(g, s) h.
     (let a = file_data d (slot_file g SlotActive s); p = file_data d (slot_file g SlotPrev s);
          n = file_data d (slot_file g SlotNext s)
      in (file_data h (slot_file g SlotActive s), file_data h (slot_file g SlotPrev s)) \<in> {(a, p), (a, a), (n, a)}))"

definition plain_slot :: "slot_group \<times> string \<Rightarrow> bool" where
  "plain_slot = (\<lambda>(g, s). sg_prefix g \<noteq> [] \<and> \<not> has_prefix ''.'' (sg_prefix g))"

lemma slot_file_not_dot: "plain_slot (g, s) \<Longrightarrow> slot_file g sl s \<notin> dot_names"
  by (auto simp: plain_slot_def slot_file_def dot_names_join_iff has_prefix_iff neq_Nil_conv)

lemma slot_file_inj [simp]: "slot_file g sl s = slot_file g sl' s \<longleftrightarrow> sl = sl'"
proof
  assume "slot_file g sl s = slot_file g sl' s"
  then have "slot_name sl = slot_name sl'" by (simp add: slot_file_def)
  then show "sl = sl'" by (cases sl; cases sl') simp_all
qed simp

definition promote_disk :: "slot_group \<times> string \<Rightarrow> disk \<Rightarrow> disk \<Rightarrow> bool" where
  "promote_disk f d h \<longleftrightarrow> wf_disk h \<and> same_outside (slot_names f \<union> dot_names) d h \<and> promoting d f h"

lemma promoting_refl [simp]: "promoting d f d"
  by (auto simp: promoting_def Let_def split: prod.splits)

text \<open>Two moves, active to previous and next to active, by one of the two copying helpers.\<close>

lemma wp_two_moves:
  assumes f: "plain_slot (g, s)" and wf: "wf_disk (w_disk w)"
    and mv: "\<And>src dst w. wf_disk (w_disk w) \<Longrightarrow> dst \<notin> dot_names \<Longrightarrow> src \<notin> dot_names \<Longrightarrow>
      wp (mv src dst) (\<lambda>r w'. evolves (slot_copied src dst (w_disk w)) w w' \<and>
        (r = Inr () \<longrightarrow> file_data (w_disk w') dst = file_data (w_disk w) src \<and> file_data (w_disk w) src \<noteq> None)) w"
  shows "wp (seqE (wrapE e1 (mv (slot_file g SlotActive s) (slot_file g SlotPrev s))) (\<lambda>_.
               wrapE e2 (mv (slot_file g SlotNext s) (slot_file g SlotActive s))))
     (\<lambda>r w'. evolves (promote_disk (g, s) (w_disk w)) w w' \<and>
        (r = Inr () \<longrightarrow> file_data (w_disk w') (slot_file g SlotActive s) = file_data (w_disk w) (slot_file g SlotNext s) \<and>
                      file_data (w_disk w') (slot_file g SlotPrev s) = file_data (w_disk w) (slot_file g SlotActive s))) w"
proof -
  let ?a = "slot_file g SlotActive s" and ?p = "slot_file g SlotPrev s" and ?n = "slot_file g SlotNext s"
  let ?d = "w_disk w"
  note nd = slot_file_not_dot [OF f]
  have wrap: "wp (wrapE e m) Q w" if "wp m Q w" "\<And>e e' w'. Q (Inl e) w' \<Longrightarrow> Q (Inl e') w'" for e m Q and w :: world
    using that(1) by (simp add: wp_wrapE) (erule wp_mono, use that(2) in \<open>auto split: sum.splits\<close>)
  have keep1: "promote_disk (g, s) ?d h \<and> file_data h ?a = file_data ?d ?a \<and> file_data h ?n = file_data ?d ?n"
    if "slot_copied ?a ?p ?d h" for h
  proof -
    have "file_data h ?a = file_data ?d ?a" "file_data h ?n = file_data ?d ?n"
      using that nd by (auto simp: slot_copied_def same_outside_def intro!: file_data_cong)
    with that show ?thesis
      by (auto simp: slot_copied_def promote_disk_def promoting_def slot_names_def Let_def
          elim!: same_outside_mono)
  qed
  have m1: "wp (wrapE e1 (mv ?a ?p)) (\<lambda>r w'. evolves (slot_copied ?a ?p ?d) w w' \<and>
      (r = Inr () \<longrightarrow> file_data (w_disk w') ?p = file_data ?d ?a)) w"
    by (rule wrap, rule wp_mono [OF mv [OF wf nd nd]]) auto
  show ?thesis
  proof (rule wp_seqEI [OF m1])
    fix e :: error and w1
    assume "evolves (slot_copied ?a ?p ?d) w w1 \<and> ((Inl e :: error + unit) = Inr () \<longrightarrow> file_data (w_disk w1) ?p = file_data ?d ?a)"
    then show "evolves (promote_disk (g, s) ?d) w w1 \<and> ((Inl e :: error + unit) = Inr () \<longrightarrow>
        file_data (w_disk w1) ?a = file_data ?d ?n \<and> file_data (w_disk w1) ?p = file_data ?d ?a)"
      using keep1 by (auto elim!: evolves_mono)
  next
    fix x :: unit and w1
    assume "evolves (slot_copied ?a ?p ?d) w w1 \<and> (Inr x = Inr () \<longrightarrow> file_data (w_disk w1) ?p = file_data ?d ?a)"
    then have ev: "evolves (slot_copied ?a ?p ?d) w w1" and p1: "file_data (w_disk w1) ?p = file_data ?d ?a" by auto
    then have ev1: "evolves (promote_disk (g, s) ?d) w w1" using keep1 by (auto elim!: evolves_mono)
    have c1: "slot_copied ?a ?p ?d (w_disk w1)" using evolves_final [OF ev] .
    then have wf1: "wf_disk (w_disk w1)" by (simp add: slot_copied_def)
    have keep2: "promote_disk (g, s) ?d h \<and> file_data h ?p = file_data ?d ?a" if "slot_copied ?n ?a (w_disk w1) h" for h
    proof -
      have "file_data h ?p = file_data (w_disk w1) ?p"
        using that nd by (auto simp: slot_copied_def same_outside_def intro!: file_data_cong)
      moreover have "same_outside (slot_names (g, s) \<union> dot_names) ?d h"
        using c1 that by (auto simp: slot_copied_def slot_names_def same_outside_def)
      ultimately show ?thesis
        using that keep1 [OF c1] p1 by (auto simp: slot_copied_def promote_disk_def promoting_def Let_def)
    qed
    show "wp (wrapE e2 (mv ?n ?a)) (\<lambda>r w'. evolves (promote_disk (g, s) ?d) w w' \<and>
        (r = Inr () \<longrightarrow> file_data (w_disk w') ?a = file_data ?d ?n \<and> file_data (w_disk w') ?p = file_data ?d ?a)) w1"
    proof (rule wrap, rule wp_mono [OF mv [OF wf1 nd nd]])
      fix r :: "error + unit" and w'
      assume r: "evolves (slot_copied ?n ?a (w_disk w1)) w1 w' \<and>
        (r = Inr () \<longrightarrow> file_data (w_disk w') ?a = file_data (w_disk w1) ?n \<and> file_data (w_disk w1) ?n \<noteq> None)"
      then have "evolves (promote_disk (g, s) ?d) w1 w'" using keep2 by (auto elim!: evolves_mono)
      then have "evolves (promote_disk (g, s) ?d) w w'" by (rule evolves_trans [OF ev1])
      moreover have "file_data (w_disk w') ?p = file_data ?d ?a" using r keep2 by (auto dest!: evolves_final)
      ultimately show "evolves (promote_disk (g, s) ?d) w w' \<and>
        (r = Inr () \<longrightarrow> file_data (w_disk w') ?a = file_data ?d ?n \<and> file_data (w_disk w') ?p = file_data ?d ?a)"
        using r keep1 [OF c1] by auto
    qed auto
  qed
qed

lemma wp_promote_file:
  assumes f: "plain_slot (g, s)" and wf: "wf_disk (w_disk w)"
  shows "wp (promote_file sha256 g s) (\<lambda>r w'. evolves (promote_disk (g, s) (w_disk w)) w w') w"
proof -
  let ?Q = "\<lambda>w w'. evolves (promote_disk (g, s) (w_disk w)) w w'"
  have q: "?Q w1 w'" if "quiet w1 w'" "wf_disk (w_disk w1)" for w1 w'
    using that by (simp add: quiet_def evolves_def promote_disk_def)
  have qq: "?Q w1 w2 \<Longrightarrow> quiet w w1 \<Longrightarrow> ?Q w w2" for w1 w2 by (simp add: evolves_def quiet_def)
  have copy: "wp (seqE (wrapE e1 (copyFileSync (slot_file g SlotActive s) (slot_file g SlotPrev s))) (\<lambda>_.
               wrapE e2 (copyFileSync (slot_file g SlotNext s) (slot_file g SlotActive s)))) (\<lambda>r w'. ?Q w1 w') w1"
    if "wf_disk (w_disk w1)" for e1 e2 w1
    by (rule wp_mono [OF wp_two_moves [OF f that wp_copyFileSync]]) auto
  have lnk: "wp (seqE (wrapE e1 (linkFileSync (slot_file g SlotActive s) (slot_file g SlotPrev s))) (\<lambda>_.
               wrapE e2 (linkFileSync (slot_file g SlotNext s) (slot_file g SlotActive s)))) (\<lambda>r w'. ?Q w1 w') w1"
    if "wf_disk (w_disk w1)" for e1 e2 w1
    by (rule wp_mono [OF wp_two_moves [OF f that wp_linkFileSync]]) auto
  have after: "wp (seqE m k) (\<lambda>r w'. ?Q w1 w') w1"
    if "quietly m" "wf_disk (w_disk w1)" "\<And>x w2. wf_disk (w_disk w2) \<Longrightarrow> wp (k x) (\<lambda>r w'. ?Q w2 w') w2"
    for m :: "bool io" and k :: "bool \<Rightarrow> unit io" and w1
  proof (rule wp_seqEI [OF quietlyD [OF that(1)]])
    show "?Q w1 w2" if "quiet w1 w2" for e :: error and w2 using q that \<open>wf_disk (w_disk w1)\<close> by blast
    fix x w2 assume qt: "quiet w1 w2"
    then have "wf_disk (w_disk w2)" using that(2) by (simp add: quiet_def)
    from wp_mono [OF that(3) [OF this, of x]]
    show "wp (k x) (\<lambda>r w'. ?Q w1 w') w2" using qt by (auto simp: evolves_def quiet_def elim: wp_mono)
  qed
  show ?thesis
    unfolding promote_file_def Let_def
    by (rule after [OF _ wf])
      (auto simp: wp_ret promote_disk_def intro!: after copy lnk)
qed

text \<open>The whole run, file by file.\<close>

definition slot_list :: "slot_group list \<Rightarrow> (slot_group \<times> string) list" where
  "slot_list gs = concat (map (\<lambda>g. map (Pair g) (sg_suffixes g)) gs)"

definition promote_disks :: "(slot_group \<times> string) list \<Rightarrow> disk \<Rightarrow> disk \<Rightarrow> bool" where
  "promote_disks fs d h \<longleftrightarrow> wf_disk h \<and> same_outside (\<Union> (slot_names ` set fs) \<union> dot_names) d h \<and>
     (\<forall>f \<in> set fs. promoting d f h)"

definition separate :: "(slot_group \<times> string) list \<Rightarrow> bool" where
  "separate fs \<longleftrightarrow> distinct fs \<and> list_all plain_slot fs \<and>
     (\<forall>f \<in> set fs. \<forall>g \<in> set fs. f \<noteq> g \<longrightarrow>
        (slot_names f \<union> {slot_file (fst f) SlotNext (snd f)}) \<inter> slot_names g = {})"

lemma promoting_cong:
  assumes "\<And>sl. lookup h (slot_file g sl s) = lookup h' (slot_file g sl s)"
    and "\<And>sl. lookup d (slot_file g sl s) = lookup d' (slot_file g sl s)"
  shows "promoting d (g, s) h = promoting d' (g, s) h'"
  using assms by (simp add: promoting_def file_data_def)

lemma wp_promote_list:
  assumes "separate fs" and "wf_disk (w_disk w)"
  shows "wp (for_each fs (\<lambda>(g, s). promote_file sha256 g s)) (\<lambda>r w'. evolves (promote_disks fs (w_disk w)) w w') w"
  using assms
proof (induction fs arbitrary: w)
  case Nil
  then show ?case by (simp add: wp_ret promote_disks_def)
next
  case (Cons f fs)
  obtain g s where f: "f = (g, s)" by (cases f)
  let ?d = "w_disk w"
  have sep: "separate fs" and pf: "plain_slot (g, s)" and pfs: "\<forall>f' \<in> set fs. plain_slot f'"
    using Cons.prems(1) f by (auto simp: separate_def list_all_iff)
  have dis: "slot_names f' \<inter> slot_names f = {} \<and> slot_file (fst f') SlotNext (snd f') \<notin> slot_names f \<and>
      slot_file g SlotNext s \<notin> slot_names f'" if "f' \<in> set fs" for f'
  proof -
    have "f' \<noteq> f" using that Cons.prems(1) by (auto simp: separate_def)
    then show ?thesis
      using that Cons.prems(1) unfolding separate_def by (fastforce simp: f)
  qed
  have step: "promote_disks (f # fs) ?d h" if "promote_disk (g, s) ?d h" for h
  proof -
    have same: "lookup h q = lookup ?d q" if "q \<notin> slot_names f" "q \<notin> dot_names" for q
      using \<open>promote_disk (g, s) ?d h\<close> that f by (auto simp: promote_disk_def same_outside_def)
    have "promoting ?d f' h" if f': "f' \<in> set fs" for f'
    proof -
      obtain g' s' where [simp]: "f' = (g', s')" by (cases f')
      have "file_data h (slot_file g' sl s') = file_data ?d (slot_file g' sl s')" if "sl \<in> {SlotActive, SlotPrev}" for sl
        using dis [OF f'] slot_file_not_dot [of g' s' sl] pfs f' that
        by (intro file_data_cong same) (auto simp: slot_names_def)
      then show ?thesis by (simp add: promoting_def Let_def)
    qed
    then show ?thesis
      using that f by (auto simp: promote_disks_def promote_disk_def elim!: same_outside_mono)
  qed
  have rest: "promote_disks (f # fs) ?d h" if d1: "promote_disk (g, s) ?d d1" and h: "promote_disks fs d1 h" for d1 h
  proof -
    have same1: "lookup d1 q = lookup ?d q" if "q \<notin> slot_names f" "q \<notin> dot_names" for q
      using d1 that f by (auto simp: promote_disk_def same_outside_def)
    have same2: "lookup h q = lookup d1 q" if "\<forall>f' \<in> set fs. q \<notin> slot_names f'" "q \<notin> dot_names" for q
      using h that by (auto simp: promote_disks_def same_outside_def)
    have "file_data h (slot_file g sl s) = file_data d1 (slot_file g sl s)" if "sl \<in> {SlotActive, SlotPrev}" for sl
      using dis slot_file_not_dot [OF pf] that f by (intro file_data_cong same2) (auto simp: slot_names_def)
    then have "promoting ?d f h" using d1 f by (simp add: promote_disk_def promoting_def Let_def)
    moreover have "promoting ?d f' h" if f': "f' \<in> set fs" for f'
    proof -
      obtain g' s' where [simp]: "f' = (g', s')" by (cases f')
      have "file_data d1 (slot_file g' sl s') = file_data ?d (slot_file g' sl s')" if "sl \<in> {SlotActive, SlotPrev, SlotNext}" for sl
        using dis [OF f'] slot_file_not_dot [of g' s' sl] pfs f' that
        by (intro file_data_cong same1) (auto simp: slot_names_def)
      moreover have "promoting d1 f' h" using h f' by (simp add: promote_disks_def)
      ultimately show ?thesis by (simp add: promoting_def Let_def)
    qed
    moreover have "same_outside (\<Union> (slot_names ` set (f # fs)) \<union> dot_names) ?d h"
      using same1 same2 by (auto simp: same_outside_def)
    ultimately show ?thesis using h by (auto simp: promote_disks_def)
  qed
  have "wp (seqE (promote_file sha256 g s) (\<lambda>_. for_each fs (\<lambda>(g, s). promote_file sha256 g s)))
      (\<lambda>r w'. evolves (promote_disks (f # fs) ?d) w w') w"
  proof (rule wp_seqEI [OF wp_promote_file [OF pf Cons.prems(2)]])
    show "evolves (promote_disks (f # fs) ?d) w w1" if "evolves (promote_disk (g, s) ?d) w w1" for e :: error and w1
      using that step by (auto elim!: evolves_mono)
    fix x :: unit and w1 assume ev: "evolves (promote_disk (g, s) ?d) w w1"
    have d1: "promote_disk (g, s) ?d (w_disk w1)" using evolves_final [OF ev] .
    then have wf1: "wf_disk (w_disk w1)" by (simp add: promote_disk_def)
    have ev1: "evolves (promote_disks (f # fs) ?d) w w1" using ev step by (auto elim!: evolves_mono)
    show "wp (for_each fs (\<lambda>(g, s). promote_file sha256 g s)) (\<lambda>r w'. evolves (promote_disks (f # fs) ?d) w w') w1"
      by (rule wp_mono [OF Cons.IH [OF sep wf1]])
        (rule evolves_trans [OF ev1], erule evolves_mono, rule rest [OF d1])
  qed
  then show ?case by (simp add: f)
qed

lemma for_each_append: "for_each (xs @ ys) f = seqE (for_each xs f) (\<lambda>_. for_each ys f)"
proof (induction xs)
  case Nil
  show ?case by (auto simp: seqE_def trying_def ret_def)
next
  case (Cons x xs)
  have "seqE (f x) (\<lambda>_. seqE (for_each xs f) (\<lambda>_. for_each ys f)) = seqE (seqE (f x) (\<lambda>_. for_each xs f)) (\<lambda>_. for_each ys f)"
    by (auto simp: seqE_def trying_def throw_def fun_eq_iff split: sum.splits prod.splits)
  with Cons show ?case by simp
qed

lemma for_each_map: "for_each (map h xs) f = for_each xs (\<lambda>x. f (h x))"
  by (induction xs) simp_all

lemma for_each_slot_list:
  "for_each gs (\<lambda>g. for_each (sg_suffixes g) (f g)) = for_each (slot_list gs) (\<lambda>(g, s). f g s)"
  by (induction gs) (simp_all add: slot_list_def for_each_append for_each_map)

lemma separate_slot_groups: "separate (slot_list (slot_groups dirs))"
  by (simp add: separate_def slot_list_def slot_groups_def plain_slot_def slot_names_def slot_file_def has_prefix_def)

lemma wp_PromoteSlots:
  assumes "wf_disk (w_disk w)"
  shows "wp (PromoteSlots sha256 dirs) (\<lambda>r w'. evolves (promote_disks (slot_list (slot_groups dirs)) (w_disk w)) w w') w"
  unfolding PromoteSlots_def Let_def for_each_slot_list
proof (rule wp_seqEI [OF quietlyD [OF quietly_preflightSlots]])
  let ?P = "promote_disks (slot_list (slot_groups dirs)) (w_disk w)"
  show "evolves ?P w w1" if "quiet w w1" for e :: error and w1
    using that assms(1) by (simp add: quiet_def evolves_def promote_disks_def)
  fix x :: unit and w1 assume q: "quiet w w1"
  then have "wf_disk (w_disk w1)" using assms(1) by (simp add: quiet_def)
  show "wp (for_each (slot_list (slot_groups dirs)) (\<lambda>(g, s). promote_file sha256 g s)) (\<lambda>r w'. evolves ?P w w') w1"
    by (rule wp_mono [OF wp_promote_list [OF separate_slot_groups \<open>wf_disk (w_disk w1)\<close>]])
      (use q in \<open>simp add: quiet_def evolves_def\<close>)
qed

text \<open>C22. Promotion is crash-safe: whatever fails and wherever the power is cut, on every disk
  on the way each of the four slot files is in one of three states: untouched; the old active
  content also saved as previous; or the candidate's content active with the old active
  content as previous. The candidate files are never written, and nothing else changes.\<close>

theorem PromoteSlots_crash_safe:
  assumes "wf_disk (w_disk w)" and "PromoteSlots sha256 dirs w = (r, w')"
  shows "evolves (promote_disks (slot_list (slot_groups dirs)) (w_disk w)) w w'"
  using wpD [OF wp_PromoteSlots [OF assms(1)] assms(2)] .

definition sample_dirs :: stage_dirs where
  "sample_dirs = \<lparr>sd_rootfs = [''boot'', ''rootfs''], sd_esp = [''esp''], sd_firmware = []\<rparr>"

definition sample_slots :: disk where
  "sample_slots = foldr (\<lambda>(g, s). put_file (slot_file g SlotNext s) ''new'' \<circ> put_file (slot_file g SlotActive s) ''old'')
     (slot_list (slot_groups sample_dirs)) empty_disk"

lemma wf_sample_slots: "wf_disk sample_slots"
  by (simp add: sample_slots_def slot_list_def slot_groups_def)

lemma PromoteSlots_crash_safe_witness:
  "evolves (promote_disks (slot_list (slot_groups sample_dirs)) sample_slots) (world_of sample_slots)
     (snd (PromoteSlots id sample_dirs (world_of sample_slots)))"
proof -
  let ?w = "world_of sample_slots"
  have "evolves (promote_disks (slot_list (slot_groups sample_dirs)) (w_disk ?w)) ?w (snd (PromoteSlots id sample_dirs ?w))"
    by (rule PromoteSlots_crash_safe [OF _ prod.collapse [symmetric]]) (simp add: wf_sample_slots)
  then show ?thesis by simp
qed

subsection \<open>Promotion without faults\<close>

lemma calm_linkFileSync:
  assumes calm: "calm (Suc k) w" and names: "dst \<notin> dot_names" "src \<notin> dot_names"
    and src: "dk_names (w_disk w) src = Some i"
  shows "\<exists>w'. linkFileSync src dst w = (Inr (), w') \<and> calm k w' \<and>
     lookup (w_disk w') = (lookup (w_disk w))(dst := lookup (w_disk w) src) \<and>
     dk_names (w_disk w') = (dk_names (w_disk w))(dst := Some i) \<and> w_urls w' = w_urls w \<and> w_hw w' = w_hw w"
proof -
  obtain r rs where en: "w_entropy w = r # rs" and k: "k \<le> length rs"
    using calm by (cases "w_entropy w") (auto simp: calm_def)
  define t where "t = path_join (path_dir dst) (CHR ''.'' # path_base dst @ ''.link-'' @ r)"
  note t_eq = t_def [simplified]
  have t: "t \<in> dot_names" by (simp add: t_def)
  then have td: "dk_names (w_disk w) t = None" and nf: "w_faults w = []" and wf: "wf_disk (w_disk w)"
    using calm by (auto simp: calm_def clean_def)
  have ne: "t \<noteq> dst" "t \<noteq> src" "dst \<noteq> t" "src \<noteq> t" using t names by auto
  have i: "i \<noteq> dk_next (w_disk w)" using src wf by (auto simp: wf_disk_def)
  have upd: "(dk_names (w_disk w))(t := None) = dk_names (w_disk w)" using td by auto
  let ?d' = "\<lparr>dk_names = (dk_names (w_disk w))(dst := Some i),
     dk_inodes = (dk_inodes (w_disk w))(dk_next (w_disk w) := \<lparr>ino_data = [], ino_synced = False\<rparr>),
     dk_next = Suc (dk_next (w_disk w))\<rparr>"
  have run: "linkFileSync src dst w =
      (Inr (), w\<lparr>w_disk := ?d', w_entropy := rs, w_history := w_history (snd (linkFileSync src dst w))\<rparr>)"
  proof (cases "dk_names (w_disk w) dst = Some i")
    case True
    then have [simp]: "(dk_names (w_disk w))(dst := Some i) = dk_names (w_disk w)" by auto
    show ?thesis
      using en nf td ne src True
      by (simp add: linkFileSync_def Let_def seqE_def trying_def deferred_def sys_defs sys_call_def rename_disk_def
          syncDir_def ret_def put_disk_def new_inode_def fun_upd_twist upd flip: t_eq)
  next
    case False
    then show ?thesis
      using en nf td ne src
      by (simp add: linkFileSync_def Let_def seqE_def trying_def deferred_def sys_defs sys_call_def rename_disk_def
          syncDir_def ret_def put_disk_def new_inode_def fun_upd_twist upd flip: t_eq)
  qed
  have lk: "lookup ?d' = (lookup (w_disk w))(dst := lookup (w_disk w) src)"
  proof
    show "lookup ?d' q = ((lookup (w_disk w))(dst := lookup (w_disk w) src)) q" for q
      using src i names_fresh [OF wf, of q] by (cases "dk_names (w_disk w) q") (auto simp: lookup_def)
  qed
  have cl: "clean ?d'"
    using calm names src by (auto simp: calm_def clean_def wf_disk_def less_Suc_eq)
  show ?thesis
    by (rule exI, rule conjI, rule run) (simp add: calm_def nf k cl lk)
qed

lemma calm_copyFileSync:
  assumes calm: "calm (Suc k) w" and names: "dst \<notin> dot_names"
    and src: "file_data (w_disk w) src = Some s"
  shows "\<exists>w'. copyFileSync src dst w = (Inr (), w') \<and> calm k w' \<and>
     lookup (w_disk w') = (lookup (w_disk w))(dst := Some \<lparr>ino_data = s, ino_synced = True\<rparr>) \<and>
     w_urls w' = w_urls w \<and> w_hw w' = w_hw w"
proof -
  obtain j where j: "dk_names (w_disk w) src = Some j" "ino_data (dk_inodes (w_disk w) j) = s"
    using src by (auto simp: file_data_def lookup_def)
  have lt: "j < dk_next (w_disk w)" and nf: "w_faults w = []"
    using calm j(1) by (auto simp: calm_def clean_def wf_disk_def)
  have "open_read src w = (Inr j, w)" using j(1) nf by (simp add: open_read_def sys_call_def)
  then have "copyFileSync src dst w = atomic_put (path_dir dst) (''.'' @ path_base dst @ ''.tmp-'') dst
       (\<lambda>out. seqE (read_all j) (\<lambda>s. fwrite out s)) (syncDir (path_dir dst)) w"
    by (simp add: copyFileSync_def Let_def seqE_def [of "open_read _"] trying_def [of "open_read _"])
  moreover have "\<exists>w'. atomic_put (path_dir dst) (''.'' @ path_base dst @ ''.tmp-'') dst
       (\<lambda>out. seqE (read_all j) (\<lambda>s. fwrite out s)) (syncDir (path_dir dst)) w = (Inr (), w') \<and> calm k w' \<and>
     lookup (w_disk w') = (lookup (w_disk w))(dst := Some \<lparr>ino_data = s, ino_synced = True\<rparr>) \<and>
     w_urls w' = w_urls w \<and> w_hw w' = w_hw w"
    using j(2) lt
    by (intro calm_atomic_put [OF calm _ names])
      (simp_all add: has_prefix_def seqE_def trying_def read_all_def sys_call_def syncDir_def sys_defs ret_def)
  ultimately show ?thesis by simp
qed

text \<open>
  The end of a promotion of one file: the candidate is active and the old active file is the
  previous one, or nothing had to be done because the active file already was the candidate,
  for the kernel cache as far as size and hash tell.
\<close>

definition same_image :: "(string \<Rightarrow> string) \<Rightarrow> string option \<Rightarrow> string option \<Rightarrow> bool" where
  "same_image sha256 a b = (case (a, b) of (Some x, Some y) \<Rightarrow> length x = length y \<and> sha256 x = sha256 y | _ \<Rightarrow> False)"

definition promoted :: "(string \<Rightarrow> string) \<Rightarrow> disk \<Rightarrow> slot_group \<times> string \<Rightarrow> disk \<Rightarrow> bool" where
  "promoted sha256 d = (\<lambda>(g, s) h.
     (let a = file_data d (slot_file g SlotActive s); p = file_data d (slot_file g SlotPrev s);
          n = file_data d (slot_file g SlotNext s);
          a' = file_data h (slot_file g SlotActive s); p' = file_data h (slot_file g SlotPrev s)
      in a' = n \<and> p' = a \<or> a' = a \<and> p' = p \<and> (a = n \<or> sg_prefix g = ''kernelcache'' \<and> same_image sha256 a n)))"

definition staged_slot :: "disk \<Rightarrow> slot_group \<times> string \<Rightarrow> bool" where
  "staged_slot d = (\<lambda>(g, s).
     (\<exists>a. file_data d (slot_file g SlotActive s) = Some a \<and> a \<noteq> []) \<and>
     (\<exists>n. file_data d (slot_file g SlotNext s) = Some n \<and> n \<noteq> []))"

lemma nonEmpty_calm:
  assumes "w_faults w = []"
  shows "nonEmpty p w = (Inr (\<exists>s. file_data (w_disk w) p = Some s \<and> s \<noteq> []), w)"
  using assms
  by (auto simp: nonEmpty_def trying_def stat_def sys_call_def ret_def file_data_def lookup_def split: option.splits)

lemma sameFileContent_calm:
  assumes "w_faults w = []"
  shows "sameFileContent sha256 p q w = (Inr (same_image sha256 (file_data (w_disk w) p) (file_data (w_disk w) q)), w)"
  using assms
  by (auto simp: sameFileContent_def trying_def open_read_def read_all_def sys_call_def ret_def file_data_def
      lookup_def same_image_def split: option.splits)

lemma sameFileIdentity_calm:
  assumes "w_faults w = []" and "dk_names (w_disk w) p \<noteq> None"
  shows "sameFileIdentity p q w = (Inr (dk_names (w_disk w) p = dk_names (w_disk w) q), w)"
  using assms
  by (auto simp: sameFileIdentity_def trying_def stat_def sys_call_def ret_def split: option.splits)

lemma calm_two_moves:
  assumes calm: "calm (Suc (Suc k)) w" and f: "plain_slot (g, s)"
    and a: "file_data (w_disk w) (slot_file g SlotActive s) = Some a" and n: "file_data (w_disk w) (slot_file g SlotNext s) = Some n"
    and mv: "\<And>k w src dst x. calm (Suc k) w \<Longrightarrow> dst \<notin> dot_names \<Longrightarrow> src \<notin> dot_names \<Longrightarrow> file_data (w_disk w) src = Some x \<Longrightarrow>
      \<exists>w'. mv src dst w = (Inr (), w') \<and> calm k w' \<and> same_outside {dst} (w_disk w) (w_disk w') \<and>
        file_data (w_disk w') dst = Some x \<and> w_urls w' = w_urls w \<and> w_hw w' = w_hw w"
  shows "\<exists>w'. seqE (wrapE e1 (mv (slot_file g SlotActive s) (slot_file g SlotPrev s))) (\<lambda>_.
               wrapE e2 (mv (slot_file g SlotNext s) (slot_file g SlotActive s))) w = (Inr (), w') \<and> calm k w' \<and>
     same_outside (slot_names (g, s)) (w_disk w) (w_disk w') \<and> promoted sha256 (w_disk w) (g, s) (w_disk w') \<and>
     w_urls w' = w_urls w \<and> w_hw w' = w_hw w"
proof -
  let ?a = "slot_file g SlotActive s" and ?p = "slot_file g SlotPrev s" and ?n = "slot_file g SlotNext s"
  note nd = slot_file_not_dot [OF f]
  obtain w1 where w1: "mv ?a ?p w = (Inr (), w1)" "calm (Suc k) w1" "same_outside {?p} (w_disk w) (w_disk w1)"
    "file_data (w_disk w1) ?p = Some a" "w_urls w1 = w_urls w" "w_hw w1 = w_hw w"
    using mv [OF calm nd nd a] by blast
  have n1: "file_data (w_disk w1) ?n = Some n"
    using w1(3) n same_outsideD [of "{?p}" "w_disk w" "w_disk w1" ?n] by (simp add: file_data_def)
  obtain w2 where w2: "mv ?n ?a w1 = (Inr (), w2)" "calm k w2" "same_outside {?a} (w_disk w1) (w_disk w2)"
    "file_data (w_disk w2) ?a = Some n" "w_urls w2 = w_urls w1" "w_hw w2 = w_hw w1"
    using mv [OF w1(2) nd nd n1] by blast
  have "file_data (w_disk w2) ?p = Some a"
    using w2(3) w1(4) same_outsideD [of "{?a}" "w_disk w1" "w_disk w2" ?p] by (simp add: file_data_def)
  then have "promoted sha256 (w_disk w) (g, s) (w_disk w2)"
    using a n w2(4) by (simp add: promoted_def Let_def)
  moreover have "same_outside (slot_names (g, s)) (w_disk w) (w_disk w2)"
    using w1(3) w2(3) by (auto simp: same_outside_def slot_names_def)
  moreover have "seqE (wrapE e1 (mv ?a ?p)) (\<lambda>_. wrapE e2 (mv ?n ?a)) w = (Inr (), w2)"
    using w1(1) w2(1) by (simp add: seqE_def trying_def wrapE_def ret_def)
  ultimately show ?thesis using w1 w2 by auto
qed

lemma calm_promote_file:
  assumes calm: "calm (Suc (Suc k)) w" and f: "plain_slot (g, s)" and st: "staged_slot (w_disk w) (g, s)"
  shows "\<exists>w'. promote_file sha256 g s w = (Inr (), w') \<and> calm k w' \<and>
     same_outside (slot_names (g, s)) (w_disk w) (w_disk w') \<and> promoted sha256 (w_disk w) (g, s) (w_disk w') \<and>
     w_urls w' = w_urls w \<and> w_hw w' = w_hw w"
proof -
  let ?a = "slot_file g SlotActive s" and ?p = "slot_file g SlotPrev s" and ?n = "slot_file g SlotNext s"
  obtain a n where a: "file_data (w_disk w) ?a = Some a" and n: "file_data (w_disk w) ?n = Some n" "n \<noteq> []"
    using st by (auto simp: staged_slot_def)
  have nf: "w_faults w = []" using calm by (simp add: calm_def)
  have ne: "nonEmpty ?n w = (Inr True, w)" using nonEmpty_calm [OF nf] n by simp
  have skip: "calm k w \<and> same_outside (slot_names (g, s)) (w_disk w) (w_disk w)" using calm by (auto intro: calm_mono)
  have cp: "\<exists>w'. copyFileSync src dst w = (Inr (), w') \<and> calm k w' \<and> same_outside {dst} (w_disk w) (w_disk w') \<and>
      file_data (w_disk w') dst = Some x \<and> w_urls w' = w_urls w \<and> w_hw w' = w_hw w"
    if "calm (Suc k) w" "dst \<notin> dot_names" "file_data (w_disk w) src = Some x" for k w src dst x
    using calm_copyFileSync [OF that] by (auto simp: same_outside_def file_data_def)
  have ln: "\<exists>w'. linkFileSync src dst w = (Inr (), w') \<and> calm k w' \<and> same_outside {dst} (w_disk w) (w_disk w') \<and>
      file_data (w_disk w') dst = Some x \<and> w_urls w' = w_urls w \<and> w_hw w' = w_hw w"
    if h: "calm (Suc k) w" "dst \<notin> dot_names" "src \<notin> dot_names" "file_data (w_disk w) src = Some x" for k w src dst x
  proof -
    obtain i where "dk_names (w_disk w) src = Some i" using h(4) by (auto simp: file_data_def lookup_def)
    from calm_linkFileSync [OF h(1-3) this] h(4) show ?thesis
      by (auto simp: same_outside_def file_data_def)
  qed
  show ?thesis
  proof (cases "sg_prefix g = ''kernelcache''")
    case True
    show ?thesis
    proof (cases "same_image sha256 (Some a) (Some n)")
      case same: True
      then have "promote_file sha256 g s w = (Inr (), w)"
        using True ne sameFileContent_calm [OF nf, where p = ?a and q = ?n] a n
        by (simp add: promote_file_def Let_def seqE_def trying_def ret_def)
      moreover have "promoted sha256 (w_disk w) (g, s) (w_disk w)"
        using True same a n by (simp add: promoted_def Let_def)
      ultimately show ?thesis using skip by blast
    next
      case False
      then have "promote_file sha256 g s w =
          seqE (wrapE ''promote: active->prev'' (copyFileSync ?a ?p)) (\<lambda>_. wrapE ''promote: next->active'' (copyFileSync ?n ?a)) w"
        using True ne sameFileContent_calm [OF nf, where p = ?a and q = ?n] a n
        by (simp add: promote_file_def Let_def seqE_def trying_def)
      then show ?thesis using calm_two_moves [OF calm f a n(1), where mv = copyFileSync] cp by simp
    qed
  next
    case False
    have id: "sameFileIdentity ?a ?n w = (Inr (dk_names (w_disk w) ?a = dk_names (w_disk w) ?n), w)"
      using a by (intro sameFileIdentity_calm [OF nf]) (auto simp: file_data_def lookup_def)
    show ?thesis
    proof (cases "dk_names (w_disk w) ?a = dk_names (w_disk w) ?n")
      case same: True
      then have "promote_file sha256 g s w = (Inr (), w)"
        using False ne id by (simp add: promote_file_def Let_def seqE_def trying_def ret_def)
      moreover have "promoted sha256 (w_disk w) (g, s) (w_disk w)"
        using same by (simp add: promoted_def Let_def file_data_def lookup_def)
      ultimately show ?thesis using skip by blast
    next
      case other: False
      then have "promote_file sha256 g s w =
          seqE (wrapE ''promote: active->prev'' (linkFileSync ?a ?p)) (\<lambda>_. wrapE ''promote: next->active'' (linkFileSync ?n ?a)) w"
        using False ne id by (simp add: promote_file_def Let_def seqE_def trying_def)
      then show ?thesis using calm_two_moves [OF calm f a n(1), where mv = linkFileSync] ln by simp
    qed
  qed
qed

lemma calm_promote_list:
  assumes "separate fs" and "calm (2 * length fs + k) w" and "\<forall>f \<in> set fs. staged_slot (w_disk w) f"
  shows "\<exists>w'. for_each fs (\<lambda>(g, s). promote_file sha256 g s) w = (Inr (), w') \<and> calm k w' \<and>
     same_outside (\<Union> (slot_names ` set fs)) (w_disk w) (w_disk w') \<and>
     (\<forall>f \<in> set fs. promoted sha256 (w_disk w) f (w_disk w')) \<and> w_urls w' = w_urls w \<and> w_hw w' = w_hw w"
  using assms
proof (induction fs arbitrary: w)
  case Nil
  then show ?case by (simp add: ret_def)
next
  case (Cons f fs)
  obtain g s where f: "f = (g, s)" by (cases f)
  have sep: "separate fs" and pf: "plain_slot (g, s)"
    using Cons.prems(1) f by (auto simp: separate_def)
  have dis: "slot_names f' \<inter> slot_names f = {} \<and> slot_file (fst f') SlotNext (snd f') \<notin> slot_names f" if "f' \<in> set fs" for f'
  proof -
    have "f' \<noteq> f" using that Cons.prems(1) by (auto simp: separate_def)
    then show ?thesis using that Cons.prems(1) unfolding separate_def by (fastforce simp: f)
  qed
  have out: "slot_file (fst f') sl (snd f') \<notin> slot_names f" if "f' \<in> set fs" "sl \<in> {SlotActive, SlotPrev, SlotNext}" for f' sl
    using dis [OF that(1)] that(2) by (auto simp: slot_names_def split: prod.splits)
  have "calm (Suc (Suc (2 * length fs + k))) w" "staged_slot (w_disk w) (g, s)"
    using Cons.prems f by simp_all
  from calm_promote_file [OF this(1) pf this(2)]
  obtain w1 where w1: "promote_file sha256 g s w = (Inr (), w1)" "calm (2 * length fs + k) w1"
    "same_outside (slot_names f) (w_disk w) (w_disk w1)" "promoted sha256 (w_disk w) f (w_disk w1)"
    "w_urls w1 = w_urls w" "w_hw w1 = w_hw w"
    unfolding f by blast
  have keep: "file_data (w_disk w1) (slot_file (fst f') sl (snd f')) = file_data (w_disk w) (slot_file (fst f') sl (snd f'))"
    if "f' \<in> set fs" "sl \<in> {SlotActive, SlotPrev, SlotNext}" for f' sl
    using same_outsideD [OF w1(3) out [OF that]] by (simp add: file_data_def)
  have "\<forall>f' \<in> set fs. staged_slot (w_disk w1) f'"
    using Cons.prems(3) keep by (auto simp: staged_slot_def split: prod.splits)
  from Cons.IH [OF sep w1(2) this]
  obtain w2 where w2: "for_each fs (\<lambda>(g, s). promote_file sha256 g s) w1 = (Inr (), w2)" "calm k w2"
    "same_outside (\<Union> (slot_names ` set fs)) (w_disk w1) (w_disk w2)"
    "\<forall>f' \<in> set fs. promoted sha256 (w_disk w1) f' (w_disk w2)" "w_urls w2 = w_urls w1" "w_hw w2 = w_hw w1"
    by blast
  have "promoted sha256 (w_disk w) f' (w_disk w2)" if "f' \<in> set fs" for f'
    using w2(4) that keep [OF that] by (auto simp: promoted_def Let_def split: prod.splits)
  moreover have "promoted sha256 (w_disk w) f (w_disk w2)"
  proof -
    have "file_data (w_disk w2) (slot_file g sl s) = file_data (w_disk w1) (slot_file g sl s)" if "sl \<in> {SlotActive, SlotPrev}" for sl
    proof -
      have "slot_file g sl s \<notin> \<Union> (slot_names ` set fs)"
        using dis that by (auto simp: f slot_names_def)
      from same_outsideD [OF w2(3) this] show ?thesis by (simp add: file_data_def)
    qed
    then show ?thesis using w1(4) by (simp add: f promoted_def Let_def)
  qed
  moreover have "same_outside (\<Union> (slot_names ` set (f # fs))) (w_disk w) (w_disk w2)"
    using w1(3) w2(3) by (auto simp: same_outside_def)
  moreover have "for_each (f # fs) (\<lambda>(g, s). promote_file sha256 g s) w = (Inr (), w2)"
    using w1(1) w2(1) by (simp add: f seqE_def trying_def)
  ultimately show ?case using w2 w1 by auto
qed

lemma preflight_file_calm:
  assumes "w_faults w = []"
  shows "(staged_slot (w_disk w) (g, s) \<longrightarrow> preflight_file g s w = (Inr (), w)) \<and>
    (\<not> staged_slot (w_disk w) (g, s) \<longrightarrow> (\<exists>e. preflight_file g s w = (Inl e, w)))"
  by (auto simp: preflight_file_def seqE_def trying_def ret_def throw_def nonEmpty_calm [OF assms] staged_slot_def)

lemma for_each_calm:
  assumes "\<And>x. x \<in> set xs \<Longrightarrow> (P x \<longrightarrow> f x w = (Inr (), w)) \<and> (\<not> P x \<longrightarrow> (\<exists>e. f x w = (Inl e, w)))"
  shows "((\<forall>x \<in> set xs. P x) \<longrightarrow> for_each xs f w = (Inr (), w)) \<and>
    (\<not> (\<forall>x \<in> set xs. P x) \<longrightarrow> (\<exists>e. for_each xs f w = (Inl e, w)))"
  using assms
proof (induction xs)
  case (Cons x xs)
  then have IH: "((\<forall>x \<in> set xs. P x) \<longrightarrow> for_each xs f w = (Inr (), w)) \<and>
    (\<not> (\<forall>x \<in> set xs. P x) \<longrightarrow> (\<exists>e. for_each xs f w = (Inl e, w)))" by simp
  have x: "(P x \<longrightarrow> f x w = (Inr (), w)) \<and> (\<not> P x \<longrightarrow> (\<exists>e. f x w = (Inl e, w)))"
    using Cons.prems by simp
  show ?case
  proof (cases "P x")
    case True
    with x IH show ?thesis by (simp add: seqE_def trying_def)
  next
    case False
    with x obtain e where "f x w = (Inl e, w)" by blast
    with False show ?thesis by (simp add: seqE_def trying_def throw_def)
  qed
qed (simp add: ret_def)

lemma count_staged_calm:
  assumes "w_faults w = []"
  shows "\<exists>n. count_staged g ss w = (Inr n, w) \<and>
    (n = 0 \<longrightarrow> (\<forall>s \<in> set ss. \<not> staged_slot (w_disk w) (g, s)))"
proof (induction ss)
  case (Cons s ss)
  then obtain n where "count_staged g ss w = (Inr n, w)" "n = 0 \<longrightarrow> (\<forall>s \<in> set ss. \<not> staged_slot (w_disk w) (g, s))"
    by blast
  then show ?case
    by (auto simp: seqE_def trying_def ret_def nonEmpty_calm [OF assms] staged_slot_def)
qed (simp add: ret_def)

definition group_ready :: "disk \<Rightarrow> slot_group \<Rightarrow> bool" where
  "group_ready d g \<longleftrightarrow> sg_dir g = [] \<or> (\<forall>s \<in> set (sg_suffixes g). staged_slot d (g, s))"

lemma preflightSlots_calm:
  assumes nf: "w_faults w = []" and ne: "\<forall>g \<in> set gs. sg_suffixes g \<noteq> []"
  shows "((\<forall>g \<in> set gs. group_ready (w_disk w) g) \<longrightarrow> preflightSlots gs w = (Inr (), w)) \<and>
    (\<not> (\<forall>g \<in> set gs. group_ready (w_disk w) g) \<longrightarrow> (\<exists>e. preflightSlots gs w = (Inl e, w)))"
  unfolding preflightSlots_def
proof (rule for_each_calm)
  fix g assume g: "g \<in> set gs"
  obtain n where n: "count_staged g (sg_suffixes g) w = (Inr n, w)"
    "n = 0 \<longrightarrow> (\<forall>s \<in> set (sg_suffixes g). \<not> staged_slot (w_disk w) (g, s))"
    using count_staged_calm [OF nf] by blast
  have "((\<forall>s \<in> set (sg_suffixes g). staged_slot (w_disk w) (g, s)) \<longrightarrow> for_each (sg_suffixes g) (preflight_file g) w = (Inr (), w)) \<and>
    (\<not> (\<forall>s \<in> set (sg_suffixes g). staged_slot (w_disk w) (g, s)) \<longrightarrow>
      (\<exists>e. for_each (sg_suffixes g) (preflight_file g) w = (Inl e, w)))"
    by (rule for_each_calm) (rule preflight_file_calm [OF nf])
  then show "(group_ready (w_disk w) g \<longrightarrow>
      (if sg_dir g = [] then ret () else seqE (count_staged g (sg_suffixes g))
        (\<lambda>staged. if staged = 0 then throw (Errorf ''promote: candidate is missing'')
                  else for_each (sg_suffixes g) (preflight_file g))) w = (Inr (), w)) \<and>
     (\<not> group_ready (w_disk w) g \<longrightarrow> (\<exists>e. (if sg_dir g = [] then ret () else seqE (count_staged g (sg_suffixes g))
        (\<lambda>staged. if staged = 0 then throw (Errorf ''promote: candidate is missing'')
                  else for_each (sg_suffixes g) (preflight_file g))) w = (Inl e, w)))"
    using n g ne by (auto simp: group_ready_def seqE_def trying_def ret_def throw_def)
qed

lemma set_slot_list: "f \<in> set (slot_list gs) \<longleftrightarrow> (\<exists>g \<in> set gs. fst f = g \<and> snd f \<in> set (sg_suffixes g))"
  by (cases f) (auto simp: slot_list_def)

lemma calm_PromoteSlots:
  assumes calm: "calm (8 + k) w" and st: "\<forall>f \<in> set (slot_list (slot_groups dirs)). staged_slot (w_disk w) f"
  shows "\<exists>w'. PromoteSlots sha256 dirs w = (Inr (), w') \<and> calm k w' \<and>
     same_outside (\<Union> (slot_names ` set (slot_list (slot_groups dirs)))) (w_disk w) (w_disk w') \<and>
     (\<forall>f \<in> set (slot_list (slot_groups dirs)). promoted sha256 (w_disk w) f (w_disk w')) \<and> w_urls w' = w_urls w \<and> w_hw w' = w_hw w"
proof -
  let ?fs = "slot_list (slot_groups dirs)"
  have nf: "w_faults w = []" using calm by (simp add: calm_def)
  have ne: "\<forall>g \<in> set (slot_groups dirs). sg_suffixes g \<noteq> []" by (simp add: slot_groups_def)
  have "\<forall>g \<in> set (slot_groups dirs). group_ready (w_disk w) g"
    using st by (auto simp: group_ready_def set_slot_list)
  then have pre: "preflightSlots (slot_groups dirs) w = (Inr (), w)"
    using preflightSlots_calm [OF nf ne] by blast
  have "calm (2 * length ?fs + k) w" using calm by (simp add: slot_list_def slot_groups_def)
  from calm_promote_list [OF separate_slot_groups this st] pre show ?thesis
    by (simp add: PromoteSlots_def Let_def for_each_slot_list seqE_def trying_def)
qed

text \<open>When nothing fails and every candidate and active file is there, promotion succeeds:
  each candidate is the active file and the old active file is the previous one (a file that
  already was the candidate, by identity or by size and hash, is left alone), and nothing but
  the active and previous files changes.\<close>

theorem PromoteSlots_success:
  assumes "calm (8 + k) w" and "\<forall>f \<in> set (slot_list (slot_groups dirs)). staged_slot (w_disk w) f"
  shows "\<exists>w'. PromoteSlots sha256 dirs w = (Inr (), w') \<and>
     same_outside (\<Union> (slot_names ` set (slot_list (slot_groups dirs)))) (w_disk w) (w_disk w') \<and>
     (\<forall>f \<in> set (slot_list (slot_groups dirs)). promoted sha256 (w_disk w) f (w_disk w'))"
  using calm_PromoteSlots [OF assms] by blast

lemma calm_world_of: "clean d \<Longrightarrow> k \<le> 8 \<Longrightarrow> calm k (world_of d)"
  by (simp add: calm_def world_of_def)

lemma clean_put_file: "clean d \<Longrightarrow> p \<notin> dot_names \<Longrightarrow> clean (put_file p s d)"
  by (auto simp: clean_def put_file_def wf_disk_def less_Suc_eq)

lemma clean_empty_disk [simp]: "clean empty_disk"
  by (simp add: clean_def) (simp add: empty_disk_def)

lemma clean_sample_slots: "clean sample_slots"
  by (simp add: sample_slots_def slot_list_def slot_groups_def slot_file_def dot_names_join_iff has_prefix_def
      clean_put_file)

lemma file_data_put_file:
  "wf_disk d \<Longrightarrow> file_data (put_file p s d) q = (if q = p then Some s else file_data d q)"
  by (simp add: file_data_def lookup_put_file)

lemma sample_slots_staged: "\<forall>f \<in> set (slot_list (slot_groups sample_dirs)). staged_slot sample_slots f"
  by (simp add: sample_slots_def slot_list_def slot_groups_def sample_dirs_def staged_slot_def slot_file_def
      file_data_put_file path_join_def)

lemma PromoteSlots_success_witness:
  "\<exists>w'. PromoteSlots id sample_dirs (world_of sample_slots) = (Inr (), w') \<and>
     promoted id sample_slots (hd (slot_groups sample_dirs), ''.erofs'') (w_disk w')"
proof -
  have "calm (8 + 0) (world_of sample_slots)" using clean_sample_slots by (simp add: calm_world_of)
  moreover have "\<forall>f \<in> set (slot_list (slot_groups sample_dirs)). staged_slot (w_disk (world_of sample_slots)) f"
    using sample_slots_staged by (simp only: world_of_sel)
  moreover have "(hd (slot_groups sample_dirs), ''.erofs'') \<in> set (slot_list (slot_groups sample_dirs))"
    by (simp add: slot_list_def slot_groups_def)
  ultimately show ?thesis using PromoteSlots_success [of 0 "world_of sample_slots" sample_dirs] by fastforce
qed

text \<open>A partial candidate is refused before anything is touched: if a candidate or active
  file of a configured group is missing or empty, promotion returns an error and the whole
  system state is as before.\<close>

theorem PromoteSlots_refuses_partial:
  assumes "w_faults w = []" and "g \<in> set (slot_groups dirs)" and "sg_dir g \<noteq> []"
    and "s \<in> set (sg_suffixes g)" and "\<not> staged_slot (w_disk w) (g, s)"
  shows "\<exists>e. PromoteSlots sha256 dirs w = (Inl e, w)"
proof -
  have ne: "\<forall>g \<in> set (slot_groups dirs). sg_suffixes g \<noteq> []" by (simp add: slot_groups_def)
  have "\<not> group_ready (w_disk w) g" using assms by (auto simp: group_ready_def)
  then obtain e where "preflightSlots (slot_groups dirs) w = (Inl e, w)"
    using preflightSlots_calm [OF assms(1) ne] assms(2) by blast
  then show ?thesis by (simp add: PromoteSlots_def Let_def seqE_def trying_def throw_def)
qed

lemma PromoteSlots_refuses_partial_witness:
  "\<exists>e. PromoteSlots id sample_dirs (world_of empty_disk) = (Inl e, world_of empty_disk)"
proof -
  have "\<not> staged_slot (w_disk (world_of empty_disk)) (hd (slot_groups sample_dirs), ''.erofs'')"
    by (simp add: staged_slot_def file_data_def lookup_def) (simp add: empty_disk_def)
  then show ?thesis
    by (intro PromoteSlots_refuses_partial [where g = "hd (slot_groups sample_dirs)" and s = "''.erofs''"])
      (simp_all add: slot_groups_def sample_dirs_def)
qed

end
