(* ===== verification/Fetch.thy ===== *)
theory Fetch
  imports Slots Manifest
begin

section \<open>Downloads\<close>

text \<open>
  internal/otad/fetch.go. The HTTP client (with its retries) is the parameter \<open>net\<close>: given
  the addresses requested so far it answers a request with an error or a response; the
  requests are logged in \<open>w_urls\<close>. A response's \<open>Location\<close> is already resolved against
  the request, as \<open>resp.Location\<close> does. The progress callback of the context has no effect
  on the files and is not modelled.
\<close>

record response =
  rp_status :: int
  rp_location :: "string option"
  rp_body :: string
  rp_broken :: bool

type_synonym network = "string list \<Rightarrow> string \<Rightarrow> error + response"

definition maxRedirects :: nat where
  "maxRedirects = 5"

definition redirect_codes :: "int list" where
  "redirect_codes = [301, 302, 303, 307, 308]"

text \<open>The scheme of an address, lower case, empty when there is none.\<close>

definition url_scheme :: "string \<Rightarrow> string" where
  "url_scheme u =
    (case str_cut (CHR '':'') u of
       None \<Rightarrow> []
     | Some (s, _) \<Rightarrow>
         if s \<noteq> [] \<and> (in_range 97 122 (to_lower (hd s))) \<and>
            list_all (\<lambda>c. in_range 97 122 (to_lower c) \<or> is_digit c \<or> c \<in> set ''+-.'') s
         then map to_lower s else [])"

definition request :: "network \<Rightarrow> string \<Rightarrow> response io" where
  "request net url w = (net (w_urls w) url, w\<lparr>w_urls := w_urls w @ [url]\<rparr>)"

text \<open>The loop of \<open>get\<close>; the first argument is the number of redirects still allowed.\<close>

fun get_hops :: "network \<Rightarrow> nat \<Rightarrow> string \<Rightarrow> response io" where
  "get_hops net left rawURL =
     seqE (wrapE ''fetch'' (request net rawURL)) (\<lambda>resp.
       if rp_status resp \<notin> set redirect_codes then ret resp
       else (case rp_location resp of
           None \<Rightarrow> throw (Errorf ''fetch: redirect without a location'')
         | Some loc \<Rightarrow>
             (case left of
                0 \<Rightarrow> throw (Errorf ''fetch: too many redirects'')
              | Suc n \<Rightarrow>
                  if url_scheme rawURL = ''https'' \<and> url_scheme loc \<noteq> ''https''
                  then throw (Errorf ''fetch: refusing redirect'')
                  else get_hops net n loc)))"

declare get_hops.simps [simp del]

definition get :: "network \<Rightarrow> string \<Rightarrow> response io" where
  "get net rawURL = get_hops net maxRedirects rawURL"

text \<open>Copying the body into the file: what arrived is written even if the connection breaks.\<close>

definition copy_body :: "nat \<Rightarrow> response \<Rightarrow> unit io" where
  "copy_body f resp =
     seqE (fwrite f (rp_body resp)) (\<lambda>_.
       if rp_broken resp then throw (Errorf ''unexpected EOF'') else ret ())"

definition FetchTo :: "network \<Rightarrow> string \<Rightarrow> path \<Rightarrow> nat io" where
  "FetchTo net url dest =
     seqE (get net url) (\<lambda>resp.
       if rp_status resp \<noteq> 200 then throw (Errorf ''fetch: status'')
       else let tmp = path_suffix dest ''.tmp'' in
         seqE (create tmp) (\<lambda>f.
         trying (copy_body f resp) (\<lambda>r. case r of
             Inl e \<Rightarrow> trying (fclose f) (\<lambda>_. trying (remove tmp) (\<lambda>_. throw e))
           | Inr _ \<Rightarrow>
         trying (fsync f) (\<lambda>r. case r of
             Inl e \<Rightarrow> trying (fclose f) (\<lambda>_. trying (remove tmp) (\<lambda>_. throw e))
           | Inr _ \<Rightarrow>
         trying (fclose f) (\<lambda>_.
         trying (rename tmp dest) (\<lambda>r. case r of
             Inl e \<Rightarrow> trying (remove tmp) (\<lambda>_. throw e)
           | Inr _ \<Rightarrow>
         seqE (syncDir (path_dir dest)) (\<lambda>_. ret (length (rp_body resp)))))))))"

definition VerifyManifestSig :: "crypto \<Rightarrow> string \<Rightarrow> string \<Rightarrow> string \<Rightarrow> bool" where
  "VerifyManifestSig cr dat sig pubkey =
    (if length pubkey \<noteq> 32 \<or> length sig \<noteq> 64 then False else ed25519 cr pubkey dat sig)"

subsection \<open>Redirects\<close>

text \<open>\<open>https_kept us\<close>: once an address of the list is an https one, all later ones are.\<close>

fun https_kept :: "string list \<Rightarrow> bool" where
  "https_kept (u # v # us) = ((url_scheme u = ''https'' \<longrightarrow> url_scheme v = ''https'') \<and> https_kept (v # us))"
| "https_kept _ = True"

lemma get_hops_log:
  "\<exists>us. w_urls (snd (get_hops net n url w)) = w_urls w @ us \<and> hd us = url \<and> us \<noteq> [] \<and>
     length us \<le> Suc n \<and> https_kept us \<and> w_disk (snd (get_hops net n url w)) = w_disk w \<and>
     w_history (snd (get_hops net n url w)) = w_history w"
proof (induction n arbitrary: url w)
  case 0
  show ?case
    by (subst (1 2 3) get_hops.simps)
      (auto simp: seqE_def trying_def wrapE_def request_def ret_def throw_def split: sum.splits option.splits)
next
  case (Suc n)
  let ?w = "w\<lparr>w_urls := w_urls w @ [url]\<rparr>"
  show ?case
  proof (cases "net (w_urls w) url")
    case (Inl e)
    then show ?thesis
      by (subst (1 2 3) get_hops.simps)
        (simp add: seqE_def trying_def wrapE_def request_def throw_def)
  next
    case (Inr resp)
    show ?thesis
    proof (cases "\<exists>loc. rp_status resp \<in> set redirect_codes \<and> rp_location resp = Some loc \<and>
        \<not> (url_scheme url = ''https'' \<and> url_scheme loc \<noteq> ''https'')")
      case True
      then obtain loc where loc: "rp_status resp \<in> set redirect_codes" "rp_location resp = Some loc"
        "url_scheme url = ''https'' \<longrightarrow> url_scheme loc = ''https''" by blast
      have run: "get_hops net (Suc n) url w = get_hops net n loc ?w"
        using Inr loc by (subst get_hops.simps) (auto simp: seqE_def trying_def wrapE_def request_def ret_def)
      obtain us where us: "w_urls (snd (get_hops net n loc ?w)) = w_urls ?w @ us" "hd us = loc" "us \<noteq> []"
        "length us \<le> Suc n" "https_kept us" "w_disk (snd (get_hops net n loc ?w)) = w_disk ?w"
        "w_history (snd (get_hops net n loc ?w)) = w_history ?w"
        using Suc.IH [of loc ?w] by blast
      then obtain us' where "us = loc # us'" by (cases us) auto
      with us loc show ?thesis by (intro exI [of _ "url # us"]) (simp add: run)
    next
      case False
      then show ?thesis
        using Inr by (subst (1 2 3) get_hops.simps)
          (auto simp: seqE_def trying_def wrapE_def request_def ret_def throw_def split: option.splits)
    qed
  qed
qed

text \<open>A download asks at most six addresses, the first one the given address, and never
  leaves https once it is there: whatever the servers answer, no request goes from an https
  address to one without TLS.\<close>

theorem get_bounded_and_keeps_https:
  "\<exists>us. w_urls (snd (get net url w)) = w_urls w @ us \<and> hd us = url \<and> length us \<le> 6 \<and> https_kept us"
  using get_hops_log [of net maxRedirects url w] by (auto simp: get_def maxRedirects_def)

subsection \<open>Downloads under faults\<close>

text \<open>
  \<open>private t h\<close>: no other name leads to the inode of \<open>t\<close>. The temporary name of a
  download is not dotted and is opened with \<open>os.Create\<close>, which truncates in place; the code
  relies on nobody having linked it.
\<close>

definition private_name :: "path \<Rightarrow> disk \<Rightarrow> bool" where
  "private_name t h \<longleftrightarrow> (\<forall>i q. dk_names h t = Some i \<longrightarrow> q \<noteq> t \<longrightarrow> dk_names h q \<noteq> Some i)"

definition fetching :: "path \<Rightarrow> string \<Rightarrow> disk \<Rightarrow> disk \<Rightarrow> bool" where
  "fetching dest s d h \<longleftrightarrow> wf_disk h \<and> private_name (path_suffix dest ''.tmp'') h \<and>
     same_outside {dest, path_suffix dest ''.tmp''} d h \<and>
     lookup h dest \<in> {lookup d dest, Some \<lparr>ino_data = s, ino_synced = True\<rparr>}"

lemma lookup_set_private:
  "private_name t h \<Longrightarrow> dk_names h t = Some i \<Longrightarrow> q \<noteq> t \<Longrightarrow> lookup (set_inode i n h) q = lookup h q"
  by (auto simp: lookup_set_inode private_name_def)

text \<open>The temporary file \<open>t\<close>, with inode \<open>i\<close> and contents \<open>n\<close>, beside the old files.\<close>

definition fetched_tmp :: "path \<Rightarrow> nat \<Rightarrow> inode \<Rightarrow> disk \<Rightarrow> disk \<Rightarrow> bool" where
  "fetched_tmp t i n d h \<longleftrightarrow> wf_disk h \<and> private_name t h \<and> dk_names h t = Some i \<and> dk_inodes h i = n \<and>
     (\<forall>q. q \<noteq> t \<longrightarrow> lookup h q = lookup d q)"

lemma fetched_tmp_fetching:
  "fetched_tmp (path_suffix dest ''.tmp'') i n d h \<Longrightarrow> dest \<noteq> [] \<Longrightarrow> fetching dest s d h"
  using path_suffix_neq [of "''.tmp''" dest]
  by (auto simp: fetched_tmp_def fetching_def same_outside_def)

lemma fetched_tmp_write:
  "fetched_tmp t i n d h \<Longrightarrow> fetched_tmp t i m d (set_inode i m h)"
  by (auto simp: fetched_tmp_def lookup_set_private) (simp add: private_name_def)

lemma fetching_unlink_tmp:
  assumes "fetching dest s d h" and "dest \<noteq> []"
  shows "fetching dest s d (h\<lparr>dk_names := (dk_names h)(path_suffix dest ''.tmp'' := None)\<rparr>)"
  using assms path_suffix_neq [of "''.tmp''" dest]
  by (auto simp: fetching_def same_outside_def lookup_unlink private_name_def)

lemma fetching_rename:
  assumes t: "fetched_tmp (path_suffix dest ''.tmp'') i \<lparr>ino_data = s, ino_synced = True\<rparr> d h" and ne: "dest \<noteq> []"
  shows "fetching dest s d (rename_disk (path_suffix dest ''.tmp'') dest h)"
    "lookup (rename_disk (path_suffix dest ''.tmp'') dest h) dest = Some \<lparr>ino_data = s, ino_synced = True\<rparr>"
proof -
  let ?t = "path_suffix dest ''.tmp''"
  have tn: "?t \<noteq> dest" using path_suffix_neq [of "''.tmp''" dest] ne by simp
  have names: "dk_names h ?t = Some i" "dk_names h dest \<noteq> Some i" "dk_inodes h i = \<lparr>ino_data = s, ino_synced = True\<rparr>"
    using t tn by (auto simp: fetched_tmp_def private_name_def)
  show lk: "lookup (rename_disk ?t dest h) dest = Some \<lparr>ino_data = s, ino_synced = True\<rparr>"
    using names tn by (simp add: lookup_rename_dst) (simp add: lookup_def)
  have "private_name ?t (rename_disk ?t dest h)"
    using names by (auto simp: private_name_def rename_disk_def)
  moreover have "same_outside {dest, ?t} d (rename_disk ?t dest h)"
    using t by (auto simp: same_outside_def fetched_tmp_def lookup_rename_disk)
  ultimately show "fetching dest s d (rename_disk ?t dest h)"
    using lk t by (simp add: fetching_def fetched_tmp_def)
qed

lemma wp_get: "wp (get net url) (\<lambda>r w'. quiet w w') w"
  using get_hops_log [of net maxRedirects url w]
  by (auto simp: get_def wp_def quiet_def split: prod.splits)

lemma wp_FetchTo:
  assumes wf: "wf_disk (w_disk w)" and dest: "dest \<noteq> []" and priv: "private_name (path_suffix dest ''.tmp'') (w_disk w)"
  shows "wp (FetchTo net url dest) (\<lambda>r w'.
     \<exists>s. evolves (fetching dest s (w_disk w)) w w' \<and>
         (\<forall>n. r = Inr n \<longrightarrow> n = length s \<and> lookup (w_disk w') dest = Some \<lparr>ino_data = s, ino_synced = True\<rparr>)) w"
  unfolding FetchTo_def
proof (rule wp_seqEI [OF wp_get])
  let ?t = "path_suffix dest ''.tmp''" and ?d = "w_disk w"
  have start: "evolves (fetching dest s ?d) w w1" if "quiet w w1" for s w1
    using that wf priv by (simp add: quiet_def evolves_def fetching_def)
  show "\<exists>s. evolves (fetching dest s ?d) w w1 \<and>
         (\<forall>n. Inl e = Inr n \<longrightarrow> n = length s \<and> lookup (w_disk w1) dest = Some \<lparr>ino_data = s, ino_synced = True\<rparr>)"
    if "quiet w w1" for e and w1 using start [OF that] by simp
  fix resp :: response and w1 assume q: "quiet w w1"
  define s where "s = rp_body resp"
  let ?P = "fetching dest s ?d"
  let ?Q = "\<lambda>r w'. evolves ?P w w' \<and> (\<forall>n. r = Inr n \<longrightarrow> n = length s \<and> lookup (w_disk w') dest = Some \<lparr>ino_data = s, ino_synced = True\<rparr>)"
  have rm: "wp (remove ?t) (\<lambda>r w'. evolves ?P w w') w2" if "evolves ?P w w2" for w2
    using that evolves_final [OF that] dest
    by (auto simp: wp_simps sys_defs fetching_unlink_tmp split: option.splits)
  have fc: "wp (fclose i) (\<lambda>r w'. evolves ?P w w' \<and> w_disk w' = w_disk w2) w2" if "evolves ?P w w2" for i w2
    using that by (auto simp: wp_simps sys_defs split: option.splits)
  have fail: "wp (trying (remove ?t) (\<lambda>_. throw e)) ?Q w2" if "evolves ?P w w2" for e w2
    by (rule wp_tryingI [OF rm [OF that]]) (simp add: wp_throw)
  have abort: "wp (trying (fclose i) (\<lambda>_. trying (remove ?t) (\<lambda>_. throw e))) ?Q w2" if "evolves ?P w w2" for e i w2
    by (rule wp_tryingI [OF fc [OF that]]) (auto intro: fail)
  have ren: "wp (rename ?t dest) (\<lambda>r w'. evolves ?P w w' \<and>
      (r = Inr () \<longrightarrow> lookup (w_disk w') dest = Some \<lparr>ino_data = s, ino_synced = True\<rparr>)) w2"
    if "evolves ?P w w2" "fetched_tmp ?t i \<lparr>ino_data = s, ino_synced = True\<rparr> ?d (w_disk w2)" for i w2
    using that(1) fetching_rename [OF that(2) dest]
    by (auto simp: wp_simps sys_defs split: option.splits)
  have sync: "wp (seqE (syncDir dir) (\<lambda>_. ret (length s))) ?Q w2"
    if "evolves ?P w w2" "lookup (w_disk w2) dest = Some \<lparr>ino_data = s, ino_synced = True\<rparr>" for dir w2
    by (rule wp_seqEI [OF wp_syncDir]) (use that in \<open>auto simp: wp_ret quiet_def evolves_def\<close>)
  have final: "wp (trying (rename ?t dest) (\<lambda>r. case r of Inl e \<Rightarrow> trying (remove ?t) (\<lambda>_. throw e)
           | Inr _ \<Rightarrow> seqE (syncDir (path_dir dest)) (\<lambda>_. ret (length s)))) ?Q w2"
    if "evolves ?P w w2" "fetched_tmp ?t i \<lparr>ino_data = s, ino_synced = True\<rparr> ?d (w_disk w2)" for i w2
    by (rule wp_tryingI [OF ren [OF that]]) (auto intro: fail sync split: sum.splits)
  have closing: "wp (trying (fclose i) (\<lambda>_. trying (rename ?t dest) (\<lambda>r. case r of Inl e \<Rightarrow> trying (remove ?t) (\<lambda>_. throw e)
           | Inr _ \<Rightarrow> seqE (syncDir (path_dir dest)) (\<lambda>_. ret (length s))))) ?Q w2"
    if "evolves ?P w w2" "fetched_tmp ?t i \<lparr>ino_data = s, ino_synced = True\<rparr> ?d (w_disk w2)" for i w2
    by (rule wp_tryingI [OF fc [OF that(1)]]) (use that(2) in \<open>auto intro: final\<close>)
  have fs: "wp (fsync i) (\<lambda>r w'. evolves ?P w w' \<and> (r = Inr () \<longrightarrow> fetched_tmp ?t i \<lparr>ino_data = s, ino_synced = True\<rparr> ?d (w_disk w'))) w2"
    if ev: "evolves ?P w w2" and ft: "fetched_tmp ?t i \<lparr>ino_data = s, ino_synced = False\<rparr> ?d (w_disk w2)" for i w2
  proof -
    have e: "(dk_inodes (w_disk w2) i)\<lparr>ino_synced := True\<rparr> = \<lparr>ino_data = s, ino_synced = True\<rparr>"
      using ft by (simp add: fetched_tmp_def)
    have "fetched_tmp ?t i \<lparr>ino_data = s, ino_synced = True\<rparr> ?d (set_inode i \<lparr>ino_data = s, ino_synced = True\<rparr> (w_disk w2))"
      using fetched_tmp_write [OF ft] .
    then show ?thesis
      using ev fetched_tmp_fetching [OF _ dest] by (auto simp: wp_simps sys_defs e split: option.splits)
  qed
  have synced: "wp (trying (fsync i) (\<lambda>r. case r of
             Inl e \<Rightarrow> trying (fclose i) (\<lambda>_. trying (remove ?t) (\<lambda>_. throw e))
           | Inr _ \<Rightarrow> trying (fclose i) (\<lambda>_. trying (rename ?t dest) (\<lambda>r. case r of Inl e \<Rightarrow> trying (remove ?t) (\<lambda>_. throw e)
           | Inr _ \<Rightarrow> seqE (syncDir (path_dir dest)) (\<lambda>_. ret (length s)))))) ?Q w2"
    if "evolves ?P w w2" "fetched_tmp ?t i \<lparr>ino_data = s, ino_synced = False\<rparr> ?d (w_disk w2)" for i w2
    by (rule wp_tryingI [OF fs [OF that]]) (auto intro: abort closing split: sum.splits)
  have cp: "wp (copy_body i resp) (\<lambda>r w'. evolves ?P w w' \<and> (r = Inr () \<longrightarrow> fetched_tmp ?t i \<lparr>ino_data = s, ino_synced = False\<rparr> ?d (w_disk w'))) w2"
    if ev: "evolves ?P w w2" and ft: "fetched_tmp ?t i \<lparr>ino_data = [], ino_synced = b\<rparr> ?d (w_disk w2)" for i b w2
  proof -
    have e: "ino_data (dk_inodes (w_disk w2) i) = []" using ft by (simp add: fetched_tmp_def)
    have "fetched_tmp ?t i \<lparr>ino_data = s, ino_synced = False\<rparr> ?d (set_inode i \<lparr>ino_data = s, ino_synced = False\<rparr> (w_disk w2))"
      using fetched_tmp_write [OF ft] .
    then show ?thesis
      using ev fetched_tmp_fetching [OF _ dest]
      by (auto simp: copy_body_def wp_simps sys_defs e s_def [symmetric] split: option.splits)
  qed
  have cr: "wp (create ?t) (\<lambda>r w'. evolves ?P w w' \<and> (\<forall>i. r = Inr i \<longrightarrow> fetched_tmp ?t i \<lparr>ino_data = [], ino_synced = False\<rparr> ?d (w_disk w'))) w1"
  proof -
    have d1: "w_disk w1 = ?d" using q by (simp add: quiet_def)
    have new: "fetched_tmp ?t (dk_next ?d) \<lparr>ino_data = [], ino_synced = False\<rparr> ?d (new_inode ?t ?d)"
      using wf names_fresh [OF wf] by (auto simp: fetched_tmp_def lookup_new_inode private_name_def)
    have old: "fetched_tmp ?t i \<lparr>ino_data = [], ino_synced = False\<rparr> ?d (set_inode i \<lparr>ino_data = [], ino_synced = False\<rparr> ?d)"
      if "dk_names ?d ?t = Some i" for i
      using that wf priv by (auto simp: fetched_tmp_def lookup_set_private) (simp add: private_name_def)
    show ?thesis
      using start [OF q] new old d1 fetched_tmp_fetching [OF _ dest]
      by (auto simp: wp_simps sys_defs split: option.splits)
  qed
  have "wp (if rp_status resp \<noteq> 200 then throw (Errorf ''fetch: status'')
       else let tmp = ?t in
         seqE (create tmp) (\<lambda>f.
         trying (copy_body f resp) (\<lambda>r. case r of
             Inl e \<Rightarrow> trying (fclose f) (\<lambda>_. trying (remove tmp) (\<lambda>_. throw e))
           | Inr _ \<Rightarrow>
         trying (fsync f) (\<lambda>r. case r of
             Inl e \<Rightarrow> trying (fclose f) (\<lambda>_. trying (remove tmp) (\<lambda>_. throw e))
           | Inr _ \<Rightarrow>
         trying (fclose f) (\<lambda>_.
         trying (rename tmp dest) (\<lambda>r. case r of
             Inl e \<Rightarrow> trying (remove tmp) (\<lambda>_. throw e)
           | Inr _ \<Rightarrow>
         seqE (syncDir (path_dir dest)) (\<lambda>_. ret (length (rp_body resp))))))))) ?Q w1"
  proof (cases "rp_status resp = 200")
    case False
    then show ?thesis using start [OF q] by (simp add: wp_throw)
  next
    case True
    have body: "wp (trying (copy_body i resp) (\<lambda>r. case r of
             Inl e \<Rightarrow> trying (fclose i) (\<lambda>_. trying (remove ?t) (\<lambda>_. throw e))
           | Inr _ \<Rightarrow> trying (fsync i) (\<lambda>r. case r of
             Inl e \<Rightarrow> trying (fclose i) (\<lambda>_. trying (remove ?t) (\<lambda>_. throw e))
           | Inr _ \<Rightarrow> trying (fclose i) (\<lambda>_. trying (rename ?t dest) (\<lambda>r. case r of Inl e \<Rightarrow> trying (remove ?t) (\<lambda>_. throw e)
           | Inr _ \<Rightarrow> seqE (syncDir (path_dir dest)) (\<lambda>_. ret (length s))))))) ?Q w2"
      if "evolves ?P w w2" "fetched_tmp ?t i \<lparr>ino_data = [], ino_synced = False\<rparr> ?d (w_disk w2)" for i w2
      by (rule wp_tryingI [OF cp [OF that]]) (auto intro: abort synced split: sum.splits)
    have "wp (seqE (create ?t) (\<lambda>i. trying (copy_body i resp) (\<lambda>r. case r of
             Inl e \<Rightarrow> trying (fclose i) (\<lambda>_. trying (remove ?t) (\<lambda>_. throw e))
           | Inr _ \<Rightarrow> trying (fsync i) (\<lambda>r. case r of
             Inl e \<Rightarrow> trying (fclose i) (\<lambda>_. trying (remove ?t) (\<lambda>_. throw e))
           | Inr _ \<Rightarrow> trying (fclose i) (\<lambda>_. trying (rename ?t dest) (\<lambda>r. case r of Inl e \<Rightarrow> trying (remove ?t) (\<lambda>_. throw e)
           | Inr _ \<Rightarrow> seqE (syncDir (path_dir dest)) (\<lambda>_. ret (length s)))))))) ?Q w1"
      by (rule wp_seqEI [OF cr]) (auto intro: body)
    then show ?thesis using True unfolding Let_def s_def by (subst if_not_P) simp_all
  qed
  then show "wp (if rp_status resp \<noteq> 200 then throw (Errorf ''fetch: status'')
       else let tmp = ?t in
         seqE (create tmp) (\<lambda>f.
         trying (copy_body f resp) (\<lambda>r. case r of
             Inl e \<Rightarrow> trying (fclose f) (\<lambda>_. trying (remove tmp) (\<lambda>_. throw e))
           | Inr _ \<Rightarrow>
         trying (fsync f) (\<lambda>r. case r of
             Inl e \<Rightarrow> trying (fclose f) (\<lambda>_. trying (remove tmp) (\<lambda>_. throw e))
           | Inr _ \<Rightarrow>
         trying (fclose f) (\<lambda>_.
         trying (rename tmp dest) (\<lambda>r. case r of
             Inl e \<Rightarrow> trying (remove tmp) (\<lambda>_. throw e)
           | Inr _ \<Rightarrow>
         seqE (syncDir (path_dir dest)) (\<lambda>_. ret (length (rp_body resp)))))))))
     (\<lambda>r w'. \<exists>s. evolves (fetching dest s ?d) w w' \<and>
         (\<forall>n. r = Inr n \<longrightarrow> n = length s \<and> lookup (w_disk w') dest = Some \<lparr>ino_data = s, ino_synced = True\<rparr>)) w1"
    by (rule wp_mono) blast
qed

text \<open>A download appears whole or not at all: whatever fails, on every disk on the way the
  destination holds its old file or the complete body, synced, and only it and its
  temporary name are touched; success means the body is in place.\<close>

theorem FetchTo_atomic:
  assumes "wf_disk (w_disk w)" and "dest \<noteq> []" and "private_name (path_suffix dest ''.tmp'') (w_disk w)"
    and "FetchTo net url dest w = (r, w')"
  shows "\<exists>s. evolves (\<lambda>h. same_outside {dest, path_suffix dest ''.tmp''} (w_disk w) h \<and>
           lookup h dest \<in> {lookup (w_disk w) dest, Some \<lparr>ino_data = s, ino_synced = True\<rparr>}) w w' \<and>
         (\<forall>n. r = Inr n \<longrightarrow> n = length s \<and> lookup (w_disk w') dest = Some \<lparr>ino_data = s, ino_synced = True\<rparr>)"
proof -
  obtain s where ev: "evolves (fetching dest s (w_disk w)) w w'"
    and ok: "\<forall>n. r = Inr n \<longrightarrow> n = length s \<and> lookup (w_disk w') dest = Some \<lparr>ino_data = s, ino_synced = True\<rparr>"
    using wpD [OF wp_FetchTo [OF assms(1-3)] assms(4)] by blast
  have "evolves (\<lambda>h. same_outside {dest, path_suffix dest ''.tmp''} (w_disk w) h \<and>
           lookup h dest \<in> {lookup (w_disk w) dest, Some \<lparr>ino_data = s, ino_synced = True\<rparr>}) w w'"
    using ev by (rule evolves_mono) (simp add: fetching_def)
  with ok show ?thesis by blast
qed

definition sample_net :: network where
  "sample_net seen url = Inr \<lparr>rp_status = 200, rp_location = None, rp_body = ''body'', rp_broken = False\<rparr>"

lemma FetchTo_atomic_witness:
  "\<exists>s. evolves (\<lambda>h. lookup h [''f''] \<in> {None, Some \<lparr>ino_data = s, ino_synced = True\<rparr>}) (world_of empty_disk)
     (snd (FetchTo sample_net ''https://h/f'' [''f''] (world_of empty_disk)))"
proof -
  have "private_name (path_suffix [''f''] ''.tmp'') (w_disk (world_of empty_disk))"
    by (simp add: private_name_def) (simp add: empty_disk_def)
  moreover have "lookup empty_disk [''f''] = None" by (simp add: lookup_def empty_disk_def)
  ultimately show ?thesis
    using FetchTo_atomic [OF _ _ _ prod.collapse [symmetric], where w = "world_of empty_disk" and dest = "[''f'']" and url = "''https://h/f''" and net = sample_net]
    by (fastforce elim!: evolves_mono)
qed

end
