(* ===== verification/Fwanchor.thy ===== *)
theory Fwanchor
  imports Manifest AtomicFile
begin

section \<open>Firmware anchors and slots\<close>

text \<open>
  internal/otad/fwanchor.go: the signed manifest kept beside a firmware image, re-verified
  offline at boot, and the moves of a bundle's image, hash tree and anchor between the slots
  \<open>-next\<close>, \<open>-active\<close> and \<open>-active.bak\<close>.
\<close>

subsection \<open>Names\<close>

definition fwAnchorManifest :: string where
  "fwAnchorManifest = ''fw-manifest''"

definition fwAnchorCert :: string where
  "fwAnchorCert = ''fw-signing-cert''"

definition anchorPath :: "path \<Rightarrow> string \<Rightarrow> string \<Rightarrow> string \<Rightarrow> path" where
  "anchorPath dir base sl ext = path_join dir (base @ ''-'' @ sl @ ext)"

text \<open>The four files of an anchor, in the order of the loops.\<close>

definition anchor_files :: "(string \<times> string) list" where
  "anchor_files = [(fwAnchorManifest, ''.json''), (fwAnchorManifest, ''.json.sig''),
     (fwAnchorCert, ''.json''), (fwAnchorCert, ''.json.sig'')]"

definition fwImageFiles :: "string list" where
  "fwImageFiles = [''firmware.img'', ''firmware.hash'']"

definition imagePath :: "path \<Rightarrow> string \<Rightarrow> string \<Rightarrow> path" where
  "imagePath dir sl name =
     (let stem = takeWhile (\<lambda>c. c \<noteq> CHR ''.'') name; rest = dropWhile (\<lambda>c. c \<noteq> CHR ''.'') name
      in path_join dir (stem @ ''-'' @ sl @ rest))"

subsection \<open>Operations\<close>

definition WriteFirmwareAnchor :: "path \<Rightarrow> string \<Rightarrow> string \<Rightarrow> string \<Rightarrow> string \<Rightarrow> string \<Rightarrow> unit io" where
  "WriteFirmwareAnchor dir sl man manSig cert certSig =
     seqE (mkdir_all dir) (\<lambda>_.
     for_each [(anchorPath dir fwAnchorManifest sl ''.json'', man),
               (anchorPath dir fwAnchorManifest sl ''.json.sig'', manSig),
               (anchorPath dir fwAnchorCert sl ''.json'', cert),
               (anchorPath dir fwAnchorCert sl ''.json.sig'', certSig)]
       (\<lambda>(p, dat). write_file p dat))"

definition find_bundle :: "string \<Rightarrow> bundle_spec list \<Rightarrow> error + bundle_spec" where
  "find_bundle bundle fws =
    (case List.find (\<lambda>fw. bd_name fw = bundle) fws of
       None \<Rightarrow> Inl (Errorf ''firmware anchor: manifest does not vouch for bundle'')
     | Some fw \<Rightarrow>
         if bd_verity_hash fw = [] then Inl (Errorf ''firmware anchor: bundle carries no verity hash'')
         else Inr fw)"

definition VerifiedFirmwareBundle :: "crypto \<Rightarrow> path \<Rightarrow> string \<Rightarrow> string \<Rightarrow> int \<Rightarrow> string \<Rightarrow> bundle_spec io" where
  "VerifiedFirmwareBundle cr dir sl rootPub now bundle =
     seqE (wrapE ''firmware anchor: no signing cert'' (read_file (anchorPath dir fwAnchorCert sl ''.json''))) (\<lambda>certData.
     seqE (wrapE ''firmware anchor: no cert signature'' (read_file (anchorPath dir fwAnchorCert sl ''.json.sig''))) (\<lambda>certSig.
     seqE (wrapE ''firmware anchor'' (lift_err (VerifyCert cr certData certSig rootPub now))) (\<lambda>(signingPub, _).
     seqE (wrapE ''firmware anchor: no manifest'' (read_file (anchorPath dir fwAnchorManifest sl ''.json''))) (\<lambda>mData.
     seqE (wrapE ''firmware anchor: no manifest signature'' (read_file (anchorPath dir fwAnchorManifest sl ''.json.sig''))) (\<lambda>mSig.
       if \<not> Verify cr mData mSig signingPub then throw (Errorf ''firmware anchor: manifest signature invalid'')
       else seqE (lift_err (ParseManifest mData)) (\<lambda>m.
         lift_err (find_bundle bundle (FirmwareBundleList m))))))))"

definition VerifyFirmwareAnchor :: "crypto \<Rightarrow> path \<Rightarrow> string \<Rightarrow> string \<Rightarrow> int \<Rightarrow> string \<Rightarrow> (string \<times> int) io" where
  "VerifyFirmwareAnchor cr dir sl rootPub now bundle =
     seqE (VerifiedFirmwareBundle cr dir sl rootPub now bundle) (\<lambda>fw. ret (bd_verity_hash fw, bd_version fw))"

text \<open>One file: the active one becomes the backup if there is one, the candidate becomes active.\<close>

definition activate_file :: "path \<Rightarrow> path \<Rightarrow> unit io" where
  "activate_file nxt act =
     trying (stat act) (\<lambda>r. case r of
         Inl e \<Rightarrow> rename nxt act
       | Inr _ \<Rightarrow> trying (rename act (path_suffix act ''.bak'')) (\<lambda>_. rename nxt act))"

definition restore_file :: "path \<Rightarrow> unit io" where
  "restore_file act =
     (let bak = path_suffix act ''.bak'' in
      trying (stat bak) (\<lambda>r. case r of Inl e \<Rightarrow> ret () | Inr _ \<Rightarrow> rename bak act))"

definition ActivateFirmwareAnchor :: "path \<Rightarrow> unit io" where
  "ActivateFirmwareAnchor dir = for_each anchor_files (\<lambda>(base, ext).
     let nxt = anchorPath dir base ''next'' ext; act = anchorPath dir base ''active'' ext in
     seqE (wrapE ''activate firmware anchor: missing'' (stat nxt)) (\<lambda>_. activate_file nxt act))"

definition RollbackFirmwareAnchor :: "path \<Rightarrow> unit io" where
  "RollbackFirmwareAnchor dir = for_each anchor_files (\<lambda>(base, ext).
     restore_file (anchorPath dir base ''active'' ext))"

definition activate_image :: "path \<Rightarrow> nat \<times> string \<Rightarrow> unit io" where
  "activate_image dir = (\<lambda>(i, name).
     let nxt = imagePath dir ''next'' name; act = imagePath dir ''active'' name in
     trying (stat nxt) (\<lambda>r. case r of
         Inl e \<Rightarrow> if i = 0 then throw (Wrap ''activate firmware slot: missing'' e) else ret ()
       | Inr _ \<Rightarrow> activate_file nxt act))"

definition ActivateFirmwareSlot :: "path \<Rightarrow> unit io" where
  "ActivateFirmwareSlot dir =
     seqE (for_each (List.enumerate 0 fwImageFiles) (activate_image dir)) (\<lambda>_. ActivateFirmwareAnchor dir)"

definition RollbackFirmwareSlot :: "path \<Rightarrow> unit io" where
  "RollbackFirmwareSlot dir =
     seqE (RollbackFirmwareAnchor dir) (\<lambda>_.
     for_each fwImageFiles (\<lambda>name. restore_file (imagePath dir ''active'' name)))"

definition FinalizeFirmwareSlot :: "path \<Rightarrow> unit io" where
  "FinalizeFirmwareSlot dir =
     seqE (for_each fwImageFiles (\<lambda>name. ignoring (remove (path_suffix (imagePath dir ''active'' name) ''.bak'')))) (\<lambda>_.
     for_each anchor_files (\<lambda>(base, ext). ignoring (remove (path_suffix (anchorPath dir base ''active'' ext) ''.bak''))))"

subsection \<open>The offline check\<close>

text \<open>\<open>anchored\<close>: the four files of the slot form a valid chain that vouches for the bundle.\<close>

definition anchored :: "crypto \<Rightarrow> disk \<Rightarrow> path \<Rightarrow> string \<Rightarrow> string \<Rightarrow> int \<Rightarrow> string \<Rightarrow> bundle_spec \<Rightarrow> bool" where
  "anchored cr d dir sl rootPub now bundle fw \<longleftrightarrow>
     (\<exists>cert certSig mData mSig pub v m.
        file_data d (anchorPath dir fwAnchorCert sl ''.json'') = Some cert \<and>
        file_data d (anchorPath dir fwAnchorCert sl ''.json.sig'') = Some certSig \<and>
        file_data d (anchorPath dir fwAnchorManifest sl ''.json'') = Some mData \<and>
        file_data d (anchorPath dir fwAnchorManifest sl ''.json.sig'') = Some mSig \<and>
        vouched cr rootPub now cert certSig pub v \<and> Verify cr mData mSig pub \<and>
        ParseManifest mData = Inr m \<and> fw \<in> set (FirmwareBundleList m) \<and> bd_name fw = bundle \<and>
        bd_verity_hash fw \<noteq> [])"

lemma find_bundle_Inr:
  "find_bundle bundle fws = Inr fw \<Longrightarrow> fw \<in> set fws \<and> bd_name fw = bundle \<and> bd_verity_hash fw \<noteq> []"
  by (auto simp: find_bundle_def split: option.splits if_splits dest: find_Some_set)

lemma wp_read_file:
  "wp (wrapE s (read_file p)) (\<lambda>r w'. w_disk w' = w_disk w \<and> w_history w' = w_history w \<and>
     (\<forall>x. r = Inr x \<longrightarrow> file_data (w_disk w) p = Some x)) w"
  by (auto simp: wp_simps sys_defs file_data_def split: option.splits)

lemma wp_VerifiedFirmwareBundle:
  "wp (VerifiedFirmwareBundle cr dir sl rootPub now bundle) (\<lambda>r w'. w_disk w' = w_disk w \<and> w_history w' = w_history w \<and>
     (\<forall>fw. r = Inr fw \<longrightarrow> anchored cr (w_disk w) dir sl rootPub now bundle fw)) w"
proof -
  have rd: "wp (seqE (wrapE s (read_file p)) k) Q w1"
    if "w_disk w1 = w_disk w" "w_history w1 = w_history w"
      "\<And>e w2. w_disk w2 = w_disk w \<Longrightarrow> w_history w2 = w_history w \<Longrightarrow> Q (Inl e) w2"
      "\<And>x w2. w_disk w2 = w_disk w \<Longrightarrow> w_history w2 = w_history w \<Longrightarrow> file_data (w_disk w) p = Some x \<Longrightarrow> wp (k x) Q w2"
    for s p and k :: "string \<Rightarrow> bundle_spec io" and Q w1
    by (rule wp_seqEI [OF wp_read_file]) (use that in auto)
  have tail: "wp (if \<not> Verify cr mData mSig pub then throw (Errorf ''firmware anchor: manifest signature invalid'')
       else seqE (lift_err (ParseManifest mData)) (\<lambda>m. lift_err (find_bundle bundle (FirmwareBundleList m))))
     (\<lambda>r w'. w_disk w' = w_disk w \<and> w_history w' = w_history w \<and>
       (\<forall>fw. r = Inr fw \<longrightarrow> anchored cr (w_disk w) dir sl rootPub now bundle fw)) w1"
    if "w_disk w1 = w_disk w" "w_history w1 = w_history w" "vouched cr rootPub now certData certSig pub v"
      "file_data (w_disk w) (anchorPath dir fwAnchorCert sl ''.json'') = Some certData"
      "file_data (w_disk w) (anchorPath dir fwAnchorCert sl ''.json.sig'') = Some certSig"
      "file_data (w_disk w) (anchorPath dir fwAnchorManifest sl ''.json'') = Some mData"
      "file_data (w_disk w) (anchorPath dir fwAnchorManifest sl ''.json.sig'') = Some mSig"
    for certData certSig mData mSig pub v w1
    using that by (auto simp: wp_simps anchored_def dest!: find_bundle_Inr split: sum.splits)
  show ?thesis
    unfolding VerifiedFirmwareBundle_def
  proof (rule rd, simp, simp, simp, rule rd, assumption, assumption, simp)
    fix certData certSig and w1 :: world
    assume w1: "w_disk w1 = w_disk w" "w_history w1 = w_history w"
      and c: "file_data (w_disk w) (anchorPath dir fwAnchorCert sl ''.json'') = Some certData"
        "file_data (w_disk w) (anchorPath dir fwAnchorCert sl ''.json.sig'') = Some certSig"
    show "wp (seqE (wrapE ''firmware anchor'' (lift_err (VerifyCert cr certData certSig rootPub now))) (\<lambda>(signingPub, _).
       seqE (wrapE ''firmware anchor: no manifest'' (read_file (anchorPath dir fwAnchorManifest sl ''.json''))) (\<lambda>mData.
       seqE (wrapE ''firmware anchor: no manifest signature'' (read_file (anchorPath dir fwAnchorManifest sl ''.json.sig''))) (\<lambda>mSig.
         if \<not> Verify cr mData mSig signingPub then throw (Errorf ''firmware anchor: manifest signature invalid'')
         else seqE (lift_err (ParseManifest mData)) (\<lambda>m.
           lift_err (find_bundle bundle (FirmwareBundleList m)))))))
       (\<lambda>r w'. w_disk w' = w_disk w \<and> w_history w' = w_history w \<and>
         (\<forall>fw. r = Inr fw \<longrightarrow> anchored cr (w_disk w) dir sl rootPub now bundle fw)) w1"
    proof (cases "VerifyCert cr certData certSig rootPub now")
      case (Inl e)
      then show ?thesis using w1 by (simp add: wp_seqE wp_wrapE wp_lift_err)
    next
      case (Inr x)
      obtain pub v where x: "x = (pub, v)" by (cases x)
      then have vc: "vouched cr rootPub now certData certSig pub v" using Inr VerifyCert_iff by auto
      show ?thesis
        unfolding Inr x
        by (subst wp_seqE, simp add: wp_wrapE wp_lift_err)
          (rule rd [OF w1], simp, rule rd, assumption, assumption, simp, rule tail [OF _ _ vc c], assumption+)
    qed
  qed
qed

text \<open>At boot a firmware bundle's hash is only handed out when the whole chain on the disk
  holds: the root key signed the certificate, its key signed the stored manifest, and that
  manifest names the bundle with a dm-verity hash. The check changes nothing, whatever fails.\<close>

theorem VerifiedFirmwareBundle_sound:
  assumes "VerifiedFirmwareBundle cr dir sl rootPub now bundle w = (Inr fw, w')"
  shows "anchored cr (w_disk w) dir sl rootPub now bundle fw \<and> w_disk w' = w_disk w \<and> w_history w' = w_history w"
  using wpD [OF wp_VerifiedFirmwareBundle assms] by simp

text \<open>A slot directory that holds a valid anchor for the bundle \<open>wifi\<close>.\<close>

definition wifi_manifest :: string where
  "wifi_manifest = json_indent 0 (JObj [(''version'', JStr ''v43''), (''rootfs_url'', JStr ''http://h/r''),
     (''rootfs_hash'', JStr ''00''), (''kernelcache_url'', JStr ''http://h/k''), (''kernelcache_hash'', JStr ''00''),
     (''firmware_bundles'', JArr [JObj [(''name'', JStr ''wifi''), (''url'', JStr ''http://h/w''), (''hash'', JStr ''00''),
        (''verity_hash'', JStr ''ab''), (''hashtree_url'', JStr ''http://h/t''), (''hashtree_hash'', JStr ''00''),
        (''version'', JInt 3)]])])"

definition wifi_disk :: disk where
  "wifi_disk = fold (\<lambda>(base, ext, s). put_file (anchorPath [''fw''] base ''active'' ext) s)
     [(fwAnchorManifest, ''.json'', wifi_manifest), (fwAnchorManifest, ''.json.sig'', sample_sig),
      (fwAnchorCert, ''.json'', sample_cert), (fwAnchorCert, ''.json.sig'', sample_sig)] empty_disk"

definition wifi_check :: "(error + bundle_spec) \<times> world" where
  "wifi_check = VerifiedFirmwareBundle sample_crypto [''fw''] ''active'' sample_key 0 ''wifi'' (world_of wifi_disk)"

lemma wifi_check_accepts: "case fst wifi_check of Inl e \<Rightarrow> False | Inr fw \<Rightarrow> bd_verity_hash fw = ''ab''"
  by code_simp

lemma VerifiedFirmwareBundle_sound_witness:
  "\<exists>fw. anchored sample_crypto wifi_disk [''fw''] ''active'' sample_key 0 ''wifi'' fw \<and> bd_verity_hash fw = ''ab''"
proof -
  obtain fw where fw: "fst wifi_check = Inr fw" "bd_verity_hash fw = ''ab''"
    using wifi_check_accepts by (auto split: sum.splits)
  then show ?thesis
    using VerifiedFirmwareBundle_sound [of sample_crypto "[''fw'']" "''active''" sample_key 0 "''wifi''" "world_of wifi_disk" fw "snd wifi_check"]
    by (auto simp: wifi_check_def prod_eq_iff world_of_def)
qed

end
