(* ===== verification/Running.thy ===== *)
theory Running
  imports Wal Slots Fetch Hwselect Fwanchor Counter
begin

section \<open>The running system and its candidate\<close>

text \<open>
  The identity of the booted image (internal/otad/otad.go), the promotion of the running
  candidate that staging starts with (internal/otad/promote.go), and the boot state that follows
  the record. What the operations take from outside the program is the record \<open>env\<close>: the
  cryptography, the network, the clock, the kernel's command line file, the PCI devices, the
  shell and the health scripts.
\<close>

subsection \<open>The environment\<close>

record dir_entry =
  de_name :: string
  de_is_dir :: bool
  de_mode :: "nat option"

text \<open>\<open>e_now k\<close> is the \<open>k\<close>-th reading of the clock in nanoseconds, \<open>e_clock k\<close> the same as
  text; \<open>e_readdir\<close> lists a directory by name, with the permission bits of an entry unless
  \<open>Info\<close> fails; \<open>e_exec\<close> is how a script run ends. What a script does to the files is not
  modelled.\<close>

record env =
  e_crypto :: crypto
  e_net :: network
  e_now :: "nat \<Rightarrow> int"
  e_clock :: clock
  e_devs :: "path list"
  e_cmdline :: path
  e_sh :: shell
  e_readdir :: "path \<Rightarrow> error + dir_entry list"
  e_exec :: "path \<Rightarrow> error option"

text \<open>\<open>syscall.Sync\<close>. It cannot fail, and that it makes more data durable is not used.\<close>

definition sync_all :: "unit io" where
  "sync_all = ret ()"

definition wrap_opt :: "string option \<Rightarrow> 'a io \<Rightarrow> 'a io" where
  "wrap_opt ms m = (case ms of None \<Rightarrow> m | Some s \<Rightarrow> wrapE s m)"

subsection \<open>The booted identity\<close>

record boot_identity =
  bi_verity_hash :: string
  bi_version :: string

definition zero_identity :: boot_identity where
  "zero_identity = \<lparr>bi_verity_hash = [], bi_version = []\<rparr>"

definition with_prefix :: "string \<Rightarrow> string \<Rightarrow> (string \<Rightarrow> 'a \<Rightarrow> 'a) \<Rightarrow> 'a \<Rightarrow> 'a" where
  "with_prefix p tok f x = (case cut_prefix p tok of None \<Rightarrow> x | Some v \<Rightarrow> f v x)"

definition identity_token :: "boot_identity \<Rightarrow> string \<Rightarrow> boot_identity" where
  "identity_token i0 tok =
    (let i1 = with_prefix ''ATOM_ROOT_HASH='' tok (\<lambda>v i. i\<lparr>bi_verity_hash := v\<rparr>) i0;
         i2 = with_prefix ''sing.roothash='' tok (\<lambda>v i. i\<lparr>bi_verity_hash := v\<rparr>) i1;
         i3 = with_prefix ''ATOM_VERSION='' tok (\<lambda>v i. i\<lparr>bi_version := v\<rparr>) i2
     in with_prefix ''atom.version='' tok (\<lambda>v i. i\<lparr>bi_version := v\<rparr>) i3)"

definition parse_cmdline :: "string \<Rightarrow> boot_identity" where
  "parse_cmdline b = foldl identity_token zero_identity (Prelude.fields b)"

definition bootedIdentity :: "path \<Rightarrow> boot_identity io" where
  "bootedIdentity cmdline = trying (read_file cmdline) (\<lambda>r. ret (case r of Inl e \<Rightarrow> zero_identity | Inr b \<Rightarrow> parse_cmdline b))"

definition sameRelease :: "string \<Rightarrow> string \<Rightarrow> bool" where
  "sameRelease a b \<longleftrightarrow> trim_prefix ''v'' a = trim_prefix ''v'' b"

definition identity_confirmed :: "boot_identity \<Rightarrow> deployment \<Rightarrow> bool" where
  "identity_confirmed bi d \<longleftrightarrow>
     bi_verity_hash bi \<noteq> [] \<and> rf_pending_hash (d_rootfs d) \<noteq> [] \<and>
     bi_verity_hash bi = rf_pending_hash (d_rootfs d) \<and>
     bi_version bi \<noteq> [] \<and> sameRelease (bi_version bi) (rf_pending (d_rootfs d))"

definition pendingUpdateError :: "path \<Rightarrow> deployment \<Rightarrow> string \<Rightarrow> error io" where
  "pendingUpdateError cmdline d what =
     seqE (bootedIdentity cmdline) (\<lambda>bi.
       if bi_verity_hash bi \<noteq> [] \<and> bi_verity_hash bi = rf_pending_hash (d_rootfs d) then
         (let threshold = (if kc_stable_threshold (d_kernelcache d) \<le> 0 then 3 else kc_stable_threshold (d_kernelcache d))
          in ret (Errorf (what @ '': the system update is being confirmed ('' @ itoa (kc_stable_boots (d_kernelcache d)) @
               '' of '' @ itoa threshold @ '' good starts), restart to finish it first'')))
       else ret (Errorf (what @ '': a system update is waiting for a reboot, finish it first'')))"

subsection \<open>Promotion of the running candidate\<close>

definition active_boot_state :: boot_state where
  "active_boot_state = \<lparr>bs_target = ''active'', bs_trial = False, bs_attempts = 0\<rparr>"

text \<open>
  The commit of a promotion, which promote.go and \<open>BootSuccess\<close> share: slots, boot state,
  record, in this order. They differ in the texts they wrap the first two errors with.
\<close>

definition commit_promotion :: "env \<Rightarrow> path \<Rightarrow> stage_dirs \<Rightarrow> string option \<Rightarrow> string option \<Rightarrow> deployment \<Rightarrow> unit io" where
  "commit_promotion en walPath dirs ms1 ms2 d =
     seqE (wrap_opt ms1 (PromoteSlots (sha256 (e_crypto en)) dirs)) (\<lambda>_.
     seqE sync_all (\<lambda>_.
     seqE (if sd_esp dirs \<noteq> [] then wrap_opt ms2 (WriteBootState (boot_state_path dirs) active_boot_state) else ret ()) (\<lambda>_.
     seqE sync_all (\<lambda>_.
     seqE (Save walPath d) (\<lambda>_.
     seqE (CleanupNextSlots dirs) (\<lambda>_. sync_all))))))"

definition promoteRunningCandidate :: "env \<Rightarrow> path \<Rightarrow> stage_dirs \<Rightarrow> bool io" where
  "promoteRunningCandidate en walPath dirs =
     seqE (Load walPath) (\<lambda>d.
       if \<not> HasPending d \<or> kc_stable_boots (d_kernelcache d) < 1 then ret False
       else seqE (bootedIdentity (e_cmdline en)) (\<lambda>bi.
         if \<not> identity_confirmed bi d then ret False
         else seqE (commit_promotion en walPath dirs None None (PromoteRunning (e_clock en) d)) (\<lambda>_. ret True)))"

definition SyncBootState :: "path \<Rightarrow> stage_dirs \<Rightarrow> unit io" where
  "SyncBootState walPath dirs = seqE (Load walPath) (\<lambda>d. writeDeploymentBootState d dirs)"

subsection \<open>The order of a commit\<close>

lemma wrap_opt_Inr: "m w = (Inr x, w') \<Longrightarrow> wrap_opt ms m w = (Inr x, w')"
  by (cases ms) (simp_all add: wrap_opt_def wrapE_def trying_def ret_def)

lemma wal_of_cong:
  "lookup h p = lookup d p \<Longrightarrow> lookup h (path_suffix p BakSuffix) = lookup d (path_suffix p BakSuffix) \<Longrightarrow>
   wal_of p h = wal_of p d"
  using wal_at_cong [of h p d] wal_at_cong [of h "path_suffix p BakSuffix" d] by (simp add: wal_of_def split: option.split)

text \<open>The active and previous slot files, the candidate files, and the record are different files.\<close>

definition active_names :: "stage_dirs \<Rightarrow> path set" where
  "active_names dirs = \<Union> (slot_names ` set (slot_list (slot_groups dirs)))"

definition next_names :: "stage_dirs \<Rightarrow> path set" where
  "next_names dirs = (\<lambda>(g, s). slot_file g SlotNext s) ` set (slot_list (slot_groups dirs))"

definition apart :: "path \<Rightarrow> stage_dirs \<Rightarrow> bool" where
  "apart p dirs \<longleftrightarrow> sd_rootfs dirs \<noteq> [] \<and> sd_esp dirs \<noteq> [] \<and> plain_path p \<and>
     wal_files p \<inter> (active_names dirs \<union> next_names dirs \<union> {boot_state_path dirs}) = {}"

lemma wal_same_outside:
  assumes "same_outside S d h" and "plain_path p" and "wal_files p \<inter> (S - dot_names) = {}"
  shows "wal_of p h = wal_of p d"
proof -
  have "q \<notin> S" if "q \<in> wal_files p" for q
    using assms(2,3) that plain_path_names [OF assms(2)] by (auto simp: wal_files_def)
  then show ?thesis
    using same_outsideD [OF assms(1)] by (intro wal_of_cong) (simp_all add: wal_files_def)
qed

lemma boot_state_path_fresh [simp]:
  "boot_state_path dirs \<notin> dot_names" "boot_state_path dirs \<notin> active_names dirs" "boot_state_path dirs \<notin> next_names dirs"
  by (simp_all add: boot_state_path_def active_names_def next_names_def slot_list_def slot_groups_def slot_names_def
      slot_file_def dot_names_join_iff has_prefix_def)

lemma next_active_disjoint: "next_names dirs \<inter> active_names dirs = {}"
  by (auto simp: active_names_def next_names_def slot_list_def slot_groups_def slot_names_def slot_file_def)

lemma promoted_cong:
  assumes "\<forall>q \<in> slot_names (g, s). lookup h q = lookup h' q"
  shows "promoted sha d (g, s) h = promoted sha d (g, s) h'"
  using assms by (simp add: promoted_def Let_def slot_names_def file_data_def)

lemma promoted_same_outside:
  assumes "same_outside S h h'" and "S \<inter> active_names dirs = {}" and "f \<in> set (slot_list (slot_groups dirs))"
    and "promoted sha d f h"
  shows "promoted sha d f h'"
proof -
  obtain g s where f: "f = (g, s)" by (cases f)
  have "\<forall>q \<in> slot_names (g, s). lookup h' q = lookup h q"
    using assms(1-3) f unfolding active_names_def same_outside_def by blast
  then show ?thesis using assms(4) f promoted_cong [of g s h' h sha d] by simp
qed

lemma wp_ignoring_any: "(\<And>w'. Q (Inr ()) w') \<Longrightarrow> wp (ignoring m) Q w"
  unfolding ignoring_def by (rule wp_tryingI [where P = "\<lambda>_ _. True"]) (simp_all add: wp_def ret_def split: prod.split)

lemma CleanupNextSlots_ok:
  assumes "wf_disk (w_disk w)" and "sd_esp dirs \<noteq> []" and "sd_rootfs dirs \<noteq> []"
  shows "\<exists>w'. CleanupNextSlots dirs w = (Inr (), w') \<and>
    evolves (\<lambda>h. wf_disk h \<and> same_outside (next_names dirs) (w_disk w) h) w w'"
proof -
  obtain r w' where run: "CleanupNextSlots dirs w = (r, w')" by fastforce
  have "path_join (sd_esp dirs) (''kernelcache-next'' @ s) \<in> next_names dirs" if "s \<in> {''.efi'', ''.efi.sig''}" for s
    using that by (auto simp: next_names_def slot_list_def slot_groups_def slot_file_def)
  moreover have "path_join (sd_rootfs dirs) (''rootfs-next'' @ s) \<in> next_names dirs" if "s \<in> {''.erofs'', ''.hash''}" for s
    using that by (auto simp: next_names_def slot_list_def slot_groups_def slot_file_def)
  ultimately have "frames (next_names dirs) (CleanupNextSlots dirs)"
    unfolding CleanupNextSlots_def by (intro frames_intros) auto
  then have "evolves (\<lambda>h. wf_disk h \<and> same_outside (next_names dirs) (w_disk w) h) w w'"
    using framesD assms(1) run by blast
  moreover have "wp (CleanupNextSlots dirs) (\<lambda>r w'. r = Inr ()) w"
    using assms(2,3) by (simp add: CleanupNextSlots_def wp_ignoring_any wp_seqE wp_ret)
  ultimately show ?thesis using run wpD by blast
qed

lemma commit_promotion_run:
  assumes calm: "calm (11 + k) w" and ap: "apart p dirs" and d: "storable d"
    and st: "\<forall>f \<in> set (slot_list (slot_groups dirs)). staged_slot (w_disk w) f"
  shows "\<exists>w'. commit_promotion en p dirs ms1 ms2 d w = (Inr (), w') \<and>
     wal_of p (w_disk w') = Some (stored d) \<and>
     evolves (\<lambda>h. wal_of p h = wal_of p (w_disk w) \<or>
        (wal_of p h = Some (stored d) \<and> boot_state_at (boot_state_path dirs) h = Some active_boot_state \<and>
         (\<forall>f \<in> set (slot_list (slot_groups dirs)). promoted (sha256 (e_crypto en)) (w_disk w) f h))) w w'"
proof -
  let ?sha = "sha256 (e_crypto en)" and ?fs = "set (slot_list (slot_groups dirs))" and ?b = "boot_state_path dirs"
  let ?P = "\<lambda>h. wal_of p h = wal_of p (w_disk w) \<or>
        (wal_of p h = Some (stored d) \<and> boot_state_at ?b h = Some active_boot_state \<and>
         (\<forall>f \<in> ?fs. promoted ?sha (w_disk w) f h))"
  have plain: "plain_path p" and ne: "sd_esp dirs \<noteq> []" "sd_rootfs dirs \<noteq> []"
    and dis: "wal_files p \<inter> active_names dirs = {}" "wal_files p \<inter> next_names dirs = {}" "?b \<notin> wal_files p"
    using ap by (auto simp: apart_def)
  have wf: "wf_disk (w_disk w)" using calm by (simp add: calm_def clean_def)
  have "calm (8 + (3 + k)) w" using calm by simp
  from calm_PromoteSlots [OF this st, of ?sha]
  obtain w1 where w1: "PromoteSlots ?sha dirs w = (Inr (), w1)" "calm (3 + k) w1"
    "\<forall>f \<in> ?fs. promoted ?sha (w_disk w) f (w_disk w1)" by blast
  have "evolves (promote_disks (slot_list (slot_groups dirs)) (w_disk w)) w w1"
    using wpD [OF wp_PromoteSlots [OF wf] w1(1)] .
  moreover have "wal_of p h = wal_of p (w_disk w)" if "promote_disks (slot_list (slot_groups dirs)) (w_disk w) h" for h
    using that dis(1) by (intro wal_same_outside [OF _ plain]) (auto simp: promote_disks_def active_names_def)
  ultimately have ev1: "evolves (\<lambda>h. wal_of p h = wal_of p (w_disk w)) w w1" by (auto elim: evolves_mono)
  have "calm (Suc (2 + k)) w1" using w1(2) by (simp add: numeral_3_eq_3)
  from calm_WriteBootState [OF this boot_state_path_fresh(1), where b = active_boot_state]
  obtain w2 where w2: "WriteBootState ?b active_boot_state w1 = (Inr (), w2)" "calm (2 + k) w2"
    "lookup (w_disk w2) = (lookup (w_disk w1))(?b := Some \<lparr>ino_data = Marshal active_boot_state, ino_synced = True\<rparr>)" by blast
  have so2: "same_outside {?b} (w_disk w1) (w_disk w2)" using w2(3) by (simp add: same_outside_def)
  have b2: "boot_state_at ?b (w_disk w2) = Some active_boot_state"
    by (rule boot_state_at_new [where x = True]) (use w2(3) in \<open>simp_all add: boot_text_ok_def active_boot_state_def newline_def int64_range_def is_space_def\<close>)
  have pr2: "\<forall>f \<in> ?fs. promoted ?sha (w_disk w) f (w_disk w2)"
    using w1(3) promoted_same_outside [OF so2, where dirs = dirs] by simp
  have "evolves (replaced ?b \<lparr>ino_data = Marshal active_boot_state, ino_synced = True\<rparr> (w_disk w1)) w1 w2"
    using wpD [OF wp_WriteBootState w2(1)] w1(2) by (simp add: calm_def clean_def)
  moreover have "wal_of p h = wal_of p (w_disk w1)" if "replaced ?b n (w_disk w1) h" for h n
    using that dis(3) by (intro wal_same_outside [OF _ plain]) (auto simp: replaced_def)
  ultimately have "evolves (\<lambda>h. wal_of p h = wal_of p (w_disk w1)) w1 w2" by (auto elim: evolves_mono)
  then have ev2: "evolves (\<lambda>h. wal_of p h = wal_of p (w_disk w)) w w2"
    using evolves_final [OF ev1] by (intro evolves_trans [OF ev1]) simp
  obtain w3 where w3: "Save p d w2 = (Inr (), w3)" "calm k w3" "saved p d (w_disk w3)"
    using calm_Save [OF w2(2) plain] by blast
  have wf2: "wf_disk (w_disk w2)" using w2(2) by (simp add: calm_def clean_def)
  have "evolves (wal_step_disk p d (w_disk w2)) w2 w3"
    using wpD [OF wp_Save [OF wf2 plain d] w3(1)] by blast
  moreover have step: "?P h \<and> boot_state_at ?b h = Some active_boot_state \<and> (\<forall>f \<in> ?fs. promoted ?sha (w_disk w) f h)"
    if "wal_step_disk p d (w_disk w2) h" for h
  proof -
    have so: "same_outside (wal_files p \<union> dot_names) (w_disk w2) h"
      and wl: "wal_of p h \<in> {wal_of p (w_disk w2), Some (stored d)}"
      using that by (auto simp: wal_step_disk_def)
    have "lookup h ?b = lookup (w_disk w2) ?b" using same_outsideD [OF so] dis(3) by simp
    then have b: "boot_state_at ?b h = Some active_boot_state" using b2 boot_state_at_cong by metis
    have "(wal_files p \<union> dot_names) \<inter> active_names dirs = {}"
      using dis(1) slot_file_not_dot by (fastforce simp: active_names_def slot_names_def slot_list_def slot_groups_def plain_slot_def has_prefix_def)
    then have pr: "\<forall>f \<in> ?fs. promoted ?sha (w_disk w) f h"
      using pr2 promoted_same_outside [OF so] by blast
    show ?thesis using wl evolves_final [OF ev2] b pr by auto
  qed
  ultimately have ev3: "evolves ?P w2 w3" by (auto elim!: evolves_mono)
  have wf3: "wf_disk (w_disk w3)" using w3(2) by (simp add: calm_def clean_def)
  obtain w4 where w4: "CleanupNextSlots dirs w3 = (Inr (), w4)"
    "evolves (\<lambda>h. wf_disk h \<and> same_outside (next_names dirs) (w_disk w3) h) w3 w4"
    using CleanupNextSlots_ok [OF wf3 ne] by blast
  have fin3: "wal_of p (w_disk w3) = Some (stored d)" using saved_content [OF d w3(3)] .
  have last: "wal_of p h = Some (stored d) \<and> boot_state_at ?b h = Some active_boot_state \<and> (\<forall>f \<in> ?fs. promoted ?sha (w_disk w) f h)"
    if "same_outside (next_names dirs) (w_disk w3) h" for h
  proof -
    have s3: "wal_step_disk p d (w_disk w2) (w_disk w3)"
      using wpD [OF wp_Save [OF wf2 plain d] w3(1)] evolves_final by blast
    have "wal_of p h = wal_of p (w_disk w3)"
      using that dis(2) by (intro wal_same_outside [OF _ plain]) auto
    moreover have "lookup h ?b = lookup (w_disk w3) ?b" using same_outsideD [OF that] by simp
    then have "boot_state_at ?b h = Some active_boot_state" using step [OF s3] boot_state_at_cong by metis
    ultimately show ?thesis
      using fin3 step [OF s3] promoted_same_outside [OF that next_active_disjoint] by simp
  qed
  have ev4: "evolves ?P w3 w4" using w4(2) by (rule evolves_mono) (use last in blast)
  have "evolves ?P w w2" using ev2 by (rule evolves_mono) simp
  then have "evolves ?P w w4" using ev3 ev4 evolves_trans by blast
  moreover have "wal_of p (w_disk w4) = Some (stored d)" using last evolves_final [OF w4(2)] by blast
  moreover have "commit_promotion en p dirs ms1 ms2 d w = (Inr (), w4)"
    using wrap_opt_Inr [where m = "PromoteSlots ?sha dirs", OF w1(1)]
      wrap_opt_Inr [where m = "WriteBootState ?b active_boot_state", OF w2(1)] w3(1) w4(1) ne
    by (simp add: commit_promotion_def seqE_def trying_def sync_all_def ret_def)
  ultimately show ?thesis by blast
qed

text \<open>C27. The commit of a promotion is ordered. Without failures and with a complete candidate it ends
  with the promoted record, and on every disk it passes through, hence after a crash at any moment,
  the record that a reboot loads is the old one, or it is the promoted one and by then every slot
  file has been promoted and the boot state selects the active slot. So such a crash never leaves a
  record that calls the candidate committed beside slots that still hold the old system. A failing
  \<open>stat\<close> can: it makes \<open>nonEmpty\<close> skip a slot.\<close>

theorem commit_promotion_ordered:
  assumes "calm (11 + k) w" and "apart p dirs" and "storable d"
    and "\<forall>f \<in> set (slot_list (slot_groups dirs)). staged_slot (w_disk w) f"
  shows "\<exists>w'. commit_promotion en p dirs ms1 ms2 d w = (Inr (), w') \<and>
     wal_of p (w_disk w') = Some (stored d) \<and>
     evolves (\<lambda>h. wal_of p h = wal_of p (w_disk w) \<or>
        (wal_of p h = Some (stored d) \<and> boot_state_at (boot_state_path dirs) h = Some active_boot_state \<and>
         (\<forall>f \<in> set (slot_list (slot_groups dirs)). promoted (sha256 (e_crypto en)) (w_disk w) f h))) w w'"
  using commit_promotion_run [OF assms] .

definition sample_env :: env where
  "sample_env = \<lparr>e_crypto = sample_crypto, e_net = (\<lambda>_ _. Inl (Errorf ''offline'')), e_now = (\<lambda>_. 0),
     e_clock = (\<lambda>_. ''2026-01-02T00:00:00Z''), e_devs = [], e_cmdline = [''proc'', ''cmdline''],
     e_sh = (\<lambda>_ _. throw (Errorf ''no shell'')), e_readdir = (\<lambda>_. Inl (Sys ENOENT)), e_exec = (\<lambda>_. None)\<rparr>"

definition promo_world :: world where
  "promo_world = (world_of sample_slots)\<lparr>w_entropy := replicate 11 ''0''\<rparr>"

lemma promo_world_calm: "calm 11 promo_world"
  using clean_sample_slots by (simp add: calm_def promo_world_def world_of_def)

lemma apart_sample: "apart sample_path sample_dirs"
  using sample_path_ok [unfolded sample_path_def] by (simp add: apart_def sample_dirs_def wal_files_def sample_path_def BakSuffix_def active_names_def
      next_names_def slot_list_def slot_groups_def slot_names_def slot_file_def boot_state_path_def path_suffix_def path_join_def)

lemma commit_promotion_ordered_witness:
  "\<exists>w'. commit_promotion sample_env sample_path sample_dirs None None sample_storable promo_world = (Inr (), w') \<and>
     wal_of sample_path (w_disk w') = Some sample_storable"
proof -
  have "calm (11 + 0) promo_world" using promo_world_calm by simp
  moreover have "\<forall>f \<in> set (slot_list (slot_groups sample_dirs)). staged_slot (w_disk promo_world) f"
    using sample_slots_staged by (simp add: promo_world_def)
  ultimately show ?thesis
    using commit_promotion_ordered [OF _ apart_sample sample_storable_ok(1), of 0 promo_world sample_env None None]
    by (auto simp: sample_storable_ok(2))
qed

end
