(* ===== verification/Confine.thy ===== *)
theory Confine
  imports Running
begin

section \<open>What an operation may write\<close>

text \<open>
  Frames for the operations that also write files in place. \<open>in_place\<close> are the names the
  program opens with \<open>os.Create\<close> or \<open>os.WriteFile\<close>: downloads (\<open>.tmp\<close>), firmware
  anchors (\<open>fw-\<close>) and loader markers (\<open>loader-\<close>). A disk is \<open>unshared\<close> when no such name
  is a hard link of another one, and every operation of the program keeps it so; then writing
  one file changes no other. \<open>confined S m\<close>: from an unshared disk, whatever fails, \<open>m\<close>
  leaves every file outside \<open>S\<close> as it was at every moment, and the disk unshared.
\<close>

subsection \<open>Unshared disks\<close>

definition in_place :: "path set" where
  "in_place = {p. p \<noteq> [] \<and> \<not> has_prefix ''.'' (last p) \<and>
     (has_suffix ''.tmp'' (last p) \<or> has_prefix ''fw-'' (last p) \<or> last p \<in> {''loader-candidate'', ''loader-ran'', ''loader-failed'', ''loader-auto''})}"

definition unshared :: "disk \<Rightarrow> bool" where
  "unshared h \<longleftrightarrow> wf_disk h \<and> (\<forall>t \<in> in_place. private_name t h)"

definition keeps :: "'a io \<Rightarrow> bool" where
  "keeps m \<longleftrightarrow> (\<forall>w. unshared (w_disk w) \<longrightarrow> wp m (\<lambda>r w'. unshared (w_disk w')) w)"

lemma keepsI: "(\<And>w. unshared (w_disk w) \<Longrightarrow> wp m (\<lambda>r w'. unshared (w_disk w')) w) \<Longrightarrow> keeps m"
  by (simp add: keeps_def)

lemma keepsD: "keeps m \<Longrightarrow> unshared (w_disk w) \<Longrightarrow> wp m (\<lambda>r w'. unshared (w_disk w')) w"
  by (simp add: keeps_def)

lemma unshared_wf: "unshared h \<Longrightarrow> wf_disk h"
  by (simp add: unshared_def)

lemma unsharedD: "unshared h \<Longrightarrow> t \<in> in_place \<Longrightarrow> dk_names h t = Some i \<Longrightarrow> q \<noteq> t \<Longrightarrow> dk_names h q \<noteq> Some i"
  by (auto simp: unshared_def private_name_def)

lemma unshared_cong: "dk_names h = dk_names d \<Longrightarrow> dk_next h = dk_next d \<Longrightarrow> unshared h = unshared d"
  by (simp add: unshared_def wf_disk_def private_name_def)

lemma unshared_set_inode [simp]: "unshared (set_inode i n d) = unshared d"
  by (rule unshared_cong) (simp_all add: set_inode_def)

lemma unshared_new_inode [simp]: "unshared d \<Longrightarrow> unshared (new_inode p d)"
  using names_fresh [of d] by (auto simp: unshared_def private_name_def)

lemma unshared_unlink [simp]: "unshared d \<Longrightarrow> unshared (d\<lparr>dk_names := (dk_names d)(p := None)\<rparr>)"
  by (auto simp: unshared_def private_name_def)

lemma unshared_rename:
  assumes "unshared d" and "dst \<in> in_place \<longrightarrow> src \<in> in_place"
  shows "unshared (rename_disk src dst d)"
proof -
  have "private_name t (rename_disk src dst d)" if "t \<in> in_place" for t
    using assms that unsharedD [OF assms(1)]
    by (auto simp: private_name_def rename_disk_def)
  then show ?thesis using assms(1) by (simp add: unshared_def)
qed

lemma unshared_link:
  assumes "unshared d" and "src \<notin> in_place" "dst \<notin> in_place" "dk_names d src = Some i"
  shows "unshared (d\<lparr>dk_names := (dk_names d)(dst \<mapsto> i)\<rparr>)"
proof -
  have "private_name t (d\<lparr>dk_names := (dk_names d)(dst \<mapsto> i)\<rparr>)" if t: "t \<in> in_place" for t
  proof -
    have "dk_names d t \<noteq> Some i" using unsharedD [OF assms(1) t, of i src] assms(2,4) t by auto
    then show ?thesis using unsharedD [OF assms(1) t] assms(3) t by (auto simp: private_name_def)
  qed
  then show ?thesis using assms(1,4) by (auto simp: unshared_def wf_disk_def)
qed

lemma keeps_trying:
  assumes "keeps m" and "\<And>r. keeps (k r)"
  shows "keeps (trying m k)"
  by (rule keepsI, rule wp_tryingI [OF keepsD [OF assms(1)]]) (auto intro: keepsD [OF assms(2)])

lemma keeps_ret [simp]: "keeps (ret x)" "keeps (throw e)" "keeps (lift_err y)"
  by (simp_all add: keeps_def wp_simps)

lemma keeps_seqE: "keeps m \<Longrightarrow> (\<And>x. keeps (k x)) \<Longrightarrow> keeps (seqE m k)"
  unfolding seqE_def by (rule keeps_trying) (auto split: sum.splits)

lemma keeps_wrapE: "keeps m \<Longrightarrow> keeps (wrapE s m)"
  unfolding wrapE_def by (rule keeps_trying) (auto split: sum.splits)

lemma keeps_ignoring: "keeps m \<Longrightarrow> keeps (ignoring m)"
  unfolding ignoring_def by (rule keeps_trying) auto

lemma keeps_deferred: "keeps m \<Longrightarrow> keeps c \<Longrightarrow> keeps (deferred m c)"
  unfolding deferred_def by (intro keeps_trying) (auto simp: keeps_def wp_def)

lemma keeps_for_each: "(\<And>x. x \<in> set xs \<Longrightarrow> keeps (f x)) \<Longrightarrow> keeps (for_each xs f)"
  by (induction xs) (auto intro!: keeps_seqE)

lemma keeps_quietly: "quietly m \<Longrightarrow> keeps m"
  by (rule keepsI, rule wp_mono, rule quietlyD) (auto simp: quiet_def)

lemma keeps_calls [simp]:
  "keeps (create p)" "keeps (create_temp dir pre)" "keeps (fwrite i s)" "keeps (fsync i)" "keeps (fclose i)"
  "keeps (remove p)" "keeps (open_read p)" "keeps (read_all i)" "keeps (read_file p)" "keeps (stat p)"
  "keeps (open_dir p)" "keeps (fsync_dir p)" "keeps (mkdir_all p)" "keeps (stat_dir p)" "keeps (syncfs p)"
  "keeps (checkpoint_ioctl p)"
  by (auto simp: keeps_def wp_simps sys_defs open_read_def read_all_def syncfs_def checkpoint_ioctl_def
      split: option.splits list.splits)

lemma keeps_rename: "(dst \<in> in_place \<longrightarrow> src \<in> in_place) \<Longrightarrow> keeps (rename src dst)"
  by (auto simp: keeps_def wp_simps sys_defs unshared_rename split: option.splits)

lemma keeps_link: "src \<notin> in_place \<Longrightarrow> dst \<notin> in_place \<Longrightarrow> keeps (link src dst)"
  by (auto simp: keeps_def wp_simps sys_defs unshared_link split: option.splits)

lemmas keeps_intros = keeps_trying keeps_seqE keeps_wrapE keeps_ignoring keeps_deferred keeps_for_each keeps_rename

subsection \<open>Confined operations\<close>

definition confined :: "path set \<Rightarrow> 'a io \<Rightarrow> bool" where
  "confined S m \<longleftrightarrow> (\<forall>w. unshared (w_disk w) \<longrightarrow>
     wp m (\<lambda>r w'. unshared (w_disk w') \<and> evolves (same_outside S (w_disk w)) w w') w)"

lemma confinedI:
  assumes "keeps m"
    and "\<And>w. unshared (w_disk w) \<Longrightarrow> wp m (\<lambda>r w'. evolves (same_outside S (w_disk w)) w w') w"
  shows "confined S m"
  unfolding confined_def
  by (intro allI impI wp_conj) (rule keepsD [OF assms(1)], assumption, rule assms(2))

lemma confinedD:
  "confined S m \<Longrightarrow> unshared (w_disk w) \<Longrightarrow>
   wp m (\<lambda>r w'. unshared (w_disk w') \<and> evolves (same_outside S (w_disk w)) w w') w"
  by (simp add: confined_def)

lemma confined_mono:
  assumes "confined S m" and "S \<subseteq> T"
  shows "confined T m"
  unfolding confined_def
proof (intro allI impI)
  fix w :: world assume "unshared (w_disk w)"
  then show "wp m (\<lambda>r w'. unshared (w_disk w') \<and> evolves (same_outside T (w_disk w)) w w') w"
    by (rule wp_mono [OF confinedD [OF assms(1)]])
      (use assms(2) in \<open>auto elim!: evolves_mono intro: same_outside_mono\<close>)
qed

lemma evolves_same_trans:
  assumes "evolves (same_outside S (w_disk w)) w w1" and "evolves (same_outside S (w_disk w1)) w1 w2"
  shows "evolves (same_outside S (w_disk w)) w w2"
proof (rule evolves_trans [OF assms(1)])
  have "same_outside S (w_disk w) (w_disk w1)" using evolves_final [OF assms(1)] .
  with assms(2) show "evolves (same_outside S (w_disk w)) w1 w2"
    by (elim evolves_mono) (rule same_outside_trans)
qed

lemma confined_trying:
  assumes "confined S m" and "\<And>r. confined S (k r)"
  shows "confined S (trying m k)"
  unfolding confined_def
proof (intro allI impI, rule wp_tryingI [OF confinedD [OF assms(1)]])
  fix w r and w1 :: world
  assume w1: "unshared (w_disk w1) \<and> evolves (same_outside S (w_disk w)) w w1"
  show "wp (k r) (\<lambda>r w'. unshared (w_disk w') \<and> evolves (same_outside S (w_disk w)) w w') w1"
    by (rule wp_mono [OF confinedD [OF assms(2)]]) (use w1 in \<open>auto intro: evolves_same_trans\<close>)
qed

lemma confined_ret [simp]: "confined S (ret x)" "confined S (throw e)" "confined S (lift_err y)"
  by (simp_all add: confined_def wp_simps)

lemma confined_seqE: "confined S m \<Longrightarrow> (\<And>x. confined S (k x)) \<Longrightarrow> confined S (seqE m k)"
  unfolding seqE_def by (rule confined_trying) (auto split: sum.splits)

lemma confined_wrapE: "confined S m \<Longrightarrow> confined S (wrapE s m)"
  unfolding wrapE_def by (rule confined_trying) (auto split: sum.splits)

lemma confined_ignoring: "confined S m \<Longrightarrow> confined S (ignoring m)"
  unfolding ignoring_def by (rule confined_trying) auto

lemma confined_deferred: "confined S m \<Longrightarrow> confined S c \<Longrightarrow> confined S (deferred m c)"
  unfolding deferred_def by (intro confined_trying) (auto simp: confined_def wp_def)

lemma confined_for_each: "(\<And>x. x \<in> set xs \<Longrightarrow> confined S (f x)) \<Longrightarrow> confined S (for_each xs f)"
  by (induction xs) (auto intro!: confined_seqE)

lemma confined_quietly: "quietly m \<Longrightarrow> confined S m"
  by (rule confinedI [OF keeps_quietly], assumption, rule wp_mono, erule quietlyD)
    (auto simp: quiet_def evolves_def)

lemma confined_frames: "keeps m \<Longrightarrow> frames S m \<Longrightarrow> confined S m"
  by (rule confinedI) (auto simp: frames_def dest: unshared_wf elim!: evolves_mono intro: wp_mono)

lemma confined_remove: "p \<in> S \<Longrightarrow> confined S (remove p)"
  by (rule confined_frames) (auto intro: frames_remove)

lemma confined_rename: "src \<in> S \<Longrightarrow> dst \<in> S \<Longrightarrow> (dst \<in> in_place \<longrightarrow> src \<in> in_place) \<Longrightarrow> confined S (rename src dst)"
  by (rule confined_frames) (auto intro: frames_rename keeps_rename)

lemmas confined_intros =
  confined_trying confined_seqE confined_wrapE confined_ignoring confined_deferred confined_for_each
  confined_remove confined_rename

text \<open>A file that is only confined to change elsewhere is the same on every disk of the run.\<close>

lemma confined_lookup:
  assumes "confined S m" and "unshared (w_disk w)" and "m w = (r, w')"
  shows "unshared (w_disk w')" "evolves (\<lambda>h. \<forall>q. q \<notin> S \<longrightarrow> lookup h q = lookup (w_disk w) q) w w'"
  using wpD [OF confinedD [OF assms(1,2)] assms(3)] by (auto simp: same_outside_def elim!: evolves_mono)

subsection \<open>The program's writers keep disks unshared\<close>

lemma dot_not_in_place: "t \<in> dot_names \<Longrightarrow> t \<notin> in_place"
  by (auto simp: dot_names_def in_place_def)

lemma keeps_commit_temp:
  assumes "keeps wr" "keeps ds" "p \<notin> in_place"
  shows "keeps (commit_temp t i wr p ds)"
  unfolding commit_temp_def by (intro keeps_intros) (auto split: sum.splits intro!: keeps_intros simp: assms)

lemma keeps_atomic_put:
  "(\<And>i. keeps (wr i)) \<Longrightarrow> keeps ds \<Longrightarrow> p \<notin> in_place \<Longrightarrow> keeps (atomic_put dir pre p wr ds)"
  unfolding atomic_put_def by (intro keeps_intros) (auto split: prod.splits intro!: keeps_commit_temp)

lemma quietly_syncs [simp]: "quietly (syncDir dir)" "quietly (fsyncDir dir)" "quietly (ReadBootState p)" "quietly (Load p)"
  "quietly (readOne p)" "quietly (VerifySHA256 cr p h)"
proof -
  show "quietly (syncDir dir)" "quietly (fsyncDir dir)"
    by (auto simp: syncDir_def fsyncDir_def intro!: quietly_intros split: sum.splits)
  show "quietly (ReadBootState p)" by (auto simp: ReadBootState_def intro!: quietly_intros)
  show r: "quietly (readOne p)" for p by (auto simp: readOne_def intro!: quietly_intros)
  show "quietly (Load p)" by (auto simp: Load_def r intro!: quietly_intros split: sum.splits)
  show "quietly (VerifySHA256 cr p h)" by (auto simp: VerifySHA256_def intro!: quietly_intros split: option.splits)
qed

lemma quietly_wrapE: "quietly m \<Longrightarrow> quietly (wrapE s m)"
  unfolding wrapE_def by (rule quietly_trying) (auto split: sum.splits)

lemma quietly_ignoring: "quietly m \<Longrightarrow> quietly (ignoring m)"
  unfolding ignoring_def by (rule quietly_trying) auto

lemma quietly_commitDir [simp]: "quietly (commitDir dir)"
proof -
  have "quietly (syncfs dir)" "quietly (checkpoint_ioctl dir)"
    by (auto simp: quietly_def quiet_def wp_simps syncfs_def checkpoint_ioctl_def split: option.splits)
  then show ?thesis by (auto simp: commitDir_def intro!: quietly_intros split: sum.splits)
qed

lemma keeps_looks [simp]:
  "keeps (syncDir dir)" "keeps (fsyncDir dir)" "keeps (nonEmpty p)" "keeps (sameFileContent sha p q)"
  "keeps (sameFileIdentity p q)" "keeps (Load p)" "keeps (VerifySHA256 cr p h)" "keeps (commitDir dir)"
  "keeps (preflightSlots gs)" "keeps (ReadBootState p)"
  by (rule keeps_quietly, simp)+

lemma confined_looks [simp]:
  "confined S (mkdir_all p)" "confined S (stat p)" "confined S (stat_dir p)" "confined S (read_file p)"
  "confined S (VerifySHA256 cr p h)" "confined S (Load p)" "confined S (commitDir p)" "confined S (syncDir p)"
  "confined S (ReadBootState p)" "confined S (nonEmpty p)"
  by (rule confined_quietly, simp)+

lemma keeps_writeFileSync: "p \<notin> in_place \<Longrightarrow> keeps (writeFileSync p s)"
  unfolding writeFileSync_def Let_def by (rule keeps_atomic_put) auto

lemma keeps_copyFileSync: "dst \<notin> in_place \<Longrightarrow> keeps (copyFileSync src dst)"
  unfolding copyFileSync_def Let_def
  by (intro keeps_seqE keeps_atomic_put) (auto intro!: keeps_intros)

lemma keeps_WriteBootState: "p \<notin> in_place \<Longrightarrow> keeps (WriteBootState p b)"
  unfolding WriteBootState_def Let_def
  by (intro keeps_seqE keeps_atomic_put) (auto intro!: keeps_intros split: sum.splits)

lemma keeps_after_create_temp:
  assumes pre: "has_prefix ''.'' pre" and k: "\<And>t i. t \<in> dot_names \<Longrightarrow> keeps (k (t, i))"
  shows "keeps (seqE (create_temp dir pre) k)"
proof (rule keepsI)
  fix w :: world assume u: "unshared (w_disk w)"
  have "wp (create_temp dir pre) (\<lambda>r w'. unshared (w_disk w') \<and> (\<forall>t i. r = Inr (t, i) \<longrightarrow> t \<in> dot_names)) w"
    using u pre by (auto simp: wp_simps sys_defs dot_names_join_iff has_prefix_iff split: option.splits list.splits)
  then show "wp (seqE (create_temp dir pre) k) (\<lambda>r w'. unshared (w_disk w')) w"
    by (rule wp_seqEI) (auto intro: keepsD [OF k])
qed

lemma keeps_linkFileSync: "src \<notin> in_place \<Longrightarrow> dst \<notin> in_place \<Longrightarrow> keeps (linkFileSync src dst)"
  unfolding linkFileSync_def Let_def
  by (rule keeps_after_create_temp)
    (auto simp: has_prefix_def dot_not_in_place keeps_link intro!: keeps_intros split: sum.splits)

lemma slot_file_not_in_place:
  assumes "(g, s) \<in> set (slot_list (slot_groups dirs))"
  shows "slot_file g sl s \<notin> in_place"
  using assms by (cases sl) (auto simp: slot_list_def slot_groups_def slot_file_def in_place_def path_join_def has_suffix_def has_prefix_def)

lemma keeps_promote_file:
  assumes "(g, s) \<in> set (slot_list (slot_groups dirs))"
  shows "keeps (promote_file sha g s)"
  using slot_file_not_in_place [OF assms] unfolding promote_file_def Let_def
  by (auto intro!: keeps_intros keeps_copyFileSync keeps_linkFileSync)

lemma keeps_PromoteSlots: "keeps (PromoteSlots sha dirs)"
  unfolding PromoteSlots_def Let_def for_each_slot_list
  by (intro keeps_seqE keeps_for_each) (auto intro: keeps_promote_file)

subsection \<open>The program's writers are confined\<close>

lemma confined_writeFileSync:
  assumes "p \<notin> dot_names" "p \<notin> in_place"
  shows "confined ({p} \<union> dot_names) (writeFileSync p s)"
  by (rule confinedI [OF keeps_writeFileSync [OF assms(2)]], rule wp_mono [OF wp_writeFileSync [OF unshared_wf assms(1)]])
    (auto simp: replaced_def elim!: evolves_mono)

lemma confined_Save:
  assumes "plain_path p" "p \<notin> in_place" "path_suffix p BakSuffix \<notin> in_place"
  shows "confined (wal_files p \<union> dot_names) (Save p d)"
proof -
  note n = plain_path_names [OF assms(1)]
  have "confined (wal_files p \<union> dot_names) (writeFileSync (path_suffix p BakSuffix) s)"
    "confined (wal_files p \<union> dot_names) (writeFileSync p s)" for s
    by (rule confined_mono [OF confined_writeFileSync]; use n assms in \<open>auto simp: wal_files_def\<close>)+
  then show ?thesis unfolding Save_def Let_def by (intro confined_intros)
qed

lemma confined_WriteBootState:
  assumes "p \<notin> dot_names" "p \<notin> in_place"
  shows "confined ({p} \<union> dot_names) (WriteBootState p b)"
  by (rule confinedI [OF keeps_WriteBootState [OF assms(2)]], rule wp_mono [OF wp_WriteBootState [OF unshared_wf assms(1)]])
    (auto simp: replaced_def elim!: evolves_mono)

lemma boot_state_path_plain [simp]: "boot_state_path dirs \<notin> in_place"
  by (simp add: boot_state_path_def in_place_def path_join_def has_suffix_def has_prefix_def)

lemma confined_writeDeploymentBootState: "confined ({boot_state_path dirs} \<union> dot_names) (writeDeploymentBootState d dirs)"
  unfolding writeDeploymentBootState_def by (auto intro: confined_WriteBootState [simplified])

lemma confined_copyFileSync:
  assumes "dst \<notin> dot_names" "dst \<notin> in_place"
  shows "confined ({dst} \<union> dot_names) (copyFileSync src dst)"
  by (rule confinedI [OF keeps_copyFileSync [OF assms(2)]], rule wp_mono [OF wp_copyFileSync [OF unshared_wf assms(1)]])
    (auto simp: slot_copied_def elim!: evolves_mono)

lemma confined_PromoteSlots: "confined (active_names dirs \<union> dot_names) (PromoteSlots sha dirs)"
  by (rule confinedI [OF keeps_PromoteSlots], rule wp_mono [OF wp_PromoteSlots [OF unshared_wf]])
    (auto simp: promote_disks_def active_names_def elim!: evolves_mono)

lemma next_names_mem [simp]:
  "path_join (sd_esp dirs) ''kernelcache-next.efi'' \<in> next_names dirs"
  "path_join (sd_esp dirs) ''kernelcache-next.efi.sig'' \<in> next_names dirs"
  "path_join (sd_rootfs dirs) ''rootfs-next.erofs'' \<in> next_names dirs"
  "path_join (sd_rootfs dirs) ''rootfs-next.hash'' \<in> next_names dirs"
  by (simp_all add: next_names_def slot_list_def slot_groups_def slot_file_def)

lemma confined_CleanupNextSlots: "confined (next_names dirs) (CleanupNextSlots dirs)"
  unfolding CleanupNextSlots_def by (auto intro!: confined_intros)

lemma confined_sync_all [simp]: "confined S sync_all"
  by (simp add: sync_all_def)

subsection \<open>Downloads and files written in place\<close>

lemma has_suffix_append [simp]: "has_suffix p (s @ p)"
  by (simp add: has_suffix_def has_prefix_iff)

lemma plain_tmp_in_place:
  assumes "plain_path p"
  shows "path_suffix p ''.tmp'' \<in> in_place"
proof -
  have "\<not> has_prefix ''.'' (last p @ ''.tmp'')"
    using assms by (cases "last p") (auto simp: plain_path_def has_prefix_def)
  moreover have "has_suffix ''.tmp'' (last p @ ''.tmp'')" by (rule has_suffix_append)
  ultimately show ?thesis unfolding in_place_def path_suffix_def by simp
qed

lemma quietly_get [simp]: "quietly (get net url)"
  by (simp add: quietly_def wp_get)

lemma keeps_FetchTo:
  assumes "plain_path dest"
  shows "keeps (FetchTo net url dest)"
proof -
  have ren: "keeps (rename (path_suffix dest ''.tmp'') dest)"
    using plain_tmp_in_place [OF assms] by (intro keeps_rename) simp
  have cp: "keeps (copy_body i resp)" for i resp
    by (auto simp: copy_body_def intro!: keeps_intros)
  show ?thesis
    unfolding FetchTo_def Let_def
    by (intro keeps_seqE keeps_quietly [OF quietly_get])
      (auto intro!: keeps_intros split: sum.splits simp: ren cp plain_tmp_in_place [OF assms])
qed

lemma confined_FetchTo:
  assumes "plain_path dest"
  shows "confined {dest, path_suffix dest ''.tmp''} (FetchTo net url dest)"
proof (rule confinedI [OF keeps_FetchTo [OF assms]])
  fix w :: world assume u: "unshared (w_disk w)"
  have "dest \<noteq> []" using assms by (simp add: plain_path_def)
  moreover have "private_name (path_suffix dest ''.tmp'') (w_disk w)"
    using u plain_tmp_in_place [OF assms] by (simp add: unshared_def)
  ultimately show "wp (FetchTo net url dest) (\<lambda>r w'. evolves (same_outside {dest, path_suffix dest ''.tmp''} (w_disk w)) w w') w"
    by (intro wp_mono [OF wp_FetchTo [OF unshared_wf [OF u]]])
      (auto simp: fetching_def elim!: evolves_mono)
qed

lemma wp_create_in_place:
  assumes "unshared (w_disk w)" and "p \<in> in_place"
  shows "wp (create p) (\<lambda>r w'. unshared (w_disk w') \<and> evolves (same_outside {p} (w_disk w)) w w' \<and>
     (\<forall>i. r = Inr i \<longrightarrow> dk_names (w_disk w') p = Some i)) w"
  using assms names_fresh [OF unshared_wf [OF assms(1)]] unsharedD [OF assms] unshared_wf [OF assms(1)]
  by (auto simp: wp_simps sys_defs same_outside_def lookup_set_inode lookup_new_inode split: option.splits)

lemma wp_fwrite_in_place:
  assumes "unshared (w_disk w)" and "p \<in> in_place" and "dk_names (w_disk w) p = Some i"
  shows "wp (fwrite i s) (\<lambda>r w'. unshared (w_disk w') \<and> evolves (same_outside {p} (w_disk w)) w w') w"
  using assms unsharedD [OF assms(1,2,3)]
  by (auto simp: wp_simps sys_defs same_outside_def lookup_set_inode split: option.splits)

lemma confined_write_file:
  assumes "p \<in> in_place"
  shows "confined {p} (write_file p s)"
  unfolding confined_def write_file_def
proof (intro allI impI, rule wp_seqEI [OF wp_create_in_place [OF _ assms]])
  fix w :: world and i and w1 :: world
  assume w1: "unshared (w_disk w1) \<and> evolves (same_outside {p} (w_disk w)) w w1 \<and>
    (\<forall>j. Inr i = Inr j \<longrightarrow> dk_names (w_disk w1) p = Some j)"
  let ?Q = "\<lambda>r w'. unshared (w_disk w') \<and> evolves (same_outside {p} (w_disk w)) w w'"
  have fin: "wp (trying (fclose i) (\<lambda>r2. case r1 of Inl e \<Rightarrow> throw e | Inr _ \<Rightarrow> lift_err r2)) ?Q w2"
    if "?Q (r1 :: error + unit) w2" for r1 and w2 :: world
    using that by (auto simp: wp_simps sys_defs split: option.splits sum.splits)
  show "wp (trying (fwrite i s) (\<lambda>r1. trying (fclose i) (\<lambda>r2. case r1 of Inl e \<Rightarrow> throw e | Inr _ \<Rightarrow> lift_err r2))) ?Q w1"
    by (rule wp_tryingI [OF wp_fwrite_in_place [OF _ assms]])
      (use w1 in \<open>auto intro!: fin elim: evolves_same_trans\<close>)
qed auto

lemma anchor_in_place: "base \<in> {fwAnchorManifest, fwAnchorCert} \<Longrightarrow> anchorPath dir base sl ext \<in> in_place"
  by (auto simp: anchorPath_def fwAnchorManifest_def fwAnchorCert_def in_place_def path_join_def has_prefix_def)

definition anchor_names :: "path \<Rightarrow> string \<Rightarrow> path set" where
  "anchor_names dir sl = (\<lambda>(base, ext). anchorPath dir base sl ext) ` set anchor_files"

lemma confined_WriteFirmwareAnchor: "confined (anchor_names dir sl) (WriteFirmwareAnchor dir sl m ms c cs)"
proof -
  have "confined (anchor_names dir sl) (write_file (anchorPath dir base sl ext) s)" if "(base, ext) \<in> set anchor_files" for base ext s
    by (rule confined_mono [OF confined_write_file])
      (use that in \<open>auto simp: anchor_names_def anchor_files_def intro!: anchor_in_place\<close>)
  then show ?thesis
    unfolding WriteFirmwareAnchor_def
    by (intro confined_seqE confined_quietly [OF quietly_reading(5)] confined_for_each) (auto simp: anchor_files_def)
qed

subsection \<open>Firmware slots and promotion\<close>

definition inside :: "path \<Rightarrow> path set" where
  "inside dir = range (path_join dir)"

lemma inside_join [simp]: "path_join dir n \<in> inside dir"
  by (simp add: inside_def)

definition movable :: "path \<Rightarrow> path \<Rightarrow> bool" where
  "movable nxt act \<longleftrightarrow> (act \<in> in_place \<longrightarrow> nxt \<in> in_place) \<and>
     (path_suffix act ''.bak'' \<in> in_place \<longleftrightarrow> act \<in> in_place)"

lemma confined_activate_file:
  assumes "movable (path_join dir m) (path_join dir n)"
  shows "confined (inside dir) (activate_file (path_join dir m) (path_join dir n))"
  using assms unfolding activate_file_def movable_def
  by (intro confined_trying confined_quietly [OF quietly_reading(2)]) (auto split: sum.splits intro!: confined_intros)

lemma confined_restore_file:
  assumes "movable x (path_join dir n)"
  shows "confined (inside dir) (restore_file (path_join dir n))"
  using assms unfolding restore_file_def movable_def Let_def
  by (intro confined_trying confined_quietly [OF quietly_reading(2)]) (auto split: sum.splits intro!: confined_intros)

lemma movable_image:
  assumes "name \<in> set fwImageFiles"
  shows "movable (imagePath dir ''next'' name) (imagePath dir ''active'' name)"
  using assms by (auto simp: movable_def fwImageFiles_def imagePath_def Let_def in_place_def path_join_def path_suffix_def
      has_prefix_def has_suffix_def)

lemma movable_anchor:
  assumes "(base, ext) \<in> set anchor_files"
  shows "movable (anchorPath dir base ''next'' ext) (anchorPath dir base ''active'' ext)"
proof -
  have b: "base \<in> {fwAnchorManifest, fwAnchorCert}" using assms by (auto simp: anchor_files_def)
  have "path_suffix (anchorPath dir base ''active'' ext) ''.bak'' = anchorPath dir base ''active'' (ext @ ''.bak'')"
    by (simp add: anchorPath_def)
  then show ?thesis using anchor_in_place [OF b] by (simp add: movable_def)
qed

lemma slot_paths_inside [simp]:
  "imagePath dir sl name \<in> inside dir" "anchorPath dir base sl ext \<in> inside dir"
  "path_suffix (imagePath dir sl name) x \<in> inside dir" "path_suffix (anchorPath dir base sl ext) x \<in> inside dir"
  by (simp_all add: imagePath_def anchorPath_def Let_def)

lemma confined_anchor_moves:
  "confined (inside dir) (ActivateFirmwareAnchor dir)" "confined (inside dir) (RollbackFirmwareAnchor dir)"
proof -
  have a: "confined (inside dir) (activate_file (anchorPath dir base ''next'' ext) (anchorPath dir base ''active'' ext))"
    "confined (inside dir) (restore_file (anchorPath dir base ''active'' ext))" if "(base, ext) \<in> set anchor_files" for base ext
    using confined_activate_file [OF movable_anchor [OF that, unfolded anchorPath_def]]
      confined_restore_file [OF movable_anchor [OF that, unfolded anchorPath_def]] by (simp_all add: anchorPath_def)
  show "confined (inside dir) (ActivateFirmwareAnchor dir)" "confined (inside dir) (RollbackFirmwareAnchor dir)"
    unfolding ActivateFirmwareAnchor_def RollbackFirmwareAnchor_def Let_def
    by (auto intro!: confined_for_each confined_seqE confined_wrapE confined_quietly [OF quietly_reading(2)] a)
qed

lemma confined_firmware_slot:
  "confined (inside dir) (ActivateFirmwareSlot dir)" "confined (inside dir) (RollbackFirmwareSlot dir)"
  "confined (inside dir) (FinalizeFirmwareSlot dir)"
proof -
  have a: "confined (inside dir) (activate_file (imagePath dir ''next'' name) (imagePath dir ''active'' name))"
    "confined (inside dir) (restore_file (imagePath dir ''active'' name))" if "name \<in> set fwImageFiles" for name
    using confined_activate_file [OF movable_image [OF that, unfolded imagePath_def Let_def]]
      confined_restore_file [OF movable_image [OF that, unfolded imagePath_def Let_def]] by (simp_all add: imagePath_def Let_def)
  have "confined (inside dir) (activate_image dir x)" if "x \<in> set (List.enumerate 0 fwImageFiles)" for x
  proof -
    obtain i name where x: "x = (i, name)" by (cases x)
    then have "name \<in> set fwImageFiles" using that by (auto simp: fwImageFiles_def)
    then show ?thesis
      unfolding activate_image_def Let_def x
      by (auto intro!: confined_trying confined_quietly [OF quietly_reading(2)] a(1) split: sum.splits)
  qed
  then show "confined (inside dir) (ActivateFirmwareSlot dir)"
    unfolding ActivateFirmwareSlot_def by (intro confined_seqE confined_for_each confined_anchor_moves)
  show "confined (inside dir) (RollbackFirmwareSlot dir)"
    unfolding RollbackFirmwareSlot_def by (intro confined_seqE confined_for_each confined_anchor_moves a)
  show "confined (inside dir) (FinalizeFirmwareSlot dir)"
    unfolding FinalizeFirmwareSlot_def by (auto intro!: confined_intros)
qed

text \<open>The files a promotion and its commit may write.\<close>

definition record_path_ok :: "path \<Rightarrow> bool" where
  "record_path_ok p \<longleftrightarrow> plain_path p \<and> wal_files p \<inter> in_place = {}"

definition promotion_files :: "path \<Rightarrow> stage_dirs \<Rightarrow> path set" where
  "promotion_files p dirs = active_names dirs \<union> next_names dirs \<union> {boot_state_path dirs} \<union> wal_files p \<union> dot_names"

lemma confined_wrap_opt: "confined S m \<Longrightarrow> confined S (wrap_opt ms m)"
  by (cases ms) (auto simp: wrap_opt_def intro: confined_wrapE)

lemma quietly_bootedIdentity [simp]: "quietly (bootedIdentity p)"
  by (auto simp: bootedIdentity_def intro!: quietly_intros)

lemma confined_commit_promotion:
  assumes "record_path_ok p"
  shows "confined (promotion_files p dirs) (commit_promotion en p dirs ms1 ms2 d)"
proof -
  let ?S = "promotion_files p dirs"
  have "confined ?S (PromoteSlots sha dirs)" for sha
    by (rule confined_mono [OF confined_PromoteSlots]) (auto simp: promotion_files_def)
  moreover have "confined ?S (WriteBootState (boot_state_path dirs) b)" for b
    by (rule confined_mono [OF confined_WriteBootState]) (auto simp: promotion_files_def)
  moreover have "confined ?S (Save p d)"
    by (rule confined_mono [OF confined_Save]) (use assms in \<open>auto simp: promotion_files_def record_path_ok_def wal_files_def\<close>)
  moreover have "confined ?S (CleanupNextSlots dirs)"
    by (rule confined_mono [OF confined_CleanupNextSlots]) (auto simp: promotion_files_def)
  ultimately show ?thesis
    unfolding commit_promotion_def by (auto intro!: confined_seqE confined_wrap_opt)
qed

lemma confined_promoteRunningCandidate:
  assumes "record_path_ok p"
  shows "confined (promotion_files p dirs) (promoteRunningCandidate en p dirs)"
proof -
  have "confined (promotion_files p dirs) (Load p)"
    "confined (promotion_files p dirs) (bootedIdentity (e_cmdline en))"
    by (rule confined_quietly, simp)+
  then show ?thesis
    unfolding promoteRunningCandidate_def
    by (auto intro!: confined_seqE confined_commit_promotion assms)
qed

subsection \<open>What a success guarantees\<close>

text \<open>\<open>gives m R w\<close>: if \<open>m\<close> returns a value in \<open>w\<close>, the value and the world satisfy \<open>R\<close>.\<close>

definition gives :: "'a io \<Rightarrow> ('a \<Rightarrow> world \<Rightarrow> bool) \<Rightarrow> world \<Rightarrow> bool" where
  "gives m R w \<longleftrightarrow> wp m (\<lambda>r w'. \<forall>x. r = Inr x \<longrightarrow> R x w') w"

lemma givesD: "gives m R w \<Longrightarrow> m w = (Inr x, w') \<Longrightarrow> R x w'"
  by (simp add: gives_def wp_def)

lemma gives_wp: "wp m (\<lambda>r w'. \<forall>x. r = Inr x \<longrightarrow> R x w') w \<Longrightarrow> gives m R w"
  by (simp add: gives_def)

lemma gives_mono: "gives m R w \<Longrightarrow> (\<And>x w'. R x w' \<Longrightarrow> Q x w') \<Longrightarrow> gives m Q w"
  unfolding gives_def by (erule wp_mono) blast

lemma gives_conj:
  assumes "gives m R w" and "gives m Q w"
  shows "gives m (\<lambda>x w'. R x w' \<and> Q x w') w"
  by (rule gives_wp, rule wp_mono [OF wp_conj [OF assms [unfolded gives_def]]]) blast

lemma gives_ret: "R x w \<Longrightarrow> gives (ret x) R w"
  by (simp add: gives_def wp_ret)

lemma gives_throw [simp]: "gives (throw e) R w"
  by (simp add: gives_def wp_throw)

lemma gives_lift_err: "(\<And>x. y = Inr x \<Longrightarrow> R x w) \<Longrightarrow> gives (lift_err y) R w"
  by (simp add: gives_def wp_lift_err)

lemma gives_seqE:
  assumes "gives m R w" and "\<And>x w'. R x w' \<Longrightarrow> gives (k x) Q w'"
  shows "gives (seqE m k) Q w"
  unfolding gives_def
  by (rule wp_seqEI [OF assms(1) [unfolded gives_def]]) (use assms(2) in \<open>auto simp: gives_def\<close>)

lemma gives_seqE_any: "(\<And>x w'. gives (k x) Q w') \<Longrightarrow> gives (seqE m k) Q w"
  by (rule gives_seqE [where R = "\<lambda>_ _. True"]) (simp_all add: gives_def wp_def split: prod.split)

lemma gives_wrapE: "gives m R w \<Longrightarrow> gives (wrapE s m) R w"
  by (simp add: gives_def wp_wrapE) (erule wp_mono, auto split: sum.splits)

lemma gives_confined:
  "confined S m \<Longrightarrow> unshared (w_disk w) \<Longrightarrow>
   gives m (\<lambda>_ w'. unshared (w_disk w') \<and> same_outside S (w_disk w) (w_disk w')) w"
  by (auto simp: gives_def intro!: wp_mono [OF confinedD] dest: evolves_final)

lemma gives_quietly: "quietly m \<Longrightarrow> gives m (\<lambda>_ w'. w_disk w' = w_disk w) w"
  by (auto simp: gives_def quiet_def intro!: wp_mono [OF quietlyD])

subsection \<open>What is written into the record files\<close>

text \<open>\<open>record_texts p T d h\<close>: each file of the record has its text of \<open>d\<close> or one of \<open>T\<close>.\<close>

definition record_texts :: "path \<Rightarrow> string set \<Rightarrow> disk \<Rightarrow> disk \<Rightarrow> bool" where
  "record_texts p T d h \<longleftrightarrow> (\<forall>q \<in> wal_files p. file_data h q = file_data d q \<or> (\<exists>t \<in> T. file_data h q = Some t))"

lemma record_texts_refl [simp]: "record_texts p T d d"
  by (simp add: record_texts_def)

lemma record_texts_mono: "record_texts p T d h \<Longrightarrow> T \<subseteq> U \<Longrightarrow> record_texts p U d h"
  by (fastforce simp: record_texts_def)

lemma record_texts_trans: "record_texts p T d e \<Longrightarrow> record_texts p T e h \<Longrightarrow> record_texts p T d h"
  by (fastforce simp: record_texts_def)

lemma record_texts_same: "same_outside S d h \<Longrightarrow> wal_files p \<inter> S = {} \<Longrightarrow> record_texts p T d h"
  by (auto simp: record_texts_def same_outside_def file_data_def)

lemma wal_versions_same:
  assumes "same_outside S d h" and "wal_files p \<inter> S = {}"
  shows "wal_versions p h = wal_versions p d"
proof -
  have "wal_at h q = wal_at d q" if "q \<in> wal_files p" for q
    by (rule wal_at_cong, rule same_outsideD [OF assms(1)]) (use assms(2) that in blast)
  then show ?thesis by (simp add: wal_versions_def wal_files_def)
qed

lemma wp_Save_texts:
  assumes wf: "wf_disk (w_disk w)" and p: "plain_path p"
  shows "wp (Save p d) (\<lambda>r w'. evolves (\<lambda>h. wf_disk h \<and> same_outside (wal_files p \<union> dot_names) (w_disk w) h \<and>
       record_texts p {marshal d} (w_disk w) h) w w' \<and> (r = Inr () \<longrightarrow> saved p d (w_disk w'))) w"
proof -
  let ?b = "path_suffix p BakSuffix" and ?n = "\<lparr>ino_data = marshal d, ino_synced = True\<rparr>"
  let ?P = "\<lambda>h. wf_disk h \<and> same_outside (wal_files p \<union> dot_names) (w_disk w) h \<and> record_texts p {marshal d} (w_disk w) h"
  have names: "p \<notin> dot_names" "?b \<notin> dot_names" "?b \<noteq> p"
    using plain_path_names [OF p] by (simp_all add: BakSuffix_def)
  have rep: "?P h" if "replaced q ?n d1 h" "q \<in> wal_files p" "?P d1" for q d1 h
  proof -
    have "lookup h x = lookup d1 x \<or> x = q \<and> lookup h x = Some ?n" if "x \<in> wal_files p" for x
      using that \<open>replaced q ?n d1 h\<close> names by (auto simp: replaced_def same_outside_def wal_files_def)
    then have "record_texts p {marshal d} d1 h" unfolding record_texts_def file_data_def by fastforce
    moreover have "same_outside (wal_files p \<union> dot_names) d1 h"
      by (rule same_outside_mono [where S = "{q} \<union> dot_names"]) (use that in \<open>auto simp: replaced_def\<close>)
    ultimately show ?thesis
      using that record_texts_trans [where d = "w_disk w"] same_outside_trans [where d = "w_disk w"]
      by (auto simp: replaced_def)
  qed
  have put: "wp (wrapE s (writeFileSync q (marshal d))) (\<lambda>r w'. evolves ?P w w' \<and>
      (r = Inr () \<longrightarrow> lookup (w_disk w') q = Some ?n \<and> (\<forall>x \<in> wal_files p. x \<noteq> q \<longrightarrow> lookup (w_disk w') x = lookup (w_disk w1) x))) w1"
    if ev: "evolves ?P w w1" and q: "q \<in> wal_files p" for s q w1
  proof -
    have p1: "?P (w_disk w1)" using evolves_final [OF ev] .
    have nd: "q \<notin> dot_names" using q names by (auto simp: wal_files_def)
    have ot: "lookup h x = lookup (w_disk w1) x" if "replaced q ?n (w_disk w1) h" "x \<in> wal_files p" "x \<noteq> q" for h x
      using that names by (auto simp: replaced_def same_outside_def wal_files_def)
    have wf1: "wf_disk (w_disk w1)" using p1 by simp
    have "wp (writeFileSync q (marshal d)) (\<lambda>r w'. evolves ?P w w' \<and>
      (r = Inr () \<longrightarrow> lookup (w_disk w') q = Some ?n \<and> (\<forall>x \<in> wal_files p. x \<noteq> q \<longrightarrow> lookup (w_disk w') x = lookup (w_disk w1) x))) w1"
      by (rule wp_mono [OF wp_writeFileSync [OF wf1 nd]])
        (use rep [OF _ q p1] ot in \<open>auto intro!: evolves_trans [OF ev] elim!: evolves_mono dest: evolves_final\<close>)
    then show ?thesis by (simp add: wp_wrapE) (erule wp_mono, auto split: sum.splits)
  qed
  have fin: "wp (wrapE s (writeFileSync p (marshal d))) (\<lambda>r w'. evolves ?P w w' \<and> (r = Inr () \<longrightarrow> saved p d (w_disk w'))) w1"
    if "evolves ?P w w1" "lookup (w_disk w1) ?b = Some ?n" for s w1
    by (rule wp_mono [OF put [OF that(1), of p]]) (use that(2) names in \<open>auto simp: saved_def wal_files_def\<close>)
  show ?thesis
    unfolding Save_def Let_def
  proof (rule wp_seqEI [OF put [of w ?b]])
    show "evolves ?P w w" using wf by simp
    show "?b \<in> wal_files p" by (simp add: wal_files_def)
  qed (simp, rule fin, simp_all)
qed

subsection \<open>Runs that keep a property of the disk\<close>

text \<open>\<open>holds P m R w\<close>: every disk of the run of \<open>m\<close> in \<open>w\<close> satisfies \<open>P\<close>, and a
  success establishes \<open>R\<close>.\<close>

definition holds :: "(disk \<Rightarrow> bool) \<Rightarrow> 'a io \<Rightarrow> ('a \<Rightarrow> world \<Rightarrow> bool) \<Rightarrow> world \<Rightarrow> bool" where
  "holds P m R w \<longleftrightarrow> wp m (\<lambda>r w'. unshared (w_disk w') \<and> evolves P w w' \<and> (\<forall>x. r = Inr x \<longrightarrow> R x w')) w"

lemma holdsD:
  "holds P m R w \<Longrightarrow> m w = (r, w') \<Longrightarrow> unshared (w_disk w') \<and> evolves P w w' \<and> (\<forall>x. r = Inr x \<longrightarrow> R x w')"
  unfolding holds_def by (rule wpD)

lemma holds_mono: "holds P m R w \<Longrightarrow> (\<And>x w'. unshared (w_disk w') \<Longrightarrow> P (w_disk w') \<Longrightarrow> R x w' \<Longrightarrow> Q x w') \<Longrightarrow> holds P m Q w"
  unfolding holds_def by (erule wp_mono) (use evolves_final in blast)

lemma holds_weaken:
  assumes "holds P m R w" and "\<And>h. P h \<Longrightarrow> P' h"
  shows "holds P' m R w"
  unfolding holds_def
proof (rule wp_mono [OF assms(1) [unfolded holds_def]])
  fix r and w' :: world assume a: "unshared (w_disk w') \<and> evolves P w w' \<and> (\<forall>x. r = Inr x \<longrightarrow> R x w')"
  have ev: "evolves P w w'" using a by blast
  have "evolves P' w w'" by (rule evolves_mono [OF ev assms(2)])
  with a show "unshared (w_disk w') \<and> evolves P' w w' \<and> (\<forall>x. r = Inr x \<longrightarrow> R x w')" by blast
qed

lemma holds_ret: "unshared (w_disk w) \<Longrightarrow> P (w_disk w) \<Longrightarrow> R x w \<Longrightarrow> holds P (ret x) R w"
  by (simp add: holds_def wp_ret)

lemma holds_throw [simp]: "unshared (w_disk w) \<Longrightarrow> P (w_disk w) \<Longrightarrow> holds P (throw e) R w"
  by (simp add: holds_def wp_throw)

lemma holds_trying:
  assumes m: "wp m (\<lambda>r w'. unshared (w_disk w') \<and> evolves P w w' \<and> S r w') w"
    and k: "\<And>r w'. S r w' \<Longrightarrow> unshared (w_disk w') \<Longrightarrow> P (w_disk w') \<Longrightarrow> holds P (k r) Q w'"
  shows "holds P (trying m k) Q w"
  unfolding holds_def
proof (rule wp_tryingI [OF m])
  fix r w1 assume a: "unshared (w_disk w1) \<and> evolves P w w1 \<and> S r w1"
  then have "holds P (k r) Q w1" using k evolves_final by blast
  then show "wp (k r) (\<lambda>r w'. unshared (w_disk w') \<and> evolves P w w' \<and> (\<forall>x. r = Inr x \<longrightarrow> Q x w')) w1"
    unfolding holds_def by (rule wp_mono) (use a evolves_trans in blast)
qed

lemma holds_seqE:
  fixes m :: "'a io"
  assumes m: "holds P m R w"
    and k: "\<And>x w'. R x w' \<Longrightarrow> unshared (w_disk w') \<Longrightarrow> P (w_disk w') \<Longrightarrow> holds P (k x) Q w'"
  shows "holds P (seqE m k) Q w"
  unfolding seqE_def
proof (rule holds_trying [OF m [unfolded holds_def]])
  fix r :: "error + 'a" and w' :: world assume "\<forall>x. r = Inr x \<longrightarrow> R x w'" "unshared (w_disk w')" "P (w_disk w')"
  then show "holds P (case r of Inl e \<Rightarrow> throw e | Inr x \<Rightarrow> k x) Q w'" using k by (cases r) simp_all
qed

lemma holds_wrapE: "holds P m R w \<Longrightarrow> holds P (wrapE s m) R w"
  by (simp add: holds_def wp_wrapE) (erule wp_mono, auto split: sum.splits)

lemma holds_quietly:
  assumes "quietly m" and "unshared (w_disk w)" and "P (w_disk w)" and "gives m R w"
  shows "holds P m (\<lambda>x w'. w_disk w' = w_disk w \<and> R x w') w"
  unfolding holds_def
  by (rule wp_mono [OF wp_conj [OF quietlyD [OF assms(1)] assms(4) [unfolded gives_def]]])
    (use assms(2,3) in \<open>auto simp: quiet_def evolves_def\<close>)

lemma holds_quietly_any:
  assumes "quietly m" and "unshared (w_disk w)" and "P (w_disk w)"
  shows "holds P m (\<lambda>x w'. w_disk w' = w_disk w) w"
  by (rule holds_mono [OF holds_quietly [where P = P and R = "\<lambda>_ _. True"]])
    (use assms in \<open>auto simp: gives_def wp_def split: prod.split\<close>)

lemma holds_confined:
  assumes "confined S m" and "unshared (w_disk w)" and "\<And>h. same_outside S (w_disk w) h \<Longrightarrow> P h"
  shows "holds P m (\<lambda>_ w'. same_outside S (w_disk w) (w_disk w')) w"
  unfolding holds_def
proof (rule wp_mono [OF confinedD [OF assms(1,2)]])
  fix r and w' :: world assume a: "unshared (w_disk w') \<and> evolves (same_outside S (w_disk w)) w w'"
  then have "evolves P w w'" by (elim conjE) (erule evolves_mono, erule assms(3))
  with a show "unshared (w_disk w') \<and> evolves P w w' \<and> (\<forall>x. r = Inr x \<longrightarrow> same_outside S (w_disk w) (w_disk w'))"
    using evolves_final by blast
qed

lemma holds_deferred:
  fixes m :: "'a io"
  assumes m: "holds P m R w"
    and c: "\<And>w'. unshared (w_disk w') \<Longrightarrow> P (w_disk w') \<Longrightarrow> holds P c (\<lambda>_ _. True) w'"
  shows "holds P (deferred m c) (\<lambda>_ _. True) w"
  unfolding holds_def
proof (rule wp_deferredI [OF m [unfolded holds_def]])
  fix r :: "error + 'a" and w1 :: world assume a: "unshared (w_disk w1) \<and> evolves P w w1 \<and> (\<forall>x. r = Inr x \<longrightarrow> R x w1)"
  then have "holds P c (\<lambda>_ _. True) w1" using c evolves_final by blast
  then show "wp c (\<lambda>_ w'. unshared (w_disk w') \<and> evolves P w w' \<and> (\<forall>x. r = Inr x \<longrightarrow> True)) w1"
    unfolding holds_def by (rule wp_mono) (use a evolves_trans in blast)
qed

lemma holds_ignoring: "holds P m R w \<Longrightarrow> holds P (ignoring m) (\<lambda>_ _. True) w"
  unfolding holds_def wp_ignoring by (erule wp_mono) auto

subsection \<open>Files written in place\<close>

lemma holds_write_file:
  assumes u: "unshared (w_disk w)" and p: "p \<in> in_place"
  shows "holds (\<lambda>h. same_outside {p} (w_disk w) h \<and> file_data h p \<in> {file_data (w_disk w) p, Some [], Some s})
     (write_file p s) (\<lambda>_ w'. file_data (w_disk w') p = Some s) w"
proof -
  let ?P = "\<lambda>h. same_outside {p} (w_disk w) h \<and> file_data h p \<in> {file_data (w_disk w) p, Some [], Some s}"
  have cr: "holds ?P (create p) (\<lambda>i w'. dk_names (w_disk w') p = Some i \<and> file_data (w_disk w') p = Some []) w"
    using u p names_fresh [OF unshared_wf [OF u]] unsharedD [OF u p] unshared_wf [OF u]
    by (auto simp: holds_def wp_simps sys_defs same_outside_def lookup_set_inode lookup_new_inode file_data_def split: option.splits)
  have fw: "holds ?P (trying (fwrite i s) (\<lambda>r1. trying (fclose i) (\<lambda>r2. case r1 of Inl e \<Rightarrow> throw e | Inr _ \<Rightarrow> lift_err r2)))
      (\<lambda>_ w'. file_data (w_disk w') p = Some s) w1"
    if i: "dk_names (w_disk w1) p = Some i \<and> file_data (w_disk w1) p = Some []" and u1: "unshared (w_disk w1)" and P1: "?P (w_disk w1)" for i w1
  proof -
    let ?h = "set_inode i \<lparr>ino_data = ino_data (dk_inodes (w_disk w1) i) @ s, ino_synced = False\<rparr> (w_disk w1)"
    have "ino_data (dk_inodes (w_disk w1) i) = []" using i by (auto simp: file_data_def lookup_def)
    then have h: "file_data ?h p = Some s" using i by (simp add: file_data_def lookup_set_inode)
    have "dk_names (w_disk w1) q \<noteq> Some i" if "q \<noteq> p" for q using unsharedD [OF u1 p] i that by blast
    then have "same_outside {p} (w_disk w1) ?h" by (simp add: same_outside_def lookup_set_inode)
    then have P: "?P ?h" using P1 h same_outside_trans by blast
    have "holds ?P (fwrite i s) (\<lambda>_ w'. file_data (w_disk w') p = Some s) w1"
      unfolding holds_def by (simp only: wp_simps sys_defs) (use P P1 h u1 in \<open>simp add: evolves_put_disk split: option.split\<close>)
    moreover have "wp (trying (fclose i) (\<lambda>r2. case r1 of Inl e \<Rightarrow> throw e | Inr _ \<Rightarrow> lift_err r2))
        (\<lambda>r w'. unshared (w_disk w') \<and> evolves ?P w1 w' \<and> (\<forall>x. r = Inr x \<longrightarrow> file_data (w_disk w') p = Some s)) w2"
      if "unshared (w_disk w2) \<and> evolves ?P w1 w2 \<and> (\<forall>x. r1 = Inr x \<longrightarrow> file_data (w_disk w2) p = Some s)" for r1 :: "error + unit" and w2
      using that by (cases r1; cases "next_fault w2") (simp_all add: wp_simps sys_defs)
    ultimately show ?thesis unfolding holds_def by (rule wp_tryingI)
  qed
  show ?thesis
    unfolding write_file_def by (rule holds_seqE [OF cr fw])
qed

end
