(* ===== verification/Stage.thy ===== *)
theory Stage
  imports Confine
begin

section \<open>Staging an update\<close>

text \<open>
  internal/otad/stage.go: fetching and authenticating the manifest, downloading and verifying the
  artifacts, and the commit that marks the candidate pending. The progress of a download is not
  modelled. Paths are absolute, and the names of firmware bundles hold no separator.
\<close>

subsection \<open>The working directory\<close>

text \<open>
  \<open>os.MkdirTemp\<close> and \<open>os.RemoveAll\<close>. The next random text is the one that gives a free
  name; the directory is new, so nothing lies below it.
\<close>

definition below :: "path \<Rightarrow> path \<Rightarrow> bool" where
  "below dir q \<longleftrightarrow> take (length dir) q = dir"

definition clear_below :: "path \<Rightarrow> disk \<Rightarrow> disk" where
  "clear_below dir d = d\<lparr>dk_names := (\<lambda>q. if below dir q then None else dk_names d q)\<rparr>"

definition mkdir_temp :: "string \<Rightarrow> path io" where
  "mkdir_temp pre = sys_call (\<lambda>w. case w_entropy w of
       [] \<Rightarrow> (Inl EEXIST, w)
     | r # rs \<Rightarrow> (Inr [''tmp'', pre @ r], put_disk (clear_below [''tmp'', pre @ r] (w_disk w)) (w\<lparr>w_entropy := rs\<rparr>)))"

definition remove_all :: "path \<Rightarrow> unit io" where
  "remove_all dir = sys_call (\<lambda>w. (Inr (), put_disk (clear_below dir (w_disk w)) w))"

subsection \<open>Versions\<close>

text \<open>The digits are accumulated in an \<open>int\<close> without a check, so a long run wraps.\<close>

definition versionNum :: "string \<Rightarrow> int \<times> bool" where
  "versionNum v =
    (let ds = trailing_digits v in
     if ds = [] then (0, False)
     else (foldl (\<lambda>n c. wrap64 (n * 10 + int (digit_val c))) 0 ds, True))"

definition isDowngrade :: "string \<Rightarrow> string \<Rightarrow> bool" where
  "isDowngrade newV curV =
    (case (versionNum newV, versionNum curV) of
       ((n, ok1), (c, ok2)) \<Rightarrow> if \<not> ok1 \<or> \<not> ok2 then False else n < c)"

subsection \<open>The verified manifest\<close>

record verified_manifest =
  vm_manifest :: manifest
  vm_data :: string
  vm_sig :: string
  vm_cert :: string
  vm_cert_sig :: string

definition fetch_file :: "env \<Rightarrow> path \<Rightarrow> string \<Rightarrow> string \<Rightarrow> string io" where
  "fetch_file en work url name =
     (let p = path_join work name in
      seqE (FetchTo (e_net en) url p) (\<lambda>_. read_file p))"

text \<open>The address up to and including the last slash.\<close>

definition url_dir :: "string \<Rightarrow> string" where
  "url_dir u = rev (dropWhile (\<lambda>c. c \<noteq> CHR ''/'') (rev u))"

definition check_revoked :: "env \<Rightarrow> path \<Rightarrow> string \<Rightarrow> string \<Rightarrow> int \<Rightarrow> unit io" where
  "check_revoked en work revocationURL rootPub certVer =
     (if revocationURL = [] then ret ()
      else seqE (wrapE ''stage: fetch revocation'' (fetch_file en work revocationURL ''revocation.json'')) (\<lambda>revData.
           seqE (fetch_file en work (revocationURL @ ''.sig'') ''revocation.json.sig'') (\<lambda>revSig.
           wrapE ''stage'' (lift_err (CheckRevocation (e_crypto en) revData revSig rootPub certVer)))))"

definition check_manifest :: "crypto \<Rightarrow> string \<Rightarrow> string \<Rightarrow> string \<Rightarrow> string \<Rightarrow> error + manifest" where
  "check_manifest cr mData mSig signingPub expected =
     (if \<not> Verify cr mData mSig signingPub then Inl (Errorf ''stage: manifest signature invalid -- refusing update'')
      else if expected \<noteq> [] \<and> \<not> equal_fold (hex_encode (sha256 cr mData)) expected
      then Inl (Errorf ''stage: manifest changed since update check -- check again'')
      else ParseManifest mData)"

definition fetchVerifiedManifest :: "env \<Rightarrow> path \<Rightarrow> string \<Rightarrow> string \<Rightarrow> string \<Rightarrow> string \<Rightarrow> verified_manifest io" where
  "fetchVerifiedManifest en work manifestURL revocationURL rootPub expected =
     seqE (fetch_file en work manifestURL ''manifest.json'') (\<lambda>mData.
     seqE (fetch_file en work (manifestURL @ ''.sig'') ''manifest.json.sig'') (\<lambda>mSig.
     let certURL = url_dir manifestURL @ ''signing-cert.json'' in
     seqE (wrapE ''stage: fetch signing cert'' (fetch_file en work certURL ''signing-cert.json'')) (\<lambda>certData.
     seqE (fetch_file en work (certURL @ ''.sig'') ''signing-cert.json.sig'') (\<lambda>certSig.
     seqE (wrapE ''stage'' (lift_err (VerifyCert (e_crypto en) certData certSig rootPub (e_now en 0)))) (\<lambda>(signingPub, certVer).
     seqE (check_revoked en work revocationURL rootPub certVer) (\<lambda>_.
     seqE (lift_err (check_manifest (e_crypto en) mData mSig signingPub expected)) (\<lambda>m.
     ret \<lparr>vm_manifest = m, vm_data = mData, vm_sig = mSig, vm_cert = certData, vm_cert_sig = certSig\<rparr>)))))))"

subsection \<open>The artifacts\<close>

text \<open>\<open>or_remove ps m\<close>: when \<open>m\<close> fails, the files \<open>ps\<close> are removed and its error is returned.\<close>

definition remove_files :: "path list \<Rightarrow> unit io" where
  "remove_files ps = for_each ps (\<lambda>p. ignoring (remove p))"

definition or_remove :: "path list \<Rightarrow> 'a io \<Rightarrow> 'a io" where
  "or_remove ps m = trying m (\<lambda>r. case r of
     Inl e \<Rightarrow> trying (remove_files ps) (\<lambda>_. throw e) | Inr x \<Rightarrow> ret x)"

text \<open>cancelLoaderCandidate of loader.go: staging an update takes the slot from a loader trial.\<close>

definition loaderCandidateFile :: string where
  "loaderCandidateFile = ''loader-candidate''"

definition loaderRanFile :: string where
  "loaderRanFile = ''loader-ran''"

definition cancelLoaderCandidate :: "stage_dirs \<Rightarrow> unit io" where
  "cancelLoaderCandidate dirs =
     (if sd_esp dirs = [] then ret ()
      else seqE (ignoring (remove (path_join (sd_esp dirs) loaderCandidateFile))) (\<lambda>_.
           ignoring (remove (path_join (sd_esp dirs) loaderRanFile))))"

definition stage_rootfs :: "env \<Rightarrow> stage_dirs \<Rightarrow> manifest \<Rightarrow> unit io" where
  "stage_rootfs en dirs m =
     (let rPath = path_join (sd_rootfs dirs) ''rootfs-next.erofs''; rhPath = path_join (sd_rootfs dirs) ''rootfs-next.hash'' in
      seqE (mkdir_all (sd_rootfs dirs)) (\<lambda>_.
      seqE (FetchTo (e_net en) (m_rootfs_url m) rPath) (\<lambda>_.
      seqE (or_remove [rPath] (VerifySHA256 (e_crypto en) rPath (m_rootfs_hash m))) (\<lambda>_.
      seqE (if m_rootfs_hashtree_url m = []
            then or_remove [rPath] (throw (Errorf ''stage: manifest carries no rootfs hash tree''))
            else ret ()) (\<lambda>_.
      seqE (or_remove [rPath] (FetchTo (e_net en) (m_rootfs_hashtree_url m) rhPath)) (\<lambda>_.
      or_remove [rPath, rhPath] (VerifySHA256 (e_crypto en) rhPath (m_rootfs_hashtree_hash m))))))))"

definition stage_kernelcache :: "env \<Rightarrow> stage_dirs \<Rightarrow> manifest \<Rightarrow> unit io" where
  "stage_kernelcache en dirs m =
     (let kPath = path_join (sd_esp dirs) ''kernelcache-next.efi''; kSigPath = path_join (sd_esp dirs) ''kernelcache-next.efi.sig'' in
      seqE (mkdir_all (sd_esp dirs)) (\<lambda>_.
      seqE (cancelLoaderCandidate dirs) (\<lambda>_.
      seqE (FetchTo (e_net en) (m_kernelcache_url m) kPath) (\<lambda>_.
      seqE (or_remove [kPath] (VerifySHA256 (e_crypto en) kPath (m_kernelcache_hash m))) (\<lambda>_.
      seqE (if m_kernelcache_sig_url m = []
            then or_remove [kPath] (throw (Errorf ''stage: manifest carries no kernelcache signature''))
            else ret ()) (\<lambda>_.
      seqE (or_remove [kPath] (FetchTo (e_net en) (m_kernelcache_sig_url m) kSigPath)) (\<lambda>_.
      or_remove [kPath, kSigPath] (VerifySHA256 (e_crypto en) kSigPath (m_kernelcache_sig_hash m)))))))))"

text \<open>One bundle, and the loop over the bundles this machine needs.\<close>

definition stage_bundle :: "env \<Rightarrow> path \<Rightarrow> verified_manifest \<Rightarrow> bundle_spec \<Rightarrow> unit io" where
  "stage_bundle en bdir vm fw =
     (let imgPath = path_join bdir ''firmware-next.img''; htPath = path_join bdir ''firmware-next.hash'' in
      seqE (mkdir_all bdir) (\<lambda>_.
      seqE (FetchTo (e_net en) (bd_url fw) imgPath) (\<lambda>_.
      seqE (or_remove [imgPath] (VerifySHA256 (e_crypto en) imgPath (bd_hash fw))) (\<lambda>_.
      seqE (if bd_verity_hash fw \<noteq> [] then
              seqE (or_remove [imgPath] (FetchTo (e_net en) (bd_hashtree_url fw) htPath)) (\<lambda>_.
              or_remove [imgPath, htPath] (VerifySHA256 (e_crypto en) htPath (bd_hashtree_hash fw)))
            else ret ()) (\<lambda>_.
      wrapE ''stage: persist firmware anchor''
        (or_remove [imgPath] (WriteFirmwareAnchor bdir ''next'' (vm_data vm) (vm_sig vm) (vm_cert vm) (vm_cert_sig vm))))))))"

definition staged_bundles :: "string list \<Rightarrow> string \<Rightarrow> manifest \<Rightarrow> bundle_spec list" where
  "staged_bundles chips kern m = filter (\<lambda>fw. MatchesHardware fw chips kern) (FirmwareBundleList m)"

definition stage_firmware :: "env \<Rightarrow> stage_dirs \<Rightarrow> verified_manifest \<Rightarrow> bundle_spec list io" where
  "stage_firmware en dirs vm =
     (let m = vm_manifest vm in
      seqE (if 0 < length (FirmwareBundleList m) \<and> sd_firmware dirs = []
            then throw (Errorf ''stage: manifest has a firmware track but no firmware dir configured'') else ret ()) (\<lambda>_.
      seqE (DetectGPUChips (e_devs en)) (\<lambda>chips.
      seqE (if m_kernel_release m = [] then RunningKernel else ret (m_kernel_release m)) (\<lambda>kern.
      let staged = staged_bundles chips kern m in
      seqE (for_each staged (\<lambda>fw. stage_bundle en (path_join (sd_firmware dirs) (bd_name fw)) vm fw)) (\<lambda>_. ret staged)))))"

subsection \<open>The commit\<close>

primrec deploy_bundles :: "bundle_spec list \<Rightarrow> deployment \<Rightarrow> error + deployment" where
  "deploy_bundles [] d = Inr d"
| "deploy_bundles (fw # fws) d =
    (case DeployFirmware (bd_name fw) (bd_version fw) (bd_verity_hash fw) d of
       (ok, d1) \<Rightarrow> if \<not> ok then Inl (Errorf ''stage: firmware bundle is below its anti-rollback floor -- refused'')
                   else deploy_bundles fws d1)"

definition mark_pending :: "manifest \<Rightarrow> bundle_spec list \<Rightarrow> deployment \<Rightarrow> error + deployment" where
  "mark_pending m staged d =
     (let d1 = Deploy (m_version m) d;
          d2 = d1\<lparr>d_rootfs := (d_rootfs d1)\<lparr>rf_pending_hash := m_rootfs_verity_hash m\<rparr>\<rparr>
      in deploy_bundles staged d2)"

definition commit_dirs :: "path list \<Rightarrow> unit io" where
  "commit_dirs ds = for_each ds (\<lambda>dir.
     if dir = [] then ret ()
     else trying (stat_dir dir) (\<lambda>r. case r of
         Inl e \<Rightarrow> ret () | Inr _ \<Rightarrow> wrapE ''staged but committing failed'' (commitDir dir)))"

definition staged_message :: "manifest \<Rightarrow> bundle_spec list \<Rightarrow> string" where
  "staged_message m staged =
     (let artifacts = (if 0 < length staged
         then ''rootfs + kernelcache + firmware ['' @ join_with '', '' (map (\<lambda>fw. bd_name fw @ '' v'' @ itoa (bd_version fw)) staged)
              @ ''] fetched + verified''
         else ''rootfs + kernelcache fetched + verified'')
      in ''staged '' @ m_version m @ '' ('' @ artifacts @ ''); reboot to try it'')"

definition stage_commit :: "path \<Rightarrow> stage_dirs \<Rightarrow> manifest \<Rightarrow> bundle_spec list \<Rightarrow> string io" where
  "stage_commit walPath dirs m staged =
     seqE (Load walPath) (\<lambda>d.
     seqE (lift_err (mark_pending m staged d)) (\<lambda>d1.
     seqE (Save walPath d1) (\<lambda>_.
     seqE (commit_dirs [sd_rootfs dirs, sd_firmware dirs, path_dir walPath, sd_esp dirs]) (\<lambda>_.
     seqE (wrapE ''staged but arming boot-state failed'' (SyncBootState walPath dirs)) (\<lambda>_.
     seqE (for_each staged (\<lambda>fw. wrapE ''staged but activating firmware bundle failed''
             (ActivateFirmwareSlot (path_join (sd_firmware dirs) (bd_name fw))))) (\<lambda>_.
     ret (staged_message m staged)))))))"

subsection \<open>Stage\<close>

definition stage_checks :: "env \<Rightarrow> path \<Rightarrow> stage_dirs \<Rightarrow> manifest \<Rightarrow> unit io" where
  "stage_checks en walPath dirs m =
     seqE (wrapE ''stage: promote the running candidate'' (promoteRunningCandidate en walPath dirs)) (\<lambda>_.
     seqE (Load walPath) (\<lambda>cur.
       if isDowngrade (m_version m) (rf_current (d_rootfs cur))
       then throw (Errorf ''stage: below installed -- refused (anti-rollback)'')
       else seqE (DetectGPUChips (e_devs en)) (\<lambda>chips. wrapE ''stage'' (CoupledKernelCheck m chips))))"

definition stage_in :: "env \<Rightarrow> path \<Rightarrow> string \<Rightarrow> string \<Rightarrow> string \<Rightarrow> stage_dirs \<Rightarrow> string \<Rightarrow> path \<Rightarrow> string io" where
  "stage_in en walPath manifestURL revocationURL rootPub dirs expected work =
     seqE (fetchVerifiedManifest en work manifestURL revocationURL rootPub expected) (\<lambda>vm.
     let m = vm_manifest vm in
     seqE (stage_checks en walPath dirs m) (\<lambda>_.
     seqE (stage_rootfs en dirs m) (\<lambda>_.
     seqE (stage_kernelcache en dirs m) (\<lambda>_.
     seqE (stage_firmware en dirs vm) (\<lambda>staged.
     stage_commit walPath dirs m staged)))))"

definition stage :: "env \<Rightarrow> path \<Rightarrow> string \<Rightarrow> string \<Rightarrow> string \<Rightarrow> stage_dirs \<Rightarrow> string \<Rightarrow> string io" where
  "stage en walPath manifestURL revocationURL rootPub dirs expected =
     seqE (mkdir_temp ''atomd-stage-'') (\<lambda>work.
     deferred (stage_in en walPath manifestURL revocationURL rootPub dirs expected work) (remove_all work))"

definition Stage :: "env \<Rightarrow> path \<Rightarrow> string \<Rightarrow> string \<Rightarrow> string \<Rightarrow> stage_dirs \<Rightarrow> string io" where
  "Stage en walPath manifestURL revocationURL rootPub dirs = stage en walPath manifestURL revocationURL rootPub dirs []"

definition StageExpectedManifest :: "env \<Rightarrow> path \<Rightarrow> string \<Rightarrow> string \<Rightarrow> string \<Rightarrow> stage_dirs \<Rightarrow> string \<Rightarrow> string io" where
  "StageExpectedManifest en walPath manifestURL revocationURL rootPub dirs expected =
     (if expected = [] then throw (Errorf ''stage: missing checked manifest digest'')
      else stage en walPath manifestURL revocationURL rootPub dirs expected)"

subsection \<open>Authenticity\<close>

definition some_list_clears :: "crypto \<Rightarrow> string \<Rightarrow> int \<Rightarrow> bool" where
  "some_list_clears cr rootPub v \<longleftrightarrow> (\<exists>b s. not_revoked cr rootPub b s v)"

text \<open>\<open>authentic\<close>: a root-signed, unexpired and, where a list is asked for, unrevoked certificate
  carries the key that signed the manifest, whose digest is the expected one if there is one.\<close>

definition authentic :: "env \<Rightarrow> string \<Rightarrow> string \<Rightarrow> string \<Rightarrow> verified_manifest \<Rightarrow> bool" where
  "authentic en revocationURL rootPub expected vm \<longleftrightarrow>
     (\<exists>pub v. vouched (e_crypto en) rootPub (e_now en 0) (vm_cert vm) (vm_cert_sig vm) pub v \<and>
        Verify (e_crypto en) (vm_data vm) (vm_sig vm) pub \<and>
        (revocationURL \<noteq> [] \<longrightarrow> some_list_clears (e_crypto en) rootPub v) \<and>
        (expected \<noteq> [] \<longrightarrow> equal_fold (hex_encode (sha256 (e_crypto en) (vm_data vm))) expected) \<and>
        ParseManifest (vm_data vm) = Inr (vm_manifest vm))"

lemma gives_check_revoked:
  "gives (check_revoked en work revocationURL rootPub v)
     (\<lambda>_ _. revocationURL \<noteq> [] \<longrightarrow> some_list_clears (e_crypto en) rootPub v) w"
proof (cases "revocationURL = []")
  case False
  have "gives (wrapE ''stage'' (lift_err (CheckRevocation (e_crypto en) b s rootPub v)))
     (\<lambda>_ _. revocationURL \<noteq> [] \<longrightarrow> some_list_clears (e_crypto en) rootPub v) w1" for b s w1
    unfolding some_list_clears_def CheckRevocation_iff [symmetric]
    by (intro gives_wrapE gives_lift_err) auto
  with False show ?thesis
    unfolding check_revoked_def by simp (intro gives_seqE_any, blast)
qed (simp add: check_revoked_def gives_ret)

lemma gives_fetchVerifiedManifest:
  "gives (fetchVerifiedManifest en work manifestURL revocationURL rootPub expected)
     (\<lambda>vm _. authentic en revocationURL rootPub expected vm) w"
  unfolding fetchVerifiedManifest_def Let_def
proof (rule gives_seqE_any, rule gives_seqE_any, rule gives_seqE_any, rule gives_seqE_any)
  fix mData mSig certData certSig and w1 :: world
  have vc: "gives (wrapE ''stage'' (lift_err (VerifyCert (e_crypto en) certData certSig rootPub (e_now en 0))))
      (\<lambda>(pub, v) _. vouched (e_crypto en) rootPub (e_now en 0) certData certSig pub v) w1"
    by (auto intro!: gives_wrapE gives_lift_err simp: VerifyCert_iff)
  have tail: "gives (seqE (lift_err (check_manifest (e_crypto en) mData mSig pub expected)) (\<lambda>m.
       ret \<lparr>vm_manifest = m, vm_data = mData, vm_sig = mSig, vm_cert = certData, vm_cert_sig = certSig\<rparr>))
     (\<lambda>vm _. authentic en revocationURL rootPub expected vm) w2"
    if "vouched (e_crypto en) rootPub (e_now en 0) certData certSig pub v"
      "revocationURL \<noteq> [] \<longrightarrow> some_list_clears (e_crypto en) rootPub v" for pub v and w2 :: world
    by (rule gives_seqE [OF gives_lift_err [where R = "\<lambda>m _. check_manifest (e_crypto en) mData mSig pub expected = Inr m"]])
      (use that in \<open>auto simp: authentic_def check_manifest_def intro!: gives_ret exI [of _ pub] exI [of _ v] split: if_splits\<close>)
  show "gives (seqE (wrapE ''stage'' (lift_err (VerifyCert (e_crypto en) certData certSig rootPub (e_now en 0)))) (\<lambda>(signingPub, certVer).
     seqE (check_revoked en work revocationURL rootPub certVer) (\<lambda>_.
     seqE (lift_err (check_manifest (e_crypto en) mData mSig signingPub expected)) (\<lambda>m.
     ret \<lparr>vm_manifest = m, vm_data = mData, vm_sig = mSig, vm_cert = certData, vm_cert_sig = certSig\<rparr>))))
     (\<lambda>vm _. authentic en revocationURL rootPub expected vm) w1"
    by (rule gives_seqE [OF vc]) (clarsimp, rule gives_seqE [OF gives_check_revoked], erule (1) tail)
qed

end
