(* ===== verification/Loader.thy ===== *)
theory Loader
  imports Stage
begin

section \<open>Loader updates\<close>

text \<open>
  internal/otad/loader.go: staging a new boot loader for one trial start, installing it once it has
  run, repairing it from an embedded image, and the boot information shown to the user. The sections
  of a PE file, which package \<open>debug/pe\<close> finds, are the parameter \<open>pe\<close>: the text of the
  file to a lookup of section contents, \<open>None\<close> for a text that is no PE file.
\<close>

subsection \<open>Versions and marker files\<close>

definition loaderFailedFile :: string where
  "loaderFailedFile = ''loader-failed''"

definition loaderPrevFile :: string where
  "loaderPrevFile = ''loader-prev.efi''"

definition loaderMarker :: string where
  "loaderMarker = ''ATOM-LOADER-VERSION=''"

definition loaderBootPath :: "stage_dirs \<Rightarrow> path" where
  "loaderBootPath dirs = path_join (path_join (path_dir (sd_esp dirs)) ''BOOT'') ''BOOTX64.EFI''"

text \<open>\<open>bytes.Index\<close> for a pattern, as the rest of the text after its first occurrence.\<close>

fun after_first :: "string \<Rightarrow> string \<Rightarrow> string option" where
  "after_first pat [] = (if pat = [] then Some [] else None)"
| "after_first pat (c # s) = (case cut_prefix pat (c # s) of Some t \<Rightarrow> Some t | None \<Rightarrow> after_first pat s)"

definition LoaderVersionOf :: "string \<Rightarrow> int" where
  "LoaderVersionOf img =
    (case after_first loaderMarker img of
       None \<Rightarrow> 1
     | Some rest \<Rightarrow>
         (case str_cut (CHR '';'') rest of
            None \<Rightarrow> 1
          | Some (num, _) \<Rightarrow>
              if length num = 0 \<or> 16 < length num then 1
              else (case atoi num of None \<Rightarrow> 1 | Some v \<Rightarrow> if v < 1 then 1 else v)))"

text \<open>The version of the image in a file, zero when it cannot be read.\<close>

definition fileLoaderVersion :: "path \<Rightarrow> int io" where
  "fileLoaderVersion p = trying (read_file p) (\<lambda>r. ret (case r of Inl e \<Rightarrow> 0 | Inr b \<Rightarrow> LoaderVersionOf b))"

definition InstalledLoaderVersion :: "stage_dirs \<Rightarrow> int io" where
  "InstalledLoaderVersion dirs =
     trying (read_file (loaderBootPath dirs)) (\<lambda>r. ret (case r of Inl e \<Rightarrow> 0 | Inr b \<Rightarrow> LoaderVersionOf b))"

text \<open>A key file is a map; a missing key reads as the empty text.\<close>

definition key_line :: "(string \<Rightarrow> string option) \<Rightarrow> string \<Rightarrow> (string \<Rightarrow> string option)" where
  "key_line m line = (case str_cut (CHR ''='') (trim_space line) of None \<Rightarrow> m | Some (k, v) \<Rightarrow> m(k \<mapsto> v))"

definition parse_keys :: "string \<Rightarrow> (string \<Rightarrow> string option)" where
  "parse_keys s = foldl key_line (\<lambda>_. None) (scan_lines s)"

definition key_value :: "(string \<Rightarrow> string option) \<Rightarrow> string \<Rightarrow> string" where
  "key_value m k = (case m k of None \<Rightarrow> [] | Some v \<Rightarrow> v)"

definition readKeyFile :: "path \<Rightarrow> (string \<Rightarrow> string option) io" where
  "readKeyFile p = trying (read_file p) (\<lambda>r. ret (case r of Inl e \<Rightarrow> (\<lambda>_. None) | Inr s \<Rightarrow> parse_keys s))"

definition markerVersion :: "path \<Rightarrow> int io" where
  "markerVersion p = seqE (readKeyFile p) (\<lambda>m. ret (atoi_value (key_value m ''version'')))"

definition marker_text :: "string list \<Rightarrow> string" where
  "marker_text ls = join_with [newline] ls @ [newline]"

definition writeMarker :: "path \<Rightarrow> string list \<Rightarrow> unit io" where
  "writeMarker p ls = seqE (write_file p (marker_text ls)) (\<lambda>_. syncDir (path_dir p))"

record loader_status =
  ls_installed :: int
  ls_candidate :: int
  ls_failed :: int
  ls_path :: path

definition ReadLoaderStatus :: "stage_dirs \<Rightarrow> loader_status io" where
  "ReadLoaderStatus dirs =
     seqE (InstalledLoaderVersion dirs) (\<lambda>i.
     seqE (markerVersion (path_join (sd_esp dirs) loaderCandidateFile)) (\<lambda>c.
     seqE (markerVersion (path_join (sd_esp dirs) loaderFailedFile)) (\<lambda>f.
     ret \<lparr>ls_installed = i, ls_candidate = c, ls_failed = f, ls_path = loaderBootPath dirs\<rparr>)))"

subsection \<open>Staging a loader\<close>

definition loader_image :: "stage_dirs \<Rightarrow> path" where
  "loader_image dirs = path_join (sd_esp dirs) ''kernelcache-next.efi''"

text \<open>The download and verification of the image and its signature.\<close>

definition fetch_loader :: "env \<Rightarrow> string \<Rightarrow> stage_dirs \<Rightarrow> verified_manifest \<Rightarrow> string io" where
  "fetch_loader en rootPub dirs vm =
     (let m = vm_manifest vm; kPath = loader_image dirs; sPath = path_suffix kPath ''.sig'' in
      seqE (FetchTo (e_net en) (m_loader_url m) kPath) (\<lambda>_.
      seqE (or_remove [kPath] (VerifySHA256 (e_crypto en) kPath (m_loader_hash m))) (\<lambda>_.
      seqE (fileLoaderVersion kPath) (\<lambda>got.
      seqE (if got \<noteq> m_loader_version m
            then or_remove [kPath] (throw (Errorf ''loader: image reports another version than the manifest''))
            else ret ()) (\<lambda>_.
      seqE (or_remove [kPath] (FetchTo (e_net en) (m_loader_sig_url m) sPath)) (\<lambda>_.
      seqE (or_remove [kPath, sPath] (VerifySHA256 (e_crypto en) sPath (m_loader_sig_hash m))) (\<lambda>_.
      seqE (read_file kPath) (\<lambda>img.
      seqE (read_file sPath) (\<lambda>sg.
      seqE (wrapE ''loader'' (lift_err (VerifyCert (e_crypto en) (vm_cert vm) (vm_cert_sig vm) rootPub (e_now en 1)))) (\<lambda>(signingPub, _).
      if \<not> Verify (e_crypto en) img sg signingPub
      then or_remove [kPath, sPath] (throw (Errorf ''loader: signature invalid, refusing''))
      else ret img))))))))))"

definition trial_boot_state :: boot_state where
  "trial_boot_state = \<lparr>bs_target = ''next'', bs_trial = True, bs_attempts = 1\<rparr>"

definition arm_loader :: "env \<Rightarrow> stage_dirs \<Rightarrow> int \<Rightarrow> string \<Rightarrow> string io" where
  "arm_loader en dirs version img =
     seqE (ignoring (remove (path_join (sd_esp dirs) loaderRanFile))) (\<lambda>_.
     seqE (writeMarker (path_join (sd_esp dirs) loaderCandidateFile)
             [''version='' @ itoa version, ''sha256='' @ hex_encode (sha256 (e_crypto en) img)]) (\<lambda>_.
     seqE (WriteBootState (boot_state_path dirs) trial_boot_state) (\<lambda>_.
     seqE (commitDir (sd_esp dirs)) (\<lambda>_.
     seqE sync_all (\<lambda>_.
     ret (''loader: version '' @ itoa version @ '' staged, it is tried once on the next boot''))))))"

definition stage_loader_in :: "env \<Rightarrow> string \<Rightarrow> string \<Rightarrow> string \<Rightarrow> stage_dirs \<Rightarrow> bool \<Rightarrow> path \<Rightarrow> string io" where
  "stage_loader_in en manifestURL revocationURL rootPub dirs retryFailed work =
     seqE (fetchVerifiedManifest en work manifestURL revocationURL rootPub []) (\<lambda>vm.
     let m = vm_manifest vm in
     if m_loader_url m = [] \<or> m_loader_sig_url m = [] \<or> m_loader_version m < 1
     then throw (Errorf ''loader: this release carries no boot loader'')
     else seqE (InstalledLoaderVersion dirs) (\<lambda>installed.
       if m_loader_version m \<le> installed
       then ret (''loader: version '' @ itoa installed @ '' already installed'')
       else seqE (markerVersion (path_join (sd_esp dirs) loaderFailedFile)) (\<lambda>failed.
         if failed = m_loader_version m \<and> \<not> retryFailed
         then throw (Errorf (''loader: version '' @ itoa failed @ '' did not start on this machine before, not retrying''))
         else seqE (fetch_loader en rootPub dirs vm) (\<lambda>img. arm_loader en dirs (m_loader_version m) img))))"

definition StageLoader :: "env \<Rightarrow> path \<Rightarrow> string \<Rightarrow> string \<Rightarrow> string \<Rightarrow> stage_dirs \<Rightarrow> bool \<Rightarrow> string io" where
  "StageLoader en walPath manifestURL revocationURL rootPub dirs retryFailed =
     (if sd_esp dirs = [] then throw (Errorf ''loader: no ESP configured'')
      else seqE (Load walPath) (\<lambda>d.
        if HasPending d then seqE (pendingUpdateError (e_cmdline en) d ''loader'') throw
        else seqE (mkdir_temp ''atomd-loader-'') (\<lambda>work.
          deferred (stage_loader_in en manifestURL revocationURL rootPub dirs retryFailed work) (remove_all work))))"

subsection \<open>Installing and repairing\<close>

definition installLoaderImage :: "stage_dirs \<Rightarrow> path \<Rightarrow> unit io" where
  "installLoaderImage dirs img =
     (let boot = loaderBootPath dirs in
      seqE (trying (stat boot) (\<lambda>r. case r of
          Inr _ \<Rightarrow> wrapE ''loader: keep previous'' (copyFileSync boot (path_join (sd_esp dirs) loaderPrevFile))
        | Inl e \<Rightarrow> ret ())) (\<lambda>_.
      seqE (mkdir_all (path_dir boot)) (\<lambda>_.
      seqE (wrapE ''loader: install'' (copyFileSync img boot)) (\<lambda>_.
      sync_all))))"

definition judge_loader :: "crypto \<Rightarrow> stage_dirs \<Rightarrow> int \<Rightarrow> string \<Rightarrow> string io" where
  "judge_loader cr dirs version digest =
     seqE (markerVersion (path_join (sd_esp dirs) loaderRanFile)) (\<lambda>ran.
       if ran \<noteq> version
       then seqE (writeMarker (path_join (sd_esp dirs) loaderFailedFile) [''version='' @ itoa version]) (\<lambda>_.
            ret (''loader: version '' @ itoa version @ '' did not start, the previous loader stays''))
       else seqE (wrapE ''loader: candidate image missing'' (read_file (loader_image dirs))) (\<lambda>img.
         if \<not> equal_fold (hex_encode (sha256 cr img)) digest
         then throw (Errorf ''loader: candidate image changed since it was staged, not installing'')
         else seqE (installLoaderImage dirs (loader_image dirs)) (\<lambda>_.
              seqE (ignoring (remove (path_join (sd_esp dirs) loaderFailedFile))) (\<lambda>_.
              ret (''loader: version '' @ itoa version @ '' started this boot and is now installed'')))))"

definition HandleLoaderCandidate :: "crypto \<Rightarrow> stage_dirs \<Rightarrow> string io" where
  "HandleLoaderCandidate cr dirs =
     (if sd_esp dirs = [] then ret []
      else seqE (readKeyFile (path_join (sd_esp dirs) loaderCandidateFile)) (\<lambda>cand.
        let version = atoi_value (key_value cand ''version'') in
        if version = 0 then ret []
        else deferred (judge_loader cr dirs version (key_value cand ''sha256'')) (cancelLoaderCandidate dirs)))"

text \<open>The temporary copy is removed on every way out.\<close>

definition repair_from :: "stage_dirs \<Rightarrow> string \<Rightarrow> path \<Rightarrow> nat \<Rightarrow> string io" where
  "repair_from dirs img tmp out =
     seqE (trying (fwrite out img) (\<lambda>r. case r of
         Inl e \<Rightarrow> trying (fclose out) (\<lambda>_. throw e) | Inr _ \<Rightarrow> ret ())) (\<lambda>_.
     seqE (fclose out) (\<lambda>_.
     seqE (installLoaderImage dirs tmp) (\<lambda>_.
     ret (''loader: version '' @ itoa (LoaderVersionOf img) @ '' installed''))))"

definition RepairLoader :: "env \<Rightarrow> stage_dirs \<Rightarrow> string \<Rightarrow> string \<Rightarrow> string \<Rightarrow> string io" where
  "RepairLoader en dirs img sg rootPub =
     (if sd_esp dirs = [] then throw (Errorf ''loader: no ESP configured'')
      else seqE (wrapE ''loader: signing cert'' (read_file (path_join (sd_esp dirs) ''signing-cert.json''))) (\<lambda>cert.
      seqE (wrapE ''loader: signing cert signature'' (read_file (path_join (sd_esp dirs) ''signing-cert.json.sig''))) (\<lambda>certSig.
      seqE (wrapE ''loader'' (lift_err (VerifyCert (e_crypto en) cert certSig rootPub (e_now en 0)))) (\<lambda>(signingPub, _).
      if \<not> Verify (e_crypto en) img sg signingPub then throw (Errorf ''loader: signature invalid, refusing'')
      else seqE (create_temp (sd_esp dirs) ''.loader-repair-'') (\<lambda>(tmp, out).
           deferred (repair_from dirs img tmp out) (ignoring (remove tmp)))))))"

subsection \<open>Boot information\<close>

type_synonym pe_reader = "string \<Rightarrow> (string \<Rightarrow> string option) option"

definition trim_set :: "(char \<Rightarrow> bool) \<Rightarrow> string \<Rightarrow> string" where
  "trim_set P s = rev (dropWhile P (rev (dropWhile P s)))"

fun first_option :: "string \<Rightarrow> string list \<Rightarrow> string option" where
  "first_option pre [] = None"
| "first_option pre (a # as) = (case cut_prefix pre a of Some v \<Rightarrow> Some v | None \<Rightarrow> first_option pre as)"

definition section_version :: "(string \<Rightarrow> string option) \<Rightarrow> string option" where
  "section_version sec =
    (case sec ''.atomver'' of None \<Rightarrow> None
     | Some b \<Rightarrow> (let v = trim_set (\<lambda>c. c \<in> {CHR 0x00, CHR '' '', newline}) b
                 in if v \<noteq> [] then Some (CHR ''v'' # trim_prefix ''v'' v) else None))"

definition KernelcacheVersion :: "pe_reader \<Rightarrow> path \<Rightarrow> string io" where
  "KernelcacheVersion pe p =
     trying (read_file p) (\<lambda>r. ret (case r of
         Inl e \<Rightarrow> []
       | Inr s \<Rightarrow> (case pe s of
            None \<Rightarrow> []
          | Some sec \<Rightarrow>
              (case section_version sec of
                 Some v \<Rightarrow> v
               | None \<Rightarrow>
                   (case sec ''.cmdline'' of None \<Rightarrow> []
                    | Some b \<Rightarrow> (case first_option ''atom.version='' (Prelude.fields (trim_set (\<lambda>c. c = CHR 0x00) b)) of
                        Some v \<Rightarrow> v | None \<Rightarrow> []))))))"

record boot_info =
  binf_target :: string
  binf_trial :: bool
  binf_slots :: "(string \<times> string) list"

text \<open>The slots in the order they are looked at; each name occurs once.\<close>

primrec boot_slots :: "pe_reader \<Rightarrow> stage_dirs \<Rightarrow> int \<Rightarrow> string list \<Rightarrow> (string \<times> string) list io" where
  "boot_slots pe dirs cand [] = ret []"
| "boot_slots pe dirs cand (sl # sls) =
     (let p = path_join (sd_esp dirs) (''kernelcache-'' @ sl @ ''.efi'') in
      trying (stat p) (\<lambda>r. case r of
          Inl e \<Rightarrow> boot_slots pe dirs cand sls
        | Inr _ \<Rightarrow>
            if sl = ''next'' \<and> cand \<noteq> 0
            then seqE (boot_slots pe dirs cand sls) (\<lambda>rest. ret ((sl, ''loader '' @ itoa cand) # rest))
            else seqE (KernelcacheVersion pe p) (\<lambda>v.
                 seqE (boot_slots pe dirs cand sls) (\<lambda>rest. ret ((sl, if v = [] then ''present'' else v) # rest)))))"

definition ReadBootInfo :: "pe_reader \<Rightarrow> stage_dirs \<Rightarrow> boot_info io" where
  "ReadBootInfo pe dirs =
     trying (ReadBootState (path_join (sd_esp dirs) ''boot-state'')) (\<lambda>r.
       let bs = (case r of Inl e \<Rightarrow> zero_boot_state | Inr b \<Rightarrow> b) in
       seqE (markerVersion (path_join (sd_esp dirs) loaderCandidateFile)) (\<lambda>cand.
       seqE (boot_slots pe dirs cand [''active'', ''next'', ''prev'', ''recovery'']) (\<lambda>slots.
       ret \<lparr>binf_target = (if bs_target bs = [] then ''active'' else bs_target bs), binf_trial = bs_trial bs,
            binf_slots = slots\<rparr>)))"

end
