(* ===== verification/StageSafe.thy ===== *)
theory StageSafe
  imports Stage
begin

section \<open>What staging arms\<close>

text \<open>
  What each phase of internal/otad/stage.go touches and establishes, and the property that the
  whole of it has on every disk it passes through.
\<close>

subsection \<open>Frames of the phases\<close>

definition temp_area :: "path set" where
  "temp_area = {q. below [''tmp''] q}"

definition tmp_names :: "stage_dirs \<Rightarrow> path set" where
  "tmp_names dirs = (\<lambda>q. path_suffix q ''.tmp'') ` next_names dirs"

definition loader_marks :: "stage_dirs \<Rightarrow> path set" where
  "loader_marks dirs = {path_join (sd_esp dirs) loaderCandidateFile, path_join (sd_esp dirs) loaderRanFile}"

definition firmware_area :: "stage_dirs \<Rightarrow> path set" where
  "firmware_area dirs = (if sd_firmware dirs = [] then {} else {q. below (sd_firmware dirs) q})"

lemma plain_join: "n \<noteq> [] \<Longrightarrow> hd n \<noteq> CHR ''.'' \<Longrightarrow> plain_path (path_join d n)"
  by (cases n) (auto simp: plain_path_def path_join_def has_prefix_def)

lemma unshared_clear: "unshared d \<Longrightarrow> unshared (clear_below dir d)"
  by (auto simp: unshared_def clear_below_def wf_disk_def private_name_def)

lemma same_clear_below: "same_outside {q. below dir q} d (clear_below dir d)"
  by (simp add: same_outside_def clear_below_def lookup_def)

lemma confined_clear:
  "confined {q. below dir q} (remove_all dir)"
  by (auto simp: confined_def remove_all_def wp_simps unshared_clear same_clear_below split: option.splits)

lemma below_two: "below [a, b] q \<Longrightarrow> below [a] q"
  by (cases q) (simp_all add: below_def)

lemma confined_mkdir_temp: "confined temp_area (mkdir_temp pre)"
  by (auto simp: confined_def mkdir_temp_def wp_simps unshared_clear split: option.splits list.splits
      intro!: evolves_put_disk same_outside_mono [OF same_clear_below] simp: temp_area_def below_two)

lemma confined_fetch_file:
  assumes "n \<noteq> []" and "hd n \<noteq> CHR ''.''"
  shows "confined (inside work) (fetch_file en work url n)"
  unfolding fetch_file_def Let_def
  by (rule confined_seqE, rule confined_mono [OF confined_FetchTo [OF plain_join [OF assms]]])
    auto

lemma confined_fetchVerifiedManifest:
  "confined (inside work) (fetchVerifiedManifest en work manifestURL revocationURL rootPub expected)"
  unfolding fetchVerifiedManifest_def check_revoked_def Let_def
  by (intro confined_seqE) (auto intro!: confined_fetch_file confined_seqE confined_wrapE)

lemma confined_remove_files: "set ps \<subseteq> S \<Longrightarrow> confined S (remove_files ps)"
  unfolding remove_files_def by (intro confined_for_each confined_ignoring confined_remove) auto

lemma confined_or_remove: "confined S m \<Longrightarrow> set ps \<subseteq> S \<Longrightarrow> confined S (or_remove ps m)"
  unfolding or_remove_def by (rule confined_trying) (auto intro!: confined_trying confined_remove_files split: sum.splits)

lemma confined_cancelLoaderCandidate: "confined (loader_marks dirs) (cancelLoaderCandidate dirs)"
  unfolding cancelLoaderCandidate_def by (auto intro!: confined_intros simp: loader_marks_def)

lemma confined_fetch_next:
  assumes "p \<in> next_names dirs"
  shows "confined (next_names dirs \<union> tmp_names dirs) (FetchTo net url p)"
proof -
  have "plain_path p"
    using assms by (auto simp: next_names_def slot_list_def slot_groups_def slot_file_def intro!: plain_join)
  then show ?thesis
    by (rule confined_mono [OF confined_FetchTo]) (use assms in \<open>auto simp: tmp_names_def\<close>)
qed

definition kernelcache_files :: "stage_dirs \<Rightarrow> path set" where
  "kernelcache_files dirs = (\<lambda>n. path_join (sd_esp dirs) n) `
     {''kernelcache-next.efi'', ''kernelcache-next.efi.tmp'', ''kernelcache-next.efi.sig'', ''kernelcache-next.efi.sig.tmp''}"

lemma kernelcache_files_sub: "kernelcache_files dirs \<subseteq> next_names dirs \<union> tmp_names dirs"
  by (auto simp: kernelcache_files_def tmp_names_def next_names_def slot_list_def slot_groups_def slot_file_def)

lemma confined_stage_artifacts:
  "confined (next_names dirs \<union> tmp_names dirs) (stage_rootfs en dirs m)"
  "confined (kernelcache_files dirs \<union> loader_marks dirs) (stage_kernelcache en dirs m)"
proof -
  let ?S = "next_names dirs \<union> tmp_names dirs"
  have f: "confined (?S \<union> X) (FetchTo net url q)" if "q \<in> next_names dirs" for net url q X
    by (rule confined_mono [OF confined_fetch_next [OF that]]) auto
  have c: "confined (kernelcache_files dirs \<union> loader_marks dirs) (cancelLoaderCandidate dirs)"
    by (rule confined_mono [OF confined_cancelLoaderCandidate]) auto
  show "confined ?S (stage_rootfs en dirs m)"
    unfolding stage_rootfs_def Let_def
    by (auto intro!: confined_seqE confined_or_remove f [where X = "{}", simplified])
  have mem: "path_join (sd_esp dirs) ''kernelcache-next.efi'' \<in> kernelcache_files dirs"
    "path_join (sd_esp dirs) ''kernelcache-next.efi.sig'' \<in> kernelcache_files dirs"
    by (simp_all add: kernelcache_files_def)
  have k: "confined (kernelcache_files dirs \<union> loader_marks dirs) (FetchTo net url (path_join (sd_esp dirs) n))"
    if "n \<in> {''kernelcache-next.efi'', ''kernelcache-next.efi.sig''}" for net url n
    by (rule confined_mono [OF confined_FetchTo [OF plain_join]]) (use that in \<open>auto simp: kernelcache_files_def\<close>)
  show "confined (kernelcache_files dirs \<union> loader_marks dirs) (stage_kernelcache en dirs m)"
    unfolding stage_kernelcache_def Let_def
    by (auto intro!: confined_seqE confined_or_remove k c mem)
qed

lemma quietly_hardware [simp]:
  "quietly (DetectGPUChips devs)" "quietly RunningKernel" "quietly (CoupledKernelCheck m chips)"
proof -
  show r: "quietly RunningKernel" by (auto simp: RunningKernel_def intro!: quietly_intros)
  have "quietly (gpu_scan ds x)" for ds x
    by (induction ds arbitrary: x) (auto simp: read_trimmed_def intro!: quietly_intros split: option.splits)
  then show "quietly (DetectGPUChips devs)"
    by (auto simp: DetectGPUChips_def intro!: quietly_intros)
  show "quietly (CoupledKernelCheck m chips)"
    by (auto simp: CoupledKernelCheck_def Let_def r intro!: quietly_intros)
qed

lemma below_firmware: "sd_firmware dirs \<noteq> [] \<Longrightarrow> inside (path_join (sd_firmware dirs) n) \<subseteq> firmware_area dirs"
  by (auto simp: inside_def firmware_area_def below_def path_join_def)

lemma confined_stage_bundle: "confined (inside bdir) (stage_bundle en bdir vm fw)"
proof -
  have f: "confined (inside bdir) (FetchTo net url (path_join bdir n))" if "n \<noteq> []" "hd n \<noteq> CHR ''.''" for net url n
    by (rule confined_mono [OF confined_FetchTo [OF plain_join [OF that]]]) auto
  have a: "confined (inside bdir) (WriteFirmwareAnchor bdir sl d1 d2 d3 d4)" for sl d1 d2 d3 d4
    by (rule confined_mono [OF confined_WriteFirmwareAnchor]) (auto simp: anchor_names_def)
  show ?thesis
    unfolding stage_bundle_def Let_def
    by (auto intro!: confined_seqE confined_wrapE confined_or_remove f a)
qed

lemma confined_stage_firmware: "confined (firmware_area dirs) (stage_firmware en dirs vm)"
proof (cases "sd_firmware dirs = []")
  case False
  have "confined (firmware_area dirs) (stage_bundle en (path_join (sd_firmware dirs) n) vm fw)" for n fw
    by (rule confined_mono [OF confined_stage_bundle below_firmware [OF False]])
  then show ?thesis
    unfolding stage_firmware_def Let_def
    by (auto intro!: confined_seqE confined_for_each confined_quietly [OF quietly_hardware(1)] confined_quietly [OF quietly_hardware(2)])
next
  case True
  have stop: "seqE (throw e) k = throw e" for e and k :: "unit \<Rightarrow> bundle_spec list io"
    by (simp add: seqE_def trying_def throw_def fun_eq_iff)
  have "quietly (stage_firmware en dirs vm)"
  proof (cases "FirmwareBundleList (vm_manifest vm) = []")
    case none: True
    then show ?thesis by (auto simp: stage_firmware_def Let_def staged_bundles_def intro!: quietly_intros)
  next
    case False
    then show ?thesis using True by (simp add: stage_firmware_def Let_def stop)
  qed
  then show ?thesis by (rule confined_quietly)
qed

subsection \<open>What the phases verify\<close>

definition digest_ok :: "crypto \<Rightarrow> disk \<Rightarrow> path \<Rightarrow> string \<Rightarrow> bool" where
  "digest_ok cr h p hash \<longleftrightarrow> (\<exists>s. file_data h p = Some s \<and> hex_decode hash = Some (sha256 cr s))"

definition rootfs_verified :: "crypto \<Rightarrow> disk \<Rightarrow> stage_dirs \<Rightarrow> manifest \<Rightarrow> bool" where
  "rootfs_verified cr h dirs m \<longleftrightarrow>
     digest_ok cr h (path_join (sd_rootfs dirs) ''rootfs-next.erofs'') (m_rootfs_hash m) \<and>
     digest_ok cr h (path_join (sd_rootfs dirs) ''rootfs-next.hash'') (m_rootfs_hashtree_hash m)"

definition kernelcache_verified :: "crypto \<Rightarrow> disk \<Rightarrow> stage_dirs \<Rightarrow> manifest \<Rightarrow> bool" where
  "kernelcache_verified cr h dirs m \<longleftrightarrow>
     digest_ok cr h (path_join (sd_esp dirs) ''kernelcache-next.efi'') (m_kernelcache_hash m) \<and>
     digest_ok cr h (path_join (sd_esp dirs) ''kernelcache-next.efi.sig'') (m_kernelcache_sig_hash m)"

definition verified_on :: "crypto \<Rightarrow> stage_dirs \<Rightarrow> manifest \<Rightarrow> disk \<Rightarrow> bool" where
  "verified_on cr dirs m h \<longleftrightarrow> rootfs_verified cr h dirs m \<and> kernelcache_verified cr h dirs m"

lemma digest_ok_same: "same_outside S d h \<Longrightarrow> p \<notin> S \<Longrightarrow> digest_ok cr d p hash \<Longrightarrow> digest_ok cr h p hash"
  by (simp add: digest_ok_def file_data_def same_outside_def)

lemma verified_on_same:
  assumes "same_outside S d h" and "next_names dirs \<inter> S = {}" and "verified_on cr dirs m d"
  shows "verified_on cr dirs m h"
proof -
  have "digest_ok cr h p hash" if "p \<in> next_names dirs" "digest_ok cr d p hash" for p hash
    by (rule digest_ok_same [OF assms(1) _ that(2)]) (use assms(2) that(1) in blast)
  then show ?thesis
    using assms(3) by (simp add: verified_on_def rootfs_verified_def kernelcache_verified_def)
qed

lemma gives_fail [simp]: "gives (trying c (\<lambda>_. throw e)) R w"
  by (auto simp: gives_def wp_def trying_def throw_def split: prod.splits)

lemma gives_or_remove:
  fixes m :: "'a io"
  assumes "gives m R w"
  shows "gives (or_remove ps m) R w"
  unfolding gives_def or_remove_def
proof (rule wp_tryingI [OF assms [unfolded gives_def]])
  fix r :: "error + 'a" and w' :: world assume "\<forall>x. r = Inr x \<longrightarrow> R x w'"
  then show "wp (case r of Inl e \<Rightarrow> trying (remove_files ps) (\<lambda>_. throw e) | Inr x \<Rightarrow> ret x) (\<lambda>r w'. \<forall>x. r = Inr x \<longrightarrow> R x w') w'"
    using gives_fail [of "remove_files ps" _ R w', unfolded gives_def] by (cases r) (simp_all add: wp_ret)
qed

lemma gives_VerifySHA256:
  "unshared (w_disk w) \<Longrightarrow>
   gives (VerifySHA256 cr p h) (\<lambda>_ w'. unshared (w_disk w') \<and> w_disk w' = w_disk w \<and> digest_ok cr (w_disk w') p h) w"
  by (rule gives_wp, rule wp_mono [OF wp_VerifySHA256]) (auto simp: digest_ok_def)

text \<open>Two files fetched and verified one after the other, with the checks in between.\<close>

lemma gives_fetch_pair:
  assumes u: "unshared (w_disk w)" and pq: "plain_path p" "plain_path q" "p \<notin> {q, path_suffix q ''.tmp''}"
    and mid: "\<And>w. gives mid (\<lambda>_ w'. w_disk w' = w_disk w) w"
  shows "gives (seqE (FetchTo net u1 p) (\<lambda>_.
      seqE (or_remove [p] (VerifySHA256 cr p h1)) (\<lambda>_.
      seqE mid (\<lambda>_.
      seqE (or_remove [p] (FetchTo net u2 q)) (\<lambda>_.
      or_remove [p, q] (VerifySHA256 cr q h2))))))
    (\<lambda>_ w'. unshared (w_disk w') \<and> digest_ok cr (w_disk w') p h1 \<and> digest_ok cr (w_disk w') q h2) w"
proof (rule gives_seqE [OF gives_confined [OF confined_FetchTo [OF pq(1)] u]])
  fix x and w1 :: world assume w1: "unshared (w_disk w1) \<and> same_outside {p, path_suffix p ''.tmp''} (w_disk w) (w_disk w1)"
  have fetch: "gives (FetchTo net u2 q) (\<lambda>_ w'. unshared (w_disk w') \<and> digest_ok cr (w_disk w') p h1) w2"
    if "unshared (w_disk w2)" "digest_ok cr (w_disk w2) p h1" for w2
    by (rule gives_mono [OF gives_confined [OF confined_FetchTo [OF pq(2)] that(1)]])
      (use that(2) pq(3) in \<open>auto intro: digest_ok_same\<close>)
  have verify: "gives (VerifySHA256 cr q h2)
     (\<lambda>_ w'. unshared (w_disk w') \<and> digest_ok cr (w_disk w') p h1 \<and> digest_ok cr (w_disk w') q h2) w2"
    if "unshared (w_disk w2)" "digest_ok cr (w_disk w2) p h1" for w2
    by (rule gives_mono [OF gives_VerifySHA256 [OF that(1)]]) (use that(2) in auto)
  show "gives (seqE (or_remove [p] (VerifySHA256 cr p h1)) (\<lambda>_. seqE mid (\<lambda>_.
      seqE (or_remove [p] (FetchTo net u2 q)) (\<lambda>_. or_remove [p, q] (VerifySHA256 cr q h2)))))
    (\<lambda>_ w'. unshared (w_disk w') \<and> digest_ok cr (w_disk w') p h1 \<and> digest_ok cr (w_disk w') q h2) w1"
    by (rule gives_seqE [OF gives_or_remove [OF gives_VerifySHA256]], use w1 in blast, rule gives_seqE [OF mid],
        rule gives_seqE [OF gives_or_remove [OF fetch]]) (auto intro: gives_or_remove verify)
qed

lemma gives_stage_rootfs:
  assumes "unshared (w_disk w)"
  shows "gives (stage_rootfs en dirs m) (\<lambda>_ w'. unshared (w_disk w') \<and> rootfs_verified (e_crypto en) (w_disk w') dirs m) w"
  unfolding stage_rootfs_def Let_def rootfs_verified_def
proof (rule gives_seqE [OF gives_quietly [OF quietly_reading(5)]], rule gives_fetch_pair)
  show "plain_path (path_join (sd_rootfs dirs) ''rootfs-next.erofs'')" "plain_path (path_join (sd_rootfs dirs) ''rootfs-next.hash'')"
    by (auto intro: plain_join)
qed (use assms in \<open>auto intro!: gives_or_remove gives_ret\<close>)

lemma gives_stage_kernelcache:
  assumes "unshared (w_disk w)"
  shows "gives (stage_kernelcache en dirs m) (\<lambda>_ w'. unshared (w_disk w') \<and> kernelcache_verified (e_crypto en) (w_disk w') dirs m) w"
  unfolding stage_kernelcache_def Let_def kernelcache_verified_def
proof (rule gives_seqE [OF gives_quietly [OF quietly_reading(5)]],
    rule gives_seqE [OF gives_confined [OF confined_cancelLoaderCandidate]], use assms in simp, rule gives_fetch_pair)
  show "plain_path (path_join (sd_esp dirs) ''kernelcache-next.efi'')" "plain_path (path_join (sd_esp dirs) ''kernelcache-next.efi.sig'')"
    by (auto intro: plain_join)
qed (auto intro!: gives_or_remove gives_ret)

subsection \<open>The record under staging\<close>

text \<open>The texts a promotion of the running candidate may write, seen from the disk it starts on.\<close>

definition promo_texts :: "env \<Rightarrow> path \<Rightarrow> disk \<Rightarrow> string set" where
  "promo_texts en p d0 = {marshal (PromoteRunning (e_clock en) d) | d s.
     d \<in> wal_versions p d0 \<and> HasPending d \<and> 1 \<le> kc_stable_boots (d_kernelcache d) \<and>
     file_data d0 (e_cmdline en) = Some s \<and> identity_confirmed (parse_cmdline s) d}"

definition layout_ok :: "env \<Rightarrow> path \<Rightarrow> stage_dirs \<Rightarrow> bool" where
  "layout_ok en p dirs \<longleftrightarrow> record_path_ok p \<and>
     wal_files p \<inter> (active_names dirs \<union> next_names dirs \<union> {boot_state_path dirs} \<union> tmp_names dirs \<union>
                    loader_marks dirs \<union> firmware_area dirs \<union> temp_area) = {} \<and>
     next_names dirs \<inter> (firmware_area dirs \<union> temp_area) = {} \<and> e_cmdline en \<notin> temp_area"

text \<open>\<open>commits p S T\<close>: from an unshared disk, every disk of the run differs from it only in \<open>S\<close>,
  and the files of the record hold old texts or texts of \<open>T\<close>.\<close>

definition commits :: "path \<Rightarrow> path set \<Rightarrow> string set \<Rightarrow> 'a io \<Rightarrow> world \<Rightarrow> bool" where
  "commits p S T m w \<longleftrightarrow> wp m (\<lambda>r w'. unshared (w_disk w') \<and>
     evolves (\<lambda>h. same_outside S (w_disk w) h \<and> record_texts p T (w_disk w) h) w w') w"

lemma commits_confined:
  assumes "confined S m" and "unshared (w_disk w)" and "wal_files p \<inter> S = {}"
  shows "commits p S T m w"
  unfolding commits_def
  by (rule wp_mono [OF confinedD [OF assms(1,2)]])
    (use record_texts_same [OF _ assms(3)] in \<open>auto elim!: evolves_mono\<close>)

lemma commits_seqE:
  assumes m: "commits p S T m w" and g: "gives m R w"
    and k: "\<And>x w'. R x w' \<Longrightarrow> unshared (w_disk w') \<Longrightarrow> commits p S T (k x) w'"
  shows "commits p S T (seqE m k) w"
  unfolding commits_def
proof (rule wp_seqEI [OF wp_conj [OF m [unfolded commits_def] g [unfolded gives_def]]])
  let ?P = "\<lambda>d h. same_outside S d h \<and> record_texts p T d h"
  fix x w1
  assume a: "(unshared (w_disk w1) \<and> evolves (?P (w_disk w)) w w1) \<and> (\<forall>y. Inr x = Inr y \<longrightarrow> R y w1)"
  have step: "?P (w_disk w) h" if "?P (w_disk w1) h" for h
  proof -
    have "?P (w_disk w) (w_disk w1)" using a evolves_final by blast
    then show ?thesis using that same_outside_trans record_texts_trans by blast
  qed
  have c: "commits p S T (k x) w1" by (rule k) (use a in auto)
  show "wp (k x) (\<lambda>r w'. unshared (w_disk w') \<and> evolves (?P (w_disk w)) w w') w1"
  proof (rule wp_mono [OF c [unfolded commits_def]])
    fix r and w' :: world assume b: "unshared (w_disk w') \<and> evolves (?P (w_disk w1)) w1 w'"
    then have "evolves (?P (w_disk w)) w1 w'" by (elim conjE) (erule evolves_mono, erule step)
    then show "unshared (w_disk w') \<and> evolves (?P (w_disk w)) w w'" using a b evolves_trans by blast
  qed
qed auto

lemma commits_wrapE: "commits p S T m w \<Longrightarrow> commits p S T (wrapE s m) w"
  by (simp add: commits_def wp_wrapE sum.case_eq_if)

lemma commits_mono:
  assumes "commits p S T m w" and "S \<subseteq> S'"
  shows "commits p S' T m w"
  unfolding commits_def
  by (rule wp_mono [OF assms(1) [unfolded commits_def]])
    (use assms(2) in \<open>auto elim!: evolves_mono intro: same_outside_mono\<close>)

lemma commits_ret: "unshared (w_disk w) \<Longrightarrow> commits p S T (ret x) w"
  by (simp add: commits_def wp_ret)

lemma commits_seqE_any:
  assumes "commits p S T m w" and "\<And>x w'. unshared (w_disk w') \<Longrightarrow> commits p S T (k x) w'"
  shows "commits p S T (seqE m k) w"
  by (rule commits_seqE [OF assms(1), where R = "\<lambda>_ _. True"])
    (simp_all add: assms(2) gives_def wp_def split: prod.split)

lemma commits_Save:
  assumes "record_path_ok p" and "unshared (w_disk w)" and "wal_files p \<union> dot_names \<subseteq> S" and "marshal d \<in> T"
  shows "commits p S T (Save p d) w"
  unfolding commits_def
proof (rule wp_mono [OF wp_conj [OF wp_Save_texts confinedD [OF confined_Save assms(2)]]])
  show "wf_disk (w_disk w)" using unshared_wf [OF assms(2)] .
  show "plain_path p" "p \<notin> in_place" "path_suffix p BakSuffix \<notin> in_place" "plain_path p"
    using assms(1) by (auto simp: record_path_ok_def wal_files_def)
qed (use assms(3,4) in \<open>auto elim!: evolves_mono intro: same_outside_mono record_texts_mono\<close>)

text \<open>The files of a promotion are not those of the record.\<close>

definition promotion_apart :: "path \<Rightarrow> stage_dirs \<Rightarrow> bool" where
  "promotion_apart p dirs \<longleftrightarrow> record_path_ok p \<and> wal_files p \<inter> (active_names dirs \<union> next_names dirs \<union> {boot_state_path dirs}) = {}"

lemma layout_promotion: "layout_ok en p dirs \<Longrightarrow> promotion_apart p dirs"
  by (auto simp: layout_ok_def promotion_apart_def)

lemma commits_promotion:
  assumes l: "promotion_apart p dirs" and u: "unshared (w_disk w)" and t: "marshal d \<in> T"
  shows "commits p (promotion_files p dirs) T (commit_promotion en p dirs ms1 ms2 d) w"
proof -
  let ?S = "promotion_files p dirs"
  have rp: "record_path_ok p" and dis: "wal_files p \<inter> (active_names dirs \<union> dot_names) = {}"
    "wal_files p \<inter> ({boot_state_path dirs} \<union> dot_names) = {}" "wal_files p \<inter> next_names dirs = {}"
    using l plain_path_names [of p] by (auto simp: promotion_apart_def record_path_ok_def wal_files_def)
  have c: "commits p ?S T m w'" if "confined X m" "wal_files p \<inter> X = {}" "X \<subseteq> ?S" "unshared (w_disk w')" for X and m :: "unit io" and w'
    by (rule commits_mono [OF commits_confined [OF that(1,4,2)] that(3)])
  have s: "commits p ?S T sync_all w'" if "unshared (w_disk w')" for w'
    using that by (simp add: sync_all_def commits_ret)
  have ps: "commits p ?S T (wrap_opt ms1 (PromoteSlots sha dirs)) w'" if "unshared (w_disk w')" for sha w'
    by (rule c [OF confined_wrap_opt [OF confined_PromoteSlots] dis(1) _ that]) (auto simp: promotion_files_def)
  have bs: "commits p ?S T (if sd_esp dirs \<noteq> [] then wrap_opt ms2 (WriteBootState (boot_state_path dirs) b) else ret ()) w'"
    if "unshared (w_disk w')" for b w'
  proof -
    have "commits p ?S T (wrap_opt ms2 (WriteBootState (boot_state_path dirs) b)) w'"
      by (rule c [OF confined_wrap_opt [OF confined_WriteBootState] dis(2) _ that]) (auto simp: promotion_files_def)
    then show ?thesis by (auto intro: commits_ret that)
  qed
  have sv: "commits p ?S T (Save p d) w'" if "unshared (w_disk w')" for w'
    by (rule commits_Save [OF rp that _ t]) (auto simp: promotion_files_def)
  have cl: "commits p ?S T (CleanupNextSlots dirs) w'" if "unshared (w_disk w')" for w'
    by (rule c [OF confined_CleanupNextSlots dis(3) _ that]) (auto simp: promotion_files_def)
  show ?thesis
    unfolding commit_promotion_def
    by (intro commits_seqE_any ps s bs sv cl u)
qed

lemma commits_promoteRunningCandidate:
  assumes l: "layout_ok en p dirs" and u: "unshared (w_disk w)"
  shows "commits p (promotion_files p dirs) (promo_texts en p (w_disk w)) (promoteRunningCandidate en p dirs) w"
proof -
  let ?S = "promotion_files p dirs" and ?T = "promo_texts en p (w_disk w)" and ?d0 = "w_disk w"
  have ld: "gives (Load p) (\<lambda>d w'. w_disk w' = ?d0 \<and> d \<in> wal_versions p ?d0) w"
    by (rule gives_wp, rule wp_mono [OF wp_Load]) (auto simp: quiet_def)
  have id: "gives (bootedIdentity (e_cmdline en)) (\<lambda>bi w'. w_disk w' = ?d0 \<and>
      (bi = zero_identity \<or> (\<exists>s. file_data ?d0 (e_cmdline en) = Some s \<and> bi = parse_cmdline s))) w1"
    if "w_disk w1 = ?d0" for w1
    by (rule gives_wp)
      (use that in \<open>auto simp: bootedIdentity_def wp_simps sys_defs file_data_def split: option.splits\<close>)
  have q': "commits p ?S ?T m w'" if "quietly m" "unshared (w_disk w')" for m :: "boot_identity io" and w'
    by (rule commits_mono [OF commits_confined [OF confined_quietly [OF that(1)] that(2)], where S = "{}"]) auto
  have zero: "\<not> identity_confirmed zero_identity d" for d
    by (simp add: identity_confirmed_def zero_identity_def)
  have commit: "commits p ?S ?T (seqE (commit_promotion en p dirs None None (PromoteRunning (e_clock en) d)) (\<lambda>_. ret True)) w1"
    if "w_disk w1 = ?d0" "d \<in> wal_versions p ?d0" "HasPending d" "\<not> kc_stable_boots (d_kernelcache d) < 1"
      "file_data ?d0 (e_cmdline en) = Some s" "identity_confirmed (parse_cmdline s) d" for d s w1
    by (rule commits_seqE_any [OF commits_promotion [OF layout_promotion [OF l]]])
      (use that u in \<open>auto simp: promo_texts_def intro!: commits_ret\<close>)
  have body: "commits p ?S ?T (if \<not> HasPending d \<or> kc_stable_boots (d_kernelcache d) < 1 then ret False
       else seqE (bootedIdentity (e_cmdline en)) (\<lambda>bi.
         if \<not> identity_confirmed bi d then ret False
         else seqE (commit_promotion en p dirs None None (PromoteRunning (e_clock en) d)) (\<lambda>_. ret True))) w1"
    if d: "w_disk w1 = ?d0 \<and> d \<in> wal_versions p ?d0" and u1: "unshared (w_disk w1)" for d w1
  proof (cases "\<not> HasPending d \<or> kc_stable_boots (d_kernelcache d) < 1")
    case True
    then show ?thesis using u1 by (auto intro: commits_ret)
  next
    case False
    have d1: "w_disk w1 = ?d0" using d by simp
    have "commits p ?S ?T (seqE (bootedIdentity (e_cmdline en)) (\<lambda>bi.
         if \<not> identity_confirmed bi d then ret False
         else seqE (commit_promotion en p dirs None None (PromoteRunning (e_clock en) d)) (\<lambda>_. ret True))) w1"
      by (rule commits_seqE [OF q' [OF quietly_bootedIdentity u1] id [OF d1]])
        (use d False zero in \<open>auto intro!: commits_ret commit\<close>)
    with False show ?thesis by simp
  qed
  have ql: "commits p ?S ?T (Load p) w"
    by (rule commits_mono [OF commits_confined [OF confined_quietly u], where S = "{}"]) auto
  show ?thesis
    unfolding promoteRunningCandidate_def
    by (rule commits_seqE [OF ql ld]) (rule body)
qed

subsection \<open>Safety of staging\<close>

text \<open>
  \<open>staged_record\<close>: the text \<open>t\<close> is the record of an update staged properly. Its manifest is
  authentic, it is no downgrade of the version the loaded record called current, it was marked
  pending on a loaded record, and on the disk \<open>h\<close> all four candidate files have the hashes
  the manifest gives. The records loaded are those of a disk whose record files are the initial
  ones or those of a promotion.
\<close>

definition staged_record ::
  "env \<Rightarrow> path \<Rightarrow> stage_dirs \<Rightarrow> string \<Rightarrow> string \<Rightarrow> string \<Rightarrow> disk \<Rightarrow> deployment \<Rightarrow> disk \<Rightarrow> bool" where
  "staged_record en p dirs revocationURL rootPub expected d0 d1 h \<longleftrightarrow>
     (\<exists>vm staged d cur h0.
        authentic en revocationURL rootPub expected vm \<and> verified_on (e_crypto en) dirs (vm_manifest vm) h \<and>
        record_texts p (promo_texts en p d0) d0 h0 \<and> cur \<in> wal_versions p h0 \<and> d \<in> wal_versions p h0 \<and>
        \<not> isDowngrade (m_version (vm_manifest vm)) (rf_current (d_rootfs cur)) \<and>
        (\<exists>chips kern. staged = staged_bundles chips kern (vm_manifest vm)) \<and>
        mark_pending (vm_manifest vm) staged d = Inr d1)"

definition safe_record ::
  "env \<Rightarrow> path \<Rightarrow> stage_dirs \<Rightarrow> string \<Rightarrow> string \<Rightarrow> string \<Rightarrow> disk \<Rightarrow> disk \<Rightarrow> bool" where
  "safe_record en p dirs revocationURL rootPub expected d0 h \<longleftrightarrow>
     (\<forall>q \<in> wal_files p. file_data h q = file_data d0 q \<or> (\<exists>t \<in> promo_texts en p d0. file_data h q = Some t) \<or>
        (\<exists>d1. file_data h q = Some (marshal d1) \<and> staged_record en p dirs revocationURL rootPub expected d0 d1 h))"

lemma safe_record_texts:
  "record_texts p (promo_texts en p d0) d0 h \<Longrightarrow> safe_record en p dirs rv rp ex d0 h"
  by (auto simp: record_texts_def safe_record_def)

lemma staged_record_same:
  assumes "same_outside S h h'" and "next_names dirs \<inter> S = {}" and "staged_record en p dirs rv rp ex d0 d1 h"
  shows "staged_record en p dirs rv rp ex d0 d1 h'"
proof -
  obtain vm staged d cur h0 where v: "verified_on (e_crypto en) dirs (vm_manifest vm) h" and rest:
    "authentic en rv rp ex vm" "record_texts p (promo_texts en p d0) d0 h0" "cur \<in> wal_versions p h0" "d \<in> wal_versions p h0"
    "\<not> isDowngrade (m_version (vm_manifest vm)) (rf_current (d_rootfs cur))"
    "\<exists>chips kern. staged = staged_bundles chips kern (vm_manifest vm)" "mark_pending (vm_manifest vm) staged d = Inr d1"
    using assms(3) unfolding staged_record_def by blast
  have "verified_on (e_crypto en) dirs (vm_manifest vm) h'" using verified_on_same [OF assms(1,2) v] .
  with rest show ?thesis unfolding staged_record_def by blast
qed

lemma safe_record_same:
  assumes "same_outside S h h'" and "(wal_files p \<union> next_names dirs) \<inter> S = {}" and "safe_record en p dirs rv rp ex d0 h"
  shows "safe_record en p dirs rv rp ex d0 h'"
proof -
  have n: "next_names dirs \<inter> S = {}" using assms(2) by blast
  have f: "file_data h' q = file_data h q" if "q \<in> wal_files p" for q
  proof -
    have "q \<notin> S" using assms(2) that by blast
    then show ?thesis using same_outsideD [OF assms(1)] by (simp add: file_data_def)
  qed
  show ?thesis
    using assms(3) f staged_record_same [OF assms(1) n] unfolding safe_record_def by simp metis
qed

lemma saved_same:
  "same_outside S h h' \<Longrightarrow> wal_files p \<inter> S = {} \<Longrightarrow> saved p d h \<Longrightarrow> saved p d h'"
  by (auto simp: saved_def same_outside_def wal_files_def)

lemma promo_texts_same:
  assumes "same_outside S d h" and "wal_files p \<inter> S = {}" and "e_cmdline en \<notin> S"
  shows "promo_texts en p h = promo_texts en p d"
proof -
  have "file_data h (e_cmdline en) = file_data d (e_cmdline en)"
    using same_outsideD [OF assms(1,3)] by (simp add: file_data_def)
  then show ?thesis using wal_versions_same [OF assms(1,2)] by (simp add: promo_texts_def)
qed

text \<open>\<open>arms\<close>: every disk of the run is safe; a success ends in a saved, properly staged record.\<close>

definition arms ::
  "env \<Rightarrow> path \<Rightarrow> stage_dirs \<Rightarrow> string \<Rightarrow> string \<Rightarrow> string \<Rightarrow> disk \<Rightarrow> 'a io \<Rightarrow> world \<Rightarrow> bool" where
  "arms en p dirs rv rp ex d0 m w \<longleftrightarrow> wp m (\<lambda>r w'. unshared (w_disk w') \<and>
     evolves (safe_record en p dirs rv rp ex d0) w w' \<and>
     (\<forall>x. r = Inr x \<longrightarrow> (\<exists>d1. saved p d1 (w_disk w') \<and> staged_record en p dirs rv rp ex d0 d1 (w_disk w')))) w"

lemma arms_seqE:
  assumes m: "commits p S T m w" and T: "T \<subseteq> promo_texts en p d0" and g: "gives m R w"
    and pre: "record_texts p (promo_texts en p d0) d0 (w_disk w)"
    and k: "\<And>x w'. R x w' \<Longrightarrow> unshared (w_disk w') \<Longrightarrow> record_texts p (promo_texts en p d0) d0 (w_disk w') \<Longrightarrow>
      arms en p dirs rv rp ex d0 (k x) w'"
  shows "arms en p dirs rv rp ex d0 (seqE m k) w"
  unfolding arms_def
proof (rule wp_seqEI [OF wp_conj [OF m [unfolded commits_def] g [unfolded gives_def]]])
  let ?safe = "safe_record en p dirs rv rp ex d0" and ?T = "promo_texts en p d0"
  have tr: "record_texts p ?T d0 h" if "record_texts p T (w_disk w) h" for h
    using record_texts_trans [OF pre record_texts_mono [OF that T]] .
  have ev: "evolves ?safe w w1" if "evolves (\<lambda>h. same_outside S (w_disk w) h \<and> record_texts p T (w_disk w) h) w w1" for w1
    using that by (rule evolves_mono) (simp add: safe_record_texts tr)
  show "unshared (w_disk w1) \<and> evolves ?safe w w1 \<and> (\<forall>x. Inl e = Inr x \<longrightarrow>
      (\<exists>d1. saved p d1 (w_disk w1) \<and> staged_record en p dirs rv rp ex d0 d1 (w_disk w1)))"
    if "(unshared (w_disk w1) \<and> evolves (\<lambda>h. same_outside S (w_disk w) h \<and> record_texts p T (w_disk w) h) w w1) \<and>
      (\<forall>x. Inl e = Inr x \<longrightarrow> R x w1)" for e w1
    using that ev by blast
  fix x w1
  assume a: "(unshared (w_disk w1) \<and> evolves (\<lambda>h. same_outside S (w_disk w) h \<and> record_texts p T (w_disk w) h) w w1) \<and>
      (\<forall>y. Inr x = Inr y \<longrightarrow> R y w1)"
  have "record_texts p ?T d0 (w_disk w1)" using a evolves_final tr by blast
  with a have "arms en p dirs rv rp ex d0 (k x) w1" by (intro k) auto
  then show "wp (k x) (\<lambda>r w'. unshared (w_disk w') \<and> evolves ?safe w w' \<and> (\<forall>x. r = Inr x \<longrightarrow>
      (\<exists>d1. saved p d1 (w_disk w') \<and> staged_record en p dirs rv rp ex d0 d1 (w_disk w')))) w1"
    unfolding arms_def by (rule wp_mono) (use a ev evolves_trans in blast)
qed

text \<open>Once the record is armed, what follows must leave the record and the candidate files alone.\<close>

lemma wp_arms_tail:
  assumes c: "confined S c" and S: "(wal_files p \<union> next_names dirs) \<inter> S = {}" and u: "unshared (w_disk w)"
    and sf: "safe_record en p dirs rv rp ex d0 (w_disk w)"
  shows "wp c (\<lambda>r w'. unshared (w_disk w') \<and> evolves (safe_record en p dirs rv rp ex d0) w w' \<and>
     (\<forall>d1. saved p d1 (w_disk w) \<and> staged_record en p dirs rv rp ex d0 d1 (w_disk w) \<longrightarrow>
        saved p d1 (w_disk w') \<and> staged_record en p dirs rv rp ex d0 d1 (w_disk w'))) w"
proof (rule wp_mono [OF confinedD [OF c u]])
  fix r and w' :: world assume a: "unshared (w_disk w') \<and> evolves (same_outside S (w_disk w)) w w'"
  have n: "next_names dirs \<inter> S = {}" "wal_files p \<inter> S = {}" using S by blast+
  have "evolves (safe_record en p dirs rv rp ex d0) w w'"
    using a by (elim conjE evolves_mono) (rule safe_record_same [OF _ S sf])
  moreover have so: "same_outside S (w_disk w) (w_disk w')" using a evolves_final by blast
  ultimately show "unshared (w_disk w') \<and> evolves (safe_record en p dirs rv rp ex d0) w w' \<and>
     (\<forall>d1. saved p d1 (w_disk w) \<and> staged_record en p dirs rv rp ex d0 d1 (w_disk w) \<longrightarrow>
        saved p d1 (w_disk w') \<and> staged_record en p dirs rv rp ex d0 d1 (w_disk w'))"
    using a saved_same [OF so n(2)] staged_record_same [OF so n(1)] by blast
qed

lemma arms_tail:
  fixes m :: "'a io"
  assumes m: "arms en p dirs rv rp ex d0 m w" and S: "(wal_files p \<union> next_names dirs) \<inter> S = {}"
  shows "(\<And>x. confined S (k x)) \<Longrightarrow> arms en p dirs rv rp ex d0 (seqE m k) w"
    and "confined S c \<Longrightarrow> arms en p dirs rv rp ex d0 (deferred m c) w"
proof -
  let ?safe = "safe_record en p dirs rv rp ex d0"
  show "arms en p dirs rv rp ex d0 (seqE m k) w" if c: "\<And>x. confined S (k x)"
    unfolding arms_def
  proof (rule wp_seqEI [OF m [unfolded arms_def]])
    fix x :: 'a and w1
    assume a: "unshared (w_disk w1) \<and> evolves ?safe w w1 \<and> (\<forall>y. Inr x = Inr y \<longrightarrow>
      (\<exists>d1. saved p d1 (w_disk w1) \<and> staged_record en p dirs rv rp ex d0 d1 (w_disk w1)))"
    then have u: "unshared (w_disk w1)" and sf: "?safe (w_disk w1)" using evolves_final by blast+
    show "wp (k x) (\<lambda>r w'. unshared (w_disk w') \<and> evolves ?safe w w' \<and> (\<forall>y. r = Inr y \<longrightarrow>
      (\<exists>d1. saved p d1 (w_disk w') \<and> staged_record en p dirs rv rp ex d0 d1 (w_disk w')))) w1"
      by (rule wp_mono [OF wp_arms_tail [OF c S u sf]]) (use a evolves_trans in blast)
  qed auto
  show "arms en p dirs rv rp ex d0 (deferred m c) w" if c: "confined S c"
    unfolding arms_def
  proof (rule wp_deferredI [OF m [unfolded arms_def]])
    fix r :: "error + 'a" and w1 :: world
    assume a: "unshared (w_disk w1) \<and> evolves ?safe w w1 \<and> (\<forall>y. r = Inr y \<longrightarrow>
      (\<exists>d1. saved p d1 (w_disk w1) \<and> staged_record en p dirs rv rp ex d0 d1 (w_disk w1)))"
    then have u: "unshared (w_disk w1)" and sf: "?safe (w_disk w1)" using evolves_final by blast+
    show "wp c (\<lambda>_ w'. unshared (w_disk w') \<and> evolves ?safe w w' \<and> (\<forall>y. r = Inr y \<longrightarrow>
      (\<exists>d1. saved p d1 (w_disk w') \<and> staged_record en p dirs rv rp ex d0 d1 (w_disk w')))) w1"
      by (rule wp_mono [OF wp_arms_tail [OF c S u sf]]) (use a evolves_trans in blast)
  qed
qed

lemma next_not_dot: "next_names dirs \<inter> dot_names = {}"
  by (auto simp: next_names_def slot_list_def slot_groups_def slot_file_def dot_names_join_iff has_prefix_def)

lemma arms_Save:
  assumes l: "layout_ok en p dirs" and u: "unshared (w_disk w)"
    and pre: "record_texts p (promo_texts en p d0) d0 (w_disk w)"
    and st: "staged_record en p dirs rv rp ex d0 d1 (w_disk w)"
  shows "arms en p dirs rv rp ex d0 (Save p d1) w"
  unfolding arms_def
proof (rule wp_mono [OF wp_conj [OF wp_Save_texts confinedD [OF confined_Save u]]])
  let ?P = "\<lambda>h. wf_disk h \<and> same_outside (wal_files p \<union> dot_names) (w_disk w) h \<and> record_texts p {marshal d1} (w_disk w) h"
  have n: "next_names dirs \<inter> (wal_files p \<union> dot_names) = {}"
    using l next_not_dot [of dirs] by (auto simp: layout_ok_def)
  have safe: "safe_record en p dirs rv rp ex d0 h" if "?P h" for h
  proof -
    have "staged_record en p dirs rv rp ex d0 d1 h" using that st staged_record_same [OF _ n] by blast
    then show ?thesis using that pre unfolding safe_record_def record_texts_def by (metis singletonD)
  qed
  fix r and w' :: world
  assume a: "(evolves ?P w w' \<and> (r = Inr () \<longrightarrow> saved p d1 (w_disk w'))) \<and>
    unshared (w_disk w') \<and> evolves (same_outside (wal_files p \<union> dot_names) (w_disk w)) w w'"
  have ev: "evolves ?P w w'" using a by blast
  have "evolves (safe_record en p dirs rv rp ex d0) w w'" by (rule evolves_mono [OF ev]) (rule safe)
  moreover have "staged_record en p dirs rv rp ex d0 d1 (w_disk w')"
    using a st staged_record_same [OF _ n] evolves_final by blast
  ultimately show "unshared (w_disk w') \<and> evolves (safe_record en p dirs rv rp ex d0) w w' \<and>
     (\<forall>x. r = Inr x \<longrightarrow> (\<exists>d1. saved p d1 (w_disk w') \<and> staged_record en p dirs rv rp ex d0 d1 (w_disk w')))"
    using a by auto
qed (use l u in \<open>auto simp: layout_ok_def record_path_ok_def wal_files_def dest: unshared_wf\<close>)

subsection \<open>The phases together\<close>

lemma gives_stage_firmware:
  "gives (stage_firmware en dirs vm) (\<lambda>staged _.
     (\<exists>chips kern. staged = staged_bundles chips kern (vm_manifest vm)) \<and> (sd_firmware dirs = [] \<longrightarrow> staged = [])) w"
  unfolding stage_firmware_def Let_def
proof (rule gives_seqE [where R = "\<lambda>_ _. \<not> (0 < length (FirmwareBundleList (vm_manifest vm)) \<and> sd_firmware dirs = [])"])
  show "gives (if 0 < length (FirmwareBundleList (vm_manifest vm)) \<and> sd_firmware dirs = []
      then throw (Errorf ''stage: manifest has a firmware track but no firmware dir configured'') else ret ())
     (\<lambda>_ _. \<not> (0 < length (FirmwareBundleList (vm_manifest vm)) \<and> sd_firmware dirs = [])) w"
    by (simp add: gives_ret)
qed (rule gives_seqE_any, rule gives_seqE_any, rule gives_seqE_any, rule gives_ret, auto simp: staged_bundles_def)

definition no_record :: "path \<Rightarrow> stage_dirs \<Rightarrow> path set" where
  "no_record p dirs = {boot_state_path dirs} \<union> dot_names \<union> firmware_area dirs"

lemma layout_okD:
  assumes "layout_ok en p dirs"
  shows "record_path_ok p" and "(wal_files p \<union> next_names dirs) \<inter> no_record p dirs = {}"
    and "(wal_files p \<union> next_names dirs) \<inter> temp_area = {}" and "e_cmdline en \<notin> temp_area"
    and "wal_files p \<inter> (next_names dirs \<union> tmp_names dirs) = {}" and "wal_files p \<inter> loader_marks dirs = {}"
    and "wal_files p \<inter> firmware_area dirs = {}" and "next_names dirs \<inter> firmware_area dirs = {}"
  using assms next_not_dot [of dirs] plain_path_names [of p]
  by (auto simp: layout_ok_def no_record_def record_path_ok_def wal_files_def)

lemma quietly_commit_dirs [simp]: "quietly (commit_dirs ds)"
  by (auto simp: commit_dirs_def intro!: quietly_intros quietly_wrapE split: sum.splits)

lemma confined_commit_tail:
  assumes "sd_firmware dirs = [] \<longrightarrow> staged = []"
  shows "confined (no_record p dirs) (seqE (commit_dirs ds) (\<lambda>_.
     seqE (wrapE s (SyncBootState p dirs)) (\<lambda>_.
     seqE (for_each staged (\<lambda>fw. wrapE t (ActivateFirmwareSlot (path_join (sd_firmware dirs) (bd_name fw))))) (\<lambda>_.
     ret (staged_message m staged)))))"
proof -
  have b: "confined (no_record p dirs) (SyncBootState p dirs)"
    unfolding SyncBootState_def
    by (rule confined_seqE, rule confined_quietly, simp, rule confined_mono [OF confined_writeDeploymentBootState])
      (auto simp: no_record_def)
  have f: "confined (no_record p dirs) (ActivateFirmwareSlot (path_join (sd_firmware dirs) n))" if "sd_firmware dirs \<noteq> []" for n
    by (rule confined_mono [OF confined_firmware_slot(1)]) (use below_firmware [OF that] in \<open>auto simp: no_record_def\<close>)
  show ?thesis
  proof (cases "sd_firmware dirs = []")
    case True
    then show ?thesis using assms by (auto intro!: confined_seqE confined_wrapE b confined_quietly [OF quietly_commit_dirs])
  next
    case False
    then show ?thesis by (auto intro!: confined_seqE confined_wrapE confined_for_each f b confined_quietly [OF quietly_commit_dirs])
  qed
qed

lemma arms_stage_commit:
  assumes l: "layout_ok en p dirs" and u: "unshared (w_disk w)"
    and pre: "record_texts p (promo_texts en p d0) d0 (w_disk w)"
    and v: "verified_on (e_crypto en) dirs (vm_manifest vm) (w_disk w)" "authentic en rv rp ex vm"
    and c: "cur \<in> wal_versions p (w_disk w)" "\<not> isDowngrade (m_version (vm_manifest vm)) (rf_current (d_rootfs cur))"
    and s: "\<exists>chips kern. staged = staged_bundles chips kern (vm_manifest vm)" "sd_firmware dirs = [] \<longrightarrow> staged = []"
  shows "arms en p dirs rv rp ex d0 (stage_commit p dirs (vm_manifest vm) staged) w"
  unfolding stage_commit_def
proof (rule arms_seqE [OF commits_confined [OF confined_quietly u] _ _ pre])
  show "quietly (Load p)" "wal_files p \<inter> {} = {}" "{} \<subseteq> promo_texts en p d0" by simp_all
  show "gives (Load p) (\<lambda>d w'. w_disk w' = w_disk w \<and> d \<in> wal_versions p (w_disk w)) w"
    by (rule gives_wp, rule wp_mono [OF wp_Load]) (auto simp: quiet_def)
  fix d and w1 :: world
  assume d: "w_disk w1 = w_disk w \<and> d \<in> wal_versions p (w_disk w)" and u1: "unshared (w_disk w1)"
    and pre1: "record_texts p (promo_texts en p d0) d0 (w_disk w1)"
  show "arms en p dirs rv rp ex d0 (seqE (lift_err (mark_pending (vm_manifest vm) staged d)) (\<lambda>d1.
     seqE (Save p d1) (\<lambda>_.
     seqE (commit_dirs [sd_rootfs dirs, sd_firmware dirs, path_dir p, sd_esp dirs]) (\<lambda>_.
     seqE (wrapE ''staged but arming boot-state failed'' (SyncBootState p dirs)) (\<lambda>_.
     seqE (for_each staged (\<lambda>fw. wrapE ''staged but activating firmware bundle failed''
             (ActivateFirmwareSlot (path_join (sd_firmware dirs) (bd_name fw))))) (\<lambda>_.
     ret (staged_message (vm_manifest vm) staged))))))) w1"
  proof (rule arms_seqE [OF commits_confined [where S = "{}", OF _ u1] _ _ pre1])
    show "confined {} (lift_err (mark_pending (vm_manifest vm) staged d))" "wal_files p \<inter> {} = {}" "{} \<subseteq> promo_texts en p d0"
      by simp_all
    show "gives (lift_err (mark_pending (vm_manifest vm) staged d))
        (\<lambda>d1 w'. w_disk w' = w_disk w \<and> mark_pending (vm_manifest vm) staged d = Inr d1) w1"
      using d by (intro gives_lift_err) auto
    fix d1 and w2 :: world
    assume m: "w_disk w2 = w_disk w \<and> mark_pending (vm_manifest vm) staged d = Inr d1" and u2: "unshared (w_disk w2)"
      and pre2: "record_texts p (promo_texts en p d0) d0 (w_disk w2)"
    have st: "staged_record en p dirs rv rp ex d0 d1 (w_disk w2)"
      using v c d m pre s(1) unfolding staged_record_def
      by (intro exI [of _ vm] exI [of _ staged] exI [of _ d] exI [of _ cur] exI [of _ "w_disk w"]) auto
    show "arms en p dirs rv rp ex d0 (seqE (Save p d1) (\<lambda>_.
     seqE (commit_dirs [sd_rootfs dirs, sd_firmware dirs, path_dir p, sd_esp dirs]) (\<lambda>_.
     seqE (wrapE ''staged but arming boot-state failed'' (SyncBootState p dirs)) (\<lambda>_.
     seqE (for_each staged (\<lambda>fw. wrapE ''staged but activating firmware bundle failed''
             (ActivateFirmwareSlot (path_join (sd_firmware dirs) (bd_name fw))))) (\<lambda>_.
     ret (staged_message (vm_manifest vm) staged)))))) w2"
      by (rule arms_tail(1) [OF arms_Save [OF l u2 pre2 st] layout_okD(2) [OF l] confined_commit_tail [OF s(2)]])
  qed
qed

lemma commits_stage_checks:
  assumes l: "layout_ok en p dirs" and u: "unshared (w_disk w)"
  shows "commits p (promotion_files p dirs) (promo_texts en p (w_disk w)) (stage_checks en p dirs m) w"
proof -
  let ?S = "promotion_files p dirs" and ?T = "promo_texts en p (w_disk w)"
  have q: "commits p ?S ?T c w'" if "quietly c" "unshared (w_disk w')" for c :: "unit io" and w'
    by (rule commits_mono [OF commits_confined [OF confined_quietly [OF that(1)] that(2)], where S = "{}"]) auto
  have q2: "commits p ?S ?T c w'" if "quietly c" "unshared (w_disk w')" for c :: "deployment io" and w'
    by (rule commits_mono [OF commits_confined [OF confined_quietly [OF that(1)] that(2)], where S = "{}"]) auto
  have k: "quietly (if isDowngrade (m_version m) (rf_current (d_rootfs cur))
       then throw (Errorf ''stage: below installed -- refused (anti-rollback)'')
       else seqE (DetectGPUChips (e_devs en)) (\<lambda>chips. wrapE ''stage'' (CoupledKernelCheck m chips)))" for cur
    by (auto intro!: quietly_intros quietly_wrapE)
  show ?thesis
    unfolding stage_checks_def
    by (intro commits_seqE_any commits_wrapE commits_promoteRunningCandidate [OF l u] q2 q [OF k]) auto
qed

lemma gives_stage_checks:
  "gives (stage_checks en p dirs m)
     (\<lambda>_ w'. \<exists>cur \<in> wal_versions p (w_disk w'). \<not> isDowngrade (m_version m) (rf_current (d_rootfs cur))) w"
  unfolding stage_checks_def
proof (rule gives_seqE_any)
  fix w1 :: world
  have ld: "gives (Load p) (\<lambda>d w'. w_disk w' = w_disk w1 \<and> d \<in> wal_versions p (w_disk w1)) w1"
    by (rule gives_wp, rule wp_mono [OF wp_Load]) (auto simp: quiet_def)
  have q: "quietly (seqE (DetectGPUChips (e_devs en)) (\<lambda>chips. wrapE ''stage'' (CoupledKernelCheck m chips)))"
    by (auto intro!: quietly_intros quietly_wrapE)
  show "gives (seqE (Load p) (\<lambda>cur.
       if isDowngrade (m_version m) (rf_current (d_rootfs cur))
       then throw (Errorf ''stage: below installed -- refused (anti-rollback)'')
       else seqE (DetectGPUChips (e_devs en)) (\<lambda>chips. wrapE ''stage'' (CoupledKernelCheck m chips))))
     (\<lambda>_ w'. \<exists>cur \<in> wal_versions p (w_disk w'). \<not> isDowngrade (m_version m) (rf_current (d_rootfs cur))) w1"
  proof (rule gives_seqE [OF ld])
    fix cur and w2 :: world assume a: "w_disk w2 = w_disk w1 \<and> cur \<in> wal_versions p (w_disk w1)"
    show "gives (if isDowngrade (m_version m) (rf_current (d_rootfs cur))
       then throw (Errorf ''stage: below installed -- refused (anti-rollback)'')
       else seqE (DetectGPUChips (e_devs en)) (\<lambda>chips. wrapE ''stage'' (CoupledKernelCheck m chips)))
     (\<lambda>_ w'. \<exists>cur \<in> wal_versions p (w_disk w'). \<not> isDowngrade (m_version m) (rf_current (d_rootfs cur))) w2"
    proof (cases "isDowngrade (m_version m) (rf_current (d_rootfs cur))")
      case False
      have "gives (seqE (DetectGPUChips (e_devs en)) (\<lambda>chips. wrapE ''stage'' (CoupledKernelCheck m chips)))
         (\<lambda>_ w'. \<exists>cur \<in> wal_versions p (w_disk w'). \<not> isDowngrade (m_version m) (rf_current (d_rootfs cur))) w2"
        by (rule gives_mono [OF gives_quietly [OF q]]) (use a False in auto)
      with False show ?thesis by simp
    qed simp
  qed
qed

lemma inside_temp: "inside [''tmp'', x] \<subseteq> temp_area"
  by (auto simp: inside_def temp_area_def below_def path_join_def)

lemma arms_stage_artifacts:
  assumes l: "layout_ok en p dirs" and u: "unshared (w_disk w)"
    and pre: "record_texts p (promo_texts en p d0) d0 (w_disk w)"
    and a: "authentic en rv rp ex vm"
    and c: "cur \<in> wal_versions p (w_disk w)" "\<not> isDowngrade (m_version (vm_manifest vm)) (rf_current (d_rootfs cur))"
  shows "arms en p dirs rv rp ex d0 (seqE (stage_rootfs en dirs (vm_manifest vm)) (\<lambda>_.
     seqE (stage_kernelcache en dirs (vm_manifest vm)) (\<lambda>_.
     seqE (stage_firmware en dirs vm) (\<lambda>staged. stage_commit p dirs (vm_manifest vm) staged)))) w"
proof (rule arms_seqE [OF commits_confined [where T = "{}", OF confined_stage_artifacts(1) u] _
      gives_conj [OF gives_stage_rootfs [OF u] gives_confined [OF confined_stage_artifacts(1) u]] pre])
  note lo = layout_okD [OF l]
  show "wal_files p \<inter> (next_names dirs \<union> tmp_names dirs) = {}" by (rule lo(5))
  let ?v = "\<lambda>h. cur \<in> wal_versions p h"
  fix w1 :: world
  assume 1: "(unshared (w_disk w1) \<and> rootfs_verified (e_crypto en) (w_disk w1) dirs (vm_manifest vm)) \<and>
      unshared (w_disk w1) \<and> same_outside (next_names dirs \<union> tmp_names dirs) (w_disk w) (w_disk w1)"
    and p1: "record_texts p (promo_texts en p d0) d0 (w_disk w1)"
  then have u1: "unshared (w_disk w1)" and v1: "?v (w_disk w1)" and r1: "rootfs_verified (e_crypto en) (w_disk w1) dirs (vm_manifest vm)"
    using wal_versions_same lo(5) c(1) by blast+
  let ?K = "kernelcache_files dirs \<union> loader_marks dirs"
  have dk: "wal_files p \<inter> ?K = {}" using lo(5,6) kernelcache_files_sub [of dirs] by blast
  show "arms en p dirs rv rp ex d0 (seqE (stage_kernelcache en dirs (vm_manifest vm)) (\<lambda>_.
     seqE (stage_firmware en dirs vm) (\<lambda>staged. stage_commit p dirs (vm_manifest vm) staged))) w1"
  proof (rule arms_seqE [OF commits_confined [where T = "{}", OF confined_stage_artifacts(2) u1 dk] _
      gives_conj [OF gives_stage_kernelcache [OF u1] gives_confined [OF confined_stage_artifacts(2) u1]] p1])
    fix w2 :: world
    assume 2: "(unshared (w_disk w2) \<and> kernelcache_verified (e_crypto en) (w_disk w2) dirs (vm_manifest vm)) \<and>
        unshared (w_disk w2) \<and> same_outside ?K (w_disk w1) (w_disk w2)"
      and p2: "record_texts p (promo_texts en p d0) d0 (w_disk w2)"
    then have u2: "unshared (w_disk w2)" and v2: "?v (w_disk w2)" and so2: "same_outside ?K (w_disk w1) (w_disk w2)"
      using wal_versions_same dk v1 by blast+
    have "path_join (sd_rootfs dirs) n \<notin> ?K" if "n \<in> {''rootfs-next.erofs'', ''rootfs-next.hash''}" for n
      using that by (auto simp: kernelcache_files_def loader_marks_def loaderCandidateFile_def loaderRanFile_def)
    then have "rootfs_verified (e_crypto en) (w_disk w2) dirs (vm_manifest vm)"
      using r1 digest_ok_same [OF so2] by (simp add: rootfs_verified_def)
    with 2 have vo2: "verified_on (e_crypto en) dirs (vm_manifest vm) (w_disk w2)" by (simp add: verified_on_def)
    show "arms en p dirs rv rp ex d0 (seqE (stage_firmware en dirs vm) (\<lambda>staged. stage_commit p dirs (vm_manifest vm) staged)) w2"
    proof (rule arms_seqE [OF commits_confined [where T = "{}", OF confined_stage_firmware u2 lo(7)] _
        gives_conj [OF gives_stage_firmware gives_confined [OF confined_stage_firmware u2]] p2])
      fix staged and w3 :: world
      assume 3: "((\<exists>chips kern. staged = staged_bundles chips kern (vm_manifest vm)) \<and> (sd_firmware dirs = [] \<longrightarrow> staged = [])) \<and>
          unshared (w_disk w3) \<and> same_outside (firmware_area dirs) (w_disk w2) (w_disk w3)"
        and u3: "unshared (w_disk w3)" and p3: "record_texts p (promo_texts en p d0) d0 (w_disk w3)"
      have "?v (w_disk w3)" using 3 wal_versions_same lo(7) v2 by blast
      moreover have "verified_on (e_crypto en) dirs (vm_manifest vm) (w_disk w3)"
        using 3 verified_on_same lo(8) vo2 by blast
      ultimately show "arms en p dirs rv rp ex d0 (stage_commit p dirs (vm_manifest vm) staged) w3"
        using arms_stage_commit [OF l u3 p3] a c(2) 3 by blast
    qed simp
  qed simp
qed simp

lemma arms_stage_in:
  assumes l: "layout_ok en p dirs" and u: "unshared (w_disk w)" and so: "same_outside temp_area d0 (w_disk w)"
  shows "arms en p dirs rv rp ex d0 (stage_in en p mURL rv rp dirs ex [''tmp'', x]) w"
  unfolding stage_in_def Let_def
proof -
  note lo = layout_okD [OF l]
  have wt: "wal_files p \<inter> temp_area = {}" using lo(3) by blast
  have cf: "confined temp_area (fetchVerifiedManifest en [''tmp'', x] mURL rv rp ex)"
    by (rule confined_mono [OF confined_fetchVerifiedManifest inside_temp])
  show "arms en p dirs rv rp ex d0 (seqE (fetchVerifiedManifest en [''tmp'', x] mURL rv rp ex) (\<lambda>vm.
     seqE (stage_checks en p dirs (vm_manifest vm)) (\<lambda>_.
     seqE (stage_rootfs en dirs (vm_manifest vm)) (\<lambda>_.
     seqE (stage_kernelcache en dirs (vm_manifest vm)) (\<lambda>_.
     seqE (stage_firmware en dirs vm) (\<lambda>staged. stage_commit p dirs (vm_manifest vm) staged)))))) w"
  proof (rule arms_seqE [OF commits_confined [where T = "{}", OF cf u wt] _
      gives_conj [OF gives_fetchVerifiedManifest gives_confined [OF cf u]] record_texts_same [OF so wt]])
    fix vm and w1 :: world
    assume 1: "authentic en rv rp ex vm \<and> unshared (w_disk w1) \<and> same_outside temp_area (w_disk w) (w_disk w1)"
      and p1: "record_texts p (promo_texts en p d0) d0 (w_disk w1)"
    then have u1: "unshared (w_disk w1)" and so1: "same_outside temp_area d0 (w_disk w1)"
      using same_outside_trans so by blast+
    have T: "promo_texts en p (w_disk w1) \<subseteq> promo_texts en p d0"
      using promo_texts_same [OF so1 wt lo(4)] by simp
    show "arms en p dirs rv rp ex d0 (seqE (stage_checks en p dirs (vm_manifest vm)) (\<lambda>_.
     seqE (stage_rootfs en dirs (vm_manifest vm)) (\<lambda>_.
     seqE (stage_kernelcache en dirs (vm_manifest vm)) (\<lambda>_.
     seqE (stage_firmware en dirs vm) (\<lambda>staged. stage_commit p dirs (vm_manifest vm) staged))))) w1"
      by (rule arms_seqE [OF commits_stage_checks [OF l u1] T gives_stage_checks p1])
        (use arms_stage_artifacts [OF l] 1 in blast)
  qed simp
qed

lemma arms_stage:
  assumes l: "layout_ok en p dirs" and u: "unshared (w_disk w)"
  shows "arms en p dirs rv rp ex (w_disk w) (stage en p mURL rv rp dirs ex) w"
  unfolding stage_def
proof -
  note lo = layout_okD [OF l]
  have wt: "wal_files p \<inter> temp_area = {}" using lo(3) by blast
  have g: "gives (mkdir_temp s) (\<lambda>work _. \<exists>x. work = [''tmp'', x]) w" for s
    by (auto simp: gives_def mkdir_temp_def wp_simps split: option.splits list.splits)
  show "arms en p dirs rv rp ex (w_disk w) (seqE (mkdir_temp ''atomd-stage-'') (\<lambda>work.
     deferred (stage_in en p mURL rv rp dirs ex work) (remove_all work))) w"
  proof (rule arms_seqE [OF commits_confined [where T = "{}", OF confined_mkdir_temp u wt] _
      gives_conj [OF g gives_confined [OF confined_mkdir_temp u]] record_texts_refl])
    fix work and w1 :: world
    assume 1: "(\<exists>x. work = [''tmp'', x]) \<and> unshared (w_disk w1) \<and> same_outside temp_area (w_disk w) (w_disk w1)"
    then obtain x where x: "work = [''tmp'', x]" by blast
    have "confined temp_area (remove_all work)"
      by (rule confined_mono [OF confined_clear]) (auto simp: x temp_area_def intro: below_two)
    then show "arms en p dirs rv rp ex (w_disk w) (deferred (stage_in en p mURL rv rp dirs ex work) (remove_all work)) w1"
      unfolding x using 1 arms_tail(2) [OF arms_stage_in [OF l] lo(3)] by blast
  qed simp
qed

subsection \<open>Numbered versions\<close>

lemma foldl_wrap64:
  assumes "digits_val ds < 2 ^ 63"
  shows "foldl (\<lambda>n c. wrap64 (n * 10 + int (digit_val c))) 0 ds = int (digits_val ds)"
  using assms
proof (induction ds rule: rev_induct)
  case (snoc c ds)
  then have "digits_val ds < 2 ^ 63" by simp
  with snoc.IH have "foldl (\<lambda>n c. wrap64 (n * 10 + int (digit_val c))) 0 (ds @ [c])
      = wrap64 (int (digits_val ds) * 10 + int (digit_val c))" by simp
  also have "\<dots> = int (digits_val (ds @ [c]))"
    using snoc.prems by (subst wrap64_small) simp_all
  finally show ?case .
qed simp

lemma versionNum_numbered:
  assumes "p = [] \<or> \<not> is_digit (last p)" and "n < 2 ^ 63"
  shows "versionNum (p @ nat_str n) = (int n, True)"
proof -
  have "trailing_digits (p @ nat_str n) = nat_str n"
    using nat_str_digits [of n] assms(1) by (intro trailing_digits_append) auto
  then show ?thesis
    using foldl_wrap64 [of "nat_str n"] nat_str_digits [of n] assms(2) by (simp add: versionNum_def)
qed

text \<open>The anti-rollback check of staging compares the numbers at the ends of the versions:
  whatever stands before them, an update is refused exactly when its number is below the
  installed one. Numbers must fit in 63 bits (a longer run of digits wraps), and a version
  that ends in no digit never counts as a downgrade.\<close>

theorem isDowngrade_numbered:
  assumes "p = [] \<or> \<not> is_digit (last p)" and "q = [] \<or> \<not> is_digit (last q)"
    and "n < 2 ^ 63" and "c < 2 ^ 63"
  shows "(isDowngrade (p @ nat_str n) (q @ nat_str c) \<longleftrightarrow> n < c) \<and> \<not> isDowngrade p v \<and> \<not> isDowngrade v p"
proof -
  have "trailing_digits p = []" using assms(1) by (cases p rule: rev_cases) (auto simp: trailing_digits_def)
  then have "versionNum p = (0, False)" by (simp add: versionNum_def)
  then show ?thesis using assms by (auto simp: isDowngrade_def versionNum_numbered split: prod.splits)
qed

lemma isDowngrade_numbered_witness:
  "isDowngrade (''v'' @ nat_str 9) (''v'' @ nat_str 10) \<and> \<not> isDowngrade (''v'' @ nat_str 10) (''v'' @ nat_str 9)
     \<and> \<not> isDowngrade ''v'' ''v42''"
  using isDowngrade_numbered [of "''v''" "''v''" 9 10 "''v42''"] isDowngrade_numbered [of "''v''" "''v''" 10 9]
  by (simp add: is_digit_def)

subsection \<open>The property\<close>

text \<open>C1. What staging arms was verified. On every disk it passes through, whatever fails, each file of
  the record holds what it held before, a promotion of the candidate that is running now, or an
  update for which all of this is so: its manifest is authentic (root-signed unexpired certificate,
  a revocation list that clears it if one is asked for, the certificate's key signed the manifest,
  whose digest is the expected one if there is one), it is no downgrade of the loaded record, its
  bundles are those the manifest gives for a set of chips and a kernel, and four files, the rootfs,
  its hash tree, the kernel cache and its signature, lie in the candidate slots with the hashes of
  the manifest. The files of firmware bundles are not among them. When it reports success, such a
  record is on the disk.\<close>

theorem Stage_never_arms_unverified:
  assumes "layout_ok en p dirs" and "unshared (w_disk w)"
    and "stage en p manifestURL revocationURL rootPub dirs expected w = (r, w')"
  shows "evolves (safe_record en p dirs revocationURL rootPub expected (w_disk w)) w w' \<and>
    (\<forall>msg. r = Inr msg \<longrightarrow> (\<exists>d1. saved p d1 (w_disk w') \<and>
       staged_record en p dirs revocationURL rootPub expected (w_disk w) d1 (w_disk w')))"
  using wpD [OF arms_stage [OF assms(1,2), where rv = revocationURL and rp = rootPub and ex = expected, unfolded arms_def] assms(3)]
  by blast

definition zeros_hash :: json where
  "zeros_hash = JStr (hex_encode (replicate 32 (CHR ''h'')))"

definition stage_manifest :: string where
  "stage_manifest = json_indent 0 (JObj [(''version'', JStr ''v43''), (''rootfs_url'', JStr ''https://h/r''),
     (''rootfs_hash'', zeros_hash), (''rootfs_hashtree_url'', JStr ''https://h/t''), (''rootfs_hashtree_hash'', zeros_hash),
     (''kernelcache_url'', JStr ''https://h/k''), (''kernelcache_hash'', zeros_hash),
     (''kernelcache_sig_url'', JStr ''https://h/s''), (''kernelcache_sig_hash'', zeros_hash)])"

definition stage_net :: network where
  "stage_net seen url = Inr \<lparr>rp_status = 200, rp_location = None,
     rp_body = (if url = ''https://h/manifest.json'' then stage_manifest
       else if url = ''https://h/signing-cert.json'' then sample_cert
       else sample_sig), rp_broken = False\<rparr>"

definition stage_env :: env where
  "stage_env = sample_env\<lparr>e_net := stage_net\<rparr>"

definition stage_world :: world where
  "stage_world = (world_of (put_file sample_path (marshal (New (\<lambda>_. ''2026-01-01T00:00:00Z'') ''dev'' ''v42'')) empty_disk))
     \<lparr>w_entropy := replicate 12 ''0''\<rparr>"

lemma stage_layout_ok: "layout_ok stage_env sample_path sample_dirs"
proof -
  have "record_path_ok sample_path"
    using sample_path_ok by (simp add: record_path_ok_def sample_path_def wal_files_def path_suffix_def BakSuffix_def in_place_def
        has_prefix_def has_suffix_def)
  then show ?thesis
    by (simp add: layout_ok_def sample_dirs_def wal_files_def sample_path_def BakSuffix_def active_names_def next_names_def
        slot_list_def slot_groups_def slot_names_def slot_file_def boot_state_path_def path_suffix_def path_join_def tmp_names_def
        loader_marks_def firmware_area_def temp_area_def below_def loaderCandidateFile_def loaderRanFile_def stage_env_def sample_env_def)
qed

lemma unshared_put_file [simp]: "unshared d \<Longrightarrow> unshared (put_file p s d)"
  using names_fresh [of d] by (auto simp: unshared_def private_name_def put_file_def wf_disk_def less_Suc_eq)

lemma unshared_empty [simp]: "unshared empty_disk"
  by (simp add: unshared_def private_name_def empty_disk_def wf_disk_def)

lemma stage_world_unshared: "unshared (w_disk stage_world)"
  by (simp add: stage_world_def world_of_def)

lemma Stage_never_arms_unverified_witness:
  "evolves (safe_record stage_env sample_path sample_dirs [] sample_key [] (w_disk stage_world)) stage_world
     (snd (stage stage_env sample_path ''https://h/manifest.json'' [] sample_key sample_dirs [] stage_world))"
  using Stage_never_arms_unverified [OF stage_layout_ok stage_world_unshared prod.collapse [symmetric]] by blast

end
