(* ===== verification/RecoveryImage.thy ===== *)
theory RecoveryImage
  imports StageSafe
begin

section \<open>The recovery image\<close>

text \<open>
  internal/otad/recovery.go: the independent recovery kernel on the system partition, replaced
  through a previous copy, and the repair of a replacement that a crash interrupted.
\<close>

subsection \<open>Operations\<close>

definition recoveryFile :: string where
  "recoveryFile = ''kernelcache-recovery.efi''"

definition recoveryNextFile :: string where
  "recoveryNextFile = ''kernelcache-recovery-next.efi''"

definition recoveryPrevFile :: string where
  "recoveryPrevFile = ''kernelcache-recovery-prev.efi''"

definition sig_of :: "path \<Rightarrow> path" where
  "sig_of p = path_suffix p ''.sig''"

definition recovery_cur :: "stage_dirs \<Rightarrow> path" where
  "recovery_cur dirs = path_join (sd_esp dirs) recoveryFile"

definition recovery_prev :: "stage_dirs \<Rightarrow> path" where
  "recovery_prev dirs = path_join (sd_esp dirs) recoveryPrevFile"

definition recovery_next :: "stage_dirs \<Rightarrow> path" where
  "recovery_next dirs = path_join (sd_esp dirs) recoveryNextFile"

definition fileSHA256 :: "crypto \<Rightarrow> path \<Rightarrow> string io" where
  "fileSHA256 cr p = seqE (open_read p) (\<lambda>f. seqE (read_all f) (\<lambda>s. ret (hex_encode (sha256 cr s))))"

definition RecoveryIsCurrent :: "crypto \<Rightarrow> stage_dirs \<Rightarrow> manifest \<Rightarrow> bool io" where
  "RecoveryIsCurrent cr dirs m =
     (if m_recovery_hash m = [] then ret True
      else trying (fileSHA256 cr (recovery_cur dirs)) (\<lambda>r. ret (case r of Inl e \<Rightarrow> False | Inr got \<Rightarrow> got = m_recovery_hash m)))"

text \<open>Whether \<open>os.Stat\<close> finds a file.\<close>

definition exists_file :: "path \<Rightarrow> bool io" where
  "exists_file p = trying (stat p) (\<lambda>r. ret (case r of Inl e \<Rightarrow> False | Inr _ \<Rightarrow> True))"

definition restore_recovery :: "stage_dirs \<Rightarrow> string io" where
  "restore_recovery dirs =
     (let cur = recovery_cur dirs; prev = recovery_prev dirs in
      seqE (exists_file prev) (\<lambda>kept.
        if \<not> kept then ret []
        else seqE (wrapE ''recovery: restore previous image'' (rename prev cur)) (\<lambda>_.
             seqE (wrapE ''recovery: restore previous signature'' (rename (sig_of prev) (sig_of cur))) (\<lambda>_.
             seqE (commitDir (sd_esp dirs)) (\<lambda>_.
             ret ''recovery: an interrupted update was rolled back to the previous recovery'')))))"

definition RepairRecoverySlot :: "stage_dirs \<Rightarrow> string io" where
  "RepairRecoverySlot dirs =
     (if sd_esp dirs = [] then ret []
      else
        let cur = recovery_cur dirs; prev = recovery_prev dirs in
        seqE (exists_file cur) (\<lambda>a.
        seqE (if a then exists_file (sig_of cur) else ret False) (\<lambda>complete.
          if complete
          then seqE (ignoring (remove prev)) (\<lambda>_. seqE (ignoring (remove (sig_of prev))) (\<lambda>_. ret []))
          else restore_recovery dirs)))"

text \<open>The new image and its signature, downloaded and verified; any failure removes both.\<close>

definition fetch_recovery :: "env \<Rightarrow> string \<Rightarrow> stage_dirs \<Rightarrow> verified_manifest \<Rightarrow> unit io" where
  "fetch_recovery en rootPub dirs vm =
     (let m = vm_manifest vm; nxt = recovery_next dirs in
      or_remove [nxt, sig_of nxt]
        (seqE (FetchTo (e_net en) (m_recovery_url m) nxt) (\<lambda>_.
         seqE (VerifySHA256 (e_crypto en) nxt (m_recovery_hash m)) (\<lambda>_.
         seqE (FetchTo (e_net en) (m_recovery_sig_url m) (sig_of nxt)) (\<lambda>_.
         seqE (VerifySHA256 (e_crypto en) (sig_of nxt) (m_recovery_sig_hash m)) (\<lambda>_.
         seqE (read_file nxt) (\<lambda>img.
         seqE (read_file (sig_of nxt)) (\<lambda>sg.
         seqE (wrapE ''recovery'' (lift_err (VerifyCert (e_crypto en) (vm_cert vm) (vm_cert_sig vm) rootPub (e_now en 1)))) (\<lambda>(signingPub, _).
         if \<not> Verify (e_crypto en) img sg signingPub then throw (Errorf ''recovery: signature invalid, refusing'')
         else commitDir (sd_esp dirs))))))))))"

text \<open>The swap: the old pair moves to the previous names, then the signature and the image come.\<close>

definition swap_recovery :: "stage_dirs \<Rightarrow> unit io" where
  "swap_recovery dirs =
     (let cur = recovery_cur dirs; prev = recovery_prev dirs; nxt = recovery_next dirs in
      seqE (exists_file cur) (\<lambda>a.
      seqE (if a
            then seqE (or_remove [nxt, sig_of nxt] (wrapE ''recovery: keep previous image'' (rename cur prev))) (\<lambda>_.
                 ignoring (rename (sig_of cur) (sig_of prev)))
            else ret ()) (\<lambda>_.
      seqE (wrapE ''recovery: install signature'' (rename (sig_of nxt) (sig_of cur))) (\<lambda>_.
      wrapE ''recovery: install image'' (rename nxt cur)))))"

definition finish_recovery :: "env \<Rightarrow> path \<Rightarrow> stage_dirs \<Rightarrow> manifest \<Rightarrow> string io" where
  "finish_recovery en walPath dirs m =
     seqE (commitDir (sd_esp dirs)) (\<lambda>_.
     seqE sync_all (\<lambda>_.
     seqE (ignoring (remove (recovery_prev dirs))) (\<lambda>_.
     seqE (ignoring (remove (sig_of (recovery_prev dirs)))) (\<lambda>_.
     seqE (ignoring (commitDir (sd_esp dirs))) (\<lambda>_.
     seqE (trying (Load walPath) (\<lambda>r. case r of
         Inl e \<Rightarrow> ret ()
       | Inr d \<Rightarrow> ignoring (Save walPath (d\<lparr>d_recovery := (d_recovery d)
           \<lparr>rc_version := itoa (m_recovery_version m), rc_last_updated := e_clock en 0\<rparr>\<rparr>)))) (\<lambda>_.
     ret (''recovery: version '' @ itoa (m_recovery_version m) @ '' installed'')))))))"

definition stage_recovery_in :: "env \<Rightarrow> path \<Rightarrow> string \<Rightarrow> string \<Rightarrow> string \<Rightarrow> stage_dirs \<Rightarrow> path \<Rightarrow> string io" where
  "stage_recovery_in en walPath manifestURL revocationURL rootPub dirs work =
     seqE (fetchVerifiedManifest en work manifestURL revocationURL rootPub []) (\<lambda>vm.
     let m = vm_manifest vm in
     if m_recovery_url m = [] \<or> m_recovery_sig_url m = [] \<or> m_recovery_hash m = []
     then throw (Errorf ''recovery: this release carries no recovery image'')
     else seqE (RecoveryIsCurrent (e_crypto en) dirs m) (\<lambda>current.
       if current then ret ''recovery: already current''
       else seqE (ignoring (remove (path_join (sd_esp dirs) ''kernelcache-next.efi''))) (\<lambda>_.
            seqE (fetch_recovery en rootPub dirs vm) (\<lambda>_.
            seqE (swap_recovery dirs) (\<lambda>_.
            finish_recovery en walPath dirs m)))))"

definition StageRecovery :: "env \<Rightarrow> path \<Rightarrow> string \<Rightarrow> string \<Rightarrow> string \<Rightarrow> stage_dirs \<Rightarrow> string io" where
  "StageRecovery en walPath manifestURL revocationURL rootPub dirs =
     (if sd_esp dirs = [] then throw (Errorf ''recovery: no ESP configured'')
      else seqE (Load walPath) (\<lambda>d.
        if HasPending d then seqE (pendingUpdateError (e_cmdline en) d ''recovery'') throw
        else seqE (RepairRecoverySlot dirs) (\<lambda>_.
             seqE (mkdir_temp ''atomd-recovery-'') (\<lambda>work.
             deferred (stage_recovery_in en walPath manifestURL revocationURL rootPub dirs work) (remove_all work)))))"

subsection \<open>The swap survives a crash\<close>

lemma recovery_names [simp]:
  "recovery_cur dirs \<noteq> recovery_prev dirs" "recovery_prev dirs \<noteq> recovery_cur dirs"
  "recovery_cur dirs \<noteq> recovery_next dirs" "recovery_next dirs \<noteq> recovery_cur dirs"
  "recovery_next dirs \<noteq> recovery_prev dirs" "recovery_prev dirs \<noteq> recovery_next dirs"
  "sig_of (recovery_cur dirs) \<noteq> sig_of (recovery_prev dirs)" "sig_of (recovery_prev dirs) \<noteq> sig_of (recovery_cur dirs)"
  "sig_of (recovery_cur dirs) \<noteq> sig_of (recovery_next dirs)" "sig_of (recovery_next dirs) \<noteq> sig_of (recovery_cur dirs)"
  "sig_of (recovery_next dirs) \<noteq> sig_of (recovery_prev dirs)" "sig_of (recovery_prev dirs) \<noteq> sig_of (recovery_next dirs)"
  "p \<in> {recovery_cur dirs, recovery_prev dirs, recovery_next dirs} \<Longrightarrow>
   q \<in> {recovery_cur dirs, recovery_prev dirs, recovery_next dirs} \<Longrightarrow> sig_of p \<noteq> q"
  by (auto simp: recovery_cur_def recovery_prev_def recovery_next_def sig_of_def recoveryFile_def recoveryPrevFile_def recoveryNextFile_def)

definition recovery_pair :: "stage_dirs \<Rightarrow> disk \<Rightarrow> string option \<times> string option" where
  "recovery_pair dirs h = (file_data h (recovery_cur dirs), file_data h (sig_of (recovery_cur dirs)))"

text \<open>\<open>healed\<close>: what the next boot makes of a disk that a crash left behind.\<close>

definition healed :: "stage_dirs \<Rightarrow> disk \<Rightarrow> string option \<times> string option" where
  "healed dirs h = recovery_pair dirs (w_disk (snd (RepairRecoverySlot dirs (world_of h))))"

lemma sig_distinct [simp]:
  "sig_of (recovery_cur dirs) \<noteq> recovery_cur dirs" "sig_of (recovery_cur dirs) \<noteq> recovery_prev dirs"
  "sig_of (recovery_cur dirs) \<noteq> recovery_next dirs" "sig_of (recovery_prev dirs) \<noteq> recovery_cur dirs"
  "sig_of (recovery_prev dirs) \<noteq> recovery_prev dirs" "sig_of (recovery_prev dirs) \<noteq> recovery_next dirs"
  "sig_of (recovery_next dirs) \<noteq> recovery_cur dirs" "sig_of (recovery_next dirs) \<noteq> recovery_prev dirs"
  "sig_of (recovery_next dirs) \<noteq> recovery_next dirs"
  "recovery_cur dirs \<noteq> sig_of (recovery_cur dirs)" "recovery_prev dirs \<noteq> sig_of (recovery_cur dirs)"
  "recovery_next dirs \<noteq> sig_of (recovery_cur dirs)" "recovery_cur dirs \<noteq> sig_of (recovery_prev dirs)"
  "recovery_prev dirs \<noteq> sig_of (recovery_prev dirs)" "recovery_next dirs \<noteq> sig_of (recovery_prev dirs)"
  "recovery_cur dirs \<noteq> sig_of (recovery_next dirs)" "recovery_prev dirs \<noteq> sig_of (recovery_next dirs)"
  "recovery_next dirs \<noteq> sig_of (recovery_next dirs)"
  by (auto simp: recovery_cur_def recovery_prev_def recovery_next_def sig_of_def recoveryFile_def recoveryPrevFile_def recoveryNextFile_def)

lemma commitDir_no_fault: "w_faults w = [] \<Longrightarrow> commitDir dir w = (Inr (), w)"
  by (simp add: commitDir_def syncDir_def syncfs_def checkpoint_ioctl_def sys_defs seqE_def trying_def sys_call_def ret_def)

lemma file_data_None: "file_data h p = None \<longleftrightarrow> dk_names h p = None"
  by (simp add: file_data_def lookup_def)

lemma file_data_rename:
  "file_data (rename_disk src dst h) q =
     (if dk_names h src = dk_names h dst then file_data h q
      else if q = src then None else if q = dst then file_data h src else file_data h q)"
  by (simp add: file_data_def lookup_rename_disk)

lemma file_data_rename_dst: "src \<noteq> dst \<Longrightarrow> file_data (rename_disk src dst h) dst = file_data h src"
  by (simp add: file_data_rename) (simp add: file_data_def lookup_def)

lemma file_data_rename_other: "q \<noteq> src \<Longrightarrow> q \<noteq> dst \<Longrightarrow> file_data (rename_disk src dst h) q = file_data h q"
  by (simp add: file_data_rename)

lemmas renamed = file_data_rename_dst file_data_rename_other

lemma file_data_unlink: "file_data (h\<lparr>dk_names := (dk_names h)(p := None)\<rparr>) q = (if q = p then None else file_data h q)"
  by (simp add: file_data_def lookup_unlink)

lemma rename_no_fault:
  "w_faults w = [] \<Longrightarrow> rename src dst w =
     (if file_data (w_disk w) src = None then (Inl (Sys ENOENT), w) else (Inr (), put_disk (rename_disk src dst (w_disk w)) w))"
  by (auto simp: sys_defs sys_call_def file_data_None split: option.splits)

lemma exists_no_fault: "w_faults w = [] \<Longrightarrow> exists_file p w = (Inr (file_data (w_disk w) p \<noteq> None), w)"
  by (auto simp: exists_file_def sys_defs sys_call_def trying_def ret_def file_data_None split: option.splits)

lemma remove_no_fault:
  "w_faults w = [] \<Longrightarrow> ignoring (remove p) w = (Inr (),
     if file_data (w_disk w) p = None then w else put_disk ((w_disk w)\<lparr>dk_names := (dk_names (w_disk w))(p := None)\<rparr>) w)"
  by (auto simp: ignoring_def sys_defs sys_call_def trying_def ret_def file_data_None split: option.splits)

lemma put_disk_faults [simp]: "w_faults (put_disk d w) = w_faults w"
  by (rule put_disk_sel)

lemma run_seqE: "m w = (Inr x, w') \<Longrightarrow> seqE m k w = k x w'" "m w = (Inl e, w') \<Longrightarrow> seqE m k w = (Inl e, w')"
  by (simp_all add: seqE_def trying_def throw_def)

lemma run_wrapE: "wrapE s m w = (case m w of (Inl e, w') \<Rightarrow> (Inl (Wrap s e), w') | (Inr x, w') \<Rightarrow> (Inr x, w'))"
  by (simp add: wrapE_def trying_def throw_def ret_def split: prod.split sum.split)

lemma healed_eq:
  assumes "sd_esp dirs \<noteq> []"
  shows "healed dirs h =
    (let c = file_data h (recovery_cur dirs); s = file_data h (sig_of (recovery_cur dirs));
         pc = file_data h (recovery_prev dirs); ps = file_data h (sig_of (recovery_prev dirs))
     in if c \<noteq> None \<and> s \<noteq> None \<or> pc = None then (c, s) else (pc, if ps = None then s else ps))"
proof (cases "file_data h (recovery_cur dirs) \<noteq> None \<and> file_data h (sig_of (recovery_cur dirs)) \<noteq> None")
  case True
  then show ?thesis
    using assms by (simp add: healed_def recovery_pair_def RepairRecoverySlot_def Let_def run_seqE(1) [OF exists_no_fault] run_seqE(1) [OF remove_no_fault]
        ret_def file_data_unlink)
next
  case False
  have rep: "RepairRecoverySlot dirs (world_of h) = restore_recovery dirs (world_of h)"
  proof (cases "file_data h (recovery_cur dirs) = None")
    case True
    then show ?thesis
      using assms by (simp add: RepairRecoverySlot_def Let_def run_seqE(1) [OF exists_no_fault] run_seqE(1) [of "ret False", OF ret_def [THEN fun_cong]])
  next
    case c: False
    then show ?thesis
      using assms False by (simp add: RepairRecoverySlot_def Let_def run_seqE(1) [OF exists_no_fault])
  qed
  show ?thesis
  proof (cases "file_data h (recovery_prev dirs) = None")
    case True
    then show ?thesis
      using False by (simp add: healed_def rep restore_recovery_def Let_def run_seqE(1) [OF exists_no_fault] ret_def recovery_pair_def)
  next
    case prev: False
    let ?h1 = "rename_disk (recovery_prev dirs) (recovery_cur dirs) h"
    have h1: "file_data ?h1 (recovery_cur dirs) = file_data h (recovery_prev dirs)"
      "file_data ?h1 (sig_of (recovery_prev dirs)) = file_data h (sig_of (recovery_prev dirs))"
      "file_data ?h1 (sig_of (recovery_cur dirs)) = file_data h (sig_of (recovery_cur dirs))"
      by (simp_all add: renamed)
    have h2: "recovery_pair dirs (rename_disk (sig_of (recovery_prev dirs)) (sig_of (recovery_cur dirs)) ?h1) =
        (file_data h (recovery_prev dirs), file_data h (sig_of (recovery_prev dirs)))"
      by (simp add: recovery_pair_def renamed)
    show ?thesis
      using False prev h1 h2
      by (auto simp: healed_def rep restore_recovery_def Let_def run_seqE(1) [OF exists_no_fault] seqE_def trying_def throw_def ret_def run_wrapE
          exists_no_fault rename_no_fault commitDir_no_fault recovery_pair_def)
  qed
qed

text \<open>The disks of an undisturbed swap, in their order.\<close>

definition swap_ready :: "stage_dirs \<Rightarrow> disk \<Rightarrow> bool" where
  "swap_ready dirs d \<longleftrightarrow>
     file_data d (recovery_cur dirs) \<noteq> None \<and> file_data d (sig_of (recovery_cur dirs)) \<noteq> None \<and>
     file_data d (recovery_next dirs) \<noteq> None \<and> file_data d (sig_of (recovery_next dirs)) \<noteq> None"

definition next_pair :: "stage_dirs \<Rightarrow> disk \<Rightarrow> string option \<times> string option" where
  "next_pair dirs h = (file_data h (recovery_next dirs), file_data h (sig_of (recovery_next dirs)))"

lemma swap_run:
  assumes "w_faults w = []" and "swap_ready dirs (w_disk w)" and "sd_esp dirs \<noteq> []"
    and "file_data (w_disk w) (recovery_prev dirs) = None" and "file_data (w_disk w) (sig_of (recovery_prev dirs)) = None"
  shows "\<exists>w'. swap_recovery dirs w = (Inr (), w') \<and> recovery_pair dirs (w_disk w') = next_pair dirs (w_disk w) \<and>
    evolves (\<lambda>h. healed dirs h \<in> {recovery_pair dirs (w_disk w), next_pair dirs (w_disk w)}) w w'"
proof -
  let ?c = "recovery_cur dirs" and ?p = "recovery_prev dirs" and ?n = "recovery_next dirs" and ?d = "w_disk w"
  let ?cs = "sig_of (recovery_cur dirs)" and ?ps = "sig_of (recovery_prev dirs)" and ?ns = "sig_of (recovery_next dirs)"
  let ?P = "\<lambda>h. healed dirs h \<in> {recovery_pair dirs ?d, next_pair dirs ?d}"
  obtain c cs n ns where f: "file_data ?d ?c = Some c" "file_data ?d ?cs = Some cs" "file_data ?d ?n = Some n" "file_data ?d ?ns = Some ns"
    using assms(2) by (auto simp: swap_ready_def)
  let ?d1 = "rename_disk ?c ?p ?d" let ?d2 = "rename_disk ?cs ?ps ?d1" let ?d3 = "rename_disk ?ns ?cs ?d2" let ?d4 = "rename_disk ?n ?c ?d3"
  have neq: "dk_names h a \<noteq> dk_names h b" if "file_data h a \<noteq> None" "file_data h b = None" for h a b
    using that by (auto simp: file_data_None)
  have src: "file_data (rename_disk a b h) a = None" if "file_data h a \<noteq> None" "file_data h b = None" "a \<noteq> b" for h a b
    using neq [OF that(1,2)] that(3) by (simp add: file_data_rename)
  have 1: "file_data ?d1 ?c = None" "file_data ?d1 ?cs = Some cs" "file_data ?d1 ?p = Some c" "file_data ?d1 ?ps = None"
    "file_data ?d1 ?n = Some n" "file_data ?d1 ?ns = Some ns"
    using src [of ?d ?c ?p] f assms(4,5) by (simp_all add: renamed)
  have 2: "file_data ?d2 ?c = None" "file_data ?d2 ?cs = None" "file_data ?d2 ?p = Some c" "file_data ?d2 ?ps = Some cs"
    "file_data ?d2 ?n = Some n" "file_data ?d2 ?ns = Some ns"
    using src [of ?d1 ?cs ?ps] 1 by (simp_all add: renamed)
  have 3: "file_data ?d3 ?c = None" "file_data ?d3 ?cs = Some ns" "file_data ?d3 ?p = Some c" "file_data ?d3 ?ps = Some cs" "file_data ?d3 ?n = Some n"
    using 2 by (simp_all add: renamed)
  have 4: "file_data ?d4 ?c = Some n" "file_data ?d4 ?cs = Some ns" using 3 by (simp_all add: renamed)
  have h: "?P ?d" "?P ?d1" "?P ?d2" "?P ?d3" "?P ?d4"
    using f 1 2 3 4 by (simp_all add: healed_eq [OF assms(3)] Let_def recovery_pair_def next_pair_def)
  let ?w = "put_disk ?d4 (put_disk ?d3 (put_disk ?d2 (put_disk ?d1 w)))"
  have "swap_recovery dirs w = (Inr (), ?w)"
    using f 1 2 3 assms(1)
    by (simp add: swap_recovery_def Let_def or_remove_def ignoring_def seqE_def trying_def ret_def run_wrapE exists_no_fault rename_no_fault)
  moreover have "evolves ?P w ?w" using h by simp
  moreover have "recovery_pair dirs (w_disk ?w) = next_pair dirs ?d" using 4 f by (simp add: recovery_pair_def next_pair_def)
  ultimately show ?thesis by blast
qed

text \<open>C30. Replacing the recovery image survives a crash. When an image with its signature is installed,
  no previous pair is kept and no call fails, then after a crash at any moment of the swap the repair
  of the next boot leaves an image with the signature that belongs to it, the old pair or the new
  one, and without a crash the new pair is in place. A failing rename of a signature, which the code
  ignores, and a crash in a first installation are not covered.\<close>

theorem recovery_swap_crash_safe:
  assumes "w_faults w = []" and "swap_ready dirs (w_disk w)" and "sd_esp dirs \<noteq> []"
    and "file_data (w_disk w) (recovery_prev dirs) = None" and "file_data (w_disk w) (sig_of (recovery_prev dirs)) = None"
  shows "\<exists>w'. swap_recovery dirs w = (Inr (), w') \<and> recovery_pair dirs (w_disk w') = next_pair dirs (w_disk w) \<and>
    evolves (\<lambda>h. healed dirs h \<in> {recovery_pair dirs (w_disk w), next_pair dirs (w_disk w)}) w w'"
  using swap_run [OF assms] .

definition recovery_disk :: disk where
  "recovery_disk = put_file (recovery_cur sample_dirs) ''old'' (put_file (sig_of (recovery_cur sample_dirs)) ''oldsig''
     (put_file (recovery_next sample_dirs) ''new'' (put_file (sig_of (recovery_next sample_dirs)) ''newsig'' empty_disk)))"

lemma recovery_swap_crash_safe_witness:
  "\<exists>w'. swap_recovery sample_dirs (world_of recovery_disk) = (Inr (), w') \<and>
     recovery_pair sample_dirs (w_disk w') = (Some ''new'', Some ''newsig'') \<and>
     evolves (\<lambda>h. healed sample_dirs h \<in> {(Some ''old'', Some ''oldsig''), (Some ''new'', Some ''newsig'')}) (world_of recovery_disk) w'"
proof -
  have d: "file_data recovery_disk (recovery_cur sample_dirs) = Some ''old''" "file_data recovery_disk (sig_of (recovery_cur sample_dirs)) = Some ''oldsig''"
    "file_data recovery_disk (recovery_next sample_dirs) = Some ''new''" "file_data recovery_disk (sig_of (recovery_next sample_dirs)) = Some ''newsig''"
    "file_data recovery_disk (recovery_prev sample_dirs) = None" "file_data recovery_disk (sig_of (recovery_prev sample_dirs)) = None"
    by (simp_all add: recovery_disk_def file_data_def lookup_put_file) (simp_all add: lookup_def empty_disk_def)
  show ?thesis
    using recovery_swap_crash_safe [of "world_of recovery_disk" sample_dirs] d
    by (simp add: swap_ready_def sample_dirs_def recovery_pair_def next_pair_def)
qed

end
