(* ===== verification/Daemon.thy ===== *)
theory Daemon
  imports Loader RecoveryImage
begin

section \<open>The daemon\<close>

text \<open>
  internal/otad/otad.go: provisioning, the confirmation of a boot with its health gate, the
  verbs over the record, and the confirmation of firmware. Lines written to the log are not
  modelled, and some result texts are shortened. The names of health scripts and bundles hold no
  separator.
\<close>

subsection \<open>Provisioning and the simple verbs\<close>

definition Init :: "env \<Rightarrow> path \<Rightarrow> string \<Rightarrow> string \<Rightarrow> string io" where
  "Init en walPath deviceID rootfsVersion =
     seqE (Save walPath (New (e_clock en) deviceID rootfsVersion)) (\<lambda>_.
     ret (''initialized WAL: current='' @ rootfsVersion @ '' device='' @ deviceID))"

definition otad_Deploy :: "path \<Rightarrow> string \<Rightarrow> string io" where
  "otad_Deploy walPath version =
     seqE (Load walPath) (\<lambda>d0.
     let d = Deploy version d0 in
     seqE (Save walPath d) (\<lambda>_.
     ret (''staged candidate '' @ version @ '' (boot_attempts='' @ itoa (rf_boot_attempts (d_rootfs d)) @ ''); reboot to try it'')))"

definition otad_Rollback :: "path \<Rightarrow> stage_dirs \<Rightarrow> string io" where
  "otad_Rollback walPath dirs =
     seqE (Load walPath) (\<lambda>d0.
     let d = Rollback d0 in
     seqE (wrapE ''rollback boot-state commit failed'' (writeDeploymentBootState d dirs)) (\<lambda>_.
     seqE (Save walPath d) (\<lambda>_.
     ret (''rolled back to '' @ rf_current (d_rootfs d)))))"

subsection \<open>Health checks\<close>

definition health_script :: "path \<Rightarrow> dir_entry \<Rightarrow> path list" where
  "health_script dir e =
     (if de_is_dir e then []
      else (case de_mode e of None \<Rightarrow> [] | Some mode \<Rightarrow> if executable_mode mode then [path_join dir (de_name e)] else []))"

definition health_scripts :: "path \<Rightarrow> dir_entry list \<Rightarrow> path list" where
  "health_scripts dir es = sort (concat (map (health_script dir) es))"

definition run_script :: "env \<Rightarrow> path \<Rightarrow> error + unit" where
  "run_script en s = (case e_exec en s of None \<Rightarrow> Inr () | Some e \<Rightarrow> Inl (Wrap (path_base s) e))"

primrec run_scripts :: "env \<Rightarrow> path list \<Rightarrow> error + unit" where
  "run_scripts en [] = Inr ()"
| "run_scripts en (s # ss) = err_bind (run_script en s) (\<lambda>_. run_scripts en ss)"

definition RunHealthChecks :: "env \<Rightarrow> path \<Rightarrow> error + unit" where
  "RunHealthChecks en dir =
     (case e_readdir en dir of
        Inl e \<Rightarrow> if errors_Is e ENOENT then Inr () else Inl e
      | Inr entries \<Rightarrow> run_scripts en (health_scripts dir entries))"

subsection \<open>Confirming a boot\<close>

definition to_uint64 :: "int \<Rightarrow> nat" where
  "to_uint64 x = nat (x mod 2 ^ 64)"

text \<open>No candidate: the counter store catches up with the record, a loader candidate is judged,
  an interrupted recovery update is repaired, the boot state follows the record.\<close>

definition catch_up_counter :: "env \<Rightarrow> counter_store option \<Rightarrow> deployment \<Rightarrow> unit io" where
  "catch_up_counter en store d =
     (case store of
        None \<Rightarrow> ret ()
      | Some st \<Rightarrow>
          if 0 < ar_counter_value (d_anti_rollback d)
          then trying (CounterStore_Read (e_sh en) st) (\<lambda>r. case r of
                 Inl e \<Rightarrow> ret ()
               | Inr cur \<Rightarrow>
                   if cur < to_uint64 (ar_counter_value (d_anti_rollback d))
                   then ignoring (CounterStore_Advance (e_sh en) st (to_uint64 (ar_counter_value (d_anti_rollback d))))
                   else ret ())
          else ret ())"

definition boot_stable :: "env \<Rightarrow> counter_store option \<Rightarrow> stage_dirs \<Rightarrow> deployment \<Rightarrow> string io" where
  "boot_stable en store dirs d =
     seqE (catch_up_counter en store d) (\<lambda>_.
     trying (HandleLoaderCandidate (e_crypto en) dirs) (\<lambda>loader.
     trying (RepairRecoverySlot dirs) (\<lambda>_.
     seqE (wrapE ''stable boot-state reconciliation failed'' (writeDeploymentBootState d dirs)) (\<lambda>_.
     seqE sync_all (\<lambda>_.
     seqE (CleanupNextSlots dirs) (\<lambda>_.
     seqE sync_all (\<lambda>_.
     case loader of
       Inl e \<Rightarrow> throw e
     | Inr msg \<Rightarrow> if msg \<noteq> [] then ret (''stable: '' @ msg) else ret ''stable: no candidate in flight, nothing to confirm'')))))))"

text \<open>The running system is not the candidate: what the loader left of the budget is taken over,
  or one attempt is counted; a spent budget rolls back.\<close>

definition reconcile_budget :: "(error + boot_state) option \<Rightarrow> deployment \<Rightarrow> bool \<times> deployment" where
  "reconcile_budget bs d =
    (case bs of
       Some (Inr b) \<Rightarrow>
         if bs_target b = ''active'' then (True, d\<lparr>d_rootfs := (d_rootfs d)\<lparr>rf_boot_attempts := 0\<rparr>\<rparr>)
         else if bs_target b = ''next'' \<and> bs_trial b \<and> bs_attempts b \<le> rf_boot_attempts (d_rootfs d)
         then (True, d\<lparr>d_rootfs := (d_rootfs d)\<lparr>rf_boot_attempts := bs_attempts b\<rparr>\<rparr>)
         else (False, d)
     | _ \<Rightarrow> (False, d))"

definition failed_attempt :: "(error + boot_state) option \<Rightarrow> deployment \<Rightarrow> bool \<times> deployment" where
  "failed_attempt bs d0 =
    (let d1 = d0\<lparr>d_kernelcache := (d_kernelcache d0)\<lparr>kc_stable_boots := 0\<rparr>\<rparr> in
     case reconcile_budget bs d1 of (reconciled, d2) \<Rightarrow>
       (let (exhausted, d3) = (if reconciled then (rf_boot_attempts (d_rootfs d2) \<le> 0, d2) else DecrementBootAttempt d2)
        in (exhausted, if exhausted then Rollback d3 else d3)))"

definition read_boot_state_opt :: "stage_dirs \<Rightarrow> (error + boot_state) option io" where
  "read_boot_state_opt dirs =
     (if sd_esp dirs = [] then ret None else trying (ReadBootState (boot_state_path dirs)) (\<lambda>r. ret (Some r)))"

definition boot_fallback :: "path \<Rightarrow> stage_dirs \<Rightarrow> deployment \<Rightarrow> string io" where
  "boot_fallback walPath dirs d0 =
     seqE (read_boot_state_opt dirs) (\<lambda>bs.
     case failed_attempt bs d0 of (exhausted, d) \<Rightarrow>
     seqE (wrapE ''candidate fallback boot-state commit failed'' (writeDeploymentBootState d dirs)) (\<lambda>_.
     seqE sync_all (\<lambda>_.
     seqE (Save walPath d) (\<lambda>_.
     seqE (if exhausted then seqE (CleanupNextSlots dirs) (\<lambda>_. sync_all) else ret ()) (\<lambda>_.
     ret (''candidate '' @ rf_pending (d_rootfs d0) @ '' did NOT boot''))))))"

definition arm_counter :: "env \<Rightarrow> counter_store option \<Rightarrow> deployment \<Rightarrow> unit io" where
  "arm_counter en store d =
     (case store of
        None \<Rightarrow> ret ()
      | Some st \<Rightarrow> wrapE ''promoted but arming anti-rollback counter failed''
          (CounterStore_Advance (e_sh en) st (to_uint64 (ar_counter_value (d_anti_rollback d)))))"

definition boot_confirmed :: "env \<Rightarrow> path \<Rightarrow> counter_store option \<Rightarrow> stage_dirs \<Rightarrow> deployment \<Rightarrow> string io" where
  "boot_confirmed en walPath store dirs d0 =
     (case RecordGoodBoot (e_clock en) True d0 of (prom, d) \<Rightarrow>
      if prom
      then seqE (commit_promotion en walPath dirs (Some ''candidate slot promotion failed'')
                   (Some ''candidate boot-state commit failed'') d) (\<lambda>_.
           seqE (arm_counter en store d) (\<lambda>_.
           ret (''candidate '' @ rf_pending (d_rootfs d0) @ '' promoted to last_known_good (anti-rollback counter ''
             @ itoa (ar_counter_value (d_anti_rollback d)) @ '')'')))
      else seqE (wrapE ''candidate trial boot-state commit failed'' (writeDeploymentBootState d dirs)) (\<lambda>_.
           seqE sync_all (\<lambda>_.
           seqE (Save walPath d) (\<lambda>_.
           ret (''good boot recorded for candidate '' @ rf_pending (d_rootfs d0) @ '' (''
             @ itoa (kc_stable_boots (d_kernelcache d)) @ ''/'' @ itoa (kc_stable_threshold (d_kernelcache d)) @ '' stable)'')))))"

definition BootSuccess :: "env \<Rightarrow> path \<Rightarrow> path \<Rightarrow> counter_store option \<Rightarrow> stage_dirs \<Rightarrow> string io" where
  "BootSuccess en walPath healthDir store dirs =
     seqE (Load walPath) (\<lambda>d.
       if \<not> HasPending d then boot_stable en store dirs d
       else seqE (wrapE ''health gate failed, candidate left unconfirmed'' (lift_err (RunHealthChecks en healthDir))) (\<lambda>_.
            seqE (bootedIdentity (e_cmdline en)) (\<lambda>bi.
              if \<not> identity_confirmed bi d then boot_fallback walPath dirs d
              else boot_confirmed en walPath store dirs d)))"

subsection \<open>Confirming firmware\<close>

definition FirmwareBootConfirm :: "env \<Rightarrow> path \<Rightarrow> stage_dirs \<Rightarrow> string \<Rightarrow> bool \<Rightarrow> string io" where
  "FirmwareBootConfirm en walPath dirs bundle probeOK =
     seqE (Load walPath) (\<lambda>d0.
       if \<not> HasPendingFirmware bundle d0 then ret (''firmware bundle '' @ bundle @ '': no candidate in flight'')
       else let bdir = path_join (sd_firmware dirs) bundle in
         if \<not> probeOK then
           seqE (Save walPath (RollbackFirmware bundle d0)) (\<lambda>_.
           seqE (wrapE ''firmware bundle WAL rolled back but slot restore failed'' (RollbackFirmwareSlot bdir)) (\<lambda>_.
           ret (''firmware bundle '' @ bundle @ '' failed device-probe, rolled back to previous firmware'')))
         else (case RecordFirmwareProbe (e_clock en) bundle d0 of (prom, d) \<Rightarrow>
           seqE (Save walPath d) (\<lambda>_.
             if prom
             then seqE (wrapE ''firmware bundle promoted but dropping backups failed'' (FinalizeFirmwareSlot bdir)) (\<lambda>_.
                  ret (''firmware bundle '' @ bundle @ '' promoted to last known good''))
             else ret (''firmware bundle '' @ bundle @ '' good probe recorded (not yet at stable threshold)''))))"

primrec confirm_each :: "env \<Rightarrow> path \<Rightarrow> stage_dirs \<Rightarrow> bool \<Rightarrow> string list \<Rightarrow> string list io" where
  "confirm_each en walPath dirs probeOK [] = ret []"
| "confirm_each en walPath dirs probeOK (name # names) =
     seqE (FirmwareBootConfirm en walPath dirs name probeOK) (\<lambda>msg.
     seqE (confirm_each en walPath dirs probeOK names) (\<lambda>msgs. ret (msg # msgs)))"

definition FirmwareBootConfirmAll :: "env \<Rightarrow> path \<Rightarrow> stage_dirs \<Rightarrow> bool \<Rightarrow> string io" where
  "FirmwareBootConfirmAll en walPath dirs probeOK =
     seqE (Load walPath) (\<lambda>d.
       let pending = PendingFirmwareBundles d in
       if length pending = 0 then ret ''no firmware candidate in flight''
       else seqE (confirm_each en walPath dirs probeOK (sort pending)) (\<lambda>msgs. ret (join_with ''; '' msgs)))"

subsection \<open>Status\<close>

definition status_bundle :: "deployment \<Rightarrow> string \<Rightarrow> string" where
  "status_bundle d name =
    (case map_of (bundle_map d) name of
       None \<Rightarrow> []
     | Some fw \<Rightarrow>
         if HasPendingFirmware name d
         then newline # ''firmware['' @ name @ '']:    current v'' @ itoa (fb_current_version fw) @ '', pending v''
              @ itoa (fb_pending_version fw) @ '' (probes '' @ itoa (fb_probe_confirms fw) @ ''/'' @ itoa (fb_stable_threshold fw) @ '')''
         else newline # ''firmware['' @ name @ '']:    current v'' @ itoa (fb_current_version fw) @ '' (no candidate)'')"

definition status_text :: "deployment \<Rightarrow> string" where
  "status_text d =
    (let r = d_rootfs d; k = d_kernelcache d in
     ''current:         '' @ rf_current r @ '' (kc '' @ itoa (kc_current_version k) @ '')'' @ [newline] @
     (if HasPending d
      then ''pending:         '' @ rf_pending r @ '' (boot_attempts '' @ itoa (rf_boot_attempts r) @ ''/'' @ itoa (rf_max_attempts r)
           @ '', stable '' @ itoa (kc_stable_boots k) @ ''/'' @ itoa (kc_stable_threshold k) @ '')'' @ [newline]
      else ''pending:         none ('' @ kc_state k @ '')'' @ [newline]) @
     ''rollback:        '' @ rf_rollback r @ [newline] @
     ''last_known_good: '' @ rf_last_known_good r @ '' ('' @ rf_last_known_good_at r @ '')'' @ [newline] @
     ''recovery:        '' @ rc_version (d_recovery d) @ [newline] @
     ''security level:  L'' @ itoa (sc_level (d_security d)) @ [newline] @
     ''anti-rollback:   '' @ ar_hardware (d_anti_rollback d) @ '' counter='' @ itoa (ar_counter_value (d_anti_rollback d)) @
     (if length (bundle_map d) = 0 then newline # ''firmware:        none''
      else concat (map (status_bundle d) (sort (map fst (bundle_map d))))))"

definition Status :: "path \<Rightarrow> string io" where
  "Status walPath = seqE (Load walPath) (\<lambda>d. ret (status_text d))"

end
