(* ===== verification/DaemonSafe.thy ===== *)
theory DaemonSafe
  imports Daemon Lifecycle
begin

section \<open>Three good boots make an update permanent\<close>

text \<open>
  The confirmation of a boot (internal/otad/otad.go) as a run on files: without faults each
  confirmed boot moves the record by one \<open>RecordGoodBoot\<close>, and the third promotes the slots.
\<close>

subsection \<open>One confirmed boot\<close>

text \<open>The situation a boot of the candidate is confirmed in.\<close>

definition candidate_boots :: "env \<Rightarrow> path \<Rightarrow> path \<Rightarrow> stage_dirs \<Rightarrow> deployment \<Rightarrow> disk \<Rightarrow> bool" where
  "candidate_boots en p healthDir dirs d h \<longleftrightarrow> apart p dirs \<and> e_cmdline en \<notin> insert (boot_state_path dirs) (wal_files p) \<and>
     RunHealthChecks en healthDir = Inr () \<and> wal_of p h = Some d \<and> stored d = d \<and> HasPending d \<and>
     (\<exists>s. file_data h (e_cmdline en) = Some s \<and> identity_confirmed (parse_cmdline s) d)"

lemma stored_same_firmware: "d_firmware d' = d_firmware d \<Longrightarrow> stored d = d \<Longrightarrow> stored d' = d'"
  by (cases d; cases d') (auto simp: stored_def bundle_map_def)

lemma bootedIdentity_calm:
  "w_faults w = [] \<Longrightarrow> file_data (w_disk w) c = Some s \<Longrightarrow> bootedIdentity c w = (Inr (parse_cmdline s), w)"
  by (auto simp: bootedIdentity_def trying_def ret_def sys_defs sys_call_def file_data_def split: option.splits)

lemma BootSuccess_candidate:
  assumes "w_faults w = []" and "candidate_boots en p hdir dirs d (w_disk w)"
  shows "BootSuccess en p hdir store dirs w = boot_confirmed en p store dirs d w"
proof -
  obtain s where s: "file_data (w_disk w) (e_cmdline en) = Some s" "identity_confirmed (parse_cmdline s) d"
    using assms(2) by (auto simp: candidate_boots_def)
  have "Load p w = (Inr d, w)" using assms by (simp add: candidate_boots_def Load_calm)
  then show ?thesis
    using assms(2) bootedIdentity_calm [OF assms(1) s(1)] s(2)
    by (simp add: BootSuccess_def candidate_boots_def seqE_def trying_def wrapE_def lift_err_def ret_def)
qed

lemma boot_trial_run:
  assumes calm: "calm (3 + k) w" and c: "candidate_boots en p hdir dirs d (w_disk w)"
    and t: "\<not> fst (RecordGoodBoot (e_clock en) True d)" "storable (snd (RecordGoodBoot (e_clock en) True d))"
  shows "\<exists>m w'. BootSuccess en p hdir store dirs w = (Inr m, w') \<and> calm k w' \<and>
     wal_of p (w_disk w') = Some (snd (RecordGoodBoot (e_clock en) True d)) \<and>
     same_outside (insert (boot_state_path dirs) (wal_files p)) (w_disk w) (w_disk w')"
proof -
  let ?b = "boot_state_path dirs"
  obtain d' where d': "RecordGoodBoot (e_clock en) True d = (False, d')" using t(1) by (cases "RecordGoodBoot (e_clock en) True d") auto
  have st: "storable d'" "stored d' = d'"
    using t(2) d' stored_same_firmware [of d' d] c rootfs_calls_firmware(1) [of "e_clock en" True d] by (auto simp: candidate_boots_def)
  have plain: "plain_path p" and esp: "sd_esp dirs \<noteq> []" using c by (auto simp: candidate_boots_def apart_def)
  have "calm (Suc (2 + k)) w" using calm by (simp add: numeral_3_eq_3)
  from calm_WriteBootState [OF this boot_state_path_fresh(1), where b = "boot_state_of d'"]
  obtain w1 where w1: "WriteBootState ?b (boot_state_of d') w = (Inr (), w1)" "calm (2 + k) w1"
    "lookup (w_disk w1) = (lookup (w_disk w))(?b := Some \<lparr>ino_data = Marshal (boot_state_of d'), ino_synced = True\<rparr>)" by blast
  obtain w2 where w2: "Save p d' w1 = (Inr (), w2)" "calm k w2" "saved p d' (w_disk w2)" "same_outside (wal_files p) (w_disk w1) (w_disk w2)"
    using calm_Save [OF w1(2) plain] by blast
  have "boot_confirmed en p store dirs d w = (Inr (''good boot recorded for candidate '' @ rf_pending (d_rootfs d) @ '' (''
             @ itoa (kc_stable_boots (d_kernelcache d')) @ ''/'' @ itoa (kc_stable_threshold (d_kernelcache d')) @ '' stable)''), w2)"
    using w1(1) w2(1) esp
    by (simp add: boot_confirmed_def d' writeDeploymentBootState_def seqE_def trying_def wrapE_def ret_def sync_all_def)
  moreover have "same_outside (insert ?b (wal_files p)) (w_disk w) (w_disk w2)"
    using w1(3) w2(4) by (simp add: same_outside_def)
  moreover have "wal_of p (w_disk w2) = Some d'" using saved_content [OF st(1) w2(3)] st(2) by simp
  moreover have "w_faults w = []" using calm by (simp add: calm_def)
  ultimately show ?thesis using BootSuccess_candidate c w2(2) d' by auto
qed

lemma promoted_not_pending: "fst (RecordGoodBoot now True d) \<Longrightarrow> \<not> HasPending (snd (RecordGoodBoot now True d))"
  by (auto simp: RecordGoodBoot_def promote_def HasPending_def Let_def split: if_splits)

lemma boot_promote_run:
  assumes calm: "calm (11 + k) w" and c: "candidate_boots en p hdir dirs d (w_disk w)"
    and t: "fst (RecordGoodBoot (e_clock en) True d)" "storable (snd (RecordGoodBoot (e_clock en) True d))"
    and st: "\<forall>f \<in> set (slot_list (slot_groups dirs)). staged_slot (w_disk w) f"
  shows "\<exists>m w'. BootSuccess en p hdir None dirs w = (Inr m, w') \<and>
     wal_of p (w_disk w') = Some (snd (RecordGoodBoot (e_clock en) True d)) \<and>
     (\<forall>f \<in> set (slot_list (slot_groups dirs)). promoted (sha256 (e_crypto en)) (w_disk w) f (w_disk w'))"
proof -
  obtain d' where d': "RecordGoodBoot (e_clock en) True d = (True, d')" using t(1) by (cases "RecordGoodBoot (e_clock en) True d") auto
  have sd: "storable d'" "stored d' = d'"
    using t(2) d' stored_same_firmware [of d' d] c rootfs_calls_firmware(1) [of "e_clock en" True d] by (auto simp: candidate_boots_def)
  have ap: "apart p dirs" using c by (simp add: candidate_boots_def)
  obtain w1 where w1: "commit_promotion en p dirs (Some ''candidate slot promotion failed'') (Some ''candidate boot-state commit failed'') d' w = (Inr (), w1)"
    "wal_of p (w_disk w1) = Some (stored d')"
    "wal_of p (w_disk w1) = wal_of p (w_disk w) \<or>
      (\<forall>f \<in> set (slot_list (slot_groups dirs)). promoted (sha256 (e_crypto en)) (w_disk w) f (w_disk w1))"
    using commit_promotion_run [OF calm ap sd(1) st, of en "Some ''candidate slot promotion failed''" "Some ''candidate boot-state commit failed''"]
      evolves_final by blast
  have "d \<noteq> d'" using promoted_not_pending [OF t(1)] c d' by (auto simp: candidate_boots_def)
  with c w1(2,3) sd(2) have pr: "\<forall>f \<in> set (slot_list (slot_groups dirs)). promoted (sha256 (e_crypto en)) (w_disk w) f (w_disk w1)"
    by (auto simp: candidate_boots_def)
  have "w_faults w = []" using calm by (simp add: calm_def)
  then show ?thesis
    using BootSuccess_candidate c w1 pr sd(2) d'
    by (auto simp: boot_confirmed_def arm_counter_def seqE_def trying_def ret_def)
qed

subsection \<open>Three of them\<close>

text \<open>A confirmed boot below the threshold leaves the system in the same situation.\<close>

lemma good_boot_below:
  assumes "HasPending d" and "0 \<le> kc_stable_boots (d_kernelcache d)" and "kc_stable_boots (d_kernelcache d) < 2"
    and "kc_stable_threshold (d_kernelcache d) = 3"
  shows "\<not> fst (RecordGoodBoot now True d)"
    and "kc_stable_boots (d_kernelcache (snd (RecordGoodBoot now True d))) = kc_stable_boots (d_kernelcache d) + 1"
    and "kc_stable_threshold (d_kernelcache (snd (RecordGoodBoot now True d))) = 3"
    and "rf_pending (d_rootfs (snd (RecordGoodBoot now True d))) = rf_pending (d_rootfs d)"
    and "rf_pending_hash (d_rootfs (snd (RecordGoodBoot now True d))) = rf_pending_hash (d_rootfs d)"
  using assms RecordGoodBoot_confirmed [OF assms(1,2) _ assms(4), of now]
  by (simp_all add: Let_def switch_to_pending_def)

lemma good_boot_last:
  assumes "HasPending d" and "kc_stable_boots (d_kernelcache d) = 2" and "kc_stable_threshold (d_kernelcache d) = 3"
  shows "fst (RecordGoodBoot now True d)"
    and "rf_last_known_good (d_rootfs (snd (RecordGoodBoot now True d))) = rf_pending (d_rootfs d)"
    and "rf_pending (d_rootfs (snd (RecordGoodBoot now True d))) = []"
  using RecordGoodBoot_confirmed [OF assms(1) _ _ assms(3), of now] assms(2,3) by (simp_all add: Let_def)

lemma candidate_boots_next:
  assumes c: "candidate_boots en p hdir dirs d h" and so: "same_outside (insert (boot_state_path dirs) (wal_files p)) h h'"
    and w: "wal_of p h' = Some (snd (RecordGoodBoot now True d))"
    and b: "0 \<le> kc_stable_boots (d_kernelcache d)" "kc_stable_boots (d_kernelcache d) < 2" "kc_stable_threshold (d_kernelcache d) = 3"
  shows "candidate_boots en p hdir dirs (snd (RecordGoodBoot now True d)) h'"
proof -
  have hp: "HasPending d" using c by (simp add: candidate_boots_def)
  note n = good_boot_below [OF hp b, of now]
  have cmd: "file_data h' (e_cmdline en) = file_data h (e_cmdline en)"
    using same_outsideD [OF so] c by (simp add: candidate_boots_def file_data_def)
  have st: "stored (snd (RecordGoodBoot now True d)) = snd (RecordGoodBoot now True d)"
    using stored_same_firmware [OF rootfs_calls_firmware(1)] c by (simp add: candidate_boots_def)
  show ?thesis
    using c w cmd st n(4,5) by (simp add: candidate_boots_def HasPending_def identity_confirmed_def)
qed

lemma staged_slot_same:
  assumes "same_outside (insert (boot_state_path dirs) (wal_files p)) h h'" and "apart p dirs"
    and "f \<in> set (slot_list (slot_groups dirs))"
  shows "staged_slot h' f = staged_slot h f"
    and "promoted sha h' f h'' = promoted sha h f h''"
proof -
  obtain g sfx where f: "f = (g, sfx)" by (cases f)
  have "slot_file g sl sfx \<in> active_names dirs \<union> next_names dirs" if "sl \<in> {SlotActive, SlotPrev, SlotNext}" for sl
    using assms(3) that f by (force simp: active_names_def next_names_def slot_names_def)
  then have "slot_file g sl sfx \<notin> insert (boot_state_path dirs) (wal_files p)" if "sl \<in> {SlotActive, SlotPrev, SlotNext}" for sl
    using assms(2) that boot_state_path_fresh(2,3) [of dirs] by (fastforce simp: apart_def)
  then have "file_data h' (slot_file g sl sfx) = file_data h (slot_file g sl sfx)" if "sl \<in> {SlotActive, SlotPrev, SlotNext}" for sl
    using same_outsideD [OF assms(1)] that by (simp add: file_data_def)
  then show "staged_slot h' f = staged_slot h f" and "promoted sha h' f h'' = promoted sha h f h''"
    by (simp_all add: f staged_slot_def promoted_def)
qed

lemma three_boots:
  assumes calm: "calm (17 + k) w" and c: "candidate_boots en p hdir dirs d (w_disk w)"
    and b: "kc_stable_boots (d_kernelcache d) = 0" "kc_stable_threshold (d_kernelcache d) = 3"
    and st: "\<forall>f \<in> set (slot_list (slot_groups dirs)). staged_slot (w_disk w) f"
    and s: "\<forall>n \<in> {1, 2, 3}. storable (good_boots (e_clock en) n d)"
  shows "\<exists>m1 w1 m2 w2 m3 w3.
     BootSuccess en p hdir None dirs w = (Inr m1, w1) \<and> BootSuccess en p hdir None dirs w1 = (Inr m2, w2) \<and>
     BootSuccess en p hdir None dirs w2 = (Inr m3, w3) \<and>
     wal_of p (w_disk w3) = Some (good_boots (e_clock en) 3 d) \<and>
     rf_pending (d_rootfs (good_boots (e_clock en) 3 d)) = [] \<and>
     rf_last_known_good (d_rootfs (good_boots (e_clock en) 3 d)) = rf_pending (d_rootfs d) \<and>
     (\<forall>f \<in> set (slot_list (slot_groups dirs)). promoted (sha256 (e_crypto en)) (w_disk w) f (w_disk w3))"
proof -
  let ?now = "e_clock en" let ?d1 = "snd (RecordGoodBoot ?now True d)" let ?d2 = "snd (RecordGoodBoot ?now True ?d1)"
  let ?d3 = "snd (RecordGoodBoot ?now True ?d2)" and ?S = "insert (boot_state_path dirs) (wal_files p)"
  have g: "good_boots ?now 1 d = ?d1" "good_boots ?now 2 d = ?d2" "good_boots ?now 3 d = ?d3"
    by (simp_all add: good_boots_def numeral_2_eq_2 numeral_3_eq_3)
  have ap: "apart p dirs" and h0: "HasPending d" using c by (simp_all add: candidate_boots_def)
  have n1: "\<not> fst (RecordGoodBoot ?now True d)" "kc_stable_boots (d_kernelcache ?d1) = 1" "kc_stable_threshold (d_kernelcache ?d1) = 3"
    "rf_pending (d_rootfs ?d1) = rf_pending (d_rootfs d)"
    using good_boot_below [OF h0, of ?now] b by simp_all
  have "calm (3 + (14 + k)) w" using calm by simp
  then obtain m1 w1 where 1: "BootSuccess en p hdir None dirs w = (Inr m1, w1)" "calm (14 + k) w1" "wal_of p (w_disk w1) = Some ?d1"
    "same_outside ?S (w_disk w) (w_disk w1)"
    using boot_trial_run [OF _ c n1(1)] s g(1) by fastforce
  have c1: "candidate_boots en p hdir dirs ?d1 (w_disk w1)" using candidate_boots_next [OF c 1(4,3)] b by simp
  then have h1: "HasPending ?d1" by (simp add: candidate_boots_def)
  have n2: "\<not> fst (RecordGoodBoot ?now True ?d1)" "kc_stable_boots (d_kernelcache ?d2) = 2" "kc_stable_threshold (d_kernelcache ?d2) = 3"
    "rf_pending (d_rootfs ?d2) = rf_pending (d_rootfs ?d1)"
    using good_boot_below [OF h1, of ?now] n1 by simp_all
  have "calm (3 + (11 + k)) w1" using 1(2) by simp
  then obtain m2 w2 where 2: "BootSuccess en p hdir None dirs w1 = (Inr m2, w2)" "calm (11 + k) w2" "wal_of p (w_disk w2) = Some ?d2"
    "same_outside ?S (w_disk w1) (w_disk w2)"
    using boot_trial_run [OF _ c1 n2(1)] s g(2) by fastforce
  have c2: "candidate_boots en p hdir dirs ?d2 (w_disk w2)" using candidate_boots_next [OF c1 2(4,3)] n1 by simp
  then have h2: "HasPending ?d2" by (simp add: candidate_boots_def)
  note n3 = good_boot_last [OF h2 n2(2,3), of ?now]
  have so: "same_outside ?S (w_disk w) (w_disk w2)" using same_outside_trans [OF 1(4) 2(4)] .
  have st2: "\<forall>f \<in> set (slot_list (slot_groups dirs)). staged_slot (w_disk w2) f"
    using st staged_slot_same(1) [OF so ap] by blast
  obtain m3 w3 where 3: "BootSuccess en p hdir None dirs w2 = (Inr m3, w3)" "wal_of p (w_disk w3) = Some ?d3"
    "\<forall>f \<in> set (slot_list (slot_groups dirs)). promoted (sha256 (e_crypto en)) (w_disk w2) f (w_disk w3)"
    using boot_promote_run [OF 2(2) c2 n3(1) _ st2] s g(3) by auto
  have "\<forall>f \<in> set (slot_list (slot_groups dirs)). promoted (sha256 (e_crypto en)) (w_disk w) f (w_disk w3)"
    using 3(3) staged_slot_same(2) [OF so ap] by blast
  then show ?thesis using 1(1) 2(1) 3(1,2) n3(2,3) n1(4) n2(4) g(3) by auto
qed

text \<open>C33. An update that works becomes permanent: if the candidate is the system that runs, its
  health checks pass and nothing fails, then the third confirmed boot ends the trial with the
  candidate as the last known good version, every slot file promoted, and the record on the disk
  that a reboot loads.\<close>

theorem three_good_boots_promote:
  assumes "calm (17 + k) w" and "candidate_boots en p healthDir dirs d (w_disk w)"
    and "kc_stable_boots (d_kernelcache d) = 0" and "kc_stable_threshold (d_kernelcache d) = 3"
    and "\<forall>f \<in> set (slot_list (slot_groups dirs)). staged_slot (w_disk w) f"
    and "\<forall>n \<in> {1, 2, 3}. storable (good_boots (e_clock en) n d)"
  shows "\<exists>m1 w1 m2 w2 m3 w3.
     BootSuccess en p healthDir None dirs w = (Inr m1, w1) \<and> BootSuccess en p healthDir None dirs w1 = (Inr m2, w2) \<and>
     BootSuccess en p healthDir None dirs w2 = (Inr m3, w3) \<and>
     wal_of p (w_disk w3) = Some (good_boots (e_clock en) 3 d) \<and>
     rf_pending (d_rootfs (good_boots (e_clock en) 3 d)) = [] \<and>
     rf_last_known_good (d_rootfs (good_boots (e_clock en) 3 d)) = rf_pending (d_rootfs d) \<and>
     (\<forall>f \<in> set (slot_list (slot_groups dirs)). promoted (sha256 (e_crypto en)) (w_disk w) f (w_disk w3))"
  using three_boots [OF assms] .

definition trial_record :: deployment where
  "trial_record = sample_storable\<lparr>d_rootfs := (d_rootfs sample_storable)\<lparr>rf_pending_hash := ''abc''\<rparr>\<rparr>"

definition trial_disk :: disk where
  "trial_disk = put_file [''proc'', ''cmdline''] ''quiet ATOM_ROOT_HASH=abc atom.version=43''
     (put_file sample_path (marshal trial_record) sample_slots)"

lemma trial_record_ok: "storable trial_record" "stored trial_record = trial_record"
  "kc_stable_boots (d_kernelcache trial_record) = 0" "kc_stable_threshold (d_kernelcache trial_record) = 3" "HasPending trial_record"
  "identity_confirmed (parse_cmdline ''quiet ATOM_ROOT_HASH=abc atom.version=43'') trial_record"
  by code_simp+

lemma three_good_boots_promote_witness:
  "\<exists>m1 w1 m2 w2 m3 w3.
     BootSuccess sample_env sample_path [''health''] None sample_dirs ((world_of trial_disk)\<lparr>w_entropy := replicate 17 ''0''\<rparr>) = (Inr m1, w1) \<and>
     BootSuccess sample_env sample_path [''health''] None sample_dirs w1 = (Inr m2, w2) \<and>
     BootSuccess sample_env sample_path [''health''] None sample_dirs w2 = (Inr m3, w3) \<and>
     rf_last_known_good (d_rootfs (good_boots (e_clock sample_env) 3 trial_record)) = ''v43''"
proof -
  let ?w = "(world_of trial_disk)\<lparr>w_entropy := replicate 17 ''0''\<rparr>"
  have nd: "sample_path \<notin> dot_names" "[''proc'', ''cmdline''] \<notin> dot_names"
    by (simp_all add: sample_path_def dot_names_def has_prefix_def)
  then have "clean trial_disk" unfolding trial_disk_def by (intro clean_put_file clean_sample_slots)
  then have calm: "calm (17 + 0) ?w" by (simp add: calm_def world_of_def)
  have fd: "file_data trial_disk q = (if q = [''proc'', ''cmdline''] then Some ''quiet ATOM_ROOT_HASH=abc atom.version=43''
      else if q = sample_path then Some (marshal trial_record) else file_data sample_slots q)" for q
    by (simp add: trial_disk_def file_data_put_file wf_sample_slots)
  have w: "wal_of sample_path trial_disk = Some trial_record"
    using trial_record_ok(1,2) by (simp add: wal_of_def wal_at_def fd unmarshal_marshal sample_path_def)
  have c: "candidate_boots sample_env sample_path [''health''] sample_dirs trial_record (w_disk ?w)"
    using apart_sample w trial_record_ok fd [of "[''proc'', ''cmdline'']"]
    by (simp add: candidate_boots_def RunHealthChecks_def sample_env_def boot_state_path_def sample_dirs_def path_join_def wal_files_def
        sample_path_def path_suffix_def BakSuffix_def)
  have st: "\<forall>f \<in> set (slot_list (slot_groups sample_dirs)). staged_slot (w_disk ?w) f"
    using sample_slots_staged by (auto simp: staged_slot_def fd sample_path_def sample_dirs_def slot_list_def slot_groups_def slot_file_def path_join_def)
  have s: "\<forall>n \<in> {1, 2, 3}. storable (good_boots (e_clock sample_env) n trial_record)" by code_simp
  have "rf_pending (d_rootfs trial_record) = ''v43''" by code_simp
  then show ?thesis
    using three_good_boots_promote [OF calm c trial_record_ok(3,4) st s] by metis
qed

end
