(* ===== verification/LoaderSafe.thy ===== *)
theory LoaderSafe
  imports Loader StageSafe
begin

section \<open>What may replace the boot loader\<close>

text \<open>
  What internal/otad/loader.go may do to the boot loader of the machine: staging never touches it
  and arms a trial only for a signed image of the announced version; it is replaced only by an image
  that ran and is still the one that was staged, or, by the repair, by a signed image.
\<close>

subsection \<open>Reading the markers\<close>

definition candidate_path :: "stage_dirs \<Rightarrow> path" where
  "candidate_path dirs = path_join (sd_esp dirs) loaderCandidateFile"

definition marker_of :: "string option \<Rightarrow> int" where
  "marker_of s = (case s of None \<Rightarrow> 0 | Some t \<Rightarrow> atoi_value (key_value (parse_keys t) ''version''))"

lemma atoi_value_Nil [simp]: "atoi_value [] = 0"
  by (simp add: atoi_value_def atoi_def)

lemma key_value_none [simp]: "key_value (\<lambda>_. None) k = []"
  by (simp add: key_value_def)

lemma quietly_marks [simp]: "quietly (readKeyFile p)" "quietly (markerVersion p)"
  "quietly (fileLoaderVersion p)" "quietly (InstalledLoaderVersion dirs)"
  by (auto simp: readKeyFile_def markerVersion_def fileLoaderVersion_def InstalledLoaderVersion_def intro!: quietly_intros)

lemma gives_readKeyFile:
  "gives (readKeyFile p) (\<lambda>m _. m = (\<lambda>_. None) \<or> (\<exists>s. file_data (w_disk w) p = Some s \<and> m = parse_keys s)) w"
  by (rule gives_wp) (auto simp: readKeyFile_def wp_simps sys_defs file_data_def split: option.splits)

lemma gives_markerVersion:
  "gives (markerVersion p) (\<lambda>v _. v = 0 \<or> v = marker_of (file_data (w_disk w) p)) w"
  unfolding markerVersion_def
  by (rule gives_seqE [OF gives_readKeyFile]) (auto simp: marker_of_def intro!: gives_ret)

lemma gives_fileLoaderVersion:
  "gives (fileLoaderVersion p) (\<lambda>v _. v = 0 \<or> (\<exists>s. file_data (w_disk w) p = Some s \<and> v = LoaderVersionOf s)) w"
  by (rule gives_wp) (auto simp: fileLoaderVersion_def wp_simps sys_defs file_data_def split: option.splits)

lemma gives_read_file:
  "gives (read_file p) (\<lambda>s _. file_data (w_disk w) p = Some s) w"
  by (rule gives_wp) (auto simp: wp_simps sys_defs file_data_def split: option.splits)

subsection \<open>Installing\<close>

lemma boot_path_distinct [simp]:
  "path_join e n = loaderBootPath dirs \<longleftrightarrow> n = ''BOOTX64.EFI'' \<and> e = path_join (path_dir (sd_esp dirs)) ''BOOT''"
  "loaderBootPath dirs = path_join e n \<longleftrightarrow> n = ''BOOTX64.EFI'' \<and> e = path_join (path_dir (sd_esp dirs)) ''BOOT''"
  "loaderBootPath dirs \<notin> dot_names" "loaderBootPath dirs \<notin> in_place"
  unfolding loaderBootPath_def
     apply (auto simp: in_place_def has_prefix_def path_join_def has_suffix_def)[4]
  by (auto simp: dot_names_def path_join_def has_prefix_def)

lemma holds_copyFileSync:
  assumes u: "unshared (w_disk w)" and dst: "dst \<notin> dot_names" "dst \<notin> in_place"
  shows "holds (\<lambda>h. same_outside ({dst} \<union> dot_names) (w_disk w) h \<and> file_data h dst \<in> {file_data (w_disk w) dst, file_data (w_disk w) src})
     (copyFileSync src dst) (\<lambda>_ w'. file_data (w_disk w') dst = file_data (w_disk w) src \<and> file_data (w_disk w) src \<noteq> None) w"
  unfolding holds_def
proof (rule wp_mono [OF wp_conj [OF wp_copyFileSync [OF unshared_wf [OF u] dst(1)] confinedD [OF confined_copyFileSync [OF dst] u]]])
  fix r :: "error + unit" and w' :: world
  assume a: "(evolves (slot_copied src dst (w_disk w)) w w' \<and>
      (r = Inr () \<longrightarrow> file_data (w_disk w') dst = file_data (w_disk w) src \<and> file_data (w_disk w) src \<noteq> None)) \<and>
      unshared (w_disk w') \<and> evolves (same_outside ({dst} \<union> dot_names) (w_disk w)) w w'"
  have ev: "evolves (slot_copied src dst (w_disk w)) w w'" using a by blast
  have "evolves (\<lambda>h. same_outside ({dst} \<union> dot_names) (w_disk w) h \<and> file_data h dst \<in> {file_data (w_disk w) dst, file_data (w_disk w) src}) w w'"
    by (rule evolves_mono [OF ev]) (auto simp: slot_copied_def)
  with a show "unshared (w_disk w') \<and>
      evolves (\<lambda>h. same_outside ({dst} \<union> dot_names) (w_disk w) h \<and> file_data h dst \<in> {file_data (w_disk w) dst, file_data (w_disk w) src}) w w' \<and>
      (\<forall>x. r = Inr x \<longrightarrow> file_data (w_disk w') dst = file_data (w_disk w) src \<and> file_data (w_disk w) src \<noteq> None)" by auto
qed

lemma same_file_data: "same_outside S d h \<Longrightarrow> p \<notin> S \<Longrightarrow> file_data h p = file_data d p"
  by (simp add: file_data_def same_outside_def)

lemma loader_prev_plain: "path_join e loaderPrevFile \<notin> dot_names" "path_join e loaderPrevFile \<notin> in_place"
  by (simp add: loaderPrevFile_def dot_names_join_iff has_prefix_def)
    (simp add: loaderPrevFile_def in_place_def path_join_def has_prefix_def has_suffix_def)

text \<open>Keeping the old loader touches neither the loader nor the image that is installed.\<close>

lemma holds_installLoaderImage:
  assumes u: "unshared (w_disk w)" and src: "src \<notin> dot_names" "src \<noteq> path_join (sd_esp dirs) loaderPrevFile"
  shows "holds (\<lambda>h. file_data h (loaderBootPath dirs) \<in> {file_data (w_disk w) (loaderBootPath dirs), file_data (w_disk w) src})
     (installLoaderImage dirs src)
     (\<lambda>_ w'. file_data (w_disk w') (loaderBootPath dirs) = file_data (w_disk w) src) w"
proof -
  let ?b = "loaderBootPath dirs" and ?p = "path_join (sd_esp dirs) loaderPrevFile" and ?d = "w_disk w"
  let ?P = "\<lambda>h. file_data h ?b \<in> {file_data ?d ?b, file_data ?d src}"
  have pp: "?p \<notin> dot_names" "?p \<notin> in_place" by (rule loader_prev_plain)+
  have same: "file_data h ?b = file_data ?d ?b \<and> file_data h src = file_data ?d src" if "same_outside (insert ?p dot_names) ?d h" for h
    by (intro conjI same_file_data [OF that]) (use src in \<open>auto simp: loaderPrevFile_def\<close>)
  have keep: "holds ?P (case r of Inr _ \<Rightarrow> wrapE ''loader: keep previous'' (copyFileSync ?b ?p) | Inl e \<Rightarrow> ret ())
      (\<lambda>_ w'. file_data (w_disk w') ?b = file_data ?d ?b \<and> file_data (w_disk w') src = file_data ?d src) w1"
    if "w_disk w1 = ?d" "unshared (w_disk w1)" for r :: "error + nat \<times> nat" and w1
  proof (cases r)
    case (Inr x)
    show ?thesis
      unfolding Inr sum.case
      by (rule holds_mono [OF holds_wrapE [OF holds_confined [OF confined_copyFileSync [OF pp] that(2)]]])
        (use that(1) in \<open>auto dest!: same\<close>)
  qed (use that in \<open>auto intro: holds_ret\<close>)
  have st: "wp (stat ?b) (\<lambda>r w'. unshared (w_disk w') \<and> evolves ?P w w' \<and> w_disk w' = ?d) w"
    by (rule wp_mono [OF quietlyD [of "stat ?b"]]) (use u in \<open>auto simp: quiet_def evolves_def\<close>)
  have put: "holds ?P (copyFileSync src ?b) (\<lambda>_ w'. file_data (w_disk w') ?b = file_data ?d src) w1"
    if "file_data (w_disk w1) ?b = file_data ?d ?b \<and> file_data (w_disk w1) src = file_data ?d src" "unshared (w_disk w1)" for w1
    by (rule holds_mono [OF holds_weaken [OF holds_copyFileSync [OF that(2)]]]) (use that(1) in auto)
  have mk: "holds ?P (seqE (mkdir_all (path_dir ?b)) (\<lambda>_. seqE (wrapE ''loader: install'' (copyFileSync src ?b)) (\<lambda>_. sync_all)))
      (\<lambda>_ w'. file_data (w_disk w') ?b = file_data ?d src) w1"
    if "file_data (w_disk w1) ?b = file_data ?d ?b \<and> file_data (w_disk w1) src = file_data ?d src" "unshared (w_disk w1)" "?P (w_disk w1)" for w1
    by (rule holds_seqE [OF holds_quietly_any [where P = ?P, OF quietly_reading(5) that(2,3)]],
        rule holds_seqE [OF holds_wrapE [OF put]]) (use that in \<open>auto simp: sync_all_def intro: holds_ret\<close>)
  show ?thesis
    unfolding installLoaderImage_def Let_def
    by (rule holds_seqE [OF holds_trying [OF st keep] mk]) auto
qed

subsection \<open>The verdict on a candidate\<close>

text \<open>\<open>tested_loader\<close>: on this disk the markers name the version of a candidate that ran, and the
  image is the one whose digest was recorded when it was staged.\<close>

definition tested_loader :: "crypto \<Rightarrow> stage_dirs \<Rightarrow> disk \<Rightarrow> string \<Rightarrow> bool" where
  "tested_loader cr dirs d img \<longleftrightarrow> (\<exists>c.
     file_data d (candidate_path dirs) = Some c \<and> marker_of (Some c) \<noteq> 0 \<and>
     marker_of (file_data d (path_join (sd_esp dirs) loaderRanFile)) = marker_of (Some c) \<and>
     file_data d (loader_image dirs) = Some img \<and>
     equal_fold (hex_encode (sha256 cr img)) (key_value (parse_keys c) ''sha256''))"

definition loader_kept_or_tested :: "crypto \<Rightarrow> stage_dirs \<Rightarrow> disk \<Rightarrow> disk \<Rightarrow> bool" where
  "loader_kept_or_tested cr dirs d h \<longleftrightarrow>
     file_data h (loaderBootPath dirs) = file_data d (loaderBootPath dirs) \<or>
     (\<exists>img. tested_loader cr dirs d img \<and> file_data h (loaderBootPath dirs) = Some img)"

lemma confined_writeMarker: "p \<in> in_place \<Longrightarrow> confined {p} (writeMarker p ls)"
  unfolding writeMarker_def by (rule confined_seqE [OF confined_write_file]) (auto intro: confined_quietly)

lemma loader_marks_in_place:
  "path_join e loaderCandidateFile \<in> in_place" "path_join e loaderRanFile \<in> in_place" "path_join e loaderFailedFile \<in> in_place"
  by (simp_all add: in_place_def path_join_def loaderCandidateFile_def loaderRanFile_def loaderFailedFile_def has_prefix_def)

lemma holds_judge_loader:
  assumes u: "unshared (w_disk w)" and c: "file_data (w_disk w) (candidate_path dirs) = Some c" "version = marker_of (Some c)" "version \<noteq> 0"
  shows "holds (loader_kept_or_tested cr dirs (w_disk w)) (judge_loader cr dirs version (key_value (parse_keys c) ''sha256'')) (\<lambda>_ _. True) w"
  unfolding judge_loader_def
proof (rule holds_seqE [OF holds_quietly [OF quietly_marks(2) u _ gives_markerVersion]])
  let ?d = "w_disk w" and ?P = "loader_kept_or_tested cr dirs (w_disk w)" and ?f = "path_join (sd_esp dirs) loaderFailedFile"
  have kept: "?P h" if "file_data h (loaderBootPath dirs) = file_data ?d (loaderBootPath dirs)" for h
    using that by (simp add: loader_kept_or_tested_def)
  show "?P ?d" by (simp add: kept)
  fix ran and w1 :: world
  assume 1: "w_disk w1 = ?d \<and> (ran = 0 \<or> ran = marker_of (file_data ?d (path_join (sd_esp dirs) loaderRanFile)))"
    and u1: "unshared (w_disk w1)" and P1: "?P (w_disk w1)"
  have failed: "holds ?P (writeMarker ?f [''version='' @ itoa version]) (\<lambda>_ _. True) w1"
    by (rule holds_mono [OF holds_confined [OF confined_writeMarker [OF loader_marks_in_place(3)] u1]])
      (use 1 in \<open>auto intro!: kept same_file_data simp: loaderFailedFile_def\<close>)
  have install: "holds ?P (seqE (installLoaderImage dirs (loader_image dirs)) (\<lambda>_.
              seqE (ignoring (remove ?f)) (\<lambda>_. ret (''loader: version '' @ itoa version @ '' started this boot and is now installed''))))
       (\<lambda>_ _. True) w2"
    if img: "w_disk w2 = ?d" "file_data ?d (loader_image dirs) = Some img" "unshared (w_disk w2)"
      "ran = version" "equal_fold (hex_encode (sha256 cr img)) (key_value (parse_keys c) ''sha256'')" for w2 img
  proof -
    have t: "tested_loader cr dirs ?d img"
      using img(2,4,5) 1 c unfolding tested_loader_def by auto
    have src: "loader_image dirs \<notin> dot_names" "loader_image dirs \<noteq> path_join (sd_esp dirs) loaderPrevFile"
      by (simp_all add: loader_image_def dot_names_join_iff has_prefix_def loaderPrevFile_def)
    have ins: "holds ?P (installLoaderImage dirs (loader_image dirs)) (\<lambda>_ _. True) w2"
      by (rule holds_mono [OF holds_weaken [OF holds_installLoaderImage [OF img(3) src]]])
        (use t img(1,2) in \<open>auto simp: loader_kept_or_tested_def\<close>)
    have rm: "holds ?P (ignoring (remove ?f)) (\<lambda>_ _. True) w3" if "unshared (w_disk w3)" "?P (w_disk w3)" for w3
      by (rule holds_mono [OF holds_confined [OF confined_ignoring [OF confined_remove [of ?f "{?f}"]] that(1)]])
        (use that(2) same_file_data in \<open>auto simp: loader_kept_or_tested_def loaderFailedFile_def\<close>)
    show ?thesis
      by (rule holds_seqE [OF ins], rule holds_seqE [OF rm]) (auto intro: holds_ret)
  qed
  show "holds ?P (if ran \<noteq> version
       then seqE (writeMarker ?f [''version='' @ itoa version]) (\<lambda>_.
            ret (''loader: version '' @ itoa version @ '' did not start, the previous loader stays''))
       else seqE (wrapE ''loader: candidate image missing'' (read_file (loader_image dirs))) (\<lambda>img.
         if \<not> equal_fold (hex_encode (sha256 cr img)) (key_value (parse_keys c) ''sha256'')
         then throw (Errorf ''loader: candidate image changed since it was staged, not installing'')
         else seqE (installLoaderImage dirs (loader_image dirs)) (\<lambda>_.
              seqE (ignoring (remove ?f)) (\<lambda>_.
              ret (''loader: version '' @ itoa version @ '' started this boot and is now installed''))))) (\<lambda>_ _. True) w1"
  proof (cases "ran = version")
    case False
    have "holds ?P (seqE (writeMarker ?f [''version='' @ itoa version]) (\<lambda>_.
            ret (''loader: version '' @ itoa version @ '' did not start, the previous loader stays''))) (\<lambda>_ _. True) w1"
      by (rule holds_seqE [OF failed]) (auto intro: holds_ret)
    with False show ?thesis by simp
  next
    case True
    have "holds ?P (seqE (wrapE ''loader: candidate image missing'' (read_file (loader_image dirs))) (\<lambda>img.
         if \<not> equal_fold (hex_encode (sha256 cr img)) (key_value (parse_keys c) ''sha256'')
         then throw (Errorf ''loader: candidate image changed since it was staged, not installing'')
         else seqE (installLoaderImage dirs (loader_image dirs)) (\<lambda>_.
              seqE (ignoring (remove ?f)) (\<lambda>_.
              ret (''loader: version '' @ itoa version @ '' started this boot and is now installed''))))) (\<lambda>_ _. True) w1"
    proof (rule holds_seqE [OF holds_wrapE [OF holds_quietly [where P = ?P, OF quietly_reading(1) u1 P1 gives_read_file]]])
      fix img and w2 :: world
      assume 2: "w_disk w2 = w_disk w1 \<and> file_data (w_disk w1) (loader_image dirs) = Some img"
        and u2: "unshared (w_disk w2)" and P2: "?P (w_disk w2)"
      show "holds ?P (if \<not> equal_fold (hex_encode (sha256 cr img)) (key_value (parse_keys c) ''sha256'')
         then throw (Errorf ''loader: candidate image changed since it was staged, not installing'')
         else seqE (installLoaderImage dirs (loader_image dirs)) (\<lambda>_.
              seqE (ignoring (remove ?f)) (\<lambda>_.
              ret (''loader: version '' @ itoa version @ '' started this boot and is now installed'')))) (\<lambda>_ _. True) w2"
        using install [OF _ _ u2 True] 1 2 P2 u2
        by (cases "equal_fold (hex_encode (sha256 cr img)) (key_value (parse_keys c) ''sha256'')") simp_all
    qed
    with True show ?thesis by simp
  qed
qed

lemma holds_HandleLoaderCandidate:
  assumes u: "unshared (w_disk w)"
  shows "holds (loader_kept_or_tested cr dirs (w_disk w)) (HandleLoaderCandidate cr dirs) (\<lambda>_ _. True) w"
proof (cases "sd_esp dirs = []")
  case False
  let ?P = "loader_kept_or_tested cr dirs (w_disk w)"
  have P0: "?P (w_disk w)" by (simp add: loader_kept_or_tested_def)
  have cl: "holds ?P (cancelLoaderCandidate dirs) (\<lambda>_ _. True) w1" if "unshared (w_disk w1)" "?P (w_disk w1)" for w1
  proof (rule holds_mono [OF holds_confined [OF confined_cancelLoaderCandidate that(1)]])
    fix h assume "same_outside (loader_marks dirs) (w_disk w1) h"
    then have "file_data h (loaderBootPath dirs) = file_data (w_disk w1) (loaderBootPath dirs)"
      by (rule same_file_data) (auto simp: loader_marks_def loaderCandidateFile_def loaderRanFile_def)
    then show "?P h" using that(2) by (simp add: loader_kept_or_tested_def)
  qed simp
  have body: "holds ?P (let version = atoi_value (key_value cand ''version'') in
        if version = 0 then ret []
        else deferred (judge_loader cr dirs version (key_value cand ''sha256'')) (cancelLoaderCandidate dirs)) (\<lambda>_ _. True) w1"
    if c: "w_disk w1 = w_disk w \<and> (cand = (\<lambda>_. None) \<or> (\<exists>s. file_data (w_disk w) (path_join (sd_esp dirs) loaderCandidateFile) = Some s \<and> cand = parse_keys s))"
      and u1: "unshared (w_disk w1)" for cand w1
  proof (cases "atoi_value (key_value cand ''version'') = 0")
    case True
    then show ?thesis using u1 P0 c by (simp add: holds_ret)
  next
    case False
    then obtain s where s: "file_data (w_disk w1) (candidate_path dirs) = Some s" "cand = parse_keys s"
      using c by (auto simp: candidate_path_def)
    have j: "holds ?P (judge_loader cr dirs (atoi_value (key_value cand ''version'')) (key_value cand ''sha256'')) (\<lambda>_ _. True) w1"
      using holds_judge_loader [OF u1 s(1), of "atoi_value (key_value cand ''version'')" cr] False s(2) c
      by (simp add: marker_of_def)
    with False show ?thesis by (simp add: holds_deferred [OF j cl])
  qed
  show ?thesis
    unfolding HandleLoaderCandidate_def if_not_P [OF False]
    by (rule holds_seqE [OF holds_quietly [where P = ?P, OF quietly_marks(1) u P0 gives_readKeyFile] body]) auto
qed (use u in \<open>simp add: HandleLoaderCandidate_def holds_ret loader_kept_or_tested_def\<close>)

subsection \<open>Staging a loader\<close>

definition loader_sig :: "stage_dirs \<Rightarrow> path" where
  "loader_sig dirs = path_suffix (loader_image dirs) ''.sig''"

text \<open>The image in the candidate slot is signed, has the digest and the version of an authentic
  manifest, and the marker names exactly this image.\<close>

definition signed_image :: "env \<Rightarrow> string \<Rightarrow> stage_dirs \<Rightarrow> verified_manifest \<Rightarrow> string \<Rightarrow> disk \<Rightarrow> bool" where
  "signed_image en rootPub dirs vm img h \<longleftrightarrow> (\<exists>sg pub v.
     file_data h (loader_image dirs) = Some img \<and> file_data h (loader_sig dirs) = Some sg \<and>
     hex_decode (m_loader_hash (vm_manifest vm)) = Some (sha256 (e_crypto en) img) \<and>
     LoaderVersionOf img = m_loader_version (vm_manifest vm) \<and>
     vouched (e_crypto en) rootPub (e_now en 1) (vm_cert vm) (vm_cert_sig vm) pub v \<and> Verify (e_crypto en) img sg pub)"

definition loader_marker_text :: "env \<Rightarrow> int \<Rightarrow> string \<Rightarrow> string" where
  "loader_marker_text en version img =
     marker_text [''version='' @ itoa version, ''sha256='' @ hex_encode (sha256 (e_crypto en) img)]"

definition signed_candidate :: "env \<Rightarrow> string \<Rightarrow> string \<Rightarrow> stage_dirs \<Rightarrow> disk \<Rightarrow> bool" where
  "signed_candidate en revocationURL rootPub dirs h \<longleftrightarrow> (\<exists>vm img.
     authentic en revocationURL rootPub [] vm \<and> 1 \<le> m_loader_version (vm_manifest vm) \<and>
     signed_image en rootPub dirs vm img h \<and>
     file_data h (candidate_path dirs) = Some (loader_marker_text en (m_loader_version (vm_manifest vm)) img))"

definition loader_files :: "stage_dirs \<Rightarrow> path set" where
  "loader_files dirs = {loader_image dirs, path_suffix (loader_image dirs) ''.tmp'', loader_sig dirs, path_suffix (loader_sig dirs) ''.tmp'',
     candidate_path dirs, path_join (sd_esp dirs) loaderRanFile, boot_state_path dirs} \<union> dot_names \<union> temp_area"

definition loader_staging :: "env \<Rightarrow> string \<Rightarrow> string \<Rightarrow> stage_dirs \<Rightarrow> disk \<Rightarrow> disk \<Rightarrow> bool" where
  "loader_staging en revocationURL rootPub dirs d h \<longleftrightarrow> same_outside (loader_files dirs) d h \<and>
     (file_data h (candidate_path dirs) \<in> {file_data d (candidate_path dirs), Some []} \<or>
      signed_candidate en revocationURL rootPub dirs h)"

lemma plain_loader_image: "plain_path (loader_image dirs)" "plain_path (loader_sig dirs)"
  by (auto simp: loader_image_def loader_sig_def intro!: plain_join)

lemma gives_fetch_loader:
  assumes u: "unshared (w_disk w)"
  shows "gives (fetch_loader en rootPub dirs vm) (\<lambda>img w'. 1 \<le> m_loader_version (vm_manifest vm) \<longrightarrow> signed_image en rootPub dirs vm img (w_disk w')) w"
  unfolding fetch_loader_def Let_def loader_sig_def [symmetric]
proof (rule gives_seqE [OF gives_confined [OF confined_FetchTo [OF plain_loader_image(1)] u]])
  let ?k = "loader_image dirs" and ?s = "loader_sig dirs" and ?cr = "e_crypto en" and ?m = "vm_manifest vm"
  let ?G = "\<lambda>img w'. 1 \<le> m_loader_version ?m \<longrightarrow> signed_image en rootPub dirs vm img (w_disk w')"
  let ?K = "\<lambda>h. \<exists>img. file_data h ?k = Some img \<and> hex_decode (m_loader_hash ?m) = Some (sha256 ?cr img) \<and>
      (1 \<le> m_loader_version ?m \<longrightarrow> LoaderVersionOf img = m_loader_version ?m)"
  have ks: "?k \<notin> {?s, path_suffix ?s ''.tmp''}" by (simp add: loader_image_def loader_sig_def)
  have last: "gives (seqE (read_file ?k) (\<lambda>img. seqE (read_file ?s) (\<lambda>sg.
      seqE (wrapE ''loader'' (lift_err (VerifyCert ?cr (vm_cert vm) (vm_cert_sig vm) rootPub (e_now en 1)))) (\<lambda>(signingPub, _).
      if \<not> Verify ?cr img sg signingPub then or_remove [?k, ?s] (throw (Errorf ''loader: signature invalid, refusing'')) else ret img)))) ?G w1"
    if K: "?K (w_disk w1)" for w1
  proof (rule gives_seqE [OF gives_conj [OF gives_read_file gives_quietly [OF quietly_reading(1)]]],
      rule gives_seqE [OF gives_conj [OF gives_read_file gives_quietly [OF quietly_reading(1)]]])
    fix img sg and w2 w3 :: world
    assume 2: "file_data (w_disk w1) ?k = Some img \<and> w_disk w2 = w_disk w1"
      and 3: "file_data (w_disk w2) ?s = Some sg \<and> w_disk w3 = w_disk w2"
    have vc: "gives (wrapE ''loader'' (lift_err (VerifyCert ?cr (vm_cert vm) (vm_cert_sig vm) rootPub (e_now en 1))))
       (\<lambda>(pub, v) w'. vouched ?cr rootPub (e_now en 1) (vm_cert vm) (vm_cert_sig vm) pub v \<and> w_disk w' = w_disk w3) w3"
      by (auto intro!: gives_wrapE gives_lift_err simp: VerifyCert_iff)
    show "gives (seqE (wrapE ''loader'' (lift_err (VerifyCert ?cr (vm_cert vm) (vm_cert_sig vm) rootPub (e_now en 1)))) (\<lambda>(signingPub, _).
      if \<not> Verify ?cr img sg signingPub then or_remove [?k, ?s] (throw (Errorf ''loader: signature invalid, refusing'')) else ret img)) ?G w3"
      by (rule gives_seqE [OF vc]) (use 2 3 K in \<open>auto simp: signed_image_def intro!: gives_ret gives_or_remove; blast\<close>)
  qed
  have sigs: "gives (seqE (or_remove [?k] (FetchTo (e_net en) (m_loader_sig_url ?m) ?s)) (\<lambda>_.
      seqE (or_remove [?k, ?s] (VerifySHA256 ?cr ?s (m_loader_sig_hash ?m))) (\<lambda>_.
      seqE (read_file ?k) (\<lambda>img. seqE (read_file ?s) (\<lambda>sg.
      seqE (wrapE ''loader'' (lift_err (VerifyCert ?cr (vm_cert vm) (vm_cert_sig vm) rootPub (e_now en 1)))) (\<lambda>(signingPub, _).
      if \<not> Verify ?cr img sg signingPub then or_remove [?k, ?s] (throw (Errorf ''loader: signature invalid, refusing'')) else ret img)))))) ?G w1"
    if K: "?K (w_disk w1)" and u1: "unshared (w_disk w1)" for w1
  proof (rule gives_seqE [OF gives_or_remove [OF gives_confined [OF confined_FetchTo [OF plain_loader_image(2)] u1]]])
    fix x and w2 :: world
    assume 2: "unshared (w_disk w2) \<and> same_outside {?s, path_suffix ?s ''.tmp''} (w_disk w1) (w_disk w2)"
    then have K2: "?K (w_disk w2)" using K same_file_data [OF _ ks] by auto
    show "gives (seqE (or_remove [?k, ?s] (VerifySHA256 ?cr ?s (m_loader_sig_hash ?m))) (\<lambda>_.
      seqE (read_file ?k) (\<lambda>img. seqE (read_file ?s) (\<lambda>sg.
      seqE (wrapE ''loader'' (lift_err (VerifyCert ?cr (vm_cert vm) (vm_cert_sig vm) rootPub (e_now en 1)))) (\<lambda>(signingPub, _).
      if \<not> Verify ?cr img sg signingPub then or_remove [?k, ?s] (throw (Errorf ''loader: signature invalid, refusing'')) else ret img))))) ?G w2"
      by (rule gives_seqE [OF gives_or_remove [OF gives_VerifySHA256]], use 2 in blast, rule last) (use K2 in simp)
  qed
  fix x and w1 :: world
  assume 1: "unshared (w_disk w1) \<and> same_outside {?k, path_suffix ?k ''.tmp''} (w_disk w) (w_disk w1)"
  show "gives (seqE (or_remove [?k] (VerifySHA256 ?cr ?k (m_loader_hash ?m))) (\<lambda>_.
      seqE (fileLoaderVersion ?k) (\<lambda>got.
      seqE (if got \<noteq> m_loader_version ?m then or_remove [?k] (throw (Errorf ''loader: image reports another version than the manifest'')) else ret ()) (\<lambda>_.
      seqE (or_remove [?k] (FetchTo (e_net en) (m_loader_sig_url ?m) ?s)) (\<lambda>_.
      seqE (or_remove [?k, ?s] (VerifySHA256 ?cr ?s (m_loader_sig_hash ?m))) (\<lambda>_.
      seqE (read_file ?k) (\<lambda>img. seqE (read_file ?s) (\<lambda>sg.
      seqE (wrapE ''loader'' (lift_err (VerifyCert ?cr (vm_cert vm) (vm_cert_sig vm) rootPub (e_now en 1)))) (\<lambda>(signingPub, _).
      if \<not> Verify ?cr img sg signingPub then or_remove [?k, ?s] (throw (Errorf ''loader: signature invalid, refusing'')) else ret img))))))))) ?G w1"
  proof (rule gives_seqE [OF gives_or_remove [OF gives_VerifySHA256]], use 1 in blast,
      rule gives_seqE [OF gives_conj [OF gives_fileLoaderVersion gives_quietly [OF quietly_marks(3)]]])
    fix got and w2 w3 :: world
    assume 2: "unshared (w_disk w2) \<and> w_disk w2 = w_disk w1 \<and> digest_ok ?cr (w_disk w2) ?k (m_loader_hash ?m)"
      and 3: "(got = 0 \<or> (\<exists>s. file_data (w_disk w2) ?k = Some s \<and> got = LoaderVersionOf s)) \<and> w_disk w3 = w_disk w2"
    have chk: "gives (if got \<noteq> m_loader_version ?m then or_remove [?k] (throw (Errorf ''loader: image reports another version than the manifest'')) else ret ())
        (\<lambda>_ w'. w_disk w' = w_disk w3 \<and> ?K (w_disk w')) w3"
    proof (cases "got = m_loader_version ?m")
      case True
      obtain s where s: "file_data (w_disk w3) ?k = Some s" "hex_decode (m_loader_hash ?m) = Some (sha256 ?cr s)"
        using 2 3 by (auto simp: digest_ok_def)
      have "1 \<le> m_loader_version ?m \<longrightarrow> LoaderVersionOf s = m_loader_version ?m" using 3 True s(1) by auto
      then show ?thesis using True s by (auto intro!: gives_ret)
    qed (auto intro!: gives_or_remove)
    show "gives (seqE (if got \<noteq> m_loader_version ?m then or_remove [?k] (throw (Errorf ''loader: image reports another version than the manifest'')) else ret ()) (\<lambda>_.
      seqE (or_remove [?k] (FetchTo (e_net en) (m_loader_sig_url ?m) ?s)) (\<lambda>_.
      seqE (or_remove [?k, ?s] (VerifySHA256 ?cr ?s (m_loader_sig_hash ?m))) (\<lambda>_.
      seqE (read_file ?k) (\<lambda>img. seqE (read_file ?s) (\<lambda>sg.
      seqE (wrapE ''loader'' (lift_err (VerifyCert ?cr (vm_cert vm) (vm_cert_sig vm) rootPub (e_now en 1)))) (\<lambda>(signingPub, _).
      if \<not> Verify ?cr img sg signingPub then or_remove [?k, ?s] (throw (Errorf ''loader: signature invalid, refusing'')) else ret img))))))) ?G w3"
      by (rule gives_seqE [OF chk sigs]) (use 2 3 in auto)
  qed
qed

lemma candidate_fresh [simp]:
  "candidate_path dirs \<noteq> loader_image dirs" "candidate_path dirs \<noteq> loader_sig dirs" "candidate_path dirs \<noteq> boot_state_path dirs"
  "candidate_path dirs \<noteq> path_suffix (loader_image dirs) t" "candidate_path dirs \<noteq> path_suffix (loader_sig dirs) t"
  "candidate_path dirs \<noteq> path_join (sd_esp dirs) loaderRanFile" "candidate_path dirs \<notin> dot_names"
  "loader_image dirs \<notin> dot_names" "loader_sig dirs \<notin> dot_names" "loader_image dirs \<noteq> boot_state_path dirs"
  "loader_sig dirs \<noteq> boot_state_path dirs" "loader_image dirs \<noteq> path_join (sd_esp dirs) loaderRanFile"
  "loader_sig dirs \<noteq> path_join (sd_esp dirs) loaderRanFile"
  by (simp_all add: candidate_path_def loader_image_def loader_sig_def boot_state_path_def loaderCandidateFile_def loaderRanFile_def
      dot_names_join_iff has_prefix_def)

lemma signed_image_cong:
  assumes "file_data h (loader_image dirs) = file_data d (loader_image dirs)" and "file_data h (loader_sig dirs) = file_data d (loader_sig dirs)"
  shows "signed_image en rp dirs vm img h = signed_image en rp dirs vm img d"
  using assms by (simp add: signed_image_def)

text \<open>From the moment the marker is written, the rest of the run leaves it and the image alone.\<close>

lemma loader_staging_same:
  assumes P: "loader_staging en rv rp dirs d h" and so: "same_outside S h h'"
    and S: "S \<subseteq> loader_files dirs" "S \<inter> {loader_image dirs, loader_sig dirs, candidate_path dirs} = {}"
  shows "loader_staging en rv rp dirs d h'"
proof -
  have f: "file_data h' q = file_data h q" if "q \<in> {loader_image dirs, loader_sig dirs, candidate_path dirs}" for q
    by (rule same_file_data [OF so]) (use S(2) that in blast)
  have "same_outside (loader_files dirs) d h'"
    using P so S(1) same_outside_trans same_outside_mono unfolding loader_staging_def by blast
  moreover have "signed_candidate en rv rp dirs h' = signed_candidate en rv rp dirs h"
    unfolding signed_candidate_def using f by (simp add: signed_image_def)
  ultimately show ?thesis using P f unfolding loader_staging_def by simp
qed

text \<open>Before that, only the marker must stay.\<close>

lemma loader_staging_before:
  assumes "same_outside (loader_files dirs) d h" and "file_data h (candidate_path dirs) = file_data d (candidate_path dirs)"
    and "same_outside S h h'" and "S \<subseteq> loader_files dirs" and "candidate_path dirs \<notin> S"
  shows "loader_staging en rv rp dirs d h' \<and> same_outside (loader_files dirs) d h' \<and>
    file_data h' (candidate_path dirs) = file_data d (candidate_path dirs)"
  using assms same_file_data [OF assms(3,5)] same_outside_trans [OF assms(1) same_outside_mono [OF assms(3,4)]]
  by (simp add: loader_staging_def)

definition unmarked :: "stage_dirs \<Rightarrow> disk \<Rightarrow> disk \<Rightarrow> bool" where
  "unmarked dirs d h \<longleftrightarrow> same_outside (loader_files dirs) d h \<and> file_data h (candidate_path dirs) = file_data d (candidate_path dirs)"

lemma holds_unmarked:
  assumes c: "confined S m" and u: "unshared (w_disk w)" and b: "unmarked dirs d (w_disk w)"
    and S: "S \<subseteq> loader_files dirs" "candidate_path dirs \<notin> S" and g: "gives m R w"
  shows "holds (loader_staging en rv rp dirs d) m (\<lambda>x w'. unmarked dirs d (w_disk w') \<and> R x w') w"
  unfolding holds_def
proof (rule wp_mono [OF wp_conj [OF confinedD [OF c u] g [unfolded gives_def]]])
  fix r and w' :: world
  assume a: "(unshared (w_disk w') \<and> evolves (same_outside S (w_disk w)) w w') \<and> (\<forall>x. r = Inr x \<longrightarrow> R x w')"
  have step: "loader_staging en rv rp dirs d h \<and> unmarked dirs d h" if "same_outside S (w_disk w) h" for h
    using loader_staging_before [OF _ _ that S] b unfolding unmarked_def by blast
  have ev: "evolves (same_outside S (w_disk w)) w w'" using a by blast
  have "evolves (loader_staging en rv rp dirs d) w w'" by (rule evolves_mono [OF ev]) (use step in blast)
  then show "unshared (w_disk w') \<and> evolves (loader_staging en rv rp dirs d) w w' \<and>
      (\<forall>x. r = Inr x \<longrightarrow> unmarked dirs d (w_disk w') \<and> R x w')"
    using a step evolves_final [OF ev] by blast
qed

lemma gives_any: "gives m (\<lambda>_ _. True) w"
  by (simp add: gives_def wp_def split: prod.split)

lemma holds_marked:
  assumes c: "confined S m" and u: "unshared (w_disk w)" and P: "loader_staging en rv rp dirs d (w_disk w)"
    and S: "S \<subseteq> loader_files dirs" "S \<inter> {loader_image dirs, loader_sig dirs, candidate_path dirs} = {}"
  shows "holds (loader_staging en rv rp dirs d) m (\<lambda>_ _. True) w"
  by (rule holds_mono [OF holds_confined [OF c u loader_staging_same [OF P _ S]]]) auto

lemma holds_arm_loader:
  assumes u: "unshared (w_disk w)" and b: "unmarked dirs d (w_disk w)"
    and vm: "authentic en rv rp [] vm" "1 \<le> m_loader_version (vm_manifest vm)" "signed_image en rp dirs vm img (w_disk w)"
  shows "holds (loader_staging en rv rp dirs d) (arm_loader en dirs (m_loader_version (vm_manifest vm)) img) (\<lambda>_ _. True) w"
proof -
  let ?P = "loader_staging en rv rp dirs d" and ?ran = "path_join (sd_esp dirs) loaderRanFile" and ?c = "candidate_path dirs"
  let ?ls = "[''version='' @ itoa (m_loader_version (vm_manifest vm)), ''sha256='' @ hex_encode (sha256 (e_crypto en) img)]"
  have keep: "signed_image en rp dirs vm img h" if "same_outside {?ran} (w_disk w) h" for h
    by (rule iffD2 [OF signed_image_cong vm(3)]) (simp_all add: same_file_data [OF that])
  have rm: "holds ?P (ignoring (remove ?ran)) (\<lambda>_ w'. unmarked dirs d (w_disk w') \<and> signed_image en rp dirs vm img (w_disk w')) w"
  proof (rule holds_unmarked [OF confined_ignoring [OF confined_remove [of ?ran "{?ran}"]] u b])
    show "gives (ignoring (remove ?ran)) (\<lambda>_ w'. signed_image en rp dirs vm img (w_disk w')) w"
      by (rule gives_mono [OF gives_confined [OF confined_ignoring [OF confined_remove [of ?ran "{?ran}"]] u]])
        (auto intro: keep)
  qed (auto simp: loader_files_def)
  have mark: "holds ?P (writeMarker ?c ?ls) (\<lambda>_ _. True) w1"
    if "unmarked dirs d (w_disk w1) \<and> signed_image en rp dirs vm img (w_disk w1)" "unshared (w_disk w1)" for w1
  proof -
    let ?Q = "\<lambda>h. same_outside {?c} (w_disk w1) h \<and> file_data h ?c \<in> {file_data (w_disk w1) ?c, Some [], Some (marker_text ?ls)}"
    have Q: "?P h" if "?Q h" for h
    proof -
      have so: "same_outside {?c} (w_disk w1) h" using that by blast
      have u1: "unmarked dirs d (w_disk w1)" "signed_image en rp dirs vm img (w_disk w1)"
        using \<open>unmarked dirs d (w_disk w1) \<and> signed_image en rp dirs vm img (w_disk w1)\<close> by auto
      have "signed_image en rp dirs vm img h"
        by (rule iffD2 [OF signed_image_cong u1(2)])
          (rule same_file_data [OF so]; use candidate_fresh(1,2) in \<open>simp add: eq_commute\<close>)+
      moreover have "same_outside (loader_files dirs) d h"
        using u1(1) same_outside_trans [OF _ same_outside_mono [OF so]] by (simp add: unmarked_def loader_files_def)
      moreover have "file_data h ?c \<in> {file_data d ?c, Some [], Some (loader_marker_text en (m_loader_version (vm_manifest vm)) img)}"
        using that \<open>unmarked dirs d (w_disk w1) \<and> signed_image en rp dirs vm img (w_disk w1)\<close>
        by (auto simp: unmarked_def loader_marker_text_def)
      ultimately show ?thesis
        using vm(1,2) unfolding loader_staging_def signed_candidate_def by blast
    qed
    have wr: "holds ?P (write_file ?c (marker_text ?ls)) (\<lambda>_ _. True) w1"
      by (rule holds_mono [OF holds_weaken [OF holds_write_file [OF that(2)] Q]])
        (auto simp: candidate_path_def loader_marks_in_place)
    show ?thesis
      unfolding writeMarker_def
      by (rule holds_seqE [OF wr]) (auto intro: holds_mono [OF holds_quietly_any [where P = ?P, OF quietly_syncs(1)]])
  qed
  have bs: "holds ?P (WriteBootState (boot_state_path dirs) trial_boot_state) (\<lambda>_ _. True) w1"
    if "unshared (w_disk w1)" "?P (w_disk w1)" for w1
    by (rule holds_marked [OF confined_WriteBootState that]) (auto simp: loader_files_def)
  have cm: "holds ?P (commitDir (sd_esp dirs)) (\<lambda>_ _. True) w1" if "unshared (w_disk w1)" "?P (w_disk w1)" for w1
    by (rule holds_mono [OF holds_quietly_any [where P = ?P, OF quietly_commitDir that]]) simp
  show ?thesis
    unfolding arm_loader_def candidate_path_def [symmetric]
    by (rule holds_seqE [OF rm], rule holds_seqE [OF mark], simp, simp, rule holds_seqE [OF bs], simp, simp,
        rule holds_seqE [OF cm], simp, simp) (auto simp: sync_all_def intro!: holds_seqE holds_ret)
qed

definition esp_ok :: "stage_dirs \<Rightarrow> bool" where
  "esp_ok dirs \<longleftrightarrow> sd_esp dirs \<noteq> [] \<and> hd (sd_esp dirs) \<noteq> ''tmp''"

lemma esp_not_temp: "esp_ok dirs \<Longrightarrow> path_join (sd_esp dirs) n \<notin> temp_area"
  by (cases "sd_esp dirs") (auto simp: esp_ok_def temp_area_def below_def path_join_def)

lemma esp_ok_fresh:
  "esp_ok dirs \<Longrightarrow> temp_area \<inter> {loader_image dirs, loader_sig dirs, candidate_path dirs} = {}"
  using esp_not_temp [of dirs] by (auto simp: loader_image_def loader_sig_def candidate_path_def)

lemma confined_fetch_loader:
  "confined {loader_image dirs, path_suffix (loader_image dirs) ''.tmp'', loader_sig dirs, path_suffix (loader_sig dirs) ''.tmp''}
     (fetch_loader en rootPub dirs vm)"
proof -
  let ?S = "{loader_image dirs, path_suffix (loader_image dirs) ''.tmp'', loader_sig dirs, path_suffix (loader_sig dirs) ''.tmp''}"
  have k: "confined ?S (FetchTo net url (loader_image dirs))" for net url
    by (rule confined_mono [OF confined_FetchTo [OF plain_loader_image(1)]]) auto
  have g: "confined ?S (FetchTo net url (loader_sig dirs))" for net url
    by (rule confined_mono [OF confined_FetchTo [OF plain_loader_image(2)]]) auto
  show ?thesis
    unfolding fetch_loader_def Let_def loader_sig_def [symmetric]
    by (intro confined_seqE) (auto intro!: confined_or_remove confined_wrapE k g confined_quietly [OF quietly_marks(3)] split: prod.splits)
qed

lemma holds_StageLoader:
  assumes u: "unshared (w_disk w)" and e: "esp_ok dirs"
  shows "holds (loader_staging en rv rp dirs (w_disk w)) (StageLoader en p mURL rv rp dirs retry) (\<lambda>_ _. True) w"
proof -
  let ?d = "w_disk w" let ?P = "loader_staging en rv rp dirs ?d"
  have P0: "?P ?d" and U0: "unmarked dirs ?d ?d" by (simp_all add: loader_staging_def unmarked_def)
  have ct: "candidate_path dirs \<notin> temp_area" using esp_ok_fresh [OF e] by blast
  have tl: "temp_area \<subseteq> loader_files dirs" by (auto simp: loader_files_def)
  have un: "?P h" if "unmarked dirs ?d h" for h using that by (simp add: unmarked_def loader_staging_def)
  have q: "holds ?P m (\<lambda>x w'. w_disk w' = w_disk w1) w1" if "quietly m" "unshared (w_disk w1)" "?P (w_disk w1)" for m :: "'b io" and w1
    by (rule holds_quietly_any [where P = ?P, OF that])
  have fetch: "holds ?P (seqE (fetch_loader en rp dirs vm) (\<lambda>img. arm_loader en dirs (m_loader_version (vm_manifest vm)) img)) (\<lambda>_ _. True) w1"
    if "authentic en rv rp [] vm" "1 \<le> m_loader_version (vm_manifest vm)" "unmarked dirs ?d (w_disk w1)" "unshared (w_disk w1)" for vm w1
  proof (rule holds_seqE [OF holds_unmarked [OF confined_fetch_loader that(4,3) _ _ gives_fetch_loader [OF that(4)]]])
    show "candidate_path dirs \<notin> {loader_image dirs, path_suffix (loader_image dirs) ''.tmp'', loader_sig dirs, path_suffix (loader_sig dirs) ''.tmp''}"
      by simp
    fix img and w2 :: world
    assume "unmarked dirs ?d (w_disk w2) \<and> (1 \<le> m_loader_version (vm_manifest vm) \<longrightarrow> signed_image en rp dirs vm img (w_disk w2))"
      and "unshared (w_disk w2)"
    then show "holds ?P (arm_loader en dirs (m_loader_version (vm_manifest vm)) img) (\<lambda>_ _. True) w2"
      using that(1,2) by (intro holds_arm_loader) auto
  qed (auto simp: loader_files_def)
  have rest: "holds ?P (if m_loader_url (vm_manifest vm) = [] \<or> m_loader_sig_url (vm_manifest vm) = [] \<or> m_loader_version (vm_manifest vm) < 1
     then throw (Errorf ''loader: this release carries no boot loader'')
     else seqE (InstalledLoaderVersion dirs) (\<lambda>installed.
       if m_loader_version (vm_manifest vm) \<le> installed
       then ret (''loader: version '' @ itoa installed @ '' already installed'')
       else seqE (markerVersion (path_join (sd_esp dirs) loaderFailedFile)) (\<lambda>failed.
         if failed = m_loader_version (vm_manifest vm) \<and> \<not> retry
         then throw (Errorf (''loader: version '' @ itoa failed @ '' did not start on this machine before, not retrying''))
         else seqE (fetch_loader en rp dirs vm) (\<lambda>img. arm_loader en dirs (m_loader_version (vm_manifest vm)) img)))) (\<lambda>_ _. True) w1"
    if "authentic en rv rp [] vm" "unmarked dirs ?d (w_disk w1)" "unshared (w_disk w1)" for vm w1
  proof (cases "m_loader_url (vm_manifest vm) = [] \<or> m_loader_sig_url (vm_manifest vm) = [] \<or> m_loader_version (vm_manifest vm) < 1")
    case False
    show ?thesis
      unfolding if_not_P [OF False]
    proof (rule holds_seqE [OF q [OF quietly_marks(4) that(3) un [OF that(2)]]])
      fix installed and w2 :: world assume 2: "w_disk w2 = w_disk w1"
      have u2: "unshared (w_disk w2)" "?P (w_disk w2)" using 2 that(3) un [OF that(2)] by auto
      show "holds ?P (if m_loader_version (vm_manifest vm) \<le> installed
       then ret (''loader: version '' @ itoa installed @ '' already installed'')
       else seqE (markerVersion (path_join (sd_esp dirs) loaderFailedFile)) (\<lambda>failed.
         if failed = m_loader_version (vm_manifest vm) \<and> \<not> retry
         then throw (Errorf (''loader: version '' @ itoa failed @ '' did not start on this machine before, not retrying''))
         else seqE (fetch_loader en rp dirs vm) (\<lambda>img. arm_loader en dirs (m_loader_version (vm_manifest vm)) img))) (\<lambda>_ _. True) w2"
      proof (cases "m_loader_version (vm_manifest vm) \<le> installed")
        case notyet: False
        show ?thesis
          unfolding if_not_P [OF notyet]
          by (rule holds_seqE [OF q [OF quietly_marks(2) u2]]) (use 2 that False in \<open>auto intro!: fetch\<close>)
      qed (use u2 in \<open>simp add: holds_ret\<close>)
    qed
  qed (use that un in simp)
  have body: "holds ?P (stage_loader_in en mURL rv rp dirs retry [''tmp'', x]) (\<lambda>_ _. True) w1"
    if "unmarked dirs ?d (w_disk w1)" "unshared (w_disk w1)" for x w1
    unfolding stage_loader_in_def Let_def
    by (rule holds_seqE [OF holds_unmarked [OF confined_mono [OF confined_fetchVerifiedManifest inside_temp] that(2,1) tl ct gives_fetchVerifiedManifest]])
      (use rest in blast)
  have clean: "holds ?P (remove_all [''tmp'', x]) (\<lambda>_ _. True) w1" if "unshared (w_disk w1)" "?P (w_disk w1)" for x w1
    by (rule holds_marked [OF confined_mono [OF confined_clear] that tl esp_ok_fresh [OF e]])
      (auto simp: temp_area_def intro: below_two)
  have mk: "gives (mkdir_temp s) (\<lambda>work _. \<exists>x. work = [''tmp'', x]) w1" for s w1
    by (auto simp: gives_def mkdir_temp_def wp_simps split: option.splits list.splits)
  have go: "holds ?P (seqE (mkdir_temp ''atomd-loader-'') (\<lambda>work. deferred (stage_loader_in en mURL rv rp dirs retry work) (remove_all work))) (\<lambda>_ _. True) w1"
    if "unmarked dirs ?d (w_disk w1)" "unshared (w_disk w1)" for w1
  proof (rule holds_seqE [OF holds_unmarked [OF confined_mkdir_temp that(2,1) tl ct mk]])
    fix work and w2 :: world
    assume 2: "unmarked dirs ?d (w_disk w2) \<and> (\<exists>x. work = [''tmp'', x])" and u2: "unshared (w_disk w2)"
    then obtain x where x: "work = [''tmp'', x]" by blast
    show "holds ?P (deferred (stage_loader_in en mURL rv rp dirs retry work) (remove_all work)) (\<lambda>_ _. True) w2"
      unfolding x using 2 u2 by (intro holds_deferred [OF body clean]) auto
  qed
  have pend: "holds ?P (seqE (pendingUpdateError c dd s) throw) (\<lambda>_ _. True) w1" if "unshared (w_disk w1)" "?P (w_disk w1)" for c dd s w1
  proof -
    have "quietly (pendingUpdateError c dd s)" by (auto simp: pendingUpdateError_def Let_def intro!: quietly_intros)
    then show ?thesis by (rule holds_seqE [OF q [OF _ that]]) simp
  qed
  show ?thesis
  proof (cases "sd_esp dirs = []")
    case False
    show ?thesis
      unfolding StageLoader_def if_not_P [OF False]
    proof (rule holds_seqE [OF q [OF quietly_syncs(4) u P0]])
      fix dd and w1 :: world assume "w_disk w1 = ?d" "unshared (w_disk w1)" "?P (w_disk w1)"
      then show "holds ?P (if HasPending dd then seqE (pendingUpdateError (e_cmdline en) dd ''loader'') throw
        else seqE (mkdir_temp ''atomd-loader-'') (\<lambda>work.
          deferred (stage_loader_in en mURL rv rp dirs retry work) (remove_all work))) (\<lambda>_ _. True) w1"
        using U0 by (cases "HasPending dd") (auto intro!: pend go)
    qed
  qed (use e in \<open>simp add: esp_ok_def\<close>)
qed

subsection \<open>Repair\<close>

definition signed_repair :: "env \<Rightarrow> stage_dirs \<Rightarrow> string \<Rightarrow> string \<Rightarrow> string \<Rightarrow> disk \<Rightarrow> bool" where
  "signed_repair en dirs img sg rootPub d \<longleftrightarrow> (\<exists>cert certSig pub v.
     file_data d (path_join (sd_esp dirs) ''signing-cert.json'') = Some cert \<and>
     file_data d (path_join (sd_esp dirs) ''signing-cert.json.sig'') = Some certSig \<and>
     vouched (e_crypto en) rootPub (e_now en 0) cert certSig pub v \<and> Verify (e_crypto en) img sg pub)"

lemma repair_refused:
  assumes "\<not> signed_repair en dirs img sg rootPub (w_disk w)"
  shows "wp (RepairLoader en dirs img sg rootPub) (\<lambda>r w'. quiet w w' \<and> (\<exists>e. r = Inl e)) w"
proof (cases "sd_esp dirs = []")
  case False
  let ?cr = "e_crypto en" and ?p = "path_join (sd_esp dirs) ''signing-cert.json''" and ?q = "path_join (sd_esp dirs) ''signing-cert.json.sig''"
  let ?Q = "\<lambda>r w'. quiet w w' \<and> (\<exists>e. r = Inl e)"
  have rd: "wp (wrapE t (read_file q)) (\<lambda>r w'. quiet w w' \<and> (\<forall>s. r = Inr s \<longrightarrow> file_data (w_disk w) q = Some s)) w1"
    if "quiet w w1" for t q w1
    using that by (auto simp: wp_simps sys_defs file_data_def quiet_def split: option.splits sum.splits)
  show ?thesis
    unfolding RepairLoader_def if_not_P [OF False]
  proof (rule wp_seqEI [OF rd [OF quiet_refl]])
    fix cert and w1 :: world assume 1: "quiet w w1 \<and> (\<forall>s. Inr cert = Inr s \<longrightarrow> file_data (w_disk w) ?p = Some s)"
    show "wp (seqE (wrapE ''loader: signing cert signature'' (read_file ?q)) (\<lambda>certSig.
      seqE (wrapE ''loader'' (lift_err (VerifyCert ?cr cert certSig rootPub (e_now en 0)))) (\<lambda>(signingPub, _).
      if \<not> Verify ?cr img sg signingPub then throw (Errorf ''loader: signature invalid, refusing'')
      else seqE (create_temp (sd_esp dirs) ''.loader-repair-'') (\<lambda>(tmp, out).
           deferred (repair_from dirs img tmp out) (ignoring (remove tmp)))))) ?Q w1"
    proof (rule wp_seqEI [OF rd])
      fix certSig and w2 :: world assume 2: "quiet w w2 \<and> (\<forall>s. Inr certSig = Inr s \<longrightarrow> file_data (w_disk w) ?q = Some s)"
      have no: "\<not> Verify ?cr img sg pub" if "VerifyCert ?cr cert certSig rootPub (e_now en 0) = Inr (pub, v)" for pub v
        using that 1 2 assms by (auto simp: VerifyCert_iff signed_repair_def)
      show "wp (seqE (wrapE ''loader'' (lift_err (VerifyCert ?cr cert certSig rootPub (e_now en 0)))) (\<lambda>(signingPub, _).
        if \<not> Verify ?cr img sg signingPub then throw (Errorf ''loader: signature invalid, refusing'')
        else seqE (create_temp (sd_esp dirs) ''.loader-repair-'') (\<lambda>(tmp, out).
             deferred (repair_from dirs img tmp out) (ignoring (remove tmp))))) ?Q w2"
        using no 2 by (cases "VerifyCert ?cr cert certSig rootPub (e_now en 0)") (auto simp: wp_seqE wp_wrapE wp_lift_err wp_throw)
    qed (use 1 in auto)
  qed auto
qed (simp add: RepairLoader_def wp_throw)

subsection \<open>The properties\<close>

text \<open>C28. A loader candidate is installed only after it has started once: on every disk of the verdict
  on a candidate, \<open>HandleLoaderCandidate\<close>, whatever fails, the boot loader is the old one, or the
  image that was tried, and then the markers say that exactly the recorded version ran and the image
  still has the recorded digest. The repair, \<open>RepairLoader\<close>, is the other way to replace the loader:
  it installs a signed image that need not have been tried.\<close>

theorem HandleLoaderCandidate_installs_tested:
  assumes "unshared (w_disk w)" and "HandleLoaderCandidate cr dirs w = (r, w')"
  shows "evolves (loader_kept_or_tested cr dirs (w_disk w)) w w'"
  using holdsD [OF holds_HandleLoaderCandidate [OF assms(1)] assms(2)] by blast

definition tried_disk :: disk where
  "tried_disk = put_file (path_join [''esp''] loaderRanFile) (''version=3'' @ [newline])
     (put_file (path_join [''esp''] loaderCandidateFile) (marker_text [''version=3'', ''sha256='' @ hex_encode (replicate 32 (CHR ''h''))])
     (put_file (path_join [''esp''] ''kernelcache-next.efi'') ''new loader'' empty_disk))"

lemma HandleLoaderCandidate_installs_tested_witness:
  "evolves (loader_kept_or_tested sample_crypto sample_dirs tried_disk) (world_of tried_disk)
     (snd (HandleLoaderCandidate sample_crypto sample_dirs (world_of tried_disk)))"
  using HandleLoaderCandidate_installs_tested [OF _ prod.collapse [symmetric], of "world_of tried_disk"]
  by (simp add: tried_disk_def)

lemma tried_loader_is_installed:
  "file_data (w_disk (snd (HandleLoaderCandidate sample_crypto sample_dirs (world_of tried_disk))))
     (loaderBootPath sample_dirs) = Some ''new loader''"
  by code_simp

text \<open>C29. Staging a loader never touches the loader that boots, the deployment record or any slot
  but the candidate kernel cache, and on every disk of its run the trial marker is the old one, is
  being written, or names exactly the image in the candidate slot, which is signed by the key of an
  authentic manifest and has the digest and the version the manifest gives.\<close>

theorem StageLoader_arms_signed_candidate:
  assumes "unshared (w_disk w)" and "esp_ok dirs"
    and "StageLoader en walPath manifestURL revocationURL rootPub dirs retryFailed w = (r, w')"
  shows "evolves (loader_staging en revocationURL rootPub dirs (w_disk w)) w w'"
  using holdsD [OF holds_StageLoader [OF assms(1,2)] assms(3)] by blast

lemma StageLoader_arms_signed_candidate_witness:
  "evolves (loader_staging stage_env [] sample_key sample_dirs (w_disk stage_world)) stage_world
     (snd (StageLoader stage_env sample_path ''https://h/manifest.json'' [] sample_key sample_dirs False stage_world))"
  using StageLoader_arms_signed_candidate [OF stage_world_unshared _ prod.collapse [symmetric]]
  by (simp add: esp_ok_def sample_dirs_def)

text \<open>Repairing the loader is refused, and changes nothing, unless the image is signed by the key
  of a valid certificate that lies beside it on the system partition.\<close>

theorem RepairLoader_needs_signature:
  assumes "RepairLoader en dirs img sg rootPub w = (r, w')" and "\<not> signed_repair en dirs img sg rootPub (w_disk w)"
  shows "w_disk w' = w_disk w \<and> w_history w' = w_history w \<and> (\<exists>e. r = Inl e)"
  using wpD [OF repair_refused [OF assms(2)] assms(1)] by (simp add: quiet_def)

lemma RepairLoader_needs_signature_witness:
  "w_disk (snd (RepairLoader sample_env sample_dirs ''img'' ''short'' sample_key (world_of tried_disk))) = tried_disk"
proof -
  have "\<not> signed_repair sample_env sample_dirs ''img'' ''short'' sample_key (w_disk (world_of tried_disk))"
    by (simp add: signed_repair_def Verify_def)
  then show ?thesis
    using RepairLoader_needs_signature [OF prod.collapse [symmetric], of sample_env sample_dirs "''img''" "''short''" sample_key "world_of tried_disk"]
    by simp
qed

end
