(* ===== verification/ConfirmSafe.thy ===== *)
theory ConfirmSafe
  imports DaemonSafe LoaderSafe
begin

section \<open>Only a running candidate counts as a good boot\<close>

text \<open>
  What the confirmation of a boot (\<open>BootSuccess\<close> of internal/otad/otad.go) may write, on every
  disk of its run and under every pattern of failures. The commands of a \<open>CommandCounter\<close> are
  assumed not to touch the files of the model.
\<close>

definition store_ok :: "env \<Rightarrow> counter_store option \<Rightarrow> bool" where
  "store_ok en store \<longleftrightarrow> (case store of
     Some (CommandCounter rc ac) \<Rightarrow> (\<forall>c e. quietly (e_sh en c e))
   | Some (FileCounter cp) \<Rightarrow> plain_path cp \<and> cp \<notin> in_place | None \<Rightarrow> True)"

definition counter_files :: "counter_store option \<Rightarrow> path set" where
  "counter_files store = (case store of Some (FileCounter cp) \<Rightarrow> {cp, path_suffix cp ''.tmp''} | _ \<Rightarrow> {})"

definition stable_files :: "stage_dirs \<Rightarrow> counter_store option \<Rightarrow> path set" where
  "stable_files dirs store = counter_files store \<union> loader_marks dirs \<union>
     {path_join (sd_esp dirs) loaderFailedFile, path_join (sd_esp dirs) loaderPrevFile, loaderBootPath dirs} \<union>
     {recovery_cur dirs, recovery_prev dirs, sig_of (recovery_cur dirs), sig_of (recovery_prev dirs)} \<union>
     {boot_state_path dirs} \<union> next_names dirs \<union> dot_names"

text \<open>The running system is a candidate of the record on this disk, and it is healthy.\<close>

definition confirmable :: "env \<Rightarrow> path \<Rightarrow> path \<Rightarrow> disk \<Rightarrow> deployment \<Rightarrow> bool" where
  "confirmable en p healthDir d0 d \<longleftrightarrow> d \<in> wal_versions p d0 \<and> HasPending d \<and> RunHealthChecks en healthDir = Inr () \<and>
     (\<exists>s. file_data d0 (e_cmdline en) = Some s \<and> identity_confirmed (parse_cmdline s) d)"

definition boot_texts :: "env \<Rightarrow> path \<Rightarrow> path \<Rightarrow> disk \<Rightarrow> string set" where
  "boot_texts en p healthDir d0 =
     {marshal (snd (RecordGoodBoot (e_clock en) True d)) | d. confirmable en p healthDir d0 d} \<union>
     {marshal (snd (failed_attempt bs d)) | bs d.
        d \<in> wal_versions p d0 \<and> HasPending d \<and> RunHealthChecks en healthDir = Inr ()}"

definition boot_files :: "env \<Rightarrow> path \<Rightarrow> path \<Rightarrow> counter_store option \<Rightarrow> stage_dirs \<Rightarrow> disk \<Rightarrow> path set" where
  "boot_files en p healthDir store dirs d0 = stable_files dirs store \<union> wal_files p \<union>
     (if \<exists>d. confirmable en p healthDir d0 d then active_names dirs else {})"

definition boot_layout_ok :: "path \<Rightarrow> counter_store option \<Rightarrow> stage_dirs \<Rightarrow> bool" where
  "boot_layout_ok p store dirs \<longleftrightarrow> record_path_ok p \<and> wal_files p \<inter> (stable_files dirs store \<union> active_names dirs) = {}"

subsection \<open>Frames\<close>

lemma quietly_CounterRead: "store_ok en (Some st) \<Longrightarrow> quietly (CounterStore_Read (e_sh en) st)"
  by (cases st)
    (auto simp: store_ok_def FileCounter_Read_def CommandCounter_Read_def intro!: quietly_intros quietly_wrapE split: sum.splits)

lemma confined_CounterAdvance:
  assumes "store_ok en (Some st)"
  shows "confined (counter_files (Some st)) (CounterStore_Advance (e_sh en) st n)"
proof (cases st)
  case (FileCounter cp)
  then have cp: "plain_path cp" "cp \<notin> in_place" using assms by (auto simp: store_ok_def)
  have tmp: "path_suffix cp ''.tmp'' \<in> in_place" using plain_tmp_in_place [OF cp(1)] .
  have w: "confined {cp, path_suffix cp ''.tmp''} (write_file (path_suffix cp ''.tmp'') s)" for s
    by (rule confined_mono [OF confined_write_file [OF tmp]]) auto
  have r: "confined {cp, path_suffix cp ''.tmp''} (rename (path_suffix cp ''.tmp'') cp)"
    by (rule confined_rename) (use cp in auto)
  have q: "confined {cp, path_suffix cp ''.tmp''} (FileCounter_Read cp)"
    using quietly_CounterRead [OF assms] FileCounter by (auto intro: confined_quietly)
  show ?thesis
    using w r q FileCounter by (auto simp: counter_files_def FileCounter_Advance_def Let_def intro!: confined_seqE)
next
  case (CommandCounter rc ac)
  have "quietly (CounterStore_Advance (e_sh en) st n)"
    using assms quietly_CounterRead [OF assms] CommandCounter
    by (auto simp: store_ok_def CommandCounter_Advance_def intro!: quietly_intros quietly_wrapE)
  then show ?thesis by (rule confined_quietly)
qed

lemma confined_catch_up:
  assumes "store_ok en store"
  shows "confined (counter_files store) (catch_up_counter en store d)"
proof (cases store)
  case (Some st)
  then show ?thesis
    using assms confined_quietly [OF quietly_CounterRead [of en st]] confined_CounterAdvance [of en st]
    by (auto simp: catch_up_counter_def intro!: confined_trying confined_ignoring split: sum.splits)
qed (simp add: catch_up_counter_def)

lemma join_in_place:
  "path_join d n \<in> in_place \<longleftrightarrow> \<not> has_prefix ''.'' n \<and>
     (has_suffix ''.tmp'' n \<or> has_prefix ''fw-'' n \<or> n \<in> {''loader-candidate'', ''loader-ran'', ''loader-failed'', ''loader-auto''})"
  by (simp add: in_place_def path_join_def)

lemma recovery_paths_plain:
  "recovery_cur dirs \<notin> in_place" "recovery_prev dirs \<notin> in_place" "sig_of (recovery_cur dirs) \<notin> in_place" "sig_of (recovery_prev dirs) \<notin> in_place"
  by (simp_all add: recovery_cur_def recovery_prev_def sig_of_def recoveryFile_def recoveryPrevFile_def join_in_place
      has_prefix_def has_suffix_def)

lemma quietly_exists [simp]: "quietly (exists_file p)"
  by (auto simp: exists_file_def intro!: quietly_intros)

lemma confined_RepairRecoverySlot:
  "confined {recovery_cur dirs, recovery_prev dirs, sig_of (recovery_cur dirs), sig_of (recovery_prev dirs)} (RepairRecoverySlot dirs)"
proof -
  let ?S = "{recovery_cur dirs, recovery_prev dirs, sig_of (recovery_cur dirs), sig_of (recovery_prev dirs)}"
  have q: "confined ?S (exists_file p)" "confined ?S (commitDir p)" for p by (auto intro: confined_quietly)
  have r: "confined ?S (rename (recovery_prev dirs) (recovery_cur dirs))"
    "confined ?S (rename (sig_of (recovery_prev dirs)) (sig_of (recovery_cur dirs)))"
    by (rule confined_rename; simp add: recovery_paths_plain)+
  show ?thesis
    unfolding RepairRecoverySlot_def restore_recovery_def Let_def
    by (auto intro!: confined_seqE confined_wrapE confined_ignoring confined_remove q r)
qed

definition installer_files :: "stage_dirs \<Rightarrow> path set" where
  "installer_files dirs = loader_marks dirs \<union> {path_join (sd_esp dirs) loaderFailedFile, path_join (sd_esp dirs) loaderPrevFile, loaderBootPath dirs} \<union> dot_names"

lemma confined_HandleLoaderCandidate:
  "confined (installer_files dirs)
     (HandleLoaderCandidate cr dirs)"
proof -
  let ?S = "installer_files dirs"
  have c1: "confined ?S (copyFileSync src (path_join (sd_esp dirs) loaderPrevFile))" for src
    by (rule confined_mono [OF confined_copyFileSync [OF loader_prev_plain]]) (auto simp: installer_files_def)
  have c2: "confined ?S (copyFileSync src (loaderBootPath dirs))" for src
    by (rule confined_mono [OF confined_copyFileSync [OF boot_path_distinct(3,4)]]) (auto simp: installer_files_def)
  have i: "confined ?S (installLoaderImage dirs src)" for src
    by (auto simp: installLoaderImage_def Let_def intro!: confined_seqE confined_trying confined_wrapE c1 c2 split: sum.splits)
  have m: "confined ?S (writeMarker (path_join (sd_esp dirs) loaderFailedFile) ls)" for ls
    by (rule confined_mono [OF confined_writeMarker [OF loader_marks_in_place(3)]]) (auto simp: installer_files_def)
  have c: "confined ?S (cancelLoaderCandidate dirs)"
    by (rule confined_mono [OF confined_cancelLoaderCandidate]) (auto simp: installer_files_def)
  have q: "confined ?S (markerVersion p)" "confined ?S (readKeyFile p)" for p by (auto intro: confined_quietly)
  have rm: "confined ?S (remove (path_join (sd_esp dirs) loaderFailedFile))"
    by (rule confined_remove) (simp add: installer_files_def)
  show ?thesis
    unfolding HandleLoaderCandidate_def judge_loader_def Let_def
    by (auto intro!: confined_seqE confined_deferred confined_wrapE confined_ignoring rm i m c q)
qed

lemma confined_boot_stable:
  assumes "store_ok en store"
  shows "confined (stable_files dirs store) (boot_stable en store dirs d)"
proof -
  let ?S = "stable_files dirs store"
  have "confined ?S (catch_up_counter en store d)"
    by (rule confined_mono [OF confined_catch_up [OF assms]]) (auto simp: stable_files_def)
  moreover have "confined ?S (HandleLoaderCandidate (e_crypto en) dirs)"
    by (rule confined_mono [OF confined_HandleLoaderCandidate]) (auto simp: stable_files_def installer_files_def)
  moreover have "confined ?S (RepairRecoverySlot dirs)"
    by (rule confined_mono [OF confined_RepairRecoverySlot]) (auto simp: stable_files_def)
  moreover have "confined ?S (writeDeploymentBootState d dirs)"
    by (rule confined_mono [OF confined_writeDeploymentBootState]) (auto simp: stable_files_def)
  moreover have "confined ?S (CleanupNextSlots dirs)"
    by (rule confined_mono [OF confined_CleanupNextSlots]) (auto simp: stable_files_def)
  ultimately show ?thesis
    unfolding boot_stable_def by (auto intro!: confined_seqE confined_trying confined_wrapE split: sum.splits)
qed

subsection \<open>The record under confirmation\<close>

lemma boot_layoutD:
  assumes "boot_layout_ok p store dirs"
  shows "record_path_ok p" and "promotion_apart p dirs" and "wal_files p \<inter> stable_files dirs store = {}"
    and "wal_files p \<inter> ({boot_state_path dirs} \<union> dot_names) = {}" and "wal_files p \<inter> counter_files store = {}"
    and "wal_files p \<inter> next_names dirs = {}"
  using assms by (auto simp: boot_layout_ok_def promotion_apart_def stable_files_def)

lemma commits_boot_fallback:
  assumes l: "boot_layout_ok p store dirs" and u: "unshared (w_disk w)"
    and T: "\<And>bs. marshal (snd (failed_attempt bs d)) \<in> T"
  shows "commits p (stable_files dirs store \<union> wal_files p) T (boot_fallback p dirs d) w"
proof -
  let ?S = "stable_files dirs store \<union> wal_files p"
  note lo = boot_layoutD [OF l]
  have c: "commits p ?S T m w'" if "confined X m" "wal_files p \<inter> X = {}" "X \<subseteq> ?S" "unshared (w_disk w')" for X and m :: "unit io" and w'
    by (rule commits_mono [OF commits_confined [OF that(1,4,2)] that(3)])
  have q: "quietly (read_boot_state_opt dirs)" by (auto simp: read_boot_state_opt_def intro!: quietly_intros)
  have rd: "commits p ?S T (read_boot_state_opt dirs) w"
    by (rule commits_mono [OF commits_confined [OF confined_quietly [OF q] u], where S = "{}"]) auto
  have bs: "commits p ?S T (wrapE s (writeDeploymentBootState d' dirs)) w'" if "unshared (w_disk w')" for s d' w'
    by (rule c [OF confined_wrapE [OF confined_writeDeploymentBootState] lo(4) _ that]) (auto simp: stable_files_def)
  have sv: "commits p ?S T (Save p d') w'" if "unshared (w_disk w')" "marshal d' \<in> T" for d' w'
    by (rule commits_Save [OF lo(1) that(1) _ that(2)]) (auto simp: stable_files_def)
  have cl: "commits p ?S T (if x then seqE (CleanupNextSlots dirs) (\<lambda>_. sync_all) else ret ()) w'" if "unshared (w_disk w')" for x w'
  proof -
    have "commits p ?S T (seqE (CleanupNextSlots dirs) (\<lambda>_. sync_all)) w'"
      by (rule c [OF confined_seqE [OF confined_CleanupNextSlots confined_sync_all] lo(6) _ that]) (auto simp: stable_files_def)
    then show ?thesis using that by (simp add: commits_ret)
  qed
  show ?thesis
    unfolding boot_fallback_def
  proof (rule commits_seqE_any [OF rd])
    fix bs' and w' :: world assume u': "unshared (w_disk w')"
    obtain ex d' where fa: "failed_attempt bs' d = (ex, d')" by (cases "failed_attempt bs' d")
    show "commits p ?S T (case failed_attempt bs' d of (exhausted, d2) \<Rightarrow>
       seqE (wrapE ''candidate fallback boot-state commit failed'' (writeDeploymentBootState d2 dirs)) (\<lambda>_.
       seqE sync_all (\<lambda>_. seqE (Save p d2) (\<lambda>_.
       seqE (if exhausted then seqE (CleanupNextSlots dirs) (\<lambda>_. sync_all) else ret ()) (\<lambda>_.
       ret (''candidate '' @ rf_pending (d_rootfs d) @ '' did NOT boot'')))))) w'"
      unfolding fa prod.case
      by (intro commits_seqE_any bs sv cl u') (use T [of bs'] fa in \<open>auto simp: sync_all_def intro: commits_ret\<close>)
  qed
qed

lemma commits_boot_confirmed:
  assumes l: "boot_layout_ok p store dirs" and u: "unshared (w_disk w)" and st: "store_ok en store"
    and T: "marshal (snd (RecordGoodBoot (e_clock en) True d)) \<in> T"
  shows "commits p (stable_files dirs store \<union> wal_files p \<union> active_names dirs) T (boot_confirmed en p store dirs d) w"
proof -
  let ?S = "stable_files dirs store \<union> wal_files p \<union> active_names dirs"
  note lo = boot_layoutD [OF l]
  obtain pr d' where r: "RecordGoodBoot (e_clock en) True d = (pr, d')" by (cases "RecordGoodBoot (e_clock en) True d")
  have t: "marshal d' \<in> T" using T r by simp
  have c: "commits p ?S T m w'" if "confined X m" "wal_files p \<inter> X = {}" "X \<subseteq> ?S" "unshared (w_disk w')" for X and m :: "unit io" and w'
    by (rule commits_mono [OF commits_confined [OF that(1,4,2)] that(3)])
  have bs: "commits p ?S T (wrapE s (writeDeploymentBootState d' dirs)) w'" if "unshared (w_disk w')" for s w'
    by (rule c [OF confined_wrapE [OF confined_writeDeploymentBootState] lo(4) _ that]) (auto simp: stable_files_def)
  have sv: "commits p ?S T (Save p d') w'" if "unshared (w_disk w')" for w'
    by (rule commits_Save [OF lo(1) that _ t]) (auto simp: stable_files_def)
  have cp: "commits p ?S T (commit_promotion en p dirs ms1 ms2 d') w'" if "unshared (w_disk w')" for ms1 ms2 w'
    by (rule commits_mono [OF commits_promotion [OF lo(2) that t]]) (auto simp: promotion_files_def stable_files_def)
  have cc: "confined (counter_files store) (arm_counter en store d')"
    using confined_CounterAdvance st by (auto simp: arm_counter_def intro!: confined_wrapE split: option.split)
  have ac: "commits p ?S T (arm_counter en store d') w'" if "unshared (w_disk w')" for w'
    by (rule c [OF cc lo(5) _ that]) (auto simp: stable_files_def)
  show ?thesis
    unfolding boot_confirmed_def r prod.case
    by (cases pr) (auto intro!: commits_seqE_any cp ac bs sv commits_ret u simp: sync_all_def)
qed

lemma commits_BootSuccess:
  assumes l: "boot_layout_ok p store dirs" and u: "unshared (w_disk w)" and st: "store_ok en store"
  shows "commits p (boot_files en p healthDir store dirs (w_disk w)) (boot_texts en p healthDir (w_disk w))
    (BootSuccess en p healthDir store dirs) w"
proof -
  let ?d0 = "w_disk w" let ?S = "boot_files en p healthDir store dirs ?d0" and ?T = "boot_texts en p healthDir ?d0"
  note lo = boot_layoutD [OF l]
  have sub: "stable_files dirs store \<subseteq> ?S" "stable_files dirs store \<union> wal_files p \<subseteq> ?S" by (auto simp: boot_files_def)
  have ld: "gives (Load p) (\<lambda>d w'. w_disk w' = ?d0 \<and> d \<in> wal_versions p ?d0) w"
    by (rule gives_wp, rule wp_mono [OF wp_Load]) (auto simp: quiet_def)
  have ql: "commits p ?S ?T (Load p) w"
    by (rule commits_mono [OF commits_confined [OF confined_quietly u], where S = "{}"]) auto
  have id: "gives (bootedIdentity (e_cmdline en)) (\<lambda>bi w'. w_disk w' = ?d0 \<and>
      (bi = zero_identity \<or> (\<exists>s. file_data ?d0 (e_cmdline en) = Some s \<and> bi = parse_cmdline s))) w1"
    if "w_disk w1 = ?d0" for w1
    by (rule gives_wp)
      (use that in \<open>auto simp: bootedIdentity_def wp_simps sys_defs file_data_def split: option.splits\<close>)
  have qi: "commits p ?S ?T (bootedIdentity c) w'" if "unshared (w_disk w')" for c w'
    by (rule commits_mono [OF commits_confined [OF confined_quietly [OF quietly_bootedIdentity] that], where S = "{}"]) auto
  have zero: "\<not> identity_confirmed zero_identity d" for d
    by (simp add: identity_confirmed_def zero_identity_def)
  have fb: "commits p ?S ?T (boot_fallback p dirs d) w'"
    if "unshared (w_disk w')" "d \<in> wal_versions p ?d0" "HasPending d" "RunHealthChecks en healthDir = Inr ()" for d w'
    by (rule commits_mono [OF commits_boot_fallback [OF l that(1)] sub(2)]) (use that in \<open>auto simp: boot_texts_def\<close>)
  have cf: "commits p ?S ?T (boot_confirmed en p store dirs d) w'"
    if "unshared (w_disk w')" "confirmable en p healthDir ?d0 d" for d w'
    by (rule commits_mono [OF commits_boot_confirmed [OF l that(1) st]]) (use that(2) in \<open>auto simp: boot_texts_def boot_files_def\<close>)
  have stb: "commits p ?S ?T (boot_stable en store dirs d) w'" if "unshared (w_disk w')" for d w'
    by (rule commits_mono [OF commits_confined [OF confined_boot_stable [OF st] that lo(3)] sub(1)])
  have idb: "commits p ?S ?T (seqE (bootedIdentity (e_cmdline en)) (\<lambda>bi.
         if \<not> identity_confirmed bi d then boot_fallback p dirs d else boot_confirmed en p store dirs d)) w1"
    if d: "w_disk w1 = ?d0" "unshared (w_disk w1)" "d \<in> wal_versions p ?d0" "HasPending d" "RunHealthChecks en healthDir = Inr ()" for d w1
    by (rule commits_seqE [OF qi [OF d(2)] id [OF d(1)]])
      (use d zero in \<open>auto intro!: fb cf simp: confirmable_def\<close>)
  have hl: "gives (wrapE s (lift_err (RunHealthChecks en healthDir))) (\<lambda>_ w'. w_disk w' = w_disk w1 \<and> RunHealthChecks en healthDir = Inr ()) w1" for s w1
    by (auto intro!: gives_wrapE gives_lift_err)
  have ch: "commits p ?S ?T (wrapE s (lift_err (RunHealthChecks en healthDir))) w1" if "unshared (w_disk w1)" for s w1
    by (rule commits_mono [OF commits_confined [where S = "{}", OF confined_wrapE [OF confined_ret(3)] that]]) auto
  have pend: "commits p ?S ?T (seqE (wrapE ''health gate failed, candidate left unconfirmed'' (lift_err (RunHealthChecks en healthDir))) (\<lambda>_.
       seqE (bootedIdentity (e_cmdline en)) (\<lambda>bi.
         if \<not> identity_confirmed bi d then boot_fallback p dirs d else boot_confirmed en p store dirs d))) w1"
    if d: "w_disk w1 = ?d0" "unshared (w_disk w1)" "d \<in> wal_versions p ?d0" "HasPending d" for d w1
    by (rule commits_seqE [OF ch [OF d(2)] hl]) (use d in \<open>auto intro!: idb\<close>)
  show ?thesis
    unfolding BootSuccess_def
  proof (rule commits_seqE [OF ql ld])
    fix d and w1 :: world assume "w_disk w1 = ?d0 \<and> d \<in> wal_versions p ?d0" "unshared (w_disk w1)"
    then show "commits p ?S ?T (if \<not> HasPending d then boot_stable en store dirs d
       else seqE (wrapE ''health gate failed, candidate left unconfirmed'' (lift_err (RunHealthChecks en healthDir))) (\<lambda>_.
            seqE (bootedIdentity (e_cmdline en)) (\<lambda>bi.
              if \<not> identity_confirmed bi d then boot_fallback p dirs d
              else boot_confirmed en p store dirs d))) w1"
      using stb pend by (cases "HasPending d") simp_all
  qed
qed

text \<open>C34. Only a candidate that is running and healthy counts as a good boot. On every disk of the
  confirmation, whatever fails, each file of the record holds what it held before, the record
  after one good boot of a loaded record whose candidate is the system on the kernel command line,
  or the record after one failed attempt; with failing health checks the record stays as it is.
  The active slots are touched only in the second case.\<close>

theorem BootSuccess_confirms_running_candidate:
  assumes "boot_layout_ok p store dirs" and "unshared (w_disk w)" and "store_ok en store"
    and "BootSuccess en p healthDir store dirs w = (r, w')"
  shows "evolves (\<lambda>h. same_outside (boot_files en p healthDir store dirs (w_disk w)) (w_disk w) h \<and>
      record_texts p (boot_texts en p healthDir (w_disk w)) (w_disk w) h) w w'"
  using wpD [OF commits_BootSuccess [OF assms(1-3), unfolded commits_def] assms(4)] by blast

lemma boot_layout_sample: "boot_layout_ok sample_path None sample_dirs"
proof -
  have "record_path_ok sample_path" using layout_okD(1) [OF stage_layout_ok] .
  then show ?thesis
    using plain_path_names(1) [OF sample_path_ok]
    by (auto simp: boot_layout_ok_def stable_files_def counter_files_def loader_marks_def loaderCandidateFile_def loaderRanFile_def
        loaderFailedFile_def loaderPrevFile_def loaderBootPath_def recovery_cur_def recovery_prev_def recoveryFile_def recoveryPrevFile_def
        sig_of_def boot_state_path_def next_names_def active_names_def slot_list_def slot_groups_def slot_names_def slot_file_def
        wal_files_def sample_path_def sample_dirs_def path_join_def path_suffix_def path_dir_def BakSuffix_def dot_names_def has_prefix_def)
qed

lemma BootSuccess_confirms_running_candidate_witness:
  "evolves (\<lambda>h. same_outside (boot_files sample_env sample_path [''health''] None sample_dirs trial_disk) trial_disk h \<and>
      record_texts sample_path (boot_texts sample_env sample_path [''health''] trial_disk) trial_disk h)
     (world_of trial_disk) (snd (BootSuccess sample_env sample_path [''health''] None sample_dirs (world_of trial_disk)))"
proof -
  have "unshared (w_disk (world_of trial_disk))"
    by (simp add: trial_disk_def sample_slots_def slot_list_def slot_groups_def)
  then show ?thesis
    using BootSuccess_confirms_running_candidate [OF boot_layout_sample _ _ prod.collapse [symmetric], of "world_of trial_disk" sample_env "[''health'']"]
    by (simp add: store_ok_def)
qed

end
