(* ===== verification/Kernel.thy ===== *)
theory Kernel
  imports Prelude "HOL-Library.State_Monad" "HOL-Library.Word"
begin

section \<open>Early boot: the kernel's answers and the trace of the calls\<close>

text \<open>
  The ground of package boot. The code of an initramfs talks to the running kernel: it reads
  sysfs, mounts, and sets up loop devices and dm-verity mappings. The kernel is the parameter
  \<open>kernel\<close>: for every kind of call a function from the whole trace of the calls so far to the
  answer, so nothing is assumed about what it answers, or about it answering twice the same. The
  program runs in the state monad over that trace, newest call first. Paths are strings here,
  since the code puts them together with \<open>+\<close>. Log lines are left out.
\<close>

subsection \<open>Calls\<close>

text \<open>A request to the device-mapper control node: the header fields the code sets, and the payload.\<close>

record dm_request =
  dm_nr :: nat
  dm_version :: "nat list"
  dm_data_size :: nat
  dm_data_start :: nat
  dm_target_count :: nat
  dm_flags :: nat
  dm_name :: string
  dm_payload :: string

datatype event =
    Read_call string
  | Mkdir_call string
  | Unlink_call string
  | Rmdir_call string
  | Symlink_call string string
  | Mknod_call string "64 word"
  | Mknod_char_call string "64 word"
  | Dup_call nat
  | Module_call string
  | Mount_call string string string nat string bool
  | Unmount_call string
  | Dm_call dm_request bool
  | Loop_free_call
  | Loop_configure_call string string bool
  | Loop_clear_call string
  | Sleep_call int
  | Exec_call string "string list"
  | Chdir_call string
  | Chroot_call string bool
  | Switch_call string
  | Halt_call

type_synonym trace = "event list"

record file_stat =
  fs_is_dir :: bool
  fs_mode :: nat
  fs_block :: bool
  fs_rdev :: "64 word"
  fs_dev :: nat

text \<open>\<open>k_read_at t p off n\<close> opens \<open>p\<close> and reads exactly \<open>n\<close> bytes at \<open>off\<close>; a short read is
  an error, as for \<open>ReadAt\<close>. \<open>k_dm\<close> answers with the device number of the mapping.\<close>

record kernel =
  k_read_file :: "trace \<Rightarrow> string \<Rightarrow> error + string"
  k_read_at :: "trace \<Rightarrow> string \<Rightarrow> nat \<Rightarrow> nat \<Rightarrow> error + string"
  k_stat :: "trace \<Rightarrow> string \<Rightarrow> error + file_stat"
  k_lstat :: "trace \<Rightarrow> string \<Rightarrow> error + file_stat"
  k_readdir :: "trace \<Rightarrow> string \<Rightarrow> error + (string \<times> bool) list"
  k_glob :: "trace \<Rightarrow> string \<Rightarrow> string list"
  k_realpath :: "trace \<Rightarrow> string \<Rightarrow> error + string"
  k_mknod :: "trace \<Rightarrow> string \<Rightarrow> 64 word \<Rightarrow> error + unit"
  k_mount :: "trace \<Rightarrow> string \<Rightarrow> string \<Rightarrow> string \<Rightarrow> nat \<Rightarrow> string \<Rightarrow> error + unit"
  k_unmount :: "trace \<Rightarrow> string \<Rightarrow> error + unit"
  k_dm_open :: "trace \<Rightarrow> error + unit"
  k_dm :: "trace \<Rightarrow> dm_request \<Rightarrow> error + 64 word"
  k_open :: "trace \<Rightarrow> string \<Rightarrow> error + unit"
  k_finit_module :: "trace \<Rightarrow> string \<Rightarrow> error + unit"
  k_loop_free :: "trace \<Rightarrow> error + nat"
  k_loop_configure :: "trace \<Rightarrow> string \<Rightarrow> string \<Rightarrow> error + unit"
  k_loop_clear :: "trace \<Rightarrow> string \<Rightarrow> error + unit"
  k_exec :: "trace \<Rightarrow> string \<Rightarrow> string list \<Rightarrow> error + string"
  k_chdir :: "trace \<Rightarrow> string \<Rightarrow> error + unit"
  k_chroot :: "trace \<Rightarrow> string \<Rightarrow> error + unit"
  k_execve :: "trace \<Rightarrow> string \<Rightarrow> string list \<Rightarrow> error + unit"
  k_uname :: "trace \<Rightarrow> error + string"
  k_stdin :: "trace \<Rightarrow> string"
  k_statfs :: "trace \<Rightarrow> string \<Rightarrow> error + nat"

type_synonym 'a boot = "(trace, 'a) state"

text \<open>One call: it is answered from the trace and recorded with its outcome.\<close>

definition kcall :: "(trace \<Rightarrow> error + 'a) \<Rightarrow> (bool \<Rightarrow> event) \<Rightarrow> (error + 'a) boot" where
  "kcall f ev = State (\<lambda>t. let r = f t in (r, ev (\<not> isl r) # t))"

definition pure :: "'a \<Rightarrow> ('s, 'a) state" where
  "pure x = State (\<lambda>s. (x, s))"

definition note_call :: "event \<Rightarrow> unit boot" where
  "note_call ev = State (\<lambda>t. ((), ev # t))"

lemma run_kcall [simp]: "run_state (kcall f ev) t = (f t, ev (\<not> isl (f t)) # t)"
  by (simp add: kcall_def Let_def)

lemma run_pure [simp]: "run_state (pure x) s = (x, s)"
  by (simp add: pure_def)

lemma run_note_call [simp]: "run_state (note_call ev) t = ((), ev # t)"
  by (simp add: note_call_def)

lemma bind_pure [simp]: "State_Monad.bind (pure x) f = f x"
  by (rule state_ext) simp

lemma run_bind_eq:
  "run_state (State_Monad.bind m f) t = (x, t') \<longleftrightarrow> (\<exists>y t1. run_state m t = (y, t1) \<and> run_state (f y) t1 = (x, t'))"
  by (auto split: prod.splits)

lemma run_bind_sum:
  "run_state (State_Monad.bind m (\<lambda>r. case r of Inl e \<Rightarrow> f e | Inr x \<Rightarrow> g x)) t = (y, t') \<longleftrightarrow>
     (\<exists>e t1. run_state m t = (Inl e, t1) \<and> run_state (f e) t1 = (y, t')) \<or>
     (\<exists>x t1. run_state m t = (Inr x, t1) \<and> run_state (g x) t1 = (y, t'))"
  by (cases "run_state m t"; cases "fst (run_state m t)") auto

lemma run_bind_option:
  "run_state (State_Monad.bind m (\<lambda>r. case r of None \<Rightarrow> f | Some x \<Rightarrow> g x)) t = (y, t') \<longleftrightarrow>
     (\<exists>t1. run_state m t = (None, t1) \<and> run_state f t1 = (y, t')) \<or>
     (\<exists>x t1. run_state m t = (Some x, t1) \<and> run_state (g x) t1 = (y, t'))"
  by (cases "run_state m t"; cases "fst (run_state m t)") auto

definition sys_read_file :: "kernel \<Rightarrow> string \<Rightarrow> (error + string) boot" where
  "sys_read_file K p = kcall (\<lambda>t. k_read_file K t p) (\<lambda>_. Read_call p)"

text \<open>A reply of another length than asked for is no reply of \<open>ReadAt\<close>.\<close>

definition sys_read_at :: "kernel \<Rightarrow> string \<Rightarrow> nat \<Rightarrow> nat \<Rightarrow> (error + string) boot" where
  "sys_read_at K p off n = kcall (\<lambda>t. case k_read_at K t p off n of
     Inl e \<Rightarrow> Inl e | Inr s \<Rightarrow> if length s = n then Inr s else Inl (Errorf ''EOF'')) (\<lambda>_. Read_call p)"

definition sys_stat :: "kernel \<Rightarrow> string \<Rightarrow> (error + file_stat) boot" where
  "sys_stat K p = kcall (\<lambda>t. k_stat K t p) (\<lambda>_. Read_call p)"

definition sys_lstat :: "kernel \<Rightarrow> string \<Rightarrow> (error + file_stat) boot" where
  "sys_lstat K p = kcall (\<lambda>t. k_lstat K t p) (\<lambda>_. Read_call p)"

definition sys_readdir :: "kernel \<Rightarrow> string \<Rightarrow> (error + (string \<times> bool) list) boot" where
  "sys_readdir K p = kcall (\<lambda>t. k_readdir K t p) (\<lambda>_. Read_call p)"

definition sys_glob :: "kernel \<Rightarrow> string \<Rightarrow> string list boot" where
  "sys_glob K p = State (\<lambda>t. (k_glob K t p, Read_call p # t))"

definition sys_realpath :: "kernel \<Rightarrow> string \<Rightarrow> (error + string) boot" where
  "sys_realpath K p = kcall (\<lambda>t. k_realpath K t p) (\<lambda>_. Read_call p)"

definition sys_mknod :: "kernel \<Rightarrow> string \<Rightarrow> 64 word \<Rightarrow> (error + unit) boot" where
  "sys_mknod K p dev = kcall (\<lambda>t. k_mknod K t p dev) (\<lambda>_. Mknod_call p dev)"

definition sys_mount :: "kernel \<Rightarrow> string \<Rightarrow> string \<Rightarrow> string \<Rightarrow> nat \<Rightarrow> string \<Rightarrow> (error + unit) boot" where
  "sys_mount K src dst fstype flags opts = kcall (\<lambda>t. k_mount K t src dst fstype flags opts) (Mount_call src dst fstype flags opts)"

definition sys_unmount :: "kernel \<Rightarrow> string \<Rightarrow> (error + unit) boot" where
  "sys_unmount K p = kcall (\<lambda>t. k_unmount K t p) (\<lambda>_. Unmount_call p)"

definition sys_sleep :: "int \<Rightarrow> unit boot" where
  "sys_sleep d = note_call (Sleep_call d)"

definition sys_mkdir_all :: "string \<Rightarrow> unit boot" where
  "sys_mkdir_all p = note_call (Mkdir_call p)"

definition sys_unlink :: "string \<Rightarrow> unit boot" where
  "sys_unlink p = note_call (Unlink_call p)"

definition sys_rmdir :: "string \<Rightarrow> unit boot" where
  "sys_rmdir p = note_call (Rmdir_call p)"

subsection \<open>What a program adds to the trace\<close>

text \<open>\<open>emits P m\<close>: whatever the kernel answers, the program only adds calls that satisfy \<open>P\<close>.\<close>

definition emits :: "(event \<Rightarrow> bool) \<Rightarrow> 'a boot \<Rightarrow> bool" where
  "emits P m \<longleftrightarrow> (\<forall>t. \<exists>es. snd (run_state m t) = es @ t \<and> list_all P es)"

named_theorems emit_intros \<open>rules for what a program adds to the trace\<close>

lemma emits_pure [emit_intros]: "emits P (pure x)"
  by (simp add: emits_def)

lemma emits_kcall: "(\<And>b. P (ev b)) \<Longrightarrow> emits P (kcall f ev)"
  by (auto simp: emits_def)

lemma emits_note_call: "P ev \<Longrightarrow> emits P (note_call ev)"
  by (auto simp: emits_def)

lemma emits_bind [emit_intros]:
  assumes "emits P m" "\<And>x. emits P (f x)"
  shows "emits P (State_Monad.bind m f)"
  unfolding emits_def
proof
  fix t
  obtain x t1 where m: "run_state m t = (x, t1)" by (cases "run_state m t")
  with assms(1) obtain es1 where es1: "t1 = es1 @ t" "list_all P es1"
    unfolding emits_def by (metis snd_conv)
  from assms(2) obtain es2 where "snd (run_state (f x) t1) = es2 @ t1" "list_all P es2"
    unfolding emits_def by blast
  with es1 m show "\<exists>es. snd (run_state (State_Monad.bind m f) t) = es @ t \<and> list_all P es"
    by (intro exI [of _ "es2 @ es1"]) simp
qed

lemma emits_mono: "emits P m \<Longrightarrow> (\<And>e. P e \<Longrightarrow> Q e) \<Longrightarrow> emits Q m"
  unfolding emits_def by (metis list.pred_mono_strong)

lemma emitsE:
  assumes "emits P m" "run_state m t = (x, t')"
  obtains es where "t' = es @ t" "list_all P es"
  using assms unfolding emits_def by (metis snd_conv)

lemma emits_if [emit_intros]: "(b \<Longrightarrow> emits P m) \<Longrightarrow> (\<not> b \<Longrightarrow> emits P n) \<Longrightarrow> emits P (if b then m else n)"
  by simp

lemma emits_case_sum [emit_intros]:
  "(\<And>e. r = Inl e \<Longrightarrow> emits P (f e)) \<Longrightarrow> (\<And>x. r = Inr x \<Longrightarrow> emits P (g x)) \<Longrightarrow> emits P (case r of Inl e \<Rightarrow> f e | Inr x \<Rightarrow> g x)"
  by (cases r) auto

lemma emits_case_option [emit_intros]:
  "(r = None \<Longrightarrow> emits P f) \<Longrightarrow> (\<And>x. r = Some x \<Longrightarrow> emits P (g x)) \<Longrightarrow> emits P (case r of None \<Rightarrow> f | Some x \<Rightarrow> g x)"
  by (cases r) auto

lemma emits_case_prod [emit_intros]: "(\<And>x y. p = (x, y) \<Longrightarrow> emits P (f x y)) \<Longrightarrow> emits P (case p of (x, y) \<Rightarrow> f x y)"
  by (cases p) auto

lemma emits_let [emit_intros]: "emits P (f x) \<Longrightarrow> emits P (let y = x in f y)"
  by simp

text \<open>The calls that only look.\<close>

definition looks :: "event \<Rightarrow> bool" where
  "looks e \<longleftrightarrow> (\<exists>p. e = Read_call p)"

lemma emits_looks [emit_intros]:
  "emits looks (sys_read_file K p)" "emits looks (sys_read_at K p off n)" "emits looks (sys_stat K p)"
  "emits looks (sys_lstat K p)" "emits looks (sys_readdir K p)" "emits looks (sys_glob K p)" "emits looks (sys_realpath K p)"
  unfolding sys_read_file_def sys_read_at_def sys_stat_def sys_lstat_def sys_readdir_def sys_realpath_def
  by (rule emits_kcall, simp add: looks_def)+ (simp add: emits_def sys_glob_def looks_def)+

end
