(* ===== verification/Bootsys.thy ===== *)
theory Bootsys
  imports Kernel
begin

section \<open>The system as the initramfs sees it\<close>

text \<open>
  boot/system.go: the kernel command line, the block devices of sysfs, mounts. The
  preparation of the initramfs is in theory \<open>Early\<close>.
\<close>

subsection \<open>Path texts\<close>

text \<open>\<open>filepath.Base\<close>, \<open>filepath.Clean\<close> and \<open>filepath.Dir\<close> on texts.\<close>

definition slash :: char where
  "slash = CHR ''/''"

definition base_name :: "string \<Rightarrow> string" where
  "base_name p =
    (if p = [] then ''.''
     else let q = dropWhile (\<lambda>c. c = slash) (rev p)
          in if q = [] then [slash] else rev (takeWhile (\<lambda>c. c \<noteq> slash) q))"

fun clean_parts :: "bool \<Rightarrow> string list \<Rightarrow> string list \<Rightarrow> string list" where
  "clean_parts rooted acc [] = rev acc"
| "clean_parts rooted acc (p # ps) =
    (if p = [] \<or> p = ''.'' then clean_parts rooted acc ps
     else if p = ''..'' then
       (case acc of
          [] \<Rightarrow> clean_parts rooted (if rooted then [] else [p]) ps
        | a # as \<Rightarrow> if a = ''..'' then clean_parts rooted (p # acc) ps else clean_parts rooted as ps)
     else clean_parts rooted (p # acc) ps)"

definition path_clean :: "string \<Rightarrow> string" where
  "path_clean p =
    (let rooted = has_prefix [slash] p; body = join_with [slash] (clean_parts rooted [] (split_on slash p))
     in if rooted then slash # body else if body = [] then ''.'' else body)"

definition dir_name :: "string \<Rightarrow> string" where
  "dir_name p = path_clean (rev (dropWhile (\<lambda>c. c \<noteq> slash) (rev p)))"

subsection \<open>The command line\<close>

type_synonym cmdline = "string list"

definition ReadCmdline :: "kernel \<Rightarrow> cmdline boot" where
  "ReadCmdline K = do {
     r \<leftarrow> sys_read_file K ''/proc/cmdline'';
     pure (case r of Inl e \<Rightarrow> [] | Inr s \<Rightarrow> Prelude.fields s)
   }"

fun Cmdline_Value :: "cmdline \<Rightarrow> string \<Rightarrow> string" where
  "Cmdline_Value [] key = []"
| "Cmdline_Value (w # ws) key = (case cut_prefix (key @ ''='') w of Some v \<Rightarrow> v | None \<Rightarrow> Cmdline_Value ws key)"

definition Cmdline_Has :: "cmdline \<Rightarrow> string \<Rightarrow> bool" where
  "Cmdline_Has c word \<longleftrightarrow> list_ex (\<lambda>w. w = word \<or> w = word @ ''=1'') c"

subsection \<open>Block devices\<close>

record partition =
  pt_dev :: string
  pt_disk :: string
  pt_part_name :: string
  pt_label :: string

definition sys_block :: "string \<Rightarrow> string" where
  "sys_block name = ''/sys/class/block/'' @ name"

definition DiskOf :: "kernel \<Rightarrow> string \<Rightarrow> string boot" where
  "DiskOf K dev = (let name = base_name dev in do {
     r \<leftarrow> sys_stat K (sys_block name @ ''/partition'');
     case r of
       Inl e \<Rightarrow> pure name
     | Inr _ \<Rightarrow> do {
         q \<leftarrow> sys_realpath K (sys_block name);
         pure (case q of Inl e \<Rightarrow> name | Inr real \<Rightarrow> base_name (dir_name real))
       }
   })"

definition hasPartitions :: "kernel \<Rightarrow> string \<Rightarrow> bool boot" where
  "hasPartitions K disk = do {
     r \<leftarrow> sys_readdir K (sys_block disk);
     pure (case r of Inl e \<Rightarrow> False | Inr entries \<Rightarrow> list_ex (\<lambda>e. has_prefix disk (fst e)) entries)
   }"

definition ueventValue :: "kernel \<Rightarrow> string \<Rightarrow> string \<Rightarrow> string boot" where
  "ueventValue K name key = do {
     r \<leftarrow> sys_read_file K (sys_block name @ ''/uevent'');
     pure (case r of Inl e \<Rightarrow> [] | Inr s \<Rightarrow> Cmdline_Value (scan_lines s) key)
   }"

primrec partition_list :: "kernel \<Rightarrow> (string \<times> bool) list \<Rightarrow> partition list boot" where
  "partition_list K [] = pure []"
| "partition_list K (e # es) = (let name = fst e in
     if has_prefix ''loop'' name \<or> has_prefix ''ram'' name \<or> has_prefix ''dm-'' name \<or> has_prefix ''zram'' name
     then partition_list K es
     else do {
       disk \<leftarrow> DiskOf K (''/dev/'' @ name);
       r \<leftarrow> sys_stat K (sys_block name @ ''/partition'');
       skip \<leftarrow> (case r of Inl e \<Rightarrow> hasPartitions K name | Inr _ \<Rightarrow> pure False);
       if skip then partition_list K es
       else do {
         partName \<leftarrow> ueventValue K name ''PARTNAME'';
         rest \<leftarrow> partition_list K es;
         pure (\<lparr>pt_dev = ''/dev/'' @ name, pt_disk = disk, pt_part_name = partName, pt_label = []\<rparr> # rest)
       }
     })"

definition Partitions :: "kernel \<Rightarrow> partition list boot" where
  "Partitions K = do {
     r \<leftarrow> sys_readdir K ''/sys/class/block'';
     case r of
       Inl e \<Rightarrow> pure []
     | Inr entries \<Rightarrow> do { out \<leftarrow> partition_list K entries; pure (sort_key pt_dev out) }
   }"

definition LoopBacking :: "kernel \<Rightarrow> string \<Rightarrow> string boot" where
  "LoopBacking K dev = do {
     r \<leftarrow> sys_read_file K (sys_block (base_name dev) @ ''/loop/backing_file'');
     pure (case r of Inl e \<Rightarrow> [] | Inr s \<Rightarrow> trim_space s)
   }"

definition IsVerityHash :: "kernel \<Rightarrow> string \<Rightarrow> bool boot" where
  "IsVerityHash K dev = do {
     r \<leftarrow> sys_read_at K dev 0 8;
     pure (case r of Inl e \<Rightarrow> False | Inr magic \<Rightarrow> take 6 magic = ''verity'')
   }"

subsection \<open>Mounts\<close>

definition MS_RDONLY :: nat where "MS_RDONLY = 1"
definition MS_NOSUID :: nat where "MS_NOSUID = 2"
definition MS_NODEV :: nat where "MS_NODEV = 4"
definition MS_NOEXEC :: nat where "MS_NOEXEC = 8"
definition MS_REMOUNT :: nat where "MS_REMOUNT = 32"
definition MS_BIND :: nat where "MS_BIND = 4096"
definition MS_MOVE :: nat where "MS_MOVE = 8192"

definition Mount :: "kernel \<Rightarrow> string \<Rightarrow> string \<Rightarrow> string \<Rightarrow> nat \<Rightarrow> string \<Rightarrow> (error + unit) boot" where
  "Mount K src dst fstype flags opts = do {
     sys_mkdir_all dst;
     r \<leftarrow> sys_mount K src dst fstype flags opts;
     pure (case r of Inl e \<Rightarrow> Inl (Wrap (''mount '' @ src @ '' on '' @ dst) e) | Inr u \<Rightarrow> Inr u)
   }"

definition Move :: "kernel \<Rightarrow> string \<Rightarrow> string \<Rightarrow> (error + unit) boot" where
  "Move K src dst = Mount K src dst [] MS_MOVE []"

definition Bind :: "kernel \<Rightarrow> string \<Rightarrow> string \<Rightarrow> (error + unit) boot" where
  "Bind K src dst = Mount K src dst [] MS_BIND []"

definition Unmount :: "kernel \<Rightarrow> string \<Rightarrow> unit boot" where
  "Unmount K p = do { _ \<leftarrow> sys_unmount K p; pure () }"

text \<open>The last matching line of the mount table counts.\<close>

definition mounted_line :: "string \<Rightarrow> string \<Rightarrow> string \<Rightarrow> string" where
  "mounted_line path fstype line =
     (case Prelude.fields line of _ # mp # fs # _ \<Rightarrow> if mp = path then fs else fstype | _ \<Rightarrow> fstype)"

definition MountedFS :: "kernel \<Rightarrow> string \<Rightarrow> string boot" where
  "MountedFS K path = do {
     r \<leftarrow> sys_read_file K ''/proc/mounts'';
     pure (case r of Inl e \<Rightarrow> [] | Inr s \<Rightarrow> foldl (mounted_line path) [] (split_on newline s))
   }"

definition file_exists :: "kernel \<Rightarrow> string \<Rightarrow> bool boot" where
  "file_exists K path = do { r \<leftarrow> sys_stat K path; pure (\<not> isl r) }"

definition Executable :: "kernel \<Rightarrow> string \<Rightarrow> bool boot" where
  "Executable K path = do {
     r \<leftarrow> sys_stat K path;
     pure (case r of Inl e \<Rightarrow> False | Inr fi \<Rightarrow> \<not> fs_is_dir fi \<and> executable_mode (fs_mode fi))
   }"

subsection \<open>What they emit\<close>

lemma emits_partition_list [emit_intros]: "emits looks (partition_list K es)"
  by (induction es) (auto simp: DiskOf_def hasPartitions_def ueventValue_def Let_def intro!: emit_intros)

lemma emits_system [emit_intros]:
  "emits looks (ReadCmdline K)" "emits looks (DiskOf K dev)" "emits looks (Partitions K)"
  "emits looks (IsVerityHash K dev)" "emits looks (MountedFS K p)" "emits looks (file_exists K p)" "emits looks (Executable K p)"
  by (auto simp: ReadCmdline_def DiskOf_def Partitions_def IsVerityHash_def MountedFS_def file_exists_def Executable_def Let_def
    intro!: emit_intros)

end
