(* ===== verification/Verity.thy ===== *)
theory Verity
  imports Bootsys Trust
begin

unbundle bit_operations_syntax

section \<open>dm-verity\<close>

text \<open>
  boot/verity.go: the superblock of a hash device, the table line and the target record handed to
  device mapper, and the opening and closing of a mapping. Numbers keep their width as words.
  SHA-256 is the field of \<open>crypto\<close>, the kernel the parameter of theory \<open>Kernel\<close>.
\<close>

subsection \<open>Little-endian numbers\<close>

primrec le_val :: "string \<Rightarrow> nat" where
  "le_val [] = 0"
| "le_val (c # cs) = byte c + 256 * le_val cs"

primrec le_bytes :: "nat \<Rightarrow> nat \<Rightarrow> string" where
  "le_bytes 0 n = []"
| "le_bytes (Suc k) n = char_of (n mod 256) # le_bytes k (n div 256)"

definition le_at :: "string \<Rightarrow> nat \<Rightarrow> nat \<Rightarrow> nat" where
  "le_at buf off k = le_val (take k (drop off buf))"

definition pad_to :: "nat \<Rightarrow> string \<Rightarrow> string" where
  "pad_to n s = take n s @ replicate (n - length s) (CHR 0x00)"

definition trim_nuls :: "string \<Rightarrow> string" where
  "trim_nuls s = rev (dropWhile (\<lambda>c. c = CHR 0x00) (rev s))"

subsection \<open>The superblock\<close>

record verity_superblock =
  vs_version :: "32 word"
  vs_hash_type :: "32 word"
  vs_algorithm :: string
  vs_data_block_size :: "32 word"
  vs_hash_block_size :: "32 word"
  vs_data_blocks :: "64 word"
  vs_salt :: string

definition verityMagic :: string where
  "verityMagic = ''verity'' @ [CHR 0x00, CHR 0x00]"

definition bad_block_size :: "32 word \<Rightarrow> bool" where
  "bad_block_size sz \<longleftrightarrow> sz < 512 \<or> 65536 < sz \<or> sz AND (sz - 1) \<noteq> 0"

definition ParseVeritySuperblock :: "string \<Rightarrow> error + verity_superblock" where
  "ParseVeritySuperblock buf =
    (if length buf < 512 \<or> take 8 buf \<noteq> verityMagic then Inl (Errorf ''not a verity hash device'')
     else let sb = \<lparr>vs_version = word_of_nat (le_at buf 8 4), vs_hash_type = word_of_nat (le_at buf 12 4),
                 vs_algorithm = trim_nuls (take 32 (drop 32 buf)),
                 vs_data_block_size = word_of_nat (le_at buf 64 4), vs_hash_block_size = word_of_nat (le_at buf 68 4),
                 vs_data_blocks = word_of_nat (le_at buf 72 8), vs_salt = []\<rparr>;
              saltSize = le_at buf 80 2
          in if vs_version sb \<noteq> 1 \<or> vs_hash_type sb \<noteq> 1 \<or> 256 < saltSize
             then Inl (Errorf ''unsupported verity superblock'')
             else if vs_algorithm sb \<noteq> ''sha256'' then Inl (Errorf ''unsupported verity hash'')
             else if list_ex bad_block_size [vs_data_block_size sb, vs_hash_block_size sb]
             then Inl (Errorf ''invalid verity block size'')
             else if vs_data_blocks sb = 0 then Inl (Errorf ''verity superblock lists no data blocks'')
             else Inr (sb\<lparr>vs_salt := take saltSize (drop 88 buf)\<rparr>))"

definition ReadVeritySuperblock :: "kernel \<Rightarrow> string \<Rightarrow> (error + verity_superblock) boot" where
  "ReadVeritySuperblock K hashDev = do {
     r \<leftarrow> sys_read_at K hashDev 0 512;
     pure (err_bind r ParseVeritySuperblock)
   }"

text \<open>The root hash of a hash device, from the block at the top of its tree.\<close>

definition VerityRootHash :: "crypto \<Rightarrow> kernel \<Rightarrow> string \<Rightarrow> (error + (string \<times> verity_superblock)) boot" where
  "VerityRootHash cr K hashDev = do {
     r \<leftarrow> sys_read_at K hashDev 0 512;
     case err_bind r ParseVeritySuperblock of
       Inl e \<Rightarrow> pure (Inl e)
     | Inr sb \<Rightarrow> do {
         q \<leftarrow> sys_read_at K hashDev (unat (vs_hash_block_size sb)) (unat (vs_hash_block_size sb));
         pure (case q of
             Inl e \<Rightarrow> Inl e
           | Inr blk \<Rightarrow> Inr (hex_encode (sha256 cr (vs_salt sb @ blk)), sb))
       }
   }"

definition ValidRootHash :: "string \<Rightarrow> bool" where
  "ValidRootHash h \<longleftrightarrow> (case hex_decode h of None \<Rightarrow> False | Some b \<Rightarrow> length b = 32)"

subsection \<open>What device mapper is told\<close>

definition word_str :: "'a::len word \<Rightarrow> string" where
  "word_str w = nat_str (unat w)"

definition VerityTable :: "verity_superblock \<Rightarrow> string \<Rightarrow> string \<Rightarrow> string \<Rightarrow> string" where
  "VerityTable sb dataDev hashDev rootHash =
    (let salt = (if 0 < length (vs_salt sb) then hex_encode (vs_salt sb) else ''-'')
     in join_with '' '' [word_str (vs_hash_type sb), dataDev, hashDev, word_str (vs_data_block_size sb),
          word_str (vs_hash_block_size sb), word_str (vs_data_blocks sb), ''1'', vs_algorithm sb, map to_lower rootHash, salt])"

definition device_text :: "64 word \<Rightarrow> string" where
  "device_text rdev =
    (let major = drop_bit 8 rdev AND 0xfff; minor = (rdev AND 0xff) OR (drop_bit 12 rdev AND 0xfff00)
     in word_str major @ '':'' @ word_str minor)"

text \<open>The other direction, for the node of the control device.\<close>

definition mkdev :: "64 word \<Rightarrow> 64 word \<Rightarrow> 64 word" where
  "mkdev major minor = push_bit 8 major OR (minor AND 0xff) OR push_bit 12 (minor AND NOT 0xff)"

definition devNumber :: "kernel \<Rightarrow> string \<Rightarrow> (error + string) boot" where
  "devNumber K path = do {
     r \<leftarrow> sys_stat K path;
     pure (err_bind r (\<lambda>st. if \<not> fs_block st then Inl (Errorf (path @ '' is not a block device'')) else Inr (device_text (fs_rdev st))))
   }"

definition dmIoctlSize :: nat where "dmIoctlSize = 312"
definition dmTargetSpecLen :: nat where "dmTargetSpecLen = 40"
definition dmReadOnlyFlag :: nat where "dmReadOnlyFlag = 1"
definition dmDevCreate :: nat where "dmDevCreate = 3"
definition dmDevRemove :: nat where "dmDevRemove = 4"
definition dmDevSuspend :: nat where "dmDevSuspend = 6"
definition dmTableLoad :: nat where "dmTableLoad = 9"

definition dm_header :: "nat \<Rightarrow> string \<Rightarrow> nat \<Rightarrow> string \<Rightarrow> nat \<Rightarrow> dm_request" where
  "dm_header nr name flags payload targets =
    (let sz = dmIoctlSize + length payload; sz = (if sz < 16384 then 16384 else sz)
     in \<lparr>dm_nr = nr, dm_version = [4, 0, 0], dm_data_size = sz, dm_data_start = dmIoctlSize,
         dm_target_count = targets, dm_flags = flags, dm_name = name, dm_payload = payload\<rparr>)"

definition dmCall :: "kernel \<Rightarrow> nat \<Rightarrow> string \<Rightarrow> nat \<Rightarrow> string \<Rightarrow> nat \<Rightarrow> (error + 64 word) boot" where
  "dmCall K nr name flags payload targets =
    (if length name = 0 \<or> 128 \<le> length name \<or> slash \<in> set name then pure (Inl (Errorf ''invalid mapping name''))
     else do {
       c \<leftarrow> kcall (k_dm_open K) (\<lambda>_. Read_call ''/dev/mapper/control'');
       case c of
         Inl e \<Rightarrow> pure (Inl (Wrap ''device-mapper control'' e))
       | Inr _ \<Rightarrow> kcall (\<lambda>t. k_dm K t (dm_header nr name flags payload targets)) (Dm_call (dm_header nr name flags payload targets))
     })"

definition verityTarget :: "nat \<Rightarrow> string \<Rightarrow> string" where
  "verityTarget sectors params =
    (let plen = length params + 1; total = dmTargetSpecLen + (plen + 7) div 8 * 8
     in le_bytes 8 0 @ le_bytes 8 sectors @ le_bytes 4 0 @ le_bytes 4 total @ pad_to 16 ''verity'' @
        pad_to (total - dmTargetSpecLen) params)"

subsection \<open>Mappings\<close>

definition mapper_node :: "string \<Rightarrow> string" where
  "mapper_node name = path_clean (''/dev/mapper/'' @ name)"

text \<open>The removal is tried forty times while the mapping is busy.\<close>

primrec close_attempts :: "kernel \<Rightarrow> string \<Rightarrow> nat \<Rightarrow> error + unit \<Rightarrow> (error + unit) boot" where
  "close_attempts K name 0 err = pure err"
| "close_attempts K name (Suc n) err = do {
     r \<leftarrow> dmCall K dmDevRemove name 0 [] 0;
     case r of
       Inr _ \<Rightarrow> pure (Inr ())
     | Inl e \<Rightarrow>
         if e = Sys ENXIO then pure (Inr ())
         else if e \<noteq> Sys EBUSY then pure (Inl e)
         else do { sys_sleep 50000000; close_attempts K name n (Inl e) }
   }"

definition CloseVerity :: "kernel \<Rightarrow> string \<Rightarrow> (error + unit) boot" where
  "CloseVerity K name = do {
     sys_unlink (mapper_node name);
     close_attempts K name 40 (Inr ())
   }"

definition sectors_of :: "verity_superblock \<Rightarrow> nat" where
  "sectors_of sb = unat (vs_data_blocks sb * ucast (vs_data_block_size sb)) div 512"

text \<open>A step after the creation that fails removes the mapping again.\<close>

definition undo_create :: "kernel \<Rightarrow> string \<Rightarrow> error \<Rightarrow> (error + string) boot" where
  "undo_create K name e = do { _ \<leftarrow> dmCall K dmDevRemove name 0 [] 0; pure (Inl e) }"

definition make_node :: "kernel \<Rightarrow> string \<Rightarrow> 64 word \<Rightarrow> (error + string) boot" where
  "make_node K name dev = (let node = mapper_node name in do {
     sys_mkdir_all ''/dev/mapper'';
     sys_unlink node;
     r \<leftarrow> sys_mknod K node dev;
     case r of
       Inl e \<Rightarrow> do { _ \<leftarrow> CloseVerity K name; pure (Inl (Wrap (''node '' @ node) e)) }
     | Inr _ \<Rightarrow> pure (Inr node)
   })"

definition load_mapping :: "kernel \<Rightarrow> string \<Rightarrow> string \<Rightarrow> (error + string) boot" where
  "load_mapping K name payload = do {
     c \<leftarrow> dmCall K dmDevCreate name dmReadOnlyFlag [] 0;
     case c of
       Inl e \<Rightarrow> pure (Inl (Wrap (''create '' @ name) e))
     | Inr dev \<Rightarrow> do {
         l \<leftarrow> dmCall K dmTableLoad name dmReadOnlyFlag payload 1;
         case l of
           Inl e \<Rightarrow> undo_create K name (Wrap (''load '' @ name) e)
         | Inr _ \<Rightarrow> do {
             s \<leftarrow> dmCall K dmDevSuspend name 0 [] 0;
             case s of
               Inl e \<Rightarrow> undo_create K name (Wrap (''resume '' @ name) e)
             | Inr _ \<Rightarrow> make_node K name dev
           }
       }
   }"

definition OpenVerity :: "kernel \<Rightarrow> string \<Rightarrow> string \<Rightarrow> string \<Rightarrow> string \<Rightarrow> (error + string) boot" where
  "OpenVerity K name dataDev hashDev rootHash =
    (if \<not> ValidRootHash rootHash then pure (Inl (Errorf ''invalid root hash''))
     else do {
       r \<leftarrow> ReadVeritySuperblock K hashDev;
       case r of
         Inl e \<Rightarrow> pure (Inl (Wrap hashDev e))
       | Inr sb \<Rightarrow> do {
           d \<leftarrow> devNumber K dataDev;
           case d of
             Inl e \<Rightarrow> pure (Inl e)
           | Inr dnum \<Rightarrow> do {
               h \<leftarrow> devNumber K hashDev;
               case h of
                 Inl e \<Rightarrow> pure (Inl e)
               | Inr hnum \<Rightarrow> load_mapping K name (verityTarget (sectors_of sb) (VerityTable sb dnum hnum rootHash))
             }
         }
     })"

definition DevBytes :: "kernel \<Rightarrow> string \<Rightarrow> 64 word boot" where
  "DevBytes K dev = do {
     r \<leftarrow> sys_read_file K (path_clean (sys_block (base_name dev) @ ''/size''));
     pure (case r of
         Inl e \<Rightarrow> 0
       | Inr b \<Rightarrow> (case parse_uint64 (trim_space b) of None \<Rightarrow> 0 | Some n \<Rightarrow> word_of_nat n * 512))
   }"

definition HasEROFS :: "kernel \<Rightarrow> string \<Rightarrow> bool boot" where
  "HasEROFS K dev = do {
     r \<leftarrow> sys_read_at K dev 1024 4;
     pure (case r of Inl e \<Rightarrow> False | Inr magic \<Rightarrow> magic = [CHR 0xE2, CHR 0xE1, CHR 0xF5, CHR 0xE0])
   }"

end
