(* ===== verification/Root.thy ===== *)
theory Root
  imports Verity
begin

section \<open>Finding the root image\<close>

text \<open>
  boot/loop.go and boot/root.go: loop devices, and the search for the root image whose dm-verity
  tree matches the signed root hash. \<open>ops\<close> is the struct \<open>Ops\<close> of functions the search runs on, over
  any state; \<open>SystemOps\<close> is its value for a kernel.
\<close>

subsection \<open>Loop devices\<close>

definition loop_dev :: "nat \<Rightarrow> string" where
  "loop_dev n = ''/dev/loop'' @ nat_str n"

text \<open>A free device may be taken before it is configured; then the next one is asked for.\<close>

primrec attach_attempts :: "kernel \<Rightarrow> string \<Rightarrow> nat \<Rightarrow> (error + string) boot" where
  "attach_attempts K file 0 = pure (Inl (Errorf (file @ '': loop devices kept being taken'')))"
| "attach_attempts K file (Suc k) = do {
     r \<leftarrow> kcall (k_loop_free K) (\<lambda>_. Loop_free_call);
     case r of
       Inl e \<Rightarrow> pure (Inl (Wrap ''no free loop device'' e))
     | Inr n \<Rightarrow> (let dev = loop_dev n in do {
         f \<leftarrow> kcall (\<lambda>t. k_open K t dev) (\<lambda>_. Read_call dev);
         case f of
           Inl e \<Rightarrow> pure (Inl e)
         | Inr _ \<Rightarrow> do {
             c \<leftarrow> kcall (\<lambda>t. k_loop_configure K t dev file) (Loop_configure_call dev file);
             case c of
               Inr _ \<Rightarrow> pure (Inr dev)
             | Inl e \<Rightarrow> if e = Sys EBUSY then attach_attempts K file k else pure (Inl (Wrap (file @ '' -> '' @ dev) e))
           }
       })
   }"

definition AttachLoop :: "kernel \<Rightarrow> string \<Rightarrow> (error + string) boot" where
  "AttachLoop K file = do {
     c \<leftarrow> kcall (\<lambda>t. k_open K t ''/dev/loop-control'') (\<lambda>_. Read_call ''/dev/loop-control'');
     case c of
       Inl e \<Rightarrow> pure (Inl (Wrap ''loop-control'' e))
     | Inr _ \<Rightarrow> do {
         b \<leftarrow> kcall (\<lambda>t. k_open K t file) (\<lambda>_. Read_call file);
         case b of Inl e \<Rightarrow> pure (Inl e) | Inr _ \<Rightarrow> attach_attempts K file 8
       }
   }"

definition DetachLoop :: "kernel \<Rightarrow> string \<Rightarrow> (error + unit) boot" where
  "DetachLoop K dev = do {
     f \<leftarrow> kcall (\<lambda>t. k_open K t dev) (\<lambda>_. Read_call dev);
     case f of Inl e \<Rightarrow> pure (Inl e) | Inr _ \<Rightarrow> kcall (\<lambda>t. k_loop_clear K t dev) (\<lambda>_. Loop_clear_call dev)
   }"

subsection \<open>Configuration, operations, media\<close>

record config =
  cf_root_hash :: string
  cf_live :: bool
  cf_portable :: bool
  cf_portable_root :: string
  cf_portable_hash :: string
  cf_unlocked :: bool
  cf_data_mount :: string
  cf_iso_mount :: string
  cf_attempts :: int
  cf_interval :: int

definition or_default :: "'a \<Rightarrow> 'a \<Rightarrow> 'a \<Rightarrow> 'a" where
  "or_default zero d x = (if x = zero then d else x)"

definition defaults :: "config \<Rightarrow> config" where
  "defaults c = c\<lparr>cf_data_mount := or_default [] ''/sysdata'' (cf_data_mount c),
     cf_iso_mount := or_default [] ''/isomedia'' (cf_iso_mount c),
     cf_attempts := or_default 0 75 (cf_attempts c), cf_interval := or_default 0 200000000 (cf_interval c),
     cf_live := cf_live c \<or> cf_portable c\<rparr>"

text \<open>\<open>HashRoot\<close> and \<open>DevBytes\<close> may be nil.\<close>

record 's ops =
  op_Partitions :: "('s, partition list) state"
  op_MountData :: "string \<Rightarrow> string \<Rightarrow> ('s, bool) state"
  op_Unmount :: "string \<Rightarrow> ('s, error + unit) state"
  op_Glob :: "string \<Rightarrow> ('s, string list) state"
  op_Exists :: "string \<Rightarrow> ('s, bool) state"
  op_AttachLoop :: "string \<Rightarrow> ('s, error + string) state"
  op_DetachLoop :: "string \<Rightarrow> ('s, error + unit) state"
  op_OpenVerity :: "string \<Rightarrow> string \<Rightarrow> string \<Rightarrow> string \<Rightarrow> ('s, error + string) state"
  op_CloseVerity :: "string \<Rightarrow> ('s, error + unit) state"
  op_HasEROFS :: "string \<Rightarrow> ('s, bool) state"
  op_IsVerityHash :: "string \<Rightarrow> ('s, bool) state"
  op_HashRoot :: "(string \<Rightarrow> ('s, string \<times> 64 word) state) option"
  op_DevBytes :: "(string \<Rightarrow> ('s, 64 word) state) option"
  op_MountISO :: "string \<Rightarrow> string \<Rightarrow> ('s, bool) state"
  op_DiskOf :: "string \<Rightarrow> ('s, string) state"
  op_Sleep :: "int \<Rightarrow> ('s, unit) state"

primrec mount_any :: "kernel \<Rightarrow> string \<Rightarrow> string \<Rightarrow> (string \<times> nat) list \<Rightarrow> bool boot" where
  "mount_any K dev dir [] = pure False"
| "mount_any K dev dir (x # xs) = do {
     r \<leftarrow> sys_mount K dev dir (fst x) (snd x) [];
     if isl r then mount_any K dev dir xs else pure True
   }"

definition system_mount_data :: "kernel \<Rightarrow> string \<Rightarrow> string \<Rightarrow> bool boot" where
  "system_mount_data K dev dir = do {
     sys_mkdir_all dir;
     mount_any K dev dir [(''ext4'', MS_RDONLY), (''f2fs'', 0), (''f2fs'', MS_RDONLY)]
   }"

definition system_hash_root :: "crypto \<Rightarrow> kernel \<Rightarrow> string \<Rightarrow> (string \<times> 64 word) boot" where
  "system_hash_root cr K dev = do {
     r \<leftarrow> VerityRootHash cr K dev;
     pure (case r of Inl e \<Rightarrow> ([], 0) | Inr (root, sb) \<Rightarrow> (root, vs_data_blocks sb * ucast (vs_data_block_size sb)))
   }"

definition system_mount_iso :: "kernel \<Rightarrow> string \<Rightarrow> string \<Rightarrow> bool boot" where
  "system_mount_iso K dev dir = do { sys_mkdir_all dir; mount_any K dev dir [(''iso9660'', MS_RDONLY)] }"

definition SystemOps :: "crypto \<Rightarrow> kernel \<Rightarrow> trace ops" where
  "SystemOps cr K = \<lparr>op_Partitions = Partitions K, op_MountData = system_mount_data K, op_Unmount = sys_unmount K,
     op_Glob = sys_glob K, op_Exists = file_exists K, op_AttachLoop = AttachLoop K, op_DetachLoop = DetachLoop K,
     op_OpenVerity = OpenVerity K, op_CloseVerity = CloseVerity K, op_HasEROFS = HasEROFS K,
     op_IsVerityHash = IsVerityHash K, op_HashRoot = Some (system_hash_root cr K), op_DevBytes = Some (DevBytes K),
     op_MountISO = system_mount_iso K, op_DiskOf = DiskOf K, op_Sleep = sys_sleep\<rparr>"

record media =
  md_data_dev :: string
  md_slot_datas :: "string list"
  md_slot_hashes :: "string list"
  md_iso_dev :: string
  md_iso_data :: string
  md_iso_hash :: string

definition zero_media :: media where
  "zero_media = \<lparr>md_data_dev = [], md_slot_datas = [], md_slot_hashes = [], md_iso_dev = [], md_iso_data = [], md_iso_hash = []\<rparr>"

text \<open>Every slot file that attaches joins the images or the hash trees.\<close>

primrec attach_slots :: "'s ops \<Rightarrow> media \<Rightarrow> string list \<Rightarrow> ('s, media) state" where
  "attach_slots ops m [] = pure m"
| "attach_slots ops m (f # fs) = do {
     r \<leftarrow> op_AttachLoop ops f;
     attach_slots ops
       (case r of
          Inl e \<Rightarrow> m
        | Inr lp \<Rightarrow> if has_suffix ''.erofs'' f then m\<lparr>md_slot_datas := md_slot_datas m @ [lp]\<rparr>
                   else m\<lparr>md_slot_hashes := md_slot_hashes m @ [lp]\<rparr>) fs
   }"

primrec find_data :: "config \<Rightarrow> 's ops \<Rightarrow> media \<Rightarrow> partition list \<Rightarrow> ('s, media) state" where
  "find_data cfg ops m [] = pure m"
| "find_data cfg ops m (p # ps) =
    (if has_prefix ''sr'' (base_name (pt_dev p)) then find_data cfg ops m ps
     else do {
       mounted \<leftarrow> op_MountData ops (pt_dev p) (cf_data_mount cfg);
       if \<not> mounted then find_data cfg ops m ps
       else do {
         slots \<leftarrow> op_Glob ops (cf_data_mount cfg @ ''/boot/rootfs/rootfs-*.erofs'');
         if length slots = 0 then do { _ \<leftarrow> op_Unmount ops (cf_data_mount cfg); find_data cfg ops m ps }
         else do {
           hashes \<leftarrow> op_Glob ops (cf_data_mount cfg @ ''/boot/rootfs/rootfs-*.hash'');
           attach_slots ops (m\<lparr>md_data_dev := pt_dev p\<rparr>) (slots @ hashes)
         }
       }
     })"

definition FindData :: "config \<Rightarrow> 's ops \<Rightarrow> media \<Rightarrow> ('s, media) state" where
  "FindData cfg ops m =
    (if md_data_dev m \<noteq> [] then pure m
     else do { parts \<leftarrow> op_Partitions ops; find_data cfg ops m parts })"

text \<open>The two files of an optical medium: both attach, or neither stays attached.\<close>

definition attach_iso :: "config \<Rightarrow> 's ops \<Rightarrow> media \<Rightarrow> string \<Rightarrow> ('s, media option) state" where
  "attach_iso cfg ops m dev =
    (let dat = cf_iso_mount cfg @ ''/live/rootfs.erofs''; hsh = cf_iso_mount cfg @ ''/live/rootfs.hash'' in do {
       ed \<leftarrow> op_Exists ops dat;
       eh \<leftarrow> (if ed then op_Exists ops hsh else pure False);
       if \<not> eh then pure None
       else do {
         dl \<leftarrow> op_AttachLoop ops dat;
         case dl of
           Inl e \<Rightarrow> pure None
         | Inr d \<Rightarrow> do {
             hl \<leftarrow> op_AttachLoop ops hsh;
             case hl of
               Inr h \<Rightarrow> pure (Some (m\<lparr>md_iso_dev := dev, md_iso_data := d, md_iso_hash := h\<rparr>))
             | Inl e \<Rightarrow> do { _ \<leftarrow> op_DetachLoop ops d; pure None }
           }
       }
     })"

primrec find_iso :: "config \<Rightarrow> 's ops \<Rightarrow> media \<Rightarrow> partition list \<Rightarrow> ('s, media) state" where
  "find_iso cfg ops m [] = pure m"
| "find_iso cfg ops m (p # ps) =
    (if \<not> has_prefix ''sr'' (base_name (pt_dev p)) then find_iso cfg ops m ps
     else do {
       mounted \<leftarrow> op_MountISO ops (pt_dev p) (cf_iso_mount cfg);
       if \<not> mounted then find_iso cfg ops m ps
       else do {
         r \<leftarrow> attach_iso cfg ops m (pt_dev p);
         case r of
           Some m' \<Rightarrow> pure m'
         | None \<Rightarrow> do { _ \<leftarrow> op_Unmount ops (cf_iso_mount cfg); find_iso cfg ops m ps }
       }
     })"

definition FindISO :: "config \<Rightarrow> 's ops \<Rightarrow> media \<Rightarrow> ('s, media) state" where
  "FindISO cfg ops m =
    (if cf_portable cfg \<or> md_iso_dev m \<noteq> [] then pure m
     else do { parts \<leftarrow> op_Partitions ops; find_iso cfg ops m parts })"

subsection \<open>The choice\<close>

record root =
  rt_source :: string
  rt_data :: string
  rt_hash :: string
  rt_mapper :: string
  rt_optical :: bool
  rt_from_slot :: bool

definition RootMapper :: string where
  "RootMapper = ''vroot''"

definition portablePart :: "config \<Rightarrow> partition \<Rightarrow> string list \<Rightarrow> bool" where
  "portablePart cfg p names \<longleftrightarrow> (if \<not> cf_portable cfg then True else pt_part_name p \<in> set names)"

text \<open>The image and hash devices of a live boot, in the order they are found.\<close>

primrec live_devices :: "config \<Rightarrow> 's ops \<Rightarrow> partition list \<Rightarrow> ('s, string list \<times> string list) state" where
  "live_devices cfg ops [] = pure ([], [])"
| "live_devices cfg ops (p # ps) =
    (if has_prefix ''sr'' (base_name (pt_dev p)) \<and> pt_part_name p = [] then live_devices cfg ops ps
     else if \<not> portablePart cfg p [cf_portable_root cfg, cf_portable_hash cfg] then live_devices cfg ops ps
     else do {
       isHash \<leftarrow> op_IsVerityHash ops (pt_dev p);
       isData \<leftarrow> (if isHash then pure False else op_HasEROFS ops (pt_dev p));
       rest \<leftarrow> live_devices cfg ops ps;
       pure (if isData then pt_dev p # fst rest else fst rest, if isHash then pt_dev p # snd rest else snd rest)
     })"

definition root_devices :: "config \<Rightarrow> media \<Rightarrow> 's ops \<Rightarrow> ('s, string list \<times> string list) state" where
  "root_devices cfg m ops =
    (if cf_live cfg then do {
       parts \<leftarrow> op_Partitions ops;
       dh \<leftarrow> live_devices cfg ops parts;
       pure (if \<not> cf_portable cfg \<and> md_iso_data m \<noteq> []
             then (fst dh @ [md_iso_data m], snd dh @ [md_iso_hash m]) else dh)
     } else pure (md_slot_datas m, md_slot_hashes m))"

definition base_score :: "config \<Rightarrow> string \<Rightarrow> nat" where
  "base_score cfg hashRoot = (if hashRoot = [] then 1 else if equal_fold hashRoot (cf_root_hash cfg) then 3 else 0)"

definition pair_score :: "config \<Rightarrow> 's ops \<Rightarrow> string \<Rightarrow> 64 word \<Rightarrow> string \<Rightarrow> ('s, nat) state" where
  "pair_score cfg ops hashRoot want d =
    (case op_DevBytes ops of
       None \<Rightarrow> pure (base_score cfg hashRoot)
     | Some devBytes \<Rightarrow>
         if 0 < base_score cfg hashRoot \<and> 0 < want
         then do { b \<leftarrow> devBytes d; pure (if b = want then base_score cfg hashRoot + 1 else base_score cfg hashRoot) }
         else pure (base_score cfg hashRoot))"

primrec rank_datas :: "config \<Rightarrow> 's ops \<Rightarrow> string \<Rightarrow> string \<Rightarrow> 64 word \<Rightarrow> string list \<Rightarrow> ('s, ((string \<times> string) \<times> nat) list) state" where
  "rank_datas cfg ops h hashRoot want [] = pure []"
| "rank_datas cfg ops h hashRoot want (d # ds) = do {
     score \<leftarrow> pair_score cfg ops hashRoot want d;
     rest \<leftarrow> rank_datas cfg ops h hashRoot want ds;
     pure (((d, h), score) # rest)
   }"

primrec rank_hashes :: "config \<Rightarrow> 's ops \<Rightarrow> string list \<Rightarrow> string list \<Rightarrow> ('s, ((string \<times> string) \<times> nat) list) state" where
  "rank_hashes cfg ops datas [] = pure []"
| "rank_hashes cfg ops datas (h # hs) = do {
     rw \<leftarrow> (case op_HashRoot ops of None \<Rightarrow> pure ([], 0) | Some hashRoot \<Rightarrow> hashRoot h);
     xs \<leftarrow> rank_datas cfg ops h (fst rw) (snd rw) datas;
     ys \<leftarrow> rank_hashes cfg ops datas hs;
     pure (xs @ ys)
   }"

text \<open>A stable sort by falling score.\<close>

definition rankPairs :: "config \<Rightarrow> 's ops \<Rightarrow> string list \<Rightarrow> string list \<Rightarrow> ('s, (string \<times> string) list) state" where
  "rankPairs cfg ops datas hashes = do {
     all \<leftarrow> rank_hashes cfg ops datas hashes;
     pure (map fst (sort_key (\<lambda>r. - int (snd r)) all))
   }"

definition samePairOrigin :: "media \<Rightarrow> 's ops \<Rightarrow> string \<Rightarrow> string \<Rightarrow> ('s, bool) state" where
  "samePairOrigin m ops dat hsh =
    (let isoData = (md_iso_data m \<noteq> [] \<and> dat = md_iso_data m); isoHash = (md_iso_hash m \<noteq> [] \<and> hsh = md_iso_hash m) in
     if (dat \<in> set (md_slot_datas m)) \<noteq> (hsh \<in> set (md_slot_hashes m)) then pure False
     else if isoData \<noteq> isoHash then pure False
     else if dat \<notin> set (md_slot_datas m) \<and> \<not> isoData
     then do { a \<leftarrow> op_DiskOf ops dat; b \<leftarrow> op_DiskOf ops hsh; pure (a = b) }
     else pure True)"

definition verified_root :: "string \<Rightarrow> string \<Rightarrow> string \<Rightarrow> root" where
  "verified_root node d h = \<lparr>rt_source = node, rt_data = d, rt_hash = h, rt_mapper = RootMapper, rt_optical = False, rt_from_slot = False\<rparr>"

primrec try_pairs :: "config \<Rightarrow> media \<Rightarrow> 's ops \<Rightarrow> (string \<times> string) list \<Rightarrow> ('s, root option) state" where
  "try_pairs cfg m ops [] = pure None"
| "try_pairs cfg m ops (dh # ps) = do {
     same \<leftarrow> samePairOrigin m ops (fst dh) (snd dh);
     if \<not> same then try_pairs cfg m ops ps
     else do {
       _ \<leftarrow> op_CloseVerity ops RootMapper;
       r \<leftarrow> op_OpenVerity ops RootMapper (fst dh) (snd dh) (cf_root_hash cfg);
       case r of
         Inl e \<Rightarrow> try_pairs cfg m ops ps
       | Inr node \<Rightarrow> do {
           ok \<leftarrow> op_HasEROFS ops node;
           if ok then pure (Some (verified_root node (fst dh) (snd dh)))
           else do { _ \<leftarrow> op_CloseVerity ops RootMapper; try_pairs cfg m ops ps }
         }
     }
   }"

definition selectVerified :: "config \<Rightarrow> media \<Rightarrow> 's ops \<Rightarrow> ('s, root option) state" where
  "selectVerified cfg m ops = do {
     dh \<leftarrow> root_devices cfg m ops;
     pairs \<leftarrow> rankPairs cfg ops (fst dh) (snd dh);
     try_pairs cfg m ops pairs
   }"

definition raw_root :: "string \<Rightarrow> root" where
  "raw_root d = \<lparr>rt_source = d, rt_data = d, rt_hash = [], rt_mapper = [], rt_optical = False, rt_from_slot = False\<rparr>"

text \<open>An unlocked device: the slot the hash selects is probed with a mapping of its own.\<close>

definition probe_name :: string where
  "probe_name = ''vroot-select''"

primrec probe_pairs :: "config \<Rightarrow> 's ops \<Rightarrow> (string \<times> string) list \<Rightarrow> ('s, root option) state" where
  "probe_pairs cfg ops [] = pure None"
| "probe_pairs cfg ops (dh # ps) = do {
     _ \<leftarrow> op_CloseVerity ops probe_name;
     r \<leftarrow> op_OpenVerity ops probe_name (fst dh) (snd dh) (cf_root_hash cfg);
     case r of
       Inl e \<Rightarrow> probe_pairs cfg ops ps
     | Inr node \<Rightarrow> do {
         ok \<leftarrow> op_HasEROFS ops node;
         _ \<leftarrow> op_CloseVerity ops probe_name;
         if ok then pure (Some (raw_root (fst dh))) else probe_pairs cfg ops ps
       }
   }"

primrec first_erofs :: "'s ops \<Rightarrow> string list \<Rightarrow> ('s, root option) state" where
  "first_erofs ops [] = pure None"
| "first_erofs ops (d # ds) = do {
     ok \<leftarrow> op_HasEROFS ops d;
     if ok then pure (Some (raw_root d)) else first_erofs ops ds
   }"

definition unlocked_candidates :: "config \<Rightarrow> media \<Rightarrow> 's ops \<Rightarrow> ('s, string list) state" where
  "unlocked_candidates cfg m ops =
    (if cf_live cfg then do {
       parts \<leftarrow> op_Partitions ops;
       pure ((if md_iso_data m \<noteq> [] then [md_iso_data m] else []) @
             map pt_dev (filter (\<lambda>p. portablePart cfg p [cf_portable_root cfg]) parts))
     } else pure (md_slot_datas m))"

definition selectUnlocked :: "config \<Rightarrow> media \<Rightarrow> 's ops \<Rightarrow> ('s, root option) state" where
  "selectUnlocked cfg m ops = do {
     probed \<leftarrow> (if \<not> cf_live cfg \<and> 0 < length (md_slot_hashes m)
                then probe_pairs cfg ops (List.product (md_slot_datas m) (md_slot_hashes m)) else pure None);
     case probed of
       Some r \<Rightarrow> pure (Some r)
     | None \<Rightarrow> do { candidates \<leftarrow> unlocked_candidates cfg m ops; first_erofs ops candidates }
   }"

primrec select_attempts :: "config \<Rightarrow> 's ops \<Rightarrow> nat \<Rightarrow> media \<Rightarrow> ('s, (error + root) \<times> media) state" where
  "select_attempts cfg ops 0 m = pure (Inl (Errorf ''no root image matches the signed root hash''), m)"
| "select_attempts cfg ops (Suc n) m = do {
     m1 \<leftarrow> FindData cfg ops m;
     m2 \<leftarrow> FindISO cfg ops m1;
     found \<leftarrow> (if cf_unlocked cfg then selectUnlocked cfg m2 ops else selectVerified cfg m2 ops);
     case found of
       Some r \<Rightarrow> pure (Inr (r\<lparr>rt_optical := md_iso_data m2 \<noteq> [] \<and> rt_data r = md_iso_data m2,
                             rt_from_slot := rt_data r \<in> set (md_slot_datas m2)\<rparr>), m2)
     | None \<Rightarrow> do { op_Sleep ops (cf_interval cfg); select_attempts cfg ops n m2 }
   }"

definition SelectRoot :: "config \<Rightarrow> media \<Rightarrow> 's ops \<Rightarrow> ('s, (error + root) \<times> media) state" where
  "SelectRoot cfg0 m ops =
    (let cfg = defaults cfg0 in
     if \<not> ValidRootHash (cf_root_hash cfg) then pure (Inl (Errorf ''no valid root hash on the kernel command line''), m)
     else select_attempts cfg ops (nat (cf_attempts cfg)) m)"

subsection \<open>Letting go of unrelated data\<close>

primrec detach_all :: "'s ops \<Rightarrow> string list \<Rightarrow> ('s, unit) state" where
  "detach_all ops [] = pure ()"
| "detach_all ops (l # ls) = do { _ \<leftarrow> op_DetachLoop ops l; detach_all ops ls }"

definition ReleaseUnrelatedData :: "config \<Rightarrow> media \<Rightarrow> root \<Rightarrow> 's ops \<Rightarrow> ('s, (error + bool) \<times> media) state" where
  "ReleaseUnrelatedData cfg0 m root ops =
    (let cfg = defaults cfg0 in
     if md_data_dev m = [] then pure (Inr False, m)
     else if rt_from_slot root then pure (Inr True, m)
     else do {
       keep \<leftarrow> (if cf_portable cfg then op_Exists ops (cf_data_mount cfg @ ''/.atom-var'') else pure False);
       if keep then pure (Inr True, m)
       else do {
         detach_all ops (md_slot_datas m @ md_slot_hashes m);
         u \<leftarrow> op_Unmount ops (cf_data_mount cfg);
         case u of
           Inl e \<Rightarrow> pure (Inl (Errorf (''cannot detach the unrelated data partition '' @ md_data_dev m)), m)
         | Inr _ \<Rightarrow> pure (Inr False, m\<lparr>md_data_dev := [], md_slot_datas := [], md_slot_hashes := []\<rparr>)
       }
     })"

end
