(* ===== verification/VeritySafe.thy ===== *)
theory VeritySafe
  imports Verity
begin

section \<open>dm-verity: formats read back, mappings carry the signed hash\<close>

text \<open>
  The superblock parser against the on-disk format, the bounds it enforces, the table record
  against the layout the kernel reads, and what an opened mapping leaves in the trace.
\<close>

subsection \<open>Little-endian numbers and padding\<close>

lemma length_le_bytes [simp]: "length (le_bytes k n) = k"
  by (induction k arbitrary: n) auto

lemma le_val_le_bytes: "le_val (le_bytes k n) = n mod 256 ^ k"
proof (induction k arbitrary: n)
  case (Suc k)
  then show ?case by (simp add: mod_mult2_eq [of n 256 "256 ^ k"])
qed simp

lemma length_pad_to [simp]: "length (pad_to n s) = n"
  by (simp add: pad_to_def)

lemma dropWhile_replicate_self [simp]: "P x \<Longrightarrow> dropWhile P (replicate n x @ ys) = dropWhile P ys"
  by (induction n) auto

lemma trim_nuls_pad_to: "length s \<le> n \<Longrightarrow> s = [] \<or> last s \<noteq> CHR 0x00 \<Longrightarrow> trim_nuls (pad_to n s) = s"
  by (cases s rule: rev_cases) (auto simp: trim_nuls_def pad_to_def rev_replicate simp flip: append_assoc)

lemma take_pad_to: "length s \<le> n \<Longrightarrow> take (length s) (pad_to n s) = s"
  by (simp add: pad_to_def)

subsection \<open>The superblock format\<close>

text \<open>The 512 bytes \<open>veritysetup format\<close> writes; byte 16 to 31 is a UUID.\<close>

definition superblock_bytes :: "string \<Rightarrow> verity_superblock \<Rightarrow> string" where
  "superblock_bytes uuid sb =
     verityMagic @ le_bytes 4 (unat (vs_version sb)) @ le_bytes 4 (unat (vs_hash_type sb)) @ uuid @
     pad_to 32 (vs_algorithm sb) @ le_bytes 4 (unat (vs_data_block_size sb)) @ le_bytes 4 (unat (vs_hash_block_size sb)) @
     le_bytes 8 (unat (vs_data_blocks sb)) @ le_bytes 2 (length (vs_salt sb)) @ replicate 6 (CHR 0x00) @ pad_to 424 (vs_salt sb)"

definition supported :: "verity_superblock \<Rightarrow> bool" where
  "supported sb \<longleftrightarrow> vs_version sb = 1 \<and> vs_hash_type sb = 1 \<and> vs_algorithm sb = ''sha256'' \<and>
     \<not> bad_block_size (vs_data_block_size sb) \<and> \<not> bad_block_size (vs_hash_block_size sb) \<and>
     vs_data_blocks sb \<noteq> 0 \<and> length (vs_salt sb) \<le> 256"

lemma superblock_at:
  assumes "length uuid = 16"
  shows "length (superblock_bytes uuid sb) = 512"
    "take 8 (superblock_bytes uuid sb @ rest) = verityMagic"
    "le_at (superblock_bytes uuid sb @ rest) 8 4 = unat (vs_version sb)"
    "le_at (superblock_bytes uuid sb @ rest) 12 4 = unat (vs_hash_type sb)"
    "take 32 (drop 32 (superblock_bytes uuid sb @ rest)) = pad_to 32 (vs_algorithm sb)"
    "le_at (superblock_bytes uuid sb @ rest) 64 4 = unat (vs_data_block_size sb)"
    "le_at (superblock_bytes uuid sb @ rest) 68 4 = unat (vs_hash_block_size sb)"
    "le_at (superblock_bytes uuid sb @ rest) 72 8 = unat (vs_data_blocks sb)"
    "le_at (superblock_bytes uuid sb @ rest) 80 2 = length (vs_salt sb) mod 65536"
    "drop 88 (superblock_bytes uuid sb @ rest) = pad_to 424 (vs_salt sb) @ rest"
proof -
  have m: "length verityMagic = 8" by (simp add: verityMagic_def)
  have w32: "unat (w :: 32 word) < 4294967296" for w using unsigned_less [of w] by simp
  have w64: "unat (w :: 64 word) < 18446744073709551616" for w using unsigned_less [of w] by simp
  note defs = superblock_bytes_def le_at_def le_val_le_bytes m assms w32 w64
  show "length (superblock_bytes uuid sb) = 512"
    "take 8 (superblock_bytes uuid sb @ rest) = verityMagic"
    "le_at (superblock_bytes uuid sb @ rest) 8 4 = unat (vs_version sb)"
    "le_at (superblock_bytes uuid sb @ rest) 12 4 = unat (vs_hash_type sb)"
    "take 32 (drop 32 (superblock_bytes uuid sb @ rest)) = pad_to 32 (vs_algorithm sb)"
    "le_at (superblock_bytes uuid sb @ rest) 64 4 = unat (vs_data_block_size sb)"
    "le_at (superblock_bytes uuid sb @ rest) 68 4 = unat (vs_hash_block_size sb)"
    "le_at (superblock_bytes uuid sb @ rest) 72 8 = unat (vs_data_blocks sb)"
    "le_at (superblock_bytes uuid sb @ rest) 80 2 = length (vs_salt sb) mod 65536"
    "drop 88 (superblock_bytes uuid sb @ rest) = pad_to 424 (vs_salt sb) @ rest"
    by (simp_all add: defs)
qed

lemma superblock_parses:
  assumes "supported sb" "length uuid = 16"
  shows "ParseVeritySuperblock (superblock_bytes uuid sb @ rest) = Inr sb"
proof -
  have alg: "trim_nuls (pad_to 32 ''sha256'') = ''sha256''"
    by (rule trim_nuls_pad_to) simp_all
  have salt: "take (length (vs_salt sb)) (pad_to 424 (vs_salt sb) @ rest) = vs_salt sb"
    using assms(1) by (simp add: supported_def take_pad_to)
  define buf where "buf = superblock_bytes uuid sb @ rest"
  note at = superblock_at [OF assms(2), of sb, folded buf_def] superblock_at(2-) [OF assms(2), of sb rest, folded buf_def]
  have "512 \<le> length buf" using superblock_at(1) [OF assms(2), of sb] by (simp add: buf_def)
  with assms(1) salt show ?thesis
    unfolding buf_def [symmetric] by (simp add: ParseVeritySuperblock_def at Let_def supported_def alg not_less)
qed

text \<open>The superblock parser reads back every superblock of the on-disk format it supports,
  whatever UUID it carries and whatever follows it.\<close>

theorem superblock_round_trip:
  assumes "supported sb" "length uuid = 16"
  shows "ParseVeritySuperblock (superblock_bytes uuid sb @ rest) = Inr sb"
  using assms by (rule superblock_parses)

definition sample_superblock :: verity_superblock where
  "sample_superblock = \<lparr>vs_version = 1, vs_hash_type = 1, vs_algorithm = ''sha256'', vs_data_block_size = 4096,
     vs_hash_block_size = 4096, vs_data_blocks = 1000, vs_salt = ''ab''\<rparr>"

lemma supported_sample: "supported sample_superblock"
  by (simp add: supported_def sample_superblock_def bad_block_size_def)

theorem superblock_round_trip_witness:
  "ParseVeritySuperblock (superblock_bytes (replicate 16 (CHR 0x07)) sample_superblock @ ''tail'') = Inr sample_superblock"
  by (rule superblock_round_trip [OF supported_sample]) simp

subsection \<open>Block sizes\<close>

lemma and_pred_power_of_two: "0 < n \<Longrightarrow> n AND (n - 1) = 0 \<Longrightarrow> \<exists>k. n = 2 ^ k" for n :: nat
proof (induction n rule: less_induct)
  case (less n)
  show ?case
  proof (cases "even n")
    case True
    then obtain m where m: "n = 2 * m" by blast
    with less.prems have m0: "0 < m" "m < n" by auto
    from m m0 have "n - 1 = 2 * (m - 1) + 1" by simp
    then have "n AND (n - 1) = 2 * (m AND (m - 1))"
      by (subst and_rec) (simp add: m)
    with less.prems have "m AND (m - 1) = 0" by simp
    from less.IH [OF m0(2,1) this] obtain k where "m = 2 ^ k" by blast
    with m show ?thesis by (intro exI [of _ "Suc k"]) simp
  next
    case False
    then obtain m where m: "n = 2 * m + 1" by (auto elim: oddE)
    have "n AND (n - 1) = 2 * (m AND m)"
      by (subst and_rec) (simp add: m)
    with less.prems m show ?thesis by (intro exI [of _ 0]) simp
  qed
qed

lemma good_block_size: "\<not> bad_block_size sz \<Longrightarrow> \<exists>k. 9 \<le> k \<and> k \<le> 16 \<and> unat sz = 2 ^ k"
proof -
  assume g: "\<not> bad_block_size sz"
  then have b: "512 \<le> unat sz" "unat sz \<le> 65536"
    by (simp_all add: bad_block_size_def word_less_nat_alt not_less)
  have "unat (sz - 1) = unat sz - 1" using b by (intro unat_minus_one) auto
  with g have "unat sz AND (unat sz - 1) = 0"
    by (metis bad_block_size_def unat_0 unsigned_and_eq)
  then obtain k where k: "unat sz = 2 ^ k" using and_pred_power_of_two b by fastforce
  from b k have "(2::nat) ^ 9 \<le> 2 ^ k" "(2::nat) ^ k \<le> 2 ^ 16" by simp_all
  then have "9 \<le> k" "k \<le> 16" by (simp_all only: power_increasing_iff [of 2] one_less_numeral_iff semiring_norm)
  with k show ?thesis by blast
qed

lemma ParseVeritySuperblock_supported:
  "ParseVeritySuperblock buf = Inr sb \<Longrightarrow> supported sb"
  by (auto simp: ParseVeritySuperblock_def Let_def supported_def split: if_splits)

lemma err_bind_supported: "err_bind r ParseVeritySuperblock = Inr sb \<Longrightarrow> supported sb"
  by (auto simp: err_bind_Inr_iff ParseVeritySuperblock_supported)

text \<open>C31. What the superblock parser accepts is in bounds: both block sizes are powers of two from
  512 to 65536, the salt has at most 256 bytes and there is at least one data block.\<close>

theorem ParseVeritySuperblock_bounds:
  assumes "ParseVeritySuperblock buf = Inr sb"
  shows "\<exists>k l. {k, l} \<subseteq> {9..16} \<and> unat (vs_data_block_size sb) = 2 ^ k \<and> unat (vs_hash_block_size sb) = 2 ^ l \<and>
    length (vs_salt sb) \<le> 256 \<and> 0 < unat (vs_data_blocks sb)"
proof -
  have "supported sb" using assms by (rule ParseVeritySuperblock_supported)
  then have s: "\<not> bad_block_size (vs_data_block_size sb)" "\<not> bad_block_size (vs_hash_block_size sb)"
    "vs_data_blocks sb \<noteq> 0" "length (vs_salt sb) \<le> 256"
    by (simp_all add: supported_def)
  from good_block_size [OF s(1)] obtain k where "9 \<le> k" "k \<le> 16" "unat (vs_data_block_size sb) = 2 ^ k" by blast
  moreover from good_block_size [OF s(2)] obtain l where "9 \<le> l" "l \<le> 16" "unat (vs_hash_block_size sb) = 2 ^ l" by blast
  ultimately show ?thesis
    using s(3,4) by (intro exI [of _ k] exI [of _ l]) (simp add: unat_gt_0)
qed

theorem ParseVeritySuperblock_bounds_witness:
  "\<exists>k l. {k, l} \<subseteq> {9..16} \<and> unat (vs_data_block_size sample_superblock) = 2 ^ k \<and>
    unat (vs_hash_block_size sample_superblock) = 2 ^ l \<and>
    length (vs_salt sample_superblock) \<le> 256 \<and> 0 < unat (vs_data_blocks sample_superblock)"
  by (rule ParseVeritySuperblock_bounds
      [OF superblock_parses [OF supported_sample, of "replicate 16 (CHR 0x07)" "[]"]]) simp

subsection \<open>The table record\<close>

text \<open>The reader's side of \<open>struct dm_target_spec\<close>: sectors, record length, parameters up to
  the NUL byte.\<close>

definition target_params :: "string \<Rightarrow> string" where
  "target_params buf = takeWhile (\<lambda>c. c \<noteq> CHR 0x00) (drop 40 buf)"

lemma length_verityTarget:
  "length (verityTarget n params) = 40 + (length params + 8) div 8 * 8"
  by (simp add: verityTarget_def Let_def dmTargetSpecLen_def)

lemma takeWhile_pad_to:
  "length s < n \<Longrightarrow> CHR 0x00 \<notin> set s \<Longrightarrow> takeWhile (\<lambda>c. c \<noteq> CHR 0x00) (pad_to n s) = s"
proof -
  assume "length s < n" "CHR 0x00 \<notin> set s"
  then have "pad_to n s = s @ CHR 0x00 # replicate (n - Suc (length s)) (CHR 0x00)"
    by (simp add: pad_to_def Suc_diff_Suc flip: replicate_Suc)
  with \<open>CHR 0x00 \<notin> set s\<close> show ?thesis
    by (auto simp: takeWhile_tail takeWhile_eq_all_conv)
qed

lemma verityTarget_at:
  "le_at (verityTarget n params) 8 8 = n mod 2 ^ 64"
  "le_at (verityTarget n params) 20 4 = length (verityTarget n params) mod 2 ^ 32"
  "CHR 0x00 \<notin> set params \<Longrightarrow> target_params (verityTarget n params) = params"
proof -
  let ?total = "40 + (length params + 8) div 8 * 8"
  have buf: "verityTarget n params = le_bytes 8 0 @ le_bytes 8 n @ le_bytes 4 0 @ le_bytes 4 ?total @ pad_to 16 ''verity'' @ pad_to (?total - 40) params"
    by (simp add: verityTarget_def Let_def dmTargetSpecLen_def add.commute)
  show "le_at (verityTarget n params) 8 8 = n mod 2 ^ 64"
    by (simp add: buf le_at_def le_val_le_bytes del: le_bytes.simps)
  show "le_at (verityTarget n params) 20 4 = length (verityTarget n params) mod 2 ^ 32"
    by (simp only: length_verityTarget) (simp add: buf le_at_def le_val_le_bytes del: le_bytes.simps)
  have lt: "length params < (length params + 8) div 8 * 8" by linarith
  assume "CHR 0x00 \<notin> set params"
  then show "target_params (verityTarget n params) = params"
    using takeWhile_pad_to [OF lt] by (simp add: target_params_def buf del: le_bytes.simps)
qed

lemma nat_str_char: "c \<in> set (nat_str n) \<Longrightarrow> is_digit c"
  using nat_str_digits [of n] by (auto simp: list_all_iff)

lemma split_on_join:
  "ss \<noteq> [] \<Longrightarrow> \<forall>s \<in> set ss. sep \<notin> set s \<Longrightarrow> split_on sep (join_with [sep] ss) = ss"
  by (induction "[sep]" ss rule: join_with.induct) (auto simp: split_on_no_sep)

lemma hex_digit_graph: "n < 16 \<Longrightarrow> 48 \<le> (of_char (hex_digit n) :: nat)"
  by (simp add: hex_digit_def)

lemma hex_encode_graph: "c \<in> set (hex_encode s) \<Longrightarrow> 48 \<le> (of_char c :: nat)"
proof -
  assume "c \<in> set (hex_encode s)"
  then obtain d n where "d \<in> set s" "c = hex_digit n" "n = byte d div 16 \<or> n = byte d mod 16"
    by (auto simp: hex_encode_def)
  moreover have "byte d div 16 < 16" for d using byte_less [of d] by (intro less_mult_imp_div_less) simp
  ultimately show ?thesis using hex_digit_graph by auto
qed

lemma hex_val_to_lower: "hex_val (to_lower c) = hex_val c"
proof (cases "65 \<le> (of_char c :: nat) \<and> (of_char c :: nat) \<le> 90")
  case True
  then have "of_char (to_lower c) = (of_char c + 32 :: nat)" by (simp add: to_lower_def)
  with True show ?thesis by (auto simp: hex_val_def is_digit_def in_range_def byte_def)
qed (auto simp: to_lower_def)

lemma hex_decode_to_lower: "hex_decode (map to_lower s) = hex_decode s"
  by (induction s rule: hex_decode.induct) (auto simp: hex_val_to_lower split: option.splits)

lemma hex_decode_graph: "hex_decode s = Some b \<Longrightarrow> c \<in> set s \<Longrightarrow> hex_val c \<noteq> None"
  by (induction s arbitrary: b rule: hex_decode.induct) (auto split: option.splits)

lemma word_str_char: "c \<in> set (word_str w) \<Longrightarrow> is_digit c"
  unfolding word_str_def by (rule nat_str_char)

lemma device_text_char: "c \<in> set (device_text rdev) \<Longrightarrow> is_digit c \<or> c = CHR '':''"
  by (auto simp: device_text_def Let_def dest: word_str_char)

definition plain_char :: "char \<Rightarrow> bool" where
  "plain_char c \<longleftrightarrow> c \<noteq> CHR '' '' \<and> c \<noteq> CHR 0x00"

lemma plain_graph: "48 \<le> (of_char c :: nat) \<Longrightarrow> plain_char c"
  by (auto simp: plain_char_def)

lemma plain_digit [intro]: "is_digit c \<Longrightarrow> plain_char c"
  by (rule plain_graph) (simp add: is_digit_def)

lemma plain_hash:
  assumes "hex_decode rh = Some b" "c \<in> set (map to_lower rh)"
  shows "plain_char c"
proof -
  from assms(1) have "hex_decode (map to_lower rh) = Some b" by (simp add: hex_decode_to_lower)
  from hex_decode_graph [OF this assms(2)] show ?thesis
    by (intro plain_graph) (auto simp: hex_val_def is_digit_def in_range_def byte_def split: if_splits)
qed

definition table_words :: "verity_superblock \<Rightarrow> string \<Rightarrow> string \<Rightarrow> string \<Rightarrow> string list" where
  "table_words sb d h rh = [word_str (vs_hash_type sb), d, h, word_str (vs_data_block_size sb),
     word_str (vs_hash_block_size sb), word_str (vs_data_blocks sb), ''1'', vs_algorithm sb, map to_lower rh,
     if vs_salt sb = [] then ''-'' else hex_encode (vs_salt sb)]"

lemma VerityTable_words: "VerityTable sb d h rh = join_with '' '' (table_words sb d h rh)"
  by (simp add: VerityTable_def table_words_def Let_def)

lemma plain_word: "list_all plain_char (word_str w)"
  by (auto simp: list_all_iff dest: word_str_char)

lemma plain_words:
  assumes "supported sb" "ValidRootHash rh" "s \<in> set (table_words sb (device_text a) (device_text b) rh)"
  shows "list_all plain_char s"
proof -
  from assms(2) obtain r where r: "hex_decode rh = Some r" by (auto simp: ValidRootHash_def split: option.splits)
  have d: "list_all plain_char (device_text x)" for x
    unfolding list_all_iff by (auto dest!: device_text_char intro: plain_graph)
  have h: "list_all plain_char (map to_lower rh)"
    unfolding list_all_iff by (intro ballI) (rule plain_hash [OF r])
  have e: "list_all plain_char (hex_encode x)" for x
    by (auto simp: list_all_iff dest: hex_encode_graph intro: plain_graph)
  have c: "list_all plain_char ''1''" "list_all plain_char ''sha256''" "list_all plain_char ''-''"
    by (simp_all add: plain_char_def)
  from assms(1) have "vs_algorithm sb = ''sha256''" by (simp add: supported_def)
  with assms(3) show ?thesis
    unfolding table_words_def using d h e c by (auto intro: plain_word)
qed

lemma set_join_with: "set (join_with sep ss) \<subseteq> set sep \<union> \<Union> (set ` set ss)"
  by (induction sep ss rule: join_with.induct) auto

lemma table_reads_back:
  assumes "supported sb" "ValidRootHash rh"
  shows "split_on (CHR '' '') (target_params (verityTarget n (VerityTable sb (device_text a) (device_text b) rh))) =
    table_words sb (device_text a) (device_text b) rh"
proof -
  let ?ws = "table_words sb (device_text a) (device_text b) rh"
  have p: "\<forall>s \<in> set ?ws. CHR '' '' \<notin> set s \<and> CHR 0x00 \<notin> set s"
    using plain_words [OF assms] by (fastforce simp: list_all_iff plain_char_def)
  then have "CHR 0x00 \<notin> set (join_with '' '' ?ws)"
    using set_join_with [of "'' ''" ?ws] by fastforce
  then have "target_params (verityTarget n (join_with '' '' ?ws)) = join_with '' '' ?ws"
    by (rule verityTarget_at(3))
  moreover have "?ws \<noteq> []" by (simp add: table_words_def)
  ultimately show ?thesis
    using split_on_join [of ?ws "CHR '' ''"] p by (simp add: VerityTable_words)
qed

text \<open>What device mapper is handed reads back: the record holds the sector count and its own
  length, and the ninth and tenth word of its parameters decode to the signed root hash and to the
  salt of the superblock.\<close>

theorem verity_target_round_trip:
  assumes "supported sb" "ValidRootHash rh"
  shows "\<exists>ws. let buf = verityTarget n (VerityTable sb (device_text a) (device_text b) rh) in
     le_at buf 8 8 = n mod 2 ^ 64 \<and> le_at buf 20 4 = length buf mod 2 ^ 32 \<and> length buf mod 8 = 0 \<and>
     split_on (CHR '' '') (target_params buf) = ws \<and> length ws = 10 \<and>
     ws ! 1 = device_text a \<and> ws ! 2 = device_text b \<and> hex_decode (ws ! 8) = hex_decode rh \<and>
     (if vs_salt sb = [] then ws ! 9 = ''-'' else hex_decode (ws ! 9) = Some (vs_salt sb))"
proof -
  let ?ws = "table_words sb (device_text a) (device_text b) rh"
  have "(40 + k * 8) mod 8 = 0" for k :: nat by presburger
  moreover have "length ?ws = 10" "?ws ! 1 = device_text a" "?ws ! 2 = device_text b"
    "hex_decode (?ws ! 8) = hex_decode rh"
    "if vs_salt sb = [] then ?ws ! 9 = ''-'' else hex_decode (?ws ! 9) = Some (vs_salt sb)"
    by (simp_all add: table_words_def hex_decode_to_lower)
  ultimately show ?thesis
    using table_reads_back [OF assms] verityTarget_at(1,2)
    by (intro exI [of _ ?ws]) (simp add: Let_def length_verityTarget)
qed

theorem verity_target_round_trip_witness:
  "\<exists>ws. let buf = verityTarget 8000 (VerityTable sample_superblock (device_text 0x700) (device_text 0x701) (replicate 64 (CHR ''A''))) in
     le_at buf 8 8 = 8000 mod 2 ^ 64 \<and> le_at buf 20 4 = length buf mod 2 ^ 32 \<and> length buf mod 8 = 0 \<and>
     split_on (CHR '' '') (target_params buf) = ws \<and> length ws = 10 \<and>
     ws ! 1 = device_text 0x700 \<and> ws ! 2 = device_text 0x701 \<and> hex_decode (ws ! 8) = hex_decode (replicate 64 (CHR ''A'')) \<and>
     (if vs_salt sample_superblock = [] then ws ! 9 = ''-'' else hex_decode (ws ! 9) = Some (vs_salt sample_superblock))"
  by (rule verity_target_round_trip [OF supported_sample]) code_simp

subsection \<open>Device numbers\<close>

lemma device_masks: "(0xff :: 64 word) = mask 8" "(0xfff :: 64 word) = mask 12" "(0xfff00 :: 64 word) = push_bit 8 (mask 12)"
  by (simp_all add: mask_eq_exp_minus_1)

lemma major_mkdev:
  assumes "major = take_bit 12 major" "minor = take_bit 20 minor"
  shows "drop_bit 8 (mkdev major minor) AND 0xfff = major"
proof (rule bit_word_eqI)
  fix n assume n: "n < LENGTH(64)"
  have "bit major n \<longleftrightarrow> n < 12 \<and> bit major n" by (subst assms(1)) (auto simp: bit_take_bit_iff)
  moreover have "bit minor m \<Longrightarrow> m < 20" for m by (subst (asm) assms(2)) (simp add: bit_take_bit_iff)
  ultimately show "bit (drop_bit 8 (mkdev major minor) AND 0xfff) n = bit major n"
    using n by (auto simp: mkdev_def device_masks bit_simps)
qed
lemma minor_mkdev:
  assumes "major = take_bit 12 major" "minor = take_bit 20 minor"
  shows "(mkdev major minor AND 0xff) OR (drop_bit 12 (mkdev major minor) AND 0xfff00) = minor"
proof (rule bit_word_eqI)
  fix n assume n: "n < LENGTH(64)"
  have hM: "bit major m \<Longrightarrow> m < 12" for m by (subst (asm) assms(1)) (simp add: bit_take_bit_iff)
  have hm: "bit minor m \<Longrightarrow> m < 20" for m by (subst (asm) assms(2)) (simp add: bit_take_bit_iff)
  have "\<not> bit major (4 + n)" if "8 \<le> n" using hM [of "4 + n"] that by auto
  moreover have "n < 20" if "bit minor n" using hm that by blast
  ultimately show "bit ((mkdev major minor AND 0xff) OR (drop_bit 12 (mkdev major minor) AND 0xfff00)) n = bit minor n"
    using n by (cases "n < 8"; cases "bit minor n") (auto simp: mkdev_def device_masks bit_simps)
qed
text \<open>Device numbers read back: the number put together from a major below 4096 and a minor below
  two to the twentieth is printed as these two numbers.\<close>

theorem device_number_round_trip:
  assumes "unat major < 2 ^ 12" "unat minor < 2 ^ 20"
  shows "device_text (mkdev major minor) = nat_str (unat major) @ '':'' @ nat_str (unat minor)"
proof -
  have "major = take_bit 12 major" "minor = take_bit 20 minor"
    using assms by (simp_all add: word_unat_eq_iff unsigned_take_bit_eq take_bit_nat_eq_self)
  then show ?thesis
    using major_mkdev minor_mkdev by (simp add: device_text_def word_str_def)
qed

theorem device_number_round_trip_witness:
  "device_text (mkdev 10 236) = nat_str (unat (10 :: 64 word)) @ '':'' @ nat_str (unat (236 :: 64 word))"
  by (rule device_number_round_trip) simp_all

subsection \<open>What an opened mapping leaves in the trace\<close>

text \<open>\<open>last_table name t\<close>: the record of the last accepted table load for the mapping, unless it
  was removed or created anew since.\<close>

fun last_table :: "string \<Rightarrow> trace \<Rightarrow> string option" where
  "last_table name [] = None"
| "last_table name (Dm_call r True # t) =
    (if dm_name r \<noteq> name then last_table name t
     else if dm_nr r = dmTableLoad then Some (dm_payload r)
     else if dm_nr r = dmDevCreate \<or> dm_nr r = dmDevRemove then None
     else last_table name t)"
| "last_table name (_ # t) = last_table name t"

text \<open>Calls that leave the mapping \<open>name\<close> alone.\<close>

definition spares :: "string \<Rightarrow> event \<Rightarrow> bool" where
  "spares name e \<longleftrightarrow> (\<forall>r b. e = Dm_call r b \<longrightarrow> dm_name r \<noteq> name)"

lemma last_table_spares: "list_all (spares name) es \<Longrightarrow> last_table name (es @ t) = last_table name t"
proof (induction es)
  case (Cons e es)
  then show ?case
    by (cases "(name, e # es @ t)" rule: last_table.cases) (auto simp: spares_def)
qed simp

lemma looks_spares: "looks e \<Longrightarrow> spares name e"
  by (auto simp: looks_def spares_def)

lemma dmCall_Inr:
  assumes "run_state (dmCall K nr name fl pl tg) t = (Inr d, t')"
  shows "t' = Dm_call (dm_header nr name fl pl tg) True # Read_call ''/dev/mapper/control'' # t"
  using assms by (auto simp: dmCall_def split: if_splits sum.splits)

lemma dm_header_sel [simp]:
  "dm_name (dm_header nr name fl pl tg) = name" "dm_nr (dm_header nr name fl pl tg) = nr"
  "dm_payload (dm_header nr name fl pl tg) = pl"
  by (simp_all add: dm_header_def Let_def)

lemma undo_create_not_Inr [simp]: "run_state (undo_create K name e) t \<noteq> (Inr x, t')"
  by (auto simp: undo_create_def split: prod.splits)

lemma load_mapping_maps:
  assumes "run_state (load_mapping K name pl) t = (Inr node, t')"
  shows "node = mapper_node name \<and> last_table name t' = Some pl"
proof -
  from assms obtain dev t1 u t2 v t3 where
    c: "run_state (dmCall K dmDevCreate name dmReadOnlyFlag [] 0) t = (Inr dev, t1)" and
    l: "run_state (dmCall K dmTableLoad name dmReadOnlyFlag pl 1) t1 = (Inr u, t2)" and
    s: "run_state (dmCall K dmDevSuspend name 0 [] 0) t2 = (Inr v, t3)" and
    n: "run_state (make_node K name dev) t3 = (Inr node, t')"
    by (auto simp: load_mapping_def run_bind_sum simp del: run_state_bind)
  from n have "node = mapper_node name \<and> (\<exists>es. t' = es @ t3 \<and> list_all (spares name) es)"
    by (auto simp: make_node_def Let_def sys_mkdir_all_def sys_unlink_def sys_mknod_def spares_def
        split: sum.splits prod.splits intro: exI [of _ "[_, _, _]"])
  moreover have "last_table name t3 = Some pl"
    unfolding dmCall_Inr [OF s] dmCall_Inr [OF l]
    by (simp add: dmDevSuspend_def dmTableLoad_def dmDevCreate_def dmDevRemove_def)
  ultimately show ?thesis by (auto simp: last_table_spares)
qed

text \<open>\<open>signed_mapping name rh t\<close>: the mapping checks every block against the root hash \<open>rh\<close>.\<close>

definition signed_mapping :: "string \<Rightarrow> string \<Rightarrow> trace \<Rightarrow> bool" where
  "signed_mapping name rh t \<longleftrightarrow>
     (\<exists>sb n a b. supported sb \<and> last_table name t = Some (verityTarget n (VerityTable sb (device_text a) (device_text b) rh)))"

lemma signed_mapping_spares: "list_all (spares name) es \<Longrightarrow> signed_mapping name rh (es @ t) = signed_mapping name rh t"
  by (simp add: signed_mapping_def last_table_spares)

lemma devNumber_Inr: "run_state (devNumber K p) t = (Inr s, t') \<Longrightarrow> \<exists>a. s = device_text a"
  by (auto simp: devNumber_def sys_stat_def err_bind_Inr_iff split: if_splits)

lemma ReadVeritySuperblock_Inr: "run_state (ReadVeritySuperblock K p) t = (Inr sb, t') \<Longrightarrow> supported sb"
  by (auto simp: ReadVeritySuperblock_def sys_read_at_def intro: err_bind_supported)

lemma OpenVerity_maps:
  assumes "run_state (OpenVerity K name d h rh) t = (Inr node, t')"
  shows "node = mapper_node name \<and> signed_mapping name rh t' \<and> ValidRootHash rh"
proof (cases "ValidRootHash rh")
  case True
  with assms obtain sb t1 dn t2 hn t3 where
    sb: "run_state (ReadVeritySuperblock K h) t = (Inr sb, t1)" and
    dn: "run_state (devNumber K d) t1 = (Inr dn, t2)" and
    hn: "run_state (devNumber K h) t2 = (Inr hn, t3)" and
    l: "run_state (load_mapping K name (verityTarget (sectors_of sb) (VerityTable sb dn hn rh))) t3 = (Inr node, t')"
    by (auto simp: OpenVerity_def run_bind_sum simp del: run_state_bind)
  from devNumber_Inr [OF dn] devNumber_Inr [OF hn] ReadVeritySuperblock_Inr [OF sb] load_mapping_maps [OF l] True
  show ?thesis by (auto simp: signed_mapping_def)
qed (use assms in \<open>simp add: OpenVerity_def\<close>)

text \<open>Calls that deal with the mapping \<open>name\<close> and nothing else.\<close>

definition maps_only :: "string \<Rightarrow> event \<Rightarrow> bool" where
  "maps_only name e \<longleftrightarrow>
     (case e of
        Read_call p \<Rightarrow> True | Mkdir_call p \<Rightarrow> p = ''/dev/mapper'' | Unlink_call p \<Rightarrow> p = mapper_node name
      | Mknod_call p dev \<Rightarrow> p = mapper_node name | Dm_call r b \<Rightarrow> dm_name r = name | Sleep_call d \<Rightarrow> True | _ \<Rightarrow> False)"

lemma looks_maps_only: "looks e \<Longrightarrow> maps_only name e"
  by (auto simp: looks_def maps_only_def)

lemma maps_only_spares: "maps_only other e \<Longrightarrow> other \<noteq> name \<Longrightarrow> spares name e"
  by (auto simp: maps_only_def spares_def)

lemma emits_dmCall: "emits (maps_only name) (dmCall K nr name fl pl tg)"
  unfolding dmCall_def by (intro emit_intros emits_kcall) (simp_all add: maps_only_def)

lemma emits_close_attempts: "emits (maps_only name) (close_attempts K name n err)"
proof (induction n arbitrary: err)
  case (Suc n)
  then show ?case
    unfolding close_attempts.simps sys_sleep_def
    by (intro emit_intros emits_dmCall emits_note_call) (simp_all add: maps_only_def)
qed (simp add: emits_pure)

lemma emits_CloseVerity: "emits (maps_only name) (CloseVerity K name)"
  unfolding CloseVerity_def sys_unlink_def
  by (intro emit_intros emits_close_attempts emits_note_call) (simp add: maps_only_def)

lemma emits_load_mapping: "emits (maps_only name) (load_mapping K name pl)"
  unfolding load_mapping_def undo_create_def make_node_def sys_mkdir_all_def sys_unlink_def sys_mknod_def Let_def
  by (intro emit_intros emits_dmCall emits_CloseVerity emits_note_call emits_kcall) (simp_all add: maps_only_def)

lemma emits_looks_maps_only: "emits looks m \<Longrightarrow> emits (maps_only name) m"
  by (erule emits_mono, rule looks_maps_only)

lemma emits_OpenVerity: "emits (maps_only name) (OpenVerity K name d h rh)"
  unfolding OpenVerity_def ReadVeritySuperblock_def devNumber_def
  by (intro emit_intros emits_load_mapping emits_looks [THEN emits_looks_maps_only])

lemma emits_HasEROFS [emit_intros]: "emits looks (HasEROFS K dev)"
  unfolding HasEROFS_def by (intro emit_intros)

text \<open>The removal loop returns: at most forty requests, each followed by at most one pause.\<close>

definition is_removal :: "event \<Rightarrow> bool" where
  "is_removal e = (case e of Dm_call r b \<Rightarrow> dm_nr r = dmDevRemove | _ \<Rightarrow> False)"

lemma not_removal [simp]: "\<not> is_removal (Sleep_call d)" "\<not> is_removal (Unlink_call p)" "\<not> is_removal (Read_call p)"
  by (simp_all add: is_removal_def)

lemma close_attempts_bounded:
  "\<exists>es. snd (run_state (close_attempts K name n err) t) = es @ t \<and> length (filter is_removal es) \<le> n \<and> length es \<le> 3 * n"
proof (induction n arbitrary: err t)
  case (Suc n)
  obtain r t1 where r: "run_state (dmCall K dmDevRemove name 0 [] 0) t = (r, t1)"
    by (cases "run_state (dmCall K dmDevRemove name 0 [] 0) t")
  then obtain es1 where es1: "t1 = es1 @ t" "length (filter is_removal es1) \<le> 1" "length es1 \<le> 2"
    by (auto simp: dmCall_def split: if_splits sum.splits)
  show ?case
  proof (cases "r = Inl (Sys EBUSY)")
    case True
    from Suc.IH [of "Inl (Sys EBUSY)" "Sleep_call 50000000 # t1"] obtain es where
      "snd (run_state (close_attempts K name n (Inl (Sys EBUSY))) (Sleep_call 50000000 # t1)) = es @ Sleep_call 50000000 # t1"
      "length (filter is_removal es) \<le> n" "length es \<le> 3 * n" by blast
    with r es1 True show ?thesis
      by (intro exI [of _ "es @ Sleep_call 50000000 # es1"]) (simp add: sys_sleep_def)
  next
    case False
    with r es1 show ?thesis
      by (intro exI [of _ es1]) (auto split: sum.splits)
  qed
qed simp

text \<open>C32. Closing a mapping always returns: after at most forty removal requests, having touched no
  other mapping and nothing else of the system.\<close>

theorem CloseVerity_returns:
  "\<exists>r es. run_state (CloseVerity K name) t = (r, es @ t) \<and> length (filter is_removal es) \<le> 40 \<and>
     length es \<le> 121 \<and> list_all (maps_only name) es"
proof -
  obtain r t' where r: "run_state (CloseVerity K name) t = (r, t')"
    by (cases "run_state (CloseVerity K name) t")
  from close_attempts_bounded [of K name 40 "Inr ()" "Unlink_call (mapper_node name) # t"] r
  obtain es where es: "t' = es @ Unlink_call (mapper_node name) # t" "length (filter is_removal es) \<le> 40" "length es \<le> 120"
    by (auto simp: CloseVerity_def sys_unlink_def)
  from emitsE [OF emits_CloseVerity r] obtain fs where "t' = fs @ t" "list_all (maps_only name) fs" by blast
  with es r show ?thesis
    by (intro exI [of _ r] exI [of _ "es @ [Unlink_call (mapper_node name)]"]) auto
qed

text \<open>A mapping that opens checks against the signed hash: when \<open>OpenVerity\<close> returns a node, it
  is the node of that mapping, the hash is well formed, and the last table device mapper accepted
  for the mapping carries it.\<close>

theorem OpenVerity_carries_hash:
  assumes "run_state (OpenVerity K name d h rh) t = (Inr node, t')"
  shows "node = mapper_node name \<and>
    (\<exists>buf ws. last_table name t' = Some buf \<and> split_on (CHR '' '') (target_params buf) = ws \<and>
       hex_decode (ws ! 8) = hex_decode rh \<and> ValidRootHash (ws ! 8))"
proof -
  from OpenVerity_maps [OF assms] obtain sb n a b where
    m: "node = mapper_node name" "ValidRootHash rh" "supported sb"
      "last_table name t' = Some (verityTarget n (VerityTable sb (device_text a) (device_text b) rh))"
    by (auto simp: signed_mapping_def)
  then have "ValidRootHash (map to_lower rh)" by (simp add: ValidRootHash_def hex_decode_to_lower)
  with m table_reads_back [OF m(3,2), of n a b] show ?thesis
    by (simp add: table_words_def hex_decode_to_lower)
qed

subsection \<open>A small machine\<close>

text \<open>A kernel for concrete runs: one disk with a data partition that holds one root slot, whose
  image and hash tree become the loop devices 0 and 1. Every mount and mapping succeeds.\<close>

definition block_stat :: "64 word \<Rightarrow> file_stat" where
  "block_stat rdev = \<lparr>fs_is_dir = False, fs_mode = 384, fs_block = True, fs_rdev = rdev, fs_dev = 0\<rparr>"

definition plain_stat :: "nat \<Rightarrow> file_stat" where
  "plain_stat mode = \<lparr>fs_is_dir = False, fs_mode = mode, fs_block = False, fs_rdev = 0, fs_dev = 1\<rparr>"

definition found :: "string \<Rightarrow> (string \<times> 'a) list \<Rightarrow> error + 'a" where
  "found p xs = (case map_of xs p of None \<Rightarrow> Inl (Sys ENOENT) | Some x \<Rightarrow> Inr x)"

definition erofs_magic :: string where
  "erofs_magic = [CHR 0xE2, CHR 0xE1, CHR 0xF5, CHR 0xE0]"

definition sample_hash :: string where
  "sample_hash = replicate 64 (CHR ''A'')"

definition sample_read :: "string \<Rightarrow> nat \<Rightarrow> nat \<Rightarrow> error + string" where
  "sample_read p off n =
     (if p = ''/dev/loop1'' \<and> off = 0 then Inr (take n (superblock_bytes (replicate 16 (CHR 0x07)) sample_superblock))
      else if p \<in> {''/dev/loop0'', ''/dev/mapper/vroot''} \<and> off = 1024 then Inr (take n erofs_magic)
      else Inl (Sys ENOENT))"

definition sample_stats :: "(string \<times> file_stat) list" where
  "sample_stats = [(''/dev/loop0'', block_stat 0x700), (''/dev/loop1'', block_stat 0x701),
     (''/sys/class/block/sda1/partition'', plain_stat 292), (''/sysdata/.atom-var'', plain_stat 420),
     (''/sysroot/sbin/init'', plain_stat 493),
     (''/'', plain_stat 493\<lparr>fs_is_dir := True\<rparr>), (''/sysroot'', plain_stat 493\<lparr>fs_is_dir := True, fs_dev := 2\<rparr>)]"

definition count_loops :: "trace \<Rightarrow> nat" where
  "count_loops t = length (filter (\<lambda>e. case e of Loop_configure_call d f b \<Rightarrow> b | _ \<Rightarrow> False) t)"

definition sample_kernel :: kernel where
  "sample_kernel = \<lparr>
     k_read_file = (\<lambda>t p. found p [(''/proc/cmdline'', ''ro atom.roothash='' @ sample_hash)]),
     k_read_at = (\<lambda>t p off n. sample_read p off n),
     k_stat = (\<lambda>t p. found p sample_stats),
     k_lstat = (\<lambda>t p. found p sample_stats),
     k_readdir = (\<lambda>t p. found p [(''/sys/class/block'', [(''sda'', False), (''sda1'', False)]), (''/sys/class/block/sda'', [(''sda1'', True)])]),
     k_glob = (\<lambda>t p. if p = ''/sysdata/boot/rootfs/rootfs-*.erofs'' then [''/sysdata/boot/rootfs/rootfs-active.erofs'']
                 else if p = ''/sysdata/boot/rootfs/rootfs-*.hash'' then [''/sysdata/boot/rootfs/rootfs-active.hash''] else []),
     k_realpath = (\<lambda>t p. found p [(''/sys/class/block/sda1'', ''/sys/devices/sda/sda1'')]),
     k_mknod = (\<lambda>t p d. Inr ()),
     k_mount = (\<lambda>t src dst fstype flags opts. Inr ()),
     k_unmount = (\<lambda>t p. Inr ()),
     k_dm_open = (\<lambda>t. Inr ()),
     k_dm = (\<lambda>t r. if dm_nr r = dmDevRemove then Inl (Sys ENXIO) else Inr 0xFD00),
     k_open = (\<lambda>t p. Inr ()),
     k_finit_module = (\<lambda>t p. Inr ()),
     k_loop_free = (\<lambda>t. Inr (count_loops t)),
     k_loop_configure = (\<lambda>t d f. Inr ()),
     k_loop_clear = (\<lambda>t d. Inr ()),
     k_exec = (\<lambda>t p as. Inl (Sys ENOENT)),
     k_chdir = (\<lambda>t p. Inr ()),
     k_chroot = (\<lambda>t p. Inr ()),
     k_execve = (\<lambda>t p as. Inr ()),
     k_uname = (\<lambda>t. Inr ''6.1.0''),
     k_stdin = (\<lambda>t. []),
     k_statfs = (\<lambda>t p. Inr 0x01021994)\<rparr>"

lemma sample_superblock_read [simp]:
  "run_state (ReadVeritySuperblock sample_kernel ''/dev/loop1'') t = (Inr sample_superblock, Read_call ''/dev/loop1'' # t)"
proof -
  have l: "length (superblock_bytes (replicate 16 (CHR 0x07)) sample_superblock) = 512"
    by (rule superblock_at) simp
  have "ParseVeritySuperblock (superblock_bytes (replicate 16 (CHR 0x07)) sample_superblock) = Inr sample_superblock"
    using superblock_parses [OF supported_sample, of "replicate 16 (CHR 0x07)" "[]"] by simp
  with l show ?thesis
    by (simp add: ReadVeritySuperblock_def sys_read_at_def sample_kernel_def sample_read_def)
qed

lemma sample_devNumber [simp]:
  "run_state (devNumber sample_kernel ''/dev/loop0'') t = (Inr (device_text 0x700), Read_call ''/dev/loop0'' # t)"
  "run_state (devNumber sample_kernel ''/dev/loop1'') t = (Inr (device_text 0x701), Read_call ''/dev/loop1'' # t)"
  by (simp_all add: devNumber_def sys_stat_def sample_kernel_def sample_stats_def found_def block_stat_def)

lemma mapper_vroot: "mapper_node ''vroot'' = ''/dev/mapper/vroot''"
  by code_simp

lemma sample_dmCall [simp]:
  "run_state (dmCall sample_kernel nr ''vroot'' fl pl tg) t =
     (if nr = dmDevRemove then Inl (Sys ENXIO) else Inr 0xFD00,
      Dm_call (dm_header nr ''vroot'' fl pl tg) (nr \<noteq> dmDevRemove) # Read_call ''/dev/mapper/control'' # t)"
  by (simp add: dmCall_def sample_kernel_def slash_def)

lemma sample_load [simp]:
  "run_state (load_mapping sample_kernel ''vroot'' pl) t =
     (Inr ''/dev/mapper/vroot'',
      [Mknod_call ''/dev/mapper/vroot'' 0xFD00, Unlink_call ''/dev/mapper/vroot'', Mkdir_call ''/dev/mapper'',
       Dm_call (dm_header dmDevSuspend ''vroot'' 0 [] 0) True, Read_call ''/dev/mapper/control'',
       Dm_call (dm_header dmTableLoad ''vroot'' dmReadOnlyFlag pl 1) True, Read_call ''/dev/mapper/control'',
       Dm_call (dm_header dmDevCreate ''vroot'' dmReadOnlyFlag [] 0) True, Read_call ''/dev/mapper/control''] @ t)"
  by (simp add: load_mapping_def make_node_def Let_def sys_mkdir_all_def sys_unlink_def sys_mknod_def mapper_vroot
      dmDevSuspend_def dmTableLoad_def dmDevCreate_def dmDevRemove_def) (simp add: sample_kernel_def)

lemma sample_hash_valid [simp]: "ValidRootHash sample_hash"
  by code_simp

lemma sample_opens:
  "\<exists>t'. run_state (OpenVerity sample_kernel ''vroot'' ''/dev/loop0'' ''/dev/loop1'' sample_hash) t = (Inr ''/dev/mapper/vroot'', t')"
  by (simp add: OpenVerity_def)

theorem OpenVerity_carries_hash_witness:
  "\<exists>t'. ''/dev/mapper/vroot'' = mapper_node ''vroot'' \<and>
    (\<exists>buf ws. last_table ''vroot'' t' = Some buf \<and> split_on (CHR '' '') (target_params buf) = ws \<and>
       hex_decode (ws ! 8) = hex_decode sample_hash \<and> ValidRootHash (ws ! 8))"
proof -
  obtain t' where "run_state (OpenVerity sample_kernel ''vroot'' ''/dev/loop0'' ''/dev/loop1'' sample_hash) [] = (Inr ''/dev/mapper/vroot'', t')"
    using sample_opens by blast
  from OpenVerity_carries_hash [OF this] show ?thesis by blast
qed

end
