(* ===== verification/RootSafe.thy ===== *)
theory RootSafe
  imports Root VeritySafe "HOL-Library.Multiset"
begin

section \<open>The root that is found is the signed one\<close>

text \<open>
  What the search for the root promises: on a locked device the root is a verity mapping opened
  with the signed hash whose first read succeeded, its image and hash tree come from the same
  place, and the pairs are tried in an order that loses none.
\<close>

subsection \<open>The order of the pairs\<close>

lemma rank_datas_pairs:
  "map fst (fst (run_state (rank_datas cfg ops h hr want ds) s)) = map (\<lambda>d. (d, h)) ds"
proof (induction ds arbitrary: s)
  case (Cons d ds)
  obtain x s1 where "run_state (pair_score cfg ops hr want d) s = (x, s1)" by (cases "run_state (pair_score cfg ops hr want d) s")
  with Cons.IH [of s1] show ?case by (auto split: prod.splits)
qed simp

lemma rank_hashes_pairs:
  "map fst (fst (run_state (rank_hashes cfg ops ds hs) s)) = concat (map (\<lambda>h. map (\<lambda>d. (d, h)) ds) hs)"
proof (induction hs arbitrary: s)
  case (Cons h hs)
  define ask where "ask = (case op_HashRoot ops of None \<Rightarrow> pure ([], 0) | Some hashRoot \<Rightarrow> hashRoot h)"
  obtain rw s1 where rw: "run_state ask s = (rw, s1)" by (cases "run_state ask s")
  obtain xs s2 where xs: "run_state (rank_datas cfg ops h (fst rw) (snd rw) ds) s1 = (xs, s2)"
    by (cases "run_state (rank_datas cfg ops h (fst rw) (snd rw) ds) s1")
  from rank_datas_pairs [of cfg ops h "fst rw" "snd rw" ds s1] xs have "map fst xs = map (\<lambda>d. (d, h)) ds" by simp
  with rw xs Cons.IH [of s2] show ?case
    by (auto simp: ask_def [symmetric] split: prod.splits)
qed simp

lemma rankPairs_mset:
  "mset (fst (run_state (rankPairs cfg ops ds hs) s)) = mset (concat (map (\<lambda>h. map (\<lambda>d. (d, h)) ds) hs))"
proof -
  obtain xs s1 where xs: "run_state (rank_hashes cfg ops ds hs) s = (xs, s1)" by (cases "run_state (rank_hashes cfg ops ds hs) s")
  with rank_hashes_pairs [of cfg ops ds hs s]
  have "mset (map fst xs) = mset (concat (map (\<lambda>h. map (\<lambda>d. (d, h)) ds) hs))" by simp
  moreover have "mset (map fst (sort_key (\<lambda>r. - int (snd r)) xs)) = mset (map fst xs)"
    by (simp only: mset_map mset_sort)
  ultimately show ?thesis using xs by (simp add: rankPairs_def)
qed

lemma rankPairs_set: "run_state (rankPairs cfg ops ds hs) s = (ps, s') \<Longrightarrow> set ps = set ds \<times> set hs"
proof -
  assume "run_state (rankPairs cfg ops ds hs) s = (ps, s')"
  with rankPairs_mset [of cfg ops ds hs s] have "mset ps = mset (concat (map (\<lambda>h. map (\<lambda>d. (d, h)) ds) hs))" by simp
  from mset_eq_setD [OF this] show ?thesis by auto
qed

text \<open>How the hash devices answer, when they answer the same way every time.\<close>

definition hash_answers :: "'s ops \<Rightarrow> (string \<Rightarrow> string) \<Rightarrow> bool" where
  "hash_answers ops f \<longleftrightarrow>
     (\<exists>hr. op_HashRoot ops = Some hr \<and> (\<forall>h s. \<exists>n s'. run_state (hr h) s = ((f h, n), s')))"

text \<open>2: the signed root; 1: unknown; 0: another root.\<close>

definition hash_rank :: "config \<Rightarrow> string \<Rightarrow> nat" where
  "hash_rank cfg hashRoot = (if hashRoot = [] then 1 else if equal_fold hashRoot (cf_root_hash cfg) then 2 else 0)"

definition rank_of_score :: "nat \<Rightarrow> nat" where
  "rank_of_score k = (k + 1) div 2"

lemma rank_of_score_mono: "j \<le> k \<Longrightarrow> rank_of_score j \<le> rank_of_score k"
  by (simp add: rank_of_score_def div_le_mono)

lemma pair_score_rank:
  "run_state (pair_score cfg ops hr want d) s = (k, s') \<Longrightarrow> rank_of_score k = hash_rank cfg hr"
  by (auto simp: pair_score_def base_score_def rank_of_score_def hash_rank_def split: option.splits if_splits prod.splits)

lemma rank_datas_rank:
  "run_state (rank_datas cfg ops h hr want ds) s = (xs, s') \<Longrightarrow> (dh, k) \<in> set xs \<Longrightarrow> snd dh = h \<and> rank_of_score k = hash_rank cfg hr"
proof (induction ds arbitrary: s xs s')
  case (Cons d ds)
  obtain j s1 where j: "run_state (pair_score cfg ops hr want d) s = (j, s1)" by (cases "run_state (pair_score cfg ops hr want d) s")
  obtain ys s2 where ys: "run_state (rank_datas cfg ops h hr want ds) s1 = (ys, s2)" by (cases "run_state (rank_datas cfg ops h hr want ds) s1")
  with Cons.prems j have "(dh, k) = ((d, h), j) \<or> (dh, k) \<in> set ys" by auto
  with Cons.IH [OF ys] pair_score_rank [OF j] show ?case by auto
qed simp

lemma rank_hashes_rank:
  assumes "hash_answers ops f"
  shows "run_state (rank_hashes cfg ops ds hs) s = (xs, s') \<Longrightarrow> (dh, k) \<in> set xs \<Longrightarrow> rank_of_score k = hash_rank cfg (f (snd dh))"
proof (induction hs arbitrary: s xs s')
  case (Cons h hs)
  from assms obtain hr n s1 where h: "op_HashRoot ops = Some hr" "run_state (hr h) s = ((f h, n), s1)"
    unfolding hash_answers_def by metis
  obtain xs1 s2 where xs1: "run_state (rank_datas cfg ops h (f h) n ds) s1 = (xs1, s2)" by (cases "run_state (rank_datas cfg ops h (f h) n ds) s1")
  obtain ys s3 where ys: "run_state (rank_hashes cfg ops ds hs) s2 = (ys, s3)" by (cases "run_state (rank_hashes cfg ops ds hs) s2")
  from Cons.prems h xs1 ys have "(dh, k) \<in> set xs1 \<or> (dh, k) \<in> set ys" by auto
  then show ?case
  proof
    assume "(dh, k) \<in> set xs1"
    from rank_datas_rank [OF xs1 this] show ?thesis by simp
  qed (rule Cons.IH [OF ys])
qed simp

text \<open>The pairs of images and hash trees are tried in an order that loses none and repeats none:
  a permutation of all pairs, in which no pair whose hash device names another root comes before
  one of unknown root, and none of these before one that names the signed root.\<close>

theorem rankPairs_permutes_by_rank:
  assumes "hash_answers ops f" "run_state (rankPairs cfg ops ds hs) s = (ps, s')"
  shows "mset ps = mset (concat (map (\<lambda>h. map (\<lambda>d. (d, h)) ds) hs)) \<and>
    sorted_wrt (\<lambda>p q. hash_rank cfg (f (snd q)) \<le> hash_rank cfg (f (snd p))) ps"
proof
  show "mset ps = mset (concat (map (\<lambda>h. map (\<lambda>d. (d, h)) ds) hs))"
    using rankPairs_mset [of cfg ops ds hs s] assms(2) by simp
  obtain xs where xs: "run_state (rank_hashes cfg ops ds hs) s = (xs, s')" "ps = map fst (sort_key (\<lambda>r. - int (snd r)) xs)"
    using assms(2) by (auto simp: rankPairs_def split: prod.splits)
  let ?ys = "sort_key (\<lambda>r. - int (snd r)) xs"
  have rank: "rank_of_score (snd p) = hash_rank cfg (f (snd (fst p)))" if "p \<in> set ?ys" for p
    using rank_hashes_rank [OF assms(1) xs(1), of "fst p" "snd p"] that by simp
  have "sorted_wrt (\<lambda>p q. snd q \<le> snd p) ?ys"
    using sorted_sort_key [of "\<lambda>r. - int (snd r)" xs] by (simp add: sorted_map)
  moreover have "hash_rank cfg (f (snd (fst q))) \<le> hash_rank cfg (f (snd (fst p)))"
    if "p \<in> set ?ys" "q \<in> set ?ys" "snd q \<le> snd p" for p q
    using rank [OF that(1)] rank [OF that(2)] rank_of_score_mono [OF that(3)] by simp
  ultimately have "sorted_wrt (\<lambda>p q. hash_rank cfg (f (snd (fst q))) \<le> hash_rank cfg (f (snd (fst p)))) ?ys"
    by (rule sorted_wrt_mono_rel [rotated])
  then show "sorted_wrt (\<lambda>p q. hash_rank cfg (f (snd q)) \<le> hash_rank cfg (f (snd p))) ps"
    by (simp add: xs(2) sorted_wrt_map)
qed

subsection \<open>What a verified root was\<close>

text \<open>\<open>opened ops name d h rh node s\<close>: the state \<open>s\<close> comes right after the mapping of \<open>d\<close> and \<open>h\<close>
  under the hash \<open>rh\<close> opened as \<open>node\<close> and a first read through it succeeded.\<close>

definition opened :: "'s ops \<Rightarrow> string \<Rightarrow> string \<Rightarrow> string \<Rightarrow> string \<Rightarrow> string \<Rightarrow> 's \<Rightarrow> bool" where
  "opened ops name d h rh node s \<longleftrightarrow>
     (\<exists>s1 s2. run_state (op_OpenVerity ops name d h rh) s1 = (Inr node, s2) \<and> run_state (op_HasEROFS ops node) s2 = (True, s))"

text \<open>\<open>paired m ops d h\<close>: image and hash tree are slots of the data partition, the two files of
  the optical medium, or, outside both, on what was answered to be one disk.\<close>

definition paired :: "media \<Rightarrow> 's ops \<Rightarrow> string \<Rightarrow> string \<Rightarrow> bool" where
  "paired m ops d h \<longleftrightarrow>
     ((d \<in> set (md_slot_datas m)) = (h \<in> set (md_slot_hashes m))) \<and>
     ((md_iso_data m \<noteq> [] \<and> d = md_iso_data m) = (md_iso_hash m \<noteq> [] \<and> h = md_iso_hash m)) \<and>
     (d \<in> set (md_slot_datas m) \<or> md_iso_data m \<noteq> [] \<and> d = md_iso_data m \<or>
      (\<exists>a s1 s2 s3 s4. run_state (op_DiskOf ops d) s1 = (a, s2) \<and> run_state (op_DiskOf ops h) s3 = (a, s4)))"

lemma samePairOrigin_paired: "run_state (samePairOrigin m ops d h) s = (True, s') \<Longrightarrow> paired m ops d h"
  by (auto simp: samePairOrigin_def paired_def Let_def split: if_splits prod.splits)

lemma try_pairs_Some:
  "run_state (try_pairs cfg m ops ps) s = (Some r, s') \<Longrightarrow>
     \<exists>d h. (d, h) \<in> set ps \<and> r = verified_root (rt_source r) d h \<and> paired m ops d h \<and>
       opened ops RootMapper d h (cf_root_hash cfg) (rt_source r) s'"
proof (induction ps arbitrary: s)
  case (Cons dh ps)
  obtain same s1 where same: "run_state (samePairOrigin m ops (fst dh) (snd dh)) s = (same, s1)"
    by (cases "run_state (samePairOrigin m ops (fst dh) (snd dh)) s")
  show ?case
  proof (cases same)
    case False
    with Cons.prems same Cons.IH [of s1] show ?thesis by (auto simp: run_bind_eq)
  next
    case True
    obtain u s2 where s2: "run_state (op_CloseVerity ops RootMapper) s1 = (u, s2)" by (cases "run_state (op_CloseVerity ops RootMapper) s1")
    obtain v s3 where s3: "run_state (op_OpenVerity ops RootMapper (fst dh) (snd dh) (cf_root_hash cfg)) s2 = (v, s3)"
      by (cases "run_state (op_OpenVerity ops RootMapper (fst dh) (snd dh) (cf_root_hash cfg)) s2")
    show ?thesis
    proof (cases v)
      case (Inl e)
      with Cons.prems same True s2 s3 Cons.IH [of s3] show ?thesis by auto
    next
      case (Inr node)
      obtain ok s4 where ok: "run_state (op_HasEROFS ops node) s3 = (ok, s4)" by (cases "run_state (op_HasEROFS ops node) s3")
      obtain w s5 where s5: "run_state (op_CloseVerity ops RootMapper) s4 = (w, s5)" by (cases "run_state (op_CloseVerity ops RootMapper) s4")
      show ?thesis
      proof (cases ok)
        case True
        with Cons.prems same \<open>same\<close> s2 s3 Inr ok have r: "r = verified_root node (fst dh) (snd dh)" "s' = s4" by auto
        then have "opened ops RootMapper (fst dh) (snd dh) (cf_root_hash cfg) (rt_source r) s'"
          using s3 ok Inr True by (auto simp: opened_def verified_root_def)
        moreover have "paired m ops (fst dh) (snd dh)"
          using same \<open>same\<close> by (auto intro: samePairOrigin_paired)
        ultimately show ?thesis using r
          by (intro exI [of _ "fst dh"] exI [of _ "snd dh"]) (simp add: verified_root_def)
      next
        case False
        with Cons.prems same \<open>same\<close> s2 s3 Inr ok s5 Cons.IH [of s5] show ?thesis by auto
      qed
    qed
  qed
qed simp

lemma selectVerified_Some:
  assumes "run_state (selectVerified cfg m ops) s = (Some r, s')"
  shows "\<exists>d h. r = verified_root (rt_source r) d h \<and> paired m ops d h \<and>
    opened ops RootMapper d h (cf_root_hash cfg) (rt_source r) s' \<and>
    (\<not> cf_live cfg \<longrightarrow> d \<in> set (md_slot_datas m) \<and> h \<in> set (md_slot_hashes m))"
proof -
  from assms obtain dh s1 ps s2 where
    dh: "run_state (root_devices cfg m ops) s = (dh, s1)" and
    ps: "run_state (rankPairs cfg ops (fst dh) (snd dh)) s1 = (ps, s2)" and
    t: "run_state (try_pairs cfg m ops ps) s2 = (Some r, s')"
    by (auto simp: selectVerified_def run_bind_eq simp del: run_state_bind)
  have "\<not> cf_live cfg \<Longrightarrow> dh = (md_slot_datas m, md_slot_hashes m)"
    using dh by (simp add: root_devices_def)
  with try_pairs_Some [OF t] rankPairs_set [OF ps] show ?thesis by fastforce
qed

definition found_root :: "config \<Rightarrow> media \<Rightarrow> 's ops \<Rightarrow> root \<Rightarrow> 's \<Rightarrow> bool" where
  "found_root cfg m ops r s \<longleftrightarrow>
     rt_mapper r = RootMapper \<and> paired m ops (rt_data r) (rt_hash r) \<and>
     opened ops RootMapper (rt_data r) (rt_hash r) (cf_root_hash cfg) (rt_source r) s \<and>
     (rt_from_slot r \<longleftrightarrow> rt_data r \<in> set (md_slot_datas m)) \<and>
     (\<not> cf_live cfg \<longrightarrow> rt_from_slot r)"

lemma select_attempts_found:
  "run_state (select_attempts cfg ops n m) s = ((Inr r, m'), s') \<Longrightarrow> \<not> cf_unlocked cfg \<Longrightarrow> found_root cfg m' ops r s'"
proof (induction n arbitrary: m s)
  case (Suc n)
  from Suc.prems obtain m1 s1 m2 s2 where
    m1: "run_state (FindData cfg ops m) s = (m1, s1)" and m2: "run_state (FindISO cfg ops m1) s1 = (m2, s2)"
    by (metis prod.exhaust)
  obtain found s3 where found: "run_state (selectVerified cfg m2 ops) s2 = (found, s3)" by (cases "run_state (selectVerified cfg m2 ops) s2")
  show ?case
  proof (cases found)
    case None
    obtain u s4 where "run_state (op_Sleep ops (cf_interval cfg)) s3 = (u, s4)" by (cases "run_state (op_Sleep ops (cf_interval cfg)) s3")
    with None Suc.prems m1 m2 found Suc.IH [of m2 s4] show ?thesis by simp
  next
    case (Some r0)
    with Suc.prems m1 m2 found have r: "m' = m2" "s' = s3"
      "r = r0\<lparr>rt_optical := md_iso_data m2 \<noteq> [] \<and> rt_data r0 = md_iso_data m2, rt_from_slot := rt_data r0 \<in> set (md_slot_datas m2)\<rparr>"
      by auto
    from selectVerified_Some [of cfg m2 ops s2 r0 s3] found Some obtain d h where
      "r0 = verified_root (rt_source r0) d h" "paired m2 ops d h" "opened ops RootMapper d h (cf_root_hash cfg) (rt_source r0) s3"
      "\<not> cf_live cfg \<longrightarrow> d \<in> set (md_slot_datas m2) \<and> h \<in> set (md_slot_hashes m2)" by blast
    moreover from this(1) have "rt_data r0 = d" "rt_hash r0 = h" "rt_mapper r0 = RootMapper" by (metis root.select_convs verified_root_def)+
    ultimately show ?thesis by (simp add: found_root_def r)
  qed
qed simp

lemma SelectRoot_found:
  assumes "run_state (SelectRoot cfg m ops) s = ((Inr r, m'), s')" "\<not> cf_unlocked cfg"
  shows "ValidRootHash (cf_root_hash cfg) \<and> found_root (defaults cfg) m' ops r s'"
proof -
  have d: "cf_root_hash (defaults cfg) = cf_root_hash cfg" "cf_unlocked (defaults cfg) = cf_unlocked cfg"
    by (simp_all add: defaults_def)
  with assms show ?thesis
    by (auto simp: SelectRoot_def Let_def intro: select_attempts_found split: if_splits)
qed

text \<open>A locked device only ever gets a verified root: when the search returns a root, it is the
  mapping \<open>vroot\<close>, opened with the signed hash and read through successfully as the last thing
  done; its image and hash tree have the same origin, and on an installed system both are root
  slots of the data partition.\<close>

theorem SelectRoot_verified:
  assumes "run_state (SelectRoot cfg m ops) s = ((Inr r, m'), s')" "\<not> cf_unlocked cfg"
  shows "ValidRootHash (cf_root_hash cfg) \<and> rt_mapper r = ''vroot'' \<and>
    opened ops ''vroot'' (rt_data r) (rt_hash r) (cf_root_hash cfg) (rt_source r) s' \<and>
    paired m' ops (rt_data r) (rt_hash r) \<and>
    (\<not> cf_live cfg \<and> \<not> cf_portable cfg \<longrightarrow> rt_data r \<in> set (md_slot_datas m') \<and> rt_hash r \<in> set (md_slot_hashes m'))"
proof -
  have "cf_root_hash (defaults cfg) = cf_root_hash cfg" "cf_live (defaults cfg) = (cf_live cfg \<or> cf_portable cfg)"
    by (simp_all add: defaults_def)
  with SelectRoot_found [OF assms] show ?thesis
    by (auto simp: found_root_def RootMapper_def paired_def)
qed

subsection \<open>A fake machine\<close>

text \<open>The operations of a machine with two root slots, of which only slot \<open>b\<close> carries the signed
  hash. Its state counts the mappings that were opened.\<close>

definition slot_b :: "string \<Rightarrow> bool" where
  "slot_b f \<longleftrightarrow> has_suffix ''b.erofs'' f \<or> has_suffix ''b.hash'' f"

definition fake_root :: "string \<Rightarrow> string" where
  "fake_root h = (if slot_b h then sample_hash else replicate 64 (CHR ''0''))"

definition fake_ops :: "nat ops" where
  "fake_ops = \<lparr>op_Partitions = pure [\<lparr>pt_dev = ''/dev/sr0'', pt_disk = ''sr0'', pt_part_name = [], pt_label = []\<rparr>,
       \<lparr>pt_dev = ''/dev/sda1'', pt_disk = ''sda'', pt_part_name = [], pt_label = []\<rparr>],
     op_MountData = (\<lambda>dev dir. pure (dev = ''/dev/sda1'')), op_Unmount = (\<lambda>d. pure (Inr ())),
     op_Glob = (\<lambda>p. pure (if has_suffix ''.erofs'' p then [''a.erofs'', ''b.erofs''] else [''a.hash'', ''b.hash''])),
     op_Exists = (\<lambda>p. pure True), op_AttachLoop = (\<lambda>f. pure (Inr (''loop-'' @ f))), op_DetachLoop = (\<lambda>d. pure (Inr ())),
     op_OpenVerity = (\<lambda>name d h rh. State (\<lambda>n. (if slot_b d \<and> slot_b h then Inr ''/dev/mapper/vroot'' else Inl (Sys EIO), n + 1))),
     op_CloseVerity = (\<lambda>name. pure (Inr ())), op_HasEROFS = (\<lambda>d. pure True), op_IsVerityHash = (\<lambda>d. pure False),
     op_HashRoot = Some (\<lambda>h. pure (fake_root h, 0)), op_DevBytes = None,
     op_MountISO = (\<lambda>dev dir. pure False), op_DiskOf = (\<lambda>d. pure ''sda''), op_Sleep = (\<lambda>d. pure ())\<rparr>"

definition fake_config :: config where
  "fake_config = \<lparr>cf_root_hash = sample_hash, cf_live = False, cf_portable = False, cf_portable_root = [],
     cf_portable_hash = [], cf_unlocked = False, cf_data_mount = [], cf_iso_mount = [], cf_attempts = 1, cf_interval = 0\<rparr>"

lemma fake_answers: "hash_answers fake_ops fake_root"
  by (simp add: hash_answers_def fake_ops_def)

theorem rankPairs_permutes_by_rank_witness:
  "\<exists>ps. mset ps = mset (concat (map (\<lambda>h. map (\<lambda>d. (d, h)) [''a.erofs'', ''b.erofs'']) [''a.hash'', ''b.hash''])) \<and>
    sorted_wrt (\<lambda>p q. hash_rank fake_config (fake_root (snd q)) \<le> hash_rank fake_config (fake_root (snd p))) ps"
proof -
  obtain ps s' where "run_state (rankPairs fake_config fake_ops [''a.erofs'', ''b.erofs''] [''a.hash'', ''b.hash'']) 0 = (ps, s')"
    by (cases "run_state (rankPairs fake_config fake_ops [''a.erofs'', ''b.erofs''] [''a.hash'', ''b.hash'']) 0")
  from rankPairs_permutes_by_rank [OF fake_answers this] show ?thesis by blast
qed

definition fake_media :: media where
  "fake_media = zero_media\<lparr>md_data_dev := ''/dev/sda1'', md_slot_datas := [''loop-a.erofs'', ''loop-b.erofs''],
     md_slot_hashes := [''loop-a.hash'', ''loop-b.hash'']\<rparr>"

lemma fake_names:
  "base_name ''/dev/sda1'' = ''sda1''" "base_name ''/dev/sr0'' = ''sr0''"
  "has_prefix ''sr'' ''sda1'' = False" "has_prefix ''sr'' ''sr0'' = True"
  "slot_b ''loop-a.erofs'' = False" "slot_b ''loop-b.erofs'' = True" "slot_b ''loop-a.hash'' = False" "slot_b ''loop-b.hash'' = True"
  "has_suffix ''.erofs'' ''a.erofs'' = True" "has_suffix ''.erofs'' ''b.erofs'' = True"
  "has_suffix ''.erofs'' ''a.hash'' = False" "has_suffix ''.erofs'' ''b.hash'' = False"
  "has_suffix ''.erofs'' (''/sysdata/boot/rootfs/rootfs-*.erofs'') = True"
  "has_suffix ''.erofs'' (''/sysdata/boot/rootfs/rootfs-*.hash'') = False"
  by code_simp+

lemma fake_finds:
  "run_state (FindData (defaults fake_config) fake_ops zero_media) n = (fake_media, n)"
  "run_state (FindISO (defaults fake_config) fake_ops fake_media) n = (fake_media, n)"
  by (simp_all add: FindData_def FindISO_def fake_ops_def fake_config_def defaults_def or_default_def zero_media_def
      fake_media_def fake_names)

lemma fake_values [simp]:
  "cf_attempts (defaults fake_config) = 1" "\<not> cf_unlocked (defaults fake_config)" "\<not> cf_live (defaults fake_config)"
  "cf_root_hash (defaults fake_config) = sample_hash" "md_iso_data fake_media = []" "md_iso_hash fake_media = []"
  "md_slot_datas fake_media = [''loop-a.erofs'', ''loop-b.erofs'']" "md_slot_hashes fake_media = [''loop-a.hash'', ''loop-b.hash'']"
  by (simp_all add: fake_config_def defaults_def or_default_def fake_media_def zero_media_def)

lemma fake_calls [simp]:
  "op_CloseVerity fake_ops name = pure (Inr ())" "op_HasEROFS fake_ops d = pure True"
  "run_state (op_OpenVerity fake_ops name d h rh) n = (if slot_b d \<and> slot_b h then Inr ''/dev/mapper/vroot'' else Inl (Sys EIO), n + 1)"
  by (simp_all add: fake_ops_def)

lemma fake_ranks:
  "run_state (rankPairs (defaults fake_config) fake_ops (md_slot_datas fake_media) (md_slot_hashes fake_media)) n =
     ([(''loop-a.erofs'', ''loop-b.hash''), (''loop-b.erofs'', ''loop-b.hash''),
       (''loop-a.erofs'', ''loop-a.hash''), (''loop-b.erofs'', ''loop-a.hash'')], n)"
proof -
  have "fake_root ''loop-a.hash'' = replicate 64 (CHR ''0'')" "fake_root ''loop-b.hash'' = sample_hash"
    by (simp_all add: fake_root_def fake_names)
  moreover have lower: "to_lower (CHR ''0'') \<noteq> to_lower (CHR ''A'')"
    by code_simp
  moreover have "base_score (defaults fake_config) (replicate 64 (CHR ''0'')) = 0" "base_score (defaults fake_config) sample_hash = 3"
    by (simp_all add: base_score_def sample_hash_def equal_fold_def lower)
  ultimately show ?thesis
    by (simp add: rankPairs_def pair_score_def sort_key_def fake_ops_def)
qed

lemma fake_verified:
  "run_state (selectVerified (defaults fake_config) fake_media fake_ops) n =
     (Some (verified_root ''/dev/mapper/vroot'' ''loop-b.erofs'' ''loop-b.hash''), n + 2)"
  using fake_ranks [of n] by (simp add: selectVerified_def root_devices_def samePairOrigin_def fake_names)

lemma fake_selects:
  "run_state (SelectRoot fake_config zero_media fake_ops) 0 =
     ((Inr \<lparr>rt_source = ''/dev/mapper/vroot'', rt_data = ''loop-b.erofs'', rt_hash = ''loop-b.hash'', rt_mapper = ''vroot'',
            rt_optical = False, rt_from_slot = True\<rparr>, fake_media), 2)"
  by (simp add: SelectRoot_def Let_def fake_finds fake_verified) (simp add: RootMapper_def verified_root_def)

theorem SelectRoot_verified_witness:
  "ValidRootHash sample_hash \<and> opened fake_ops ''vroot'' ''loop-b.erofs'' ''loop-b.hash'' sample_hash ''/dev/mapper/vroot'' 2"
  using SelectRoot_verified [OF fake_selects] by (simp add: fake_config_def)

end
