(* ===== verification/Layout.thy ===== *)
theory Layout
  imports Root
begin

section \<open>Mounting the root and leaving the initramfs\<close>

text \<open>
  boot/layout.go and boot/rescue.go: the root with its writable parts, the EFI partition, the
  search for an init, the rescue prompt, and the switch to the new root. \<open>SaveDiagnostics\<close> is left
  out. A program that has powered off or has become the new init does nothing more.
\<close>

definition NewRoot :: string where
  "NewRoot = ''/sysroot''"

definition new_root :: "string \<Rightarrow> string" where
  "new_root p = NewRoot @ p"

subsection \<open>The root\<close>

primrec mkdirs :: "string list \<Rightarrow> unit boot" where
  "mkdirs [] = pure ()"
| "mkdirs (d # ds) = do { sys_mkdir_all d; mkdirs ds }"

definition mount_installed :: "kernel \<Rightarrow> config \<Rightarrow> root \<Rightarrow> (bool \<times> error option) boot" where
  "mount_installed K cfg root = do {
     r \<leftarrow> Mount K (rt_source root) NewRoot ''erofs'' MS_RDONLY [];
     case r of
       Inl e \<Rightarrow> pure (True, Some e)
     | Inr _ \<Rightarrow> do {
         mv \<leftarrow> Move K (cf_data_mount cfg) (new_root ''/var'');
         case mv of
           Inl e \<Rightarrow> pure (True, Some (Errorf ''cannot carry the data partition to /var''))
         | Inr _ \<Rightarrow> do {
             rw \<leftarrow> sys_mount K [] (new_root ''/var'') [] MS_REMOUNT [];
             case rw of
               Inl e \<Rightarrow> pure (True, Some (Errorf ''cannot make /var writable''))
             | Inr _ \<Rightarrow> do {
                 _ \<leftarrow> MountedFS K (new_root ''/var'');
                 mkdirs (map (\<lambda>d. new_root (''/var/'' @ d)) [''etc-upper'', ''etc-work'', ''home'', ''boot'']);
                 _ \<leftarrow> Bind K (new_root ''/var/boot'') (new_root ''/boot'');
                 _ \<leftarrow> sys_mount K ''overlay'' (new_root ''/etc'') ''overlay'' 0
                   (''lowerdir='' @ new_root ''/etc'' @ '',upperdir='' @ new_root ''/var/etc-upper'' @ '',workdir='' @ new_root ''/var/etc-work'');
                 _ \<leftarrow> sys_mount K ''tmpfs'' (new_root ''/tmp'') ''tmpfs'' 0 ''mode=1777'';
                 _ \<leftarrow> Bind K (new_root ''/var/home'') (new_root ''/home'');
                 pure (True, None)
               }
           }
       }
   }"

definition carry_data :: "kernel \<Rightarrow> config \<Rightarrow> bool \<Rightarrow> unit boot" where
  "carry_data K cfg held =
    (if \<not> held then pure ()
     else do {
       mv \<leftarrow> Move K (cf_data_mount cfg) (new_root ''/var/.data'');
       if isl mv then pure ()
       else do { _ \<leftarrow> Bind K (new_root ''/var/.data/boot'') (new_root ''/boot''); pure () }
     })"

definition carry_iso :: "kernel \<Rightarrow> config \<Rightarrow> root \<Rightarrow> (bool \<times> error option) boot" where
  "carry_iso K cfg root =
    (if \<not> rt_optical root then pure (False, None)
     else do {
       mv \<leftarrow> Move K (cf_iso_mount cfg) (new_root ''/var/.iso'');
       pure (False, if isl mv then Some (Errorf ''cannot carry the optical boot media'') else None)
     })"

definition mount_live :: "kernel \<Rightarrow> config \<Rightarrow> root \<Rightarrow> bool \<Rightarrow> (bool \<times> error option) boot" where
  "mount_live K cfg root held = do {
     r \<leftarrow> Mount K (rt_source root) ''/lower'' ''erofs'' MS_RDONLY [];
     case r of
       Inl e \<Rightarrow> pure (False, Some e)
     | Inr _ \<Rightarrow> do {
         o1 \<leftarrow> Mount K ''tmpfs'' ''/over'' ''tmpfs'' 0 ''mode=0755'';
         case o1 of
           Inl e \<Rightarrow> pure (False, Some e)
         | Inr _ \<Rightarrow> do {
             mkdirs [''/over/upper'', ''/over/work''];
             o2 \<leftarrow> Mount K ''overlay'' NewRoot ''overlay'' 0 ''lowerdir=/lower,upperdir=/over/upper,workdir=/over/work'';
             case o2 of
               Inl e \<Rightarrow> pure (False, Some e)
             | Inr _ \<Rightarrow> do { carry_data K cfg held; carry_iso K cfg root }
           }
       }
   }"

text \<open>Whether the system is installed, and the error.\<close>

definition MountRoot :: "kernel \<Rightarrow> config \<Rightarrow> root \<Rightarrow> bool \<Rightarrow> (bool \<times> error option) boot" where
  "MountRoot K cfg0 root held =
    (let cfg = defaults cfg0 in do {
       installed \<leftarrow> (if held then file_exists K (cf_data_mount cfg @ ''/.atom-var'') else pure False);
       if installed then mount_installed K cfg root else mount_live K cfg root held
     })"

subsection \<open>The EFI partition and the init\<close>

definition efi_dir :: string where
  "efi_dir = new_root ''/boot/efi''"

primrec try_esps :: "kernel \<Rightarrow> string \<Rightarrow> partition list \<Rightarrow> unit boot" where
  "try_esps K disk [] = pure ()"
| "try_esps K disk (p # ps) =
    (if pt_disk p \<noteq> disk then try_esps K disk ps
     else do {
       r \<leftarrow> Mount K (pt_dev p) efi_dir ''vfat'' 0 [];
       if isl r then try_esps K disk ps
       else do {
         atom \<leftarrow> file_exists K (efi_dir @ ''/EFI/atom'');
         if atom then pure () else do { Unmount K efi_dir; try_esps K disk ps }
       }
     })"

definition optical_esp :: "kernel \<Rightarrow> unit boot" where
  "optical_esp K =
    (let img = new_root ''/var/.iso/EFI/efiboot.img'' in do {
       atom \<leftarrow> file_exists K (efi_dir @ ''/EFI/atom'');
       there \<leftarrow> (if atom then pure False else file_exists K img);
       if atom \<or> \<not> there then pure ()
       else do {
         l \<leftarrow> AttachLoop K img;
         case l of Inl e \<Rightarrow> pure () | Inr lp \<Rightarrow> do { _ \<leftarrow> Mount K lp efi_dir ''vfat'' MS_RDONLY []; pure () }
       }
     })"

definition MountESP :: "kernel \<Rightarrow> media \<Rightarrow> root \<Rightarrow> unit boot" where
  "MountESP K m root =
    (if \<not> rt_optical root then do {
       d0 \<leftarrow> DiskOf K (rt_data root);
       disk \<leftarrow> (if has_prefix ''loop'' (base_name (rt_data root)) then DiskOf K (md_data_dev m) else pure d0);
       parts \<leftarrow> Partitions K;
       try_esps K disk parts
     } else optical_esp K)"

primrec first_init :: "kernel \<Rightarrow> string list \<Rightarrow> string boot" where
  "first_init K [] = pure []"
| "first_init K (c # cs) = do { ex \<leftarrow> Executable K (new_root c); if ex then pure c else first_init K cs }"

definition FindInit :: "kernel \<Rightarrow> string \<Rightarrow> string list \<Rightarrow> string boot" where
  "FindInit K cmdInit candidates = do {
     ex \<leftarrow> (if cmdInit \<noteq> [] then Executable K (new_root cmdInit) else pure False);
     if ex then pure cmdInit else first_init K candidates
   }"

subsection \<open>Unlocked devices and the rescue prompt\<close>

fun str_contains :: "string \<Rightarrow> string \<Rightarrow> bool" where
  "str_contains pat [] = (pat = [])"
| "str_contains pat (c # s) = (has_prefix pat (c # s) \<or> str_contains pat s)"

definition UnlockGrantsNoVerity :: "error + string \<Rightarrow> error + string \<Rightarrow> bool" where
  "UnlockGrantsNoVerity lock ver =
    (case (lock, ver) of
       (Inr lockOut, Inr verOut) \<Rightarrow> str_contains ''locked=false'' lockOut \<and> str_contains ''verity=off'' verOut
     | _ \<Rightarrow> False)"

definition run_command :: "kernel \<Rightarrow> string \<Rightarrow> string list \<Rightarrow> (error + string) boot" where
  "run_command K cmd args = kcall (\<lambda>t. k_exec K t cmd args) (\<lambda>_. Exec_call cmd args)"

definition DeviceUnlocked :: "kernel \<Rightarrow> string \<Rightarrow> bool boot" where
  "DeviceUnlocked K sintykey = do {
     lock \<leftarrow> run_command K sintykey [''lock-state''];
     ver \<leftarrow> run_command K sintykey [''verity-state''];
     pure (UnlockGrantsNoVerity lock ver)
   }"

definition trim_eol :: "string \<Rightarrow> string" where
  "trim_eol s = rev (dropWhile (\<lambda>c. c = CHR 0x0D \<or> c = newline) (rev s))"

definition DebugShellConfirmed :: "string \<Rightarrow> bool" where
  "DebugShellConfirmed line \<longleftrightarrow> trim_eol line = ''OPEN DEBUG SHELL''"

definition Halt :: "unit boot" where
  "Halt = note_call Halt_call"

definition Rescue :: "kernel \<Rightarrow> bool \<Rightarrow> string \<Rightarrow> unit boot" where
  "Rescue K unlocked sh =
    (if \<not> unlocked then Halt
     else do {
       line \<leftarrow> State (\<lambda>t. (k_stdin K t, Read_call ''/dev/stdin'' # t));
       if \<not> DebugShellConfirmed line then Halt
       else do { _ \<leftarrow> run_command K sh []; Halt }
     })"

definition Ext4Label :: "kernel \<Rightarrow> string \<Rightarrow> string boot" where
  "Ext4Label K dev = do {
     r \<leftarrow> sys_read_at K dev 1024 1024;
     pure (case r of
         Inl e \<Rightarrow> []
       | Inr sb \<Rightarrow> if le_at sb 0x38 2 \<noteq> 0xEF53 then [] else trim_nuls (take 16 (drop 0x78 sb)))
   }"

subsection \<open>Switching to the root\<close>

definition ramfsMagic :: nat where "ramfsMagic = 0x858458f6"
definition tmpfsMagic :: nat where "tmpfsMagic = 0x01021994"

text \<open>
  \<open>removeContents\<close> empties the initramfs, staying on its device. Its recursion follows the
  directory tree; the fuel is its depth, and no path is longer than 4096 bytes.
\<close>

primrec remove_entries :: "kernel \<Rightarrow> (string \<Rightarrow> unit boot) \<Rightarrow> string \<Rightarrow> nat \<Rightarrow> (string \<times> bool) list \<Rightarrow> unit boot" where
  "remove_entries K descend dir dev [] = pure ()"
| "remove_entries K descend dir dev (e # es) =
    (let path = (if has_suffix [slash] dir then butlast dir else dir) @ [slash] @ fst e in do {
       r \<leftarrow> sys_lstat K path;
       (case r of
          Inl _ \<Rightarrow> pure ()
        | Inr st \<Rightarrow>
            if fs_dev st \<noteq> dev then pure ()
            else if fs_is_dir st then do { descend path; sys_rmdir path }
            else sys_unlink path);
       remove_entries K descend dir dev es
     })"

primrec removeContents :: "kernel \<Rightarrow> nat \<Rightarrow> nat \<Rightarrow> string \<Rightarrow> unit boot" where
  "removeContents K dev 0 dir = pure ()"
| "removeContents K dev (Suc n) dir = do {
     r \<leftarrow> sys_readdir K dir;
     case r of Inl e \<Rightarrow> pure () | Inr entries \<Rightarrow> remove_entries K (removeContents K dev n) dir dev entries
   }"

primrec carry_mounts :: "kernel \<Rightarrow> string list \<Rightarrow> unit boot" where
  "carry_mounts K [] = pure ()"
| "carry_mounts K (m # ms) = do {
     fs \<leftarrow> MountedFS K m;
     (if fs = [] then pure ()
      else do { r \<leftarrow> Move K m (new_root m); if isl r then Unmount K m else pure () });
     carry_mounts K ms
   }"

definition sys_chdir :: "kernel \<Rightarrow> string \<Rightarrow> (error + unit) boot" where
  "sys_chdir K p = kcall (\<lambda>t. k_chdir K t p) (\<lambda>_. Chdir_call p)"

definition sys_chroot :: "kernel \<Rightarrow> string \<Rightarrow> (error + unit) boot" where
  "sys_chroot K p = kcall (\<lambda>t. k_chroot K t p) (Chroot_call p)"

text \<open>\<open>None\<close>: the process has become the new init; otherwise the error.\<close>

definition enter_root :: "kernel \<Rightarrow> nat \<Rightarrow> string \<Rightarrow> string list \<Rightarrow> error option boot" where
  "enter_root K dev init args = do {
     cd \<leftarrow> sys_chdir K NewRoot;
     case cd of
       Inl e \<Rightarrow> pure (Some e)
     | Inr _ \<Rightarrow> do {
         removeContents K dev 4096 ''/'';
         mv \<leftarrow> sys_mount K ''.'' ''/'' [] MS_MOVE [];
         case mv of
           Inl e \<Rightarrow> pure (Some e)
         | Inr _ \<Rightarrow> do {
             cr \<leftarrow> sys_chroot K ''.'';
             case cr of
               Inl e \<Rightarrow> pure (Some e)
             | Inr _ \<Rightarrow> do {
                 cd2 \<leftarrow> sys_chdir K ''/'';
                 case cd2 of
                   Inl e \<Rightarrow> pure (Some e)
                 | Inr _ \<Rightarrow> do {
                     ex \<leftarrow> kcall (\<lambda>t. k_execve K t init (init # args)) (\<lambda>ok. if ok then Switch_call init else Read_call init);
                     case ex of Inl e \<Rightarrow> pure (Some e) | Inr _ \<Rightarrow> pure None
                   }
               }
           }
       }
   }"

definition SwitchRoot :: "kernel \<Rightarrow> string \<Rightarrow> string list \<Rightarrow> error option boot" where
  "SwitchRoot K init args = do {
     r1 \<leftarrow> sys_stat K ''/'';
     case r1 of
       Inl e \<Rightarrow> pure (Some e)
     | Inr rootSt \<Rightarrow> do {
         r2 \<leftarrow> sys_stat K NewRoot;
         case r2 of
           Inl e \<Rightarrow> pure (Some e)
         | Inr newSt \<Rightarrow>
             if fs_dev rootSt = fs_dev newSt then pure (Some (Errorf (NewRoot @ '' is not a separate mount'')))
             else do {
               f \<leftarrow> kcall (\<lambda>t. k_statfs K t ''/'') (\<lambda>_. Read_call ''/'');
               case f of
                 Inl e \<Rightarrow> pure (Some e)
               | Inr ty \<Rightarrow>
                   if ty \<noteq> ramfsMagic \<and> ty \<noteq> tmpfsMagic then pure (Some (Errorf ''the current root is not an initramfs''))
                   else do {
                     carry_mounts K [''/dev'', ''/proc'', ''/sys'', ''/run''];
                     enter_root K (fs_dev rootSt) init args
                   }
             }
       }
   }"

end
