(* ===== verification/Fwmount.thy ===== *)
theory Fwmount
  imports Layout Fwanchor
begin

section \<open>Firmware bundles at boot\<close>

text \<open>
  boot/firmware.go: the verified bundles under \<open>/boot/firmware\<close> are mounted through dm-verity and
  joined over the base firmware, mounted over a directory of \<open>/usr\<close>, or left for the system to
  activate. A bundle that fails anywhere is skipped. The signature chain of a bundle is checked by
  \<open>VerifiedFirmwareBundle\<close> on the mounted files, which \<open>be_files\<close> gives for a trace; \<open>be_now\<close>
  is the clock, and \<open>be_order\<close> the order in which Go walks the map of overlays.
\<close>

record mounted_bundle =
  mb_name :: string
  mb_mapper :: string
  mb_loops :: "string list"
  mb_mnt :: string
  mb_target :: string
  mb_version :: nat

record boot_env =
  be_crypto :: crypto
  be_kernel :: kernel
  be_files :: "trace \<Rightarrow> world"
  be_now :: "trace \<Rightarrow> int"
  be_order :: "mounted_bundle list \<Rightarrow> mounted_bundle list"

definition file_path :: "string \<Rightarrow> path" where
  "file_path p = filter (\<lambda>c. c \<noteq> []) (split_on slash p)"

definition verify_bundle :: "boot_env \<Rightarrow> string \<Rightarrow> string \<Rightarrow> string \<Rightarrow> (error + bundle_spec) boot" where
  "verify_bundle be dir rootPub name = kcall (\<lambda>t.
     fst (VerifiedFirmwareBundle (be_crypto be) (file_path dir) ''active'' rootPub (be_now be t) name (be_files be t)))
     (\<lambda>_. Read_call dir)"

subsection \<open>Reading what a bundle says about itself\<close>

text \<open>One line of \<open>.overlay\<close>; \<open>None\<close> once a version is no number.\<close>

definition overlay_line :: "(string \<times> nat) option \<Rightarrow> string \<Rightarrow> (string \<times> nat) option" where
  "overlay_line acc line =
    (case acc of
       None \<Rightarrow> None
     | Some (target, version) \<Rightarrow>
         (case str_cut (CHR ''='') (trim_space line) of
            None \<Rightarrow> Some (target, version)
          | Some (key, v) \<Rightarrow>
              if key = ''target'' then Some (v, version)
              else if key = ''version''
              then (case parse_uint64 v of None \<Rightarrow> None | Some n \<Rightarrow> Some (target, n))
              else Some (target, version)))"

definition parseOverlay :: "string \<Rightarrow> (string \<times> nat) option" where
  "parseOverlay dat =
    (case foldl overlay_line (Some ([], 0)) (split_on newline dat) of
       None \<Rightarrow> None
     | Some (target, version) \<Rightarrow>
         if version = 0 \<or> target \<noteq> path_clean target \<or> \<not> has_prefix ''/usr/'' target \<or> target = ''/usr/lib/firmware''
         then None else Some (target, version))"

definition overlayWanted :: "kernel \<Rightarrow> string \<Rightarrow> string \<Rightarrow> nat \<Rightarrow> bool boot" where
  "overlayWanted K root target version = do {
     r \<leftarrow> sys_lstat K (root @ target);
     case r of
       Inl e \<Rightarrow> pure False
     | Inr fi \<Rightarrow>
         if \<not> fs_is_dir fi then pure False
         else do {
           q \<leftarrow> sys_read_file K (root @ target @ ''/.overlay-version'');
           pure (case q of
               Inl e \<Rightarrow> True
             | Inr dat \<Rightarrow> (case parse_uint64 (trim_space dat) of None \<Rightarrow> False | Some base \<Rightarrow> base < version))
         }
   }"

definition abi_text :: "string \<Rightarrow> string" where
  "abi_text dat = filter (\<lambda>c. c \<noteq> CHR 0x0D \<and> c \<noteq> newline \<and> c \<noteq> CHR '' '') dat"

definition readABI :: "kernel \<Rightarrow> string \<Rightarrow> (string \<times> bool) boot" where
  "readABI K path = do {
     r \<leftarrow> sys_read_file K path;
     pure (case r of Inl e \<Rightarrow> ([], False) | Inr dat \<Rightarrow> (abi_text dat, True))
   }"

definition kernelRelease :: "kernel \<Rightarrow> string boot" where
  "kernelRelease K = do {
     r \<leftarrow> kcall (k_uname K) (\<lambda>_. Read_call ''uname'');
     pure (case r of Inl e \<Rightarrow> [] | Inr s \<Rightarrow> takeWhile (\<lambda>c. c \<noteq> CHR 0x00) s)
   }"

definition bundleDirs :: "kernel \<Rightarrow> string \<Rightarrow> string list boot" where
  "bundleDirs K root = do {
     r \<leftarrow> sys_readdir K root;
     pure (case r of
         Inl e \<Rightarrow> []
       | Inr entries \<Rightarrow> map (\<lambda>e. path_clean (root @ [slash] @ fst e)) (filter snd entries))
   }"

subsection \<open>Mounting one bundle\<close>

primrec detach_loops :: "kernel \<Rightarrow> string list \<Rightarrow> unit boot" where
  "detach_loops K [] = pure ()"
| "detach_loops K (l # ls) = do { _ \<leftarrow> DetachLoop K l; detach_loops K ls }"

definition release_bundle :: "kernel \<Rightarrow> mounted_bundle \<Rightarrow> unit boot" where
  "release_bundle K b = do {
     (if mb_mnt b \<noteq> [] then Unmount K (mb_mnt b) else pure ());
     _ \<leftarrow> CloseVerity K (mb_mapper b);
     detach_loops K (mb_loops b)
   }"

definition release_fail :: "kernel \<Rightarrow> mounted_bundle \<Rightarrow> string \<Rightarrow> (error + mounted_bundle) boot" where
  "release_fail K b msg = do { release_bundle K b; pure (Inl (Errorf msg)) }"

definition new_mounted :: "string \<Rightarrow> mounted_bundle" where
  "new_mounted name = \<lparr>mb_name = name, mb_mapper = name @ ''-fwverity'', mb_loops = [], mb_mnt = [], mb_target = [], mb_version = 0\<rparr>"

definition mount_node :: "kernel \<Rightarrow> mounted_bundle \<Rightarrow> string \<Rightarrow> string \<Rightarrow> (error + mounted_bundle) boot" where
  "mount_node K b name node = (let mnt = new_root (''/var/.fw-'' @ name) in do {
     r \<leftarrow> Mount K node mnt ''erofs'' MS_RDONLY [];
     if isl r then release_fail K b ''mount failed'' else pure (Inr (b\<lparr>mb_mnt := mnt\<rparr>))
   })"

definition mountBundle :: "kernel \<Rightarrow> string \<Rightarrow> string \<Rightarrow> string \<Rightarrow> string \<Rightarrow> (error + mounted_bundle) boot" where
  "mountBundle K name img hash rootHash = (let b0 = new_mounted name in do {
     dl \<leftarrow> AttachLoop K img;
     case dl of
       Inl e \<Rightarrow> pure (Inl (Errorf ''attach failed''))
     | Inr d \<Rightarrow> (let b1 = b0\<lparr>mb_loops := [d]\<rparr> in do {
         hl \<leftarrow> AttachLoop K hash;
         case hl of
           Inl e \<Rightarrow> release_fail K b1 ''hash attach failed''
         | Inr h \<Rightarrow> (let b2 = b1\<lparr>mb_loops := [d, h]\<rparr> in do {
             v \<leftarrow> OpenVerity K (mb_mapper b2) d h rootHash;
             case v of
               Inl e \<Rightarrow> release_fail K b2 ''verity failed''
             | Inr node \<Rightarrow> do {
                 ok \<leftarrow> HasEROFS K node;
                 if \<not> ok then release_fail K b2 ''verity failed'' else mount_node K b2 name node
               }
           })
       })
   })"

subsection \<open>All bundles\<close>

text \<open>The firmware to join, newest first, and the overlays by target.\<close>

type_synonym bundle_state = "mounted_bundle list \<times> (string \<times> mounted_bundle) list"

definition keep_overlay :: "kernel \<Rightarrow> bundle_state \<Rightarrow> mounted_bundle \<Rightarrow> bundle_state boot" where
  "keep_overlay K st b =
    (case map_of (snd st) (mb_target b) of
       None \<Rightarrow> pure (fst st, AList.update (mb_target b) b (snd st))
     | Some old \<Rightarrow>
         if mb_version b \<le> mb_version old then do { release_bundle K b; pure st }
         else do { release_bundle K old; pure (fst st, AList.update (mb_target b) b (snd st)) })"

definition sort_overlay :: "kernel \<Rightarrow> bundle_state \<Rightarrow> mounted_bundle \<Rightarrow> string \<Rightarrow> bundle_state boot" where
  "sort_overlay K st b dat =
    (case parseOverlay dat of
       None \<Rightarrow> do { release_bundle K b; pure st }
     | Some (target, version) \<Rightarrow> do {
         wanted \<leftarrow> overlayWanted K NewRoot target version;
         if \<not> wanted then do { release_bundle K b; pure st }
         else keep_overlay K st (b\<lparr>mb_target := target, mb_version := version\<rparr>)
       })"

definition sort_bundle :: "kernel \<Rightarrow> string \<Rightarrow> bundle_state \<Rightarrow> mounted_bundle \<Rightarrow> bundle_state boot" where
  "sort_bundle K release st b = do {
     r \<leftarrow> sys_read_file K (mb_mnt b @ ''/.overlay'');
     case r of
       Inr dat \<Rightarrow> sort_overlay K st b dat
     | Inl e \<Rightarrow> do {
         ad \<leftarrow> readABI K (mb_mnt b @ ''/.kernel-abi'');
         if snd ad \<and> fst ad \<noteq> release then do { release_bundle K b; pure st }
         else if snd ad then pure st
         else pure (b # fst st, snd st)
       }
   }"

definition handle_bundle :: "boot_env \<Rightarrow> string \<Rightarrow> string \<Rightarrow> bundle_state \<Rightarrow> string \<Rightarrow> bundle_state boot" where
  "handle_bundle be rootPub release st dir =
    (let K = be_kernel be; name = base_name dir; img = dir @ ''/firmware-active.img''; hash = dir @ ''/firmware-active.hash'' in do {
       there \<leftarrow> file_exists K img;
       if \<not> there then pure st
       else do {
         v \<leftarrow> verify_bundle be dir rootPub name;
         case v of
           Inl e \<Rightarrow> pure st
         | Inr fw \<Rightarrow>
             if \<not> ValidRootHash (bd_verity_hash fw) then pure st
             else do {
               r \<leftarrow> mountBundle K name img hash (bd_verity_hash fw);
               case r of Inl e \<Rightarrow> pure st | Inr b \<Rightarrow> sort_bundle K release st b
             }
       }
     })"

primrec handle_bundles :: "boot_env \<Rightarrow> string \<Rightarrow> string \<Rightarrow> bundle_state \<Rightarrow> string list \<Rightarrow> bundle_state boot" where
  "handle_bundles be rootPub release st [] = pure st"
| "handle_bundles be rootPub release st (d # ds) = do {
     st' \<leftarrow> handle_bundle be rootPub release st d;
     handle_bundles be rootPub release st' ds
   }"

definition applyOverlay :: "kernel \<Rightarrow> mounted_bundle \<Rightarrow> unit boot" where
  "applyOverlay K b = (let base = new_root (''/var/.base-'' @ mb_name b) in do {
     r \<leftarrow> Bind K (new_root (mb_target b)) base;
     if isl r then release_bundle K b
     else do {
       o1 \<leftarrow> sys_mount K ''overlay'' (new_root (mb_target b)) ''overlay'' MS_RDONLY (''lowerdir='' @ mb_mnt b @ '':'' @ base);
       if isl o1 then do { Unmount K base; release_bundle K b } else pure ()
     }
   })"

primrec apply_overlays :: "kernel \<Rightarrow> mounted_bundle list \<Rightarrow> unit boot" where
  "apply_overlays K [] = pure ()"
| "apply_overlays K (b # bs) = do { applyOverlay K b; apply_overlays K bs }"

primrec release_all :: "kernel \<Rightarrow> mounted_bundle list \<Rightarrow> unit boot" where
  "release_all K [] = pure ()"
| "release_all K (b # bs) = do { release_bundle K b; release_all K bs }"

definition unionFirmware :: "kernel \<Rightarrow> mounted_bundle list \<Rightarrow> unit boot" where
  "unionFirmware K bundles =
    (if length bundles = 0 then pure ()
     else let base = new_root ''/var/.base-firmware'' in do {
       r \<leftarrow> Bind K (new_root ''/usr/lib/firmware'') base;
       if isl r then release_all K bundles
       else do {
         o1 \<leftarrow> sys_mount K ''overlay'' (new_root ''/usr/lib/firmware'') ''overlay'' MS_RDONLY
           (''lowerdir='' @ join_with '':'' (map mb_mnt bundles) @ '':'' @ base);
         if isl o1 then do { Unmount K base; release_all K bundles } else pure ()
       }
     })"

definition MountFirmware :: "boot_env \<Rightarrow> string \<Rightarrow> unit boot" where
  "MountFirmware be rootPubPath =
    (let K = be_kernel be; fwroot = new_root ''/boot/firmware'' in do {
       there \<leftarrow> file_exists K fwroot;
       if \<not> there then pure ()
       else do {
         r \<leftarrow> sys_read_file K rootPubPath;
         case r of
           Inl e \<Rightarrow> pure ()
         | Inr rootPub \<Rightarrow> do {
             release \<leftarrow> kernelRelease K;
             dirs \<leftarrow> bundleDirs K fwroot;
             st \<leftarrow> handle_bundles be rootPub release ([], []) dirs;
             apply_overlays K (be_order be (map snd (snd st)));
             unionFirmware K (fst st)
           }
       }
     })"

end
