(* ===== verification/Early.thy ===== *)
theory Early
  imports Verity
begin

section \<open>Preparing the initramfs\<close>

text \<open>
  The first steps of boot/system.go: the pseudo file systems and device nodes, and the kernel
  modules. No error stops them.
\<close>

subsection \<open>Device nodes\<close>

primrec link_all :: "string \<Rightarrow> (string \<times> string) list \<Rightarrow> unit boot" where
  "link_all dev [] = pure ()"
| "link_all dev (l # ls) = do { note_call (Symlink_call (snd l) (path_clean (dev @ [slash] @ fst l))); link_all dev ls }"

definition LinkStandardDevices :: "string \<Rightarrow> unit boot" where
  "LinkStandardDevices dev = link_all dev
     [(''fd'', ''/proc/self/fd''), (''stdin'', ''/proc/self/fd/0''), (''stdout'', ''/proc/self/fd/1''), (''stderr'', ''/proc/self/fd/2'')]"

text \<open>\<open>%d\<close> of \<open>Sscanf\<close>: blanks that end no line, a sign, the digits of an \<open>int\<close>; and what follows it.\<close>

definition scan_sign :: "string \<Rightarrow> bool \<times> string" where
  "scan_sign s = (case s of c # cs \<Rightarrow> if c = CHR ''-'' then (True, cs) else if c = CHR ''+'' then (False, cs) else (False, s) | [] \<Rightarrow> (False, []))"

definition scan_int :: "string \<Rightarrow> (int \<times> string) option" where
  "scan_int s =
    (let (neg, rest) = scan_sign (dropWhile (\<lambda>c. is_space c \<and> c \<noteq> newline) s);
         ds = takeWhile is_digit rest; v = (if neg then - int (digits_val ds) else int (digits_val ds))
     in if ds = [] \<or> v < - (2 ^ 63) \<or> 2 ^ 63 \<le> v then None else Some (v, drop (length ds) rest))"

definition scan_device :: "string \<Rightarrow> (int \<times> int) option" where
  "scan_device s =
    (case scan_int s of
       Some (major, c # rest) \<Rightarrow>
         if c \<noteq> CHR '':'' then None
         else (case scan_int rest of Some (minor, _) \<Rightarrow> Some (major, minor) | None \<Rightarrow> None)
     | _ \<Rightarrow> None)"

definition control_node :: "kernel \<Rightarrow> unit boot" where
  "control_node K = do {
     there \<leftarrow> sys_stat K ''/dev/mapper/control'';
     if \<not> isl there then pure ()
     else do {
       mm \<leftarrow> sys_read_file K ''/sys/class/misc/device-mapper/dev'';
       case mm of
         Inl e \<Rightarrow> pure ()
       | Inr s \<Rightarrow>
           (case scan_device (trim_space s) of
              None \<Rightarrow> pure ()
            | Some (major, minor) \<Rightarrow> note_call (Mknod_char_call ''/dev/mapper/control'' (mkdev (word_of_int major) (word_of_int minor))))
     }
   }"

definition open_console :: "kernel \<Rightarrow> unit boot" where
  "open_console K = do {
     f \<leftarrow> kcall (\<lambda>t. k_open K t ''/dev/console'') (\<lambda>_. Read_call ''/dev/console'');
     case f of
       Inl e \<Rightarrow> pure ()
     | Inr _ \<Rightarrow> do { note_call (Dup_call 0); note_call (Dup_call 1); note_call (Dup_call 2) }
   }"

definition MountEarly :: "kernel \<Rightarrow> unit boot" where
  "MountEarly K = do {
     sys_mkdir_all ''/proc'';
     sys_mkdir_all ''/sys'';
     sys_mkdir_all ''/dev'';
     _ \<leftarrow> sys_mount K ''proc'' ''/proc'' ''proc'' (MS_NOSUID + MS_NODEV + MS_NOEXEC) [];
     _ \<leftarrow> sys_mount K ''sysfs'' ''/sys'' ''sysfs'' (MS_NOSUID + MS_NODEV + MS_NOEXEC) [];
     _ \<leftarrow> sys_mount K ''devtmpfs'' ''/dev'' ''devtmpfs'' MS_NOSUID ''mode=0755'';
     LinkStandardDevices ''/dev'';
     open_console K;
     sys_mkdir_all ''/dev/mapper'';
     sys_mkdir_all ''/run'';
     control_node K
   }"

subsection \<open>Kernel modules\<close>

text \<open>
  \<open>findModule\<close> walks a directory tree in the order of the names up to the first file that is
  called like the module. The fuel is the depth of the tree, as in \<open>removeContents\<close>.
\<close>

primrec walk_entries :: "(string \<Rightarrow> string boot) \<Rightarrow> string \<Rightarrow> string \<Rightarrow> (string \<times> bool) list \<Rightarrow> string boot" where
  "walk_entries descend dir file [] = pure []"
| "walk_entries descend dir file (e # es) =
    (let path = path_clean (dir @ [slash] @ fst e) in
     if \<not> snd e \<and> fst e = file then pure path
     else do {
       found \<leftarrow> (if snd e then descend path else pure []);
       if found \<noteq> [] then pure found else walk_entries descend dir file es
     })"

primrec walk_dir :: "kernel \<Rightarrow> string \<Rightarrow> nat \<Rightarrow> string \<Rightarrow> string boot" where
  "walk_dir K file 0 dir = pure []"
| "walk_dir K file (Suc n) dir = do {
     r \<leftarrow> sys_readdir K dir;
     case r of Inl e \<Rightarrow> pure [] | Inr entries \<Rightarrow> walk_entries (walk_dir K file n) dir file entries
   }"

definition findModule :: "kernel \<Rightarrow> string \<Rightarrow> string \<Rightarrow> string boot" where
  "findModule K dir name = do {
     r \<leftarrow> sys_lstat K dir;
     case r of
       Inl e \<Rightarrow> pure []
     | Inr fi \<Rightarrow>
         if fs_is_dir fi then walk_dir K (name @ ''.ko'') 4096 dir
         else pure (if base_name dir = name @ ''.ko'' then dir else [])
   }"

definition load_module :: "kernel \<Rightarrow> string \<Rightarrow> string \<Rightarrow> unit boot" where
  "load_module K dir name = do {
     path \<leftarrow> findModule K dir name;
     if path = [] then pure ()
     else do {
       f \<leftarrow> kcall (\<lambda>t. k_open K t path) (\<lambda>_. Read_call path);
       case f of
         Inl e \<Rightarrow> pure ()
       | Inr _ \<Rightarrow> do { _ \<leftarrow> kcall (\<lambda>t. k_finit_module K t path) (\<lambda>_. Module_call path); pure () }
     }
   }"

primrec load_names :: "kernel \<Rightarrow> string \<Rightarrow> string list \<Rightarrow> unit boot" where
  "load_names K dir [] = pure ()"
| "load_names K dir (n # ns) = do { load_module K dir n; load_names K dir ns }"

primrec load_dirs :: "kernel \<Rightarrow> string list \<Rightarrow> string list \<Rightarrow> unit boot" where
  "load_dirs K names [] = pure ()"
| "load_dirs K names (d # ds) = do { load_names K d names; load_dirs K names ds }"

definition LoadModules :: "kernel \<Rightarrow> string list \<Rightarrow> unit boot" where
  "LoadModules K names = do { dirs \<leftarrow> sys_glob K ''/lib/modules/*''; load_dirs K names dirs }"

end
