(* ===== verification/AtomInit.thy ===== *)
theory AtomInit
  imports RootSafe Fwmount Early
begin

section \<open>The reference init\<close>

text \<open>
  cmd/atom-init/main.go: the boot from end to end.
\<close>

primrec first_executable :: "kernel \<Rightarrow> string list \<Rightarrow> string boot" where
  "first_executable K [] = pure ''sintykey''"
| "first_executable K (p # ps) = do { ex \<leftarrow> Executable K p; if ex then pure p else first_executable K ps }"

definition sintykey :: "kernel \<Rightarrow> string boot" where
  "sintykey K = first_executable K [''/usr/bin/sintykey'', ''/sbin/sintykey'', ''/bin/sintykey'']"

definition boot_config :: "cmdline \<Rightarrow> bool \<Rightarrow> config" where
  "boot_config cmd unlocked =
    (let hash = (if Cmdline_Value cmd ''atom.roothash'' = [] then Cmdline_Value cmd ''ATOM_ROOT_HASH''
                 else Cmdline_Value cmd ''atom.roothash'')
     in \<lparr>cf_root_hash = hash, cf_live = Cmdline_Has cmd ''atom.live'', cf_portable = False, cf_portable_root = [],
         cf_portable_hash = [], cf_unlocked = unlocked, cf_data_mount = [], cf_iso_mount = [], cf_attempts = 0, cf_interval = 0\<rparr>)"

text \<open>The rest of the boot once the root is found.\<close>

definition start_init :: "boot_env \<Rightarrow> cmdline \<Rightarrow> bool \<Rightarrow> unit boot" where
  "start_init be cmd unlocked = (let K = be_kernel be in do {
     init \<leftarrow> FindInit K (Cmdline_Value cmd ''init'') [''/sbin/init'', ''/usr/lib/systemd/systemd''];
     if init = [] then Rescue K unlocked ''/bin/sh''
     else do {
       MountFirmware be ''/etc/atom-fw-root.pub'';
       e \<leftarrow> SwitchRoot K init [];
       case e of None \<Rightarrow> pure () | Some err \<Rightarrow> Rescue K unlocked ''/bin/sh''
     }
   })"

definition mount_and_start :: "boot_env \<Rightarrow> cmdline \<Rightarrow> config \<Rightarrow> media \<Rightarrow> root \<Rightarrow> unit boot" where
  "mount_and_start be cmd cfg m root = (let K = be_kernel be; unlocked = cf_unlocked cfg in do {
     hm \<leftarrow> ReleaseUnrelatedData cfg m root (SystemOps (be_crypto be) K);
     case fst hm of
       Inl e \<Rightarrow> Rescue K unlocked ''/bin/sh''
     | Inr held \<Rightarrow> do {
         ie \<leftarrow> MountRoot K cfg root held;
         if snd ie \<noteq> None then Rescue K unlocked ''/bin/sh''
         else do { MountESP K (snd hm) root; start_init be cmd unlocked }
       }
   })"

definition boot_modules :: "string list" where
  "boot_modules = [''virtio'', ''virtio_ring'', ''virtio_mmio'', ''virtio_pci_modern_dev'', ''virtio_pci_legacy_dev'',
     ''virtio_pci'', ''virtio_blk'', ''loop'', ''crc32c_generic'', ''libcrc32c'', ''reed_solomon'', ''dm-mod'', ''dm-bufio'',
     ''xxhash_generic'', ''dm-verity'', ''erofs'', ''overlay'', ''crc16'', ''mbcache'', ''jbd2'', ''ext4'']"

text \<open>The first steps, up to the kernel command line.\<close>

definition boot_cmdline :: "kernel \<Rightarrow> cmdline boot" where
  "boot_cmdline K = do {
     MountEarly K;
     LoadModules K boot_modules;
     ReadCmdline K
   }"

definition atom_init :: "boot_env \<Rightarrow> unit boot" where
  "atom_init be = (let K = be_kernel be in do {
     cmd \<leftarrow> boot_cmdline K;
     key \<leftarrow> sintykey K;
     unlocked \<leftarrow> DeviceUnlocked K key;
     let cfg = boot_config cmd unlocked;
     rm \<leftarrow> SelectRoot cfg zero_media (SystemOps (be_crypto be) K);
     case fst rm of
       Inl e \<Rightarrow> Rescue K unlocked ''/bin/sh''
     | Inr root \<Rightarrow> mount_and_start be cmd cfg (snd rm) root
   })"

end
