(* ===== verification/AtomInitSafe.thy ===== *)
theory AtomInitSafe
  imports AtomInit
begin

section \<open>A locked device stays sealed\<close>

text \<open>
  The boot from end to end, as a property of its trace: on a locked device every mount of the root
  comes from the verity mapping that carries the signed hash, the init is only started from such a
  root, and no shell is started, whatever the kernel answers. The same for the firmware bundles:
  each is mounted through a mapping that carries a hash its signature chain vouches for.
\<close>

subsection \<open>Classes of calls\<close>

definition root_dirs :: "string set" where
  "root_dirs = {NewRoot, ''/lower''}"

definition root_mount :: "event \<Rightarrow> string option" where
  "root_mount e = (case e of Mount_call src dst fstype flags opts b \<Rightarrow>
     if fstype = ''erofs'' \<and> dst \<in> root_dirs then Some src else None | _ \<Rightarrow> None)"

definition starts_shell :: "event \<Rightarrow> bool" where
  "starts_shell e \<longleftrightarrow> (\<exists>args. e = Exec_call ''/bin/sh'' args)"

definition is_switch :: "event \<Rightarrow> bool" where
  "is_switch e \<longleftrightarrow> (\<exists>init. e = Switch_call init)"

definition is_dm :: "event \<Rightarrow> bool" where
  "is_dm e \<longleftrightarrow> (\<exists>r b. e = Dm_call r b)"

definition erofs_mount :: "event \<Rightarrow> bool" where
  "erofs_mount e \<longleftrightarrow> (\<exists>src dst flags opts b. e = Mount_call src dst ''erofs'' flags opts b)"

text \<open>\<open>silent\<close>: no mount of the root, no shell, no switch. \<open>plain\<close>: also no device mapper request and
  no EROFS mount at all.\<close>

definition silent :: "event \<Rightarrow> bool" where
  "silent e \<longleftrightarrow> root_mount e = None \<and> \<not> starts_shell e \<and> \<not> is_switch e"

definition plain :: "event \<Rightarrow> bool" where
  "plain e \<longleftrightarrow> silent e \<and> \<not> is_dm e \<and> \<not> erofs_mount e"

lemmas event_defs = plain_def silent_def root_mount_def starts_shell_def is_switch_def is_dm_def erofs_mount_def

lemma plain_simps [simp]:
  "plain (Read_call p)" "plain (Mkdir_call p)" "plain (Unlink_call p)" "plain (Rmdir_call p)" "plain (Symlink_call p q)"
  "plain (Mknod_call p n)" "plain (Mknod_char_call p n)" "plain (Dup_call fd)" "plain (Module_call p)" "plain (Unmount_call p)"
  "plain Loop_free_call" "plain (Loop_configure_call d f b)" "plain (Loop_clear_call d)" "plain (Sleep_call i)" "plain Halt_call"
  "plain (Chdir_call p)" "plain (Chroot_call p b)"
  "plain (Mount_call src dst fstype flags opts b) \<longleftrightarrow> fstype \<noteq> ''erofs''"
  "plain (Exec_call cmd args) \<longleftrightarrow> cmd \<noteq> ''/bin/sh''"
  by (auto simp: event_defs)

lemma looks_plain: "looks e \<Longrightarrow> plain e"
  by (auto simp: looks_def)

lemma plain_silent: "plain e \<Longrightarrow> silent e"
  by (simp add: plain_def)

lemma maps_only_silent: "maps_only name e \<Longrightarrow> silent e"
  by (auto simp: maps_only_def event_defs split: event.splits)

lemma plain_spares: "plain e \<Longrightarrow> spares name e"
  by (auto simp: plain_def is_dm_def spares_def)

lemma emits_looks_plain: "emits looks m \<Longrightarrow> emits plain m"
  by (erule emits_mono, rule looks_plain)

subsection \<open>Programs without device mapper requests\<close>

named_theorems plain_intros \<open>programs that emit plain calls only\<close>

lemmas emits_plain_looks [plain_intros] =
  emits_looks [THEN emits_looks_plain] emits_system [THEN emits_looks_plain] emits_HasEROFS [THEN emits_looks_plain]

lemma emits_plain_calls [plain_intros]:
  "emits plain (sys_mkdir_all p)" "emits plain (sys_unlink p)" "emits plain (sys_rmdir p)" "emits plain (sys_sleep i)" "emits plain (sys_unmount K p)"
  "emits plain (sys_chdir K p)" "emits plain (sys_chroot K p)" "emits plain (Unmount K p)" "emits plain Halt"
  "fstype \<noteq> ''erofs'' \<Longrightarrow> emits plain (sys_mount K src dst fstype flags opts)"
  unfolding sys_mkdir_all_def sys_unlink_def sys_rmdir_def sys_sleep_def sys_unmount_def sys_chdir_def sys_chroot_def sys_mount_def Unmount_def Halt_def
  by (intro emit_intros emits_kcall emits_note_call; simp)+

lemma emits_plain_kcall: "(\<And>b. plain (ev b)) \<Longrightarrow> emits plain (kcall f ev)"
  by (rule emits_kcall)

lemma emits_plain_Mount [plain_intros]:
  "fstype \<noteq> ''erofs'' \<Longrightarrow> emits plain (Mount K src dst fstype flags opts)"
  "emits plain (Move K src dst)" "emits plain (Bind K src dst)"
  unfolding Move_def Bind_def Mount_def
  by (intro emit_intros plain_intros; simp)+

lemma emits_plain_attach_attempts: "emits plain (attach_attempts K f n)"
  by (induction n) (auto simp: Let_def intro!: emit_intros emits_plain_kcall)

lemma emits_plain_loops [plain_intros]: "emits plain (AttachLoop K f)" "emits plain (DetachLoop K d)"
  unfolding AttachLoop_def DetachLoop_def
  by (intro emit_intros emits_plain_attach_attempts emits_plain_kcall; simp)+

lemma emits_plain_mkdirs [plain_intros]: "emits plain (mkdirs ds)"
  by (induction ds) (auto intro!: emit_intros plain_intros)

lemma emits_plain_mount_any: "\<forall>x \<in> set xs. fst x \<noteq> ''erofs'' \<Longrightarrow> emits plain (mount_any K dev dir xs)"
  by (induction xs) (auto intro!: emit_intros plain_intros)

lemma emits_plain_try_esps [plain_intros]: "emits plain (try_esps K disk ps)"
  by (induction ps) (auto intro!: emit_intros plain_intros)

lemma emits_plain_first_init [plain_intros]: "emits plain (first_init K cs)"
  by (induction cs) (auto intro!: emit_intros plain_intros)

lemma emits_plain_layout [plain_intros]:
  "emits plain (FindInit K c cs)" "emits plain (MountESP K m root)" "emits plain (carry_data K cfg held)" "emits plain (carry_iso K cfg root)"
  unfolding FindInit_def MountESP_def optical_esp_def carry_data_def carry_iso_def Let_def
  by (intro emit_intros plain_intros; simp)+

lemma emits_plain_remove_entries:
  "(\<And>p. emits plain (descend p)) \<Longrightarrow> emits plain (remove_entries K descend dir dev es)"
  by (induction es) (auto simp: Let_def intro!: emit_intros plain_intros)

lemma emits_plain_removeContents [plain_intros]: "emits plain (removeContents K dev n dir)"
  by (induction n arbitrary: dir) (auto intro!: emit_intros plain_intros emits_plain_remove_entries)

lemma emits_plain_carry_mounts [plain_intros]: "emits plain (carry_mounts K ms)"
  by (induction ms) (auto intro!: emit_intros plain_intros)

lemma emits_plain_first_executable: "emits plain (first_executable K ps)"
  by (induction ps) (auto intro!: emit_intros plain_intros)

lemma emits_plain_notes: "plain ev \<Longrightarrow> emits plain (note_call ev)"
  by (rule emits_note_call)

lemma emits_plain_link_all [plain_intros]: "emits plain (link_all dev ls)"
  by (induction ls) (auto intro!: emit_intros emits_plain_notes)

lemma emits_plain_MountEarly [plain_intros]: "emits plain (MountEarly K)"
  unfolding MountEarly_def LinkStandardDevices_def open_console_def control_node_def
  by (intro emit_intros plain_intros emits_plain_kcall emits_plain_notes; simp)

lemma emits_plain_walk_entries: "(\<And>p. emits plain (descend p)) \<Longrightarrow> emits plain (walk_entries descend dir file es)"
  by (induction es) (auto simp: Let_def intro!: emit_intros)

lemma emits_plain_walk_dir [plain_intros]: "emits plain (walk_dir K file n dir)"
  by (induction n arbitrary: dir) (auto intro!: emit_intros plain_intros emits_plain_walk_entries)

lemma emits_plain_load_module [plain_intros]: "emits plain (load_module K dir name)"
  unfolding load_module_def findModule_def by (intro emit_intros plain_intros emits_plain_kcall; simp)

lemma emits_plain_load_names [plain_intros]: "emits plain (load_names K dir ns)"
  by (induction ns) (auto intro!: emit_intros plain_intros)

lemma emits_plain_load_dirs [plain_intros]: "emits plain (load_dirs K names ds)"
  by (induction ds) (auto intro!: emit_intros plain_intros)

lemma emits_plain_boot_cmdline: "emits plain (boot_cmdline K)"
  unfolding boot_cmdline_def LoadModules_def by (intro emit_intros plain_intros)

lemma emits_plain_Rescue: "emits plain (Rescue K False sh)"
  by (simp add: Rescue_def plain_intros)

subsection \<open>The search for the root\<close>

text \<open>The interface of the search: operations that emit calls of one class only.\<close>

locale emitting_ops =
  fixes P :: "event \<Rightarrow> bool" and ops :: "trace ops"
  assumes emits_Partitions: "emits P (op_Partitions ops)"
    and emits_MountData: "emits P (op_MountData ops dev dir)"
    and emits_Unmount: "emits P (op_Unmount ops dir)"
    and emits_Glob: "emits P (op_Glob ops pat)"
    and emits_Exists: "emits P (op_Exists ops p)"
    and emits_AttachLoop: "emits P (op_AttachLoop ops f)"
    and emits_DetachLoop: "emits P (op_DetachLoop ops dev)"
    and emits_Open: "emits P (op_OpenVerity ops name d h rh)"
    and emits_Close: "emits P (op_CloseVerity ops name)"
    and emits_EROFS: "emits P (op_HasEROFS ops dev)"
    and emits_IsVerityHash: "emits P (op_IsVerityHash ops dev)"
    and emits_HashRoot: "op_HashRoot ops = Some hr \<Longrightarrow> emits P (hr dev)"
    and emits_DevBytes: "op_DevBytes ops = Some db \<Longrightarrow> emits P (db dev)"
    and emits_MountISO: "emits P (op_MountISO ops dev dir)"
    and emits_DiskOf: "emits P (op_DiskOf ops dev)"
    and emits_Sleep: "emits P (op_Sleep ops i)"
begin

lemmas op_emits = emits_Partitions emits_MountData emits_Unmount emits_Glob emits_Exists emits_AttachLoop emits_DetachLoop
  emits_Open emits_Close emits_EROFS emits_IsVerityHash emits_MountISO emits_DiskOf emits_Sleep

lemma emits_ask: "emits P (case op_HashRoot ops of None \<Rightarrow> pure x | Some hr \<Rightarrow> hr h)"
  by (cases "op_HashRoot ops") (auto intro: emit_intros emits_HashRoot)

lemma emits_pair_score: "emits P (pair_score cfg ops hr want d)"
  by (cases "op_DevBytes ops") (auto simp: pair_score_def intro!: emit_intros intro: emits_DevBytes)

lemma emits_attach_slots: "emits P (attach_slots ops m fs)"
  by (induction fs arbitrary: m) (auto intro!: emit_intros op_emits)

lemma emits_find_data: "emits P (find_data cfg ops m ps)"
  by (induction ps) (auto intro!: emit_intros op_emits emits_attach_slots)

lemma emits_attach_iso: "emits P (attach_iso cfg ops m dev)"
  unfolding attach_iso_def Let_def by (intro emit_intros op_emits)

lemma emits_find_iso: "emits P (find_iso cfg ops m ps)"
  by (induction ps) (auto intro!: emit_intros op_emits emits_attach_iso)

lemma emits_live_devices: "emits P (live_devices cfg ops ps)"
  by (induction ps) (auto intro!: emit_intros op_emits)

lemma emits_rank_datas: "emits P (rank_datas cfg ops h hr want ds)"
  by (induction ds) (auto intro!: emit_intros emits_pair_score)

lemma emits_rank_hashes: "emits P (rank_hashes cfg ops ds hs)"
  by (induction hs) (auto intro!: emits_ask emits_bind emits_pure emits_rank_datas)

lemma emits_try_pairs: "emits P (try_pairs cfg m ops ps)"
  by (induction ps) (auto simp: samePairOrigin_def Let_def intro!: emit_intros op_emits)

lemma emits_probe_pairs: "emits P (probe_pairs cfg ops ps)"
  by (induction ps) (auto intro!: emit_intros op_emits)

lemma emits_first_erofs: "emits P (first_erofs ops ds)"
  by (induction ds) (auto intro!: emit_intros op_emits)

lemma emits_select: "emits P (selectVerified cfg m ops)" "emits P (selectUnlocked cfg m ops)"
  unfolding selectVerified_def root_devices_def rankPairs_def selectUnlocked_def unlocked_candidates_def
  by (intro emit_intros op_emits emits_live_devices emits_rank_hashes emits_try_pairs emits_probe_pairs emits_first_erofs)+

lemma emits_select_attempts: "emits P (select_attempts cfg ops n m)"
  by (induction n arbitrary: m)
    (auto simp: FindData_def FindISO_def intro!: emit_intros op_emits emits_find_data emits_find_iso emits_select)

lemma emits_SelectRoot: "emits P (SelectRoot cfg m ops)"
  unfolding SelectRoot_def Let_def by (intro emit_intros emits_select_attempts)

end

lemma emits_VerityRootHash: "emits looks (VerityRootHash cr K dev)"
  unfolding VerityRootHash_def by (intro emit_intros)

lemma emits_DevBytes_looks: "emits looks (DevBytes K dev)"
  unfolding DevBytes_def by (intro emit_intros)

lemma emits_plain_silent: "emits plain m \<Longrightarrow> emits silent m"
  by (erule emits_mono, rule plain_silent)

lemma emits_system_mounts: "emits plain (system_mount_data K dev dir)" "emits plain (system_mount_iso K dev dir)"
  unfolding system_mount_data_def system_mount_iso_def
  by (intro emit_intros plain_intros emits_plain_mount_any; simp)+

lemma emits_system_hash_root: "emits plain (system_hash_root cr K dev)"
  unfolding system_hash_root_def
  by (intro emit_intros emits_VerityRootHash [THEN emits_looks_plain])

lemma SystemOps_sel [simp]:
  "op_Partitions (SystemOps cr K) = Partitions K" "op_MountData (SystemOps cr K) = system_mount_data K"
  "op_Unmount (SystemOps cr K) = sys_unmount K" "op_Glob (SystemOps cr K) = sys_glob K" "op_Exists (SystemOps cr K) = file_exists K"
  "op_AttachLoop (SystemOps cr K) = AttachLoop K" "op_DetachLoop (SystemOps cr K) = DetachLoop K"
  "op_OpenVerity (SystemOps cr K) = OpenVerity K" "op_CloseVerity (SystemOps cr K) = CloseVerity K"
  "op_HasEROFS (SystemOps cr K) = HasEROFS K" "op_IsVerityHash (SystemOps cr K) = IsVerityHash K"
  "op_HashRoot (SystemOps cr K) = Some (system_hash_root cr K)" "op_DevBytes (SystemOps cr K) = Some (DevBytes K)"
  "op_MountISO (SystemOps cr K) = system_mount_iso K" "op_DiskOf (SystemOps cr K) = DiskOf K" "op_Sleep (SystemOps cr K) = sys_sleep"
  by (simp_all add: SystemOps_def)

text \<open>The operations of the running system mount no root, start no shell and do not switch.\<close>

interpretation silent_ops: emitting_ops silent "SystemOps cr K" for cr K
  by unfold_locales
    (auto intro!: plain_intros emits_system_mounts emits_system_hash_root emits_DevBytes_looks [THEN emits_looks_plain]
      emits_OpenVerity [THEN emits_mono] emits_CloseVerity [THEN emits_mono] intro: emits_plain_silent maps_only_silent)

subsection \<open>Firmware leaves the root alone\<close>

text \<open>\<open>yields P R m\<close>: the program adds calls of class \<open>P\<close> and returns a result in \<open>R\<close>.\<close>

definition yields :: "(event \<Rightarrow> bool) \<Rightarrow> ('a \<Rightarrow> bool) \<Rightarrow> 'a boot \<Rightarrow> bool" where
  "yields P R m \<longleftrightarrow> (\<forall>t. \<exists>x es. run_state m t = (x, es @ t) \<and> list_all P es \<and> R x)"

lemma yields_emits: "yields P R m \<Longrightarrow> emits P m"
  unfolding yields_def emits_def by (metis snd_conv)

lemma yields_pure: "R x \<Longrightarrow> yields P R (pure x)"
  by (simp add: yields_def)

lemma emits_yields: "emits P m \<Longrightarrow> yields P (\<lambda>_. True) m"
  unfolding yields_def emits_def by (metis prod.collapse)

lemma yields_bind:
  assumes "yields P R m" "\<And>x. R x \<Longrightarrow> yields P S (f x)"
  shows "yields P S (State_Monad.bind m f)"
  unfolding yields_def
proof
  fix t
  from assms(1) obtain x es1 where m: "run_state m t = (x, es1 @ t)" "list_all P es1" "R x" unfolding yields_def by blast
  from assms(2) [OF m(3)] obtain y es2 where "run_state (f x) (es1 @ t) = (y, es2 @ es1 @ t)" "list_all P es2" "S y"
    unfolding yields_def by blast
  with m show "\<exists>y es. run_state (State_Monad.bind m f) t = (y, es @ t) \<and> list_all P es \<and> S y"
    by (intro exI [of _ y] exI [of _ "es2 @ es1"]) simp
qed

lemmas yields_seq = yields_bind [OF emits_yields]

definition harmless :: "event \<Rightarrow> bool" where
  "harmless e \<longleftrightarrow> silent e \<and> spares RootMapper e"

lemma plain_harmless: "plain e \<Longrightarrow> harmless e"
  by (simp add: harmless_def plain_silent plain_spares)

lemma emits_plain_harmless: "emits plain m \<Longrightarrow> emits harmless m"
  by (erule emits_mono, rule plain_harmless)

definition fw_mapper :: "string \<Rightarrow> string" where
  "fw_mapper name = name @ ''-fwverity''"

lemma fw_mapper_neq [simp]: "fw_mapper name \<noteq> RootMapper"
proof
  assume "fw_mapper name = RootMapper"
  then have "last (fw_mapper name) = last RootMapper" by simp
  then show False by (simp add: fw_mapper_def RootMapper_def)
qed

lemma maps_only_harmless: "maps_only (fw_mapper name) e \<Longrightarrow> harmless e"
  by (simp add: harmless_def maps_only_silent maps_only_spares)

lemma emits_mapper_harmless: "emits (maps_only (fw_mapper name)) m \<Longrightarrow> emits harmless m"
  by (erule emits_mono, rule maps_only_harmless)

definition good_bundle :: "mounted_bundle \<Rightarrow> bool" where
  "good_bundle b \<longleftrightarrow> (\<exists>name. mb_mapper b = fw_mapper name)"

definition good_state :: "bundle_state \<Rightarrow> bool" where
  "good_state st \<longleftrightarrow> list_all good_bundle (fst st) \<and> list_all good_bundle (map snd (snd st))"

lemma emits_detach_loops [plain_intros]: "emits plain (detach_loops K ls)"
  by (induction ls) (auto intro!: emit_intros plain_intros)

lemma emits_release_bundle: "good_bundle b \<Longrightarrow> emits harmless (release_bundle K b)"
proof -
  assume "good_bundle b"
  then obtain name where name: "mb_mapper b = fw_mapper name" by (auto simp: good_bundle_def)
  show ?thesis
    unfolding release_bundle_def name
    by (rule emits_bind [OF _ emits_bind [OF emits_mapper_harmless [OF emits_CloseVerity]]])
      (intro emits_plain_harmless emit_intros plain_intros)+
qed

lemma yields_release_fail: "good_bundle b \<Longrightarrow> yields harmless (\<lambda>r. \<forall>b. r = Inr b \<longrightarrow> good_bundle b) (release_fail K b msg)"
  unfolding release_fail_def by (rule yields_seq [OF emits_release_bundle]) (simp_all add: yields_pure)

lemma new_root_dirs [simp]: "new_root p \<in> root_dirs \<longleftrightarrow> p = []"
  by (simp add: new_root_def root_dirs_def NewRoot_def)

lemma yields_mountBundle: "yields harmless (\<lambda>r. \<forall>b. r = Inr b \<longrightarrow> good_bundle b) (mountBundle K name img hash rh)"
proof -
  have good: "good_bundle (new_mounted name\<lparr>mb_loops := ls\<rparr>)" for ls
    by (simp add: good_bundle_def new_mounted_def fw_mapper_def)
  have mapper: "mb_mapper (new_mounted name\<lparr>mb_loops := ls\<rparr>) = fw_mapper name" for ls
    by (simp add: new_mounted_def fw_mapper_def)
  have mount: "emits harmless (Mount K node (new_root (''/var/.fw-'' @ name)) fs fl opts)" for node fs fl opts
    unfolding Mount_def sys_mount_def
    by (intro emit_intros emits_plain_harmless [OF emits_plain_calls(1)] emits_kcall)
      (simp add: harmless_def silent_def root_mount_def starts_shell_def is_switch_def spares_def)
  have node: "yields harmless (\<lambda>r. \<forall>b. r = Inr b \<longrightarrow> good_bundle b) (mount_node K (new_mounted name\<lparr>mb_loops := ls\<rparr>) name node)" for ls node
    unfolding mount_node_def Let_def
    by (rule yields_seq [OF mount]) (use good yields_release_fail [OF good] in \<open>auto simp: good_bundle_def intro!: yields_pure\<close>)
  show ?thesis
    unfolding mountBundle_def Let_def
    by (auto intro!: yields_seq [OF emits_plain_harmless [OF emits_plain_loops(1)]] yields_pure yields_release_fail good node
        yields_seq [OF emits_mapper_harmless [OF emits_OpenVerity]]
        yields_seq [OF emits_plain_harmless [OF emits_looks_plain [OF emits_HasEROFS]]] simp: mapper split: sum.splits)
qed

lemma good_state_update: "good_state st \<Longrightarrow> good_bundle b \<Longrightarrow> good_state (fst st, AList.update k b (snd st))"
proof -
  assume st: "good_state st" and b: "good_bundle b"
  have "list_all good_bundle (map snd xs) \<Longrightarrow> list_all good_bundle (map snd (AList.update k b xs))" for xs
    by (induction xs) (use b in auto)
  with st show ?thesis by (simp add: good_state_def)
qed

lemma good_state_lookup: "good_state st \<Longrightarrow> map_of (snd st) k = Some b \<Longrightarrow> good_bundle b"
  by (fastforce simp: good_state_def list_all_iff dest: map_of_SomeD)

lemma yields_release: "good_bundle b \<Longrightarrow> R st \<Longrightarrow> yields harmless R (do { release_bundle K b; pure st })"
  by (rule yields_seq [OF emits_release_bundle]) (simp_all add: yields_pure)

lemma yields_keep_overlay: "good_state st \<Longrightarrow> good_bundle b \<Longrightarrow> yields harmless good_state (keep_overlay K st b)"
  unfolding keep_overlay_def
  by (auto intro!: yields_pure yields_release good_state_update dest: good_state_lookup split: option.splits)

lemma good_bundle_update [simp]: "good_bundle (b\<lparr>mb_target := tg, mb_version := v\<rparr>) = good_bundle b"
  by (simp add: good_bundle_def)

lemma yields_sort_bundle:
  assumes "good_state st" "good_bundle b"
  shows "yields harmless good_state (sort_bundle K release st b)"
proof -
  have wanted: "emits harmless (overlayWanted K NewRoot tg v)" for tg v
    unfolding overlayWanted_def by (intro emits_plain_harmless emit_intros plain_intros)
  have abi: "emits harmless (readABI K p)" for p
    unfolding readABI_def by (intro emits_plain_harmless emit_intros plain_intros)
  have ov: "yields harmless good_state (sort_overlay K st b dat)" for dat
    unfolding sort_overlay_def using assms
    by (auto intro!: yields_release yields_seq [OF wanted] yields_keep_overlay split: option.splits)
  have "good_state (b # fst st, snd st)" using assms by (simp add: good_state_def)
  then show ?thesis
    unfolding sort_bundle_def using assms ov
    by (auto intro!: yields_seq [OF emits_plain_harmless [OF emits_plain_looks(1)]] yields_seq [OF abi] yields_release yields_pure split: sum.splits)
qed

lemma emits_plain_verify [plain_intros]: "emits plain (verify_bundle be dir rootPub name)"
  unfolding verify_bundle_def by (intro emits_plain_kcall) simp

lemma emits_plain_exists [plain_intros]: "emits plain (file_exists K p)"
  by (rule emits_looks_plain [OF emits_system(6)])

lemma yields_handle_bundle: "good_state st \<Longrightarrow> yields harmless good_state (handle_bundle be rootPub release st dir)"
  unfolding handle_bundle_def Let_def
  by (auto intro!: yields_seq [OF emits_plain_harmless [OF emits_plain_exists]] yields_pure
      yields_seq [OF emits_plain_harmless [OF emits_plain_verify]] yields_bind [OF yields_mountBundle] yields_sort_bundle split: sum.splits)

lemma yields_handle_bundles: "good_state st \<Longrightarrow> yields harmless good_state (handle_bundles be rootPub release st dirs)"
  by (induction dirs arbitrary: st) (auto intro: yields_pure yields_bind [OF yields_handle_bundle])

lemma emits_release_all: "list_all good_bundle bs \<Longrightarrow> emits harmless (release_all K bs)"
  by (induction bs) (auto intro!: emit_intros emits_release_bundle)

lemma emits_applyOverlay: "good_bundle b \<Longrightarrow> emits harmless (applyOverlay K b)"
  unfolding applyOverlay_def Let_def
  by (auto intro!: emit_intros emits_release_bundle intro: emits_plain_harmless plain_intros)

lemma emits_apply_overlays: "list_all good_bundle bs \<Longrightarrow> emits harmless (apply_overlays K bs)"
  by (induction bs) (auto intro!: emit_intros emits_applyOverlay)

lemma emits_unionFirmware: "list_all good_bundle bs \<Longrightarrow> emits harmless (unionFirmware K bs)"
  unfolding unionFirmware_def Let_def
  by (auto intro!: emit_intros emits_release_all intro: emits_plain_harmless plain_intros)

text \<open>Go walks a map in some order, each entry once.\<close>

definition walks_all :: "boot_env \<Rightarrow> bool" where
  "walks_all be \<longleftrightarrow> (\<forall>bs. mset (be_order be bs) = mset bs)"

lemma good_order: "walks_all be \<Longrightarrow> list_all good_bundle bs \<Longrightarrow> list_all good_bundle (be_order be bs)"
  unfolding walks_all_def list_all_iff by (metis set_mset_mset)

lemma emits_MountFirmware:
  assumes "walks_all be"
  shows "emits harmless (MountFirmware be p)"
proof -
  have rel: "emits harmless (kernelRelease K)" and dirs: "emits harmless (bundleDirs K d)" for K d
    unfolding kernelRelease_def bundleDirs_def
    by (intro emits_plain_harmless emit_intros plain_intros emits_plain_kcall; simp)+
  have done1: "yields harmless (\<lambda>_. True) (do { apply_overlays K (be_order be (map snd (snd st))); unionFirmware K (fst st) })"
    if "good_state st" for K st
    using that good_order [OF assms] unfolding good_state_def
    by (intro emits_yields emits_bind emits_apply_overlays emits_unionFirmware) auto
  have "yields harmless (\<lambda>_. True) (MountFirmware be p)"
    unfolding MountFirmware_def Let_def
    by (auto intro!: yields_seq [OF emits_plain_harmless [OF emits_plain_exists]] yields_seq [OF emits_plain_harmless [OF emits_plain_looks(1)]]
        yields_seq [OF rel] yields_seq [OF dirs] yields_bind [OF yields_handle_bundles] yields_pure done1
        simp: good_state_def split: sum.splits)
  then show ?thesis by (rule yields_emits)
qed

subsection \<open>The seal\<close>

text \<open>\<open>every Q t\<close>: each call of the trace satisfied \<open>Q\<close> when it was made.\<close>

primrec every :: "(event \<Rightarrow> trace \<Rightarrow> bool) \<Rightarrow> trace \<Rightarrow> bool" where
  "every Q [] = True"
| "every Q (e # t) = (Q e t \<and> every Q t)"

definition root_mounted :: "trace \<Rightarrow> bool" where
  "root_mounted t \<longleftrightarrow> (\<exists>dst flags opts. dst \<in> root_dirs \<and> Mount_call (mapper_node RootMapper) dst ''erofs'' flags opts True \<in> set t)"

definition seal :: "string \<Rightarrow> event \<Rightarrow> trace \<Rightarrow> bool" where
  "seal rh e t \<longleftrightarrow>
     (\<forall>src. root_mount e = Some src \<longrightarrow> src = mapper_node RootMapper \<and> signed_mapping RootMapper rh t) \<and>
     (is_switch e \<longrightarrow> signed_mapping RootMapper rh t \<and> root_mounted t) \<and> \<not> starts_shell e"

lemma silent_seal: "silent e \<Longrightarrow> seal rh e t"
  by (simp add: silent_def seal_def)

lemma every_silent: "list_all silent es \<Longrightarrow> every (seal rh) t \<Longrightarrow> every (seal rh) (es @ t)"
  by (induction es) (auto simp: silent_seal)

text \<open>After the root is found: the trace is sealed and the mapping carries the signed hash.\<close>

definition on_root :: "string \<Rightarrow> trace \<Rightarrow> bool" where
  "on_root rh t \<longleftrightarrow> every (seal rh) t \<and> signed_mapping RootMapper rh t"

definition roots_only :: "event \<Rightarrow> bool" where
  "roots_only e \<longleftrightarrow> harmless e \<or> root_mount e = Some (mapper_node RootMapper)"

lemma roots_only_step: "roots_only e \<Longrightarrow> on_root rh t \<Longrightarrow> on_root rh (e # t)"
  using signed_mapping_spares [of RootMapper "[e]" rh t]
  by (auto simp: roots_only_def on_root_def harmless_def silent_def seal_def root_mount_def spares_def is_switch_def starts_shell_def
      split: event.splits if_splits)

lemma roots_only_keeps: "list_all roots_only es \<Longrightarrow> on_root rh t \<Longrightarrow> on_root rh (es @ t)"
  by (induction es) (auto intro: roots_only_step)

lemma root_mounted_mono: "root_mounted t \<Longrightarrow> root_mounted (es @ t)"
  by (auto simp: root_mounted_def)

subsection \<open>Conditions before and after\<close>

definition spec :: "(trace \<Rightarrow> bool) \<Rightarrow> 'a boot \<Rightarrow> ('a \<Rightarrow> trace \<Rightarrow> bool) \<Rightarrow> bool" where
  "spec I m R \<longleftrightarrow> (\<forall>t x t'. I t \<and> run_state m t = (x, t') \<longrightarrow> R x t')"

lemma spec_pure: "(\<And>t. I t \<Longrightarrow> R x t) \<Longrightarrow> spec I (pure x) R"
  by (simp add: spec_def)

lemma spec_bind:
  assumes "spec I m R" "\<And>x. spec (R x) (f x) S"
  shows "spec I (State_Monad.bind m f) S"
  using assms unfolding spec_def run_bind_eq by blast

lemma spec_emits:
  assumes "emits P m" "\<And>es t. list_all P es \<Longrightarrow> I t \<Longrightarrow> J (es @ t)"
  shows "spec I m (\<lambda>_. J)"
  unfolding spec_def using assms by (metis emitsE)

lemma spec_then: "emits P m \<Longrightarrow> (\<And>es t. list_all P es \<Longrightarrow> I t \<Longrightarrow> I (es @ t)) \<Longrightarrow> (\<And>x. spec I (f x) S) \<Longrightarrow> spec I (State_Monad.bind m f) S"
  by (rule spec_bind [OF spec_emits])

lemma spec_mono: "spec I m R \<Longrightarrow> (\<And>t. J t \<Longrightarrow> I t) \<Longrightarrow> (\<And>x t. R x t \<Longrightarrow> S x t) \<Longrightarrow> spec J m S"
  unfolding spec_def by blast

text \<open>A root that is mounted as well.\<close>

definition rooted :: "string \<Rightarrow> trace \<Rightarrow> bool" where
  "rooted rh t \<longleftrightarrow> on_root rh t \<and> root_mounted t"

lemma rooted_keeps: "list_all roots_only es \<Longrightarrow> rooted rh t \<Longrightarrow> rooted rh (es @ t)"
  by (simp add: rooted_def roots_only_keeps root_mounted_mono)

lemma emits_plain_roots: "emits plain m \<Longrightarrow> emits roots_only m"
  by (erule emits_mono) (simp add: roots_only_def plain_harmless)

lemma emits_harmless_roots: "emits harmless m \<Longrightarrow> emits roots_only m"
  by (erule emits_mono) (simp add: roots_only_def)

lemma spec_plain: "emits plain m \<Longrightarrow> (\<And>es t. list_all roots_only es \<Longrightarrow> I t \<Longrightarrow> I (es @ t)) \<Longrightarrow> spec I m (\<lambda>_. I)"
  by (rule spec_emits [OF emits_plain_roots])

lemma run_Mount:
  "snd (run_state (Mount K src dst fstype flags opts) t) =
     Mount_call src dst fstype flags opts (\<not> isl (fst (run_state (Mount K src dst fstype flags opts) t))) # Mkdir_call dst # t"
  by (cases "k_mount K (Mkdir_call dst # t) src dst fstype flags opts") (simp_all add: Mount_def sys_mkdir_all_def sys_mount_def)

lemma root_mount_spec:
  assumes "dst \<in> root_dirs"
  shows "spec (on_root rh) (Mount K (mapper_node RootMapper) dst ''erofs'' flags opts)
    (\<lambda>r t. on_root rh t \<and> (\<not> isl r \<longrightarrow> rooted rh t))"
  unfolding spec_def
proof (intro allI impI, elim conjE)
  fix t r t'
  assume t: "on_root rh t" and run: "run_state (Mount K (mapper_node RootMapper) dst ''erofs'' flags opts) t = (r, t')"
  define b where "b = (\<not> isl r)"
  have b: "t' = Mount_call (mapper_node RootMapper) dst ''erofs'' flags opts b # Mkdir_call dst # t"
    using run_Mount [of K "mapper_node RootMapper" dst "''erofs''" flags opts t] by (simp only: run fst_conv snd_conv b_def)
  have "list_all roots_only [Mount_call (mapper_node RootMapper) dst ''erofs'' flags opts b, Mkdir_call dst]"
    using assms by (simp add: roots_only_def plain_harmless root_mount_def)
  from roots_only_keeps [OF this t] b have "on_root rh t'" by simp
  moreover have "b \<Longrightarrow> root_mounted t'" using assms by (auto simp: root_mounted_def b)
  ultimately show "on_root rh t' \<and> (\<not> isl r \<longrightarrow> rooted rh t')" by (auto simp: rooted_def b_def)
qed

definition mounts_root :: "string \<Rightarrow> bool \<times> error option \<Rightarrow> trace \<Rightarrow> bool" where
  "mounts_root rh ie t \<longleftrightarrow> on_root rh t \<and> (snd ie = None \<longrightarrow> rooted rh t)"

lemma roots_dirs [simp]: "NewRoot \<in> root_dirs" "''/lower'' \<in> root_dirs"
  by (simp_all add: root_dirs_def)

lemma rooted_emits:
  "emits plain m \<Longrightarrow> (\<And>x. spec (rooted rh) (f x) S) \<Longrightarrow> spec (rooted rh) (State_Monad.bind m f) S"
  by (rule spec_then [OF emits_plain_roots]) (auto intro: rooted_keeps)

lemma on_root_emits:
  "emits plain m \<Longrightarrow> (\<And>x. spec (on_root rh) (f x) S) \<Longrightarrow> spec (on_root rh) (State_Monad.bind m f) S"
  by (rule spec_then [OF emits_plain_roots]) (auto intro: roots_only_keeps)

lemma rooted_on_root: "rooted rh t \<Longrightarrow> on_root rh t"
  by (simp add: rooted_def)

lemma after_root_mount:
  assumes "\<And>e. spec (on_root rh) (f e) (mounts_root rh)" "\<And>u. spec (rooted rh) (g u) (mounts_root rh)" "dst \<in> root_dirs"
  shows "spec (on_root rh) (State_Monad.bind (Mount K (mapper_node RootMapper) dst ''erofs'' flags opts)
           (\<lambda>r. case r of Inl e \<Rightarrow> f e | Inr u \<Rightarrow> g u)) (mounts_root rh)"
proof (rule spec_bind [OF root_mount_spec [OF assms(3)]])
  fix r :: "error + unit"
  show "spec (\<lambda>t. on_root rh t \<and> (\<not> isl r \<longrightarrow> rooted rh t)) (case r of Inl e \<Rightarrow> f e | Inr u \<Rightarrow> g u) (mounts_root rh)"
    using assms(1,2) by (cases r) (auto intro: spec_mono)
qed

lemma mounts_root_pure [simp]:
  "spec (on_root rh) (pure (b, Some e)) (mounts_root rh)" "spec (rooted rh) (pure (b, x)) (mounts_root rh)"
  by (auto intro!: spec_pure simp: mounts_root_def rooted_def)

lemma spec_case_sum:
  "(\<And>e. spec I (f e) S) \<Longrightarrow> (\<And>x. spec I (g x) S) \<Longrightarrow> spec I (case r of Inl e \<Rightarrow> f e | Inr x \<Rightarrow> g x) S"
  by (cases r) auto

lemma spec_if: "(b \<Longrightarrow> spec I m S) \<Longrightarrow> (\<not> b \<Longrightarrow> spec I n S) \<Longrightarrow> spec I (if b then m else n) S"
  by simp

lemma MountRoot_spec:
  assumes "rt_source root = mapper_node RootMapper"
  shows "spec (on_root rh) (MountRoot K cfg root held) (mounts_root rh)"
proof -
  have inst: "spec (on_root rh) (mount_installed K c root) (mounts_root rh)" for c
    unfolding mount_installed_def assms
    by (intro after_root_mount mounts_root_pure spec_case_sum rooted_emits plain_intros) simp_all
  have live: "spec (on_root rh) (mount_live K c root held) (mounts_root rh)" for c
    unfolding mount_live_def assms carry_iso_def
    by (intro after_root_mount mounts_root_pure spec_case_sum spec_if rooted_emits plain_intros) simp_all
  have ex: "emits plain (if held then file_exists K p else pure False)" for p
    by (intro emit_intros plain_intros)
  show ?thesis
    unfolding MountRoot_def Let_def by (intro on_root_emits spec_if inst live ex)
qed

definition switches :: "string \<Rightarrow> error option \<Rightarrow> trace \<Rightarrow> bool" where
  "switches rh e t \<longleftrightarrow> every (seal rh) t \<and> (e \<noteq> None \<longrightarrow> rooted rh t)"

lemma switches_pure: "spec (rooted rh) (pure (Some e)) (switches rh)"
  by (rule spec_pure) (simp add: switches_def rooted_def on_root_def)

lemma execve_spec:
  "spec (rooted rh) (kcall f (\<lambda>ok. if ok then Switch_call init else Read_call init))
     (\<lambda>r t. every (seal rh) t \<and> (isl r \<longrightarrow> rooted rh t))"
  unfolding spec_def
proof (intro allI impI, elim conjE)
  fix t r t'
  assume t: "rooted rh t" and run: "run_state (kcall f (\<lambda>ok. if ok then Switch_call init else Read_call init)) t = (r, t')"
  have "rooted rh (Read_call init # t)"
    using rooted_keeps [of "[Read_call init]" rh t] t by (simp add: roots_only_def plain_harmless)
  moreover have "seal rh (Switch_call init) t"
    using t by (simp add: seal_def rooted_def on_root_def root_mount_def starts_shell_def)
  ultimately show "every (seal rh) t' \<and> (isl r \<longrightarrow> rooted rh t')"
    using run t by (cases r) (auto simp: rooted_def on_root_def)
qed

lemma enter_root_spec: "spec (rooted rh) (enter_root K dev init args) (switches rh)"
proof -
  have last: "spec (rooted rh) (State_Monad.bind (kcall f (\<lambda>ok. if ok then Switch_call init else Read_call init))
      (\<lambda>ex. case ex of Inl e \<Rightarrow> pure (Some e) | Inr _ \<Rightarrow> pure None)) (switches rh)" for f :: "trace \<Rightarrow> error + unit"
    by (rule spec_bind [OF execve_spec]) (auto simp: switches_def intro!: spec_pure split: sum.splits)
  show ?thesis
    unfolding enter_root_def
    by (intro spec_case_sum switches_pure last rooted_emits plain_intros) simp_all
qed

lemma SwitchRoot_spec: "spec (rooted rh) (SwitchRoot K init args) (switches rh)"
proof -
  have fs: "emits plain (kcall f (\<lambda>_. Read_call p))" for f p
    by (rule emits_plain_kcall) simp
  show ?thesis
    unfolding SwitchRoot_def
    by (intro spec_case_sum spec_if switches_pure enter_root_spec rooted_emits plain_intros fs)
qed

text \<open>The trace that is left: each root mount and the start of the init were sealed, no shell ran.\<close>

definition sealed :: "string \<Rightarrow> 'a \<Rightarrow> trace \<Rightarrow> bool" where
  "sealed rh x t \<longleftrightarrow> every (seal rh) t"

lemma Rescue_sealed: "spec (\<lambda>t. every (seal rh) t) (Rescue K False sh) (sealed rh)"
  by (rule spec_mono [OF spec_emits [where I = "every (seal rh)" and J = "every (seal rh)", OF emits_plain_Rescue]])
    (auto simp: sealed_def intro!: every_silent intro: list.pred_mono_strong plain_silent)

lemma Rescue_rooted: "spec (rooted rh) (Rescue K False sh) (sealed rh)" "spec (on_root rh) (Rescue K False sh) (sealed rh)"
  by (rule spec_mono [OF Rescue_sealed]; simp add: rooted_def on_root_def)+

lemma start_init_spec:
  assumes "walks_all be"
  shows "spec (rooted rh) (start_init be cmd False) (sealed rh)"
proof -
  have sw: "spec (rooted rh) (State_Monad.bind (SwitchRoot K init args)
      (\<lambda>e. case e of None \<Rightarrow> pure () | Some err \<Rightarrow> Rescue K False sh)) (sealed rh)" for K init args sh
  proof (rule spec_bind [OF SwitchRoot_spec])
    fix e :: "error option"
    show "spec (switches rh e) (case e of None \<Rightarrow> pure () | Some err \<Rightarrow> Rescue K False sh) (sealed rh)"
      by (cases e) (auto simp: switches_def sealed_def intro!: spec_pure intro: spec_mono [OF Rescue_sealed])
  qed
  have fw: "spec (rooted rh) (State_Monad.bind (MountFirmware be p) f) (sealed rh)" if "\<And>u. spec (rooted rh) (f u) (sealed rh)" for p f
    by (rule spec_then [OF emits_harmless_roots [OF emits_MountFirmware [OF assms]] _ that]) (rule rooted_keeps)
  show ?thesis
    unfolding start_init_def Let_def
    by (intro rooted_emits plain_intros spec_if Rescue_rooted fw sw)
qed

lemma emits_ReleaseUnrelatedData: "emits plain (ReleaseUnrelatedData cfg m root (SystemOps cr K))"
proof -
  have detach: "emits plain (detach_all (SystemOps cr K) ls)" for ls
    by (induction ls) (auto intro!: emit_intros plain_intros)
  show ?thesis
    unfolding ReleaseUnrelatedData_def Let_def SystemOps_sel
    by (intro emit_intros plain_intros detach)
qed

lemma mount_and_start_spec:
  assumes "walks_all be" "\<not> cf_unlocked cfg" "rt_source root = mapper_node RootMapper"
  shows "spec (on_root rh) (mount_and_start be cmd cfg m root) (sealed rh)"
proof -
  have tail: "spec (rooted rh) (State_Monad.bind (MountESP K m' root) (\<lambda>_. start_init be cmd False)) (sealed rh)" for K m'
    by (rule rooted_emits [OF emits_plain_layout(2) start_init_spec [OF assms(1)]])
  have after: "spec (mounts_root rh ie) (if snd ie \<noteq> None then Rescue K False sh
      else State_Monad.bind (MountESP K m' root) (\<lambda>_. start_init be cmd False)) (sealed rh)" for ie K sh m'
  proof (cases "snd ie")
    case None
    then show ?thesis by simp (rule spec_mono [OF tail], simp_all add: mounts_root_def)
  next
    case (Some e)
    then show ?thesis by simp (rule spec_mono [OF Rescue_rooted(2)], simp_all add: mounts_root_def)
  qed
  have held: "spec (on_root rh) (State_Monad.bind (MountRoot K cfg root h) (\<lambda>ie. if snd ie \<noteq> None then Rescue K False sh
      else State_Monad.bind (MountESP K m' root) (\<lambda>_. start_init be cmd False))) (sealed rh)" for K h sh m'
    by (rule spec_bind [OF MountRoot_spec [OF assms(3)] after])
  have u: "cf_unlocked cfg = False" using assms(2) by simp
  show ?thesis
    unfolding mount_and_start_def Let_def u
    by (intro on_root_emits emits_ReleaseUnrelatedData spec_case_sum Rescue_rooted held)
qed

text \<open>What the search leaves behind on a locked device.\<close>

lemma SelectRoot_on_root:
  assumes "\<not> cf_unlocked cfg"
  shows "spec (\<lambda>t. every (seal rh) t) (SelectRoot cfg m (SystemOps cr K))
    (\<lambda>rm t. every (seal rh) t \<and>
       (\<forall>root. fst rm = Inr root \<and> rh = cf_root_hash cfg \<longrightarrow> rt_source root = mapper_node RootMapper \<and> on_root rh t))"
  unfolding spec_def
proof (intro allI impI, elim conjE)
  fix t rm t'
  assume t: "every (seal rh) t" and run: "run_state (SelectRoot cfg m (SystemOps cr K)) t = (rm, t')"
  from emitsE [OF silent_ops.emits_SelectRoot run] obtain es where "t' = es @ t" "list_all silent es" .
  with t have seal: "every (seal rh) t'" by (simp add: every_silent)
  have "rt_source root = mapper_node RootMapper \<and> on_root rh t'" if root: "fst rm = Inr root" "rh = cf_root_hash cfg" for root
  proof -
    from root run have "run_state (SelectRoot cfg m (SystemOps cr K)) t = ((Inr root, snd rm), t')" by (cases rm) simp
    from SelectRoot_found [OF this assms] root(2) obtain s1 s2 where
      "run_state (OpenVerity K RootMapper (rt_data root) (rt_hash root) rh) s1 = (Inr (rt_source root), s2)"
      "run_state (HasEROFS K (rt_source root)) s2 = (True, t')"
      by (auto simp: found_root_def opened_def defaults_def)
    from OpenVerity_maps [OF this(1)] emitsE [OF emits_HasEROFS this(2)] obtain fs where
      "rt_source root = mapper_node RootMapper" "signed_mapping RootMapper rh s2" "t' = fs @ s2" "list_all looks fs" by metis
    moreover from this(4) have "list_all (spares RootMapper) fs" by (rule list.pred_mono_strong) (rule looks_spares)
    ultimately show ?thesis
      using seal by (simp add: on_root_def signed_mapping_spares)
  qed
  with seal show "every (seal rh) t' \<and> (\<forall>root. fst rm = Inr root \<and> rh = cf_root_hash cfg \<longrightarrow>
      rt_source root = mapper_node RootMapper \<and> on_root rh t')" by blast
qed

text \<open>A kernel whose answers never read as unlocked.\<close>

definition locked :: "kernel \<Rightarrow> bool" where
  "locked K \<longleftrightarrow> (\<forall>key t. \<not> fst (run_state (DeviceUnlocked K key) t))"

lemma yields_first_executable:
  "R ''sintykey'' \<Longrightarrow> list_all R ps \<Longrightarrow> yields silent R (first_executable K ps)"
proof (induction ps)
  case (Cons p ps)
  have ex: "emits silent (Executable K p)" by (intro emits_plain_silent plain_intros)
  show ?case
    using Cons by (auto intro!: yields_seq [OF ex] yields_pure)
qed (simp add: yields_pure)

lemma sintykey_no_shell: "yields silent (\<lambda>key. key \<noteq> ''/bin/sh'') (sintykey K)"
  unfolding sintykey_def by (rule yields_first_executable) simp_all

lemma spec_silent: "emits silent m \<Longrightarrow> spec (\<lambda>t. every (seal rh) t) m (\<lambda>_ t. every (seal rh) t)"
  by (rule spec_emits [where I = "every (seal rh)" and J = "every (seal rh)"]) (auto intro: every_silent)

lemma spec_yields: "yields silent R m \<Longrightarrow> spec (\<lambda>t. every (seal rh) t) m (\<lambda>x t. R x \<and> every (seal rh) t)"
  unfolding spec_def yields_def
proof (intro allI impI, elim conjE)
  fix t x t'
  assume y: "\<forall>t. \<exists>x es. run_state m t = (x, es @ t) \<and> list_all silent es \<and> R x"
    and t: "every (seal rh) t" and run: "run_state m t = (x, t')"
  from y run obtain es where "t' = es @ t" "list_all silent es" "R x" by (metis prod.inject)
  with t show "R x \<and> every (seal rh) t'" by (simp add: every_silent)
qed

lemma emits_DeviceUnlocked: "key \<noteq> ''/bin/sh'' \<Longrightarrow> emits silent (DeviceUnlocked K key)"
  unfolding DeviceUnlocked_def run_command_def
  by (intro emits_plain_silent emit_intros emits_plain_kcall) simp_all

lemma spec_locked:
  assumes "locked K" "key \<noteq> ''/bin/sh''"
  shows "spec (\<lambda>t. every (seal rh) t) (DeviceUnlocked K key) (\<lambda>u t. \<not> u \<and> every (seal rh) t)"
  using spec_silent [OF emits_DeviceUnlocked [OF assms(2)], of rh K] assms(1)
  unfolding spec_def locked_def by (metis fst_conv)

lemma spec_pre: "(P \<Longrightarrow> spec I m S) \<Longrightarrow> spec (\<lambda>t. P \<and> I t) m S"
  by (auto simp: spec_def)

text \<open>The root hash on the kernel command line.\<close>

definition signed_hash :: "kernel \<Rightarrow> string" where
  "signed_hash K = cf_root_hash (boot_config (fst (run_state (boot_cmdline K) [])) False)"

lemma boot_config_locked [simp]: "\<not> cf_unlocked (boot_config cmd False)"
  by (simp add: boot_config_def)

lemma after_search:
  assumes "walks_all be"
  shows "spec (\<lambda>t. every (seal (cf_root_hash (boot_config cmd False))) t)
    (do { rm \<leftarrow> SelectRoot (boot_config cmd False) zero_media (SystemOps (be_crypto be) K);
          case fst rm of Inl e \<Rightarrow> Rescue K False sh | Inr root \<Rightarrow> mount_and_start be cmd (boot_config cmd False) (snd rm) root })
    (sealed (cf_root_hash (boot_config cmd False)))"
proof (rule spec_bind [OF SelectRoot_on_root [OF boot_config_locked]])
  fix rm :: "(error + root) \<times> media"
  let ?rh = "cf_root_hash (boot_config cmd False)"
  show "spec (\<lambda>t. every (seal ?rh) t \<and> (\<forall>root. fst rm = Inr root \<and> ?rh = ?rh \<longrightarrow> rt_source root = mapper_node RootMapper \<and> on_root ?rh t))
      (case fst rm of Inl e \<Rightarrow> Rescue K False sh | Inr root \<Rightarrow> mount_and_start be cmd (boot_config cmd False) (snd rm) root) (sealed ?rh)"
  proof (cases "fst rm")
    case (Inl e)
    then show ?thesis by simp (rule spec_mono [OF Rescue_sealed], simp_all)
  next
    case (Inr root)
    have "spec (\<lambda>t. rt_source root = mapper_node RootMapper \<and> on_root ?rh t)
        (mount_and_start be cmd (boot_config cmd False) (snd rm) root) (sealed ?rh)"
      by (intro spec_pre mount_and_start_spec assms) simp_all
    with Inr show ?thesis by simp (rule spec_mono, assumption, simp_all)
  qed
qed

text \<open>C2. A locked device boots sealed: whatever the kernel answers, in every boot of the reference init
  each mount of the root comes from the verity mapping \<open>vroot\<close>, whose table at that moment carries
  the root hash of the kernel command line; the init is only started once such a mount succeeded;
  and no rescue shell is started.\<close>

theorem atom_init_sealed:
  assumes "locked (be_kernel be)" "walks_all be"
  shows "every (seal (signed_hash (be_kernel be))) (snd (run_state (atom_init be) []))"
proof -
  let ?K = "be_kernel be"
  obtain cmd t1 where cmd: "run_state (boot_cmdline ?K) [] = (cmd, t1)" by (cases "run_state (boot_cmdline ?K) []")
  let ?rh = "cf_root_hash (boot_config cmd False)"
  have rh: "signed_hash ?K = ?rh" by (simp add: signed_hash_def cmd)
  from emitsE [OF emits_plain_silent [OF emits_plain_boot_cmdline] cmd] obtain es where "t1 = es @ []" "list_all silent es" .
  then have t1: "every (seal ?rh) t1" using every_silent [of es ?rh "[]"] by simp
  let ?tail = "\<lambda>unlocked. let cfg = boot_config cmd unlocked in
    State_Monad.bind (SelectRoot cfg zero_media (SystemOps (be_crypto be) ?K)) (\<lambda>rm. case fst rm of
      Inl e \<Rightarrow> Rescue ?K unlocked ''/bin/sh'' | Inr root \<Rightarrow> mount_and_start be cmd cfg (snd rm) root)"
  let ?rest = "State_Monad.bind (sintykey ?K) (\<lambda>key. State_Monad.bind (DeviceUnlocked ?K key) ?tail)"
  have tail: "spec (\<lambda>t. every (seal ?rh) t) (?tail u) (sealed ?rh)" if "\<not> u" for u
  proof -
    from that have u: "u = False" by simp
    show ?thesis unfolding u Let_def by (rule after_search [OF assms(2)])
  qed
  have rest: "spec (\<lambda>t. every (seal ?rh) t) ?rest (sealed ?rh)"
    by (rule spec_bind [OF spec_yields [OF sintykey_no_shell]], rule spec_pre, rule spec_bind [OF spec_locked [OF assms(1)]], assumption,
        rule spec_pre, rule tail)
  have "run_state (atom_init be) [] = run_state ?rest t1"
    by (simp add: atom_init_def Let_def cmd)
  moreover obtain x t' where "run_state ?rest t1 = (x, t')" by (cases "run_state ?rest t1")
  ultimately show ?thesis
    using rest t1 by (auto simp: spec_def sealed_def rh)
qed

definition sample_boot :: boot_env where
  "sample_boot = \<lparr>be_crypto = \<lparr>ed25519 = (\<lambda>_ _ _. False), sha256 = (\<lambda>s. s)\<rparr>, be_kernel = sample_kernel,
     be_files = (\<lambda>t. world_of empty_disk), be_now = (\<lambda>t. 0), be_order = rev\<rparr>"

lemma sample_locked: "locked sample_kernel"
  by (simp add: locked_def DeviceUnlocked_def run_command_def sample_kernel_def UnlockGrantsNoVerity_def)

theorem atom_init_sealed_witness:
  "every (seal (signed_hash sample_kernel)) (snd (run_state (atom_init sample_boot) []))"
  using atom_init_sealed [of sample_boot] sample_locked by (simp add: sample_boot_def walks_all_def)

end
