(* ===== verification/FwmountSafe.thy ===== *)
theory FwmountSafe
  imports AtomInitSafe "HOL-Library.Sublist"
begin

section \<open>Only vouched firmware is mounted\<close>

text \<open>
  In every boot, locked or not, an EROFS file system other than the root is only mounted through a
  verity mapping whose table carries a hash that a firmware bundle's signature chain vouched for,
  checked against the root key read before. The other half of the theory bounds what an overlay
  bundle can name.
\<close>

subsection \<open>Calls that mount no firmware\<close>

definition fw_free :: "event \<Rightarrow> bool" where
  "fw_free e \<longleftrightarrow> (\<forall>src dst flags opts b. e = Mount_call src dst ''erofs'' flags opts b \<longrightarrow> dst \<in> root_dirs)"

lemma plain_fw_free: "plain e \<Longrightarrow> fw_free e"
  by (auto simp: plain_def erofs_mount_def fw_free_def)

lemma emits_plain_free: "emits plain m \<Longrightarrow> emits fw_free m"
  by (erule emits_mono, rule plain_fw_free)

lemma emits_maps_free: "emits (maps_only name) m \<Longrightarrow> emits fw_free m"
  by (erule emits_mono) (auto simp: maps_only_def fw_free_def)

lemmas emits_free_plain = plain_intros [THEN emits_plain_free]

named_theorems free_intros \<open>programs that mount no firmware\<close>

lemmas [free_intros] = emits_CloseVerity [THEN emits_maps_free] emits_OpenVerity [THEN emits_maps_free]

interpretation free_ops: emitting_ops fw_free "SystemOps cr K" for cr K
  by unfold_locales
    (auto intro!: plain_intros emits_system_mounts emits_system_hash_root emits_DevBytes_looks [THEN emits_looks_plain] free_intros
      intro: emits_plain_free)

lemma emits_free_root_mount: "dst \<in> root_dirs \<Longrightarrow> emits fw_free (Mount K src dst fstype flags opts)"
  unfolding Mount_def sys_mkdir_all_def sys_mount_def
  by (intro emit_intros emits_note_call emits_kcall) (simp_all add: fw_free_def)

lemma emits_free_MountRoot: "emits fw_free (MountRoot K cfg root held)"
  unfolding MountRoot_def mount_installed_def mount_live_def Let_def
  by (intro emit_intros emits_free_root_mount emits_free_plain; simp add: plain_intros [THEN emits_plain_free])

lemma emits_free_kcall: "(\<And>b. fw_free (ev b)) \<Longrightarrow> emits fw_free (kcall f ev)"
  by (rule emits_kcall)

lemma fw_free_simps [simp]:
  "fw_free (Mkdir_call p)" "fw_free (Exec_call c as)" "fw_free (Switch_call i)" "fw_free (Read_call p)" "fw_free Halt_call"
  by (simp_all add: fw_free_def)

lemma emits_free_SwitchRoot: "emits fw_free (SwitchRoot K init args)"
  unfolding SwitchRoot_def enter_root_def
  by (intro emit_intros emits_free_kcall emits_free_plain; simp)

lemma emits_free_Rescue: "emits fw_free (Rescue K unlocked sh)"
proof -
  have stdin: "emits fw_free (State (\<lambda>t. (k_stdin K t, Read_call ''/dev/stdin'' # t)))"
    by (simp add: emits_def)
  show ?thesis
    unfolding Rescue_def run_command_def
    by (intro emit_intros stdin emits_free_kcall emits_free_plain) simp
qed

lemma emits_free_DeviceUnlocked: "emits fw_free (DeviceUnlocked K key)"
  unfolding DeviceUnlocked_def run_command_def by (intro emit_intros emits_free_kcall) simp_all

lemma emits_free_release [free_intros]: "emits fw_free (release_bundle K b)" "emits fw_free (release_fail K b msg)"
  unfolding release_fail_def release_bundle_def
  by (intro emit_intros free_intros emits_free_plain)+

lemma emits_free_sort_bundle: "emits fw_free (sort_bundle K release st b)"
  unfolding sort_bundle_def sort_overlay_def keep_overlay_def overlayWanted_def readABI_def
  by (intro emit_intros free_intros emits_free_plain)

lemma emits_free_overlays [free_intros]:
  "emits fw_free (apply_overlays K bs)" "emits fw_free (release_all K bs)"
  by (induction bs) (auto simp: applyOverlay_def Let_def intro!: emit_intros free_intros emits_free_plain)

lemma emits_free_union: "emits fw_free (unionFirmware K bs)"
  unfolding unionFirmware_def Let_def
  by (intro emit_intros free_intros emits_free_plain; simp)

subsection \<open>The vouching signature chain\<close>

text \<open>\<open>key_read\<close>: at some time before, the root key was read. \<open>vouched_for\<close>: and the chain of the bundle
  verified against it.\<close>

definition key_read :: "boot_env \<Rightarrow> string \<Rightarrow> string \<Rightarrow> trace \<Rightarrow> bool" where
  "key_read be keyPath rootPub t \<longleftrightarrow> (\<exists>t0. suffix t0 t \<and> k_read_file (be_kernel be) t0 keyPath = Inr rootPub)"

definition vouched_for :: "boot_env \<Rightarrow> string \<Rightarrow> string \<Rightarrow> bundle_spec \<Rightarrow> trace \<Rightarrow> bool" where
  "vouched_for be keyPath name fw t \<longleftrightarrow>
     (\<exists>rootPub dir t1. key_read be keyPath rootPub t \<and> suffix t1 t \<and>
        fst (VerifiedFirmwareBundle (be_crypto be) (file_path dir) ''active'' rootPub (be_now be t1) name (be_files be t1)) = Inr fw)"

definition fw_seal :: "boot_env \<Rightarrow> string \<Rightarrow> event \<Rightarrow> trace \<Rightarrow> bool" where
  "fw_seal be keyPath e t \<longleftrightarrow>
     (\<forall>src dst flags opts b. e = Mount_call src dst ''erofs'' flags opts b \<and> dst \<notin> root_dirs \<longrightarrow>
        (\<exists>name fw. dst = new_root (''/var/.fw-'' @ name) \<and> src = mapper_node (fw_mapper name) \<and>
           signed_mapping (fw_mapper name) (bd_verity_hash fw) t \<and> vouched_for be keyPath name fw t))"

lemma suffix_append: "suffix t0 t \<Longrightarrow> suffix t0 (es @ t)"
  by (auto simp: suffix_def)

lemma key_read_mono: "key_read be k rp t \<Longrightarrow> key_read be k rp (es @ t)"
  unfolding key_read_def using suffix_append by blast

lemma vouched_mono: "vouched_for be k name fw t \<Longrightarrow> vouched_for be k name fw (es @ t)"
  unfolding vouched_for_def using suffix_append key_read_mono by blast

lemma every_free: "list_all fw_free es \<Longrightarrow> every (fw_seal be k) t \<Longrightarrow> every (fw_seal be k) (es @ t)"
  by (induction es) (auto simp: fw_seal_def fw_free_def)

text \<open>Conditions that calls mounting no firmware keep.\<close>

definition kept :: "(trace \<Rightarrow> bool) \<Rightarrow> bool" where
  "kept I \<longleftrightarrow> (\<forall>es t. list_all fw_free es \<and> I t \<longrightarrow> I (es @ t))"

lemma keptI: "(\<And>es t. list_all fw_free es \<Longrightarrow> I t \<Longrightarrow> I (es @ t)) \<Longrightarrow> kept I"
  by (simp add: kept_def)

lemma kept_cons: "kept I \<Longrightarrow> fw_free e \<Longrightarrow> I t \<Longrightarrow> I (e # t)"
  unfolding kept_def by (metis append_Cons append_Nil list.pred_inject(1) list.pred_inject(2))

lemma kept_then: "kept I \<Longrightarrow> emits fw_free m \<Longrightarrow> (\<And>x. spec I (f x) S) \<Longrightarrow> spec I (State_Monad.bind m f) S"
  by (rule spec_then) (auto simp: kept_def)

lemma kept_spec: "kept I \<Longrightarrow> emits fw_free m \<Longrightarrow> spec I m (\<lambda>_. I)"
  by (rule spec_emits) (auto simp: kept_def)

lemma kept_seal: "kept (\<lambda>t. every (fw_seal be k) t)"
  by (rule keptI) (rule every_free)

lemma kept_key: "kept (\<lambda>t. every (fw_seal be k) t \<and> key_read be k rp t)"
  by (rule keptI) (simp add: every_free key_read_mono)

lemma kept_vouched: "kept (\<lambda>t. every (fw_seal be k) t \<and> key_read be k rp t \<and> vouched_for be k name fw t)"
  by (rule keptI) (simp add: every_free key_read_mono vouched_mono)

definition keyed :: "boot_env \<Rightarrow> string \<Rightarrow> string \<Rightarrow> trace \<Rightarrow> bool" where
  "keyed be k rp t \<longleftrightarrow> every (fw_seal be k) t \<and> key_read be k rp t"

definition cleared :: "boot_env \<Rightarrow> string \<Rightarrow> string \<Rightarrow> string \<Rightarrow> bundle_spec \<Rightarrow> trace \<Rightarrow> bool" where
  "cleared be k rp name fw t \<longleftrightarrow> keyed be k rp t \<and> vouched_for be k name fw t"

lemma kept_keyed: "kept (keyed be k rp)"
  unfolding keyed_def by (rule kept_key)

lemma kept_cleared: "kept (cleared be k rp name fw)"
  using kept_vouched unfolding cleared_def keyed_def by (simp add: conj_assoc)

lemma verify_bundle_spec:
  "spec (keyed be k rp) (verify_bundle be dir rp name) (\<lambda>v t. keyed be k rp t \<and> (\<forall>fw. v = Inr fw \<longrightarrow> cleared be k rp name fw t))"
  unfolding spec_def
proof (intro allI impI, elim conjE)
  fix t v t'
  assume t: "keyed be k rp t" and run: "run_state (verify_bundle be dir rp name) t = (v, t')"
  from run have v: "fst (VerifiedFirmwareBundle (be_crypto be) (file_path dir) ''active'' rp (be_now be t) name (be_files be t)) = v"
    and t': "t' = [Read_call dir] @ t" by (auto simp: verify_bundle_def)
  from t have "keyed be k rp t'" unfolding t' using kept_keyed [of be k rp] by (simp add: kept_def del: append_Cons append_Nil)
  moreover have "suffix t t'" unfolding t' by (rule suffix_append) simp
  ultimately show "keyed be k rp t' \<and> (\<forall>fw. v = Inr fw \<longrightarrow> cleared be k rp name fw t')"
    using v unfolding cleared_def vouched_for_def keyed_def by blast
qed

definition mapped_to :: "boot_env \<Rightarrow> string \<Rightarrow> string \<Rightarrow> string \<Rightarrow> bundle_spec \<Rightarrow> string \<Rightarrow> trace \<Rightarrow> bool" where
  "mapped_to be k rp name fw node t \<longleftrightarrow> cleared be k rp name fw t \<and> node = mapper_node (fw_mapper name) \<and>
     signed_mapping (fw_mapper name) (bd_verity_hash fw) t"

lemma open_bundle_spec:
  "spec (cleared be k rp name fw) (OpenVerity K (fw_mapper name) d h (bd_verity_hash fw))
     (\<lambda>v t. cleared be k rp name fw t \<and> (\<forall>node. v = Inr node \<longrightarrow> mapped_to be k rp name fw node t))"
  unfolding spec_def
proof (intro allI impI, elim conjE)
  fix t v t'
  assume t: "cleared be k rp name fw t" and run: "run_state (OpenVerity K (fw_mapper name) d h (bd_verity_hash fw)) t = (v, t')"
  have "cleared be k rp name fw t'"
    using kept_spec [OF kept_cleared emits_OpenVerity [THEN emits_maps_free]] t run unfolding spec_def by blast
  moreover have "node = mapper_node (fw_mapper name) \<and> signed_mapping (fw_mapper name) (bd_verity_hash fw) t'"
    if "v = Inr node" for node
    using OpenVerity_maps run that by blast
  ultimately show "cleared be k rp name fw t' \<and> (\<forall>node. v = Inr node \<longrightarrow> mapped_to be k rp name fw node t')"
    by (simp add: mapped_to_def)
qed

lemma erofs_read_spec: "spec (mapped_to be k rp name fw node) (HasEROFS K dev) (\<lambda>_. mapped_to be k rp name fw node)"
proof (rule spec_emits [OF emits_HasEROFS])
  fix es t
  assume es: "list_all looks es" and t: "mapped_to be k rp name fw node t"
  have "list_all fw_free es" "list_all (spares (fw_mapper name)) es"
    using es by (auto elim!: list.pred_mono_strong simp: looks_def fw_free_def spares_def)
  with t kept_cleared [of be k rp name fw] show "mapped_to be k rp name fw node (es @ t)"
    by (simp add: mapped_to_def kept_def signed_mapping_spares)
qed

lemma mount_node_spec: "spec (mapped_to be k rp name fw node) (mount_node K b name node) (\<lambda>_. keyed be k rp)"
proof -
  have "spec (mapped_to be k rp name fw node) (Mount K node (new_root (''/var/.fw-'' @ name)) ''erofs'' fl opts) (\<lambda>_. keyed be k rp)" for fl opts
    unfolding spec_def
  proof (intro allI impI, elim conjE)
    fix t r t'
    assume t: "mapped_to be k rp name fw node t"
      and run: "run_state (Mount K node (new_root (''/var/.fw-'' @ name)) ''erofs'' fl opts) t = (r, t')"
    let ?e = "Mount_call node (new_root (''/var/.fw-'' @ name)) ''erofs'' fl opts (\<not> isl r)"
    let ?d = "Mkdir_call (new_root (''/var/.fw-'' @ name))"
    have t': "t' = ?e # ?d # t"
      using run_Mount [of K node "new_root (''/var/.fw-'' @ name)" "''erofs''" fl opts t] by (simp only: run fst_conv snd_conv)
    have "cleared be k rp name fw (?d # t)"
      using t by (intro kept_cons [OF kept_cleared]) (simp_all add: mapped_to_def)
    moreover have "signed_mapping (fw_mapper name) (bd_verity_hash fw) (?d # t)"
      using t signed_mapping_spares [of "fw_mapper name" "[?d]"] by (simp add: mapped_to_def spares_def)
    ultimately have "every (fw_seal be k) t'" "key_read be k rp (?d # t)"
      using t by (auto simp: t' fw_seal_def mapped_to_def cleared_def keyed_def)
    with key_read_mono [of be k rp "?d # t" "[?e]"] show "keyed be k rp t'"
      by (simp add: keyed_def t')
  qed
  then show ?thesis
    unfolding mount_node_def Let_def
    by (rule spec_bind) (auto intro: spec_pure kept_spec [OF kept_keyed] free_intros)
qed

lemma cleared_keyed: "cleared be k rp name fw t \<Longrightarrow> keyed be k rp t"
  by (simp add: cleared_def)

lemma spec_keyed: "emits fw_free m \<Longrightarrow> spec (keyed be k rp) m (\<lambda>_. keyed be k rp)"
  by (rule kept_spec [OF kept_keyed])

lemma spec_cleared_end: "emits fw_free m \<Longrightarrow> spec (cleared be k rp name fw) m (\<lambda>_. keyed be k rp)"
  by (rule spec_mono [OF spec_keyed]) (simp_all add: cleared_keyed)

lemma mountBundle_spec: "spec (cleared be k rp name fw) (mountBundle K name img hash (bd_verity_hash fw)) (\<lambda>_. keyed be k rp)"
proof -
  have mapper: "mb_mapper (new_mounted name\<lparr>mb_loops := ls, mb_loops := ls'\<rparr>) = fw_mapper name" for ls ls'
    by (simp add: new_mounted_def fw_mapper_def)
  have read: "spec (mapped_to be k rp name fw node) (do { ok \<leftarrow> HasEROFS K node;
      if \<not> ok then release_fail K b msg else mount_node K b name node }) (\<lambda>_. keyed be k rp)" for node b msg
  proof (rule spec_bind [OF erofs_read_spec])
    fix ok
    have "spec (mapped_to be k rp name fw node) (release_fail K b msg) (\<lambda>_. keyed be k rp)"
      by (rule spec_mono [OF spec_keyed [OF emits_free_release(2)]]) (auto simp: mapped_to_def dest: cleared_keyed)
    then show "spec (mapped_to be k rp name fw node) (if \<not> ok then release_fail K b msg else mount_node K b name node) (\<lambda>_. keyed be k rp)"
      using mount_node_spec by simp
  qed
  have opened: "spec (cleared be k rp name fw) (do { v \<leftarrow> OpenVerity K (fw_mapper name) d h (bd_verity_hash fw);
      case v of Inl e \<Rightarrow> release_fail K b msg
      | Inr node \<Rightarrow> do { ok \<leftarrow> HasEROFS K node; if \<not> ok then release_fail K b msg else mount_node K b name node } })
      (\<lambda>_. keyed be k rp)" for d h b msg
  proof (rule spec_bind [OF open_bundle_spec])
    fix v :: "error + string"
    show "spec (\<lambda>t. cleared be k rp name fw t \<and> (\<forall>node. v = Inr node \<longrightarrow> mapped_to be k rp name fw node t))
      (case v of Inl e \<Rightarrow> release_fail K b msg
      | Inr node \<Rightarrow> do { ok \<leftarrow> HasEROFS K node; if \<not> ok then release_fail K b msg else mount_node K b name node }) (\<lambda>_. keyed be k rp)"
    proof (cases v)
      case (Inl e)
      then show ?thesis by simp (rule spec_mono [OF spec_cleared_end [OF emits_free_release(2)]], auto)
    next
      case (Inr node)
      then show ?thesis by simp (rule spec_mono [OF read], auto)
    qed
  qed
  have stop: "spec (cleared be k rp name fw) (pure x) (\<lambda>_. keyed be k rp)" for x :: "error + mounted_bundle"
    by (rule spec_pure) (rule cleared_keyed)
  show ?thesis
    unfolding mountBundle_def Let_def
    by (intro kept_then [OF kept_cleared emits_plain_loops(1) [THEN emits_plain_free]] spec_case_sum stop
        spec_cleared_end [OF emits_free_release(2)])
      (simp only: mapper, rule opened)
qed

lemma handle_bundle_spec: "spec (keyed be k rp) (handle_bundle be rp release st dir) (\<lambda>_. keyed be k rp)"
proof -
  have keep: "spec (keyed be k rp) (pure x) (\<lambda>_. keyed be k rp)" for x :: bundle_state
    by (rule spec_pure)
  have cont: "spec (\<lambda>t. keyed be k rp t \<and> (\<forall>fw. v = Inr fw \<longrightarrow> cleared be k rp name fw t))
      (case v of Inl e \<Rightarrow> pure st
       | Inr fw \<Rightarrow> if \<not> ValidRootHash (bd_verity_hash fw) then pure st
           else do { r \<leftarrow> mountBundle K name img hash (bd_verity_hash fw);
                     case r of Inl e \<Rightarrow> pure st | Inr b \<Rightarrow> sort_bundle K release st b }) (\<lambda>_. keyed be k rp)"
    for v :: "error + bundle_spec" and K name img hash
  proof (cases v)
    case (Inr fw)
    have "spec (cleared be k rp name fw) (do { r \<leftarrow> mountBundle K name img hash (bd_verity_hash fw);
        case r of Inl e \<Rightarrow> pure st | Inr b \<Rightarrow> sort_bundle K release st b }) (\<lambda>_. keyed be k rp)"
      by (rule spec_bind [OF mountBundle_spec]) (intro spec_case_sum keep spec_keyed emits_free_sort_bundle)
    with Inr show ?thesis by (auto intro: spec_mono spec_mono [OF keep])
  qed (auto intro: spec_mono [OF keep])
  show ?thesis
    unfolding handle_bundle_def Let_def
    by (rule kept_then [OF kept_keyed emits_plain_exists [THEN emits_plain_free]])
      (intro spec_if keep spec_bind [OF verify_bundle_spec] cont)
qed

lemma handle_bundles_spec: "spec (keyed be k rp) (handle_bundles be rp release st dirs) (\<lambda>_. keyed be k rp)"
  by (induction dirs arbitrary: st) (auto intro: spec_pure spec_bind [OF handle_bundle_spec])

lemma MountFirmware_spec: "spec (\<lambda>t. every (fw_seal be k) t) (MountFirmware be k) (\<lambda>_ t. every (fw_seal be k) t)"
proof -
  let ?I = "\<lambda>t. every (fw_seal be k) t"
  have keep: "spec ?I (pure ()) (\<lambda>_. ?I)" by (rule spec_pure)
  have read: "spec ?I (sys_read_file (be_kernel be) k) (\<lambda>r t. ?I t \<and> (\<forall>rp. r = Inr rp \<longrightarrow> keyed be k rp t))"
    unfolding spec_def
  proof (intro allI impI, elim conjE)
    fix t r t'
    assume t: "?I t" and run: "run_state (sys_read_file (be_kernel be) k) t = (r, t')"
    from run have r: "k_read_file (be_kernel be) t k = r" and t': "t' = [Read_call k] @ t" by (auto simp: sys_read_file_def)
    have "?I t'" unfolding t' by (rule every_free [OF _ t]) simp
    moreover have "suffix t t'" unfolding t' by (rule suffix_append) simp
    ultimately show "?I t' \<and> (\<forall>rp. r = Inr rp \<longrightarrow> keyed be k rp t')" using r by (auto simp: keyed_def key_read_def)
  qed
  have tail: "spec (keyed be k rp) (do { st \<leftarrow> handle_bundles be rp release ([], []) dirs;
      apply_overlays K (be_order be (map snd (snd st))); unionFirmware K (fst st) }) (\<lambda>_. ?I)" for rp K release dirs
    by (rule spec_bind [OF handle_bundles_spec], rule kept_then [OF kept_keyed emits_free_overlays(1)],
        rule spec_mono [OF spec_keyed [OF emits_free_union]]) (auto simp: keyed_def)
  have names: "emits fw_free (kernelRelease K)" "emits fw_free (bundleDirs K root)" for K root
    unfolding kernelRelease_def bundleDirs_def by (intro emit_intros emits_free_kcall emits_free_plain; simp)+
  have rest: "spec (keyed be k rp) (do { release \<leftarrow> kernelRelease K; dirs \<leftarrow> bundleDirs K root;
      st \<leftarrow> handle_bundles be rp release ([], []) dirs; apply_overlays K (be_order be (map snd (snd st))); unionFirmware K (fst st) })
      (\<lambda>_. ?I)" for rp K root
    by (rule kept_then [OF kept_keyed names(1)], rule kept_then [OF kept_keyed names(2)], rule tail)
  have cont: "spec (\<lambda>t. ?I t \<and> (\<forall>rp. r = Inr rp \<longrightarrow> keyed be k rp t)) (case r of Inl e \<Rightarrow> pure () | Inr rp \<Rightarrow>
      do { release \<leftarrow> kernelRelease K; dirs \<leftarrow> bundleDirs K root; st \<leftarrow> handle_bundles be rp release ([], []) dirs;
           apply_overlays K (be_order be (map snd (snd st))); unionFirmware K (fst st) }) (\<lambda>_. ?I)"
    for r :: "error + string" and K root
    by (cases r) (auto intro: spec_mono [OF rest] spec_mono [OF keep])
  show ?thesis
    unfolding MountFirmware_def Let_def
    by (rule kept_then [OF kept_seal emits_plain_exists [THEN emits_plain_free]])
      (intro spec_if keep spec_bind [OF read] cont)
qed

subsection \<open>The whole boot\<close>

lemma start_init_firmware:
  "spec (\<lambda>t. every (fw_seal be ''/etc/atom-fw-root.pub'') t) (start_init be cmd unlocked) (\<lambda>_ t. every (fw_seal be ''/etc/atom-fw-root.pub'') t)"
  (is "spec ?I _ _")
proof -
  have stop: "spec ?I (Rescue K u sh) (\<lambda>_. ?I)" for K u sh
    by (rule kept_spec [OF kept_seal emits_free_Rescue])
  have switch: "spec ?I (do { e \<leftarrow> SwitchRoot K init args; case e of None \<Rightarrow> pure () | Some err \<Rightarrow> Rescue K u sh }) (\<lambda>_. ?I)" for K init args u sh
  proof (rule kept_then [OF kept_seal emits_free_SwitchRoot])
    fix e :: "error option"
    show "spec ?I (case e of None \<Rightarrow> pure () | Some err \<Rightarrow> Rescue K u sh) (\<lambda>_. ?I)"
      by (cases e) (simp_all add: stop spec_pure)
  qed
  show ?thesis
    unfolding start_init_def Let_def
    by (rule kept_then [OF kept_seal emits_plain_layout(1) [THEN emits_plain_free]]) (intro spec_if stop spec_bind [OF MountFirmware_spec] switch)
qed

lemma mount_and_start_firmware:
  "spec (\<lambda>t. every (fw_seal be ''/etc/atom-fw-root.pub'') t) (mount_and_start be cmd cfg m root)
     (\<lambda>_ t. every (fw_seal be ''/etc/atom-fw-root.pub'') t)"
  unfolding mount_and_start_def Let_def
  by (rule kept_then [OF kept_seal emits_ReleaseUnrelatedData [THEN emits_plain_free]], rule spec_case_sum,
      rule kept_spec [OF kept_seal emits_free_Rescue], rule kept_then [OF kept_seal emits_free_MountRoot], rule spec_if,
      rule kept_spec [OF kept_seal emits_free_Rescue],
      rule kept_then [OF kept_seal emits_plain_layout(2) [THEN emits_plain_free]], rule start_init_firmware)

text \<open>C3. Only vouched firmware is mounted: in every boot of the reference init, on any device and whatever
  the kernel answers, each EROFS mount other than the root goes to the directory of a bundle, comes
  from that bundle's verity mapping, whose table at that moment carries a hash that the bundle's
  signature chain vouched for under a root key read before.\<close>

theorem atom_init_firmware_vouched:
  "every (fw_seal be ''/etc/atom-fw-root.pub'') (snd (run_state (atom_init be) []))"
proof -
  let ?I = "\<lambda>t. every (fw_seal be ''/etc/atom-fw-root.pub'') t"
  have key: "emits fw_free (sintykey K)" for K
    unfolding sintykey_def by (rule emits_plain_free [OF emits_plain_first_executable])
  have "spec ?I (atom_init be) (\<lambda>_. ?I)"
    unfolding atom_init_def Let_def
    by (rule kept_then [OF kept_seal emits_plain_boot_cmdline [THEN emits_plain_free]], rule kept_then [OF kept_seal key],
        rule kept_then [OF kept_seal emits_free_DeviceUnlocked], rule kept_then [OF kept_seal free_ops.emits_SelectRoot],
        rule spec_case_sum, rule kept_spec [OF kept_seal emits_free_Rescue], rule mount_and_start_firmware)
  then show ?thesis
    unfolding spec_def by (metis every.simps(1) prod.collapse)
qed

subsection \<open>What an overlay can name\<close>

text \<open>\<open>Clean\<close> leaves no dots in a rooted path.\<close>

lemma clean_parts_plain:
  "list_all (\<lambda>p. p \<notin> {[], ''.'', ''..''}) acc \<Longrightarrow> list_all (\<lambda>p. p \<notin> {[], ''.'', ''..''}) (clean_parts True acc ps)"
proof (induction True acc ps rule: clean_parts.induct)
  case (2 acc p ps)
  then show ?case by (cases acc) auto
qed simp

lemma clean_parts_no_slash:
  "list_all (\<lambda>p. slash \<notin> set p) acc \<Longrightarrow> list_all (\<lambda>p. slash \<notin> set p) ps \<Longrightarrow> list_all (\<lambda>p. slash \<notin> set p) (clean_parts r acc ps)"
proof (induction r acc ps rule: clean_parts.induct)
  case (2 r acc p ps)
  have "slash \<notin> set ''..''" by (simp add: slash_def)
  with 2 show ?case by (cases acc) auto
qed simp

lemma split_on_no_slash: "list_all (\<lambda>p. c \<notin> set p) (split_on c s)"
  by (induction s) (auto split: list.splits)

lemma overlay_fold_version:
  "foldl overlay_line acc ls = Some (tg, v) \<Longrightarrow> (\<And>t u. acc = Some (t, u) \<Longrightarrow> u < 2 ^ 64) \<Longrightarrow> v < 2 ^ 64"
proof (induction ls arbitrary: acc)
  case (Cons l ls)
  have "u < 2 ^ 64" if "overlay_line acc l = Some (t, u)" for t u
    using that Cons.prems(2) by (auto simp: overlay_line_def parse_uint64_def split: option.splits prod.splits if_splits)
  with Cons show ?case by simp
qed simp

text \<open>What an accepted overlay names is a clean place strictly below \<open>/usr\<close>: the target is the root,
  \<open>usr\<close> and at least one further component, none of them empty, \<open>.\<close> or \<open>..\<close>; it is not the
  firmware directory itself; and the version is a positive 64-bit number.\<close>

theorem parseOverlay_below_usr:
  assumes "parseOverlay dat = Some (target, version)"
  shows "0 < version \<and> version < 2 ^ 64 \<and> target \<noteq> ''/usr/lib/firmware'' \<and>
    (\<exists>cs. split_on slash target = [] # ''usr'' # cs \<and> cs \<noteq> [] \<and> list_all (\<lambda>c. c \<notin> {[], ''.'', ''..''}) cs)"
proof -
  from assms have fold: "foldl overlay_line (Some ([], 0)) (split_on newline dat) = Some (target, version)"
    and v: "version \<noteq> 0" and clean: "path_clean target = target" and usr: "has_prefix ''/usr/'' target"
    and fw: "target \<noteq> ''/usr/lib/firmware''"
    by (auto simp: parseOverlay_def eq_commute [of _ "path_clean _"] split: option.splits if_splits)
  have v64: "version < 2 ^ 64" by (rule overlay_fold_version [OF fold]) simp
  define parts where "parts = clean_parts True [] (split_on slash target)"
  from usr obtain rest where rest: "target = slash # ''usr'' @ slash # rest" by (auto simp: has_prefix_iff slash_def)
  then have "path_clean target = slash # join_with [slash] parts"
    by (simp add: path_clean_def parts_def Let_def has_prefix_iff)
  with clean rest have body: "join_with [slash] parts = ''usr'' @ slash # rest" by simp
  then have "parts \<noteq> []" by auto
  moreover have "\<forall>s \<in> set parts. slash \<notin> set s"
    using clean_parts_no_slash [of "[]" "split_on slash target" True] split_on_no_slash [of slash target] by (simp add: parts_def list_all_iff)
  ultimately have "split_on slash (''usr'' @ slash # rest) = parts"
    using split_on_join [of parts slash] body by simp
  moreover have "slash \<notin> set ''usr''" by (simp add: slash_def)
  ultimately have parts: "parts = ''usr'' # split_on slash rest" using split_on_append [of slash "''usr''" rest] by simp
  have "list_all (\<lambda>p. p \<notin> {[], ''.'', ''..''}) parts" unfolding parts_def by (rule clean_parts_plain) simp
  with parts have "list_all (\<lambda>c. c \<notin> {[], ''.'', ''..''}) (split_on slash rest)" by simp
  moreover have "split_on slash target = [] # ''usr'' # split_on slash rest"
    using rest \<open>slash \<notin> set ''usr''\<close> split_on_append [of slash "''usr''" rest] by simp
  ultimately show ?thesis using v v64 fw by (intro conjI exI [of _ "split_on slash rest"]) auto
qed

theorem parseOverlay_below_usr_witness:
  "0 < (3 :: nat) \<and> 3 < (2 :: nat) ^ 64 \<and> ''/usr/lib/modules'' \<noteq> ''/usr/lib/firmware'' \<and>
    (\<exists>cs. split_on slash ''/usr/lib/modules'' = [] # ''usr'' # cs \<and> cs \<noteq> [] \<and> list_all (\<lambda>c. c \<notin> {[], ''.'', ''..''}) cs)"
proof -
  let ?dat = "''target=/usr/lib/modules'' @ [newline] @ ''version=3''"
  have lines: "split_on newline ?dat = [''target=/usr/lib/modules'', ''version=3'']"
    by code_simp
  have t: "overlay_line (Some ([], 0)) ''target=/usr/lib/modules'' = Some (''/usr/lib/modules'', 0)"
    by code_simp
  have "str_cut (CHR ''='') (trim_space ''version=3'') = Some (''version'', ''3'')" "atoi_digits ''3'' = Some 3"
    by code_simp+
  then have v: "overlay_line (Some (''/usr/lib/modules'', 0)) ''version=3'' = Some (''/usr/lib/modules'', 3)"
    by (simp add: overlay_line_def parse_uint64_def)
  have "path_clean ''/usr/lib/modules'' = ''/usr/lib/modules''" "has_prefix ''/usr/'' ''/usr/lib/modules''"
    by code_simp+
  with t v have "parseOverlay ?dat = Some (''/usr/lib/modules'', 3)"
    unfolding parseOverlay_def lines by simp
  from parseOverlay_below_usr [OF this] show ?thesis .
qed

end
