(* ===== verification/Auditlog.thy ===== *)
theory Auditlog
  imports Wal
begin

section \<open>The update history\<close>

text \<open>
  internal/audit/audit.go: one JSON line per transition, appended to a log that is read back
  whole. The clock's text is an argument.
\<close>

record event_line =
  ev_time :: string
  ev_action :: string
  ev_detail :: string

definition zero_event :: event_line where
  "zero_event = \<lparr>ev_time = [], ev_action = [], ev_detail = []\<rparr>"

definition enc_event :: "event_line \<Rightarrow> json" where
  "enc_event e = JObj [(''time'', JStr (ev_time e)), (''action'', JStr (ev_action e)), (''detail'', JStr (ev_detail e))]"

definition dec_event :: "event_line decoder" where
  "dec_event = decode_fields
     [(''time'', field ev_time ev_time_update dec_str), (''action'', field ev_action ev_action_update dec_str),
      (''detail'', field ev_detail ev_detail_update dec_str)]"

text \<open>\<open>O_CREATE|O_APPEND\<close>: a new file, or the one that is there, written at its end.\<close>

definition open_append :: "path \<Rightarrow> nat io" where
  "open_append p = sys_call (\<lambda>w. case dk_names (w_disk w) p of
     None \<Rightarrow> (Inr (dk_next (w_disk w)), put_disk (new_inode p (w_disk w)) w)
   | Some i \<Rightarrow> (Inr i, w))"

definition event_text :: "event_line \<Rightarrow> string" where
  "event_text e = json_compact (enc_event e) @ [newline]"

definition Append :: "path \<Rightarrow> string \<Rightarrow> string \<Rightarrow> string \<Rightarrow> unit io" where
  "Append p action detail now =
     (let e = \<lparr>ev_time = now, ev_action = action, ev_detail = detail\<rparr> in
      seqE (mkdir_all (path_dir p)) (\<lambda>_.
      seqE (open_append p) (\<lambda>f.
      deferred (fwrite f (event_text e)) (fclose f))))"

text \<open>The lines that decode; the others are skipped.\<close>

definition line_event :: "string \<Rightarrow> event_line option" where
  "line_event line = (case err_bind (json_parse line) (\<lambda>j. dec_event j zero_event) of Inl e \<Rightarrow> None | Inr ev \<Rightarrow> Some ev)"

definition log_events :: "string \<Rightarrow> event_line list" where
  "log_events b = List.map_filter (\<lambda>line. if line = [] then None else line_event line) (split_on newline (trim_space b))"

definition audit_Read :: "path \<Rightarrow> event_line list io" where
  "audit_Read p = trying (read_file p) (\<lambda>r. case r of
     Inl e \<Rightarrow> if errors_Is e ENOENT then ret [] else throw e
   | Inr b \<Rightarrow> ret (log_events b))"

subsection \<open>The log as lines\<close>

definition visible :: "string \<Rightarrow> bool" where
  "visible s \<longleftrightarrow> list_all (\<lambda>c. 0x20 \<le> byte c) s"

lemma visible_append [simp]: "visible (a @ b) \<longleftrightarrow> visible a \<and> visible b" "visible []"
  by (simp_all add: visible_def)

lemma escape_visible: "byte y < 128 \<Longrightarrow> visible (escape_byte y)"
proof -
  assume y: "byte y < 128"
  have hex: "0x20 \<le> byte (hex_digit n)" if "n < 16" for n using that by (simp add: hex_digit_def)
  have lit: "visible [backslash, CHR ''b'']" "visible [backslash, CHR ''f'']" "visible [backslash, CHR ''n'']" "visible [backslash, CHR ''r'']"
    "visible [backslash, CHR ''t'']" "visible [backslash, CHR ''u'', CHR ''0'', CHR ''0'']" "visible [backslash, quote_mark]" "visible [backslash, backslash]"
    by (simp_all add: visible_def backslash_def quote_mark_def byte_def)
  have "visible ([backslash, CHR ''u'', CHR ''0'', CHR ''0''] @ [hex_digit (byte y div 16), hex_digit (byte y mod 16)])"
    unfolding visible_append using lit(6) hex [of "byte y div 16"] hex [of "byte y mod 16"] y by (simp add: visible_def)
  with lit show ?thesis unfolding escape_byte_def by (auto simp del: visible_append)
qed

lemma json_chars_visible: "visible (json_chars k s)"
proof (induction k s rule: json_chars.induct)
  case (1 k d s)
  have lit: "visible (backslash # ''ufffd'')" "visible (backslash # ''u2028'')" "visible (backslash # ''u2029'')"
    by (simp_all add: visible_def backslash_def byte_def)
  show ?case
  proof (cases "byte d < 0x80")
    case True
    then have "json_chars (Suc k) (d # s) = (if safe_byte d then [d] else escape_byte d) @ json_chars k s" by simp
    moreover have "visible (if safe_byte d then [d] else escape_byte d)"
      using True escape_visible [of d] by (simp add: visible_def safe_byte_def)
    ultimately show ?thesis using "1.IH"(1) [OF True] by (simp del: json_chars.simps)
  next
    case False
    show ?thesis
    proof (cases "utf8_size (d # s)")
      case 0
      then have "json_chars (Suc k) (d # s) = (backslash # ''ufffd'') @ json_chars k s" using False by (simp del: utf8_size.simps)
      with "1.IH"(2) [OF False 0] lit show ?thesis by (simp del: json_chars.simps append_Cons)
    next
      case (Suc j)
      then have "json_chars (Suc k) (d # s) =
          (if take 3 (d # s) = utf8_encode 0x2028 then backslash # ''u2028''
           else if take 3 (d # s) = utf8_encode 0x2029 then backslash # ''u2029'' else take (Suc j) (d # s)) @ json_chars k (drop j s)"
        using False by (simp del: utf8_size.simps)
      moreover have "128 \<le> byte x" if "x \<in> set (take (Suc j) (d # s))" for x
        using utf8_size_high [of d s x] that Suc False by (simp del: utf8_size.simps)
      then have "visible (take (Suc j) (d # s))" by (fastforce simp: visible_def list_all_iff simp del: take_Suc_Cons)
      ultimately show ?thesis using "1.IH"(3) [OF False Suc] lit by (simp del: json_chars.simps append_Cons take_Suc_Cons)
    qed
  qed
qed simp_all

definition text_event :: "event_line \<Rightarrow> bool" where
  "text_event e \<longleftrightarrow> list_all utf8_text [ev_time e, ev_action e, ev_detail e]"

lemma line_shape:
  obtains b where "json_compact (enc_event e) = CHR ''{'' # b @ ''}''" "newline \<notin> set (json_compact (enc_event e))"
proof
  let ?b = "join_with '','' (map (\<lambda>(k, j). json_string k @ '':'' @ json_print (\<lambda>_. []) [] 1 j)
    [(''time'', JStr (ev_time e)), (''action'', JStr (ev_action e)), (''detail'', JStr (ev_detail e))])"
  show eq: "json_compact (enc_event e) = CHR ''{'' # ?b @ ''}''"
    by (simp add: json_compact_def enc_event_def)
  have "newline \<notin> set (json_string s)" for s
    using json_chars_visible [of "length s" s] by (auto simp: visible_def list_all_iff json_string_def newline_def quote_mark_def byte_def)
  then show "newline \<notin> set (json_compact (enc_event e))"
    unfolding eq by (simp add: newline_def)
qed

lemma line_event_text: "text_event e \<Longrightarrow> line_event (json_compact (enc_event e)) = Some e"
proof -
  assume e: "text_event e"
  have "ascii ''time''" "ascii ''action''" "ascii ''detail''" by code_simp+
  with e have "wf_json (enc_event e)" by (simp add: enc_event_def text_event_def)
  with json_parse_compact [of "enc_event e" "[]"] have "json_parse (json_compact (enc_event e)) = Inr (enc_event e)"
    by (simp add: skip_ws_def)
  moreover have "dec_event (enc_event e) zero_event = Inr e"
    by (cases e) (simp add: dec_event_def enc_event_def decode_eval zero_event_def)
  ultimately show ?thesis by (simp add: line_event_def)
qed

subsection \<open>White space at the end\<close>

definition rtrim :: "string \<Rightarrow> string" where
  "rtrim s = rev (dropWhile is_space (rev s))"

lemma rtrim_append: "rtrim (a @ b) = (if rtrim b = [] then rtrim a else a @ rtrim b)"
  by (simp add: rtrim_def dropWhile_append dropWhile_eq_Nil_conv)

lemma trim_space_rtrim: "s \<noteq> [] \<Longrightarrow> \<not> is_space (hd s) \<Longrightarrow> trim_space s = rtrim s"
  by (cases s) (simp_all add: trim_space_def rtrim_def)

definition log_text :: "event_line list \<Rightarrow> string" where
  "log_text es = concat (map event_text es)"

lemma split_log_text:
  "split_on newline (log_text es @ t) = map (\<lambda>e. json_compact (enc_event e)) es @ split_on newline t"
proof (induction es)
  case (Cons e es)
  obtain b where "newline \<notin> set (json_compact (enc_event e))" by (rule line_shape)
  with Cons show ?case by (simp add: log_text_def event_text_def)
qed (simp add: log_text_def)

text \<open>Whatever follows the complete lines of a log, they are read back.\<close>

lemma log_events_prefix:
  assumes "list_all text_event es"
  shows "\<exists>more. log_events (log_text es @ t) = es @ more \<and> (t = [] \<longrightarrow> more = [])"
proof (cases es rule: rev_cases)
  case Nil
  have "split_on newline (trim_space []) = [[]]" by (simp add: trim_space_def)
  then show ?thesis using Nil by (auto simp: log_text_def log_events_def List.map_filter_def)
next
  case (snoc fs e)
  let ?u = "log_text fs @ json_compact (enc_event e)"
  have log: "log_text es @ t = ?u @ newline # t" by (simp add: snoc log_text_def event_text_def)
  obtain b where b: "json_compact (enc_event e) = CHR ''{'' # b @ ''}''" "newline \<notin> set (json_compact (enc_event e))" by (rule line_shape)
  have first: "\<not> is_space (hd ?u) \<and> ?u \<noteq> []"
  proof (cases fs)
    case Nil
    then show ?thesis by (simp add: b log_text_def is_space_def)
  next
    case (Cons f fs')
    obtain c where "json_compact (enc_event f) = CHR ''{'' # c @ ''}''" by (rule line_shape)
    with Cons show ?thesis by (simp add: log_text_def event_text_def is_space_def)
  qed
  have end1: "rtrim ?u = ?u" unfolding b by (simp add: rtrim_def is_space_def)
  let ?f = "\<lambda>line. if line = [] then None else line_event line"
  have lines: "List.map_filter ?f (map (\<lambda>e. json_compact (enc_event e)) es @ ls) = es @ List.map_filter ?f ls" for ls
    using assms
  proof (induction es)
    case (Cons f es)
    obtain c where "json_compact (enc_event f) = CHR ''{'' # c @ ''}''" by (rule line_shape)
    with Cons line_event_text [of f] show ?case by (simp add: List.map_filter_simps)
  qed simp
  have u: "split_on newline ?u = map (\<lambda>e. json_compact (enc_event e)) es"
    using split_log_text [of fs "json_compact (enc_event e)"] split_on_no_sep [OF b(2)] by (simp add: snoc)
  have "trim_space (log_text es @ t) = rtrim (?u @ newline # t)"
    unfolding log by (rule trim_space_rtrim) (use first in \<open>simp_all only: hd_append2 append_is_Nil_conv not_False_eq_True simp_thms\<close>)
  also have "\<dots> = (if rtrim (newline # t) = [] then ?u else ?u @ rtrim (newline # t))"
    unfolding rtrim_append [of ?u] end1 ..
  finally have trim: "trim_space (log_text es @ t) = (if rtrim (newline # t) = [] then ?u else ?u @ rtrim (newline # t))" .
  have nl: "rtrim (newline # t) = (if rtrim t = [] then [] else newline # rtrim t)"
    using rtrim_append [of "[newline]" t] by (simp add: rtrim_def is_space_def newline_def)
  show ?thesis
  proof (cases "rtrim t = []")
    case True
    then have "log_events (log_text es @ t) = es" using trim nl u lines [of "[]"] by (simp add: log_events_def)
    then show ?thesis by (intro exI [of _ "[]"]) simp
  next
    case False
    have "?u @ newline # rtrim t = log_text es @ rtrim t" by (simp add: snoc log_text_def event_text_def)
    with trim nl False have "trim_space (log_text es @ t) = log_text es @ rtrim t" by simp
    then have "log_events (log_text es @ t) = es @ List.map_filter ?f (split_on newline (rtrim t))"
      unfolding log_events_def by (simp only: split_log_text lines)
    moreover have "t \<noteq> []" using False by (auto simp: rtrim_def)
    ultimately show ?thesis by blast
  qed
qed

subsection \<open>Appending\<close>

definition log_at :: "disk \<Rightarrow> path \<Rightarrow> string" where
  "log_at h p = (case file_data h p of None \<Rightarrow> [] | Some s \<Rightarrow> s)"

lemma wp_Append:
  assumes "wf_disk (w_disk w)"
  shows "wp (Append p a d n) (\<lambda>r w'.
     evolves (\<lambda>h. log_at h p \<in> {log_at (w_disk w) p, log_at (w_disk w) p @ event_text \<lparr>ev_time = n, ev_action = a, ev_detail = d\<rparr>}) w w' \<and>
     (r = Inr () \<longrightarrow> log_at (w_disk w') p = log_at (w_disk w) p @ event_text \<lparr>ev_time = n, ev_action = a, ev_detail = d\<rparr>)) w"
  unfolding Append_def Let_def using assms
  by (auto simp: wp_simps sys_defs open_append_def log_at_def file_data_def lookup_def wf_disk_def split: option.splits)

lemma audit_Read_log:
  "w_faults w = [] \<Longrightarrow> audit_Read p w = (Inr (log_events (log_at (w_disk w) p)), w)"
proof -
  assume w: "w_faults w = []"
  have "log_events [] = []" by (simp add: log_events_def trim_space_def List.map_filter_def)
  with w show ?thesis
    by (auto simp: audit_Read_def trying_def read_file_def sys_call_def log_at_def file_data_def ret_def throw_def split: option.splits)
qed

text \<open>C35. The update history is never lost.  Take a log that begins with the lines of some
  events, followed by anything at all (for instance a line torn by a crash), and append one more
  event, under any pattern of failures: at every moment the earlier events are read back first,
  in order.  When the log had no torn end and the append reported success, the history is the
  earlier events followed by the new one.\<close>

theorem audit_history_kept:
  assumes "wf_disk (w_disk w)" and "list_all text_event es"
    and "text_event \<lparr>ev_time = n, ev_action = a, ev_detail = d\<rparr>"
    and "log_at (w_disk w) p = log_text es @ torn" and "Append p a d n w = (r, w')"
  shows "evolves (\<lambda>h. take (length es) (log_events (log_at h p)) = es) w w' \<and>
     (r = Inr () \<and> torn = [] \<and> w_faults w' = [] \<longrightarrow>
      audit_Read p w' = (Inr (es @ [\<lparr>ev_time = n, ev_action = a, ev_detail = d\<rparr>]), w'))"
proof -
  let ?e = "\<lparr>ev_time = n, ev_action = a, ev_detail = d\<rparr>"
  note run = wpD [OF wp_Append [OF assms(1)] assms(5), unfolded assms(4)]
  have kept: "take (length es) (log_events (log_text es @ t)) = es" for t
    using log_events_prefix [OF assms(2), of t] by auto
  have "evolves (\<lambda>h. take (length es) (log_events (log_at h p)) = es) w w'"
    using kept [of torn] kept [of "torn @ event_text ?e"] run by (auto elim!: evolves_mono)
  moreover have "audit_Read p w' = (Inr (es @ [?e]), w')" if "r = Inr ()" "torn = []" "w_faults w' = []"
  proof -
    from that run have "log_at (w_disk w') p = log_text (es @ [?e]) @ []" by (simp add: log_text_def)
    moreover have "list_all text_event (es @ [?e])" using assms(2,3) by simp
    ultimately have "log_events (log_at (w_disk w') p) = es @ [?e]"
      using log_events_prefix [of "es @ [?e]" "[]"] by (metis append_Nil2)
    then show ?thesis using audit_Read_log [OF that(3)] by simp
  qed
  ultimately show ?thesis by blast
qed

definition sample_log :: path where
  "sample_log = [''var'', ''history'']"

definition sample_event :: event_line where
  "sample_event = \<lparr>ev_time = ''2026-01-01T00:00:00Z'', ev_action = ''stage'', ev_detail = ''v43''\<rparr>"

lemma sample_event_text: "text_event sample_event"
  by code_simp

lemma audit_history_kept_witness:
  "let d = put_file sample_log (event_text sample_event @ ''{torn'') empty_disk in
   evolves (\<lambda>h. take 1 (log_events (log_at h sample_log)) = [sample_event]) (world_of d)
     (snd (Append sample_log ''stage'' ''v43'' ''2026-01-01T00:00:00Z'' (world_of d)))"
  unfolding Let_def
  using audit_history_kept [OF _ _ _ _ prod.collapse [symmetric],
      of "world_of (put_file sample_log (event_text sample_event @ ''{torn'') empty_disk)" "[sample_event]"
      "''2026-01-01T00:00:00Z''" "''stage''" "''v43''" sample_log "''{torn''"] sample_event_text
  by (simp add: log_text_def log_at_def file_data_def lookup_put_file flip: sample_event_def)

end
