(* ===== verification/Members.thy ===== *)
theory Members
  imports Wal
begin

section \<open>Members of a JSON object, written and read back\<close>

text \<open>
  What a decoder of package \<open>encoding/json\<close> reads of the members an encoder wrote: a text comes
  back with its invalid bytes replaced, a number when it fits into 64 bits, and a member left
  out by \<open>omitempty\<close> leaves the zero value in place.
\<close>

definition omit_zero :: "string \<Rightarrow> int \<Rightarrow> (string \<times> json) list" where
  "omit_zero k n = (if n = 0 then [] else [(k, JInt n)])"

definition coerce_members :: "(string \<times> json) list \<Rightarrow> (string \<times> json) list" where
  "coerce_members = map (\<lambda>(k, j). (k, coerce_json j))"

lemma coerce_members_append [simp]: "coerce_members (a @ b) = coerce_members a @ coerce_members b"
  by (simp add: coerce_members_def)

lemma decode_append: "decode_members fs (ms @ ns) x = err_bind (decode_members fs ms x) (decode_members fs ns)"
proof (induction ms arbitrary: x)
  case (Cons m ms)
  obtain k j where m: "m = (k, j)" by (cases m)
  show ?case
  proof (cases "find_field fs k")
    case (Some f)
    then show ?thesis using Cons by (cases "f j x") (simp_all add: m)
  qed (use Cons in \<open>simp add: m\<close>)
qed simp

lemma decode_str:
  "find_field fs k = Some (field g u dec_str) \<Longrightarrow> decode_members fs (coerce_members [(k, JStr s)]) x = Inr (u (\<lambda>_. coerced s) x)"
  by (simp add: coerce_members_def field_def dec_str_def)

lemma decode_omitempty:
  assumes "find_field fs k = Some (field g u dec_str)" and "u (\<lambda>_. []) x = x"
  shows "decode_members fs (coerce_members (omitempty k s)) x = Inr (u (\<lambda>_. coerced s) x)"
  using assms(2) decode_str [OF assms(1)] by (simp add: omitempty_def coerce_members_def)

lemma atoi_itoa_any: "atoi (itoa n) = (if int64_range n then Some n else None)"
proof (cases "n < 0")
  case True
  then show ?thesis by (simp add: itoa_def atoi_def)
next
  case False
  obtain c t where ct: "nat_str (nat n) = c # t" "is_digit c"
    using nat_str_first by blast
  then have "c \<noteq> CHR ''-''" "c \<noteq> CHR ''+''" by auto
  moreover have "atoi_digits (c # t) = Some (nat n)"
    using atoi_digits_nat_str [of "nat n"] ct by simp
  ultimately show ?thesis
    using False ct by (simp add: itoa_def atoi_def)
qed

lemma decode_int:
  assumes "find_field fs k = Some (field g u dec_int)"
  shows "decode_members fs (coerce_members [(k, JInt n)]) x =
     (if int64_range n then Inr (u (\<lambda>_. n) x) else Inl json_type_error)"
proof -
  have "dec_int (JNum (itoa n)) v = (if int64_range n then Inr n else Inl json_type_error)" for v
    by (simp add: dec_int_def atoi_itoa_any)
  then show ?thesis using assms by (simp add: coerce_members_def field_def JInt_def)
qed

lemma decode_omit_zero:
  assumes "find_field fs k = Some (field g u dec_int)" and "u (\<lambda>_. 0) x = x"
  shows "decode_members fs (coerce_members (omit_zero k n)) x =
     (if int64_range n then Inr (u (\<lambda>_. n) x) else Inl json_type_error)"
  using assms(2) decode_int [OF assms(1)] by (simp add: omit_zero_def coerce_members_def int64_range_def)

end
