(* ===== verification/Feed.thy ===== *)
theory Feed
  imports RecoveryImage Loader Members
begin

section \<open>The update agent: the feed and its status\<close>

text \<open>
  cmd/updated/main.go: the signed feed, the status shown to the user and its file. The client of
  package \<open>net/http\<close>, which follows redirects itself, is the parameter \<open>ua_client\<close>; an answer
  is what is left after them. The texts of errnos are a parameter too.
\<close>

record agent_env =
  ua_env :: env
  ua_client :: network
  ua_pe :: pe_reader
  ua_pid :: nat
  ua_root :: string
  ua_errno :: "errno \<Rightarrow> string"

record agent_cfg =
  uc_feed :: string
  uc_current :: string
  uc_sock :: path
  uc_state :: path
  uc_wal :: path
  uc_rootfs :: path
  uc_esp :: path
  uc_firmware :: path
  uc_stage_lock :: path
  uc_history :: path

definition defaultWAL :: path where
  "defaultWAL = [''boot'', ''rootfs'', ''deployment.json'']"

definition os_release_path :: path where
  "os_release_path = [''etc'', ''os-release'']"

subsection \<open>The status\<close>

record status =
  st_state :: string
  st_current :: string
  st_latest :: string
  st_product_name :: string
  st_product_version :: string
  st_product_build :: string
  st_consent_token :: string
  st_percent :: int
  st_error :: string
  st_loader_available :: int
  st_manifest :: string
  st_retryable :: bool

definition zero_status :: status where
  "zero_status = \<lparr>st_state = [], st_current = [], st_latest = [], st_product_name = [], st_product_version = [],
     st_product_build = [], st_consent_token = [], st_percent = 0, st_error = [], st_loader_available = 0,
     st_manifest = [], st_retryable = False\<rparr>"

definition consent_prefix :: string where
  "consent_prefix = ''sinty-update-consent-v1:''"

definition consent_token :: "crypto \<Rightarrow> string \<Rightarrow> string" where
  "consent_token cr manifest = hex_encode (sha256 cr (consent_prefix @ manifest))"

definition clientStatus :: "crypto \<Rightarrow> status \<Rightarrow> status" where
  "clientStatus cr st0 =
     (let st = st0\<lparr>st_consent_token := []\<rparr> in
      if st_state st \<noteq> ''available'' \<or> st_manifest st = [] then st
      else st\<lparr>st_consent_token := consent_token cr (st_manifest st)\<rparr>)"

subsection \<open>The feed\<close>

text \<open>\<open>transientFeedError\<close> is the one type of error that \<open>errors.As\<close> is asked for.\<close>

datatype feed_error = Transient error | Permanent error

primrec feed_cause :: "feed_error \<Rightarrow> error" where
  "feed_cause (Transient e) = e"
| "feed_cause (Permanent e) = e"

primrec error_text :: "(errno \<Rightarrow> string) \<Rightarrow> error \<Rightarrow> string" where
  "error_text tx (Sys n) = tx n"
| "error_text tx (Errorf s) = s"
| "error_text tx (Wrap s e) = s @ '': '' @ error_text tx e"

text \<open>\<open>feedE\<close> is \<open>seqE\<close> for results that carry a feed error.\<close>

definition feedE :: "(feed_error + 'a) io \<Rightarrow> ('a \<Rightarrow> (feed_error + 'b) io) \<Rightarrow> (feed_error + 'b) io" where
  "feedE m k = seqE m (\<lambda>r. case r of Inl e \<Rightarrow> ret (Inl e) | Inr x \<Rightarrow> k x)"

definition feed_limit :: nat where
  "feed_limit = 1048576"

definition transient_code :: "int \<Rightarrow> bool" where
  "transient_code code \<longleftrightarrow> code = 408 \<or> code = 429 \<or> 500 \<le> code"

definition fetchBytes :: "agent_env \<Rightarrow> string \<Rightarrow> (feed_error + string) io" where
  "fetchBytes ae url =
     trying (request (ua_client ae) url) (\<lambda>r. case r of
         Inl e \<Rightarrow> ret (Inl (Transient e))
       | Inr resp \<Rightarrow>
           if rp_status resp \<noteq> 200 then
             (let err = Errorf (url @ '': status '' @ itoa (rp_status resp)) in
              ret (Inl (if transient_code (rp_status resp) then Transient err else Permanent err)))
           else if rp_broken resp \<and> length (rp_body resp) < feed_limit
           then ret (Inl (Transient (Errorf ''unexpected EOF'')))
           else ret (Inr (take feed_limit (rp_body resp))))"

definition trim_slashes :: "string \<Rightarrow> string" where
  "trim_slashes u = rev (dropWhile (\<lambda>c. c = CHR ''/'') (rev u))"

definition feed_get :: "agent_env \<Rightarrow> string \<Rightarrow> string \<Rightarrow> (feed_error + string) io" where
  "feed_get ae feed name = fetchBytes ae (trim_slashes feed @ ''/'' @ name)"

text \<open>The signed manifest and the digest of its text.\<close>

definition verifiedManifest :: "agent_env \<Rightarrow> string \<Rightarrow> (feed_error + manifest \<times> string) io" where
  "verifiedManifest ae feed =
     (let cr = e_crypto (ua_env ae) in
      feedE (feed_get ae feed ''signing-cert.json'') (\<lambda>certData.
      feedE (feed_get ae feed ''signing-cert.json.sig'') (\<lambda>certSig.
      case VerifyCert cr certData certSig (ua_root ae) (e_now (ua_env ae) 0) of
        Inl e \<Rightarrow> ret (Inl (Permanent (Wrap ''signing cert'' e)))
      | Inr (signingPub, _) \<Rightarrow>
      feedE (feed_get ae feed ''manifest.json'') (\<lambda>mData.
      feedE (feed_get ae feed ''manifest.json.sig'') (\<lambda>mSig.
      if \<not> Verify cr mData mSig signingPub then ret (Inl (Permanent (Errorf ''manifest signature invalid -- refusing'')))
      else (case ParseManifest mData of
              Inl e \<Rightarrow> ret (Inl (Permanent e))
            | Inr m \<Rightarrow> ret (Inr (m, hex_encode (sha256 cr mData)))))))))"

subsection \<open>The installed version\<close>

definition agent_versionNum :: "string \<Rightarrow> int option" where
  "agent_versionNum v = (let ds = trailing_digits v in if ds = [] then None else atoi ds)"

definition newer :: "string \<Rightarrow> string \<Rightarrow> bool" where
  "newer a b =
    (case (agent_versionNum a, agent_versionNum b) of
       (Some na, Some nb) \<Rightarrow> nb < na
     | _ \<Rightarrow> a \<noteq> b \<and> b < a)"

text \<open>The part of the record the agent reads.\<close>

record wal_rootfs =
  wr_current :: string
  wr_pending :: string

definition dec_wal_rootfs :: "wal_rootfs decoder" where
  "dec_wal_rootfs = decode_fields
     [(''rootfs'', decode_fields
        [(''current'', field wr_current wr_current_update dec_str),
         (''pending'', field wr_pending wr_pending_update dec_str)])]"

definition read_wal_rootfs :: "path \<Rightarrow> wal_rootfs option io" where
  "read_wal_rootfs wal =
     trying (read_file wal) (\<lambda>r. ret (case r of
         Inl e \<Rightarrow> None
       | Inr b \<Rightarrow> (case err_bind (json_parse b) (\<lambda>j. dec_wal_rootfs j \<lparr>wr_current = [], wr_pending = []\<rparr>) of
            Inl e \<Rightarrow> None
          | Inr d \<Rightarrow> if wr_current d \<noteq> [] then Some d else None)))"

definition trim_quotes :: "string \<Rightarrow> string" where
  "trim_quotes = trim_set (\<lambda>c. c = quote_mark)"

definition release_value :: "string \<Rightarrow> string \<Rightarrow> string option" where
  "release_value key s = map_option trim_quotes (first_option (key @ ''='') (split_on newline s))"

definition installedVersion :: "path \<Rightarrow> string io" where
  "installedVersion wal0 =
     (let wal = (if wal0 = [] then defaultWAL else wal0) in
      seqE (read_wal_rootfs wal) (\<lambda>d. case d of
        Some d \<Rightarrow>
          ret (if wr_pending d \<noteq> [] \<and> newer (wr_pending d) (wr_current d) then wr_pending d else wr_current d)
      | None \<Rightarrow>
          trying (read_file os_release_path) (\<lambda>r. ret (case r of
              Inl e \<Rightarrow> ''unknown''
            | Inr b \<Rightarrow> (case release_value ''VERSION_ID'' b of Some v \<Rightarrow> v | None \<Rightarrow> ''unknown'')))))"

definition checked_status :: "string \<Rightarrow> manifest \<Rightarrow> string \<Rightarrow> status" where
  "checked_status current m digest =
     zero_status\<lparr>st_current := current, st_latest := m_version m,
       st_state := (if newer (m_version m) current then ''available'' else ''idle''),
       st_product_name := m_product_name m, st_product_version := m_product_version m,
       st_product_build := m_product_build m, st_manifest := digest, st_loader_available := m_loader_version m\<rparr>"

definition feed_failed :: "(errno \<Rightarrow> string) \<Rightarrow> string \<Rightarrow> feed_error \<Rightarrow> status" where
  "feed_failed tx current e = zero_status\<lparr>st_state := ''error'', st_current := current,
     st_error := error_text tx (feed_cause e), st_retryable := (case e of Transient _ \<Rightarrow> True | Permanent _ \<Rightarrow> False)\<rparr>"

definition check :: "agent_env \<Rightarrow> string \<Rightarrow> string \<Rightarrow> path \<Rightarrow> status io" where
  "check ae feed current0 wal =
     seqE (if current0 = [] then installedVersion wal else ret current0) (\<lambda>current.
     seqE (verifiedManifest ae feed) (\<lambda>r. ret (case r of
         Inl e \<Rightarrow> feed_failed (ua_errno ae) current e
       | Inr (m, digest) \<Rightarrow> checked_status current m digest)))"

definition pollOnce :: "agent_env \<Rightarrow> agent_cfg \<Rightarrow> status io" where
  "pollOnce ae c = check ae (uc_feed c) (uc_current c) (uc_wal c)"

subsection \<open>The status file\<close>

definition status_members :: "status \<Rightarrow> (string \<times> json) list" where
  "status_members s =
     [(''state'', JStr (st_state s)), (''current'', JStr (st_current s)), (''latest'', JStr (st_latest s))]
     @ omitempty ''product_name'' (st_product_name s) @ omitempty ''product_version'' (st_product_version s)
     @ omitempty ''product_build'' (st_product_build s) @ omitempty ''consent_token'' (st_consent_token s)
     @ [(''percent'', JInt (st_percent s))]
     @ omitempty ''error'' (st_error s) @ omit_zero ''loader_available'' (st_loader_available s)"

definition enc_status :: "status \<Rightarrow> json" where
  "enc_status s = JObj (status_members s)"

definition enc_stored :: "status \<Rightarrow> json" where
  "enc_stored s = JObj (status_members s @ omitempty ''manifest_sha256'' (st_manifest s))"

definition stored_fields :: "(string \<times> status decoder) list" where
  "stored_fields =
     [(''state'', field st_state st_state_update dec_str),
      (''current'', field st_current st_current_update dec_str),
      (''latest'', field st_latest st_latest_update dec_str),
      (''product_name'', field st_product_name st_product_name_update dec_str),
      (''product_version'', field st_product_version st_product_version_update dec_str),
      (''product_build'', field st_product_build st_product_build_update dec_str),
      (''consent_token'', field st_consent_token st_consent_token_update dec_str),
      (''percent'', field st_percent st_percent_update dec_int),
      (''error'', field st_error st_error_update dec_str),
      (''loader_available'', field st_loader_available st_loader_available_update dec_int),
      (''manifest_sha256'', field st_manifest st_manifest_update dec_str)]"

definition dec_stored :: "status decoder" where
  "dec_stored = decode_fields stored_fields"

definition state_text :: "status \<Rightarrow> string" where
  "state_text s = json_indent 0 (enc_stored s)"

definition text_state :: "string \<Rightarrow> status option" where
  "text_state b = (case err_bind (json_parse b) (\<lambda>j. dec_stored j zero_status) of Inl e \<Rightarrow> None | Inr s \<Rightarrow> Some s)"

definition state_tmp :: "nat \<Rightarrow> path \<Rightarrow> path" where
  "state_tmp pid p = path_suffix p (''.'' @ nat_str pid @ ''.tmp'')"

definition writeState :: "nat \<Rightarrow> path \<Rightarrow> status \<Rightarrow> unit io" where
  "writeState pid p s =
     (if p = [] then ret ()
      else seqE (ignoring (mkdir_all (path_dir p))) (\<lambda>_.
           deferred (seqE (write_file (state_tmp pid p) (state_text s)) (\<lambda>_. rename (state_tmp pid p) p))
             (remove (state_tmp pid p))))"

definition readState :: "path \<Rightarrow> status option io" where
  "readState p =
     (if p = [] then ret None
      else trying (read_file p) (\<lambda>r. ret (case r of Inl e \<Rightarrow> None | Inr b \<Rightarrow> text_state b)))"

subsection \<open>Reading a stored status back\<close>

text \<open>What is read back of a status: strings as they can be stored, and not whether to retry.\<close>

definition seen_status :: "status \<Rightarrow> status" where
  "seen_status s = s\<lparr>st_state := coerced (st_state s), st_current := coerced (st_current s), st_latest := coerced (st_latest s),
     st_product_name := coerced (st_product_name s), st_product_version := coerced (st_product_version s),
     st_product_build := coerced (st_product_build s), st_consent_token := coerced (st_consent_token s),
     st_error := coerced (st_error s), st_manifest := coerced (st_manifest s), st_retryable := False\<rparr>"

lemma stored_field [simp]:
  "find_field stored_fields ''state'' = Some (field st_state st_state_update dec_str)"
  "find_field stored_fields ''current'' = Some (field st_current st_current_update dec_str)"
  "find_field stored_fields ''latest'' = Some (field st_latest st_latest_update dec_str)"
  "find_field stored_fields ''product_name'' = Some (field st_product_name st_product_name_update dec_str)"
  "find_field stored_fields ''product_version'' = Some (field st_product_version st_product_version_update dec_str)"
  "find_field stored_fields ''product_build'' = Some (field st_product_build st_product_build_update dec_str)"
  "find_field stored_fields ''consent_token'' = Some (field st_consent_token st_consent_token_update dec_str)"
  "find_field stored_fields ''percent'' = Some (field st_percent st_percent_update dec_int)"
  "find_field stored_fields ''error'' = Some (field st_error st_error_update dec_str)"
  "find_field stored_fields ''loader_available'' = Some (field st_loader_available st_loader_available_update dec_int)"
  "find_field stored_fields ''manifest_sha256'' = Some (field st_manifest st_manifest_update dec_str)"
  by (simp_all add: find_field_def stored_fields_def)

lemma printable_stored: "printable (enc_stored s)"
proof -
  have key: "ascii ''state''" "ascii ''current''" "ascii ''latest''" "ascii ''product_name''" "ascii ''product_version''"
    "ascii ''product_build''" "ascii ''consent_token''" "ascii ''percent''" "ascii ''error''" "ascii ''loader_available''" "ascii ''manifest_sha256''"
    by code_simp+
  have om: "ascii k \<Longrightarrow> list_all (\<lambda>(k, j). utf8_text k \<and> printable j) (omitempty k v)"
    "ascii k \<Longrightarrow> list_all (\<lambda>(k, j). utf8_text k \<and> printable j) (omit_zero k n)" for k v n
    by (auto simp: omitempty_def omit_zero_def JInt_def)
  show ?thesis
    using key by (auto simp: enc_stored_def status_members_def om JInt_def)
qed

lemma status_members_split:
  "status_members s @ omitempty ''manifest_sha256'' (st_manifest s) =
     [(''state'', JStr (st_state s))] @ [(''current'', JStr (st_current s))] @ [(''latest'', JStr (st_latest s))]
     @ omitempty ''product_name'' (st_product_name s) @ omitempty ''product_version'' (st_product_version s)
     @ omitempty ''product_build'' (st_product_build s) @ omitempty ''consent_token'' (st_consent_token s)
     @ [(''percent'', JInt (st_percent s))]
     @ omitempty ''error'' (st_error s) @ omit_zero ''loader_available'' (st_loader_available s)
     @ omitempty ''manifest_sha256'' (st_manifest s)"
  by (simp add: status_members_def)

text \<open>For every status: a number no reader accepts makes the file unreadable, nothing else does.\<close>

lemma text_state_text:
  "text_state (state_text s) =
     (if int64_range (st_percent s) \<and> int64_range (st_loader_available s) then Some (seen_status s) else None)"
proof -
  have co: "coerce_json (JObj ms) = JObj (coerce_members ms)" for ms by (simp add: coerce_members_def)
  have "json_parse (state_text s) = Inr (coerce_json (enc_stored s))"
    unfolding state_text_def by (rule json_parse_indent_coerced [OF printable_stored])
  then have "text_state (state_text s) =
     (case decode_members stored_fields (coerce_members (status_members s @ omitempty ''manifest_sha256'' (st_manifest s))) zero_status of
        Inl e \<Rightarrow> None | Inr s \<Rightarrow> Some s)"
    by (simp add: text_state_def enc_stored_def co dec_stored_def decode_fields_def del: coerce_json.simps)
  also have "\<dots> = (if int64_range (st_percent s) \<and> int64_range (st_loader_available s) then Some (seen_status s) else None)"
    unfolding status_members_split coerce_members_append decode_append
    by (cases s) (simp add: decode_str decode_int decode_omitempty decode_omit_zero zero_status_def seen_status_def)
  finally show ?thesis .
qed

subsection \<open>The loader as JSON\<close>

definition path_text :: "path \<Rightarrow> string" where
  "path_text p = concat (map (\<lambda>s. CHR ''/'' # s) p)"

definition loader_members :: "loader_status \<Rightarrow> (string \<times> json) list" where
  "loader_members ls = [(''installed'', JInt (ls_installed ls))] @ omit_zero ''candidate'' (ls_candidate ls) @
     omit_zero ''failed'' (ls_failed ls) @ [(''path'', JStr (path_text (ls_path ls)))]"

end
