(* ===== verification/Updated.thy ===== *)
theory Updated
  imports Feed "HOL-Library.Multiset"
begin

section \<open>The update agent: its operations\<close>

text \<open>
  cmd/updated: the staging lock, the store of statuses behind the mutex (each method is one
  critical section and one definition over the store), staging, history, and the socket. Whether
  another open file holds the lock is an argument; the handlers of HTTP requests and the
  interleaving of everything are in theories \<open>Server\<close> and \<open>Agent\<close>.
\<close>

subsection \<open>The staging lock\<close>

datatype stage_error = Stage_busy | Stage_failed error

text \<open>\<open>O_CREATE\<close> without truncation: the file that is there, or a new empty one.\<close>

definition open_create :: "path \<Rightarrow> nat io" where
  "open_create p = sys_call (\<lambda>w. case dk_names (w_disk w) p of
     None \<Rightarrow> (Inr (dk_next (w_disk w)), put_disk (new_inode p (w_disk w)) w)
   | Some i \<Rightarrow> (Inr i, w))"

definition flock :: "bool \<Rightarrow> bool io" where
  "flock busy = sys_call (\<lambda>w. (Inr (\<not> busy), w))"

text \<open>\<open>None\<close>: the lock is held now.\<close>

definition acquireStageLock :: "bool \<Rightarrow> path \<Rightarrow> stage_error option io" where
  "acquireStageLock busy p =
     (if p = [] then ret (Some (Stage_failed (Errorf ''update staging lock path is empty'')))
      else trying (mkdir_all (path_dir p)) (\<lambda>r. case r of
          Inl e \<Rightarrow> ret (Some (Stage_failed (Wrap ''create update lock directory'' e)))
        | Inr _ \<Rightarrow>
      trying (open_create p) (\<lambda>r. case r of
          Inl e \<Rightarrow> ret (Some (Stage_failed (Wrap ''open update staging lock'' e)))
        | Inr lock \<Rightarrow>
      trying (flock busy) (\<lambda>r. case r of
          Inl e \<Rightarrow> trying (fclose lock) (\<lambda>_. ret (Some (Stage_failed (Wrap ''lock update staging'' e))))
        | Inr False \<Rightarrow> trying (fclose lock) (\<lambda>_. ret (Some Stage_busy))
        | Inr True \<Rightarrow> ret None))))"

definition agent_dirs :: "agent_cfg \<Rightarrow> stage_dirs" where
  "agent_dirs c = \<lparr>sd_rootfs = uc_rootfs c, sd_esp = uc_esp c, sd_firmware = uc_firmware c\<rparr>"

definition manifest_url :: "agent_cfg \<Rightarrow> string" where
  "manifest_url c = trim_slashes (uc_feed c) @ ''/manifest.json''"

text \<open>What \<open>stage\<close> does once it has the lock.\<close>

definition run_stage :: "agent_env \<Rightarrow> agent_cfg \<Rightarrow> string \<Rightarrow> string io" where
  "run_stage ae c expected =
     StageExpectedManifest (ua_env ae) (uc_wal c) (manifest_url c) [] (ua_root ae) (agent_dirs c) expected"

definition as_stage_error :: "error + 'a \<Rightarrow> stage_error + 'a" where
  "as_stage_error r = (case r of Inl e \<Rightarrow> Inl (Stage_failed e) | Inr x \<Rightarrow> Inr x)"

text \<open>\<open>with_lock busy p m\<close>: \<open>m\<close> runs under the lock, which is given back on every way out.\<close>

definition with_lock :: "bool \<Rightarrow> path \<Rightarrow> 'a io \<Rightarrow> (stage_error + 'a) io" where
  "with_lock busy p m =
     seqE (acquireStageLock busy p) (\<lambda>l. case l of
         Some e \<Rightarrow> ret (Inl e)
       | None \<Rightarrow> trying m (\<lambda>r. ret (as_stage_error r)))"

definition updated_stage :: "agent_env \<Rightarrow> agent_cfg \<Rightarrow> bool \<Rightarrow> string \<Rightarrow> (stage_error + string) io" where
  "updated_stage ae c busy expected = with_lock busy (uc_stage_lock c) (run_stage ae c expected)"

subsection \<open>The store\<close>

record status_store =
  ss_live :: status
  ss_advertised :: status

definition new_store :: status_store where
  "new_store = \<lparr>ss_live = zero_status, ss_advertised = zero_status\<rparr>"

definition currentLocked :: "path \<Rightarrow> status_store \<Rightarrow> status io" where
  "currentLocked p s =
     (if st_state (ss_live s) = ''downloading'' then ret (ss_live s)
      else seqE (readState p) (\<lambda>r. ret (case r of Some st \<Rightarrow> st | None \<Rightarrow> zero_status\<lparr>st_state := ''idle''\<rparr>)))"

definition store_get :: "path \<Rightarrow> status_store \<Rightarrow> status io" where
  "store_get p s = currentLocked p s"

definition advertiseLocked :: "status \<Rightarrow> status_store \<Rightarrow> status_store" where
  "advertiseLocked st s = s\<lparr>ss_advertised := (if st_state st = ''available'' then st else zero_status)\<rparr>"

definition getForClient :: "path \<Rightarrow> status_store \<Rightarrow> (status \<times> status_store) io" where
  "getForClient p s = seqE (currentLocked p s) (\<lambda>st. ret (st, advertiseLocked st s))"

definition advertise :: "status \<Rightarrow> status_store \<Rightarrow> status \<times> status_store" where
  "advertise st s = (st, advertiseLocked st s)"

definition claimDownload :: "crypto \<Rightarrow> path \<Rightarrow> string \<Rightarrow> status_store \<Rightarrow> (status \<times> bool \<times> status_store) io" where
  "claimDownload cr p token s =
     (let st = ss_advertised s in
      if st_state st \<noteq> ''available'' \<or> token = [] \<or> st_consent_token (clientStatus cr st) \<noteq> token
      then seqE (currentLocked p s) (\<lambda>cur. ret (cur, False, s))
      else ret (st, True, s\<lparr>ss_advertised := zero_status,
             ss_live := st\<lparr>st_state := ''downloading'', st_percent := 0, st_error := []\<rparr>\<rparr>))"

text \<open>Go's division rounds towards zero; the product may wrap.\<close>

definition quot64 :: "int \<Rightarrow> int \<Rightarrow> int" where
  "quot64 a b = (if a < 0 then - (- a div b) else a div b)"

definition setProgress :: "int \<Rightarrow> int \<Rightarrow> status_store \<Rightarrow> status_store" where
  "setProgress got whole s =
     (if whole \<le> 0 then s
      else if st_state (ss_live s) = ''downloading''
      then s\<lparr>ss_live := (ss_live s)\<lparr>st_percent := quot64 (wrap64 (got * 100)) whole\<rparr>\<rparr>
      else s)"

definition complete :: "nat \<Rightarrow> path \<Rightarrow> status \<Rightarrow> status_store \<Rightarrow> status_store io" where
  "complete pid p st s = seqE (ignoring (writeState pid p st)) (\<lambda>_. ret (s\<lparr>ss_live := zero_status\<rparr>))"

definition publishPoll :: "nat \<Rightarrow> path \<Rightarrow> status \<Rightarrow> status_store \<Rightarrow> (status \<times> error option) io" where
  "publishPoll pid p st s =
     (if st_state (ss_live s) = ''downloading'' then ret (ss_live s, None)
      else seqE (readState p) (\<lambda>r.
        if (case r of Some cur \<Rightarrow> st_state cur = ''ready'' | None \<Rightarrow> False)
        then ret (the r, None)
        else trying (writeState pid p st) (\<lambda>r. ret (st, case r of Inl e \<Rightarrow> Some e | Inr _ \<Rightarrow> None))))"

text \<open>The status \<open>/check\<close> goes on with when the file could not be written.\<close>

definition poll_reply :: "(errno \<Rightarrow> string) \<Rightarrow> status \<times> error option \<Rightarrow> status" where
  "poll_reply tx r = (case snd r of None \<Rightarrow> fst r | Some e \<Rightarrow> (fst r)\<lparr>st_state := ''error'', st_error := error_text tx e\<rparr>)"

subsection \<open>A download\<close>

text \<open>The status a finished download leaves.\<close>

definition download_outcome :: "(errno \<Rightarrow> string) \<Rightarrow> status \<Rightarrow> stage_error + string \<Rightarrow> status" where
  "download_outcome tx s r =
     (case r of
        Inr _ \<Rightarrow> s\<lparr>st_state := ''ready'', st_percent := 100, st_error := []\<rparr>
      | Inl Stage_busy \<Rightarrow> s\<lparr>st_state := ''downloading'', st_percent := 0, st_error := []\<rparr>
      | Inl (Stage_failed e) \<Rightarrow> s\<lparr>st_state := ''error'', st_percent := 0, st_error := error_text tx e\<rparr>)"

definition download :: "agent_env \<Rightarrow> agent_cfg \<Rightarrow> bool \<Rightarrow> status \<Rightarrow> status_store \<Rightarrow> status_store io" where
  "download ae c busy st s =
     seqE (updated_stage ae c busy (st_manifest st)) (\<lambda>r.
     complete (ua_pid ae) (uc_state c) (download_outcome (ua_errno ae) st r) s)"

text \<open>With the lock held when \<open>None\<close> comes back.\<close>

definition claimReboot :: "agent_cfg \<Rightarrow> bool \<Rightarrow> status_store \<Rightarrow> (stage_error option) io" where
  "claimReboot c busy s =
     seqE (acquireStageLock busy (uc_stage_lock c)) (\<lambda>l. case l of
         Some e \<Rightarrow> ret (Some e)
       | None \<Rightarrow> seqE (store_get (uc_state c) s) (\<lambda>st.
           if st_state st \<noteq> ''ready'' then ret (Some (Stage_failed (Errorf ''no staged update to reboot into'')))
           else ret None))"

subsection \<open>Loader and recovery\<close>

definition loaderAutoFlag :: path where
  "loaderAutoFlag = [''var'', ''lib'', ''sinty'', ''loader-auto'']"

definition loaderAuto :: "bool io" where
  "loaderAuto = trying (stat loaderAutoFlag) (\<lambda>r. ret (case r of Inl e \<Rightarrow> False | Inr _ \<Rightarrow> True))"

definition setLoaderAuto :: "bool \<Rightarrow> unit io" where
  "setLoaderAuto on =
     (if \<not> on then trying (remove loaderAutoFlag) (\<lambda>r. case r of
          Inl e \<Rightarrow> if errors_Is e ENOENT then ret () else throw e | Inr _ \<Rightarrow> ret ())
      else seqE (mkdir_all (path_dir loaderAutoFlag)) (\<lambda>_. write_file loaderAutoFlag (''1'' @ [newline])))"

definition updated_stageLoader :: "agent_env \<Rightarrow> agent_cfg \<Rightarrow> bool \<Rightarrow> bool \<Rightarrow> (stage_error + string) io" where
  "updated_stageLoader ae c busy retry = with_lock busy (uc_stage_lock c)
     (StageLoader (ua_env ae) (uc_wal c) (manifest_url c) [] (ua_root ae)
        \<lparr>sd_rootfs = uc_rootfs c, sd_esp = uc_esp c, sd_firmware = []\<rparr> retry)"

definition maybeStageRecovery :: "agent_env \<Rightarrow> agent_cfg \<Rightarrow> bool \<Rightarrow> status \<Rightarrow> unit io" where
  "maybeStageRecovery ae c busy checked =
     (if st_state checked \<noteq> ''idle'' then ret ()
      else seqE (with_lock busy (uc_stage_lock c)
             (StageRecovery (ua_env ae) (uc_wal c) (manifest_url c) [] (ua_root ae)
                \<lparr>sd_rootfs = uc_rootfs c, sd_esp = uc_esp c, sd_firmware = []\<rparr>)) (\<lambda>_. ret ()))"

definition maybeAutoStageLoader :: "agent_env \<Rightarrow> agent_cfg \<Rightarrow> bool \<Rightarrow> status \<Rightarrow> unit io" where
  "maybeAutoStageLoader ae c busy checked =
     seqE loaderAuto (\<lambda>auto.
       if \<not> auto \<or> st_loader_available checked = 0 \<or> st_state checked \<noteq> ''idle'' then ret ()
       else seqE (ReadLoaderStatus \<lparr>sd_rootfs = [], sd_esp = uc_esp c, sd_firmware = []\<rparr>) (\<lambda>st.
         if ls_candidate st \<noteq> 0 \<or> st_loader_available checked \<le> ls_installed st \<or> st_loader_available checked = ls_failed st
         then ret ()
         else seqE (updated_stageLoader ae c busy False) (\<lambda>_. ret ())))"

text \<open>One attempt of \<open>startupCheck\<close>: whether it was the last one. The loop: the answers of the
  lock for the two stagings, and the number of attempts left.\<close>

definition startup_attempt :: "agent_env \<Rightarrow> agent_cfg \<Rightarrow> bool \<Rightarrow> bool \<Rightarrow> status_store \<Rightarrow> bool io" where
  "startup_attempt ae c b1 b2 s =
     seqE (pollOnce ae c) (\<lambda>checked.
     seqE (publishPoll (ua_pid ae) (uc_state c) checked s) (\<lambda>(_, err).
       if err \<noteq> None \<or> st_state checked \<noteq> ''error'' \<or> \<not> st_retryable checked
       then seqE (maybeAutoStageLoader ae c b1 checked) (\<lambda>_.
            seqE (maybeStageRecovery ae c b2 checked) (\<lambda>_. ret True))
       else ret False))"

definition startup_attempts :: nat where
  "startup_attempts = 3"

primrec startup_loop :: "agent_env \<Rightarrow> agent_cfg \<Rightarrow> bool \<Rightarrow> bool \<Rightarrow> status_store \<Rightarrow> nat \<Rightarrow> unit io" where
  "startup_loop ae c b1 b2 s 0 = ret ()"
| "startup_loop ae c b1 b2 s (Suc n) =
     seqE (startup_attempt ae c b1 b2 s) (\<lambda>last. if last then ret () else startup_loop ae c b1 b2 s n)"

definition startupCheck :: "agent_env \<Rightarrow> agent_cfg \<Rightarrow> bool \<Rightarrow> bool \<Rightarrow> status_store \<Rightarrow> unit io" where
  "startupCheck ae c b1 b2 s = startup_loop ae c b1 b2 s startup_attempts"

subsection \<open>The history of installed versions\<close>

record history_entry =
  he_version :: string
  he_build :: string
  he_time :: int
  he_success :: bool

definition zero_entry :: history_entry where
  "zero_entry = \<lparr>he_version = [], he_build = [], he_time = 0, he_success = False\<rparr>"

definition historyLimit :: nat where
  "historyLimit = 100"

definition enc_entry :: "history_entry \<Rightarrow> json" where
  "enc_entry e = JObj ([(''version'', JStr (he_version e))] @ omitempty ''build'' (he_build e)
     @ [(''time'', JInt (he_time e)), (''success'', JBool (he_success e))])"

definition dec_entry :: "history_entry decoder" where
  "dec_entry = decode_fields
     [(''version'', field he_version he_version_update dec_str), (''build'', field he_build he_build_update dec_str),
      (''time'', field he_time he_time_update dec_int), (''success'', field he_success he_success_update dec_bool)]"

text \<open>A nil slice and an empty one are not told apart by the callers.\<close>

definition text_history :: "string \<Rightarrow> history_entry list" where
  "text_history b = (case err_bind (json_parse b) (\<lambda>j. dec_slice dec_entry zero_entry j None) of
     Inr (Some es) \<Rightarrow> es | _ \<Rightarrow> [])"

definition readHistory :: "path \<Rightarrow> history_entry list io" where
  "readHistory p = trying (read_file p) (\<lambda>r. ret (case r of Inl e \<Rightarrow> [] | Inr b \<Rightarrow> text_history b))"

definition history_text :: "history_entry list \<Rightarrow> string" where
  "history_text es = json_indent 0 (JArr (map enc_entry es))"

definition writeHistory :: "path \<Rightarrow> history_entry list \<Rightarrow> unit io" where
  "writeHistory p es =
     seqE (mkdir_all (path_dir p)) (\<lambda>_.
     seqE (write_file (path_suffix p ''.tmp'') (history_text es)) (\<lambda>_.
     rename (path_suffix p ''.tmp'') p))"

definition runningVersion :: "path \<Rightarrow> string io" where
  "runningVersion wal = seqE (read_wal_rootfs wal) (\<lambda>d. ret (case d of Some d \<Rightarrow> wr_current d | None \<Rightarrow> []))"

definition osRelease :: "path \<Rightarrow> string \<Rightarrow> string io" where
  "osRelease p key = trying (read_file p) (\<lambda>r. ret (case r of
     Inl e \<Rightarrow> [] | Inr b \<Rightarrow> (case release_value key b of Some v \<Rightarrow> v | None \<Rightarrow> [])))"

definition next_history :: "history_entry list \<Rightarrow> history_entry \<Rightarrow> history_entry list" where
  "next_history es e = (let es' = es @ [e] in drop (length es' - historyLimit) es')"

definition recordRunning :: "path \<Rightarrow> string \<Rightarrow> string \<Rightarrow> int \<Rightarrow> unit io" where
  "recordRunning p version build now =
     (if p = [] \<or> version = [] then ret ()
      else seqE (readHistory p) (\<lambda>es.
        if es \<noteq> [] \<and> he_version (last es) = version \<and> he_build (last es) = build then ret ()
        else writeHistory p (next_history es
               \<lparr>he_version = version, he_build = build, he_time = now, he_success = True\<rparr>)))"

subsection \<open>The socket and the start\<close>

text \<open>\<open>is_socket\<close> tells which inodes are sockets. A \<open>Lstat\<close> that fails for another reason than
  a missing file stops; \<open>net.Listen\<close> makes the new socket; changing its mode may fail.\<close>

definition listen :: "path \<Rightarrow> unit io" where
  "listen p = sys_call (\<lambda>w. case dk_names (w_disk w) p of
     None \<Rightarrow> (Inr (), put_disk (new_inode p (w_disk w)) w) | Some i \<Rightarrow> (Inl EEXIST, w))"

definition chmod :: "path \<Rightarrow> unit io" where
  "chmod p = sys_call (\<lambda>w. (Inr (), w))"

definition listenSocket :: "(nat \<Rightarrow> bool) \<Rightarrow> path \<Rightarrow> unit io" where
  "listenSocket is_socket p =
     (if p = [] then throw (Errorf ''update socket path is empty'')
      else seqE (mkdir_all (path_dir p)) (\<lambda>_.
      seqE (trying (stat p) (\<lambda>r. case r of
          Inr (i, _) \<Rightarrow> if \<not> is_socket i then throw (Errorf ''refusing to replace non-socket path'') else remove p
        | Inl e \<Rightarrow> if errors_Is e ENOENT then ret () else throw e)) (\<lambda>_.
      seqE (listen p) (\<lambda>_.
      trying (chmod p) (\<lambda>r. case r of
          Inl e \<Rightarrow> trying (remove p) (\<lambda>_. throw e)
        | Inr _ \<Rightarrow> ret ())))))"

text \<open>\<open>serve\<close> up to the loop that answers requests, with the store it starts from.\<close>

definition serve_start :: "agent_cfg \<Rightarrow> (nat \<Rightarrow> bool) \<Rightarrow> int \<Rightarrow> status_store io" where
  "serve_start c is_socket now =
     seqE (wrapE ''listen'' (listenSocket is_socket (uc_sock c))) (\<lambda>_.
     seqE (runningVersion (uc_wal c)) (\<lambda>v.
     seqE (osRelease os_release_path ''BUILD_ID'') (\<lambda>b.
     seqE (ignoring (recordRunning (uc_history c) v b now)) (\<lambda>_.
     ret new_store))))"

end
