(* ===== verification/Flags.thy ===== *)
theory Flags
  imports Prelude
begin

section \<open>Command-line flags\<close>

text \<open>
  The package \<open>flag\<close> as the commands use it: a set of flags with the test each value must pass, and
  the parser, which stops at the first argument that is no flag. A flag is \<open>-name value\<close>,
  \<open>-name=value\<close> or the same with two dashes; a boolean flag takes its value only after \<open>=\<close>. The
  result are the settings in order and the arguments left; \<open>None\<close> is an error of \<open>Parse\<close>, asking
  for help included. \<open>--\<close> ends the flags.
\<close>

record flag_spec =
  fg_name :: string
  fg_bool :: bool
  fg_ok :: "string \<Rightarrow> bool"

type_synonym settings = "(string \<times> string) list"

definition find_flag :: "flag_spec list \<Rightarrow> string \<Rightarrow> flag_spec option" where
  "find_flag fs n = List.find (\<lambda>f. fg_name f = n) fs"

definition flag_text :: "string \<Rightarrow> string option" where
  "flag_text s =
     (case s of
        a # b # t \<Rightarrow>
          if a \<noteq> CHR ''-'' then None else Some (if b = CHR ''-'' then t else b # t)
      | _ \<Rightarrow> None)"

definition name_value :: "string \<Rightarrow> string \<times> string option" where
  "name_value t = (case str_cut (CHR ''='') t of None \<Rightarrow> (t, None) | Some (n, v) \<Rightarrow> (n, Some v))"

definition bad_name :: "string \<Rightarrow> bool" where
  "bad_name t \<longleftrightarrow> (case t of [] \<Rightarrow> True | c # _ \<Rightarrow> c = CHR ''-'' \<or> c = CHR ''='')"

text \<open>What the parser makes of one argument: it stops, refuses, or sets a flag, and the arguments left.\<close>

datatype flag_step = Stop "string list" | Bad | Set string string "string list"

definition set_flag :: "flag_spec \<Rightarrow> string \<Rightarrow> string list \<Rightarrow> flag_step" where
  "set_flag f v args = (if fg_ok f v then Set (fg_name f) v args else Bad)"

definition next_flag :: "flag_spec list \<Rightarrow> string \<Rightarrow> string list \<Rightarrow> flag_step" where
  "next_flag fs s args =
     (case flag_text s of
        None \<Rightarrow> Stop (s # args)
      | Some t \<Rightarrow>
          if s = ''--'' then Stop args
          else if bad_name t then Bad
          else (case name_value t of (n, value) \<Rightarrow>
            (case find_flag fs n of
               None \<Rightarrow> Bad
             | Some f \<Rightarrow>
                 if fg_bool f then set_flag f (case value of None \<Rightarrow> ''true'' | Some v \<Rightarrow> v) args
                 else (case value of
                    Some v \<Rightarrow> set_flag f v args
                  | None \<Rightarrow> (case args of [] \<Rightarrow> Bad | v # args' \<Rightarrow> set_flag f v args')))))"

lemma next_flag_shorter: "next_flag fs s args = Set n v rest \<Longrightarrow> length rest \<le> length args"
  by (auto simp: next_flag_def set_flag_def split: option.splits if_splits prod.splits list.splits)

function parse_flags :: "flag_spec list \<Rightarrow> string list \<Rightarrow> (settings \<times> string list) option" where
  "parse_flags fs [] = Some ([], [])"
| "parse_flags fs (s # args) =
     (case next_flag fs s args of
        Stop rest \<Rightarrow> Some ([], rest)
      | Bad \<Rightarrow> None
      | Set n v rest \<Rightarrow> map_option (\<lambda>(st, left). ((n, v) # st, left)) (parse_flags fs rest))"
  by pat_completeness auto

termination
  by (relation "measure (\<lambda>(fs, args). length args)") (auto simp: less_Suc_eq_le next_flag_shorter)

text \<open>The argument a refused command line is refused at, and whether it asks for help, on which a set with
  \<open>ExitOnError\<close> ends the program with 0 instead of 2.\<close>

function refused_at :: "flag_spec list \<Rightarrow> string list \<Rightarrow> string option" where
  "refused_at fs [] = None"
| "refused_at fs (s # args) =
     (case next_flag fs s args of Stop rest \<Rightarrow> None | Bad \<Rightarrow> Some s | Set n v rest \<Rightarrow> refused_at fs rest)"
  by pat_completeness auto

termination
  by (relation "measure (\<lambda>(fs, args). length args)") (auto simp: less_Suc_eq_le next_flag_shorter)

definition asks_help :: "flag_spec list \<Rightarrow> string list \<Rightarrow> bool" where
  "asks_help fs args =
     (case Option.bind (refused_at fs args) flag_text of
        None \<Rightarrow> False
      | Some t \<Rightarrow> fst (name_value t) \<in> {''help'', ''h''} \<and> find_flag fs (fst (name_value t)) = None)"

lemma refused_iff: "parse_flags fs args = None \<longleftrightarrow> refused_at fs args \<noteq> None"
  by (induction fs args rule: parse_flags.induct) (auto split: flag_step.splits)

text \<open>The value of a flag: the last setting, or the default.\<close>

definition setting :: "settings \<Rightarrow> string \<Rightarrow> string option" where
  "setting st n = map_of (rev st) n"

definition str_value :: "settings \<Rightarrow> string \<Rightarrow> string \<Rightarrow> string" where
  "str_value st n d = (case setting st n of None \<Rightarrow> d | Some v \<Rightarrow> v)"

subsection \<open>Integers with a prefix\<close>

text \<open>\<open>strconv.ParseInt(s, 0, 64)\<close>: an optional sign, a base by prefix, digits of the base, and
  underscores between digits or after the prefix.\<close>

definition base_digit :: "char \<Rightarrow> nat option" where
  "base_digit c =
     (let l = to_lower c in
      if is_digit c then Some (digit_val c)
      else if 97 \<le> (of_char l :: nat) \<and> (of_char l :: nat) \<le> 122 then Some (of_char l - 87) else None)"

fun digits_in :: "nat \<Rightarrow> nat \<Rightarrow> string \<Rightarrow> nat option" where
  "digits_in b n [] = Some n"
| "digits_in b n (c # s) =
     (if c = CHR ''_'' then digits_in b n s
      else (case base_digit c of None \<Rightarrow> None
        | Some d \<Rightarrow> if d < b then digits_in b (n * b + d) s else None))"

definition base_prefix :: "string \<Rightarrow> (nat \<times> string) option" where
  "base_prefix s =
     (case s of
        a # b # t \<Rightarrow>
          if a \<noteq> CHR ''0'' then None
          else if to_lower b = CHR ''b'' then Some (2, t)
          else if to_lower b = CHR ''o'' then Some (8, t)
          else if to_lower b = CHR ''x'' then Some (16, t) else None
      | _ \<Rightarrow> None)"

definition split_base :: "string \<Rightarrow> nat \<times> string" where
  "split_base s =
     (case s of
        a # t \<Rightarrow>
          if a \<noteq> CHR ''0'' then (10, s)
          else (case base_prefix s of
                  Some (b, u) \<Rightarrow> if u \<noteq> [] then (b, u) else (8, t)
                | None \<Rightarrow> (8, t))
      | [] \<Rightarrow> (10, []))"

text \<open>Where an underscore may stand: \<open>i\<close> is what came before, a digit, an underscore or something else.\<close>

datatype before = At_start | Digit | Underscore | Other

fun underscores_from :: "bool \<Rightarrow> before \<Rightarrow> string \<Rightarrow> bool" where
  "underscores_from hex i [] = (i \<noteq> Underscore)"
| "underscores_from hex i (c # s) =
     (if is_digit c \<or> (hex \<and> 97 \<le> (of_char (to_lower c) :: nat) \<and> (of_char (to_lower c) :: nat) \<le> 102)
      then underscores_from hex Digit s
      else if c = CHR ''_'' then i = Digit \<and> underscores_from hex Underscore s
      else i \<noteq> Underscore \<and> underscores_from hex Other s)"

definition strip_sign :: "string \<Rightarrow> string" where
  "strip_sign s = (case s of [] \<Rightarrow> [] | c # t \<Rightarrow> if c = CHR ''-'' \<or> c = CHR ''+'' then t else s)"

definition underscore_ok :: "string \<Rightarrow> bool" where
  "underscore_ok s =
     (case base_prefix (strip_sign s) of
        Some (b, t) \<Rightarrow> underscores_from (b = 16) Digit t
      | None \<Rightarrow> underscores_from False At_start (strip_sign s))"

definition parse_int :: "string \<Rightarrow> int option" where
  "parse_int s =
     (if strip_sign s = [] then None
      else (case split_base (strip_sign s) of (b, ds) \<Rightarrow>
        (case digits_in b 0 ds of
           None \<Rightarrow> None
         | Some n \<Rightarrow>
             if CHR ''_'' \<in> set s \<and> \<not> underscore_ok s then None
             else (let v = (if hd s = CHR ''-'' then - int n else int n)
                   in if int64_range v then Some v else None))))"

definition int_value :: "settings \<Rightarrow> string \<Rightarrow> int \<Rightarrow> int" where
  "int_value st n d = (case setting st n of None \<Rightarrow> d | Some v \<Rightarrow> (case parse_int v of None \<Rightarrow> d | Some i \<Rightarrow> i))"

text \<open>\<open>strconv.ParseBool\<close>.\<close>

definition parse_bool :: "string \<Rightarrow> bool option" where
  "parse_bool s =
     (if s \<in> set [''1'', ''t'', ''T'', ''TRUE'', ''true'', ''True''] then Some True
      else if s \<in> set [''0'', ''f'', ''F'', ''FALSE'', ''false'', ''False''] then Some False else None)"

definition bool_value :: "settings \<Rightarrow> string \<Rightarrow> bool" where
  "bool_value st n = (case setting st n of None \<Rightarrow> False | Some v \<Rightarrow> parse_bool v = Some True)"

definition str_flag :: "string \<Rightarrow> flag_spec" where
  "str_flag n = \<lparr>fg_name = n, fg_bool = False, fg_ok = (\<lambda>_. True)\<rparr>"

definition int_flag :: "string \<Rightarrow> flag_spec" where
  "int_flag n = \<lparr>fg_name = n, fg_bool = False, fg_ok = (\<lambda>v. parse_int v \<noteq> None)\<rparr>"

definition bool_flag :: "string \<Rightarrow> flag_spec" where
  "bool_flag n = \<lparr>fg_name = n, fg_bool = True, fg_ok = (\<lambda>v. parse_bool v \<noteq> None)\<rparr>"

subsection \<open>What the parser accepts\<close>

text \<open>Every setting is of a flag of the set and passed its test; nothing is read as a flag after the
  first argument that is none.\<close>

lemma find_flag_name: "find_flag fs n = Some f \<Longrightarrow> f \<in> set fs \<and> fg_name f = n"
  unfolding find_flag_def by (auto dest: find_Some_set)

lemma next_flag_ok: "next_flag fs s args = Set n v rest \<Longrightarrow> \<exists>f \<in> set fs. fg_name f = n \<and> fg_ok f v"
  by (auto simp: next_flag_def set_flag_def split: option.splits if_splits prod.splits list.splits dest!: find_flag_name)

lemma parse_flags_ok:
  "parse_flags fs args = Some (st, rest) \<Longrightarrow> (n, v) \<in> set st \<Longrightarrow> \<exists>f \<in> set fs. fg_name f = n \<and> fg_ok f v"
proof (induction fs args arbitrary: st rest rule: parse_flags.induct)
  case (2 fs s args)
  then show ?case by (auto split: flag_step.splits dest: next_flag_ok)
qed simp

lemma setting_in: "setting st n = Some v \<Longrightarrow> (n, v) \<in> set st"
  unfolding setting_def by (drule map_of_SomeD) simp

lemma parse_int_range: "parse_int s = Some v \<Longrightarrow> int64_range v"
  by (auto simp: parse_int_def Let_def split: if_splits prod.splits option.splits)

lemma int_value_range: "int64_range d \<Longrightarrow> int64_range (int_value st n d)"
  by (auto simp: int_value_def split: option.splits dest: parse_int_range)

lemma parse_int_cases:
  "parse_int ''42'' = Some 42" "parse_int ''-0x1F'' = Some (-31)" "parse_int ''0'' = Some 0" "parse_int ''010'' = Some 8"
  "parse_int ''_1'' = None" "parse_int ''0x'' = None" "parse_int ''0_7'' = Some 7" "parse_int ''-'' = None"
  by code_simp+

end
