(* ===== verification/Server.thy ===== *)
theory Server
  imports Updated Flags
begin

section \<open>The update agent: requests and commands\<close>

text \<open>
  The HTTP handlers of cmd/updated and its commands. A request is its method and raw query; a
  reply is the status code, the \<open>Allow\<close> header and the body.
\<close>

record reply =
  rep_code :: int
  rep_allow :: string
  rep_body :: string

definition json_line :: "json \<Rightarrow> string" where
  "json_line j = json_compact j @ [newline]"

definition error_body :: "string \<Rightarrow> string" where
  "error_body s = json_line (JObj [(''error'', JStr s)])"

definition write_json :: "crypto \<Rightarrow> status \<Rightarrow> reply" where
  "write_json cr st = \<lparr>rep_code = 200, rep_allow = [], rep_body = json_line (enc_status (clientStatus cr st))\<rparr>"

definition not_allowed :: "string \<Rightarrow> reply" where
  "not_allowed want = \<lparr>rep_code = 405, rep_allow = want, rep_body = error_body ''method not allowed''\<rparr>"

subsection \<open>Queries\<close>

text \<open>\<open>url.QueryUnescape\<close>.\<close>

fun query_unescape :: "string \<Rightarrow> string option" where
  "query_unescape [] = Some []"
| "query_unescape (c # s) =
    (if c = CHR ''%'' then
       (case s of
          a # b # t \<Rightarrow>
            (case (hex_val a, hex_val b) of
               (Some x, Some y) \<Rightarrow> map_option (\<lambda>u. char_of (x * 16 + y) # u) (query_unescape t)
             | _ \<Rightarrow> None)
        | _ \<Rightarrow> None)
     else map_option (\<lambda>u. (if c = CHR ''+'' then CHR '' '' else c) # u) (query_unescape s))"

text \<open>One setting of \<open>url.ParseQuery\<close>: nothing, an error, or a key and a value.\<close>

definition query_setting :: "string \<Rightarrow> (unit + string \<times> string) option" where
  "query_setting s =
    (if CHR '';'' \<in> set s then Some (Inl ())
     else if s = [] then None
     else let (k, v) = (case str_cut (CHR ''='') s of Some kv \<Rightarrow> kv | None \<Rightarrow> (s, [])) in
       (case (query_unescape k, query_unescape v) of
          (Some k', Some v') \<Rightarrow> Some (Inr (k', v'))
        | _ \<Rightarrow> Some (Inl ())))"

definition query_settings :: "string \<Rightarrow> (unit + string \<times> string) list" where
  "query_settings q = List.map_filter query_setting (split_on (CHR ''&'') q)"

definition query_values :: "string \<Rightarrow> string \<Rightarrow> string list" where
  "query_values q k = List.map_filter (\<lambda>r. case r of Inr (k', v) \<Rightarrow> if k' = k then Some v else None | Inl _ \<Rightarrow> None) (query_settings q)"

definition query_get :: "string \<Rightarrow> string \<Rightarrow> string" where
  "query_get q k = (case query_values q k of [] \<Rightarrow> [] | v # _ \<Rightarrow> v)"

text \<open>The token of a download request: a query without errors whose one setting is \<open>token\<close>.\<close>

definition query_token :: "string \<Rightarrow> string" where
  "query_token q = (case query_settings q of [Inr (k, v)] \<Rightarrow> if k = ''token'' then v else [] | _ \<Rightarrow> [])"

subsection \<open>Status, check, download, reboot\<close>

definition handle_status :: "agent_env \<Rightarrow> agent_cfg \<Rightarrow> string \<Rightarrow> status_store \<Rightarrow> (reply \<times> status_store) io" where
  "handle_status ae c method s =
     (if method \<noteq> ''GET'' then ret (not_allowed ''GET'', s)
      else seqE (getForClient (uc_state c) s) (\<lambda>(st, s'). ret (write_json (e_crypto (ua_env ae)) st, s')))"

definition handle_check :: "agent_env \<Rightarrow> agent_cfg \<Rightarrow> string \<Rightarrow> status_store \<Rightarrow> (reply \<times> status_store) io" where
  "handle_check ae c method s =
     (if method \<noteq> ''GET'' then ret (not_allowed ''GET'', s)
      else seqE (pollOnce ae c) (\<lambda>checked.
           seqE (publishPoll (ua_pid ae) (uc_state c) checked s) (\<lambda>r.
           let (st, s') = advertise (poll_reply (ua_errno ae) r) s in
           ret (write_json (e_crypto (ua_env ae)) st, s'))))"

text \<open>The status that \<open>go download\<close> is started with, if any.\<close>

definition handle_download :: "agent_env \<Rightarrow> agent_cfg \<Rightarrow> string \<Rightarrow> string \<Rightarrow> status_store \<Rightarrow> (reply \<times> status option \<times> status_store) io" where
  "handle_download ae c method query s =
     (let cr = e_crypto (ua_env ae); p = uc_state c in
      if method \<noteq> ''POST'' then ret (not_allowed ''POST'', None, s)
      else seqE (claimDownload cr p (query_token query) s) (\<lambda>(st, ok, s').
           seqE (store_get p s') (\<lambda>cur.
             if ok then ret (write_json cr cur, Some st, s')
             else ret ((write_json cr cur)\<lparr>rep_code := 409\<rparr>, None, s'))))"

text \<open>Whether \<open>go Reboot\<close> is started, with the lock held.\<close>

definition handle_reboot :: "agent_cfg \<Rightarrow> bool \<Rightarrow> string \<Rightarrow> status_store \<Rightarrow> (reply \<times> bool) io" where
  "handle_reboot c busy method s =
     (if method \<noteq> ''POST'' then ret (not_allowed ''POST'', False)
      else seqE (claimReboot c busy s) (\<lambda>r. ret (case r of
          None \<Rightarrow> (\<lparr>rep_code = 202, rep_allow = [], rep_body = []\<rparr>, True)
        | Some e \<Rightarrow>
            (\<lparr>rep_code = 409, rep_allow = [], rep_body = error_body
               (if e = Stage_busy then ''another update is already being staged'' else ''no staged update to reboot into'')\<rparr>, False))))"

subsection \<open>Loader and history\<close>

record loader_reply =
  lr_status :: loader_status
  lr_boot :: boot_info
  lr_available :: int
  lr_auto :: bool
  lr_message :: string
  lr_error :: string

definition enc_loader_reply :: "loader_reply \<Rightarrow> json" where
  "enc_loader_reply r = JObj
     (loader_members (lr_status r)
      @ [(''boot'', JObj [(''target'', JStr (binf_target (lr_boot r))), (''trial'', JBool (binf_trial (lr_boot r))),
            (''slots'', JObj (map (\<lambda>(k, v). (k, JStr v)) (binf_slots (lr_boot r))))])]
      @ omit_zero ''available'' (lr_available r) @ [(''auto'', JBool (lr_auto r))]
      @ omitempty ''message'' (lr_message r) @ omitempty ''error'' (lr_error r))"

definition loader_current :: "agent_env \<Rightarrow> agent_cfg \<Rightarrow> status_store \<Rightarrow> loader_reply io" where
  "loader_current ae c s =
     (let dirs = \<lparr>sd_rootfs = [], sd_esp = uc_esp c, sd_firmware = []\<rparr> in
      seqE (ReadLoaderStatus dirs) (\<lambda>ls.
      seqE (ReadBootInfo (ua_pe ae) dirs) (\<lambda>bi.
      seqE (store_get (uc_state c) s) (\<lambda>st.
      seqE loaderAuto (\<lambda>auto.
      ret \<lparr>lr_status = ls, lr_boot = bi, lr_available = st_loader_available st, lr_auto = auto, lr_message = [], lr_error = []\<rparr>)))))"

definition loader_answer :: "int \<Rightarrow> loader_reply \<Rightarrow> reply" where
  "loader_answer code r = \<lparr>rep_code = code, rep_allow = [], rep_body = json_line (enc_loader_reply r)\<rparr>"

definition handle_loader :: "agent_env \<Rightarrow> agent_cfg \<Rightarrow> string \<Rightarrow> status_store \<Rightarrow> reply io" where
  "handle_loader ae c method s =
     (if method \<noteq> ''GET'' then ret (not_allowed ''GET'')
      else seqE (loader_current ae c s) (\<lambda>r. ret (loader_answer 200 r)))"

primrec stage_error_text :: "(errno \<Rightarrow> string) \<Rightarrow> stage_error \<Rightarrow> string" where
  "stage_error_text tx Stage_busy = ''another update is already being staged''"
| "stage_error_text tx (Stage_failed e) = error_text tx e"

definition handle_loader_update :: "agent_env \<Rightarrow> agent_cfg \<Rightarrow> bool \<Rightarrow> string \<Rightarrow> string \<Rightarrow> status_store \<Rightarrow> reply io" where
  "handle_loader_update ae c busy method query s =
     (if method \<noteq> ''POST'' then ret (not_allowed ''POST'')
      else seqE (updated_stageLoader ae c busy (query_get query ''retry'' = ''1'')) (\<lambda>r.
           seqE (loader_current ae c s) (\<lambda>cur. ret (case r of
               Inl e \<Rightarrow> loader_answer 409 (cur\<lparr>lr_error := stage_error_text (ua_errno ae) e\<rparr>)
             | Inr msg \<Rightarrow> loader_answer 200 (cur\<lparr>lr_message := msg\<rparr>)))))"

definition handle_loader_auto :: "agent_env \<Rightarrow> agent_cfg \<Rightarrow> string \<Rightarrow> string \<Rightarrow> status_store \<Rightarrow> reply io" where
  "handle_loader_auto ae c method query s =
     (if method \<noteq> ''POST'' then ret (not_allowed ''POST'')
      else trying (setLoaderAuto (query_get query ''enable'' = ''1'')) (\<lambda>r.
           seqE (loader_current ae c s) (\<lambda>cur. ret (case r of
               Inl e \<Rightarrow> loader_answer 500 (cur\<lparr>lr_error := error_text (ua_errno ae) e\<rparr>)
             | Inr _ \<Rightarrow> loader_answer 200 cur))))"

definition handle_history :: "agent_cfg \<Rightarrow> string \<Rightarrow> reply io" where
  "handle_history c method =
     (if method \<noteq> ''GET'' then ret (not_allowed ''GET'')
      else seqE (readHistory (uc_history c)) (\<lambda>es.
        ret \<lparr>rep_code = 200, rep_allow = [], rep_body = json_line (JObj [(''entries'', JArr (map enc_entry es))])\<rparr>))"

subsection \<open>Commands\<close>

definition printed :: "status \<Rightarrow> string \<times> int" where
  "printed st = (json_indent 0 (enc_status st) @ [newline], if st_state st = ''error'' then 1 else 0)"

definition agent_flags :: "string \<Rightarrow> flag_spec list" where
  "agent_flags cmd =
     (if cmd = ''check'' then map str_flag [''feed'', ''current'', ''wal'']
      else if cmd = ''poll'' then bool_flag ''no-fetch'' # map str_flag [''feed'', ''current'', ''state'', ''wal'', ''rootfs-dir'',
        ''esp-dir'', ''firmware-dir'', ''stage-lock'']
      else map str_flag [''feed'', ''socket'', ''current'', ''state'', ''wal'', ''rootfs-dir'', ''esp-dir'', ''firmware-dir'',
        ''stage-lock'', ''history''])"

text \<open>The configuration the flags give; \<open>file\<close> finds the file behind a name.\<close>

definition cfg_of :: "(string \<Rightarrow> path) \<Rightarrow> settings \<Rightarrow> agent_cfg" where
  "cfg_of file st =
     (let at = (\<lambda>n d. let v = str_value st n d in if v = [] then [] else file v) in
      \<lparr>uc_feed = str_value st ''feed'' ''https://updates.sinty.dev/stable'', uc_current = str_value st ''current'' [],
       uc_sock = at ''socket'' ''/run/updated.sock'', uc_state = at ''state'' ''/run/updated/status.json'',
       uc_wal = at ''wal'' ''/boot/rootfs/deployment.json'', uc_rootfs = at ''rootfs-dir'' ''/boot/rootfs'',
       uc_esp = at ''esp-dir'' ''/boot/efi/EFI/atom'', uc_firmware = at ''firmware-dir'' ''/boot/firmware'',
       uc_stage_lock = at ''stage-lock'' ''/run/updated-stage.lock'', uc_history = at ''history'' ''/var/lib/updated/history.json''\<rparr>)"

text \<open>The output and the exit code. \<open>serve\<close> only ends when it cannot start.\<close>

definition updated_main :: "agent_env \<Rightarrow> (nat \<Rightarrow> bool) \<Rightarrow> int \<Rightarrow> (string \<Rightarrow> path) \<Rightarrow> string list \<Rightarrow> (string \<times> int) io" where
  "updated_main ae is_socket now file args =
     (case args of
        [] \<Rightarrow> ret ([], 2)
      | cmd # rest \<Rightarrow>
          if cmd \<notin> {''check'', ''poll'', ''serve''} then ret ([], 2)
          else (case parse_flags (agent_flags cmd) rest of
             None \<Rightarrow> ret ([], if asks_help (agent_flags cmd) rest then 0 else 2)
           | Some (st, _) \<Rightarrow>
               let c = cfg_of file st in
               if cmd = ''check'' then seqE (pollOnce ae c) (\<lambda>st. ret (printed st))
               else if cmd = ''poll'' then
                 seqE (pollOnce ae c) (\<lambda>st.
                 seqE (publishPoll (ua_pid ae) (uc_state c) st new_store) (\<lambda>(st', _). ret (printed st')))
               else trying (serve_start c is_socket now) (\<lambda>r. ret ([], case r of Inl _ \<Rightarrow> 1 | Inr _ \<Rightarrow> 0))))"

text \<open>The configuration without flags.\<close>

definition default_cfg :: agent_cfg where
  "default_cfg = \<lparr>uc_feed = ''https://updates.sinty.dev/stable'', uc_current = [], uc_sock = [''run'', ''updated.sock''],
     uc_state = [''run'', ''updated'', ''status.json''], uc_wal = defaultWAL, uc_rootfs = [''boot'', ''rootfs''],
     uc_esp = [''boot'', ''efi'', ''EFI'', ''atom''], uc_firmware = [''boot'', ''firmware''],
     uc_stage_lock = [''run'', ''updated-stage.lock''], uc_history = [''var'', ''lib'', ''updated'', ''history.json'']\<rparr>"

subsection \<open>A download needs the token of what was advertised\<close>

lemma error_body_text: "error_body ''x'' = [CHR ''{'', quote_mark] @ ''error'' @ [quote_mark, CHR '':'', quote_mark] @ ''x'' @ [quote_mark, CHR ''}'', newline]"
  by code_simp

definition claimable :: "crypto \<Rightarrow> string \<Rightarrow> status_store \<Rightarrow> bool" where
  "claimable cr token s \<longleftrightarrow> (let st = ss_advertised s in
     st_state st = ''available'' \<and> st_manifest st \<noteq> [] \<and> token \<noteq> [] \<and> token = consent_token cr (st_manifest st))"

lemma claim_cases:
  assumes "claimDownload cr p token s w = (Inr (st, ok, s'), w')"
  shows "ok = claimable cr token s" and "ok \<Longrightarrow> st = ss_advertised s \<and> ss_advertised s' = zero_status \<and>
      ss_live s' = st\<lparr>st_state := ''downloading'', st_percent := 0, st_error := []\<rparr>" and "\<not> ok \<Longrightarrow> s' = s"
proof -
  have iff: "(st_state a \<noteq> ''available'' \<or> token = [] \<or> st_consent_token (clientStatus cr a) \<noteq> token) = (\<not> claimable cr token s)"
    if "a = ss_advertised s" for a
    using that by (auto simp: claimable_def clientStatus_def Let_def)
  show "ok = claimable cr token s" "ok \<Longrightarrow> st = ss_advertised s \<and> ss_advertised s' = zero_status \<and>
      ss_live s' = st\<lparr>st_state := ''downloading'', st_percent := 0, st_error := []\<rparr>" "\<not> ok \<Longrightarrow> s' = s"
    using assms unfolding claimDownload_def Let_def iff [OF refl]
    by (auto simp: ret_def seqE_def trying_def throw_def split: if_splits prod.splits sum.splits)
qed

text \<open>C6. A request starts a download only if it is a \<open>POST\<close> whose query is one setting, the
  token, and the token is the consent token of the update that was advertised last; then the
  download is for exactly that update, which is no longer advertised. Every other request leaves
  the store as it is and is refused.\<close>

theorem download_needs_the_advertised_token:
  assumes "handle_download ae c method query s w = (Inr (rep, started, s'), w')"
  shows "(started = (if method = ''POST'' \<and> claimable (e_crypto (ua_env ae)) (query_token query) s then Some (ss_advertised s) else None)) \<and>
    (started \<noteq> None \<longrightarrow> st_state (ss_live s') = ''downloading'' \<and> ss_advertised s' = zero_status \<and> rep_code rep = 200) \<and>
    (started = None \<longrightarrow> s' = s \<and> rep_code rep \<in> {405, 409})"
proof (cases "method = ''POST''")
  case True
  obtain x w1 where cl: "claimDownload (e_crypto (ua_env ae)) (uc_state c) (query_token query) s w = (x, w1)"
    by (cases "claimDownload (e_crypto (ua_env ae)) (uc_state c) (query_token query) s w")
  obtain st ok s1 where x: "x = Inr (st, ok, s1)"
    using assms True cl by (cases x) (auto simp: handle_download_def Let_def seqE_def trying_def throw_def)
  note c = claim_cases [OF cl [unfolded x]]
  show ?thesis
    using assms True cl x c
    by (cases ok) (auto simp: handle_download_def Let_def seqE_def trying_def throw_def ret_def write_json_def split: prod.splits sum.splits)
qed (use assms in \<open>auto simp: handle_download_def Let_def ret_def not_allowed_def\<close>)

definition advertised_store :: status_store where
  "advertised_store = new_store\<lparr>ss_advertised := zero_status\<lparr>st_state := ''available'', st_manifest := ''ab''\<rparr>\<rparr>"

definition server_env :: agent_env where
  "server_env = \<lparr>ua_env = stage_env, ua_client = stage_net, ua_pe = (\<lambda>_. None), ua_pid = 7, ua_root = sample_key, ua_errno = (\<lambda>_. [])\<rparr>"

definition sample_token :: string where
  "sample_token = consent_token (e_crypto stage_env) ''ab''"

lemma sample_query: "query_token (''token='' @ sample_token) = sample_token" "sample_token \<noteq> []"
  by code_simp+

lemma sample_download_run:
  "\<exists>rep s'. handle_download server_env default_cfg ''POST'' (''token='' @ sample_token) advertised_store w =
     (Inr (rep, Some (ss_advertised advertised_store), s'), w)"
  using sample_query
  by (simp add: handle_download_def Let_def claimDownload_def advertised_store_def clientStatus_def zero_status_def
      sample_token_def server_env_def seqE_def trying_def ret_def store_get_def currentLocked_def del: append_Cons)

lemma download_needs_the_advertised_token_witness:
  "\<exists>rep s'. handle_download server_env default_cfg ''POST'' (''token='' @ sample_token) advertised_store (world_of empty_disk) =
     (Inr (rep, Some (ss_advertised advertised_store), s'), world_of empty_disk) \<and> rep_code rep = 200 \<and> ss_advertised s' = zero_status"
proof -
  obtain rep s' where run: "handle_download server_env default_cfg ''POST'' (''token='' @ sample_token) advertised_store (world_of empty_disk) =
     (Inr (rep, Some (ss_advertised advertised_store), s'), world_of empty_disk)" using sample_download_run by blast
  from download_needs_the_advertised_token [OF run] run show ?thesis by blast
qed

end
