(* ===== verification/Frames.thy ===== *)
theory Frames
  imports Updated ConfirmSafe
begin

section \<open>What the update agent may write\<close>

text \<open>
  The files each operation of cmd/updated may change, whatever fails: the agent's reads change
  none, and staging an update, a loader or a recovery image stays away from the status file.
\<close>

subsection \<open>Staging\<close>

lemma confined_seqE_gives:
  assumes m: "confined S m" and r: "\<And>w. gives m (\<lambda>x _. R x) w" and k: "\<And>x. R x \<Longrightarrow> confined S (k x)"
  shows "confined S (seqE m k)"
  unfolding confined_def
proof (intro allI impI)
  fix w :: world assume u: "unshared (w_disk w)"
  show "wp (seqE m k) (\<lambda>r w'. unshared (w_disk w') \<and> evolves (same_outside S (w_disk w)) w w') w"
  proof (rule wp_seqEI [OF wp_conj [OF confinedD [OF m u] r [unfolded gives_def]]])
    fix x and w1 :: world
    assume 1: "(unshared (w_disk w1) \<and> evolves (same_outside S (w_disk w)) w w1) \<and> (\<forall>y. Inr x = Inr y \<longrightarrow> R y)"
    show "wp (k x) (\<lambda>r w'. unshared (w_disk w') \<and> evolves (same_outside S (w_disk w)) w w') w1"
      by (rule wp_mono [OF confinedD [OF k]]) (use 1 in \<open>auto intro: evolves_same_trans\<close>)
  qed simp
qed

text \<open>A working directory under \<open>/tmp\<close>, removed at the end.\<close>

lemma confined_in_work:
  assumes "\<And>x. confined S (f [''tmp'', x])" and "temp_area \<subseteq> S"
  shows "confined S (seqE (mkdir_temp pre) (\<lambda>work. deferred (f work) (remove_all work)))"
proof (rule confined_seqE_gives [where R = "\<lambda>work. \<exists>x. work = [''tmp'', x]"])
  show "confined S (mkdir_temp pre)" by (rule confined_mono [OF confined_mkdir_temp assms(2)])
  show "gives (mkdir_temp pre) (\<lambda>work _. \<exists>x. work = [''tmp'', x]) w" for w
    by (auto simp: gives_def mkdir_temp_def wp_simps split: option.splits list.splits)
  fix work assume "\<exists>x. work = [''tmp'', x]"
  then obtain x where x: "work = [''tmp'', x]" by blast
  have "confined S (remove_all work)"
    by (rule confined_mono [OF confined_clear]) (use assms(2) below_two in \<open>auto simp: x temp_area_def\<close>)
  then show "confined S (deferred (f work) (remove_all work))"
    unfolding x by (intro confined_deferred assms(1))
qed

definition stage_files :: "path \<Rightarrow> stage_dirs \<Rightarrow> path set" where
  "stage_files p dirs = promotion_files p dirs \<union> tmp_names dirs \<union> loader_marks dirs \<union> firmware_area dirs \<union> temp_area"

lemma confined_stage:
  assumes p: "record_path_ok p"
  shows "confined (stage_files p dirs) (stage en p mURL rv rp dirs ex)"
proof -
  let ?S = "stage_files p dirs"
  have Save: "confined ?S (Save p d)" for d
    by (rule confined_mono [OF confined_Save]) (use p in \<open>auto simp: stage_files_def promotion_files_def record_path_ok_def wal_files_def\<close>)
  have promote: "confined ?S (promoteRunningCandidate en p dirs)"
    by (rule confined_mono [OF confined_promoteRunningCandidate [OF p]]) (auto simp: stage_files_def)
  have arts: "confined ?S (stage_rootfs en dirs m)" "confined ?S (stage_kernelcache en dirs m)" for m
    using kernelcache_files_sub [of dirs]
    by (auto intro!: confined_mono [OF confined_stage_artifacts(1)] confined_mono [OF confined_stage_artifacts(2)]
        simp: stage_files_def promotion_files_def)
  have fw: "confined ?S (stage_firmware en dirs vm)" for vm
    by (rule confined_mono [OF confined_stage_firmware]) (auto simp: stage_files_def)
  have checks: "confined ?S (stage_checks en p dirs m)" for m
    unfolding stage_checks_def
    by (auto intro!: confined_seqE confined_wrapE promote confined_quietly [OF quietly_hardware(1)] confined_quietly [OF quietly_hardware(3)])
  have no: "no_record p dirs \<subseteq> ?S" by (auto simp: no_record_def stage_files_def promotion_files_def)
  have commit: "confined ?S (stage_commit p dirs m staged)" if "sd_firmware dirs = [] \<longrightarrow> staged = []" for m staged
    unfolding stage_commit_def
    by (intro confined_seqE confined_mono [OF confined_commit_tail [OF that] no] Save) simp_all
  have body: "confined ?S (stage_in en p mURL rv rp dirs ex [''tmp'', x])" for x
  proof -
    have f: "confined ?S (fetchVerifiedManifest en [''tmp'', x] mURL rv rp ex)"
      by (rule confined_mono [OF confined_mono [OF confined_fetchVerifiedManifest inside_temp]]) (auto simp: stage_files_def)
    show ?thesis
      unfolding stage_in_def Let_def
      by (rule confined_seqE [OF f], rule confined_seqE [OF checks], rule confined_seqE [OF arts(1)],
          rule confined_seqE [OF arts(2)], rule confined_seqE_gives [OF fw gives_stage_firmware]) (auto intro: commit)
  qed
  show ?thesis
    unfolding stage_def by (rule confined_in_work [where f = "stage_in en p mURL rv rp dirs ex", OF body]) (simp add: stage_files_def)
qed

subsection \<open>Loader and recovery\<close>

definition loader_stage_files :: "stage_dirs \<Rightarrow> path set" where
  "loader_stage_files dirs = {loader_image dirs, path_suffix (loader_image dirs) ''.tmp'', loader_sig dirs, path_suffix (loader_sig dirs) ''.tmp''}
     \<union> loader_marks dirs \<union> {boot_state_path dirs} \<union> dot_names \<union> temp_area"

lemma quietly_pending [simp]: "quietly (pendingUpdateError c d s)"
  by (auto simp: pendingUpdateError_def Let_def intro!: quietly_intros)

lemma confined_StageLoader: "confined (loader_stage_files dirs) (StageLoader en p mURL rv rp dirs retry)"
proof -
  let ?S = "loader_stage_files dirs"
  have mark: "confined ?S (writeMarker (path_join (sd_esp dirs) loaderCandidateFile) ls)" for ls
    by (rule confined_mono [OF confined_writeMarker [OF loader_marks_in_place(1)]]) (auto simp: loader_stage_files_def loader_marks_def)
  have bs: "confined ?S (WriteBootState (boot_state_path dirs) b)" for b
    by (rule confined_mono [OF confined_WriteBootState]) (auto simp: loader_stage_files_def)
  have rm: "confined ?S (remove (path_join (sd_esp dirs) loaderRanFile))"
    by (rule confined_remove) (simp add: loader_stage_files_def loader_marks_def)
  have arm: "confined ?S (arm_loader en dirs v img)" for v img
    unfolding arm_loader_def by (intro confined_seqE confined_ignoring rm mark bs) simp_all
  have fetch: "confined ?S (fetch_loader en rp dirs vm)" for vm
    by (rule confined_mono [OF confined_fetch_loader]) (auto simp: loader_stage_files_def)
  have man: "confined ?S (fetchVerifiedManifest en [''tmp'', x] mURL rv rp [])" for x
    by (rule confined_mono [OF confined_mono [OF confined_fetchVerifiedManifest inside_temp]]) (auto simp: loader_stage_files_def)
  have body: "confined ?S (stage_loader_in en mURL rv rp dirs retry [''tmp'', x])" for x
    unfolding stage_loader_in_def Let_def
    by (auto intro!: confined_seqE man fetch arm confined_quietly [OF quietly_marks(2)] confined_quietly [OF quietly_marks(4)])
  show ?thesis
    unfolding StageLoader_def
    by (auto intro!: confined_seqE confined_in_work [where f = "stage_loader_in en mURL rv rp dirs retry", OF body] confined_quietly [OF quietly_pending]) (simp add: loader_stage_files_def)
qed

definition recovery_stage_files :: "path \<Rightarrow> stage_dirs \<Rightarrow> path set" where
  "recovery_stage_files p dirs =
     (let ns = {recovery_cur dirs, recovery_prev dirs, recovery_next dirs} in
      ns \<union> sig_of ` ns \<union> {path_suffix (recovery_next dirs) ''.tmp'', path_suffix (sig_of (recovery_next dirs)) ''.tmp'',
        path_join (sd_esp dirs) ''kernelcache-next.efi''} \<union> wal_files p \<union> dot_names \<union> temp_area)"

lemma confined_StageRecovery:
  assumes p: "record_path_ok p"
  shows "confined (recovery_stage_files p dirs) (StageRecovery en p mURL rv rp dirs)"
proof -
  let ?S = "recovery_stage_files p dirs"
  let ?cur = "recovery_cur dirs" and ?prev = "recovery_prev dirs" and ?next = "recovery_next dirs"
  have mem: "{?cur, ?prev, ?next, sig_of ?cur, sig_of ?prev, sig_of ?next} \<subseteq> ?S"
    by (auto simp: recovery_stage_files_def Let_def)
  have nx: "plain_path ?next" "plain_path (sig_of ?next)" "?next \<notin> in_place" "sig_of ?next \<notin> in_place"
    by (auto simp: recovery_next_def sig_of_def recoveryNextFile_def join_in_place has_prefix_def has_suffix_def intro!: plain_join)
  have ft: "confined ?S (FetchTo net url ?next)" "confined ?S (FetchTo net url (sig_of ?next))" for net url
    by (rule confined_mono [OF confined_FetchTo [OF nx(1)]], simp add: recovery_stage_files_def Let_def,
        rule confined_mono [OF confined_FetchTo [OF nx(2)]], simp add: recovery_stage_files_def Let_def)
  have fetch: "confined ?S (fetch_recovery en rp dirs vm)" for vm
    unfolding fetch_recovery_def Let_def
    by (rule confined_or_remove) (use mem in \<open>auto intro!: confined_seqE confined_wrapE ft\<close>)
  have rn: "confined ?S (rename a b)" if "a \<in> ?S" "b \<in> ?S" "b \<notin> in_place" for a b
    using that by (intro confined_rename) auto
  have swap: "confined ?S (swap_recovery dirs)"
    unfolding swap_recovery_def Let_def
    by (intro confined_seqE confined_wrapE confined_quietly [OF quietly_exists] confined_ignoring rn)
      (use mem recovery_paths_plain [of dirs] in \<open>auto intro!: confined_seqE confined_or_remove confined_wrapE confined_ignoring rn\<close>)
  have Save: "confined ?S (Save p d)" for d
    by (rule confined_mono [OF confined_Save]) (use p in \<open>auto simp: recovery_stage_files_def Let_def record_path_ok_def wal_files_def\<close>)
  have rm: "confined ?S (remove q)" if "q \<in> ?S" for q using that by (rule confined_remove)
  have fin: "confined ?S (finish_recovery en p dirs m)" for m
    unfolding finish_recovery_def
    by (intro confined_seqE confined_ignoring confined_trying rm)
      (use mem in \<open>auto intro!: confined_ignoring Save split: sum.splits\<close>)
  have repair: "confined ?S (RepairRecoverySlot dirs)"
    by (rule confined_mono [OF confined_RepairRecoverySlot]) (use mem in auto)
  have cur: "quietly (RecoveryIsCurrent cr dirs m)" for cr m
    by (auto simp: RecoveryIsCurrent_def fileSHA256_def intro!: quietly_intros)
  have man: "confined ?S (fetchVerifiedManifest en [''tmp'', x] mURL rv rp [])" for x
    by (rule confined_mono [OF confined_mono [OF confined_fetchVerifiedManifest inside_temp]]) (auto simp: recovery_stage_files_def Let_def)
  have nk: "path_join (sd_esp dirs) ''kernelcache-next.efi'' \<in> ?S" by (simp add: recovery_stage_files_def Let_def)
  have body: "confined ?S (stage_recovery_in en p mURL rv rp dirs [''tmp'', x])" for x
    unfolding stage_recovery_in_def Let_def
    by (auto intro!: confined_seqE man confined_ignoring confined_quietly [OF cur] rm nk fetch swap fin)
  show ?thesis
    unfolding StageRecovery_def
    by (auto intro!: confined_seqE confined_in_work [where f = "stage_recovery_in en p mURL rv rp dirs", OF body] repair confined_quietly [OF quietly_pending]) (simp add: recovery_stage_files_def Let_def)
qed

subsection \<open>The status file\<close>

definition state_at :: "disk \<Rightarrow> path \<Rightarrow> status option" where
  "state_at h p = (if p = [] then None else case file_data h p of None \<Rightarrow> None | Some b \<Rightarrow> text_state b)"

lemma quietly_readState [simp]: "quietly (readState p)"
  by (auto simp: readState_def intro!: quietly_intros)

lemma gives_readState: "gives (readState p) (\<lambda>r w'. r \<in> {None, state_at (w_disk w) p}) w"
  by (auto simp: gives_def readState_def state_at_def wp_simps sys_defs file_data_def split: option.splits sum.splits)

lemma readState_calm: "w_faults w = [] \<Longrightarrow> readState p w = (Inr (state_at (w_disk w) p), w)"
  by (auto simp: readState_def state_at_def trying_def read_file_def sys_call_def file_data_def ret_def split: option.splits)

lemma state_tmp_in_place: "plain_path p \<Longrightarrow> state_tmp pid p \<in> in_place"
proof -
  assume p: "plain_path p"
  have "path_suffix p (''.'' @ nat_str pid @ ''.tmp'') = path_suffix (path_suffix p (''.'' @ nat_str pid)) ''.tmp''"
    by (simp add: path_suffix_def)
  moreover have "plain_path (path_suffix p (''.'' @ nat_str pid))"
    using p by (cases "last p") (auto simp: plain_path_def path_suffix_def has_prefix_def)
  ultimately show ?thesis using plain_tmp_in_place by (simp add: state_tmp_def)
qed

lemma state_tmp_neq: "p \<noteq> [] \<Longrightarrow> state_tmp pid p \<noteq> p"
  by (simp add: state_tmp_def)

text \<open>On every disk of a write the status file is the old one or the new one, whole.\<close>

definition stating :: "nat \<Rightarrow> path \<Rightarrow> status \<Rightarrow> disk \<Rightarrow> disk \<Rightarrow> bool" where
  "stating pid p s d h \<longleftrightarrow> same_outside {p, state_tmp pid p} d h \<and> file_data h p \<in> {file_data d p, Some (state_text s)}"

lemma quiet_evolves: "quiet w w' \<Longrightarrow> evolves P w' w'' \<Longrightarrow> evolves P w w''"
  by (simp add: evolves_def quiet_def)

text \<open>A new text beside the file, renamed over it.\<close>

lemma holds_put:
  assumes t: "t \<in> in_place" "t \<noteq> p" and p: "p \<notin> in_place" and u: "unshared (w_disk w)"
  shows "holds (\<lambda>h. same_outside {p, t} (w_disk w) h \<and> file_data h p \<in> {file_data (w_disk w) p, Some s})
     (seqE (write_file t s) (\<lambda>_. rename t p)) (\<lambda>_ w'. file_data (w_disk w') p = Some s) w"
proof -
  let ?d = "w_disk w" let ?P = "\<lambda>h. same_outside {p, t} ?d h \<and> file_data h p \<in> {file_data ?d p, Some s}"
  have wr: "holds ?P (write_file t s) (\<lambda>_ w'. file_data (w_disk w') t = Some s) w"
  proof (rule holds_weaken [OF holds_write_file [OF u t(1)]])
    fix h assume "same_outside {t} ?d h \<and> file_data h t \<in> {file_data ?d t, Some [], Some s}"
    then have so: "same_outside {t} ?d h" by simp
    then have "lookup h p = lookup ?d p" using same_outsideD [OF so, of p] t(2) by simp
    then show "?P h" using so by (auto simp: file_data_def intro: same_outside_mono)
  qed
  have ren: "holds ?P (rename t p) (\<lambda>_ w'. file_data (w_disk w') p = Some s) w2"
    if "file_data (w_disk w2) t = Some s" "unshared (w_disk w2)" "?P (w_disk w2)" for w2
  proof -
    let ?h = "rename_disk t p (w_disk w2)"
    note f = that(1)
    obtain i where i: "dk_names (w_disk w2) t = Some i" using f by (cases "dk_names (w_disk w2) t") (simp_all add: file_data_def lookup_def)
    have "dk_names (w_disk w2) p \<noteq> Some i" by (rule unsharedD [OF that(2) t(1) i t(2) [symmetric]])
    then have l: "lookup ?h q = (if q = t then None else if q = p then lookup (w_disk w2) t else lookup (w_disk w2) q)" for q
      using i by (simp add: lookup_rename_disk)
    have f: "file_data ?h p = Some s" using l [of p] t(2) that(1) by (auto simp: file_data_def)
    then have "?P ?h" using that(3) l by (auto simp: same_outside_def)
    moreover have "unshared ?h" using that(2) p by (intro unshared_rename) auto
    ultimately show ?thesis
      using that f i by (auto simp: holds_def wp_simps sys_defs split: option.splits)
  qed
  show ?thesis by (rule holds_seqE [OF wr ren])
qed

lemma wp_writeState:
  assumes p: "plain_path p" "p \<notin> in_place" and u: "unshared (w_disk w)"
  shows "wp (writeState pid p s) (\<lambda>r w'. unshared (w_disk w') \<and> evolves (stating pid p s (w_disk w)) w w' \<and>
     (r = Inr () \<longrightarrow> file_data (w_disk w') p = Some (state_text s))) w"
proof -
  let ?t = "state_tmp pid p" and ?d = "w_disk w" let ?P = "stating pid p s ?d"
  have ne: "p \<noteq> []" using p(1) by (simp add: plain_path_def)
  note tp = state_tmp_in_place [OF p(1), of pid] state_tmp_neq [OF ne, of pid]
  have refl: "?P ?d" by (simp add: stating_def)
  have st: "stating pid p s d = (\<lambda>h. same_outside {p, ?t} d h \<and> (file_data h p = file_data d p \<or> file_data h p = Some (state_text s)))" for d
    by (simp add: fun_eq_iff stating_def)
  have body: "wp (seqE (write_file ?t (state_text s)) (\<lambda>_. rename ?t p))
      (\<lambda>r w'. unshared (w_disk w') \<and> evolves ?P w1 w' \<and> (\<forall>x. r = Inr x \<longrightarrow> file_data (w_disk w') p = Some (state_text s))) w1"
    if "quiet w w1" for w1
    using holds_put [OF tp p(2), of w1 "state_text s"] that u by (simp add: holds_def quiet_def st)
  have fin: "wp (remove ?t) (\<lambda>_ w'. unshared (w_disk w') \<and> evolves ?P w w' \<and> (r = Inr () \<longrightarrow> file_data (w_disk w') p = Some (state_text s))) w2"
    if "unshared (w_disk w2)" "evolves ?P w w2" "r = Inr () \<longrightarrow> file_data (w_disk w2) p = Some (state_text s)" for r :: "error + unit" and w2
    using that evolves_final [OF that(2)] tp(2)
    by (auto simp: wp_simps sys_defs stating_def same_outside_def file_data_def lookup_unlink split: option.splits
        intro!: evolves_put_disk)
  have "quietly (ignoring (mkdir_all (path_dir p)))" by (intro quietly_ignoring) simp
  then have q: "wp (ignoring (mkdir_all (path_dir p))) (\<lambda>_ w1. quiet w w1) w" by (rule quietlyD)
  show ?thesis
    unfolding writeState_def using ne
    by (simp, intro wp_seqEI [OF q], simp add: quiet_def evolves_def u refl)
      (auto simp: u intro!: wp_deferredI [OF body] fin intro: quiet_evolves)
qed

subsection \<open>The history of installed versions\<close>

definition history_at :: "disk \<Rightarrow> path \<Rightarrow> history_entry list" where
  "history_at h p = (case file_data h p of None \<Rightarrow> [] | Some b \<Rightarrow> text_history b)"

definition entry_ok :: "history_entry \<Rightarrow> bool" where
  "entry_ok e \<longleftrightarrow> utf8_text (he_version e) \<and> utf8_text (he_build e) \<and> int64_range (he_time e)"

lemma entry_back:
  assumes "entry_ok e"
  shows "wf_json (enc_entry e)" and "dec_entry (enc_entry e) zero_entry = Inr e"
proof -
  have "ascii ''version''" "ascii ''build''" "ascii ''time''" "ascii ''success''" by code_simp+
  then show "wf_json (enc_entry e)" using assms by (auto simp: enc_entry_def entry_ok_def omitempty_def)
  show "dec_entry (enc_entry e) zero_entry = Inr e"
    using assms by (cases e) (simp add: dec_entry_def enc_entry_def decode_eval zero_entry_def entry_ok_def)
qed

lemma text_history_text: "list_all entry_ok es \<Longrightarrow> text_history (history_text es) = es"
proof -
  assume es: "list_all entry_ok es"
  then have "wf_json (JArr (map enc_entry es))" by (auto simp: list_all_iff entry_back(1))
  then have "json_parse (history_text es) = Inr (JArr (map enc_entry es))"
    using json_parse_indent [of "JArr (map enc_entry es)" "[]" 0] by (simp add: history_text_def skip_ws_def)
  moreover have "dec_elems dec_entry zero_entry (map enc_entry es) [] = Inr es"
    using es by (induction es) (simp_all add: entry_back(2))
  ultimately show ?thesis by (simp add: text_history_def dec_slice_def)
qed

lemma readHistory_calm: "w_faults w = [] \<Longrightarrow> readHistory p w = (Inr (history_at (w_disk w) p), w)"
  by (auto simp: readHistory_def history_at_def trying_def read_file_def sys_call_def file_data_def ret_def split: option.splits)

lemma holds_writeHistory:
  assumes p: "plain_path p" "p \<notin> in_place" and u: "unshared (w_disk w)"
  shows "holds (\<lambda>h. file_data h p \<in> {file_data (w_disk w) p, Some (history_text es)}) (writeHistory p es)
     (\<lambda>_ w'. file_data (w_disk w') p = Some (history_text es)) w"
  unfolding writeHistory_def
proof (rule holds_seqE [OF holds_quietly_any [where P = "\<lambda>h. file_data h p \<in> {file_data (w_disk w) p, Some (history_text es)}"]])
  fix x and w1 :: world assume 1: "w_disk w1 = w_disk w" "unshared (w_disk w1)"
  have "path_suffix p ''.tmp'' \<noteq> p" using p(1) by (simp add: plain_path_def)
  from holds_put [OF plain_tmp_in_place [OF p(1)] this p(2) 1(2), of "history_text es"]
  show "holds (\<lambda>h. file_data h p \<in> {file_data (w_disk w) p, Some (history_text es)})
     (seqE (write_file (path_suffix p ''.tmp'') (history_text es)) (\<lambda>_. rename (path_suffix p ''.tmp'') p))
     (\<lambda>_ w'. file_data (w_disk w') p = Some (history_text es)) w1"
    using 1 by (auto elim!: holds_weaken)
qed (use u in simp_all)

text \<open>The history of installed versions: recording the running version leaves, on every disk on
  the way, the old history or the old one with the new entry at its end and at most the hundred
  latest entries; when it reports success the running version and build are the last entry, and a
  version that is already the last one is not repeated.\<close>

theorem recordRunning_extends_history:
  assumes "unshared (w_disk w)" and "plain_path p" "p \<notin> in_place" and "w_faults w = []"
    and "list_all entry_ok (history_at (w_disk w) p)" and "utf8_text version" "utf8_text build" "int64_range now" "version \<noteq> []"
    and "recordRunning p version build now w = (r, w')"
  shows "let es = history_at (w_disk w) p; e = \<lparr>he_version = version, he_build = build, he_time = now, he_success = True\<rparr> in
     evolves (\<lambda>h. history_at h p \<in> {es, next_history es e}) w w' \<and> length (next_history es e) \<le> 100 \<and>
     (r = Inr () \<longrightarrow> (let es' = history_at (w_disk w') p in
        es' \<noteq> [] \<and> he_version (last es') = version \<and> he_build (last es') = build \<and>
        (es \<noteq> [] \<and> he_version (last es) = version \<and> he_build (last es) = build \<longrightarrow> es' = es)))"
proof -
  let ?es = "history_at (w_disk w) p" and ?e = "\<lparr>he_version = version, he_build = build, he_time = now, he_success = True\<rparr>"
  let ?new = "next_history ?es ?e"
  have p: "p \<noteq> []" using assms(2) by (simp add: plain_path_def)
  have len: "length ?new \<le> 100" "?new \<noteq> []" "last ?new = ?e" by (simp_all add: next_history_def historyLimit_def Let_def)
  have ok: "list_all entry_ok ?new"
    using assms(5-8) set_drop_subset [of "length (?es @ [?e]) - historyLimit" "?es @ [?e]"]
    by (auto simp: next_history_def Let_def list_all_iff entry_ok_def)
  show ?thesis
  proof (cases "?es \<noteq> [] \<and> he_version (last ?es) = version \<and> he_build (last ?es) = build")
    case True
    then have "(r, w') = (Inr (), w)"
      using assms(4,9,10) p by (simp add: recordRunning_def seqE_def trying_def readHistory_calm ret_def)
    then show ?thesis using True len by (simp add: Let_def)
  next
    case False
    then have run: "writeHistory p ?new w = (r, w')"
      using assms(4,9,10) p by (auto simp: recordRunning_def seqE_def trying_def readHistory_calm)
    have at: "file_data h p = Some (history_text ?new) \<Longrightarrow> history_at h p = ?new"
      "file_data h p = file_data (w_disk w) p \<Longrightarrow> history_at h p = ?es" for h
      by (simp_all add: history_at_def [of h] text_history_text [OF ok]) (simp add: history_at_def)
    from holdsD [OF holds_writeHistory [OF assms(2,3,1)] run]
    have 1: "evolves (\<lambda>h. file_data h p \<in> {file_data (w_disk w) p, Some (history_text ?new)}) w w'"
      and 2: "r = Inr () \<longrightarrow> file_data (w_disk w') p = Some (history_text ?new)" by auto
    have "evolves (\<lambda>h. history_at h p \<in> {?es, ?new}) w w'"
      by (rule evolves_mono [OF 1]) (use at in blast)
    moreover have "r = Inr () \<longrightarrow> history_at (w_disk w') p = ?new"
      using 2 at(1) by blast
    ultimately show ?thesis using len False by (auto simp: Let_def)
  qed
qed

definition sample_history :: path where
  "sample_history = [''var'', ''lib'', ''updated'', ''history.json'']"

lemma recordRunning_extends_history_witness:
  "evolves (\<lambda>h. history_at h sample_history \<in> {[], [\<lparr>he_version = ''v43'', he_build = ''b7'', he_time = 5, he_success = True\<rparr>]})
     (world_of empty_disk) (snd (recordRunning sample_history ''v43'' ''b7'' 5 (world_of empty_disk)))"
proof -
  have p: "plain_path sample_history" "sample_history \<notin> in_place"
    by (simp_all add: sample_history_def plain_path_def in_place_def has_prefix_def has_suffix_def)
  have e: "history_at empty_disk sample_history = []"
    by (simp add: history_at_def file_data_def lookup_def empty_disk_def)
  have t: "utf8_text ''v43''" "utf8_text ''b7''" by code_simp+
  have "unshared empty_disk" by simp
  from recordRunning_extends_history [OF _ p _ _ t _ _ prod.collapse [symmetric], of "world_of empty_disk" 5] this e
  show ?thesis by (simp add: int64_range_def next_history_def historyLimit_def Let_def)
qed

end
