(* ===== verification/Agent.thy ===== *)
theory Agent
  imports Frames
begin

section \<open>The update agent as a state machine\<close>

text \<open>
  cmd/updated as \<open>serve\<close> runs it: requests, downloads and polls are tasks that interleave at the
  critical sections of the store and at the staging lock, among them other processes that poll,
  take the lock or write other files, and restarts of the agent. Staging itself is one step, which
  the lock makes exclusive. \<open>ag_tokens\<close> (the consent the user gave) and \<open>ag_staged\<close> (the
  manifests staged with success) are recorded for the properties only.
\<close>

datatype holder = Nobody | By_download | By_reboot | By_other

text \<open>\<open>Polled\<close> has asked the feed, \<open>Published\<close> is about to advertise, \<open>Waiting\<close> is a claimed
  download without the lock, \<open>Holding\<close> one with it, \<open>Done\<close> one that has let it go.\<close>

datatype task = Polled status | Published status | Waiting status | Holding status | Done status

record agent =
  ag_store :: status_store
  ag_world :: world
  ag_holder :: holder
  ag_tasks :: "task multiset"
  ag_tokens :: "string set"
  ag_staged :: "string list"
  ag_rebooted :: bool

definition agent_cr :: "agent_env \<Rightarrow> crypto" where
  "agent_cr ae = e_crypto (ua_env ae)"

definition lock_taken :: "agent \<Rightarrow> bool" where
  "lock_taken a \<longleftrightarrow> ag_holder a \<noteq> Nobody"

inductive agent_step :: "agent_env \<Rightarrow> agent_cfg \<Rightarrow> agent \<Rightarrow> agent \<Rightarrow> bool" for ae c where
  Poll: "pollOnce ae c (ag_world a) = (Inr st, w') \<Longrightarrow>
    agent_step ae c a (a\<lparr>ag_world := w', ag_tasks := add_mset (Polled st) (ag_tasks a)\<rparr>)"
| Publish: "ag_tasks a = add_mset (Polled st) ts \<Longrightarrow>
    publishPoll (ua_pid ae) (uc_state c) st (ag_store a) (ag_world a) = (Inr r, w') \<Longrightarrow>
    agent_step ae c a (a\<lparr>ag_world := w', ag_tasks := add_mset (Published (poll_reply (ua_errno ae) r)) ts\<rparr>)"
| Publish_elsewhere: "ag_tasks a = add_mset (Polled st) ts \<Longrightarrow>
    publishPoll pid (uc_state c) st new_store (ag_world a) = (Inr r, w') \<Longrightarrow>
    agent_step ae c a (a\<lparr>ag_world := w', ag_tasks := ts\<rparr>)"
| Advertise: "ag_tasks a = add_mset (Published st) ts \<Longrightarrow>
    agent_step ae c a (a\<lparr>ag_store := snd (advertise st (ag_store a)), ag_tasks := ts\<rparr>)"
| Forget: "ag_tasks a = add_mset (Published st) ts \<Longrightarrow> agent_step ae c a (a\<lparr>ag_tasks := ts\<rparr>)"
| Status: "getForClient (uc_state c) (ag_store a) (ag_world a) = (Inr (st, s'), w') \<Longrightarrow>
    agent_step ae c a (a\<lparr>ag_store := s', ag_world := w'\<rparr>)"
| Claim: "claimDownload (agent_cr ae) (uc_state c) token (ag_store a) (ag_world a) = (Inr (st, True, s'), w') \<Longrightarrow>
    agent_step ae c a (a\<lparr>ag_store := s', ag_world := w', ag_tasks := add_mset (Waiting st) (ag_tasks a),
      ag_tokens := insert token (ag_tokens a)\<rparr>)"
| Refuse: "claimDownload (agent_cr ae) (uc_state c) token (ag_store a) (ag_world a) = (Inr (st, False, s'), w') \<Longrightarrow>
    agent_step ae c a (a\<lparr>ag_store := s', ag_world := w'\<rparr>)"
| No_lock: "ag_tasks a = add_mset (Waiting st) ts \<Longrightarrow>
    acquireStageLock (lock_taken a) (uc_stage_lock c) (ag_world a) = (Inr (Some e), w') \<Longrightarrow>
    agent_step ae c a (a\<lparr>ag_world := w', ag_tasks := add_mset (Done (download_outcome (ua_errno ae) st (Inl e))) ts\<rparr>)"
| Lock: "ag_tasks a = add_mset (Waiting st) ts \<Longrightarrow>
    acquireStageLock (lock_taken a) (uc_stage_lock c) (ag_world a) = (Inr None, w') \<Longrightarrow>
    agent_step ae c a (a\<lparr>ag_world := w', ag_holder := By_download, ag_tasks := add_mset (Holding st) ts\<rparr>)"
| Progress: "agent_step ae c a (a\<lparr>ag_store := setProgress got whole (ag_store a)\<rparr>)"
| Staged: "ag_tasks a = add_mset (Holding st) ts \<Longrightarrow> run_stage ae c (st_manifest st) (ag_world a) = (r, w') \<Longrightarrow>
    agent_step ae c a (a\<lparr>ag_world := w', ag_holder := Nobody,
      ag_tasks := add_mset (Done (download_outcome (ua_errno ae) st (as_stage_error r))) ts,
      ag_staged := (case r of Inl _ \<Rightarrow> ag_staged a | Inr _ \<Rightarrow> st_manifest st # ag_staged a)\<rparr>)"
| Complete: "ag_tasks a = add_mset (Done st) ts \<Longrightarrow>
    complete (ua_pid ae) (uc_state c) st (ag_store a) (ag_world a) = (Inr s', w') \<Longrightarrow>
    agent_step ae c a (a\<lparr>ag_store := s', ag_world := w', ag_tasks := ts\<rparr>)"
| Reboot_claimed: "claimReboot c (lock_taken a) (ag_store a) (ag_world a) = (Inr None, w') \<Longrightarrow>
    agent_step ae c a (a\<lparr>ag_world := w', ag_holder := By_reboot\<rparr>)"
| Reboot_refused: "claimReboot c (lock_taken a) (ag_store a) (ag_world a) = (Inr (Some e), w') \<Longrightarrow>
    agent_step ae c a (a\<lparr>ag_world := w'\<rparr>)"
| Reboot: "ag_holder a = By_reboot \<Longrightarrow> agent_step ae c a (a\<lparr>ag_rebooted := True\<rparr>)"
| Reboot_failed: "ag_holder a = By_reboot \<Longrightarrow> agent_step ae c a (a\<lparr>ag_holder := Nobody\<rparr>)"
| Loader_update: "updated_stageLoader ae c (lock_taken a) retry (ag_world a) = (r, w') \<Longrightarrow>
    agent_step ae c a (a\<lparr>ag_world := w'\<rparr>)"
| Loader_auto: "setLoaderAuto on (ag_world a) = (r, w') \<Longrightarrow> agent_step ae c a (a\<lparr>ag_world := w'\<rparr>)"
| Startup_loader: "maybeAutoStageLoader ae c (lock_taken a) st (ag_world a) = (r', w') \<Longrightarrow>
    agent_step ae c a (a\<lparr>ag_world := w'\<rparr>)"
| Startup_recovery: "maybeStageRecovery ae c (lock_taken a) st (ag_world a) = (r', w') \<Longrightarrow>
    agent_step ae c a (a\<lparr>ag_world := w'\<rparr>)"
| Other_locks: "ag_holder a = Nobody \<Longrightarrow> agent_step ae c a (a\<lparr>ag_holder := By_other\<rparr>)"
| Other_unlocks: "ag_holder a = By_other \<Longrightarrow> agent_step ae c a (a\<lparr>ag_holder := Nobody\<rparr>)"
| Other_writes: "unshared (w_disk w') \<Longrightarrow> file_data (w_disk w') (uc_state c) = file_data (w_disk (ag_world a)) (uc_state c) \<Longrightarrow>
    agent_step ae c a (a\<lparr>ag_world := w'\<rparr>)"
| Restart: "agent_step ae c a (a\<lparr>ag_store := new_store, ag_tasks := {#},
      ag_holder := (if ag_holder a = By_other then By_other else Nobody)\<rparr>)"

text \<open>The agent starts after a boot, with no update reported as ready.\<close>

definition agent_starts :: "agent_cfg \<Rightarrow> agent \<Rightarrow> bool" where
  "agent_starts c a \<longleftrightarrow> ag_store a = new_store \<and> ag_tasks a = {#} \<and> ag_holder a = Nobody \<and> ag_tokens a = {} \<and>
     ag_staged a = [] \<and> \<not> ag_rebooted a \<and> unshared (w_disk (ag_world a)) \<and>
     (\<forall>st. state_at (w_disk (ag_world a)) (uc_state c) = Some st \<longrightarrow> st_state st \<noteq> ''ready'')"

inductive agent_reachable :: "agent_env \<Rightarrow> agent_cfg \<Rightarrow> agent \<Rightarrow> bool" for ae c where
  Start: "agent_starts c a \<Longrightarrow> agent_reachable ae c a"
| Step: "agent_reachable ae c a \<Longrightarrow> agent_step ae c a a' \<Longrightarrow> agent_reachable ae c a'"

subsection \<open>The files of the agent's operations\<close>

definition esp_dirs :: "agent_cfg \<Rightarrow> stage_dirs" where
  "esp_dirs c = \<lparr>sd_rootfs = uc_rootfs c, sd_esp = uc_esp c, sd_firmware = []\<rparr>"

definition agent_files :: "agent_cfg \<Rightarrow> path set" where
  "agent_files c = stage_files (uc_wal c) (agent_dirs c) \<union> loader_stage_files (esp_dirs c) \<union>
     recovery_stage_files (uc_wal c) (esp_dirs c) \<union> {uc_stage_lock c, loaderAutoFlag}"

definition agent_ok :: "agent_cfg \<Rightarrow> bool" where
  "agent_ok c \<longleftrightarrow> record_path_ok (uc_wal c) \<and> plain_path (uc_state c) \<and> uc_state c \<notin> in_place \<and> uc_state c \<notin> agent_files c"

lemma confined_open_create: "confined {p} (open_create p)"
  using unshared_wf names_fresh
  by (auto simp: confined_def open_create_def wp_simps same_outside_def lookup_new_inode split: option.splits)

lemma quietly_flock [simp]: "quietly (flock b)"
  by (auto simp: quietly_def quiet_def flock_def wp_simps split: option.splits)

lemma confined_lock: "confined {p} (acquireStageLock b p)"
proof -
  have "quietly (fclose i)" for i by (auto simp: quietly_def quiet_def wp_simps sys_defs split: option.splits)
  then have "confined {p} (fclose i)" for i by (rule confined_quietly)
  moreover have "confined {p} (flock b)" by (rule confined_quietly) simp
  ultimately show ?thesis
    unfolding acquireStageLock_def
    by (auto intro!: confined_trying confined_open_create split: sum.splits bool.splits)
qed

lemma confined_with_lock:
  assumes "confined S m" and "p \<in> S"
  shows "confined S (with_lock b p m)"
  unfolding with_lock_def
  by (rule confined_seqE [OF confined_mono [OF confined_lock]])
    (use assms in \<open>auto intro!: confined_trying split: option.splits\<close>)

lemma quietly_loaderAuto [simp]: "quietly loaderAuto" "quietly (ReadLoaderStatus dirs)"
  by (auto simp: loaderAuto_def ReadLoaderStatus_def intro!: quietly_intros)

lemma confined_agent:
  assumes "agent_ok c"
  shows "confined (agent_files c) (run_stage ae c x)"
    and "confined (agent_files c) (updated_stageLoader ae c b retry)"
    and "confined (agent_files c) (setLoaderAuto on)"
    and "confined (agent_files c) (maybeAutoStageLoader ae c b st)"
    and "confined (agent_files c) (maybeStageRecovery ae c b st)"
    and "confined (agent_files c) (acquireStageLock b (uc_stage_lock c))"
proof -
  let ?S = "agent_files c"
  have p: "record_path_ok (uc_wal c)" using assms by (simp add: agent_ok_def)
  show "confined ?S (run_stage ae c x)"
    unfolding run_stage_def StageExpectedManifest_def
    by (auto intro!: confined_mono [OF confined_stage [OF p]] simp: agent_files_def)
  show l: "confined ?S (updated_stageLoader ae c b retry)" for b retry
    unfolding updated_stageLoader_def esp_dirs_def [symmetric]
    by (rule confined_with_lock [OF confined_mono [OF confined_StageLoader]]) (auto simp: agent_files_def)
  have "loaderAutoFlag \<in> in_place" by (simp add: loaderAutoFlag_def in_place_def has_prefix_def)
  then have "confined ?S (write_file loaderAutoFlag t)" for t
    by (rule confined_mono [OF confined_write_file]) (simp add: agent_files_def)
  moreover have "confined ?S (remove loaderAutoFlag)" by (rule confined_remove) (simp add: agent_files_def)
  ultimately show "confined ?S (setLoaderAuto on)"
    unfolding setLoaderAuto_def by (auto intro!: confined_trying confined_seqE split: sum.splits)
  show "confined ?S (maybeAutoStageLoader ae c b st)"
    unfolding maybeAutoStageLoader_def
    by (auto intro!: confined_seqE l confined_quietly [OF quietly_loaderAuto(1)] confined_quietly [OF quietly_loaderAuto(2)])
  show "confined ?S (maybeStageRecovery ae c b st)"
    unfolding maybeStageRecovery_def esp_dirs_def [symmetric]
    by (auto intro!: confined_seqE confined_with_lock confined_mono [OF confined_StageRecovery [OF p]] simp: agent_files_def)
  show "confined ?S (acquireStageLock b (uc_stage_lock c))"
    by (rule confined_mono [OF confined_lock]) (simp add: agent_files_def)
qed

end
