(* ===== verification/StageRun.thy ===== *)
theory StageRun
  imports StageSafe
begin

section \<open>An offered update is staged\<close>

text \<open>
  The converse of theory \<open>StageSafe\<close>: without failures, an update that the server offers whole,
  that is authentic and no downgrade, is staged. \<open>runs m Q w\<close>: \<open>m\<close> succeeds from \<open>w\<close>, with a
  value and a world that satisfy \<open>Q\<close>.
\<close>

definition runs :: "'a io \<Rightarrow> ('a \<Rightarrow> world \<Rightarrow> bool) \<Rightarrow> world \<Rightarrow> bool" where
  "runs m Q w \<longleftrightarrow> wp m (\<lambda>r w'. \<exists>x. r = Inr x \<and> Q x w') w"

lemma runs_iff: "runs m Q w \<longleftrightarrow> (\<exists>x w'. m w = (Inr x, w') \<and> Q x w')"
  by (auto simp: runs_def wp_def split: prod.splits)

lemma runs_eq: "m w = (Inr x, w') \<Longrightarrow> Q x w' \<Longrightarrow> runs m Q w"
  by (auto simp: runs_iff)

lemma runs_mono: "runs m P w \<Longrightarrow> (\<And>x w'. P x w' \<Longrightarrow> Q x w') \<Longrightarrow> runs m Q w"
  unfolding runs_iff by blast

lemma runs_ret: "Q x w \<Longrightarrow> runs (ret x) Q w"
  by (simp add: runs_def wp_simps)

lemma runs_lift: "r = Inr x \<Longrightarrow> Q x w \<Longrightarrow> runs (lift_err r) Q w"
  by (simp add: runs_def wp_simps)

lemma runs_seqE: "runs m P w \<Longrightarrow> (\<And>x w'. P x w' \<Longrightarrow> runs (k x) Q w') \<Longrightarrow> runs (seqE m k) Q w"
  by (fastforce simp: runs_iff seqE_def trying_def)

lemma runs_step: "m w = (Inr x, w1) \<Longrightarrow> runs (k x) Q w1 \<Longrightarrow> runs (seqE m k) Q w"
  by (simp add: runs_iff seqE_def trying_def)

lemma runs_wrapE: "runs m Q w \<Longrightarrow> runs (wrapE s m) Q w"
  by (auto simp: runs_iff wrapE_def trying_def ret_def)

lemma runs_or_remove: "runs m Q w \<Longrightarrow> runs (or_remove ps m) Q w"
  by (auto simp: runs_iff or_remove_def trying_def ret_def)

lemma runs_deferred: "runs m (\<lambda>_ _. True) w \<Longrightarrow> runs (deferred m c) (\<lambda>_ _. True) w"
  by (auto simp: runs_iff deferred_def trying_def split: prod.splits)

subsection \<open>What is steady while an update is fetched\<close>

text \<open>No failures, random names for \<open>k\<close> temporary files, and the record \<open>cur\<close> on the disk.\<close>

definition steady :: "nat \<Rightarrow> path \<Rightarrow> deployment \<Rightarrow> world \<Rightarrow> bool" where
  "steady k p cur w \<longleftrightarrow> calm k w \<and> unshared (w_disk w) \<and> wal_of p (w_disk w) = Some cur"

lemma steady_faults: "steady k p cur w \<Longrightarrow> w_faults w = []"
  by (simp add: steady_def calm_def)

lemma steady_Load: "steady k p cur w \<Longrightarrow> Q cur w \<Longrightarrow> runs (Load p) Q w"
  by (rule runs_eq [of _ _ cur w]) (simp_all add: steady_def calm_def Load_calm)

text \<open>What a confined operation leaves steady.\<close>

lemma steady_confined:
  assumes "confined S m" and "wal_files p \<inter> S = {}" and "steady k p cur w" and "runs m (\<lambda>x w'. calm j w' \<and> Q x w') w"
  shows "runs m (\<lambda>x w'. steady j p cur w' \<and> Q x w') w"
proof -
  obtain x w' where run: "m w = (Inr x, w')" "calm j w'" "Q x w'" using assms(4) by (auto simp: runs_iff)
  have u: "unshared (w_disk w')" and so: "same_outside S (w_disk w) (w_disk w')"
    using wpD [OF confinedD [OF assms(1)] run(1)] assms(3) by (auto simp: steady_def dest: evolves_final)
  have "p \<notin> S" "path_suffix p BakSuffix \<notin> S" using assms(2) by (auto simp: wal_files_def)
  then have "wal_of p (w_disk w') = wal_of p (w_disk w)" using so by (intro wal_of_cong) (auto dest: same_outsideD)
  then have "steady j p cur w'" using run(2) u assms(3) by (simp add: steady_def)
  then show ?thesis using run(1,3) unfolding runs_iff by blast
qed

subsection \<open>Downloads\<close>

definition serves :: "network \<Rightarrow> string \<Rightarrow> string \<Rightarrow> bool" where
  "serves net url b \<longleftrightarrow> (\<forall>seen. \<exists>resp. net seen url = Inr resp \<and> rp_status resp = 200 \<and> rp_body resp = b \<and> \<not> rp_broken resp)"

lemma runs_get:
  assumes "serves net url b"
  shows "\<exists>resp. get net url w = (Inr resp, w\<lparr>w_urls := w_urls w @ [url]\<rparr>) \<and> rp_status resp = 200 \<and> rp_body resp = b \<and> \<not> rp_broken resp"
proof -
  obtain resp where "net (w_urls w) url = Inr resp" "rp_status resp = 200" "rp_body resp = b" "\<not> rp_broken resp"
    using assms by (auto simp: serves_def)
  then show ?thesis
    by (simp add: get_def get_hops.simps seqE_def wrapE_def trying_def request_def ret_def redirect_codes_def)
qed

lemma runs_FetchTo:
  assumes calm: "calm k w" and u: "unshared (w_disk w)" and dest: "plain_path dest" and sv: "serves net url b"
  shows "runs (FetchTo net url dest) (\<lambda>_ w'. calm k w' \<and> file_data (w_disk w') dest = Some b) w"
proof -
  let ?t = "path_suffix dest ''.tmp''"
  obtain resp where get: "get net url w = (Inr resp, w\<lparr>w_urls := w_urls w @ [url]\<rparr>)"
    and resp: "rp_status resp = 200" "rp_body resp = b" "\<not> rp_broken resp"
    using runs_get [OF sv] by blast
  have c: "w_faults w = []" "wf_disk (w_disk w)" "\<And>q. q \<in> dot_names \<Longrightarrow> dk_names (w_disk w) q = None" "k \<le> length (w_entropy w)"
    using calm by (auto simp: calm_def clean_def)
  have names: "dest \<notin> dot_names" "?t \<notin> dot_names" "?t \<noteq> dest"
    using plain_path_names [OF dest] by simp_all
  have fresh: "dk_names (w_disk w) q \<noteq> Some (dk_next (w_disk w))" for q using names_fresh [OF c(2)] .
  have priv: "dk_names (w_disk w) ?t = Some i \<Longrightarrow> dk_names (w_disk w) dest \<noteq> Some i" for i
    using unsharedD [OF u plain_tmp_in_place [OF dest], of i dest] names(3) by simp
  have wf: "dk_names (w_disk w) q = Some i \<Longrightarrow> i < dk_next (w_disk w)" for q i using c(2) by (simp add: wf_disk_def)
  have less: "dk_names (w_disk w) q = Some i \<Longrightarrow> i < Suc (dk_next (w_disk w))" for q i using wf by (simp add: less_Suc_eq)
  note eval = wp_simps sys_defs copy_body_def syncDir_def next_fault_def rename_disk_def new_inode_def set_inode_def
    calm_def clean_def wf_disk_def file_data_def lookup_def
  show ?thesis
    unfolding runs_def FetchTo_def Let_def wp_seqE [of "get net url"] wp_def [of "get net url"] get
    using resp c names fresh [THEN not_sym] priv [THEN not_sym] wf less
    by (cases "dk_names (w_disk w) ?t") (auto simp: eval)
qed

lemma runs_fetch:
  assumes "steady k p cur w" "plain_path dest" "wal_files p \<inter> {dest, path_suffix dest ''.tmp''} = {}" "serves net url b"
  shows "runs (FetchTo net url dest) (\<lambda>_ w'. steady k p cur w' \<and> file_data (w_disk w') dest = Some b) w"
  using assms(1) by (intro steady_confined [OF confined_FetchTo [OF assms(2)] assms(3,1)] runs_FetchTo [OF _ _ assms(2,4)])
    (simp_all add: steady_def)

lemma runs_read: "steady k p cur w \<Longrightarrow> file_data (w_disk w) q = Some b \<Longrightarrow> runs (read_file q) (\<lambda>x w'. x = b \<and> w' = w) w"
  by (rule runs_eq [of _ _ b w]) (auto simp: read_file_def sys_call_def file_data_def next_fault_def dest: steady_faults)

lemma runs_fetch_file:
  assumes "steady k p cur w" "n \<noteq> []" "hd n \<noteq> CHR ''.''" "wal_files p \<inter> inside work = {}" "serves (e_net en) url b"
  shows "runs (fetch_file en work url n) (\<lambda>x w'. x = b \<and> steady k p cur w') w"
proof -
  have "wal_files p \<inter> {path_join work n, path_suffix (path_join work n) ''.tmp''} = {}"
    using assms(4) by auto
  note fetch = runs_fetch [OF assms(1) plain_join [OF assms(2,3)] this assms(5)]
  show ?thesis unfolding fetch_file_def Let_def by (rule runs_seqE [OF fetch], elim conjE, rule runs_mono [OF runs_read]) auto
qed

text \<open>\<open>offers\<close>: the four files of an authentic manifest can be fetched.\<close>

definition offers :: "env \<Rightarrow> string \<Rightarrow> string \<Rightarrow> string \<Rightarrow> verified_manifest \<Rightarrow> bool" where
  "offers en url rootPub expected vm \<longleftrightarrow>
     serves (e_net en) url (vm_data vm) \<and> serves (e_net en) (url @ ''.sig'') (vm_sig vm) \<and>
     serves (e_net en) (url_dir url @ ''signing-cert.json'') (vm_cert vm) \<and>
     serves (e_net en) ((url_dir url @ ''signing-cert.json'') @ ''.sig'') (vm_cert_sig vm) \<and>
     (\<exists>pub v. VerifyCert (e_crypto en) (vm_cert vm) (vm_cert_sig vm) rootPub (e_now en 0) = Inr (pub, v) \<and>
        check_manifest (e_crypto en) (vm_data vm) (vm_sig vm) pub expected = Inr (vm_manifest vm))"

lemma runs_fetchVerifiedManifest:
  assumes "steady k p cur w" "wal_files p \<inter> inside work = {}" "offers en url rootPub expected vm"
  shows "runs (fetchVerifiedManifest en work url [] rootPub expected) (\<lambda>x w'. x = vm \<and> steady k p cur w') w"
proof -
  obtain pub v where o: "VerifyCert (e_crypto en) (vm_cert vm) (vm_cert_sig vm) rootPub (e_now en 0) = Inr (pub, v)"
    "check_manifest (e_crypto en) (vm_data vm) (vm_sig vm) pub expected = Inr (vm_manifest vm)"
    and sv: "serves (e_net en) url (vm_data vm)" "serves (e_net en) (url @ ''.sig'') (vm_sig vm)"
      "serves (e_net en) (url_dir url @ ''signing-cert.json'') (vm_cert vm)"
      "serves (e_net en) ((url_dir url @ ''signing-cert.json'') @ ''.sig'') (vm_cert_sig vm)"
    using assms(3) unfolding offers_def by blast
  have fetch: "runs (fetch_file en work u n) (\<lambda>x w'. x = b \<and> steady k p cur w') w1"
    if "steady k p cur w1" "n \<noteq> []" "hd n \<noteq> CHR ''.''" "serves (e_net en) u b" for u n b w1
    using runs_fetch_file [OF that(1-3) assms(2) that(4)] .
  have rest: "runs (seqE (check_revoked en work [] rootPub v) (\<lambda>_. seqE (lift_err (Inr m)) f)) Q w1" if "runs (f m) Q w1"
    for v m f Q and w1 :: world
    using that by (simp add: runs_def wp_simps check_revoked_def)
  show ?thesis
    unfolding fetchVerifiedManifest_def Let_def
  proof (rule runs_seqE [OF fetch [OF assms(1) _ _ sv(1)]], simp, simp, erule conjE, hypsubst,
      rule runs_seqE [OF fetch [OF _ _ _ sv(2)]], assumption, simp, simp, erule conjE, hypsubst,
      rule runs_seqE [OF runs_wrapE [OF fetch [OF _ _ _ sv(3)]]], assumption, simp, simp, erule conjE, hypsubst,
      rule runs_seqE [OF fetch [OF _ _ _ sv(4)]], assumption, simp, simp, erule conjE, hypsubst)
    fix w1 :: world assume "steady k p cur w1"
    then show "runs (seqE (wrapE ''stage'' (lift_err (VerifyCert (e_crypto en) (vm_cert vm) (vm_cert_sig vm) rootPub (e_now en 0))))
       (\<lambda>(signingPub, certVer). seqE (check_revoked en work [] rootPub certVer) (\<lambda>_.
        seqE (lift_err (check_manifest (e_crypto en) (vm_data vm) (vm_sig vm) signingPub expected)) (\<lambda>m.
        ret \<lparr>vm_manifest = m, vm_data = vm_data vm, vm_sig = vm_sig vm, vm_cert = vm_cert vm, vm_cert_sig = vm_cert_sig vm\<rparr>))))
       (\<lambda>x w'. x = vm \<and> steady k p cur w') w1"
      by (intro runs_seqE [OF runs_wrapE [OF runs_lift [OF o(1), where Q = "\<lambda>x w'. x = (pub, v) \<and> w' = w1"]]])
        (auto simp: o(2) intro!: rest runs_ret)
  qed
qed

subsection \<open>The checks\<close>

text \<open>\<open>stays m w\<close>: \<open>m\<close> succeeds and changes nothing.\<close>

definition stays :: "'a io \<Rightarrow> world \<Rightarrow> bool" where
  "stays m w \<longleftrightarrow> (\<exists>x. m w = (Inr x, w))"

lemma stays_ret [simp]: "stays (ret x) w"
  by (simp add: stays_def ret_def)

lemma stays_seqE: "stays m w \<Longrightarrow> (\<And>x. stays (k x) w) \<Longrightarrow> stays (seqE m k) w"
  by (force simp: stays_def seqE_def trying_def)

lemma runs_stays: "stays m w \<Longrightarrow> (\<And>x. Q x w) \<Longrightarrow> runs m Q w"
  by (auto simp: stays_def runs_iff)

lemma stays_hardware:
  assumes "w_faults w = []"
  shows "stays (DetectGPUChips devs) w" "stays RunningKernel w"
proof -
  have "stays (read_trimmed q) w" for q
    using assms by (cases "lookup (w_disk w) q")
      (simp_all add: stays_def read_trimmed_def trying_def read_file_def sys_call_def ret_def next_fault_def pop_fault_def)
  then have "stays (gpu_scan ds s) w" for ds s
    by (induction ds arbitrary: s) (auto intro!: stays_seqE split: option.splits)
  then show "stays (DetectGPUChips devs) w" unfolding DetectGPUChips_def by (auto intro!: stays_seqE)
  show "stays RunningKernel w"
    using assms by (cases "lookup (w_disk w) osrelease_path")
      (simp_all add: stays_def RunningKernel_def trying_def read_file_def sys_call_def ret_def next_fault_def pop_fault_def)
qed

lemma stays_Load: "steady k p cur w \<Longrightarrow> Load p w = (Inr cur, w)"
  by (simp add: steady_def calm_def Load_calm)

lemma runs_stage_checks:
  assumes s: "steady k p cur w" and "\<not> HasPending cur" "\<not> isDowngrade (m_version m) (rf_current (d_rootfs cur))" "m_kernel_release m = []"
  shows "runs (stage_checks en p dirs m) (\<lambda>_ w'. steady k p cur w') w"
proof -
  have "stays (stage_checks en p dirs m) w"
    using assms(2-) stays_hardware(1) [OF steady_faults [OF s], of "e_devs en"] stays_Load [OF s]
    by (auto simp: stage_checks_def promoteRunningCandidate_def CoupledKernelCheck_def stays_def seqE_def trying_def wrapE_def ret_def)
  with s show ?thesis by (rule runs_stays [rotated])
qed

subsection \<open>The artifacts\<close>

definition served_file :: "env \<Rightarrow> string \<Rightarrow> string \<Rightarrow> bool" where
  "served_file en url h \<longleftrightarrow> (\<exists>b. serves (e_net en) url b \<and> hex_decode h = Some (sha256 (e_crypto en) b) \<and> length (sha256 (e_crypto en) b) = 32)"

lemma runs_verify:
  assumes "steady k p cur w" "file_data (w_disk w) q = Some b" "hex_decode h = Some (sha256 cr b)" "length (sha256 cr b) = 32"
  shows "runs (VerifySHA256 cr q h) (\<lambda>_ w'. steady k p cur w') w"
proof -
  have "runs (seqE (read_file q) (\<lambda>s. if \<not> hashEqual (sha256 cr s) (sha256 cr b) then throw e else ret ())) (\<lambda>_ w'. steady k p cur w') w" for e
    by (rule runs_seqE [OF runs_read [OF assms(1,2)]]) (use assms(1) in \<open>auto simp: hashEqual_iff intro: runs_ret\<close>)
  then show ?thesis using assms(3,4) by (simp add: VerifySHA256_def)
qed

text \<open>Two files fetched and checked, as for the root image and for the kernel cache.\<close>

lemma runs_fetch_verified:
  assumes "steady k p cur w" "plain_path q" "wal_files p \<inter> {q, path_suffix q ''.tmp''} = {}" "served_file en url h"
    and "\<And>w'. steady k p cur w' \<Longrightarrow> runs m Q w'"
  shows "runs (seqE (FetchTo (e_net en) url q) (\<lambda>_. seqE (or_remove ps (VerifySHA256 (e_crypto en) q h)) (\<lambda>_. m))) Q w"
proof -
  obtain b where b: "serves (e_net en) url b" "hex_decode h = Some (sha256 (e_crypto en) b)" "length (sha256 (e_crypto en) b) = 32"
    using assms(4) by (auto simp: served_file_def)
  show ?thesis
    by (rule runs_seqE [OF runs_fetch [OF assms(1-3) b(1)]], elim conjE,
        rule runs_seqE [OF runs_or_remove [OF runs_verify [OF _ _ b(2,3)]]], assumption+, rule assms(5))
qed

lemma runs_fetch_last:
  assumes "steady k p cur w" "plain_path q" "wal_files p \<inter> {q, path_suffix q ''.tmp''} = {}" "served_file en url h"
  shows "runs (seqE (or_remove qs (FetchTo (e_net en) url q)) (\<lambda>_. or_remove ps (VerifySHA256 (e_crypto en) q h)))
    (\<lambda>_ w'. steady k p cur w') w"
proof -
  obtain b where b: "serves (e_net en) url b" "hex_decode h = Some (sha256 (e_crypto en) b)" "length (sha256 (e_crypto en) b) = 32"
    using assms(4) by (auto simp: served_file_def)
  show ?thesis
    by (rule runs_seqE [OF runs_or_remove [OF runs_fetch [OF assms(1-3) b(1)]]], elim conjE,
        rule runs_or_remove [OF runs_verify [OF _ _ b(2,3)]])
qed

lemma runs_mkdir_all: "steady k p cur w \<Longrightarrow> Q () w \<Longrightarrow> runs (mkdir_all d) Q w"
  by (rule runs_eq [of _ _ "()" w]) (simp_all add: mkdir_all_def sys_call_def next_fault_def pop_fault_def steady_faults)

lemma runs_cancel:
  assumes "steady k p cur w" "wal_files p \<inter> loader_marks dirs = {}"
  shows "runs (cancelLoaderCandidate dirs) (\<lambda>_ w'. steady k p cur w') w"
proof -
  have "runs (ignoring (remove q)) (\<lambda>_ w'. calm k w') w1" if "calm k w1" for q w1
    using that by (auto simp: runs_def wp_simps sys_defs calm_def clean_def wf_disk_def next_fault_def split: option.splits)
  then have "runs (cancelLoaderCandidate dirs) (\<lambda>_ w'. calm k w' \<and> True) w"
    using assms(1) by (auto simp: cancelLoaderCandidate_def steady_def intro!: runs_ret runs_seqE)
  from steady_confined [OF confined_cancelLoaderCandidate assms(2,1) this] show ?thesis by simp
qed

text \<open>\<open>whole m\<close>: the four files of an update are there with the hashes of the manifest.\<close>

definition whole :: "env \<Rightarrow> manifest \<Rightarrow> bool" where
  "whole en m \<longleftrightarrow> served_file en (m_rootfs_url m) (m_rootfs_hash m) \<and>
     m_rootfs_hashtree_url m \<noteq> [] \<and> served_file en (m_rootfs_hashtree_url m) (m_rootfs_hashtree_hash m) \<and>
     served_file en (m_kernelcache_url m) (m_kernelcache_hash m) \<and>
     m_kernelcache_sig_url m \<noteq> [] \<and> served_file en (m_kernelcache_sig_url m) (m_kernelcache_sig_hash m)"

lemma runs_artifacts:
  assumes s: "steady k p cur w" and "layout_ok en p dirs" and m: "whole en m"
  shows "runs (stage_rootfs en dirs m) (\<lambda>_ w'. steady k p cur w') w"
    "runs (stage_kernelcache en dirs m) (\<lambda>_ w'. steady k p cur w') w"
proof -
  note lo = layout_okD [OF assms(2)]
  have free: "wal_files p \<inter> {q, path_suffix q ''.tmp''} = {}" if "q \<in> next_names dirs" for q
    using lo(5) that by (auto simp: tmp_names_def)
  have one: "runs (seqE (if url = [] then f else ret ()) (\<lambda>_. n)) Q w1" if "url \<noteq> []" "runs n Q w1" for url f n Q and w1 :: world
    using that by (simp add: runs_def wp_simps)
  have m: "served_file en (m_rootfs_url m) (m_rootfs_hash m)" "m_rootfs_hashtree_url m \<noteq> []"
    "served_file en (m_rootfs_hashtree_url m) (m_rootfs_hashtree_hash m)"
    "served_file en (m_kernelcache_url m) (m_kernelcache_hash m)" "m_kernelcache_sig_url m \<noteq> []"
    "served_file en (m_kernelcache_sig_url m) (m_kernelcache_sig_hash m)"
    using m by (simp_all add: whole_def)
  show "runs (stage_rootfs en dirs m) (\<lambda>_ w'. steady k p cur w') w"
    unfolding stage_rootfs_def Let_def
    by (rule runs_seqE [OF runs_mkdir_all [OF s]], rule s,
        rule runs_fetch_verified [OF _ plain_join free], assumption, simp, simp, simp, rule m,
        rule one [OF m(2)], rule runs_fetch_last [OF _ plain_join free], assumption, simp, simp, simp, rule m)
  show "runs (stage_kernelcache en dirs m) (\<lambda>_ w'. steady k p cur w') w"
    unfolding stage_kernelcache_def Let_def
    by (rule runs_seqE [OF runs_mkdir_all [OF s]], rule s, rule runs_seqE [OF runs_cancel [OF _ lo(6)]], assumption,
        rule runs_fetch_verified [OF _ plain_join free], assumption, simp, simp, simp, rule m,
        rule one [OF m(5)], rule runs_fetch_last [OF _ plain_join free], assumption, simp, simp, simp, rule m)
qed

lemma runs_stage_firmware:
  assumes s: "steady k p cur w" and "FirmwareBundleList (vm_manifest vm) = []"
  shows "runs (stage_firmware en dirs vm) (\<lambda>x w'. x = [] \<and> steady k p cur w') w"
proof -
  obtain c where c: "DetectGPUChips (e_devs en) w = (Inr c, w)"
    using stays_hardware(1) [OF steady_faults [OF s]] by (auto simp: stays_def)
  obtain r where r: "RunningKernel w = (Inr r, w)" using stays_hardware(2) [OF steady_faults [OF s]] by (auto simp: stays_def)
  have "stage_firmware en dirs vm w = (Inr [], w)"
    using assms(2) c r by (simp add: stage_firmware_def Let_def seqE_def trying_def ret_def staged_bundles_def)
  then show ?thesis using s by (simp add: runs_eq)
qed

subsection \<open>The commit\<close>

lemma calm_commit_dirs: "w_faults w = [] \<Longrightarrow> stays (commit_dirs ds) w"
proof -
  assume f: "w_faults w = []"
  have "stays (commitDir d) w" for d
    using f by (simp add: commitDir_def syncDir_def open_dir_def fsync_dir_def syncfs_def checkpoint_ioctl_def stays_def seqE_def
        trying_def ret_def sys_call_def next_fault_def pop_fault_def)
  then have "stays (trying (stat_dir d) (\<lambda>r. case r of Inl e \<Rightarrow> ret () | Inr _ \<Rightarrow> wrapE x (commitDir d))) w" for d x
  proof -
    have "stat_dir d w = (Inr (), w)" using f by (simp add: stat_dir_def sys_call_def next_fault_def pop_fault_def)
    then show ?thesis using \<open>\<And>d. stays (commitDir d) w\<close> by (fastforce simp: stays_def wrapE_def trying_def ret_def)
  qed
  then show "stays (commit_dirs ds) w"
    unfolding commit_dirs_def by (induction ds) (auto intro!: stays_seqE)
qed

definition armed :: "manifest \<Rightarrow> deployment \<Rightarrow> deployment" where
  "armed m d = (let d1 = Deploy (m_version m) d in d1\<lparr>d_rootfs := (d_rootfs d1)\<lparr>rf_pending_hash := m_rootfs_verity_hash m\<rparr>\<rparr>)"

lemma runs_stage_commit:
  assumes s: "steady 3 p cur w" and l: "layout_ok en p dirs" and st: "storable (armed m cur)"
  shows "runs (stage_commit p dirs m []) (\<lambda>_ _. True) w"
proof -
  have p: "plain_path p" using layout_okD(1) [OF l] by (simp add: record_path_ok_def)
  have "calm (2 + 1) w" using s by (simp add: steady_def numeral_3_eq_3)
  then obtain w1 where w1: "Save p (armed m cur) w = (Inr (), w1)" "calm 1 w1" "saved p (armed m cur) (w_disk w1)"
    using calm_Save [OF _ p] by blast
  have f1: "w_faults w1 = []" using w1(2) by (simp add: calm_def)
  have dirs: "runs (commit_dirs ds) (\<lambda>_ w'. w' = w1) w1" for ds by (rule runs_stays [OF calm_commit_dirs [OF f1]]) simp
  have load: "Load p w1 = (Inr (stored (armed m cur)), w1)"
    using saved_content [OF st w1(3)] f1 by (simp add: Load_calm)
  have boot: "boot_state_path dirs \<notin> dot_names" by (simp add: boot_state_path_def dot_names_join_iff has_prefix_def)
  have "calm (Suc 0) w1" using w1(2) by simp
  then have "runs (writeDeploymentBootState d dirs) (\<lambda>_ _. True) w1" for d
    using calm_WriteBootState [OF _ boot, of 0 w1 "boot_state_of d"] by (auto simp: writeDeploymentBootState_def runs_iff ret_def)
  then have sync: "runs (SyncBootState p dirs) (\<lambda>_ _. True) w1"
    by (simp add: SyncBootState_def runs_iff seqE_def trying_def load)
  show ?thesis
    unfolding stage_commit_def
  proof (rule runs_step, rule stays_Load [OF s], rule runs_step)
    show "lift_err (mark_pending m [] cur) w = (Inr (armed m cur), w)" by (simp add: mark_pending_def armed_def Let_def lift_err_def)
  qed (rule runs_step, rule w1(1), rule runs_seqE [OF dirs], hypsubst, rule runs_seqE [OF runs_wrapE [OF sync]],
      simp add: runs_def wp_simps)
qed

subsection \<open>The whole run\<close>

lemma runs_mkdir_temp:
  assumes s: "steady (Suc k) p cur w" and l: "layout_ok en p dirs"
  shows "runs (mkdir_temp pre) (\<lambda>work w'. steady k p cur w' \<and> (\<exists>x. work = [''tmp'', x])) w"
proof (rule steady_confined [OF confined_mkdir_temp _ s])
  show "wal_files p \<inter> temp_area = {}" using layout_okD(3) [OF l] by blast
  show "runs (mkdir_temp pre) (\<lambda>work w'. calm k w' \<and> (\<exists>x. work = [''tmp'', x])) w"
    using s by (cases "w_entropy w")
      (auto simp: steady_def calm_def clean_def runs_def mkdir_temp_def wp_simps next_fault_def clear_below_def wf_disk_def)
qed

text \<open>Without failures an offered, authentic, whole update with no firmware, which is no downgrade, is
  staged on a device without a candidate.\<close>

lemma offered_update_staged:
  assumes l: "layout_ok en p dirs" and "calm 4 w" and "unshared (w_disk w)" and "wal_of p (w_disk w) = Some cur" and "\<not> HasPending cur"
    and o: "offers en url rootPub expected vm" and "whole en (vm_manifest vm)"
    and "FirmwareBundleList (vm_manifest vm) = []" and "m_kernel_release (vm_manifest vm) = []"
    and "\<not> isDowngrade (m_version (vm_manifest vm)) (rf_current (d_rootfs cur))" and "storable (armed (vm_manifest vm) cur)"
  shows "\<exists>msg w'. stage en p url [] rootPub dirs expected w = (Inr msg, w')"
proof -
  have s: "steady (Suc 3) p cur w" using assms(2-4) by (simp add: steady_def)
  have body: "runs (stage_in en p url [] rootPub dirs expected [''tmp'', x]) (\<lambda>_ _. True) w1" if s1: "steady 3 p cur w1" for x w1
  proof -
    have "inside [''tmp'', x] \<subseteq> temp_area" by (rule inside_temp)
    then have i: "wal_files p \<inter> inside [''tmp'', x] = {}" using layout_okD(3) [OF l] by blast
    show ?thesis
      unfolding stage_in_def Let_def
      by (rule runs_seqE [OF runs_fetchVerifiedManifest [OF s1 i o]], elim conjE, hypsubst,
          rule runs_seqE [OF runs_stage_checks [OF _ assms(5,10,9)]], assumption,
          rule runs_seqE [OF runs_artifacts(1) [OF _ l assms(7)]], assumption,
          rule runs_seqE [OF runs_artifacts(2) [OF _ l assms(7)]], assumption,
          rule runs_seqE [OF runs_stage_firmware [OF _ assms(8)]], assumption, elim conjE, hypsubst,
          rule runs_stage_commit [OF _ l assms(11)])
  qed
  have "runs (stage en p url [] rootPub dirs expected) (\<lambda>_ _. True) w"
    unfolding stage_def
    by (rule runs_seqE [OF runs_mkdir_temp [OF s l]], elim conjE exE, hypsubst, rule runs_deferred [OF body])
  then show ?thesis by (auto simp: runs_iff)
qed

subsection \<open>The sample update\<close>

definition sample_digest :: string where
  "sample_digest = hex_encode (replicate 32 (CHR ''h''))"

definition sample_record :: deployment where
  "sample_record = New (\<lambda>_. ''2026-01-01T00:00:00Z'') ''dev'' ''v42''"

definition offered_json :: json where
  "offered_json = JObj [(''version'', JStr ''v43''), (''rootfs_url'', JStr ''https://h/r''),
     (''rootfs_hash'', JStr sample_digest), (''rootfs_hashtree_url'', JStr ''https://h/t''), (''rootfs_hashtree_hash'', JStr sample_digest),
     (''kernelcache_url'', JStr ''https://h/k''), (''kernelcache_hash'', JStr sample_digest),
     (''kernelcache_sig_url'', JStr ''https://h/s''), (''kernelcache_sig_hash'', JStr sample_digest)]"

definition offered_manifest :: manifest where
  "offered_manifest = zero_manifest\<lparr>m_version := ''v43'', m_rootfs_url := ''https://h/r'', m_rootfs_hash := sample_digest,
     m_rootfs_hashtree_url := ''https://h/t'', m_rootfs_hashtree_hash := sample_digest,
     m_kernelcache_url := ''https://h/k'', m_kernelcache_hash := sample_digest,
     m_kernelcache_sig_url := ''https://h/s'', m_kernelcache_sig_hash := sample_digest\<rparr>"

lemma sample_digest_ok: "hex_decode sample_digest = Some (replicate 32 (CHR ''h''))" "sample_digest \<noteq> []" "ascii sample_digest"
proof -
  show "hex_decode sample_digest = Some (replicate 32 (CHR ''h''))" by (simp add: sample_digest_def)
  then show "sample_digest \<noteq> []" by auto
  show "ascii sample_digest" by (simp add: sample_digest_def hex_encode_def ascii_def list_all_iff) (simp add: hex_digit_def byte_def)
qed

text \<open>ASCII strings are printed as ASCII, and ASCII is UTF-8.\<close>

lemma ascii_pieces:
  "ascii (a @ b) \<longleftrightarrow> ascii a \<and> ascii b" "ascii []" "ascii (c # s) \<longleftrightarrow> byte c < 128 \<and> ascii s"
  by (simp_all add: ascii_def)

lemma ascii_json_string: "ascii s \<Longrightarrow> ascii (json_string s)"
proof -
  have d: "byte (hex_digit n) < 128" if "n < 16" for n using that by (simp add: hex_digit_def byte_def)
  have e: "ascii (escape_byte c)" if "byte c < 128" for c
    using that d [of "byte c div 16"] d [of "byte c mod 16"]
    by (simp add: escape_byte_def ascii_pieces) (simp add: byte_def backslash_def)
  have "ascii s \<Longrightarrow> ascii (json_chars n s)" for n
    by (induction n s rule: json_chars.induct) (auto simp: ascii_pieces e)
  moreover have "byte quote_mark < 128" by (simp add: quote_mark_def byte_def)
  ultimately show "ascii s \<Longrightarrow> ascii (json_string s)" by (simp add: json_string_def ascii_pieces)
qed

lemma ascii_utf8_valid: "ascii s \<Longrightarrow> utf8_valid s"
proof -
  have "ascii s \<Longrightarrow> utf8_valid_fuel (length s) s"
    by (induction s) (auto simp: ascii_pieces)
  then show "ascii s \<Longrightarrow> utf8_valid s" by (simp add: utf8_valid_def)
qed

lemma offered_names_ascii:
  "list_all ascii [''version'', ''rootfs_url'', ''rootfs_hash'', ''rootfs_hashtree_url'', ''rootfs_hashtree_hash'', ''kernelcache_url'',
     ''kernelcache_hash'', ''kernelcache_sig_url'', ''kernelcache_sig_hash'', ''v43'', ''https://h/r'', ''https://h/t'', ''https://h/k'',
     ''https://h/s'']"
  by code_simp

lemma offered_manifest_parses: "ParseManifest stage_manifest = Inr offered_manifest"
proof -
  have printed: "stage_manifest = json_indent 0 offered_json"
    by (simp add: stage_manifest_def offered_json_def zeros_hash_def sample_digest_def)
  have "wf_json offered_json" using offered_names_ascii sample_digest_ok(3) by (simp add: offered_json_def)
  then have "json_parse stage_manifest = Inr offered_json"
    using json_parse_indent [of offered_json "[]" 0] by (simp add: printed skip_ws_def num_end_def)
  moreover have "dec_manifest offered_json zero_manifest = Inr offered_manifest"
    by (simp add: offered_json_def dec_manifest_def decode_eval offered_manifest_def zero_manifest_def)
  moreover have "ascii (indent_to n)" "ascii '' ''" for n
    by (simp_all add: indent_to_def ascii_def newline_def byte_def list_all_iff)
  then have "ascii stage_manifest"
    using offered_names_ascii sample_digest_ok(3)
    by (simp add: printed json_indent_def offered_json_def ascii_pieces ascii_json_string) (simp add: byte_def)
  then have "utf8_valid stage_manifest" by (rule ascii_utf8_valid)
  moreover have "check_product (raw_fields offered_json) n [] = Inr ()" for n
    by (simp add: offered_json_def check_product_def raw_fields_def null_field_def product_ok_def)
  ultimately show ?thesis
    using sample_digest_ok(2) by (simp add: ParseManifest_def err_bind_def offered_manifest_def zero_manifest_def FirmwareBundleList_def)
qed

lemma armed_sample: "armed offered_manifest sample_record = sample_storable"
  by (simp add: armed_def Let_def offered_manifest_def zero_manifest_def sample_record_def sample_storable_def Deploy_def New_def
      zero_rootfs_def split: prod.split)

lemma offered_manifest_facts:
  "FirmwareBundleList offered_manifest = []" "m_kernel_release offered_manifest = []"
  "\<not> isDowngrade (m_version offered_manifest) (rf_current (d_rootfs sample_record))"
  "storable (armed offered_manifest sample_record)" "\<not> HasPending sample_record"
proof -
  show "FirmwareBundleList offered_manifest = []" "m_kernel_release offered_manifest = []"
    by (simp_all add: offered_manifest_def zero_manifest_def FirmwareBundleList_def)
  have "\<not> isDowngrade ''v43'' ''v42''" by code_simp
  then show "\<not> isDowngrade (m_version offered_manifest) (rf_current (d_rootfs sample_record))"
    by (simp add: offered_manifest_def sample_record_def New_def)
  show "storable (armed offered_manifest sample_record)" by (simp add: armed_sample sample_storable_ok)
  show "\<not> HasPending sample_record" by code_simp
qed

definition offered_vm :: verified_manifest where
  "offered_vm = \<lparr>vm_manifest = offered_manifest, vm_data = stage_manifest, vm_sig = sample_sig, vm_cert = sample_cert, vm_cert_sig = sample_sig\<rparr>"

lemma sample_offered:
  assumes "expected \<in> {[], sample_digest}"
  shows "offers stage_env ''https://h/manifest.json'' sample_key expected offered_vm" "whole stage_env offered_manifest"
proof -
  have env: "e_crypto stage_env = sample_crypto" "e_net stage_env = stage_net" "e_now stage_env 0 = 0"
    by (simp_all add: stage_env_def sample_env_def)
  have sv: "serves stage_net url (if url = ''https://h/manifest.json'' then stage_manifest
       else if url = ''https://h/signing-cert.json'' then sample_cert else sample_sig)" for url
    by (simp add: serves_def stage_net_def)
  have dir: "url_dir ''https://h/manifest.json'' = ''https://h/''" by code_simp
  obtain pub where cert: "VerifyCert sample_crypto sample_cert sample_sig sample_key 0 = Inr (pub, 7)"
    using sample_cert_vouched by (auto split: sum.splits prod.splits)
  then have "Verify sample_crypto stage_manifest sample_sig pub"
    by (auto simp: VerifyCert_iff vouched_def Verify_def sample_sig_def sample_crypto_def)
  moreover have "hex_encode (sha256 sample_crypto stage_manifest) = sample_digest" by (simp add: sample_crypto_def sample_digest_def)
  moreover have "equal_fold sample_digest sample_digest" by (simp add: equal_fold_def)
  ultimately have "check_manifest sample_crypto stage_manifest sample_sig pub expected = Inr offered_manifest"
    using assms by (auto simp: check_manifest_def offered_manifest_parses)
  then show "offers stage_env ''https://h/manifest.json'' sample_key expected offered_vm"
    using cert sv [of "''https://h/manifest.json''"] sv [of "''https://h/manifest.json.sig''"] sv [of "''https://h/signing-cert.json''"]
      sv [of "''https://h/signing-cert.json.sig''"]
    by (auto simp: offers_def offered_vm_def dir env)
  have "served_file stage_env url sample_digest" for url
    using sv [of url] sample_digest_ok(1) by (auto simp: served_file_def env sample_crypto_def)
  then show "whole stage_env offered_manifest" by (simp add: whole_def offered_manifest_def)
qed

lemma sample_update_staged:
  assumes "calm 4 w" and "unshared (w_disk w)" and "wal_of sample_path (w_disk w) = Some sample_record" and "expected \<in> {[], sample_digest}"
  shows "\<exists>msg w'. stage stage_env sample_path ''https://h/manifest.json'' [] sample_key sample_dirs expected w = (Inr msg, w')"
  using offered_update_staged [OF stage_layout_ok assms(1-3) offered_manifest_facts(5) sample_offered(1) [OF assms(4)]]
    sample_offered(2) [OF assms(4)] offered_manifest_facts
  by (simp add: offered_vm_def)

end
