(* ===== verification/AgentSafe.thy ===== *)
theory AgentSafe
  imports Agent StageRun
begin

section \<open>Only what the user agreed to is staged and booted\<close>

text \<open>
  The invariant of the state machine of theory \<open>Agent\<close> and its consequences: consent, the truth
  of \<open>ready\<close> in the status file, and the exclusion of a reboot while an update is being staged.
\<close>

subsection \<open>What each operation returns and leaves\<close>

definition poll_states :: "string list" where
  "poll_states = [''idle'', ''available'', ''error'']"

definition all_states :: "string list" where
  "all_states = poll_states @ [''downloading'', ''ready'']"

lemma quietly_feedE: "quietly m \<Longrightarrow> (\<And>x. quietly (k x)) \<Longrightarrow> quietly (feedE m k)"
  unfolding feedE_def by (auto intro!: quietly_intros split: sum.splits)

lemma quietly_request: "quietly (request net u)"
  by (simp add: quietly_def quiet_def request_def wp_def)

lemma quietly_fetchBytes: "quietly (fetchBytes ae u)"
  unfolding fetchBytes_def
  by (auto intro!: quietly_trying quietly_request simp: Let_def split: sum.splits)

lemma quietly_pollOnce: "quietly (pollOnce ae c)"
proof -
  have g: "quietly (feed_get ae feed n)" for feed n unfolding feed_get_def by (rule quietly_fetchBytes)
  have v: "quietly (verifiedManifest ae feed)" for feed
    unfolding verifiedManifest_def Let_def by (auto intro!: quietly_feedE g split: sum.splits prod.splits)
  have i: "quietly (installedVersion wal)" for wal
    by (auto simp: installedVersion_def read_wal_rootfs_def Let_def intro!: quietly_intros split: option.splits)
  show ?thesis
    unfolding pollOnce_def check_def by (auto intro!: quietly_seqE i v split: sum.splits)
qed

lemma poll_state:
  "gives (pollOnce ae c) (\<lambda>st _. st_state st \<in> set poll_states) w"
  unfolding pollOnce_def check_def
  by (rule gives_seqE_any, rule gives_seqE_any)
    (auto intro!: gives_ret simp: feed_failed_def checked_status_def poll_states_def split: sum.splits)

lemma currentLocked_disk: "currentLocked p s w = (r, w') \<Longrightarrow> w_disk w' = w_disk w"
proof -
  have "quietly (currentLocked p s)" by (auto simp: currentLocked_def intro!: quietly_intros)
  then show "currentLocked p s w = (r, w') \<Longrightarrow> w_disk w' = w_disk w"
    using quietlyD [of "currentLocked p s" w] by (auto simp: wp_def quiet_def)
qed

text \<open>\<open>ready_ok S p h\<close>: the status file says ready only for manifests of \<open>S\<close>.\<close>

definition ready_ok :: "string set \<Rightarrow> path \<Rightarrow> disk \<Rightarrow> bool" where
  "ready_ok S p h \<longleftrightarrow> (\<forall>st. state_at h p = Some st \<longrightarrow> st_state st = ''ready'' \<longrightarrow> (\<exists>x \<in> S. st_manifest st = coerced x))"

lemma ready_ok_same: "file_data h p = file_data d p \<Longrightarrow> ready_ok S p h = ready_ok S p d"
  by (simp add: ready_ok_def state_at_def)

lemma ready_ok_mono: "ready_ok S p h \<Longrightarrow> S \<subseteq> T \<Longrightarrow> ready_ok T p h"
  unfolding ready_ok_def by blast

lemma states_kept: "st \<in> set all_states \<Longrightarrow> coerced st = st"
proof -
  have "list_all ascii all_states" by code_simp
  then show "st \<in> set all_states \<Longrightarrow> coerced st = st" by (simp add: list_all_iff)
qed

lemma ready_ok_written:
  assumes "file_data h p = Some (state_text s)" and "st_state s \<in> set all_states" and "st_state s = ''ready'' \<Longrightarrow> st_manifest s \<in> S"
  shows "ready_ok S p h"
  using assms states_kept [OF assms(2)]
  by (auto simp: ready_ok_def state_at_def text_state_text seen_status_def split: if_splits)

lemma writes_state:
  assumes ok: "agent_ok c" and u: "unshared (w_disk w)" and r: "ready_ok S (uc_state c) (w_disk w)"
    and s: "st_state s \<in> set all_states" "st_state s = ''ready'' \<Longrightarrow> st_manifest s \<in> S"
  shows "wp (writeState pid (uc_state c) s) (\<lambda>_ w'. unshared (w_disk w') \<and> ready_ok S (uc_state c) (w_disk w')) w"
proof -
  let ?p = "uc_state c"
  show ?thesis
  proof (rule wp_mono [OF wp_writeState [OF _ _ u]])
    fix x and w' :: world
    assume "unshared (w_disk w') \<and> evolves (stating pid ?p s (w_disk w)) w w' \<and>
       (x = Inr () \<longrightarrow> file_data (w_disk w') ?p = Some (state_text s))"
    then have "unshared (w_disk w')" "file_data (w_disk w') ?p \<in> {file_data (w_disk w) ?p, Some (state_text s)}"
      by (auto dest: evolves_final simp: stating_def)
    then show "unshared (w_disk w') \<and> ready_ok S ?p (w_disk w')"
      using r ready_ok_same [of "w_disk w'" ?p "w_disk w"] ready_ok_written [OF _ s] by auto
  qed (use ok in \<open>auto simp: agent_ok_def\<close>)
qed

text \<open>The disk of a reachable state, and the operations that keep it.\<close>

definition disk_ok :: "agent_cfg \<Rightarrow> string set \<Rightarrow> disk \<Rightarrow> bool" where
  "disk_ok c S h \<longleftrightarrow> unshared h \<and> ready_ok S (uc_state c) h"

lemma disk_ok_confined:
  assumes "agent_ok c" and "confined (agent_files c) m" and "disk_ok c S (w_disk w)" and "m w = (r, w')"
  shows "disk_ok c S (w_disk w')"
proof -
  have "unshared (w_disk w')" "lookup (w_disk w') (uc_state c) = lookup (w_disk w) (uc_state c)"
    using confined_lookup [OF assms(2) _ assms(4)] assms(1,3) by (auto simp: agent_ok_def disk_ok_def dest: evolves_final)
  then show ?thesis
    using assms(3) ready_ok_same [of "w_disk w'" "uc_state c" "w_disk w"] by (simp add: disk_ok_def file_data_def)
qed

lemma disk_ok_quietly: "quietly m \<Longrightarrow> m w = (r, w') \<Longrightarrow> disk_ok c S (w_disk w') = disk_ok c S (w_disk w)"
  using quietlyD [of m w] by (auto simp: wp_def quiet_def)

lemma disk_ok_write:
  assumes "agent_ok c" and "disk_ok c S (w_disk w)"
    and "st_state s \<in> set all_states" "st_state s = ''ready'' \<Longrightarrow> st_manifest s \<in> S"
  shows "wp (writeState pid (uc_state c) s) (\<lambda>_ w'. disk_ok c S (w_disk w')) w"
  using assms writes_state [of c w S s pid] by (simp add: disk_ok_def)

lemma disk_ok_publish:
  assumes "agent_ok c" and "disk_ok c S (w_disk w)" and "st_state st \<in> set poll_states"
    and "publishPoll pid (uc_state c) st s w = (r, w')"
  shows "disk_ok c S (w_disk w')"
proof -
  let ?p = "uc_state c" let ?Q = "\<lambda>_ w'. disk_ok c S (w_disk w')"
  have st: "st_state st \<in> set all_states" "st_state st \<noteq> ''ready''" using assms(3) by (auto simp: all_states_def poll_states_def)
  have w: "wp (trying (writeState pid ?p st) (\<lambda>r. ret (st, case r of Inl e \<Rightarrow> Some e | Inr _ \<Rightarrow> None))) ?Q w1"
    if "disk_ok c S (w_disk w1)" for w1
    by (rule wp_tryingI [OF disk_ok_write [OF assms(1) that st(1)]]) (use st(2) in \<open>simp_all add: wp_ret\<close>)
  have "wp (publishPoll pid ?p st s) ?Q w"
    unfolding publishPoll_def
  proof (cases "st_state (ss_live s) = ''downloading''")
    case False
    have "wp (readState ?p) (\<lambda>_ w1. disk_ok c S (w_disk w1)) w"
      by (rule wp_mono [OF quietlyD [OF quietly_readState]]) (use assms(2) in \<open>simp add: quiet_def\<close>)
    then show "wp (if st_state (ss_live s) = ''downloading'' then ret (ss_live s, None)
      else seqE (readState ?p) (\<lambda>r.
        if (case r of Some cur \<Rightarrow> st_state cur = ''ready'' | None \<Rightarrow> False)
        then ret (the r, None)
        else trying (writeState pid ?p st) (\<lambda>r. ret (st, case r of Inl e \<Rightarrow> Some e | Inr _ \<Rightarrow> None)))) ?Q w"
      unfolding if_not_P [OF False] by (rule wp_seqEI) (auto simp: wp_ret w split: option.splits)
  qed (use assms(2) in \<open>simp add: wp_ret\<close>)
  then show ?thesis using assms(4) by (rule wpD)
qed

subsection \<open>The invariant\<close>

definition task_ok :: "crypto \<Rightarrow> agent \<Rightarrow> task \<Rightarrow> bool" where
  "task_ok cr a t =
     (case t of
        Polled st \<Rightarrow> st_state st \<in> set poll_states
      | Published st \<Rightarrow> True
      | Waiting st \<Rightarrow> consent_token cr (st_manifest st) \<in> ag_tokens a
      | Holding st \<Rightarrow> consent_token cr (st_manifest st) \<in> ag_tokens a
      | Done st \<Rightarrow> st_state st \<in> set all_states \<and> (st_state st = ''ready'' \<longrightarrow> st_manifest st \<in> set (ag_staged a)))"

definition holding :: "agent \<Rightarrow> nat" where
  "holding a = size (filter_mset (\<lambda>t. \<exists>st. t = Holding st) (ag_tasks a))"

definition agent_inv :: "agent_env \<Rightarrow> agent_cfg \<Rightarrow> agent \<Rightarrow> bool" where
  "agent_inv ae c a \<longleftrightarrow> disk_ok c (set (ag_staged a)) (w_disk (ag_world a)) \<and>
     (\<forall>t \<in># ag_tasks a. task_ok (agent_cr ae) a t) \<and>
     (\<forall>x \<in> set (ag_staged a). consent_token (agent_cr ae) x \<in> ag_tokens a) \<and>
     holding a = (if ag_holder a = By_download then 1 else 0) \<and>
     (ag_holder a = By_reboot \<or> ag_rebooted a \<longrightarrow> set (ag_staged a) \<noteq> {})"

lemma task_ok_simps [simp]:
  "task_ok cr (a\<lparr>ag_store := s\<rparr>) t = task_ok cr a t" "task_ok cr (a\<lparr>ag_world := w\<rparr>) t = task_ok cr a t"
  "task_ok cr (a\<lparr>ag_tasks := ts\<rparr>) t = task_ok cr a t" "task_ok cr (a\<lparr>ag_holder := h\<rparr>) t = task_ok cr a t"
  "task_ok cr (a\<lparr>ag_rebooted := b\<rparr>) t = task_ok cr a t"
  by (simp_all add: task_ok_def split: task.splits)

lemma task_ok_more: "task_ok cr a t \<Longrightarrow> ag_tokens a \<subseteq> ag_tokens b \<Longrightarrow> set (ag_staged a) \<subseteq> set (ag_staged b) \<Longrightarrow> task_ok cr b t"
  by (auto simp: task_ok_def split: task.splits)

lemma holding_simps [simp]:
  "holding (a\<lparr>ag_store := s\<rparr>) = holding a" "holding (a\<lparr>ag_world := w\<rparr>) = holding a"
  "holding (a\<lparr>ag_holder := h\<rparr>) = holding a" "holding (a\<lparr>ag_rebooted := b\<rparr>) = holding a"
  "holding (a\<lparr>ag_tokens := ts\<rparr>) = holding a" "holding (a\<lparr>ag_staged := xs\<rparr>) = holding a"
  by (simp_all add: holding_def)

lemma claim_consent:
  assumes "claimDownload cr p token s w = (Inr (st, ok, s'), w')"
  shows "w_disk w' = w_disk w" and "ok \<Longrightarrow> token = consent_token cr (st_manifest st) \<and> st = ss_advertised s \<and> st_state st = ''available''"
proof -
  let ?adv = "ss_advertised s"
  show "w_disk w' = w_disk w"
  proof (cases "st_state ?adv \<noteq> ''available'' \<or> token = [] \<or> st_consent_token (clientStatus cr ?adv) \<noteq> token")
    case True
    then have "quietly (claimDownload cr p token s)"
      by (auto simp: claimDownload_def Let_def currentLocked_def intro!: quietly_intros)
    then show ?thesis using assms quietlyD [of "claimDownload cr p token s" w] by (auto simp: wp_def quiet_def)
  qed (use assms in \<open>auto simp: claimDownload_def Let_def ret_def\<close>)
  show "token = consent_token cr (st_manifest st) \<and> st = ss_advertised s \<and> st_state st = ''available''" if ok
    using assms that
    by (auto simp: claimDownload_def Let_def ret_def seqE_def trying_def clientStatus_def throw_def split: if_splits prod.splits sum.splits)
qed

lemma busy_never_locks: "acquireStageLock True p w \<noteq> (Inr None, w')"
  by (auto simp: acquireStageLock_def trying_def ret_def flock_def sys_call_def split: prod.splits sum.splits option.splits bool.splits)

lemma claimReboot_ok:
  assumes ok: "agent_ok c" and d: "disk_ok c S (w_disk w)" and run: "claimReboot c b s w = (Inr r, w')"
  shows "disk_ok c S (w_disk w')" and "r = None \<Longrightarrow> \<not> b \<and> S \<noteq> {}"
proof -
  obtain l w1 where l: "acquireStageLock b (uc_stage_lock c) w = (l, w1)" by (cases "acquireStageLock b (uc_stage_lock c) w")
  have d1: "disk_ok c S (w_disk w1)" by (rule disk_ok_confined [OF ok confined_agent(6) [OF ok] d l])
  obtain st w2 where st: "currentLocked (uc_state c) s w1 = (st, w2)" by (cases "currentLocked (uc_state c) s w1")
  have d2: "disk_ok c S (w_disk w2)" using d1 currentLocked_disk [OF st] by simp
  show "disk_ok c S (w_disk w')"
    using run d1 d2 l st
    by (auto simp: claimReboot_def store_get_def seqE_def trying_def ret_def throw_def split: sum.splits option.splits prod.splits if_splits)
  assume r: "r = None"
  then have ready: "l = Inr None" "\<exists>x. st = Inr x \<and> st_state x = ''ready''"
    using run l st
    by (auto simp: claimReboot_def store_get_def seqE_def trying_def ret_def throw_def split: sum.splits option.splits prod.splits if_splits)
  then obtain x where x: "st = Inr x" "st_state x = ''ready''" by blast
  have "state_at (w_disk w1) (uc_state c) = Some x"
  proof (cases "st_state (ss_live s) = ''downloading''")
    case False
    have "gives (readState (uc_state c)) (\<lambda>r _. r \<in> {None, state_at (w_disk w1) (uc_state c)}) w1" by (rule gives_readState)
    moreover obtain o2 w3 where "readState (uc_state c) w1 = (o2, w3)" by (cases "readState (uc_state c) w1")
    ultimately show ?thesis
      using False st x
      by (auto simp: currentLocked_def seqE_def trying_def ret_def throw_def gives_def wp_def split: sum.splits option.splits)
  qed (use st x in \<open>auto simp: currentLocked_def ret_def\<close>)
  then have "S \<noteq> {}" using d1 x(2) by (auto simp: disk_ok_def ready_ok_def)
  moreover have "\<not> b" using l ready(1) busy_never_locks [of "uc_stage_lock c" w w1] by (cases b) auto
  ultimately show "\<not> b \<and> S \<noteq> {}" by blast
qed

lemma complete_disk:
  assumes ok: "agent_ok c" and d: "disk_ok c S (w_disk w)"
    and st: "st_state st \<in> set all_states" "st_state st = ''ready'' \<longrightarrow> st_manifest st \<in> S"
    and run: "complete pid (uc_state c) st s w = (r, w')"
  shows "disk_ok c S (w_disk w')"
proof -
  have "wp (complete pid (uc_state c) st s) (\<lambda>_ w'. disk_ok c S (w_disk w')) w"
    unfolding complete_def
    by (rule wp_seqEI [where P = "\<lambda>_ w'. disk_ok c S (w_disk w')"])
      (use disk_ok_write [OF ok d st(1)] st(2) in \<open>auto simp: wp_ignoring wp_ret\<close>)
  then show ?thesis using run by (rule wpD)
qed

lemma getForClient_disk: "getForClient p s w = (r, w') \<Longrightarrow> w_disk w' = w_disk w"
proof -
  have "quietly (getForClient p s)" by (auto simp: getForClient_def currentLocked_def intro!: quietly_intros)
  then show "getForClient p s w = (r, w') \<Longrightarrow> w_disk w' = w_disk w"
    using quietlyD [of "getForClient p s" w] by (auto simp: wp_def quiet_def)
qed

lemma download_outcome_ok:
  "st_state (download_outcome tx st r) \<in> set all_states" "st_manifest (download_outcome tx st r) = st_manifest st"
  "st_state (download_outcome tx st r) = ''ready'' \<longleftrightarrow> (\<exists>x. r = Inr x)"
  by (auto simp: download_outcome_def all_states_def poll_states_def split: sum.splits stage_error.splits)

text \<open>The invariant with the disk, the tasks, the tokens, the staged and the holder spelled out.\<close>

lemma agent_invI:
  assumes "disk_ok c (set (ag_staged a)) (w_disk (ag_world a))" "\<And>t. t \<in># ag_tasks a \<Longrightarrow> task_ok (agent_cr ae) a t"
    "\<And>x. x \<in> set (ag_staged a) \<Longrightarrow> consent_token (agent_cr ae) x \<in> ag_tokens a"
    "holding a = (if ag_holder a = By_download then 1 else 0)"
    "ag_holder a = By_reboot \<or> ag_rebooted a \<Longrightarrow> set (ag_staged a) \<noteq> {}"
  shows "agent_inv ae c a"
  using assms by (simp add: agent_inv_def)

lemma agent_invD:
  assumes "agent_inv ae c a"
  shows "disk_ok c (set (ag_staged a)) (w_disk (ag_world a))" "t \<in># ag_tasks a \<Longrightarrow> task_ok (agent_cr ae) a t"
    "x \<in> set (ag_staged a) \<Longrightarrow> consent_token (agent_cr ae) x \<in> ag_tokens a"
    "holding a = (if ag_holder a = By_download then 1 else 0)"
    "ag_holder a = By_reboot \<or> ag_rebooted a \<Longrightarrow> set (ag_staged a) \<noteq> {}"
  using assms by (simp_all add: agent_inv_def)

lemma agent_inv_step:
  assumes ok: "agent_ok c" and "agent_step ae c a a'" and i: "agent_inv ae c a"
  shows "agent_inv ae c a'"
  using assms(2)
proof (cases rule: agent_step.cases)
  case (Poll st w')
  have "disk_ok c (set (ag_staged a)) (w_disk w')"
    using disk_ok_quietly [OF quietly_pollOnce Poll(2)] agent_invD(1) [OF i] by simp
  moreover have "st_state st \<in> set poll_states"
    using poll_state [of ae c "ag_world a"] Poll(2) by (auto simp: gives_def wp_def)
  ultimately show ?thesis
    using i by (auto simp: agent_inv_def Poll(1) holding_def task_ok_def split: task.splits)
next
  case (Publish st ts r w')
  have "disk_ok c (set (ag_staged a)) (w_disk w')"
    using disk_ok_publish [OF ok agent_invD(1) [OF i] _ Publish(3)] agent_invD(2) [OF i, of "Polled st"] Publish(2)
    by (simp add: task_ok_def)
  then show ?thesis
    using i by (auto simp: agent_inv_def Publish(1,2) holding_def task_ok_def split: task.splits)
next
  case (Publish_elsewhere st ts pid r w')
  have "disk_ok c (set (ag_staged a)) (w_disk w')"
    using disk_ok_publish [OF ok agent_invD(1) [OF i] _ Publish_elsewhere(3)] agent_invD(2) [OF i, of "Polled st"] Publish_elsewhere(2)
    by (simp add: task_ok_def)
  then show ?thesis
    using i by (auto simp: agent_inv_def Publish_elsewhere(1,2) holding_def task_ok_def split: task.splits)
next
  case (Advertise st ts)
  then show ?thesis using i by (auto simp: agent_inv_def holding_def task_ok_def split: task.splits)
next
  case (Forget st ts)
  then show ?thesis using i by (auto simp: agent_inv_def holding_def task_ok_def split: task.splits)
next
  case (Status st s' w')
  then show ?thesis using i getForClient_disk [OF Status(2)] by (auto simp: agent_inv_def holding_def task_ok_def split: task.splits)
next
  case (Claim token st s' w')
  then show ?thesis
    using i claim_consent [OF Claim(2)] by (auto simp: agent_inv_def holding_def task_ok_def split: task.splits)
next
  case (Refuse token st s' w')
  then show ?thesis
    using i claim_consent(1) [OF Refuse(2)] by (auto simp: agent_inv_def holding_def task_ok_def split: task.splits)
next
  case (No_lock st ts e w')
  have "disk_ok c (set (ag_staged a)) (w_disk w')"
    by (rule disk_ok_confined [OF ok confined_agent(6) [OF ok] agent_invD(1) [OF i] No_lock(3)])
  then show ?thesis
    using i download_outcome_ok [of "ua_errno ae" st "Inl e"]
    by (auto simp: agent_inv_def No_lock(1,2) holding_def task_ok_def split: task.splits)
next
  case (Lock st ts w')
  have "disk_ok c (set (ag_staged a)) (w_disk w')"
    by (rule disk_ok_confined [OF ok confined_agent(6) [OF ok] agent_invD(1) [OF i] Lock(3)])
  moreover have "ag_holder a = Nobody"
    using Lock(3) busy_never_locks [of "uc_stage_lock c" "ag_world a" w'] by (cases "lock_taken a") (auto simp: lock_taken_def)
  ultimately show ?thesis
    using i by (auto simp: agent_inv_def Lock(1,2) holding_def task_ok_def split: task.splits)
next
  case (Progress got whole)
  then show ?thesis using i by (auto simp: agent_inv_def holding_def task_ok_def split: task.splits)
next
  case (Staged st ts r w')
  let ?S = "set (case r of Inl _ \<Rightarrow> ag_staged a | Inr _ \<Rightarrow> st_manifest st # ag_staged a)"
  have h: "consent_token (agent_cr ae) (st_manifest st) \<in> ag_tokens a"
    using agent_invD(2) [OF i, of "Holding st"] Staged(2) by (simp add: task_ok_def)
  have sub: "set (ag_staged a) \<subseteq> ?S" by (auto split: sum.splits)
  have "disk_ok c (set (ag_staged a)) (w_disk w')"
    by (rule disk_ok_confined [OF ok confined_agent(1) [OF ok] agent_invD(1) [OF i] Staged(3)])
  then have 1: "disk_ok c ?S (w_disk w')" using ready_ok_mono [OF _ sub] by (simp add: disk_ok_def)
  have 2: "holding a = 1" "ag_holder a = By_download" "filter_mset (\<lambda>t. \<exists>st. t = Holding st) ts = {#}"
    using agent_invD(4) [OF i] Staged(2) by (auto simp: holding_def split: if_splits)
  show ?thesis
  proof (rule agent_invI)
    fix t assume "t \<in># ag_tasks a'"
    then consider "t = Done (download_outcome (ua_errno ae) st (as_stage_error r))" | "t \<in># ag_tasks a"
      using Staged(1,2) by auto
    then show "task_ok (agent_cr ae) a' t"
    proof cases
      case 1
      then show ?thesis
        using download_outcome_ok [of "ua_errno ae" st "as_stage_error r"]
        by (auto simp: task_ok_def Staged(1) as_stage_error_def split: sum.splits)
    next
      case 2
      then show ?thesis
        using task_ok_more [OF agent_invD(2) [OF i 2], of a'] sub by (simp add: Staged(1))
    qed
  qed (use i 1 2 h sub in \<open>auto simp: agent_inv_def Staged(1,2) holding_def split: sum.splits\<close>)
next
  case (Complete st ts s' w')
  have "task_ok (agent_cr ae) a (Done st)" using agent_invD(2) [OF i] Complete(2) by simp
  then have "disk_ok c (set (ag_staged a)) (w_disk w')"
    using complete_disk [OF ok agent_invD(1) [OF i] _ _ Complete(3)] by (simp add: task_ok_def)
  then show ?thesis
    using i by (auto simp: agent_inv_def Complete(1,2) holding_def task_ok_def split: task.splits)
next
  case (Reboot_claimed w')
  note cl = claimReboot_ok [OF ok agent_invD(1) [OF i] Reboot_claimed(2)]
  then have "ag_holder a = Nobody" "set (ag_staged a) \<noteq> {}" by (auto simp: lock_taken_def)
  then show ?thesis
    using i cl(1) by (auto simp: agent_inv_def Reboot_claimed(1))
next
  case (Reboot_refused e w')
  then show ?thesis
    using i claimReboot_ok(1) [OF ok agent_invD(1) [OF i] Reboot_refused(2)] by (auto simp: agent_inv_def)
next
  case Reboot
  then show ?thesis using i by (auto simp: agent_inv_def)
next
  case Reboot_failed
  then show ?thesis using i by (auto simp: agent_inv_def)
next
  case (Loader_update retry r w')
  then show ?thesis
    using i disk_ok_confined [OF ok confined_agent(2) [OF ok] agent_invD(1) [OF i] Loader_update(2)] by (auto simp: agent_inv_def)
next
  case (Loader_auto on r w')
  then show ?thesis
    using i disk_ok_confined [OF ok confined_agent(3) [OF ok] agent_invD(1) [OF i] Loader_auto(2)] by (auto simp: agent_inv_def)
next
  case (Startup_loader st r w')
  then show ?thesis
    using i disk_ok_confined [OF ok confined_agent(4) [OF ok] agent_invD(1) [OF i] Startup_loader(2)] by (auto simp: agent_inv_def)
next
  case (Startup_recovery st r w')
  then show ?thesis
    using i disk_ok_confined [OF ok confined_agent(5) [OF ok] agent_invD(1) [OF i] Startup_recovery(2)] by (auto simp: agent_inv_def)
next
  case Other_locks
  then show ?thesis using i by (auto simp: agent_inv_def)
next
  case Other_unlocks
  then show ?thesis using i by (auto simp: agent_inv_def)
next
  case (Other_writes w')
  then show ?thesis
    using i ready_ok_same [OF Other_writes(3)] by (auto simp: agent_inv_def disk_ok_def)
next
  case Restart
  then show ?thesis using i by (auto simp: agent_inv_def holding_def)
qed

lemma agent_inv_reachable:
  assumes "agent_ok c" and "agent_reachable ae c a"
  shows "agent_inv ae c a"
  using assms(2)
proof (induction rule: agent_reachable.induct)
  case (Start a)
  then show ?case by (auto simp: agent_inv_def agent_starts_def disk_ok_def ready_ok_def holding_def)
next
  case (Step a a')
  then show ?case using agent_inv_step [OF assms(1)] by blast
qed

subsection \<open>The properties\<close>

text \<open>C4. The update agent only stages what the user agreed to.  In every reachable state, whatever
  requests, polls, downloads, other processes and restarts interleave and whatever fails: each
  manifest that was staged was confirmed by a token the user sent, which is computed from exactly
  that manifest's digest; the status file says ready only for such a manifest; at most one download
  holds the staging lock; and while a reboot is claimed none does.\<close>

theorem agent_stages_with_consent:
  assumes "agent_ok c" and "agent_reachable ae c a"
  shows "(\<forall>x \<in> set (ag_staged a). consent_token (agent_cr ae) x \<in> ag_tokens a) \<and>
     (\<forall>st. state_at (w_disk (ag_world a)) (uc_state c) = Some st \<and> st_state st = ''ready'' \<longrightarrow>
        (\<exists>x \<in> set (ag_staged a). st_manifest st = coerced x)) \<and>
     holding a \<le> 1 \<and> (ag_holder a = By_reboot \<longrightarrow> holding a = 0 \<and> ag_staged a \<noteq> [])"
  using agent_inv_reachable [OF assms] by (auto simp: agent_inv_def disk_ok_def ready_ok_def)

definition sample_cfg :: agent_cfg where
  "sample_cfg = \<lparr>uc_feed = ''https://h'', uc_current = [], uc_sock = [''run'', ''updated.sock''],
     uc_state = [''run'', ''updated'', ''status.json''], uc_wal = sample_path, uc_rootfs = sd_rootfs sample_dirs,
     uc_esp = sd_esp sample_dirs, uc_firmware = sd_firmware sample_dirs,
     uc_stage_lock = [''run'', ''updated-stage.lock''], uc_history = [''var'', ''lib'', ''updated'', ''history.json'']\<rparr>"

definition sample_agent_env :: agent_env where
  "sample_agent_env = \<lparr>ua_env = stage_env, ua_client = stage_net, ua_pe = (\<lambda>_. None), ua_pid = 7, ua_root = sample_key, ua_errno = (\<lambda>_. [])\<rparr>"

text \<open>An agent that starts beside the status file of an update that was found before the boot.\<close>

definition sample_offer :: status where
  "sample_offer = zero_status\<lparr>st_state := ''available'', st_manifest := sample_digest\<rparr>"

definition offer_world :: world where
  "offer_world = (world_of (put_file (uc_state sample_cfg) (state_text sample_offer) (put_file sample_path (marshal sample_record) empty_disk)))
     \<lparr>w_entropy := replicate 5 ''0''\<rparr>"

definition sample_agent :: agent where
  "sample_agent = \<lparr>ag_store = new_store, ag_world = offer_world, ag_holder = Nobody, ag_tasks = {#}, ag_tokens = {},
     ag_staged = [], ag_rebooted = False\<rparr>"

lemma sample_cfg_ok: "agent_ok sample_cfg"
proof -
  have "record_path_ok sample_path" using stage_layout_ok by (simp add: layout_ok_def)
  then show ?thesis
    by (simp add: agent_ok_def sample_cfg_def agent_files_def stage_files_def promotion_files_def wal_files_def sample_path_def
        BakSuffix_def active_names_def next_names_def slot_list_def slot_groups_def slot_names_def slot_file_def boot_state_path_def
        path_suffix_def path_join_def tmp_names_def loader_marks_def firmware_area_def temp_area_def below_def loaderCandidateFile_def
        loaderRanFile_def sample_dirs_def agent_dirs_def esp_dirs_def loader_stage_files_def recovery_stage_files_def loader_image_def
        loader_sig_def recovery_cur_def recovery_prev_def recovery_next_def sig_of_def recoveryFile_def recoveryPrevFile_def
        recoveryNextFile_def loaderAutoFlag_def dot_names_def in_place_def has_prefix_def has_suffix_def plain_path_def Let_def)
qed

lemma sample_agent_layout: "layout_ok (ua_env sample_agent_env) (uc_wal sample_cfg) (agent_dirs sample_cfg)"
  using stage_layout_ok by (simp add: sample_agent_env_def sample_cfg_def agent_dirs_def sample_dirs_def)

lemma offer_world_facts:
  "w_faults offer_world = []" "unshared (w_disk offer_world)" "calm 5 offer_world"
  "state_at (w_disk offer_world) (uc_state sample_cfg) = Some sample_offer"
  "wal_of sample_path (w_disk offer_world) = Some sample_record"
proof -
  show "w_faults offer_world = []" "unshared (w_disk offer_world)" by (simp_all add: offer_world_def world_of_def)
  have ne: "sample_path \<noteq> uc_state sample_cfg" "uc_state sample_cfg \<notin> dot_names" "sample_path \<notin> dot_names"
    using plain_path_names [of "uc_state sample_cfg"] plain_path_names [OF sample_path_ok] sample_cfg_ok
    by (simp_all add: agent_ok_def) (simp add: sample_cfg_def sample_path_def)
  then show "calm 5 offer_world"
    by (auto simp: calm_def clean_def offer_world_def world_of_def put_file_def empty_disk_def wf_disk_def)
  have "seen_status sample_offer = sample_offer" "int64_range (st_percent sample_offer)" "int64_range (st_loader_available sample_offer)"
    by code_simp+
  then show "state_at (w_disk offer_world) (uc_state sample_cfg) = Some sample_offer"
    by (simp add: state_at_def offer_world_def world_of_def file_data_def lookup_put_file text_state_text) (simp add: sample_cfg_def)
  have "storable sample_record" "stored sample_record = sample_record" by code_simp+
  then show "wal_of sample_path (w_disk offer_world) = Some sample_record"
    using wal_at_new [of sample_record "w_disk offer_world" sample_path] ne(1)
    by (simp add: wal_of_def offer_world_def world_of_def lookup_put_file)
qed

lemma sample_agent_reachable: "agent_reachable sample_agent_env sample_cfg sample_agent"
  by (rule agent_reachable.Start) (auto simp: agent_starts_def sample_agent_def offer_world_facts sample_offer_def)

text \<open>The user sees the offer, agrees, the download gets the lock, and the update is staged.\<close>

definition agreed_token :: string where
  "agreed_token = consent_token sample_crypto sample_digest"

lemma sample_lock:
  "runs (acquireStageLock False (uc_stage_lock sample_cfg)) (\<lambda>r w'. steady 5 sample_path sample_record w' \<and> r = None) offer_world"
proof (rule steady_confined [OF confined_lock])
  show "wal_files sample_path \<inter> {uc_stage_lock sample_cfg} = {}"
    by (simp add: wal_files_def sample_path_def sample_cfg_def path_suffix_def)
  show "steady 5 sample_path sample_record offer_world" by (simp add: steady_def offer_world_facts)
  have "uc_stage_lock sample_cfg \<notin> dot_names" by (simp add: sample_cfg_def dot_names_def has_prefix_def)
  moreover have "uc_stage_lock sample_cfg \<noteq> []" by (simp add: sample_cfg_def)
  ultimately show "runs (acquireStageLock False (uc_stage_lock sample_cfg)) (\<lambda>r w'. calm 5 w' \<and> r = None) offer_world"
    using offer_world_facts(3)
    by (auto simp: runs_def acquireStageLock_def open_create_def flock_def wp_simps sys_defs calm_def clean_def wf_disk_def
        next_fault_def new_inode_def less_Suc_eq split: option.splits)
qed

lemma sample_staging:
  "\<exists>a a'. agent_reachable sample_agent_env sample_cfg a \<and> agent_step sample_agent_env sample_cfg a a' \<and>
     ag_staged a = [] \<and> ag_staged a' = [sample_digest]"
proof -
  let ?ae = sample_agent_env and ?c = sample_cfg and ?o = sample_offer
  have cr: "agent_cr ?ae = sample_crypto" by (simp add: agent_cr_def sample_agent_env_def stage_env_def sample_env_def)
  define s1 where "s1 = advertiseLocked ?o new_store"
  define s2 where "s2 = s1\<lparr>ss_advertised := zero_status, ss_live := ?o\<lparr>st_state := ''downloading'', st_percent := 0, st_error := []\<rparr>\<rparr>"
  define a1 where "a1 = sample_agent\<lparr>ag_store := s1, ag_world := offer_world\<rparr>"
  define a2 where "a2 = a1\<lparr>ag_store := s2, ag_world := offer_world, ag_tasks := {#Waiting ?o#}, ag_tokens := {agreed_token}\<rparr>"
  have o: "st_state ?o = ''available''" "st_manifest ?o = sample_digest" by (simp_all add: sample_offer_def)
  have tok: "agreed_token \<noteq> []" by (simp add: agreed_token_def consent_token_def sample_crypto_def hex_encode_def)
  have "agent_step ?ae ?c sample_agent a1"
    unfolding a1_def
    by (rule agent_step.Status [of _ _ ?o])
      (simp add: getForClient_def currentLocked_def sample_agent_def new_store_def zero_status_def seqE_def trying_def ret_def
        readState_calm offer_world_facts s1_def)
  with sample_agent_reachable have r1: "agent_reachable ?ae ?c a1" by (rule agent_reachable.Step)
  have "claimDownload (agent_cr ?ae) (uc_state ?c) agreed_token (ag_store a1) (ag_world a1) = (Inr (?o, True, s2), offer_world)"
    using tok o sample_digest_ok(2)
    by (simp add: claimDownload_def a1_def s1_def s2_def advertiseLocked_def clientStatus_def cr agreed_token_def ret_def)
  then have "agent_step ?ae ?c a1 (a1\<lparr>ag_store := s2, ag_world := offer_world, ag_tasks := add_mset (Waiting ?o) (ag_tasks a1),
      ag_tokens := insert agreed_token (ag_tokens a1)\<rparr>)"
    by (rule agent_step.Claim)
  then have "agent_step ?ae ?c a1 a2" by (simp add: a2_def a1_def sample_agent_def)
  with r1 have r2: "agent_reachable ?ae ?c a2" by (rule agent_reachable.Step)
  obtain w3 where lock: "acquireStageLock False (uc_stage_lock ?c) offer_world = (Inr None, w3)" and w3: "steady 5 sample_path sample_record w3"
    using sample_lock by (auto simp: runs_iff)
  have t2: "ag_tasks a2 = add_mset (Waiting ?o) {#}" "ag_world a2 = offer_world" "\<not> lock_taken a2"
    by (simp_all add: a2_def a1_def sample_agent_def lock_taken_def)
  define a3 where "a3 = a2\<lparr>ag_world := w3, ag_holder := By_download, ag_tasks := {#Holding ?o#}\<rparr>"
  have "agent_step ?ae ?c a2 a3"
    unfolding a3_def by (rule agent_step.Lock [OF t2(1)]) (use t2 lock in simp)
  with r2 have r3: "agent_reachable ?ae ?c a3" by (rule agent_reachable.Step)
  have "calm 4 w3" using w3 by (simp add: steady_def calm_def)
  then obtain msg w4 where "stage stage_env sample_path ''https://h/manifest.json'' [] sample_key sample_dirs sample_digest w3 = (Inr msg, w4)"
    using sample_update_staged [of w3 sample_digest] w3 by (auto simp: steady_def)
  moreover have "manifest_url ?c = ''https://h/manifest.json''" by code_simp
  moreover have "agent_dirs ?c = sample_dirs" by (simp add: agent_dirs_def sample_cfg_def sample_dirs_def)
  ultimately have st: "run_stage ?ae ?c (st_manifest ?o) (ag_world a3) = (Inr msg, w4)"
    using sample_digest_ok(2) by (simp add: run_stage_def StageExpectedManifest_def a3_def o sample_agent_env_def) (simp add: sample_cfg_def)
  have "ag_tasks a3 = add_mset (Holding ?o) {#}" "ag_staged a3 = []" by (simp_all add: a3_def a2_def a1_def sample_agent_def)
  with agent_step.Staged [OF this(1) st] r3 show ?thesis by (fastforce simp: o)
qed

lemma agent_stages_with_consent_witness:
  "\<exists>a. agent_reachable sample_agent_env sample_cfg a \<and> ag_staged a = [sample_digest] \<and> agreed_token \<in> ag_tokens a"
proof -
  obtain a a' where run: "agent_reachable sample_agent_env sample_cfg a" "agent_step sample_agent_env sample_cfg a a'"
    "ag_staged a' = [sample_digest]"
    using sample_staging by blast
  have r: "agent_reachable sample_agent_env sample_cfg a'" by (rule agent_reachable.Step [OF run(1,2)])
  have "consent_token (agent_cr sample_agent_env) sample_digest = agreed_token"
    by (simp add: agreed_token_def agent_cr_def sample_agent_env_def stage_env_def sample_env_def)
  with agent_stages_with_consent [OF sample_cfg_ok r] r run(3) show ?thesis by auto
qed

text \<open>C5. What a step of the agent stages is what was agreed to: each time a step stages a manifest
  with success, be it one that was staged before, a token over its digest had been sent, and the
  record on the disk arms an update whose manifest is authentic and has that digest, which is no
  downgrade, and whose root image, hash tree, kernel cache and signature lie in the candidate slots
  with the hashes of the manifest. A reboot only starts when no staging is under way and such a
  manifest has been staged.\<close>

theorem agent_arms_what_was_agreed:
  assumes "agent_ok c" and "layout_ok (ua_env ae) (uc_wal c) (agent_dirs c)"
    and "agent_reachable ae c a" and "agent_step ae c a a'"
  shows "(ag_staged a' = ag_staged a \<or>
      (\<exists>x d1. ag_staged a' = x # ag_staged a \<and> consent_token (agent_cr ae) x \<in> ag_tokens a \<and>
         saved (uc_wal c) d1 (w_disk (ag_world a')) \<and>
         staged_record (ua_env ae) (uc_wal c) (agent_dirs c) [] (ua_root ae) x (w_disk (ag_world a)) d1 (w_disk (ag_world a')))) \<and>
     (ag_rebooted a' \<longrightarrow> ag_rebooted a \<or> holding a = 0 \<and> (\<exists>x \<in> set (ag_staged a). consent_token (agent_cr ae) x \<in> ag_tokens a))"
  using assms(4)
proof (cases rule: agent_step.cases)
  case (Staged st ts r w')
  have i: "agent_inv ae c a" by (rule agent_inv_reachable [OF assms(1,3)])
  have h: "consent_token (agent_cr ae) (st_manifest st) \<in> ag_tokens a"
    using agent_invD(2) [OF i, of "Holding st"] Staged(2) by (simp add: task_ok_def)
  have u: "unshared (w_disk (ag_world a))" using agent_invD(1) [OF i] by (simp add: disk_ok_def)
  show ?thesis
  proof (cases r)
    case (Inr msg)
    have ex: "st_manifest st \<noteq> []" "stage (ua_env ae) (uc_wal c) (manifest_url c) [] (ua_root ae) (agent_dirs c) (st_manifest st) (ag_world a) = (Inr msg, w')"
      using Staged(3) Inr by (auto simp: run_stage_def StageExpectedManifest_def throw_def split: if_splits)
    from wpD [OF arms_stage [OF assms(2) u, unfolded arms_def] ex(2)]
    have "\<exists>d1. saved (uc_wal c) d1 (w_disk w') \<and>
        staged_record (ua_env ae) (uc_wal c) (agent_dirs c) [] (ua_root ae) (st_manifest st) (w_disk (ag_world a)) d1 (w_disk w')"
      by blast
    then show ?thesis using Inr h by (auto simp: Staged(1))
  qed (simp add: Staged(1))
next
  case Reboot
  then show ?thesis using agent_inv_reachable [OF assms(1,3)] by (auto simp: agent_inv_def)
qed auto

lemma agent_arms_what_was_agreed_witness:
  "\<exists>a a' d1. agent_step sample_agent_env sample_cfg a a' \<and> ag_staged a' = sample_digest # ag_staged a \<and>
     agreed_token \<in> ag_tokens a \<and> saved sample_path d1 (w_disk (ag_world a')) \<and>
     staged_record stage_env sample_path sample_dirs [] sample_key sample_digest (w_disk (ag_world a)) d1 (w_disk (ag_world a'))"
proof -
  obtain a a' where run: "agent_reachable sample_agent_env sample_cfg a" "agent_step sample_agent_env sample_cfg a a'"
    "ag_staged a = []" "ag_staged a' = [sample_digest]"
    using sample_staging by blast
  have "consent_token (agent_cr sample_agent_env) sample_digest = agreed_token"
    "ua_env sample_agent_env = stage_env" "ua_root sample_agent_env = sample_key" "uc_wal sample_cfg = sample_path"
    "agent_dirs sample_cfg = sample_dirs"
    by (simp_all add: agreed_token_def agent_cr_def sample_agent_env_def stage_env_def sample_env_def sample_cfg_def agent_dirs_def sample_dirs_def)
  with agent_arms_what_was_agreed [OF sample_cfg_ok sample_agent_layout run(1,2), THEN conjunct1] run(3,4)
  obtain d1 where "agreed_token \<in> ag_tokens a" "saved sample_path d1 (w_disk (ag_world a'))"
    "staged_record stage_env sample_path sample_dirs [] sample_key sample_digest (w_disk (ag_world a)) d1 (w_disk (ag_world a'))"
    by auto
  then show ?thesis using run(2-4) by (intro exI [of _ a] exI [of _ a'] exI [of _ d1]) simp
qed

end
