(* ===== verification/Civil.thy ===== *)
theory Civil
  imports Trust
begin

section \<open>Writing base64 and RFC 3339\<close>

text \<open>
  The release side writes what the device reads in theory \<open>Trust\<close>: keys in base64 and times in
  RFC 3339. Both are written as the standard library does, a time in UTC, cut to the second.
\<close>

subsection \<open>Base64\<close>

definition b64_char :: "nat \<Rightarrow> char" where
  "b64_char n =
    (if n < 26 then char_of (65 + n) else if n < 52 then char_of (71 + n) else if n < 62 then char_of (n - 4)
     else if n = 62 then CHR ''+'' else CHR ''/'')"

text \<open>\<open>base64.StdEncoding.EncodeToString\<close>: three bytes become four characters, the last group is padded.\<close>

fun base64_encode :: "string \<Rightarrow> string" where
  "base64_encode [] = []"
| "base64_encode [a] = [b64_char (byte a div 4), b64_char (byte a mod 4 * 16), CHR ''='', CHR ''='']"
| "base64_encode [a, b] =
     [b64_char (byte a div 4), b64_char (byte a mod 4 * 16 + byte b div 16), b64_char (byte b mod 16 * 4), CHR ''='']"
| "base64_encode (a # b # c # s) =
     b64_char (byte a div 4) # b64_char (byte a mod 4 * 16 + byte b div 16) # b64_char (byte b mod 16 * 4 + byte c div 64)
     # b64_char (byte c mod 64) # base64_encode s"

lemma b64_char_byte:
  "n < 64 \<Longrightarrow> byte (b64_char n) =
     (if n < 26 then 65 + n else if n < 52 then 71 + n else if n < 62 then n - 4 else if n = 62 then 43 else 47)"
  by (auto simp: b64_char_def byte_def)

lemma b64_char_val:
  assumes "n < 64"
  shows "byte (b64_char n) \<noteq> 10" "byte (b64_char n) \<noteq> 13" "byte (b64_char n) < 128" "b64_char n \<noteq> CHR ''=''"
    "b64_val (b64_char n) = Some n"
proof -
  note bytes = b64_char_byte [OF assms]
  show "byte (b64_char n) \<noteq> 10" "byte (b64_char n) \<noteq> 13" "byte (b64_char n) < 128"
    using assms by (auto simp: bytes)
  have "byte (CHR ''='') = 61" by (simp add: byte_def)
  then show "b64_char n \<noteq> CHR ''=''" using assms by (auto simp: byte_eq_iff [symmetric] bytes)
  have lits: "byte (CHR ''+'') = 43" "byte (CHR ''/'') = 47" by (simp_all add: byte_def)
  show "b64_val (b64_char n) = Some n"
    using assms unfolding b64_val_def in_range_def byte_eq_iff [symmetric] bytes lits by auto
qed

lemma joined_less:
  "y < 256 \<Longrightarrow> x mod 4 * 16 + y div 16 < (64 :: nat)" "y < 256 \<Longrightarrow> x mod 16 * 4 + y div 64 < (64 :: nat)"
proof -
  have "x mod 4 < 4" "x mod 16 < 16" by simp_all
  moreover assume y: "y < 256"
  have "y div 16 < 16" "y div 64 < 4" using y by simp_all
  ultimately show "x mod 4 * 16 + y div 16 < (64 :: nat)" "x mod 16 * 4 + y div 64 < (64 :: nat)" by linarith+
qed

lemma six_bits:
  "byte a div 4 < 64" "byte a mod 4 * 16 < 64" "byte a mod 4 * 16 + byte b div 16 < 64"
  "byte b mod 16 * 4 < 64" "byte b mod 16 * 4 + byte c div 64 < 64" "byte c mod 64 < 64"
proof -
  have "byte a mod 4 < 4" "byte b mod 16 < 16" by simp_all
  then show "byte a mod 4 * 16 < 64" "byte b mod 16 * 4 < 64" by linarith+
qed (use byte_less [of a] byte_less [of b] byte_less [of c] joined_less in \<open>simp_all add: less_mult_imp_div_less\<close>)

lemma byte_groups [simp]:
  "byte b div 16 div 16 = 0" "byte b div 16 mod 16 = byte b div 16"
  "byte c div 64 div 4 = 0" "byte c div 64 mod 4 = byte c div 64"
  using byte_less [of b] byte_less [of c] by (simp_all add: less_mult_imp_div_less div_mult2_eq [symmetric])

lemma base64_plain: "list_all (\<lambda>c. byte c \<noteq> 10 \<and> byte c \<noteq> 13 \<and> byte c < 128) (base64_encode s)"
proof -
  have "byte (CHR ''='') = 61" by (simp add: byte_def)
  then show ?thesis by (induction s rule: base64_encode.induct) (simp_all add: b64_char_val six_bits)
qed

lemma b64_quanta_encode: "b64_quanta (base64_encode s) = Some s"
  by (induction s rule: base64_encode.induct) (simp_all add: b64_char_val six_bits)

lemma base64_round_trip: "base64_decode (base64_encode s) = Some s"
proof -
  have "filter (\<lambda>c. byte c \<noteq> 10 \<and> byte c \<noteq> 13) (base64_encode s) = base64_encode s"
    using base64_plain [of s] by (auto simp: list_all_iff filter_id_conv)
  then show ?thesis by (simp add: base64_decode_def b64_quanta_encode)
qed

subsection \<open>Times\<close>

text \<open>A number with leading zeros, as the fields of a time are written.\<close>

definition pad_nat :: "nat \<Rightarrow> nat \<Rightarrow> string" where
  "pad_nat w n = replicate (w - length (nat_str n)) (CHR ''0'') @ nat_str n"

text \<open>The days before 1970 count from the first day of year 1; the year and the month of a day are the
  first ones that end after it.\<close>

definition epoch_days :: int where
  "epoch_days = 719162"

definition first_that :: "(nat \<Rightarrow> bool) \<Rightarrow> nat list \<Rightarrow> nat" where
  "first_that P ns = (case List.find P ns of Some n \<Rightarrow> n | None \<Rightarrow> 0)"

definition year_of :: "int \<Rightarrow> nat" where
  "year_of n = first_that (\<lambda>y. n < days_before_year (Suc y)) [nat (n div 366) + 1 ..< nat (n div 365) + 2]"

definition month_days :: "nat \<Rightarrow> nat \<Rightarrow> int" where
  "month_days y m = (\<Sum>k \<leftarrow> [1..<m]. int (days_in_month y k))"

definition month_of :: "nat \<Rightarrow> int \<Rightarrow> nat" where
  "month_of y r = first_that (\<lambda>m. r < month_days y (Suc m)) [1..<13]"

text \<open>\<open>t.UTC().Format(time.RFC3339)\<close>, for times from year 1 on.\<close>

definition format_rfc3339 :: "int \<Rightarrow> string" where
  "format_rfc3339 t =
    (let secs = t div 1000000000; n = secs div 86400 + epoch_days; r = nat (secs mod 86400);
         y = year_of n; d = n - days_before_year y; m = month_of y d; dom = nat (d - month_days y m) + 1 in
     pad_nat 4 y @ ''-'' @ pad_nat 2 m @ ''-'' @ pad_nat 2 dom @ ''T'' @ pad_nat 2 (r div 3600) @ '':'' @
     pad_nat 2 (r mod 3600 div 60) @ '':'' @ pad_nat 2 (r mod 60) @ ''Z'')"

lemma digits_val_zeros: "digits_val (replicate k (CHR ''0'') @ s) = digits_val s"
proof (induction k)
  case (Suc k)
  have "digit_val (CHR ''0'') = 0" by (simp add: digit_val_def)
  then have "digits_val (CHR ''0'' # t) = digits_val t" for t by (simp add: digits_val_def)
  with Suc show ?case by simp
qed simp

lemma nat_str_length: "0 < w \<Longrightarrow> n < 10 ^ w \<Longrightarrow> length (nat_str n) \<le> w"
proof (induction n arbitrary: w rule: nat_str.induct)
  case (1 n)
  show ?case
  proof (cases "n < 10")
    case True
    with "1.prems" show ?thesis by (subst nat_str.simps) simp
  next
    case False
    with "1.prems" obtain v where w: "w = Suc v" "0 < v" by (cases w; cases "w - 1") auto
    with "1.prems" have "n div 10 < 10 ^ v" by (simp add: less_mult_imp_div_less mult.commute)
    with "1.IH" [OF False w(2)] False w(1) show ?thesis by (subst nat_str.simps) simp
  qed
qed

lemma take_digits_pad:
  assumes "0 < w" "n < 10 ^ w"
  shows "take_digits w (pad_nat w n @ s) = Some (n, s)"
proof -
  have len: "length (pad_nat w n) = w" using nat_str_length [OF assms] by (simp add: pad_nat_def)
  have "is_digit (CHR ''0'')" by (simp add: is_digit_def)
  then have "list_all is_digit (pad_nat w n)"
    using nat_str_digits [of n] by (auto simp: pad_nat_def list_all_iff)
  with len show ?thesis by (simp add: pad_nat_def digits_val_zeros)
qed

lemma first_that_in:
  assumes "m \<in> set ns" "P m"
  shows "first_that P ns \<in> set ns \<and> P (first_that P ns)"
proof -
  obtain k where "List.find P ns = Some k" using assms by (cases "List.find P ns") (auto simp: find_None_iff)
  then show ?thesis using find_Some_set [of P ns k] by (simp add: first_that_def)
qed

lemma first_that_least:
  assumes "first_that P [a..<b] = k" "k \<in> {a..<b}" "P k" "j \<in> {a..<k}"
  shows "\<not> P j"
proof -
  obtain i where i: "i < length [a..<b]" "[a..<b] ! i = k" "\<And>l. l < i \<Longrightarrow> \<not> P ([a..<b] ! l)"
    using assms find_None_iff [of P "[a..<b]"] unfolding first_that_def
    by (cases "List.find P [a..<b]") (auto simp: find_Some_iff)
  have "j - a < i" "j - a < length [a..<b]" "[a..<b] ! (j - a) = j" using i(1,2) assms(4) by auto
  then show ?thesis using i(3) by metis
qed

lemma next_div:
  assumes "0 < k"
  shows "(p + 1) div k = p div k + (if k dvd p + 1 then 1 else (0 :: int))"
proof -
  have p: "p + 1 = k * (p div k) + (p mod k + 1)" "0 \<le> p mod k" "p mod k < k" using assms by simp_all
  show ?thesis
  proof (cases "p mod k + 1 = k")
    case True
    then have "p + 1 = k * (p div k + 1)" using p(1) by (simp add: distrib_left)
    then show ?thesis using assms by (metis dvd_triv_left nonzero_mult_div_cancel_left less_irrefl)
  next
    case False
    then have q: "(p + 1) div k = p div k" "(p + 1) mod k = p mod k + 1"
      using p int_div_pos_eq [of "p + 1" k "p div k" "p mod k + 1"] int_mod_pos_eq [of "p + 1" k "p div k" "p mod k + 1"] by auto
    moreover have "\<not> k dvd p + 1" using q(2) p(2) by (simp add: dvd_eq_mod_eq_0)
    ultimately show ?thesis by simp
  qed
qed

lemma leap_sum:
  assumes "B \<Longrightarrow> A" "C \<Longrightarrow> B"
    and "x' = x + (if A then 1 else 0)" "y' = y + (if B then 1 else 0)" "z' = z + (if C then 1 else (0 :: int))"
  shows "365 * (p + 1) + x' - y' + z' = 365 * p + x - y + z + (if A \<and> \<not> B \<or> C then 366 else 365)"
  using assms by auto

lemma days_before_Suc: "1 \<le> y \<Longrightarrow> days_before_year (Suc y) = days_before_year y + (if leap_year y then 366 else 365)"
proof -
  assume y: "1 \<le> y"
  define p where "p = int y - 1"
  have p: "int (Suc y) - 1 = p + 1" "int y - 1 = p" "int y = p + 1" using y by (simp_all add: p_def)
  define A B C where "A \<longleftrightarrow> 4 dvd p + 1" and "B \<longleftrightarrow> 100 dvd p + 1" and "C \<longleftrightarrow> 400 dvd p + 1"
  have dv: "4 dvd y \<longleftrightarrow> A" "100 dvd y \<longleftrightarrow> B" "400 dvd y \<longleftrightarrow> C"
    unfolding A_def B_def C_def p(3) [symmetric] by (simp_all only: int_dvd_int_iff [symmetric] of_nat_numeral)
  have imp: "B \<Longrightarrow> A" "C \<Longrightarrow> B"
    unfolding A_def B_def C_def using dvd_trans [of "4 :: int" 100] dvd_trans [of "100 :: int" 400] by simp_all
  show ?thesis
    unfolding days_before_year_def Let_def p(1,2) leap_year_def dv
    by (rule leap_sum [OF imp]; (assumption | unfold A_def B_def C_def, rule next_div, simp))
qed

lemma days_before_year_bounds:
  assumes "1 \<le> y"
  shows "365 * (int y - 1) \<le> days_before_year y" "days_before_year y \<le> 366 * (int y - 1)"
proof -
  define p where "p = int y - 1"
  have "0 \<le> p" using assms by (simp add: p_def)
  then have "p div 100 \<le> p div 4" "p div 400 \<le> p div 100" "p div 4 \<le> p"
    using zdiv_mono2 [of p 1 4] by (simp_all add: zdiv_mono2)
  moreover have "0 \<le> p div 400" using \<open>0 \<le> p\<close> by simp
  ultimately show "365 * (int y - 1) \<le> days_before_year y" "days_before_year y \<le> 366 * (int y - 1)"
    unfolding days_before_year_def Let_def p_def [symmetric] by linarith+
qed

lemma year_of_bounds:
  assumes "0 \<le> n"
  shows "1 \<le> year_of n \<and> days_before_year (year_of n) \<le> n \<and> n < days_before_year (Suc (year_of n))"
proof -
  let ?P = "\<lambda>y. n < days_before_year (Suc y)"
  define a b where "a = nat (n div 366) + 1" and "b = nat (n div 365) + 2"
  define k where "k = first_that ?P [a..<b]"
  have year: "year_of n = k" by (simp only: year_of_def k_def a_def b_def)
  have "n div 366 \<le> n div 365" using assms by (simp add: zdiv_mono2)
  then have last: "b - 1 \<in> {a..<b}" by (auto simp: a_def b_def)
  have "n < 365 * (n div 365 + 1)" using pos_mod_bound [of "365 :: int" n] div_mult_mod_eq [of n 365] by simp
  also have "\<dots> = 365 * (int (Suc (b - 1)) - 1)" using assms by (simp add: b_def)
  also have "\<dots> \<le> days_before_year (Suc (b - 1))" by (rule days_before_year_bounds) simp
  finally have "?P (b - 1)" .
  then have k: "k \<in> {a..<b}" "?P k"
    using first_that_in [of "b - 1" "[a..<b]" ?P] last unfolding k_def by simp_all
  have "days_before_year k \<le> n"
  proof (cases "k = a")
    case True
    have "days_before_year a \<le> 366 * (int a - 1)" by (rule days_before_year_bounds) (simp add: a_def)
    also have "\<dots> = 366 * (n div 366)" using assms by (simp add: a_def)
    also have "\<dots> \<le> n" using pos_mod_sign [of "366 :: int" n] div_mult_mod_eq [of n 366] by simp
    finally show ?thesis using True by simp
  next
    case False
    then have "k - 1 \<in> {a..<k}" using k(1) by (auto simp: a_def)
    then have "\<not> ?P (k - 1)"
      using first_that_least [of ?P a b k "k - 1"] k by (simp add: k_def)
    then show ?thesis using k(1) by (simp add: a_def)
  qed
  then show ?thesis using k by (simp add: year a_def)
qed

lemma month_days_ends:
  "month_days y 1 = 0" "month_days y 13 = (if leap_year y then 366 else 365)"
  by (simp_all add: month_days_def days_in_month_def upt_rec)

lemma month_days_Suc: "1 \<le> m \<Longrightarrow> month_days y (Suc m) = month_days y m + int (days_in_month y m)"
  by (simp add: month_days_def)

lemma month_of_bounds:
  assumes "0 \<le> r" "r < (if leap_year y then 366 else 365)"
  shows "month_of y r \<in> {1..12} \<and> month_days y (month_of y r) \<le> r \<and> r < month_days y (Suc (month_of y r))"
proof -
  let ?P = "\<lambda>m. r < month_days y (Suc m)"
  define k where "k = month_of y r"
  have "?P 12" using assms(2) month_days_ends(2) [of y] by simp
  then have k: "k \<in> {1..<13}" "?P k"
    using first_that_in [of 12 "[1..<13]" ?P] by (simp_all add: k_def month_of_def)
  have "month_days y k \<le> r"
  proof (cases "k = 1")
    case False
    then have "k - 1 \<in> {1..<k}" using k(1) by auto
    then have "\<not> ?P (k - 1)" using first_that_least [of ?P 1 13 k "k - 1"] k by (simp add: k_def month_of_def)
    then show ?thesis using k(1) by simp
  qed (use assms(1) month_days_ends(1) in simp)
  then show ?thesis using k by (simp add: k_def [symmetric] less_Suc_eq_le [symmetric])
qed

lemma parse_format_rfc3339:
  assumes "0 \<le> t div 1000000000 div 86400 + epoch_days" "year_of (t div 1000000000 div 86400 + epoch_days) < 10000"
  shows "parse_rfc3339 (format_rfc3339 t) = Some (t div 1000000000 * 1000000000)"
proof -
  define secs where "secs = t div 1000000000"
  define n where "n = secs div 86400 + epoch_days"
  define r where "r = nat (secs mod 86400)"
  define y where "y = year_of n"
  define d where "d = n - days_before_year y"
  define m where "m = month_of y d"
  define dom where "dom = nat (d - month_days y m) + 1"
  have y: "1 \<le> y" "y < 10 ^ 4" "0 \<le> d" "d < (if leap_year y then 366 else 365)"
    using year_of_bounds [of n] assms days_before_Suc [of y] by (auto simp: y_def n_def d_def secs_def)
  have m: "1 \<le> m" "m \<le> 12" "month_days y m \<le> d" "d < month_days y m + int (days_in_month y m)"
    using month_of_bounds [OF y(3,4)] month_days_Suc [of m y] by (auto simp: m_def)
  have dim: "days_in_month y m \<le> 31" by (simp add: days_in_month_def)
  have dom: "1 \<le> dom" "dom \<le> days_in_month y m" "int dom = d - month_days y m + 1"
    using m(3,4) by (simp_all add: dom_def)
  have r: "r div 3600 < 24" "r mod 3600 div 60 < 60" "r mod 60 < 60" and rr: "int r = secs mod 86400"
    by (simp_all add: r_def less_mult_imp_div_less nat_less_iff)
  have fmt: "format_rfc3339 t = pad_nat 4 y @ ''-'' @ pad_nat 2 m @ ''-'' @ pad_nat 2 dom @ ''T'' @ pad_nat 2 (r div 3600) @ '':'' @
     pad_nat 2 (r mod 3600 div 60) @ '':'' @ pad_nat 2 (r mod 60) @ ''Z''"
    by (simp only: format_rfc3339_def Let_def secs_def n_def r_def y_def d_def m_def dom_def)
  have td: "take_digits 2 (pad_nat 2 k @ s) = Some (k, s)" if "k < 100" for k s
    by (rule take_digits_pad) (use that in simp_all)
  have th: "take_hour (pad_nat 2 k @ s) = Some (k, s)" if "k < 100" for k s
    using that by (simp add: take_hour_def td del: take_digits.simps)
  have hms: "(r div 3600) * 3600 + (r mod 3600 div 60) * 60 + r mod 60 = r"
  proof -
    have "r mod 3600 div 60 * 60 + r mod 60 = r mod 3600"
      using div_mult_mod_eq [of "r mod 3600" 60] mod_mod_cancel [of 60 3600 r] by simp
    then show ?thesis using div_mult_mod_eq [of r 3600] by (simp only: add.assoc)
  qed
  have zone: "take_fraction ''Z'' = (0, ''Z'')" "take_zone ''Z'' = Some 0"
    by (simp_all add: take_fraction_def take_zone_def)
  have epoch: "days_before_year 1970 = epoch_days" by (simp add: epoch_days_def days_before_year_def)
  have "days_from_epoch y m dom = secs div 86400"
    using dom(3) epoch by (simp only: days_from_epoch_def month_days_def [symmetric] d_def n_def)
  moreover have "int (r div 3600) * 3600 + int (r mod 3600 div 60) * 60 + int (r mod 60) = secs mod 86400"
    using arg_cong [OF hms, of int] rr by simp
  ultimately have secs: "days_from_epoch y m dom * 86400 + int (r div 3600) * 3600 + int (r mod 3600 div 60) * 60 + int (r mod 60) = secs"
    using div_mult_mod_eq [of secs 86400] by (simp only: add.assoc)
  have "civil_nanos y m dom (r div 3600) (r mod 3600 div 60) (r mod 60) 0 0 = secs * 1000000000"
    unfolding civil_nanos_def secs by simp
  then show ?thesis
    unfolding fmt parse_rfc3339_def
    using y m dim dom r by (simp add: take_digits_pad td th zone secs_def del: take_digits.simps)
qed

text \<open>The times RFC 3339 can write: those of the years 1 to 9999.\<close>

definition civil_range :: "int \<Rightarrow> bool" where
  "civil_range t \<longleftrightarrow> - 62135596800 \<le> t div 1000000000 \<and> t div 1000000000 < 253402300800"

lemma days_before_10000: "10000 \<le> y \<Longrightarrow> 3652059 \<le> days_before_year y"
proof (induction y rule: dec_induct)
  case (step y)
  then show ?case using days_before_Suc [of y] by simp
qed (simp add: days_before_year_def)

text \<open>Times: the text of a time is read back as its whole second.\<close>

theorem rfc3339_round_trip:
  assumes "civil_range t"
  shows "parse_rfc3339 (format_rfc3339 t) = Some (t div 1000000000 * 1000000000)"
proof (rule parse_format_rfc3339)
  let ?s = "t div 1000000000"
  define n where "n = ?s div 86400 + epoch_days"
  have "- 62135596800 div 86400 \<le> ?s div 86400" "?s div 86400 \<le> 253402300799 div 86400"
    by (rule zdiv_mono1; use assms in \<open>simp add: civil_range_def\<close>)+
  then have n: "0 \<le> n" "n < 3652059" by (simp_all add: n_def epoch_days_def)
  then have "year_of n < 10000"
    using year_of_bounds [OF n(1)] days_before_10000 [of "year_of n"] by linarith
  with n show "0 \<le> ?s div 86400 + epoch_days" "year_of (?s div 86400 + epoch_days) < 10000" by (simp_all add: n_def)
qed

lemma ascii_append: "ascii (a @ b) \<longleftrightarrow> ascii a \<and> ascii b"
  by (simp add: ascii_def)

lemma ascii_pad_nat [simp]: "ascii (pad_nat w n)"
proof -
  have "byte c < 128" if "is_digit c" for c using that by (auto simp: is_digit_def byte_def)
  then show ?thesis using nat_str_digits [of n] by (auto simp: ascii_def pad_nat_def list_all_iff byte_def)
qed

lemma ascii_format_rfc3339 [simp]: "ascii (format_rfc3339 t)"
proof -
  have "ascii ''-''" "ascii ''T''" "ascii '':''" "ascii ''Z''" by (simp_all add: ascii_def byte_def)
  then show ?thesis unfolding format_rfc3339_def Let_def ascii_append by (simp only: ascii_pad_nat simp_thms)
qed

lemma ascii_base64_encode [simp]: "ascii (base64_encode s)"
  using base64_plain [of s] by (simp add: ascii_def list_all_iff)

lemma format_rfc3339_not_Nil [simp]: "format_rfc3339 t \<noteq> []"
  by (simp add: format_rfc3339_def Let_def)

lemma rfc3339_round_trip_witness: "parse_rfc3339 (format_rfc3339 86400000000001) = Some 86400000000000"
  using rfc3339_round_trip [of 86400000000001] by (simp add: civil_range_def)

end
