(* ===== verification/Signing.thy ===== *)
theory Signing
  imports Civil Members Fetch
begin

section \<open>The release side: keys, certificates, revocation lists\<close>

text \<open>
  internal/signing/signing.go: what is signed where updates are built. Ed25519 is a parameter: the
  device's check is \<open>ed25519\<close> of the record \<open>crypto\<close>, the signature under a private key is
  \<open>sg_sign\<close>, the fresh key pair is \<open>sg_generate\<close>, public key first. \<open>sg_file\<close> is the file a name
  on the command line leads to.
\<close>

record signer =
  sg_crypto :: crypto
  sg_sign :: "string \<Rightarrow> string \<Rightarrow> string"
  sg_generate :: "error + string \<times> string"
  sg_file :: "string \<Rightarrow> path"

definition enc_cert :: "signing_cert \<Rightarrow> json" where
  "enc_cert c = JObj ([(''version'', JInt (cert_version c))] @ [(''signing_pubkey'', JStr (cert_signing_pubkey c))] @
     [(''issued_at'', JStr (cert_issued_at c))] @ [(''not_after'', JStr (cert_not_after c))])"

definition enc_revocation :: "revocation \<Rightarrow> json" where
  "enc_revocation r = JObj [(''min_cert_version'', JInt (rev_min_cert_version r)),
     (''revoked'', case rev_revoked r of None \<Rightarrow> JNull | Some vs \<Rightarrow> JArr (map JInt vs)),
     (''updated_at'', JStr (rev_updated_at r))]"

definition new_cert :: "int \<Rightarrow> string \<Rightarrow> int \<Rightarrow> int \<Rightarrow> signing_cert" where
  "new_cert version spub validity now = \<lparr>cert_version = version, cert_signing_pubkey = base64_encode spub,
     cert_issued_at = format_rfc3339 now, cert_not_after = format_rfc3339 (now + validity)\<rparr>"

text \<open>The name of the detached signature of a file.\<close>

definition sig_name :: "string \<Rightarrow> string" where
  "sig_name p = p @ ''.sig''"

definition read_private :: "signer \<Rightarrow> string \<Rightarrow> string \<Rightarrow> string io" where
  "read_private sg what p = seqE (read_file (sg_file sg p)) (\<lambda>key.
     if length key \<noteq> 64 then throw (Errorf (what @ '' key must be 64 bytes, got '' @ nat_str (length key))) else ret key)"

text \<open>A text and its signature, the text first.\<close>

definition write_signed :: "signer \<Rightarrow> string \<Rightarrow> string \<Rightarrow> string \<Rightarrow> unit io" where
  "write_signed sg key p b =
     seqE (write_file (sg_file sg p) b) (\<lambda>_. write_file (sg_file sg (sig_name p)) (sg_sign sg key b))"

definition IssueCert :: "signer \<Rightarrow> string \<Rightarrow> string \<Rightarrow> string \<Rightarrow> int \<Rightarrow> int \<Rightarrow> int \<Rightarrow> unit io" where
  "IssueCert sg rootPriv certPath signingKey version validity now =
     seqE (read_private sg ''issue-cert: root'' rootPriv) (\<lambda>root.
     seqE (lift_err (sg_generate sg)) (\<lambda>(spub, spriv).
     seqE (write_signed sg root certPath (json_compact (enc_cert (new_cert version spub validity now)))) (\<lambda>_.
     write_file (sg_file sg signingKey) spriv)))"

definition Revoke :: "signer \<Rightarrow> string \<Rightarrow> string \<Rightarrow> int \<Rightarrow> int list option \<Rightarrow> int \<Rightarrow> unit io" where
  "Revoke sg rootPriv outPath minVersion revoked now =
     seqE (read_private sg ''revoke: root'' rootPriv) (\<lambda>root.
     write_signed sg root outPath (json_compact (enc_revocation \<lparr>rev_min_cert_version = minVersion,
       rev_revoked = Some (case revoked of None \<Rightarrow> [] | Some vs \<Rightarrow> vs), rev_updated_at = format_rfc3339 now\<rparr>)))"

definition GenerateKeyFiles :: "signer \<Rightarrow> string \<Rightarrow> string \<Rightarrow> unit io" where
  "GenerateKeyFiles sg privPath pubPath =
     seqE (lift_err (sg_generate sg)) (\<lambda>(pub, priv).
     seqE (write_file (sg_file sg privPath) priv) (\<lambda>_. write_file (sg_file sg pubPath) pub))"

definition SignManifest :: "signer \<Rightarrow> string \<Rightarrow> string \<Rightarrow> string io" where
  "SignManifest sg privPath manifestPath =
     seqE (read_private sg ''signing: private'' privPath) (\<lambda>key.
     seqE (read_file (sg_file sg manifestPath)) (\<lambda>dat.
     seqE (write_file (sg_file sg (sig_name manifestPath)) (sg_sign sg key dat)) (\<lambda>_. ret (sig_name manifestPath))))"

subsection \<open>What Ed25519 promises\<close>

text \<open>\<open>key_pair sg pub priv\<close>: the keys have their lengths and what the private one signs, the public
  one accepts. \<open>sound_keys\<close>: a generated pair is one.\<close>

definition key_pair :: "signer \<Rightarrow> string \<Rightarrow> string \<Rightarrow> bool" where
  "key_pair sg pub priv \<longleftrightarrow> length pub = 32 \<and> length priv = 64 \<and>
     (\<forall>m. length (sg_sign sg priv m) = 64 \<and> ed25519 (sg_crypto sg) pub m (sg_sign sg priv m))"

definition sound_keys :: "signer \<Rightarrow> bool" where
  "sound_keys sg \<longleftrightarrow> (\<forall>pub priv. sg_generate sg = Inr (pub, priv) \<longrightarrow> key_pair sg pub priv)"

lemma key_pair_verifies: "key_pair sg pub priv \<Longrightarrow> Verify (sg_crypto sg) m (sg_sign sg priv m) pub"
  by (simp add: key_pair_def Verify_def)

subsection \<open>What is read back\<close>

lemma json_parse_compact_coerced: "printable j \<Longrightarrow> json_parse (json_compact j) = Inr (coerce_json j)"
  using compact.json_parse_print [of j "[]" 0] by (simp add: json_compact_def skip_ws_def)

lemma ascii_cert_names:
  "ascii ''version''" "ascii ''signing_pubkey''" "ascii ''issued_at''" "ascii ''not_after''"
  "ascii ''min_cert_version''" "ascii ''revoked''" "ascii ''updated_at''"
  by code_simp+

lemma cert_reads_back:
  assumes "int64_range v"
  shows "cert_of_json (json_compact (enc_cert (new_cert v spub validity now))) = Inr (new_cert v spub validity now)"
  using assms unfolding cert_of_json_def
  by (simp add: json_parse_compact [where r = "[]", simplified] enc_cert_def new_cert_def ascii_cert_names skip_ws_def
      dec_cert_def zero_cert_def decode_fields_def find_field_def field_def)

lemma dec_ints: "list_all int64_range vs \<Longrightarrow> dec_elems dec_int z (map JInt vs) xs = Inr vs"
  by (induction vs arbitrary: xs) simp_all

lemma revocation_reads_back:
  assumes "int64_range m" "list_all int64_range vs"
  shows "revocation_of_json (json_compact (enc_revocation \<lparr>rev_min_cert_version = m, rev_revoked = Some vs,
      rev_updated_at = format_rfc3339 now\<rparr>)) = Inr \<lparr>rev_min_cert_version = m, rev_revoked = Some vs, rev_updated_at = format_rfc3339 now\<rparr>"
proof -
  have "list_all wf_json (map JInt vs)" using assms(2) by (auto simp: list_all_iff)
  with assms show ?thesis
    unfolding revocation_of_json_def
    by (simp add: json_parse_compact [where r = "[]", simplified] enc_revocation_def ascii_cert_names skip_ws_def
        dec_revocation_def zero_revocation_def decode_fields_def find_field_def field_def dec_slice_def dec_ints)
qed

subsection \<open>Writing the outputs\<close>

text \<open>The names written lead to files of their own, each by one name only. \<open>written\<close>: what a
  successful write of such a file leaves.\<close>

definition outputs :: "signer \<Rightarrow> string list \<Rightarrow> disk \<Rightarrow> bool" where
  "outputs sg ns h \<longleftrightarrow> wf_disk h \<and> distinct (map (sg_file sg) ns) \<and> (\<forall>n \<in> set ns. private_name (sg_file sg n) h)"

definition written :: "signer \<Rightarrow> string list \<Rightarrow> path set \<Rightarrow> world \<Rightarrow> world \<Rightarrow> bool" where
  "written sg ns S w w' \<longleftrightarrow> outputs sg ns (w_disk w') \<and> same_outside S (w_disk w) (w_disk w') \<and>
     (w_faults w = [] \<longrightarrow> w_faults w' = [])"

lemma file_data_outside: "same_outside S d h \<Longrightarrow> q \<notin> S \<Longrightarrow> file_data h q = file_data d q"
  by (simp add: same_outside_def file_data_def)

lemma outputs_set_inode [simp]: "outputs sg ns (set_inode i x h) = outputs sg ns h"
  by (simp add: private_name_def outputs_def)

lemma outputs_new_inode: "outputs sg ns h \<Longrightarrow> outputs sg ns (new_inode p h)"
  using names_fresh [of h] by (auto simp: outputs_def private_name_def)

lemma outputs_only:
  "outputs sg ns h \<Longrightarrow> n \<in> set ns \<Longrightarrow> dk_names h (sg_file sg n) = Some i \<Longrightarrow> dk_names h q = Some i \<longleftrightarrow> q = sg_file sg n"
  by (auto simp: outputs_def private_name_def)

lemma written_refl [simp]: "outputs sg ns (w_disk w) \<Longrightarrow> written sg ns S w w"
  by (simp add: written_def)

lemma written_trans:
  "written sg ns S w w' \<Longrightarrow> written sg ns T w' w'' \<Longrightarrow> S \<subseteq> U \<Longrightarrow> T \<subseteq> U \<Longrightarrow> written sg ns U w w''"
  by (auto simp: written_def intro: same_outside_trans same_outside_mono)

lemma written_mono: "written sg ns S w w' \<Longrightarrow> S \<subseteq> T \<Longrightarrow> written sg ns T w w'"
  by (auto simp: written_def intro: same_outside_mono)

lemma wp_create_output:
  assumes "outputs sg ns (w_disk w)" and "n \<in> set ns"
  shows "wp (create (sg_file sg n)) (\<lambda>r w'. written sg ns {sg_file sg n} w w' \<and>
     (\<forall>i. r = Inr i \<longrightarrow> lookup (w_disk w') (sg_file sg n) = Some \<lparr>ino_data = [], ino_synced = False\<rparr> \<and>
        dk_names (w_disk w') (sg_file sg n) = Some i) \<and> (w_faults w = [] \<longrightarrow> (\<exists>i. r = Inr i))) w"
proof (cases "next_fault w")
  case None
  have wf: "wf_disk (w_disk w)" using assms by (simp add: outputs_def)
  show ?thesis
  proof (cases "dk_names (w_disk w) (sg_file sg n)")
    case (Some i)
    show ?thesis
      unfolding create_def wp_sys_call None option.case pop_fault_sel Some
      using assms(1) Some by (auto simp: written_def same_outside_def lookup_set_inode outputs_only [OF assms Some])
  qed (use None wf outputs_new_inode [OF assms(1)] in
      \<open>auto simp: wp_simps create_def written_def same_outside_def lookup_new_inode\<close>)
qed (use assms in \<open>auto simp: wp_simps create_def written_def\<close>)

lemma wp_fwrite_output:
  assumes "outputs sg ns (w_disk w)" and "n \<in> set ns" and "dk_names (w_disk w) (sg_file sg n) = Some i"
    and "lookup (w_disk w) (sg_file sg n) = Some x"
  shows "wp (fwrite i s) (\<lambda>r w'. written sg ns {sg_file sg n} w w' \<and>
     (r = Inr () \<longrightarrow> file_data (w_disk w') (sg_file sg n) = Some (ino_data x @ s)) \<and> (w_faults w = [] \<longrightarrow> r = Inr ())) w"
proof -
  have x: "x = dk_inodes (w_disk w) i" using assms(3,4) by (simp add: lookup_def)
  show ?thesis
    unfolding x using assms(1)
    by (cases "next_fault w")
    (auto simp: wp_simps fwrite_def written_def same_outside_def file_data_def lookup_set_inode outputs_only [OF assms(1-3)])
qed

lemma wp_write_output:
  assumes "outputs sg ns (w_disk w)" and "n \<in> set ns"
  shows "wp (write_file (sg_file sg n) s) (\<lambda>r w'. written sg ns {sg_file sg n} w w' \<and>
     (r = Inr () \<longrightarrow> file_data (w_disk w') (sg_file sg n) = Some s) \<and> (w_faults w = [] \<longrightarrow> r = Inr ())) w"
  unfolding write_file_def
proof (rule wp_seqEI [OF wp_create_output [OF assms]])
  fix i :: nat and w1 :: world
  assume c: "written sg ns {sg_file sg n} w w1 \<and> (\<forall>j. Inr i = Inr j \<longrightarrow>
      lookup (w_disk w1) (sg_file sg n) = Some \<lparr>ino_data = [], ino_synced = False\<rparr> \<and> dk_names (w_disk w1) (sg_file sg n) = Some j) \<and>
      (w_faults w = [] \<longrightarrow> (\<exists>j. Inr i = Inr j))"
  then have o1: "outputs sg ns (w_disk w1)" by (simp add: written_def)
  show "wp (trying (fwrite i s) (\<lambda>r1. trying (fclose i) (\<lambda>r2. case r1 of Inl e \<Rightarrow> throw e | Inr _ \<Rightarrow> lift_err r2)))
      (\<lambda>r w'. written sg ns {sg_file sg n} w w' \<and>
       (r = Inr () \<longrightarrow> file_data (w_disk w') (sg_file sg n) = Some s) \<and> (w_faults w = [] \<longrightarrow> r = Inr ())) w1"
  proof (rule wp_tryingI [OF wp_fwrite_output [OF o1 assms(2)]])
    fix r1 :: "error + unit" and w2 :: world
    assume f: "written sg ns {sg_file sg n} w1 w2 \<and>
      (r1 = Inr () \<longrightarrow> file_data (w_disk w2) (sg_file sg n) = Some (ino_data \<lparr>ino_data = [], ino_synced = False\<rparr> @ s)) \<and>
      (w_faults w1 = [] \<longrightarrow> r1 = Inr ())"
    then have "written sg ns {sg_file sg n} w w2" using c by (blast intro: written_trans)
    then show "wp (trying (fclose i) (\<lambda>r2. case r1 of Inl e \<Rightarrow> throw e | Inr _ \<Rightarrow> lift_err r2))
      (\<lambda>r w'. written sg ns {sg_file sg n} w w' \<and>
       (r = Inr () \<longrightarrow> file_data (w_disk w') (sg_file sg n) = Some s) \<and> (w_faults w = [] \<longrightarrow> r = Inr ())) w2"
      using c f by (auto simp: wp_simps sys_defs written_def split: option.splits sum.splits)
  qed (use c in auto)
qed auto

lemma written_same: "written sg ns S w w' \<Longrightarrow> q \<notin> S \<Longrightarrow> file_data (w_disk w') q = file_data (w_disk w) q"
  by (auto simp: written_def intro: file_data_outside)

lemma written_outputs: "written sg ns S w w' \<Longrightarrow> outputs sg ns (w_disk w')"
  by (simp add: written_def)

lemma outputs_neq: "outputs sg ns h \<Longrightarrow> m \<in> set ns \<Longrightarrow> n \<in> set ns \<Longrightarrow> m \<noteq> n \<Longrightarrow> sg_file sg m \<noteq> sg_file sg n"
  by (auto simp: outputs_def distinct_map inj_on_def)

lemma sig_name_neq [simp]: "sig_name p \<noteq> p" "p \<noteq> sig_name p"
  by (simp_all add: sig_name_def)

lemma wp_read_private:
  "wp (read_private sg what p) (\<lambda>r w'. w_disk w' = w_disk w \<and> (w_faults w = [] \<longrightarrow> w_faults w' = []) \<and>
     (\<forall>k. r = Inr k \<longrightarrow> file_data (w_disk w) (sg_file sg p) = Some k \<and> length k = 64) \<and>
     (\<forall>k. w_faults w = [] \<longrightarrow> file_data (w_disk w) (sg_file sg p) = Some k \<longrightarrow> length k = 64 \<longrightarrow> r = Inr k)) w"
  by (auto simp: read_private_def wp_simps sys_defs file_data_def split: option.splits)

lemma wp_write_signed:
  assumes "outputs sg ns (w_disk w)" and "p \<in> set ns" and "sig_name p \<in> set ns"
  shows "wp (write_signed sg key p b) (\<lambda>r w'. written sg ns {sg_file sg p, sg_file sg (sig_name p)} w w' \<and>
     (r = Inr () \<longrightarrow> file_data (w_disk w') (sg_file sg p) = Some b \<and>
        file_data (w_disk w') (sg_file sg (sig_name p)) = Some (sg_sign sg key b)) \<and> (w_faults w = [] \<longrightarrow> r = Inr ())) w"
  unfolding write_signed_def
proof (rule wp_seqEI [OF wp_write_output [OF assms(1,2)]])
  fix x :: unit and w1 :: world
  assume w1: "written sg ns {sg_file sg p} w w1 \<and> (Inr x = Inr () \<longrightarrow> file_data (w_disk w1) (sg_file sg p) = Some b) \<and>
    (w_faults w = [] \<longrightarrow> Inr x = Inr ())"
  then have o1: "outputs sg ns (w_disk w1)" by (simp add: written_def)
  show "wp (write_file (sg_file sg (sig_name p)) (sg_sign sg key b)) (\<lambda>r w'.
     written sg ns {sg_file sg p, sg_file sg (sig_name p)} w w' \<and>
     (r = Inr () \<longrightarrow> file_data (w_disk w') (sg_file sg p) = Some b \<and>
        file_data (w_disk w') (sg_file sg (sig_name p)) = Some (sg_sign sg key b)) \<and> (w_faults w = [] \<longrightarrow> r = Inr ())) w1"
  proof (rule wp_mono [OF wp_write_output [OF o1 assms(3)]], elim conjE, intro conjI impI)
    fix r :: "error + unit" and w2 :: world
    assume w2: "written sg ns {sg_file sg (sig_name p)} w1 w2"
    show "written sg ns {sg_file sg p, sg_file sg (sig_name p)} w w2"
      by (rule written_trans [OF _ w2]) (use w1 in auto)
    have "sg_file sg p \<notin> {sg_file sg (sig_name p)}" using outputs_neq [OF assms] by simp
    then show "file_data (w_disk w2) (sg_file sg p) = Some b" using written_same [OF w2] w1 by simp
  qed (use w1 in \<open>auto simp: written_def\<close>)
qed (auto elim: written_mono)

subsection \<open>Certificates and revocation lists a device accepts\<close>

text \<open>\<open>issued\<close>: the files are a certificate, its signature and the key it vouches for; \<open>revoked_by\<close>: the
  files are a revocation list, which turns down exactly these versions.\<close>

definition whole_second :: "int \<Rightarrow> int" where
  "whole_second t = t div 1000000000 * 1000000000"

definition issued :: "signer \<Rightarrow> string \<Rightarrow> int \<Rightarrow> int \<Rightarrow> string \<Rightarrow> string \<Rightarrow> disk \<Rightarrow> bool" where
  "issued sg rootPub v expires certPath signingKey h \<longleftrightarrow>
     (\<exists>c s key pub. file_data h (sg_file sg certPath) = Some c \<and> file_data h (sg_file sg (sig_name certPath)) = Some s \<and>
        file_data h (sg_file sg signingKey) = Some key \<and> key_pair sg pub key \<and>
        (\<forall>t. VerifyCert (sg_crypto sg) c s rootPub t =
           (if t \<le> expires then Inr (pub, v) else Inl (Errorf ''trust: signing cert expired''))))"

definition revoked_by :: "signer \<Rightarrow> string \<Rightarrow> (int \<Rightarrow> bool) \<Rightarrow> string \<Rightarrow> disk \<Rightarrow> bool" where
  "revoked_by sg rootPub P outPath h \<longleftrightarrow>
     (\<exists>b s. file_data h (sg_file sg outPath) = Some b \<and> file_data h (sg_file sg (sig_name outPath)) = Some s \<and>
        (\<forall>v. CheckRevocation (sg_crypto sg) b s rootPub v = Inr () \<longleftrightarrow> \<not> P v))"

lemma VerifyCert_new:
  assumes "key_pair sg rootPub root" "length spub = 32" "int64_range v" "civil_range (now + validity)"
  shows "VerifyCert (sg_crypto sg) (json_compact (enc_cert (new_cert v spub validity now)))
      (sg_sign sg root (json_compact (enc_cert (new_cert v spub validity now)))) rootPub t =
    (if t \<le> whole_second (now + validity) then Inr (spub, v) else Inl (Errorf ''trust: signing cert expired''))"
  unfolding VerifyCert_def
  by (simp add: key_pair_verifies [OF assms(1)] cert_reads_back [OF assms(3)])
    (simp add: new_cert_def base64_round_trip assms(2) rfc3339_round_trip [OF assms(4)] whole_second_def)

lemma wp_write_with_key:
  assumes outs: "outputs sg ns (w_disk w)" "{p, sig_name p, n} \<subseteq> set ns" and apart: "n \<noteq> p" "n \<noteq> sig_name p"
  shows "wp (seqE (write_signed sg key p b) (\<lambda>_. write_file (sg_file sg n) s)) (\<lambda>r w'.
     written sg ns (sg_file sg ` {p, sig_name p, n}) w w' \<and> (w_faults w = [] \<longrightarrow> r = Inr ()) \<and>
     (r = Inr () \<longrightarrow> file_data (w_disk w') (sg_file sg p) = Some b \<and> file_data (w_disk w') (sg_file sg n) = Some s \<and>
        file_data (w_disk w') (sg_file sg (sig_name p)) = Some (sg_sign sg key b))) w"
    (is "wp _ ?Q w")
proof (rule wp_seqEI [OF wp_write_signed [OF outs(1)]])
  show "p \<in> set ns" "sig_name p \<in> set ns" using outs(2) by auto
  fix x :: unit and w1 :: world
  assume w1: "written sg ns {sg_file sg p, sg_file sg (sig_name p)} w w1 \<and>
     (Inr x = Inr () \<longrightarrow> file_data (w_disk w1) (sg_file sg p) = Some b \<and>
       file_data (w_disk w1) (sg_file sg (sig_name p)) = Some (sg_sign sg key b)) \<and> (w_faults w = [] \<longrightarrow> Inr x = Inr ())"
  have o1: "outputs sg ns (w_disk w1)" and n: "n \<in> set ns" using w1 outs(2) by (auto simp: written_def)
  show "wp (write_file (sg_file sg n) s) ?Q w1"
  proof (rule wp_mono [OF wp_write_output [OF o1 n]], elim conjE, intro conjI impI)
    fix r :: "error + unit" and w2 :: world
    assume w2: "written sg ns {sg_file sg n} w1 w2"
    show "written sg ns (sg_file sg ` {p, sig_name p, n}) w w2" by (rule written_trans [OF _ w2]) (use w1 in auto)
    have "sg_file sg p \<noteq> sg_file sg n" "sg_file sg (sig_name p) \<noteq> sg_file sg n"
      using outputs_neq [OF o1] outs(2) apart by auto
    then show "file_data (w_disk w2) (sg_file sg p) = Some b"
      "file_data (w_disk w2) (sg_file sg (sig_name p)) = Some (sg_sign sg key b)"
      using written_same [OF w2] w1 by simp_all
  qed (use w1 in \<open>auto simp: written_def\<close>)
qed (auto elim: written_mono)

lemma wp_IssueCert:
  assumes keys: "sound_keys sg" "key_pair sg rootPub root" and ranges: "int64_range v" "civil_range (now + validity)"
    and outs: "outputs sg ns (w_disk w)" "{certPath, sig_name certPath, signingKey} \<subseteq> set ns"
    and apart: "signingKey \<noteq> certPath" "signingKey \<noteq> sig_name certPath"
    and root: "file_data (w_disk w) (sg_file sg rootPriv) = Some root"
  shows "wp (IssueCert sg rootPriv certPath signingKey v validity now) (\<lambda>r w'.
     written sg ns (sg_file sg ` {certPath, sig_name certPath, signingKey}) w w' \<and>
     (w_faults w = [] \<and> \<not> isl (sg_generate sg) \<longrightarrow> r = Inr ()) \<and>
     (r = Inr () \<longrightarrow> issued sg rootPub v (whole_second (now + validity)) certPath signingKey (w_disk w'))) w"
    (is "wp _ ?Q w")
  unfolding IssueCert_def
proof (rule wp_seqEI [OF wp_read_private])
  fix k :: string and w1 :: world
  assume "w_disk w1 = w_disk w \<and> (w_faults w = [] \<longrightarrow> w_faults w1 = []) \<and>
     (\<forall>k'. Inr k = Inr k' \<longrightarrow> file_data (w_disk w) (sg_file sg rootPriv) = Some k' \<and> length k' = 64) \<and>
     (\<forall>k'. w_faults w = [] \<longrightarrow> file_data (w_disk w) (sg_file sg rootPriv) = Some k' \<longrightarrow> length k' = 64 \<longrightarrow> Inr k = Inr k')"
  then have k: "k = root" and w1: "written sg ns {} w w1" and o1: "outputs sg ns (w_disk w1)"
    using root outs by (auto simp: written_def)
  show "wp (seqE (lift_err (sg_generate sg)) (\<lambda>(spub, spriv).
     seqE (write_signed sg k certPath (json_compact (enc_cert (new_cert v spub validity now)))) (\<lambda>_.
     write_file (sg_file sg signingKey) spriv))) ?Q w1"
  proof (cases "sg_generate sg")
    case (Inr pair)
    obtain spub spriv where pair: "pair = (spub, spriv)" by (cases pair)
    have kp: "key_pair sg spub spriv" "length spub = 32"
      using keys(1) Inr pair by (auto simp: sound_keys_def key_pair_def)
    have "wp (seqE (write_signed sg root certPath (json_compact (enc_cert (new_cert v spub validity now))))
       (\<lambda>_. write_file (sg_file sg signingKey) spriv)) ?Q w1"
    proof (rule wp_mono [OF wp_write_with_key [OF o1 outs(2) apart]], elim conjE, intro conjI impI)
      fix r :: "error + unit" and w2 :: world
      assume w2: "written sg ns (sg_file sg ` {certPath, sig_name certPath, signingKey}) w1 w2"
      show "written sg ns (sg_file sg ` {certPath, sig_name certPath, signingKey}) w w2"
        by (rule written_trans [OF w1 w2]) auto
    qed (use w1 kp VerifyCert_new [OF keys(2) kp(2) ranges] in \<open>auto simp: written_def issued_def\<close>)
    then show ?thesis by (simp add: Inr pair k wp_simps)
  qed (use w1 in \<open>auto simp: wp_simps elim: written_mono\<close>)
qed (use outs root keys(2) in \<open>auto simp: written_def key_pair_def\<close>)

lemma CheckRevocation_new:
  assumes "key_pair sg rootPub root" "int64_range m" "list_all int64_range vs"
  shows "CheckRevocation (sg_crypto sg) (json_compact (enc_revocation \<lparr>rev_min_cert_version = m, rev_revoked = Some vs,
      rev_updated_at = format_rfc3339 now\<rparr>)) (sg_sign sg root (json_compact (enc_revocation \<lparr>rev_min_cert_version = m,
      rev_revoked = Some vs, rev_updated_at = format_rfc3339 now\<rparr>))) rootPub v = Inr () \<longleftrightarrow> \<not> (v < m \<or> v \<in> set vs)"
  unfolding CheckRevocation_def
  by (auto simp: key_pair_verifies [OF assms(1)] revocation_reads_back [OF assms(2,3)] list_ex_iff)

lemma wp_Revoke:
  assumes keys: "key_pair sg rootPub root" and ranges: "int64_range m" "list_all int64_range (case_option [] id revoked)"
    and outs: "outputs sg ns (w_disk w)" "{outPath, sig_name outPath} \<subseteq> set ns"
    and root: "file_data (w_disk w) (sg_file sg rootPriv) = Some root"
  shows "wp (Revoke sg rootPriv outPath m revoked now) (\<lambda>r w'.
     written sg ns (sg_file sg ` {outPath, sig_name outPath}) w w' \<and> (w_faults w = [] \<longrightarrow> r = Inr ()) \<and>
     (r = Inr () \<longrightarrow> revoked_by sg rootPub (\<lambda>v. v < m \<or> v \<in> set (case_option [] id revoked)) outPath (w_disk w'))) w"
    (is "wp _ ?Q w")
  unfolding Revoke_def
proof (rule wp_seqEI [OF wp_read_private])
  fix k :: string and w1 :: world
  let ?b = "json_compact (enc_revocation \<lparr>rev_min_cert_version = m,
    rev_revoked = Some (case revoked of None \<Rightarrow> [] | Some vs \<Rightarrow> vs), rev_updated_at = format_rfc3339 now\<rparr>)"
  assume "w_disk w1 = w_disk w \<and> (w_faults w = [] \<longrightarrow> w_faults w1 = []) \<and>
     (\<forall>k'. Inr k = Inr k' \<longrightarrow> file_data (w_disk w) (sg_file sg rootPriv) = Some k' \<and> length k' = 64) \<and>
     (\<forall>k'. w_faults w = [] \<longrightarrow> file_data (w_disk w) (sg_file sg rootPriv) = Some k' \<longrightarrow> length k' = 64 \<longrightarrow> Inr k = Inr k')"
  then have k: "k = root" and w1: "written sg ns {} w w1" and o1: "outputs sg ns (w_disk w1)"
    using root outs by (auto simp: written_def)
  have mem: "outPath \<in> set ns" "sig_name outPath \<in> set ns" using outs(2) by auto
  have vs: "(case revoked of None \<Rightarrow> [] | Some vs \<Rightarrow> vs) = case_option [] id revoked" by (cases revoked) simp_all
  show "wp (write_signed sg k outPath ?b) ?Q w1"
  proof (rule wp_mono [OF wp_write_signed [OF o1 mem]], elim conjE, intro conjI impI)
    fix r :: "error + unit" and w2 :: world
    assume w2: "written sg ns {sg_file sg outPath, sg_file sg (sig_name outPath)} w1 w2"
    show "written sg ns (sg_file sg ` {outPath, sig_name outPath}) w w2" by (rule written_trans [OF w1 w2]) auto
  qed (use w1 k CheckRevocation_new [OF keys ranges] in \<open>auto simp: written_def revoked_by_def vs\<close>)
qed (use outs root keys(1) in \<open>auto simp: written_def key_pair_def\<close>)

text \<open>What the device checks of a manifest: its signature under the key of the certificate.\<close>

definition signed_under :: "signer \<Rightarrow> string \<Rightarrow> string \<Rightarrow> string \<Rightarrow> disk \<Rightarrow> bool" where
  "signed_under sg pub dat p h \<longleftrightarrow> file_data h (sg_file sg p) = Some dat \<and>
     (\<exists>s. file_data h (sg_file sg (sig_name p)) = Some s \<and> Verify (sg_crypto sg) dat s pub)"

lemma wp_SignManifest:
  assumes keys: "key_pair sg pub key" and outs: "outputs sg ns (w_disk w)" "sig_name p \<in> set ns"
    and apart: "sg_file sg p \<noteq> sg_file sg (sig_name p)"
    and files: "file_data (w_disk w) (sg_file sg priv) = Some key" "file_data (w_disk w) (sg_file sg p) = Some dat"
  shows "wp (SignManifest sg priv p) (\<lambda>r w'. written sg ns {sg_file sg (sig_name p)} w w' \<and>
     (w_faults w = [] \<longrightarrow> r = Inr (sig_name p)) \<and> (\<forall>q. r = Inr q \<longrightarrow> q = sig_name p \<and> signed_under sg pub dat p (w_disk w'))) w"
    (is "wp _ ?Q w")
  unfolding SignManifest_def
proof (rule wp_seqEI [OF wp_read_private])
  fix k :: string and w1 :: world
  assume "w_disk w1 = w_disk w \<and> (w_faults w = [] \<longrightarrow> w_faults w1 = []) \<and>
     (\<forall>k'. Inr k = Inr k' \<longrightarrow> file_data (w_disk w) (sg_file sg priv) = Some k' \<and> length k' = 64) \<and>
     (\<forall>k'. w_faults w = [] \<longrightarrow> file_data (w_disk w) (sg_file sg priv) = Some k' \<longrightarrow> length k' = 64 \<longrightarrow> Inr k = Inr k')"
  then have k: "k = key" and w1: "written sg ns {} w w1" "w_disk w1 = w_disk w" using files outs by (auto simp: written_def)
  have rd: "wp (read_file (sg_file sg p)) (\<lambda>r w2. w_disk w2 = w_disk w \<and> (w_faults w = [] \<longrightarrow> w_faults w2 = [] \<and> r = Inr dat) \<and>
     (\<forall>x. r = Inr x \<longrightarrow> x = dat)) w1"
    using files(2) w1 by (auto simp: wp_simps sys_defs file_data_def written_def split: option.splits)
  show "wp (seqE (read_file (sg_file sg p)) (\<lambda>dat. seqE (write_file (sg_file sg (sig_name p)) (sg_sign sg k dat))
     (\<lambda>_. ret (sig_name p)))) ?Q w1"
  proof (rule wp_seqEI [OF rd])
    fix x :: string and w2 :: world
    assume r2: "w_disk w2 = w_disk w \<and> (w_faults w = [] \<longrightarrow> w_faults w2 = [] \<and> Inr x = Inr dat) \<and>
      (\<forall>y. Inr x = Inr y \<longrightarrow> y = dat)"
    then have x: "x = dat" and w2: "written sg ns {} w w2" and o2: "outputs sg ns (w_disk w2)" using outs by (auto simp: written_def)
    have "wp (write_file (sg_file sg (sig_name p)) (sg_sign sg key dat))
        (\<lambda>r w'. ?Q (case r of Inl e \<Rightarrow> Inl e | Inr _ \<Rightarrow> Inr (sig_name p)) w') w2"
    proof (rule wp_mono [OF wp_write_output [OF o2 outs(2)]], elim conjE)
      fix r :: "error + unit" and w3 :: world
      assume w3: "written sg ns {sg_file sg (sig_name p)} w2 w3" "w_faults w2 = [] \<longrightarrow> r = Inr ()"
        and d: "r = Inr () \<longrightarrow> file_data (w_disk w3) (sg_file sg (sig_name p)) = Some (sg_sign sg key dat)"
      have "file_data (w_disk w3) (sg_file sg p) = Some dat" using written_same [OF w3(1)] apart files(2) r2 by simp
      then show "?Q (case r of Inl e \<Rightarrow> Inl e | Inr _ \<Rightarrow> Inr (sig_name p)) w3"
        using written_trans [OF w2 w3(1)] w3(2) r2 d key_pair_verifies [OF keys]
        by (auto simp: signed_under_def split: sum.splits)
    qed
    then show "wp (seqE (write_file (sg_file sg (sig_name p)) (sg_sign sg k x)) (\<lambda>_. ret (sig_name p))) ?Q w2"
      unfolding wp_seqE wp_ret x k by (rule wp_mono) (auto split: sum.splits)
  qed (use w1 outs in \<open>auto simp: written_def\<close>)
qed (use outs files keys(1) in \<open>auto simp: written_def key_pair_def\<close>)

end
