(* ===== verification/Release.thy ===== *)
theory Release
  imports Signing Loader Confine
begin

section \<open>The release side: manifests\<close>

text \<open>
  internal/signing/signing.go, \<open>BuildManifest\<close>: the manifest of a release is put together from the
  files it publishes, checked with the device's own parser and written. File names and addresses
  come from the command line as texts. A file is read in one call where the code streams it
  through the hash.
\<close>

subsection \<open>Writing a manifest\<close>

definition omit_list :: "string \<Rightarrow> string list option \<Rightarrow> (string \<times> json) list" where
  "omit_list k xs = (case xs of Some (y # ys) \<Rightarrow> [(k, JArr (map JStr (y # ys)))] | _ \<Rightarrow> [])"

definition spec_members :: "bundle_spec \<Rightarrow> (string \<times> json) list" where
  "spec_members b =
     [(''name'', JStr (bd_name b))] @ [(''url'', JStr (bd_url b))] @ [(''hash'', JStr (bd_hash b))]
     @ omitempty ''verity_hash'' (bd_verity_hash b) @ omitempty ''hashtree_url'' (bd_hashtree_url b)
     @ omitempty ''hashtree_hash'' (bd_hashtree_hash b) @ [(''version'', JInt (bd_version b))]
     @ omit_zero ''min_version'' (bd_min_version b) @ omit_list ''chips'' (bd_chips b)
     @ omitempty ''kernel_min'' (bd_kernel_min b) @ omitempty ''kernel_max'' (bd_kernel_max b)
     @ omit_list ''critical_devices'' (bd_critical_devices b)"

definition enc_spec :: "bundle_spec \<Rightarrow> json" where
  "enc_spec b = JObj (spec_members b)"

definition omit_specs :: "string \<Rightarrow> bundle_spec list option \<Rightarrow> (string \<times> json) list" where
  "omit_specs k bs = (case bs of Some (y # ys) \<Rightarrow> [(k, JArr (map enc_spec (y # ys)))] | _ \<Rightarrow> [])"

definition manifest_members :: "manifest \<Rightarrow> (string \<times> json) list" where
  "manifest_members m =
     [(''version'', JStr (m_version m))] @ [(''min_version'', JStr (m_min_version m))]
     @ omitempty ''product_name'' (m_product_name m) @ omitempty ''product_version'' (m_product_version m)
     @ omitempty ''product_build'' (m_product_build m)
     @ [(''rootfs_url'', JStr (m_rootfs_url m))] @ [(''rootfs_hash'', JStr (m_rootfs_hash m))]
     @ omitempty ''rootfs_verity_hash'' (m_rootfs_verity_hash m)
     @ omitempty ''rootfs_hashtree_url'' (m_rootfs_hashtree_url m) @ omitempty ''rootfs_hashtree_hash'' (m_rootfs_hashtree_hash m)
     @ [(''kernelcache_url'', JStr (m_kernelcache_url m))] @ [(''kernelcache_hash'', JStr (m_kernelcache_hash m))]
     @ omitempty ''kernelcache_sig_url'' (m_kernelcache_sig_url m) @ omitempty ''kernelcache_sig_hash'' (m_kernelcache_sig_hash m)
     @ omitempty ''kernel_release'' (m_kernel_release m)
     @ omit_zero ''loader_version'' (m_loader_version m) @ omitempty ''loader_url'' (m_loader_url m)
     @ omitempty ''loader_hash'' (m_loader_hash m) @ omitempty ''loader_sig_url'' (m_loader_sig_url m)
     @ omitempty ''loader_sig_hash'' (m_loader_sig_hash m)
     @ omit_zero ''recovery_version'' (m_recovery_version m) @ omitempty ''recovery_url'' (m_recovery_url m)
     @ omitempty ''recovery_hash'' (m_recovery_hash m) @ omitempty ''recovery_sig_url'' (m_recovery_sig_url m)
     @ omitempty ''recovery_sig_hash'' (m_recovery_sig_hash m)
     @ omitempty ''firmware_url'' (m_firmware_url m) @ omitempty ''firmware_hash'' (m_firmware_hash m)
     @ omitempty ''firmware_verity_hash'' (m_firmware_verity_hash m)
     @ omit_zero ''firmware_version'' (m_firmware_version m) @ omit_zero ''firmware_min_version'' (m_firmware_min_version m)
     @ omitempty ''firmware_hashtree_url'' (m_firmware_hashtree_url m)
     @ omitempty ''firmware_hashtree_hash'' (m_firmware_hashtree_hash m)
     @ omit_specs ''firmware_bundles'' (m_firmware_bundles m)"

definition manifest_text :: "manifest \<Rightarrow> string" where
  "manifest_text m = json_indent 0 (JObj (manifest_members m))"

subsection \<open>Building it\<close>

record firmware_spec =
  fs_name :: string
  fs_version :: int
  fs_min_version :: int
  fs_image_file :: string
  fs_image_url :: string
  fs_verity_hash :: string
  fs_hashtree_file :: string
  fs_hashtree_url :: string
  fs_chips :: "string list option"
  fs_kernel_min :: string
  fs_kernel_max :: string
  fs_critical_devices :: "string list option"

record release_spec =
  rs_version :: string
  rs_min_version :: string
  rs_product_name :: string
  rs_product_version :: string
  rs_product_build :: string
  rs_rootfs_file :: string
  rs_rootfs_url :: string
  rs_rootfs_verity_hash :: string
  rs_hashtree_file :: string
  rs_hashtree_url :: string
  rs_kc_file :: string
  rs_kc_url :: string
  rs_kc_sig_file :: string
  rs_kc_sig_url :: string
  rs_loader_file :: string
  rs_loader_url :: string
  rs_loader_sig_file :: string
  rs_loader_sig_url :: string
  rs_recovery_version :: int
  rs_recovery_file :: string
  rs_recovery_url :: string
  rs_recovery_sig_file :: string
  rs_recovery_sig_url :: string

definition hashFile :: "signer \<Rightarrow> string \<Rightarrow> string io" where
  "hashFile sg p = seqE (read_file (sg_file sg p)) (\<lambda>s. ret (hex_encode (sha256 (sg_crypto sg) s)))"

definition hash_as :: "signer \<Rightarrow> string \<Rightarrow> string \<Rightarrow> string io" where
  "hash_as sg what p = wrapE (''hash '' @ what) (hashFile sg p)"

definition system_manifest :: "signer \<Rightarrow> release_spec \<Rightarrow> manifest io" where
  "system_manifest sg r =
     seqE (hash_as sg ''rootfs'' (rs_rootfs_file r)) (\<lambda>rh.
     seqE (hash_as sg ''rootfs hash tree'' (rs_hashtree_file r)) (\<lambda>rth.
     seqE (hash_as sg ''kernelcache'' (rs_kc_file r)) (\<lambda>kh.
     seqE (hash_as sg ''kernelcache signature'' (rs_kc_sig_file r)) (\<lambda>ksh.
     ret (zero_manifest\<lparr>m_version := rs_version r, m_min_version := rs_min_version r,
       m_product_name := rs_product_name r, m_product_version := rs_product_version r, m_product_build := rs_product_build r,
       m_rootfs_url := rs_rootfs_url r, m_rootfs_hash := rh, m_rootfs_verity_hash := rs_rootfs_verity_hash r,
       m_rootfs_hashtree_url := rs_hashtree_url r, m_rootfs_hashtree_hash := rth,
       m_kernelcache_url := rs_kc_url r, m_kernelcache_hash := kh,
       m_kernelcache_sig_url := rs_kc_sig_url r, m_kernelcache_sig_hash := ksh\<rparr>)))))"

definition with_loader :: "signer \<Rightarrow> release_spec \<Rightarrow> manifest \<Rightarrow> manifest io" where
  "with_loader sg r m =
     (if rs_loader_file r = [] then ret m
      else if rs_loader_url r = [] \<or> rs_loader_sig_file r = [] \<or> rs_loader_sig_url r = []
      then throw (Errorf ''manifest: boot loader needs its URL, signature and signature URL'')
      else seqE (wrapE ''read boot loader'' (read_file (sg_file sg (rs_loader_file r)))) (\<lambda>img.
        if LoaderVersionOf img < 2 then throw (Errorf ''manifest: boot loader carries no version marker'')
        else seqE (hash_as sg ''boot loader'' (rs_loader_file r)) (\<lambda>lh.
        seqE (hash_as sg ''boot loader signature'' (rs_loader_sig_file r)) (\<lambda>lsh.
        ret (m\<lparr>m_loader_version := LoaderVersionOf img, m_loader_url := rs_loader_url r, m_loader_hash := lh,
               m_loader_sig_url := rs_loader_sig_url r, m_loader_sig_hash := lsh\<rparr>)))))"

definition with_recovery :: "signer \<Rightarrow> release_spec \<Rightarrow> manifest \<Rightarrow> manifest io" where
  "with_recovery sg r m =
     (if rs_recovery_file r = [] then ret m
      else if rs_recovery_url r = [] \<or> rs_recovery_sig_file r = [] \<or> rs_recovery_sig_url r = [] \<or> rs_recovery_version r < 1
      then throw (Errorf ''manifest: recovery image needs its version, URL, signature and signature URL'')
      else seqE (hash_as sg ''recovery image'' (rs_recovery_file r)) (\<lambda>rch.
        seqE (hash_as sg ''recovery signature'' (rs_recovery_sig_file r)) (\<lambda>rcsh.
        ret (m\<lparr>m_recovery_version := rs_recovery_version r, m_recovery_url := rs_recovery_url r, m_recovery_hash := rch,
               m_recovery_sig_url := rs_recovery_sig_url r, m_recovery_sig_hash := rcsh\<rparr>))))"

text \<open>One unnamed bundle goes into the fields of older manifests, others into the list.\<close>

definition with_single_firmware :: "signer \<Rightarrow> firmware_spec \<Rightarrow> manifest \<Rightarrow> manifest io" where
  "with_single_firmware sg f m =
     seqE (hash_as sg ''firmware image'' (fs_image_file f)) (\<lambda>fih.
     seqE (hash_as sg ''firmware hash tree'' (fs_hashtree_file f)) (\<lambda>fhh.
     ret (m\<lparr>m_firmware_url := fs_image_url f, m_firmware_hash := fih, m_firmware_verity_hash := fs_verity_hash f,
            m_firmware_hashtree_url := fs_hashtree_url f, m_firmware_hashtree_hash := fhh,
            m_firmware_version := fs_version f, m_firmware_min_version := fs_min_version f\<rparr>)))"

fun hash_bundles :: "signer \<Rightarrow> firmware_spec list \<Rightarrow> bundle_spec list io" where
  "hash_bundles sg [] = ret []"
| "hash_bundles sg (f # fs) =
     seqE (hash_as sg (''firmware bundle '' @ fs_name f @ '' image'') (fs_image_file f)) (\<lambda>fih.
     seqE (hash_as sg (''firmware bundle '' @ fs_name f @ '' hash tree'') (fs_hashtree_file f)) (\<lambda>fhh.
     seqE (hash_bundles sg fs) (\<lambda>bs.
     ret (\<lparr>bd_name = fs_name f, bd_url = fs_image_url f, bd_hash = fih, bd_verity_hash = fs_verity_hash f,
           bd_hashtree_url = fs_hashtree_url f, bd_hashtree_hash = fhh, bd_version = fs_version f,
           bd_min_version = fs_min_version f, bd_chips = fs_chips f, bd_kernel_min = fs_kernel_min f,
           bd_kernel_max = fs_kernel_max f, bd_critical_devices = fs_critical_devices f\<rparr> # bs))))"

definition with_firmware :: "signer \<Rightarrow> firmware_spec list \<Rightarrow> manifest \<Rightarrow> manifest io" where
  "with_firmware sg fw m =
     (if length fw = 1 \<and> fs_name (fw ! 0) = [] then with_single_firmware sg (fw ! 0) m
      else seqE (hash_bundles sg fw) (\<lambda>bs. ret (m\<lparr>m_firmware_bundles := (if bs = [] then None else Some bs)\<rparr>)))"

definition BuildManifest :: "signer \<Rightarrow> string \<Rightarrow> release_spec \<Rightarrow> firmware_spec list \<Rightarrow> string io" where
  "BuildManifest sg outPath r fw =
     (if rs_hashtree_file r = [] \<or> rs_hashtree_url r = []
      then throw (Errorf ''manifest: rootfs hash tree missing -- the update could not be verity-mounted after promotion'')
      else if rs_kc_sig_file r = [] \<or> rs_kc_sig_url r = []
      then throw (Errorf ''manifest: kernelcache signature missing -- the loader could not chain the update'')
      else if rs_rootfs_verity_hash r = []
      then throw (Errorf ''manifest: rootfs verity root hash missing -- the update would never be confirmed and never promote'')
      else seqE (system_manifest sg r) (\<lambda>m0.
        seqE (with_loader sg r m0) (\<lambda>m1.
        seqE (with_recovery sg r m1) (\<lambda>m2.
        seqE (with_firmware sg fw m2) (\<lambda>m.
        seqE (lift_err (ParseManifest (manifest_text m))) (\<lambda>_.
        seqE (write_file (sg_file sg outPath) (manifest_text m)) (\<lambda>_. ret outPath)))))))"

subsection \<open>What the device reads of it\<close>

definition seen_list :: "string list option \<Rightarrow> string list option" where
  "seen_list xs = (case xs of Some (y # ys) \<Rightarrow> Some (map coerced (y # ys)) | _ \<Rightarrow> None)"

definition seen_spec :: "bundle_spec \<Rightarrow> bundle_spec" where
  "seen_spec b = \<lparr>bd_name = coerced (bd_name b), bd_url = coerced (bd_url b), bd_hash = coerced (bd_hash b),
     bd_verity_hash = coerced (bd_verity_hash b), bd_hashtree_url = coerced (bd_hashtree_url b),
     bd_hashtree_hash = coerced (bd_hashtree_hash b), bd_version = bd_version b, bd_min_version = bd_min_version b,
     bd_chips = seen_list (bd_chips b), bd_kernel_min = coerced (bd_kernel_min b), bd_kernel_max = coerced (bd_kernel_max b),
     bd_critical_devices = seen_list (bd_critical_devices b)\<rparr>"

definition ok_spec :: "bundle_spec \<Rightarrow> bool" where
  "ok_spec b \<longleftrightarrow> int64_range (bd_version b) \<and> int64_range (bd_min_version b)"

definition spec_fields :: "(string \<times> bundle_spec decoder) list" where
  "spec_fields =
     [(''name'', field bd_name bd_name_update dec_str),
      (''url'', field bd_url bd_url_update dec_str),
      (''hash'', field bd_hash bd_hash_update dec_str),
      (''verity_hash'', field bd_verity_hash bd_verity_hash_update dec_str),
      (''hashtree_url'', field bd_hashtree_url bd_hashtree_url_update dec_str),
      (''hashtree_hash'', field bd_hashtree_hash bd_hashtree_hash_update dec_str),
      (''version'', field bd_version bd_version_update dec_int),
      (''min_version'', field bd_min_version bd_min_version_update dec_int),
      (''chips'', field bd_chips bd_chips_update (dec_slice dec_str [])),
      (''kernel_min'', field bd_kernel_min bd_kernel_min_update dec_str),
      (''kernel_max'', field bd_kernel_max bd_kernel_max_update dec_str),
      (''critical_devices'', field bd_critical_devices bd_critical_devices_update (dec_slice dec_str []))]"

lemma dec_spec_fields: "dec_spec = decode_fields spec_fields"
  by (simp add: dec_spec_def spec_fields_def)

lemma spec_field [simp]:
  "find_field spec_fields ''name'' = Some (field bd_name bd_name_update dec_str)"
  "find_field spec_fields ''url'' = Some (field bd_url bd_url_update dec_str)"
  "find_field spec_fields ''hash'' = Some (field bd_hash bd_hash_update dec_str)"
  "find_field spec_fields ''verity_hash'' = Some (field bd_verity_hash bd_verity_hash_update dec_str)"
  "find_field spec_fields ''hashtree_url'' = Some (field bd_hashtree_url bd_hashtree_url_update dec_str)"
  "find_field spec_fields ''hashtree_hash'' = Some (field bd_hashtree_hash bd_hashtree_hash_update dec_str)"
  "find_field spec_fields ''version'' = Some (field bd_version bd_version_update dec_int)"
  "find_field spec_fields ''min_version'' = Some (field bd_min_version bd_min_version_update dec_int)"
  "find_field spec_fields ''chips'' = Some (field bd_chips bd_chips_update (dec_slice dec_str []))"
  "find_field spec_fields ''kernel_min'' = Some (field bd_kernel_min bd_kernel_min_update dec_str)"
  "find_field spec_fields ''kernel_max'' = Some (field bd_kernel_max bd_kernel_max_update dec_str)"
  "find_field spec_fields ''critical_devices'' = Some (field bd_critical_devices bd_critical_devices_update (dec_slice dec_str []))"
  by (simp_all add: find_field_def spec_fields_def)

lemma dec_coerced_strs: "dec_elems dec_str z (map (coerce_json \<circ> JStr) ys) xs = Inr (map coerced ys)"
  by (induction ys arbitrary: xs) (simp_all add: dec_str_def)

lemma decode_omit_list:
  assumes "find_field fs k = Some (field g u (dec_slice dec_str []))" and "u (\<lambda>_. None) x = x"
  shows "decode_members fs (coerce_members (omit_list k xs)) x = Inr (u (\<lambda>_. seen_list xs) x)"
  using assms
  by (auto simp: omit_list_def seen_list_def coerce_members_def field_def dec_slice_def dec_coerced_strs
      split: option.splits list.splits)

lemma dec_enc_spec:
  assumes "ok_spec b"
  shows "dec_spec (coerce_json (enc_spec b)) zero_spec = Inr (seen_spec b)"
proof -
  have "dec_spec (coerce_json (enc_spec b)) zero_spec = decode_members spec_fields (coerce_members (spec_members b)) zero_spec"
    by (simp add: dec_spec_fields enc_spec_def decode_fields_def coerce_members_def)
  also have "\<dots> = Inr (seen_spec b)"
    using assms unfolding spec_members_def coerce_members_append decode_append
    by (simp add: decode_str decode_int decode_omitempty decode_omit_zero decode_omit_list zero_spec_def seen_spec_def ok_spec_def)
  finally show ?thesis .
qed

definition seen_specs :: "bundle_spec list option \<Rightarrow> bundle_spec list option" where
  "seen_specs bs = (case bs of Some (y # ys) \<Rightarrow> Some (map seen_spec (y # ys)) | _ \<Rightarrow> None)"

definition ok_manifest :: "manifest \<Rightarrow> bool" where
  "ok_manifest m \<longleftrightarrow> int64_range (m_loader_version m) \<and> int64_range (m_recovery_version m) \<and>
     int64_range (m_firmware_version m) \<and> int64_range (m_firmware_min_version m) \<and>
     (\<forall>bs. m_firmware_bundles m = Some bs \<longrightarrow> list_all ok_spec bs)"

definition manifest_fields :: "(string \<times> manifest decoder) list" where
  "manifest_fields =
     [(''version'', field m_version m_version_update dec_str),
      (''min_version'', field m_min_version m_min_version_update dec_str),
      (''product_name'', field m_product_name m_product_name_update dec_str),
      (''product_version'', field m_product_version m_product_version_update dec_str),
      (''product_build'', field m_product_build m_product_build_update dec_str),
      (''rootfs_url'', field m_rootfs_url m_rootfs_url_update dec_str),
      (''rootfs_hash'', field m_rootfs_hash m_rootfs_hash_update dec_str),
      (''rootfs_verity_hash'', field m_rootfs_verity_hash m_rootfs_verity_hash_update dec_str),
      (''rootfs_hashtree_url'', field m_rootfs_hashtree_url m_rootfs_hashtree_url_update dec_str),
      (''rootfs_hashtree_hash'', field m_rootfs_hashtree_hash m_rootfs_hashtree_hash_update dec_str),
      (''kernelcache_url'', field m_kernelcache_url m_kernelcache_url_update dec_str),
      (''kernelcache_hash'', field m_kernelcache_hash m_kernelcache_hash_update dec_str),
      (''kernelcache_sig_url'', field m_kernelcache_sig_url m_kernelcache_sig_url_update dec_str),
      (''kernelcache_sig_hash'', field m_kernelcache_sig_hash m_kernelcache_sig_hash_update dec_str),
      (''kernel_release'', field m_kernel_release m_kernel_release_update dec_str),
      (''loader_version'', field m_loader_version m_loader_version_update dec_int),
      (''loader_url'', field m_loader_url m_loader_url_update dec_str),
      (''loader_hash'', field m_loader_hash m_loader_hash_update dec_str),
      (''loader_sig_url'', field m_loader_sig_url m_loader_sig_url_update dec_str),
      (''loader_sig_hash'', field m_loader_sig_hash m_loader_sig_hash_update dec_str),
      (''recovery_version'', field m_recovery_version m_recovery_version_update dec_int),
      (''recovery_url'', field m_recovery_url m_recovery_url_update dec_str),
      (''recovery_hash'', field m_recovery_hash m_recovery_hash_update dec_str),
      (''recovery_sig_url'', field m_recovery_sig_url m_recovery_sig_url_update dec_str),
      (''recovery_sig_hash'', field m_recovery_sig_hash m_recovery_sig_hash_update dec_str),
      (''firmware_url'', field m_firmware_url m_firmware_url_update dec_str),
      (''firmware_hash'', field m_firmware_hash m_firmware_hash_update dec_str),
      (''firmware_verity_hash'', field m_firmware_verity_hash m_firmware_verity_hash_update dec_str),
      (''firmware_version'', field m_firmware_version m_firmware_version_update dec_int),
      (''firmware_min_version'', field m_firmware_min_version m_firmware_min_version_update dec_int),
      (''firmware_hashtree_url'', field m_firmware_hashtree_url m_firmware_hashtree_url_update dec_str),
      (''firmware_hashtree_hash'', field m_firmware_hashtree_hash m_firmware_hashtree_hash_update dec_str),
      (''firmware_bundles'', field m_firmware_bundles m_firmware_bundles_update (dec_slice dec_spec zero_spec))]"

lemma dec_manifest_fields: "dec_manifest = decode_fields manifest_fields"
  by (simp add: dec_manifest_def manifest_fields_def)

lemma manifest_field [simp]:
  "find_field manifest_fields ''version'' = Some (field m_version m_version_update dec_str)"
  "find_field manifest_fields ''min_version'' = Some (field m_min_version m_min_version_update dec_str)"
  "find_field manifest_fields ''product_name'' = Some (field m_product_name m_product_name_update dec_str)"
  "find_field manifest_fields ''product_version'' = Some (field m_product_version m_product_version_update dec_str)"
  "find_field manifest_fields ''product_build'' = Some (field m_product_build m_product_build_update dec_str)"
  "find_field manifest_fields ''rootfs_url'' = Some (field m_rootfs_url m_rootfs_url_update dec_str)"
  "find_field manifest_fields ''rootfs_hash'' = Some (field m_rootfs_hash m_rootfs_hash_update dec_str)"
  "find_field manifest_fields ''rootfs_verity_hash'' = Some (field m_rootfs_verity_hash m_rootfs_verity_hash_update dec_str)"
  "find_field manifest_fields ''rootfs_hashtree_url'' = Some (field m_rootfs_hashtree_url m_rootfs_hashtree_url_update dec_str)"
  "find_field manifest_fields ''rootfs_hashtree_hash'' = Some (field m_rootfs_hashtree_hash m_rootfs_hashtree_hash_update dec_str)"
  "find_field manifest_fields ''kernelcache_url'' = Some (field m_kernelcache_url m_kernelcache_url_update dec_str)"
  "find_field manifest_fields ''kernelcache_hash'' = Some (field m_kernelcache_hash m_kernelcache_hash_update dec_str)"
  "find_field manifest_fields ''kernelcache_sig_url'' = Some (field m_kernelcache_sig_url m_kernelcache_sig_url_update dec_str)"
  "find_field manifest_fields ''kernelcache_sig_hash'' = Some (field m_kernelcache_sig_hash m_kernelcache_sig_hash_update dec_str)"
  "find_field manifest_fields ''kernel_release'' = Some (field m_kernel_release m_kernel_release_update dec_str)"
  "find_field manifest_fields ''loader_version'' = Some (field m_loader_version m_loader_version_update dec_int)"
  "find_field manifest_fields ''loader_url'' = Some (field m_loader_url m_loader_url_update dec_str)"
  "find_field manifest_fields ''loader_hash'' = Some (field m_loader_hash m_loader_hash_update dec_str)"
  "find_field manifest_fields ''loader_sig_url'' = Some (field m_loader_sig_url m_loader_sig_url_update dec_str)"
  "find_field manifest_fields ''loader_sig_hash'' = Some (field m_loader_sig_hash m_loader_sig_hash_update dec_str)"
  "find_field manifest_fields ''recovery_version'' = Some (field m_recovery_version m_recovery_version_update dec_int)"
  "find_field manifest_fields ''recovery_url'' = Some (field m_recovery_url m_recovery_url_update dec_str)"
  "find_field manifest_fields ''recovery_hash'' = Some (field m_recovery_hash m_recovery_hash_update dec_str)"
  "find_field manifest_fields ''recovery_sig_url'' = Some (field m_recovery_sig_url m_recovery_sig_url_update dec_str)"
  "find_field manifest_fields ''recovery_sig_hash'' = Some (field m_recovery_sig_hash m_recovery_sig_hash_update dec_str)"
  "find_field manifest_fields ''firmware_url'' = Some (field m_firmware_url m_firmware_url_update dec_str)"
  "find_field manifest_fields ''firmware_hash'' = Some (field m_firmware_hash m_firmware_hash_update dec_str)"
  "find_field manifest_fields ''firmware_verity_hash'' = Some (field m_firmware_verity_hash m_firmware_verity_hash_update dec_str)"
  "find_field manifest_fields ''firmware_version'' = Some (field m_firmware_version m_firmware_version_update dec_int)"
  "find_field manifest_fields ''firmware_min_version'' = Some (field m_firmware_min_version m_firmware_min_version_update dec_int)"
  "find_field manifest_fields ''firmware_hashtree_url'' = Some (field m_firmware_hashtree_url m_firmware_hashtree_url_update dec_str)"
  "find_field manifest_fields ''firmware_hashtree_hash'' = Some (field m_firmware_hashtree_hash m_firmware_hashtree_hash_update dec_str)"
  "find_field manifest_fields ''firmware_bundles'' = Some (field m_firmware_bundles m_firmware_bundles_update (dec_slice dec_spec zero_spec))"
  by (simp_all add: find_field_def manifest_fields_def)

definition seen_manifest :: "manifest \<Rightarrow> manifest" where
  "seen_manifest m = m\<lparr>m_version := coerced (m_version m), m_min_version := coerced (m_min_version m), 
       m_product_name := coerced (m_product_name m), m_product_version := coerced (m_product_version m), 
       m_product_build := coerced (m_product_build m), m_rootfs_url := coerced (m_rootfs_url m), 
       m_rootfs_hash := coerced (m_rootfs_hash m), m_rootfs_verity_hash := coerced (m_rootfs_verity_hash m), 
       m_rootfs_hashtree_url := coerced (m_rootfs_hashtree_url m), 
       m_rootfs_hashtree_hash := coerced (m_rootfs_hashtree_hash m), 
       m_kernelcache_url := coerced (m_kernelcache_url m), 
       m_kernelcache_hash := coerced (m_kernelcache_hash m), 
       m_kernelcache_sig_url := coerced (m_kernelcache_sig_url m), 
       m_kernelcache_sig_hash := coerced (m_kernelcache_sig_hash m), 
       m_kernel_release := coerced (m_kernel_release m), m_loader_url := coerced (m_loader_url m), 
       m_loader_hash := coerced (m_loader_hash m), m_loader_sig_url := coerced (m_loader_sig_url m), 
       m_loader_sig_hash := coerced (m_loader_sig_hash m), m_recovery_url := coerced (m_recovery_url m), 
       m_recovery_hash := coerced (m_recovery_hash m), m_recovery_sig_url := coerced (m_recovery_sig_url m), 
       m_recovery_sig_hash := coerced (m_recovery_sig_hash m), m_firmware_url := coerced (m_firmware_url m), 
       m_firmware_hash := coerced (m_firmware_hash m), 
       m_firmware_verity_hash := coerced (m_firmware_verity_hash m), 
       m_firmware_hashtree_url := coerced (m_firmware_hashtree_url m), 
       m_firmware_hashtree_hash := coerced (m_firmware_hashtree_hash m), 
       m_firmware_bundles := seen_specs (m_firmware_bundles m)\<rparr>"

lemma dec_enc_specs:
  "list_all ok_spec bs \<Longrightarrow> dec_elems dec_spec zero_spec (map (coerce_json \<circ> enc_spec) bs) [] = Inr (map seen_spec bs)"
  by (induction bs) (simp_all add: dec_enc_spec)

lemma decode_omit_specs:
  assumes "find_field fs k = Some (field g u (dec_slice dec_spec zero_spec))" and "u (\<lambda>_. None) x = x" and "g x = None"
    and "\<And>ys. bs = Some ys \<Longrightarrow> list_all ok_spec ys"
  shows "decode_members fs (coerce_members (omit_specs k bs)) x = Inr (u (\<lambda>_. seen_specs bs) x)"
  using assms dec_enc_specs [of "case bs of Some ys \<Rightarrow> ys | None \<Rightarrow> []"]
  by (auto simp: omit_specs_def seen_specs_def coerce_members_def field_def dec_slice_def split: option.splits list.splits)

lemma manifest_decodes:
  assumes "ok_manifest m"
  shows "decode_members manifest_fields (coerce_members (manifest_members m)) zero_manifest = Inr (seen_manifest m)"
  using assms unfolding manifest_members_def coerce_members_append decode_append
  by (cases m) (simp add: decode_str decode_int decode_omitempty decode_omit_zero decode_omit_specs zero_manifest_def seen_manifest_def ok_manifest_def)

text \<open>Every member has a plain name and a value that is printed so that it can be read.\<close>

definition plain_members :: "(string \<times> json) list \<Rightarrow> bool" where
  "plain_members ms \<longleftrightarrow> list_all (\<lambda>(k, j). ascii k \<and> printable j) ms"

lemma ascii_manifest_names:
  "list_all ascii [''version'', ''min_version'', ''product_name'', ''product_version'', ''product_build'',
     ''rootfs_url'', ''rootfs_hash'', ''rootfs_verity_hash'', ''rootfs_hashtree_url'', ''rootfs_hashtree_hash'',
     ''kernelcache_url'', ''kernelcache_hash'', ''kernelcache_sig_url'', ''kernelcache_sig_hash'',
     ''kernel_release'', ''loader_version'', ''loader_url'', ''loader_hash'', ''loader_sig_url'',
     ''loader_sig_hash'', ''recovery_version'', ''recovery_url'', ''recovery_hash'', ''recovery_sig_url'',
     ''recovery_sig_hash'', ''firmware_url'', ''firmware_hash'', ''firmware_verity_hash'', ''firmware_version'',
     ''firmware_min_version'', ''firmware_hashtree_url'', ''firmware_hashtree_hash'', ''firmware_bundles'',
     ''name'', ''url'', ''hash'', ''verity_hash'', ''hashtree_url'', ''hashtree_hash'', ''chips'', ''kernel_min'',
     ''kernel_max'', ''critical_devices'']"
  by code_simp

lemma plain_append: "plain_members (a @ b) \<longleftrightarrow> plain_members a \<and> plain_members b"
  by (simp add: plain_members_def)

lemma plain_member:
  "plain_members [(k, JStr s)] \<longleftrightarrow> ascii k" "plain_members [(k, JInt n)] \<longleftrightarrow> ascii k"
  "ascii k \<Longrightarrow> plain_members (omitempty k s)" "ascii k \<Longrightarrow> plain_members (omit_zero k n)"
  "ascii k \<Longrightarrow> plain_members (omit_list k xs)"
  by (auto simp: plain_members_def JInt_def omitempty_def omit_zero_def omit_list_def list_all_iff split: option.splits list.splits)

lemma printable_members: "plain_members ms \<Longrightarrow> printable (JObj ms)"
  by (auto simp: plain_members_def list_all_iff)

lemma printable_spec: "printable (enc_spec b)"
  unfolding enc_spec_def
  by (rule printable_members) (use ascii_manifest_names in \<open>simp add: spec_members_def plain_append plain_member del: append.simps\<close>)

lemma plain_omit_specs: "ascii k \<Longrightarrow> plain_members (omit_specs k bs)"
  by (auto simp: plain_members_def omit_specs_def list_all_iff printable_spec split: option.splits list.splits)

lemma printable_manifest: "printable (JObj (manifest_members m))"
  by (rule printable_members)
    (use ascii_manifest_names in \<open>simp add: manifest_members_def plain_append plain_member plain_omit_specs del: append.simps\<close>)

text \<open>Manifests: the printed manifest is read back as it was, up to the replacement of bytes that are
  no UTF-8 text.\<close>

theorem manifest_round_trip:
  assumes "ok_manifest m"
  shows "err_bind (json_parse (manifest_text m)) (\<lambda>j. dec_manifest j zero_manifest) = Inr (seen_manifest m)"
proof -
  have "json_parse (manifest_text m) = Inr (coerce_json (JObj (manifest_members m)))"
    unfolding manifest_text_def by (rule json_parse_indent_coerced [OF printable_manifest])
  moreover have "coerce_json (JObj (manifest_members m)) = JObj (coerce_members (manifest_members m))"
    by (simp add: coerce_members_def)
  ultimately show ?thesis
    using manifest_decodes [OF assms] by (simp add: dec_manifest_fields decode_fields_def del: coerce_json.simps)
qed

lemma ParseManifest_text:
  assumes "ok_manifest m" and "ParseManifest (manifest_text m) = Inr x"
  shows "x = seen_manifest m \<and> manifest_ok x"
  using manifest_round_trip [OF assms(1)] ParseManifest_decodes [OF assms(2)] ParseManifest_ok [OF assms(2)] by auto

subsection \<open>What a release promises\<close>

text \<open>\<open>release_of sg d r fw m\<close>: the manifest describes the release, with the digests of its files on the
  disk \<open>d\<close>.\<close>

definition hash_of :: "signer \<Rightarrow> disk \<Rightarrow> string \<Rightarrow> string \<Rightarrow> bool" where
  "hash_of sg d p x \<longleftrightarrow> (\<exists>s. file_data d (sg_file sg p) = Some s \<and> x = hex_encode (sha256 (sg_crypto sg) s))"

definition bundle_of :: "signer \<Rightarrow> disk \<Rightarrow> firmware_spec \<Rightarrow> bundle_spec \<Rightarrow> bool" where
  "bundle_of sg d f b \<longleftrightarrow> hash_of sg d (fs_image_file f) (bd_hash b) \<and> hash_of sg d (fs_hashtree_file f) (bd_hashtree_hash b) \<and>
     bd_name b = fs_name f \<and> bd_url b = fs_image_url f \<and> bd_verity_hash b = fs_verity_hash f \<and>
     bd_hashtree_url b = fs_hashtree_url f \<and> bd_version b = fs_version f \<and> bd_min_version b = fs_min_version f \<and>
     bd_chips b = fs_chips f \<and> bd_kernel_min b = fs_kernel_min f \<and> bd_kernel_max b = fs_kernel_max f \<and>
     bd_critical_devices b = fs_critical_devices f"

definition system_of :: "signer \<Rightarrow> disk \<Rightarrow> release_spec \<Rightarrow> manifest \<Rightarrow> bool" where
  "system_of sg d r m \<longleftrightarrow> m_version m = rs_version r \<and> m_min_version m = rs_min_version r \<and>
     m_product_name m = rs_product_name r \<and> m_product_version m = rs_product_version r \<and> m_product_build m = rs_product_build r \<and>
     m_rootfs_url m = rs_rootfs_url r \<and> hash_of sg d (rs_rootfs_file r) (m_rootfs_hash m) \<and>
     m_rootfs_verity_hash m = rs_rootfs_verity_hash r \<and> m_rootfs_hashtree_url m = rs_hashtree_url r \<and>
     hash_of sg d (rs_hashtree_file r) (m_rootfs_hashtree_hash m) \<and> m_kernelcache_url m = rs_kc_url r \<and>
     hash_of sg d (rs_kc_file r) (m_kernelcache_hash m) \<and> m_kernelcache_sig_url m = rs_kc_sig_url r \<and>
     hash_of sg d (rs_kc_sig_file r) (m_kernelcache_sig_hash m) \<and> m_kernel_release m = []"

definition loader_of :: "signer \<Rightarrow> disk \<Rightarrow> release_spec \<Rightarrow> manifest \<Rightarrow> bool" where
  "loader_of sg d r m \<longleftrightarrow>
     (if rs_loader_file r = [] then m_loader_version m = 0 \<and> m_loader_url m = [] \<and> m_loader_hash m = [] \<and>
        m_loader_sig_url m = [] \<and> m_loader_sig_hash m = []
      else 2 \<le> m_loader_version m \<and> m_loader_url m = rs_loader_url r \<and> m_loader_sig_url m = rs_loader_sig_url r \<and>
        rs_loader_url r \<noteq> [] \<and> rs_loader_sig_url r \<noteq> [] \<and> hash_of sg d (rs_loader_sig_file r) (m_loader_sig_hash m) \<and>
        (\<exists>img. file_data d (sg_file sg (rs_loader_file r)) = Some img \<and> m_loader_version m = LoaderVersionOf img \<and>
           m_loader_hash m = hex_encode (sha256 (sg_crypto sg) img)))"

definition recovery_of :: "signer \<Rightarrow> disk \<Rightarrow> release_spec \<Rightarrow> manifest \<Rightarrow> bool" where
  "recovery_of sg d r m \<longleftrightarrow>
     (if rs_recovery_file r = [] then m_recovery_version m = 0 \<and> m_recovery_url m = [] \<and> m_recovery_hash m = [] \<and>
        m_recovery_sig_url m = [] \<and> m_recovery_sig_hash m = []
      else 1 \<le> m_recovery_version m \<and> m_recovery_version m = rs_recovery_version r \<and> m_recovery_url m = rs_recovery_url r \<and>
        m_recovery_sig_url m = rs_recovery_sig_url r \<and> rs_recovery_url r \<noteq> [] \<and> rs_recovery_sig_url r \<noteq> [] \<and>
        hash_of sg d (rs_recovery_file r) (m_recovery_hash m) \<and> hash_of sg d (rs_recovery_sig_file r) (m_recovery_sig_hash m))"

definition firmware_of :: "signer \<Rightarrow> disk \<Rightarrow> firmware_spec list \<Rightarrow> manifest \<Rightarrow> bool" where
  "firmware_of sg d fw m \<longleftrightarrow>
     (if length fw = 1 \<and> fs_name (fw ! 0) = [] then
        m_firmware_bundles m = None \<and> m_firmware_url m = fs_image_url (fw ! 0) \<and>
        hash_of sg d (fs_image_file (fw ! 0)) (m_firmware_hash m) \<and> m_firmware_verity_hash m = fs_verity_hash (fw ! 0) \<and>
        m_firmware_hashtree_url m = fs_hashtree_url (fw ! 0) \<and>
        hash_of sg d (fs_hashtree_file (fw ! 0)) (m_firmware_hashtree_hash m) \<and>
        m_firmware_version m = fs_version (fw ! 0) \<and> m_firmware_min_version m = fs_min_version (fw ! 0)
      else m_firmware_url m = [] \<and> m_firmware_version m = 0 \<and> m_firmware_min_version m = 0 \<and>
        (\<exists>bs. list_all2 (bundle_of sg d) fw bs \<and> m_firmware_bundles m = (if fw = [] then None else Some bs)))"

definition release_of :: "signer \<Rightarrow> disk \<Rightarrow> release_spec \<Rightarrow> firmware_spec list \<Rightarrow> manifest \<Rightarrow> bool" where
  "release_of sg d r fw m \<longleftrightarrow> system_of sg d r m \<and> loader_of sg d r m \<and> recovery_of sg d r m \<and> firmware_of sg d fw m"

text \<open>\<open>inspects P m\<close>: the operation leaves the disk as it is, and what it returns is \<open>P\<close> of that disk.\<close>

definition inspects :: "(disk \<Rightarrow> 'a \<Rightarrow> bool) \<Rightarrow> 'a io \<Rightarrow> bool" where
  "inspects P m \<longleftrightarrow> (\<forall>w. wp m (\<lambda>r w'. w_disk w' = w_disk w \<and> (w_faults w = [] \<longrightarrow> w_faults w' = []) \<and>
     (\<forall>x. r = Inr x \<longrightarrow> P (w_disk w) x)) w)"

lemma inspectsD: "inspects P m \<Longrightarrow> wp m (\<lambda>r w'. w_disk w' = w_disk w \<and> (w_faults w = [] \<longrightarrow> w_faults w' = []) \<and>
     (\<forall>x. r = Inr x \<longrightarrow> P (w_disk w) x)) w"
  by (simp add: inspects_def)

lemma inspects_seqE:
  assumes "inspects P m" and "\<And>x. inspects (\<lambda>d y. P d x \<longrightarrow> Q d y) (k x)"
  shows "inspects Q (seqE m k)"
  unfolding inspects_def
  by (intro allI wp_seqEI [OF inspectsD [OF assms(1)]]) (auto intro!: wp_mono [OF inspectsD [OF assms(2)]])

lemma inspects_wrapE: "inspects P m \<Longrightarrow> inspects P (wrapE s m)"
  unfolding inspects_def wp_wrapE by (intro allI) (rule wp_mono, erule spec, auto split: sum.splits)

lemma inspects_ret: "(\<And>d. P d x) \<Longrightarrow> inspects P (ret x)"
  by (simp add: inspects_def wp_ret)

lemma inspects_throw [simp]: "inspects P (throw e)"
  by (simp add: inspects_def wp_throw)

lemma inspects_if: "(b \<Longrightarrow> inspects P m) \<Longrightarrow> (\<not> b \<Longrightarrow> inspects P n) \<Longrightarrow> inspects P (if b then m else n)"
  by simp

lemma inspects_mono: "inspects P m \<Longrightarrow> (\<And>d x. P d x \<Longrightarrow> Q d x) \<Longrightarrow> inspects Q m"
  unfolding inspects_def by (auto intro: wp_mono)

lemma inspects_read_file: "inspects (\<lambda>d s. file_data d p = Some s) (read_file p)"
  by (auto simp: inspects_def wp_simps sys_defs file_data_def split: option.splits)

lemma inspects_hash: "inspects (\<lambda>d. hash_of sg d p) (hash_as sg what p)"
  unfolding hash_as_def hashFile_def
  by (intro inspects_wrapE inspects_seqE [OF inspects_read_file] inspects_ret) (simp add: hash_of_def)

lemma inspects_system: "inspects (\<lambda>d m. system_of sg d r m \<and> loader_of sg d (r\<lparr>rs_loader_file := []\<rparr>) m \<and>
     recovery_of sg d (r\<lparr>rs_recovery_file := []\<rparr>) m \<and> firmware_of sg d [] m) (system_manifest sg r)"
  unfolding system_manifest_def
  by (rule inspects_seqE [OF inspects_hash] inspects_ret)+
    (simp add: system_of_def loader_of_def recovery_of_def firmware_of_def zero_manifest_def)

lemma inspects_loader:
  "inspects (\<lambda>d m'. system_of sg d r m \<and> loader_of sg d (r\<lparr>rs_loader_file := []\<rparr>) m \<and> recovery_of sg d q m \<and> firmware_of sg d [] m \<longrightarrow>
     system_of sg d r m' \<and> loader_of sg d r m' \<and> recovery_of sg d q m' \<and> firmware_of sg d [] m') (with_loader sg r m)"
  unfolding with_loader_def
  by (intro inspects_if inspects_ret inspects_throw inspects_seqE [OF inspects_wrapE [OF inspects_read_file]] inspects_seqE [OF inspects_hash])
    (auto simp: system_of_def loader_of_def recovery_of_def firmware_of_def hash_of_def)

lemma inspects_recovery:
  "inspects (\<lambda>d m'. system_of sg d r m \<and> loader_of sg d r m \<and> recovery_of sg d (r\<lparr>rs_recovery_file := []\<rparr>) m \<and> firmware_of sg d [] m \<longrightarrow>
     system_of sg d r m' \<and> loader_of sg d r m' \<and> recovery_of sg d r m' \<and> firmware_of sg d [] m') (with_recovery sg r m)"
  unfolding with_recovery_def
  by (intro inspects_if inspects_ret inspects_throw inspects_seqE [OF inspects_hash])
    (auto simp: system_of_def loader_of_def recovery_of_def firmware_of_def hash_of_def)

lemma inspects_bundles: "inspects (\<lambda>d bs. list_all2 (bundle_of sg d) fs bs) (hash_bundles sg fs)"
proof (induction fs)
  case (Cons f fs)
  show ?case
    unfolding hash_bundles.simps
    by (intro inspects_ret inspects_seqE [OF inspects_hash] inspects_seqE [OF Cons]) (simp add: bundle_of_def)
qed (simp add: inspects_ret)

lemma inspects_firmware:
  "inspects (\<lambda>d m'. system_of sg d r m \<and> loader_of sg d r m \<and> recovery_of sg d r m \<and> firmware_of sg d [] m \<longrightarrow>
     release_of sg d r fw m') (with_firmware sg fw m)"
  unfolding with_firmware_def with_single_firmware_def
  by (intro inspects_if inspects_ret inspects_seqE [OF inspects_hash] inspects_seqE [OF inspects_bundles])
    (auto simp: release_of_def system_of_def loader_of_def recovery_of_def firmware_of_def hash_of_def)

lemma inspects_release:
  "inspects (\<lambda>d. release_of sg d r fw) (seqE (system_manifest sg r) (\<lambda>m0. seqE (with_loader sg r m0) (\<lambda>m1.
     seqE (with_recovery sg r m1) (with_firmware sg fw))))"
  by (intro inspects_seqE [OF inspects_system] inspects_seqE [OF inspects_loader] inspects_seqE [OF inspects_recovery] inspects_mono [OF inspects_firmware])
    blast

subsection \<open>What is published\<close>

lemma atoi_range: "atoi s = Some v \<Longrightarrow> int64_range v"
  by (auto simp: atoi_def Let_def split: list.splits option.splits if_splits)

lemma LoaderVersionOf_range: "int64_range (LoaderVersionOf img)"
  by (auto simp: LoaderVersionOf_def int64_range_def dest: atoi_range [unfolded int64_range_def] split: option.splits)

text \<open>Numbers of the command line are of type \<open>int\<close>.\<close>

definition int_options :: "release_spec \<Rightarrow> firmware_spec list \<Rightarrow> bool" where
  "int_options r fw \<longleftrightarrow> int64_range (rs_recovery_version r) \<and>
     list_all (\<lambda>f. int64_range (fs_version f) \<and> int64_range (fs_min_version f)) fw"

lemma release_ok_manifest:
  assumes "release_of sg d r fw m" and "int_options r fw"
  shows "ok_manifest m"
proof -
  have "int64_range 0" by (simp add: int64_range_def)
  have "list_all ok_spec bs" if "list_all2 (bundle_of sg d) fw bs" for bs
    using that assms(2) unfolding int_options_def
    by (auto simp: list_all2_conv_all_nth list_all_length bundle_of_def ok_spec_def)
  then show ?thesis
    using assms \<open>int64_range 0\<close> LoaderVersionOf_range
    by (auto simp: release_of_def loader_of_def recovery_of_def firmware_of_def ok_manifest_def int_options_def list_all_length
        split: if_splits)
qed

lemma coerced_Nil_iff [simp]: "coerced s = [] \<longleftrightarrow> s = []"
  by (cases s) (auto simp: coerced.simps(2) utf8_encode_def replacement_rune_def Let_def simp del: utf8_size.simps)

text \<open>\<open>full_update m\<close>: the manifest is accepted, and the update it describes can be mounted, chained and confirmed.\<close>

definition full_update :: "manifest \<Rightarrow> bool" where
  "full_update m \<longleftrightarrow> manifest_ok m \<and> m_rootfs_hashtree_url m \<noteq> [] \<and> m_rootfs_verity_hash m \<noteq> [] \<and> m_kernelcache_sig_url m \<noteq> [] \<and>
     (m_loader_version m = 0 \<or> 2 \<le> m_loader_version m \<and> m_loader_url m \<noteq> [] \<and> m_loader_sig_url m \<noteq> []) \<and>
     (m_recovery_version m = 0 \<or> 1 \<le> m_recovery_version m \<and> m_recovery_url m \<noteq> [] \<and> m_recovery_sig_url m \<noteq> [])"

definition published :: "signer \<Rightarrow> disk \<Rightarrow> release_spec \<Rightarrow> firmware_spec list \<Rightarrow> string \<Rightarrow> disk \<Rightarrow> bool" where
  "published sg d r fw outPath h \<longleftrightarrow>
     (\<exists>m. release_of sg d r fw m \<and> file_data h (sg_file sg outPath) = Some (manifest_text m) \<and>
        ParseManifest (manifest_text m) = Inr (seen_manifest m) \<and> full_update (seen_manifest m))"

lemma seen_full_update:
  assumes "release_of sg d r fw m" and "manifest_ok (seen_manifest m)"
    and "rs_hashtree_url r \<noteq> []" "rs_rootfs_verity_hash r \<noteq> []" "rs_kc_sig_url r \<noteq> []"
  shows "full_update (seen_manifest m)"
  using assms
  by (auto simp: full_update_def seen_manifest_def release_of_def system_of_def loader_of_def recovery_of_def split: if_splits)

lemma seqE_assoc: "seqE (seqE m k) h = seqE m (\<lambda>x. seqE (k x) h)"
  by (rule ext) (simp add: seqE_def trying_def throw_def split: prod.split sum.split)

lemma wp_publish:
  assumes outs: "outputs sg ns (w_disk w)" "outPath \<in> set ns" and ok: "ok_manifest m" and rel: "release_of sg d r fw m"
    and urls: "rs_hashtree_url r \<noteq> []" "rs_rootfs_verity_hash r \<noteq> []" "rs_kc_sig_url r \<noteq> []"
  shows "wp (seqE (lift_err (ParseManifest (manifest_text m))) (\<lambda>_. seqE (write_file (sg_file sg outPath) (manifest_text m))
     (\<lambda>_. ret outPath))) (\<lambda>q w'. written sg ns {sg_file sg outPath} w w' \<and>
       (\<forall>p. q = Inr p \<longrightarrow> p = outPath \<and> published sg d r fw outPath (w_disk w'))) w"
proof (cases "ParseManifest (manifest_text m)")
  case (Inr x)
  then have x: "ParseManifest (manifest_text m) = Inr (seen_manifest m)" "full_update (seen_manifest m)"
    using ParseManifest_text [OF ok Inr] seen_full_update [OF rel _ urls] by auto
  show ?thesis
    unfolding Inr wp_seqE wp_lift_err wp_ret sum.case
    by (rule wp_mono [OF wp_write_output [OF outs]]) (use x rel in \<open>auto simp: published_def split: sum.splits\<close>)
qed (use outs in \<open>simp add: wp_simps\<close>)

lemma wp_BuildManifest:
  assumes outs: "outputs sg ns (w_disk w)" "outPath \<in> set ns" and ints: "int_options r fw"
  shows "wp (BuildManifest sg outPath r fw) (\<lambda>q w'. written sg ns {sg_file sg outPath} w w' \<and>
     (\<forall>p. q = Inr p \<longrightarrow> p = outPath \<and> published sg (w_disk w) r fw outPath (w_disk w'))) w"
    (is "wp _ ?Q w")
proof -
  let ?wr = "\<lambda>m. seqE (lift_err (ParseManifest (manifest_text m))) (\<lambda>_. seqE (write_file (sg_file sg outPath) (manifest_text m))
     (\<lambda>_. ret outPath))"
  have run: "wp (seqE (seqE (system_manifest sg r) (\<lambda>m0. seqE (with_loader sg r m0) (\<lambda>m1. seqE (with_recovery sg r m1)
      (with_firmware sg fw)))) ?wr) ?Q w"
    if urls: "rs_hashtree_url r \<noteq> []" "rs_rootfs_verity_hash r \<noteq> []" "rs_kc_sig_url r \<noteq> []"
  proof (rule wp_seqEI [OF inspectsD [OF inspects_release]])
    fix m :: manifest and w1 :: world
    assume m: "w_disk w1 = w_disk w \<and> (w_faults w = [] \<longrightarrow> w_faults w1 = []) \<and>
      (\<forall>x. Inr m = Inr x \<longrightarrow> release_of sg (w_disk w) r fw x)"
    then have rel: "release_of sg (w_disk w) r fw m" and o1: "outputs sg ns (w_disk w1)" using outs by auto
    show "wp (?wr m) ?Q w1"
      by (rule wp_mono [OF wp_publish [OF o1 outs(2) release_ok_manifest [OF rel ints] rel urls]])
        (use m in \<open>auto simp: written_def same_outside_def\<close>)
  qed (use outs in \<open>auto simp: written_def\<close>)
  show ?thesis
    unfolding BuildManifest_def using outs(1) run [unfolded seqE_assoc] by (simp add: wp_if wp_throw)
qed

subsection \<open>From the release to the device\<close>

definition release_files :: "release_spec \<Rightarrow> firmware_spec list \<Rightarrow> string list" where
  "release_files r fw = [rs_rootfs_file r, rs_hashtree_file r, rs_kc_file r, rs_kc_sig_file r, rs_loader_file r,
     rs_loader_sig_file r, rs_recovery_file r, rs_recovery_sig_file r] @ map fs_image_file fw @ map fs_hashtree_file fw"

lemma hash_of_cong: "file_data h (sg_file sg p) = file_data d (sg_file sg p) \<Longrightarrow> hash_of sg h p = hash_of sg d p"
  by (simp add: hash_of_def fun_eq_iff)

lemma release_of_cong:
  assumes "\<And>p. p \<in> set (release_files r fw) \<Longrightarrow> file_data h (sg_file sg p) = file_data d (sg_file sg p)"
  shows "release_of sg h r fw m \<longleftrightarrow> release_of sg d r fw m"
proof -
  have sys: "hash_of sg h p = hash_of sg d p" if "p \<in> set (release_files r fw)" for p
    by (rule hash_of_cong) (rule assms [OF that])
  have fw: "bundle_of sg h f b = bundle_of sg d f b" if "f \<in> set fw" for f b
    using that by (simp add: bundle_of_def sys release_files_def)
  have "list_all2 (bundle_of sg h) fw bs = list_all2 (bundle_of sg d) fw bs" for bs
    by (rule list.rel_cong) (use fw in auto)
  moreover have "fw ! 0 \<in> set fw" if "length fw = 1" using that by simp
  ultimately show ?thesis
    using sys assms [of "rs_loader_file r"]
    by (simp add: release_of_def system_of_def loader_of_def recovery_of_def firmware_of_def release_files_def cong: conj_cong)
qed

lemma ascii_hex_encode [simp]: "ascii (hex_encode s)"
proof -
  have "byte (hex_digit n) < 128" if "n < 16" for n using that by (simp add: hex_digit_def byte_def)
  then show ?thesis by (auto simp: ascii_def hex_encode_def list_all_iff less_mult_imp_div_less)
qed

lemma hash_of_coerced: "hash_of sg d p x \<Longrightarrow> coerced x = x"
  by (auto simp: hash_of_def)

text \<open>\<open>accepted\<close>: a device with the root key \<open>rootPub\<close> accepts the certificate until it expires, the manifest
  under the certificate's key, and finds in it the release with the digests of its files.\<close>

definition accepted :: "signer \<Rightarrow> string \<Rightarrow> int \<Rightarrow> int \<Rightarrow> release_spec \<Rightarrow> firmware_spec list \<Rightarrow> string \<Rightarrow> string \<Rightarrow> disk \<Rightarrow> bool" where
  "accepted sg rootPub v expires r fw certPath outPath h \<longleftrightarrow>
     (\<exists>c s pub b bs m. file_data h (sg_file sg certPath) = Some c \<and> file_data h (sg_file sg (sig_name certPath)) = Some s \<and>
        (\<forall>t \<le> expires. VerifyCert (sg_crypto sg) c s rootPub t = Inr (pub, v)) \<and>
        file_data h (sg_file sg outPath) = Some b \<and> file_data h (sg_file sg (sig_name outPath)) = Some bs \<and>
        Verify (sg_crypto sg) b bs pub \<and> ParseManifest b = Inr (seen_manifest m) \<and> full_update (seen_manifest m) \<and>
        release_of sg h r fw m \<and>
        hash_of sg h (rs_rootfs_file r) (m_rootfs_hash (seen_manifest m)) \<and>
        hash_of sg h (rs_hashtree_file r) (m_rootfs_hashtree_hash (seen_manifest m)) \<and>
        hash_of sg h (rs_kc_file r) (m_kernelcache_hash (seen_manifest m)) \<and>
        hash_of sg h (rs_kc_sig_file r) (m_kernelcache_sig_hash (seen_manifest m)))"

lemma seen_hashes:
  assumes "release_of sg h r fw m"
  shows "hash_of sg h (rs_rootfs_file r) (m_rootfs_hash (seen_manifest m))"
    "hash_of sg h (rs_hashtree_file r) (m_rootfs_hashtree_hash (seen_manifest m))"
    "hash_of sg h (rs_kc_file r) (m_kernelcache_hash (seen_manifest m))"
    "hash_of sg h (rs_kc_sig_file r) (m_kernelcache_sig_hash (seen_manifest m))"
  using assms by (auto simp: release_of_def system_of_def seen_manifest_def hash_of_coerced)

text \<open>The names the release tools write in turn, and what they must not be.\<close>

definition release_names :: "string \<Rightarrow> string \<Rightarrow> string \<Rightarrow> string list" where
  "release_names certPath signingKey outPath = [certPath, sig_name certPath, signingKey, outPath, sig_name outPath]"

definition apart_from :: "signer \<Rightarrow> string list \<Rightarrow> string list \<Rightarrow> bool" where
  "apart_from sg ps ns \<longleftrightarrow> sg_file sg ` set ps \<inter> sg_file sg ` set ns = {}"

lemma accepted_from:
  assumes iss: "issued sg rootPub v expires certPath signingKey (w_disk w1)" and pub: "published sg (w_disk w1) r fw outPath (w_disk w2)"
    and w12: "written sg ns {sg_file sg outPath} w1 w2" and w23: "written sg ns {sg_file sg (sig_name outPath)} w2 w3"
    and ns: "ns = release_names certPath signingKey outPath" and apart: "apart_from sg (release_files r fw) ns"
    and sign: "\<And>pub key dat. key_pair sg pub key \<Longrightarrow> file_data (w_disk w2) (sg_file sg signingKey) = Some key \<Longrightarrow>
       file_data (w_disk w2) (sg_file sg outPath) = Some dat \<Longrightarrow> signed_under sg pub dat outPath (w_disk w3)"
  shows "accepted sg rootPub v expires r fw certPath outPath (w_disk w3)"
proof -
  let ?f = "sg_file sg"
  have dist: "distinct (map ?f ns)" using written_outputs [OF w12] by (simp add: outputs_def)
  have kept12: "?f p \<noteq> ?f outPath \<Longrightarrow> file_data (w_disk w2) (?f p) = file_data (w_disk w1) (?f p)" for p
    using written_same [OF w12] by simp
  have kept: "?f p \<noteq> ?f outPath \<Longrightarrow> ?f p \<noteq> ?f (sig_name outPath) \<Longrightarrow> file_data (w_disk w3) (?f p) = file_data (w_disk w1) (?f p)" for p
    using written_same [OF w23] kept12 by simp
  obtain c s key pub where c: "file_data (w_disk w1) (?f certPath) = Some c" "file_data (w_disk w1) (?f (sig_name certPath)) = Some s"
      "file_data (w_disk w1) (?f signingKey) = Some key" "key_pair sg pub key"
      "\<And>t. t \<le> expires \<Longrightarrow> VerifyCert (sg_crypto sg) c s rootPub t = Inr (pub, v)"
    using iss unfolding issued_def by auto
  obtain m where m: "release_of sg (w_disk w1) r fw m" "file_data (w_disk w2) (?f outPath) = Some (manifest_text m)"
      "ParseManifest (manifest_text m) = Inr (seen_manifest m)" "full_update (seen_manifest m)"
    using pub unfolding published_def by blast
  have "file_data (w_disk w2) (?f signingKey) = Some key" using kept12 [of signingKey] c(3) dist by (auto simp: ns release_names_def)
  then have sg: "signed_under sg pub (manifest_text m) outPath (w_disk w3)" using sign [OF c(4)] m(2) by simp
  have "file_data (w_disk w3) (?f p) = file_data (w_disk w1) (?f p)" if "p \<in> set (release_files r fw)" for p
    by (rule kept) (use apart imageI [OF that, of ?f] in \<open>auto simp: apart_from_def ns release_names_def\<close>)
  then have rel: "release_of sg (w_disk w3) r fw m" using m(1) release_of_cong [of r fw "w_disk w3" sg "w_disk w1"] by simp
  have cert: "file_data (w_disk w3) (?f certPath) = Some c" "file_data (w_disk w3) (?f (sig_name certPath)) = Some s"
    using kept [of certPath] kept [of "sig_name certPath"] c(1,2) dist by (auto simp: ns release_names_def)
  obtain sg' where "file_data (w_disk w3) (?f outPath) = Some (manifest_text m)" "file_data (w_disk w3) (?f (sig_name outPath)) = Some sg'"
      "Verify (sg_crypto sg) (manifest_text m) sg' pub"
    using sg by (auto simp: signed_under_def)
  then show ?thesis
    unfolding accepted_def using cert c(5) m(3,4) rel seen_hashes [OF rel] by blast
qed

lemma SignManifest_frame:
  "outputs sg ns (w_disk w) \<Longrightarrow> sig_name p \<in> set ns \<Longrightarrow>
   wp (SignManifest sg priv p) (\<lambda>r w'. written sg ns {sg_file sg (sig_name p)} w w') w"
  unfolding SignManifest_def
proof (rule wp_seqEI [OF wp_read_private], goal_cases)
  case (2 key w1)
  then have w1: "written sg ns {} w w1" by (auto simp: written_def)
  show ?case
  proof (rule wp_seqEI [OF inspectsD [OF inspects_read_file]], goal_cases)
    case (2 dat w2)
    then have w2: "written sg ns {} w w2" using w1 by (auto simp: written_def)
    show ?case
      unfolding wp_seqE wp_ret
      by (rule wp_mono [OF wp_write_output [OF written_outputs [OF w2] \<open>sig_name p \<in> set ns\<close>]])
        (auto intro: written_trans [OF w2] split: sum.splits)
  qed (use w1 in \<open>auto simp: written_def intro: same_outside_mono\<close>)
qed (auto simp: written_def)

lemma gives_release:
  assumes keys: "sound_keys sg" "key_pair sg rootPub root" and ranges: "int64_range v" "civil_range (now + validity)" "int_options r fw"
    and outs: "outputs sg ns (w_disk w)" and ns: "ns = release_names certPath signingKey outPath"
    and root: "file_data (w_disk w) (sg_file sg rootPriv) = Some root" and apart: "apart_from sg (release_files r fw) ns"
  shows "gives (seqE (IssueCert sg rootPriv certPath signingKey v validity now) (\<lambda>_. seqE (BuildManifest sg outPath r fw)
      (\<lambda>_. SignManifest sg signingKey outPath)))
    (\<lambda>_ w'. accepted sg rootPub v (whole_second (now + validity)) r fw certPath outPath (w_disk w')) w"
    (is "gives ?m ?R w")
proof -
  let ?f = "sg_file sg" and ?expires = "whole_second (now + validity)"
  have sub: "{certPath, sig_name certPath, signingKey} \<subseteq> set ns" "outPath \<in> set ns" "sig_name outPath \<in> set ns"
    and neq: "signingKey \<noteq> certPath" "signingKey \<noteq> sig_name certPath" "?f outPath \<noteq> ?f (sig_name outPath)"
    using outs by (auto simp: ns release_names_def outputs_def)
  have iss: "gives (IssueCert sg rootPriv certPath signingKey v validity now) (\<lambda>_ w1. outputs sg ns (w_disk w1) \<and>
     issued sg rootPub v ?expires certPath signingKey (w_disk w1)) w"
    by (rule gives_wp, rule wp_mono [OF wp_IssueCert [OF keys ranges(1,2) outs sub(1) neq(1,2) root]]) (auto simp: written_def)
  have man: "gives (BuildManifest sg outPath r fw) (\<lambda>_ w2. written sg ns {?f outPath} w1 w2 \<and>
     published sg (w_disk w1) r fw outPath (w_disk w2)) w1" if "outputs sg ns (w_disk w1)" for w1
    by (rule gives_wp, rule wp_mono [OF wp_BuildManifest [OF that sub(2) ranges(3)]]) auto
  have sig: "gives (SignManifest sg signingKey outPath) ?R w2"
    if i: "issued sg rootPub v ?expires certPath signingKey (w_disk w1)"
      and w2: "written sg ns {?f outPath} w1 w2 \<and> published sg (w_disk w1) r fw outPath (w_disk w2)" for w1 w2
    unfolding gives_def wp_iff
  proof (intro allI impI)
    fix q w3 p assume run: "SignManifest sg signingKey outPath w2 = (q, w3)" "q = Inr p"
    have o2: "outputs sg ns (w_disk w2)" using w2 by (simp add: written_def)
    show "?R p w3"
      by (rule accepted_from [OF i conjunct2 [OF w2] conjunct1 [OF w2] wpD [OF SignManifest_frame [OF o2 sub(3)] run(1)] ns apart])
        (use wpD [OF wp_SignManifest [OF _ o2 sub(3) neq(3)] run(1)] run(2) in blast)
  qed
  show ?thesis
    by (rule gives_seqE [OF iss], rule gives_seqE [OF man], erule conjunct1, rule sig, erule conjunct2)
qed

subsection \<open>A release, start to end\<close>

definition sample_signer :: signer where
  "sample_signer = \<lparr>sg_crypto = sample_crypto\<lparr>sha256 := (\<lambda>_. ''h'')\<rparr>, sg_sign = (\<lambda>_ _. sample_sig),
     sg_generate = Inr (sample_key, replicate 64 (CHR ''p'')), sg_file = (\<lambda>n. [n])\<rparr>"

definition sample_release :: release_spec where
  "sample_release = \<lparr>rs_version = ''v2'', rs_min_version = [], rs_product_name = [], rs_product_version = [], rs_product_build = [],
     rs_rootfs_file = ''r'', rs_rootfs_url = ''u'', rs_rootfs_verity_hash = ''00'', rs_hashtree_file = ''t'', rs_hashtree_url = ''u'',
     rs_kc_file = ''k'', rs_kc_url = ''u'', rs_kc_sig_file = ''s'', rs_kc_sig_url = ''u'',
     rs_loader_file = [], rs_loader_url = [], rs_loader_sig_file = [], rs_loader_sig_url = [],
     rs_recovery_version = 0, rs_recovery_file = [], rs_recovery_url = [], rs_recovery_sig_file = [], rs_recovery_sig_url = []\<rparr>"

definition sample_builder :: world where
  "sample_builder = world_of (put_file [''root.key''] (replicate 64 (CHR ''R'')) (put_file [''r''] ''root'' (put_file [''t''] ''tree''
     (put_file [''k''] ''kernel'' (put_file [''s''] ''sig'' empty_disk)))))"

lemma sample_signer_keys: "sound_keys sample_signer" "key_pair sample_signer sample_key (replicate 64 (CHR ''R''))"
  by (simp_all add: sound_keys_def key_pair_def sample_signer_def sample_crypto_def sample_key_def sample_sig_def)

lemma sample_builder_files:
  "file_data (w_disk sample_builder) [''root.key''] = Some (replicate 64 (CHR ''R''))"
  by (simp add: sample_builder_def file_data_def lookup_put_file)

lemma sample_outputs: "outputs sample_signer (release_names ''c'' ''key'' ''m'') (w_disk sample_builder)"
  by (auto simp: outputs_def private_name_def release_names_def sample_signer_def sample_builder_def sig_name_def
      put_file_def empty_disk_def wf_disk_def)

text \<open>The sample release goes through: each step is followed with what it needs of the disk.\<close>

definition sample_manifest :: manifest where
  "sample_manifest = zero_manifest\<lparr>m_version := ''v2'', m_rootfs_url := ''u'', m_rootfs_hash := ''68'', m_rootfs_verity_hash := ''00'',
     m_rootfs_hashtree_url := ''u'', m_rootfs_hashtree_hash := ''68'', m_kernelcache_url := ''u'', m_kernelcache_hash := ''68'',
     m_kernelcache_sig_url := ''u'', m_kernelcache_sig_hash := ''68''\<rparr>"

lemma sample_manifest_parses: "\<not> isl (ParseManifest (manifest_text sample_manifest))"
  by code_simp

lemma read_file_calm: "w_faults w = [] \<Longrightarrow> file_data (w_disk w) p = Some s \<Longrightarrow> read_file p w = (Inr s, w)"
  by (auto simp: read_file_def sys_call_def file_data_def)

lemma hash_as_calm:
  assumes "w_faults w = []" and "file_data (w_disk w) [n] = Some s"
  shows "hash_as sample_signer what n w = (Inr ''68'', w)"
proof -
  have "hex_encode ''h'' = ''68''" by code_simp
  with assms show ?thesis
    by (simp add: hash_as_def hashFile_def wrapE_def seqE_def trying_def ret_def read_file_calm sample_signer_def)
qed

lemma sample_system_calm:
  assumes "w_faults w = []" and "\<And>n. n \<in> set [''r'', ''t'', ''k'', ''s''] \<Longrightarrow> file_data (w_disk w) [n] \<noteq> None"
  shows "system_manifest sample_signer sample_release w = (Inr sample_manifest, w)"
proof -
  have "\<exists>s. file_data (w_disk w) [n] = Some s" if "n \<in> set [''r'', ''t'', ''k'', ''s'']" for n using assms(2) [OF that] by auto
  then have "hash_as sample_signer what n w = (Inr ''68'', w)" if "n \<in> set [''r'', ''t'', ''k'', ''s'']" for what n
    using that hash_as_calm [OF assms(1)] by blast
  then show ?thesis
    by (simp add: system_manifest_def sample_release_def sample_manifest_def zero_manifest_def seqE_def trying_def ret_def)
qed

lemma sample_build_calm:
  assumes "w_faults w = []" and "\<And>n. n \<in> set [''r'', ''t'', ''k'', ''s''] \<Longrightarrow> file_data (w_disk w) [n] \<noteq> None"
    and outs: "outputs sample_signer ns (w_disk w)" "''m'' \<in> set ns"
  shows "fst (BuildManifest sample_signer ''m'' sample_release [] w) = Inr ''m''"
proof -
  have "with_loader sample_signer sample_release m = ret m" "with_recovery sample_signer sample_release m = ret m" for m
    by (simp_all add: with_loader_def with_recovery_def sample_release_def)
  moreover have "with_firmware sample_signer [] sample_manifest = ret sample_manifest"
    by (simp add: with_firmware_def seqE_def trying_def ret_def sample_manifest_def zero_manifest_def)
  moreover obtain x where "ParseManifest (manifest_text sample_manifest) = Inr x"
    using sample_manifest_parses by (auto simp: isl_def split: sum.splits) (metis sum.exhaust)
  moreover obtain w' where "write_file (sg_file sample_signer ''m'') (manifest_text sample_manifest) w = (Inr (), w')"
    using wpD [OF wp_write_output [OF outs]] assms(1) by (metis surj_pair)
  moreover have "system_manifest sample_signer sample_release w = (Inr sample_manifest, w)"
    using assms(1,2) by (rule sample_system_calm)
  moreover have "rs_hashtree_file sample_release \<noteq> []" "rs_hashtree_url sample_release \<noteq> []" "rs_kc_sig_file sample_release \<noteq> []"
    "rs_kc_sig_url sample_release \<noteq> []" "rs_rootfs_verity_hash sample_release \<noteq> []" by (simp_all add: sample_release_def)
  ultimately show ?thesis
    by (simp add: BuildManifest_def seqE_def trying_def ret_def lift_err_def)
qed

text \<open>C7. What the release tools publish, the device accepts: the certificate until it expires, the
  signature, and a manifest that describes the release with the digests of its files.\<close>

theorem release_reaches_device:
  assumes "sound_keys sg" "key_pair sg rootPub root" "int64_range v" "civil_range (now + validity)" "int_options r fw"
    and "outputs sg (release_names certPath signingKey outPath) (w_disk w)"
    and "apart_from sg (release_files r fw) (release_names certPath signingKey outPath)"
    and "file_data (w_disk w) (sg_file sg rootPriv) = Some root"
    and "seqE (IssueCert sg rootPriv certPath signingKey v validity now) (\<lambda>_. seqE (BuildManifest sg outPath r fw)
      (\<lambda>_. SignManifest sg signingKey outPath)) w = (Inr q, w')"
  shows "accepted sg rootPub v (whole_second (now + validity)) r fw certPath outPath (w_disk w')"
  using givesD [OF gives_release [OF assms(1-6) refl assms(8,7)] assms(9)] .

lemma sample_apart: "apart_from sample_signer (release_files sample_release []) (release_names ''c'' ''key'' ''m'')"
  by (simp add: apart_from_def release_files_def release_names_def sample_release_def sample_signer_def sig_name_def)

lemma sample_release_runs:
  "\<exists>w' :: world. seqE (IssueCert sample_signer ''root.key'' ''c'' ''key'' 1 0 0) (\<lambda>_. seqE (BuildManifest sample_signer ''m'' sample_release [])
     (\<lambda>_. SignManifest sample_signer ''key'' ''m'')) sample_builder = (Inr ''m.sig'', w')"
proof -
  let ?sg = sample_signer and ?ns = "release_names ''c'' ''key'' ''m''" and ?key = "replicate 64 (CHR ''R'')"
  have ranges: "int64_range 1" "civil_range (0 + 0)" "int_options sample_release []"
    by (simp_all add: int64_range_def civil_range_def int_options_def sample_release_def)
  have mem: "{''c'', sig_name ''c'', ''key''} \<subseteq> set ?ns" "''m'' \<in> set ?ns" "sig_name ''m'' \<in> set ?ns"
    by (auto simp: release_names_def)
  have neq: "''key'' \<noteq> ''c''" "''key'' \<noteq> sig_name ''c''" "sg_file ?sg ''m'' \<noteq> sg_file ?sg (sig_name ''m'')"
    by (simp_all add: sig_name_def sample_signer_def)
  have f0: "w_faults sample_builder = []" and root: "file_data (w_disk sample_builder) (sg_file ?sg ''root.key'') = Some ?key"
    using sample_builder_files by (simp_all add: sample_builder_def sample_signer_def)
  obtain r1 w1 where run1: "IssueCert ?sg ''root.key'' ''c'' ''key'' 1 0 0 sample_builder = (r1, w1)" by fastforce
  have w1: "r1 = Inr ()" "written ?sg ?ns (sg_file ?sg ` {''c'', sig_name ''c'', ''key''}) sample_builder w1"
    "issued ?sg sample_key 1 (whole_second (0 + 0)) ''c'' ''key'' (w_disk w1)"
    using wpD [OF wp_IssueCert [OF sample_signer_keys ranges(1,2) sample_outputs mem(1) neq(1,2) root] run1] f0
    by (auto simp: sample_signer_def)
  have f1: "w_faults w1 = []" and o1: "outputs ?sg ?ns (w_disk w1)" using w1(2) f0 by (simp_all add: written_def)
  have kept: "file_data (w_disk w1) [n] \<noteq> None" if "n \<in> set [''r'', ''t'', ''k'', ''s'']" for n
  proof -
    have "file_data (w_disk w1) [n] = file_data (w_disk sample_builder) [n]"
      by (rule written_same [OF w1(2)]) (use that in \<open>auto simp: sample_signer_def sig_name_def\<close>)
    moreover have "file_data (w_disk sample_builder) [n] \<noteq> None"
      using that by (auto simp: sample_builder_def file_data_def lookup_put_file)
    ultimately show ?thesis by simp
  qed
  obtain w2 where run2: "BuildManifest ?sg ''m'' sample_release [] w1 = (Inr ''m'', w2)"
    using sample_build_calm [OF f1 kept o1 mem(2)] by (metis prod.collapse)
  have w2: "written ?sg ?ns {sg_file ?sg ''m''} w1 w2" "published ?sg (w_disk w1) sample_release [] ''m'' (w_disk w2)"
    using wpD [OF wp_BuildManifest [OF o1 mem(2) ranges(3)] run2] by auto
  have f2: "w_faults w2 = []" and o2: "outputs ?sg ?ns (w_disk w2)" using w2(1) f1 by (simp_all add: written_def)
  obtain key pub where key: "file_data (w_disk w1) (sg_file ?sg ''key'') = Some key" "key_pair ?sg pub key"
    using w1(3) by (auto simp: issued_def)
  have "file_data (w_disk w2) (sg_file ?sg ''key'') = Some key"
    using written_same [OF w2(1), of "sg_file ?sg ''key''"] key(1) by (simp add: sample_signer_def)
  moreover obtain dat where "file_data (w_disk w2) (sg_file ?sg ''m'') = Some dat" using w2(2) by (auto simp: published_def)
  moreover obtain r3 w3 where run3: "SignManifest ?sg ''key'' ''m'' w2 = (r3, w3)" by fastforce
  ultimately have "r3 = Inr (sig_name ''m'')"
    using wpD [OF wp_SignManifest [OF key(2) o2 mem(3) neq(3)] run3] f2 by blast
  then show ?thesis using run1 run2 run3 w1(1) by (simp add: seqE_def trying_def sig_name_def)
qed

lemma release_reaches_device_witness:
  "\<exists>w' :: world. accepted sample_signer sample_key 1 0 sample_release [] ''c'' ''m'' (w_disk w')"
proof -
  obtain w' where run: "seqE (IssueCert sample_signer ''root.key'' ''c'' ''key'' 1 0 0) (\<lambda>_. seqE (BuildManifest sample_signer ''m'' sample_release [])
     (\<lambda>_. SignManifest sample_signer ''key'' ''m'')) sample_builder = (Inr ''m.sig'', w')"
    using sample_release_runs by blast
  have "int64_range 1" "civil_range (0 + 0)" "int_options sample_release []"
    by (simp_all add: int64_range_def civil_range_def int_options_def sample_release_def)
  then have "accepted sample_signer sample_key 1 (whole_second (0 + 0)) sample_release [] ''c'' ''m'' (w_disk w')"
    using release_reaches_device [OF sample_signer_keys _ _ _ sample_outputs sample_apart _ run] sample_builder_files
    by (simp add: sample_signer_def)
  then show ?thesis by (auto simp: whole_second_def)
qed

text \<open>C36. Revocation: a published list makes the device refuse exactly the versions listed or below the
  floor.\<close>

theorem revocation_reaches_device:
  assumes "key_pair sg rootPub root" "int64_range m" "list_all int64_range (case_option [] id revoked)"
    and "outputs sg [outPath, sig_name outPath] (w_disk w)" "file_data (w_disk w) (sg_file sg rootPriv) = Some root"
    and "Revoke sg rootPriv outPath m revoked now w = (r, w')"
  shows "(w_faults w = [] \<longrightarrow> r = Inr ()) \<and>
    (r = Inr () \<longrightarrow> revoked_by sg rootPub (\<lambda>v. v < m \<or> v \<in> set (case_option [] id revoked)) outPath (w_disk w'))"
  using wpD [OF wp_Revoke [OF assms(1-4) _ assms(5)] assms(6)] by auto

lemma revocation_reaches_device_witness:
  "\<exists>w'. revoked_by sample_signer sample_key (\<lambda>v. v < 2 \<or> v \<in> {5}) ''c'' (w_disk (w' :: world))"
proof -
  obtain r w' where run: "Revoke sample_signer ''root.key'' ''c'' 2 (Some [5]) 0 sample_builder = (r, w')" by fastforce
  have "outputs sample_signer [''c'', sig_name ''c''] (w_disk sample_builder)"
    using sample_outputs by (auto simp: outputs_def release_names_def)
  moreover have "file_data (w_disk sample_builder) (sg_file sample_signer ''root.key'') = Some (replicate 64 (CHR ''R''))"
    using sample_builder_files by (simp add: sample_signer_def)
  moreover have "w_faults sample_builder = []" by (simp add: sample_builder_def)
  ultimately show ?thesis
    using revocation_reaches_device [OF sample_signer_keys(2) _ _ _ _ run] by (auto simp: int64_range_def)
qed

lemma manifest_round_trip_witness:
  "err_bind (json_parse (manifest_text sample_manifest)) (\<lambda>j. dec_manifest j zero_manifest) = Inr (seen_manifest sample_manifest)"
  by (rule manifest_round_trip) (simp add: ok_manifest_def sample_manifest_def zero_manifest_def int64_range_def)

end
