(* ===== verification/Signtool.thy ===== *)
theory Signtool
  imports Release Flags
begin

section \<open>The command atom-sign\<close>

text \<open>
  cmd/atom-sign/main.go: the release tool. The result of a command is its exit status: 0 for done, 1
  for an operation that failed, 2 for a command line that is refused; what it prints is left out.
  \<open>time.ParseDuration\<close>, which computes with floating point, is the parameter \<open>dur\<close>.
\<close>

subsection \<open>The flag --bundle\<close>

definition zero_firmware :: firmware_spec where
  "zero_firmware = \<lparr>fs_name = [], fs_version = 0, fs_min_version = 0, fs_image_file = [], fs_image_url = [], fs_verity_hash = [],
     fs_hashtree_file = [], fs_hashtree_url = [], fs_chips = None, fs_kernel_min = [], fs_kernel_max = [],
     fs_critical_devices = None\<rparr>"

definition bundle_key :: "string \<Rightarrow> string \<Rightarrow> firmware_spec \<Rightarrow> firmware_spec option" where
  "bundle_key k v fw =
     (if k = ''name'' then Some (fw\<lparr>fs_name := v\<rparr>)
      else if k = ''img'' \<or> k = ''image'' then Some (fw\<lparr>fs_image_file := v\<rparr>)
      else if k = ''url'' then Some (fw\<lparr>fs_image_url := v\<rparr>)
      else if k = ''verity'' \<or> k = ''verity-hash'' then Some (fw\<lparr>fs_verity_hash := v\<rparr>)
      else if k = ''hashtree'' then Some (fw\<lparr>fs_hashtree_file := v\<rparr>)
      else if k = ''hashtree-url'' then Some (fw\<lparr>fs_hashtree_url := v\<rparr>)
      else if k = ''version'' then map_option (\<lambda>n. fw\<lparr>fs_version := n\<rparr>) (atoi v)
      else if k = ''min-version'' then map_option (\<lambda>n. fw\<lparr>fs_min_version := n\<rparr>) (atoi v)
      else if k = ''chips'' then Some (fw\<lparr>fs_chips := Some (split_on (CHR ''|'') v)\<rparr>)
      else if k = ''critical'' \<or> k = ''critical-devices'' then Some (fw\<lparr>fs_critical_devices := Some (split_on (CHR ''|'') v)\<rparr>)
      else if k = ''kernel-min'' then Some (fw\<lparr>fs_kernel_min := v\<rparr>)
      else if k = ''kernel-max'' then Some (fw\<lparr>fs_kernel_max := v\<rparr>)
      else None)"

definition bundle_field :: "string \<Rightarrow> firmware_spec \<Rightarrow> firmware_spec option" where
  "bundle_field kv fw = (case str_cut (CHR ''='') kv of None \<Rightarrow> None | Some (k, v) \<Rightarrow> bundle_key (trim_space k) v fw)"

fun bundle_values :: "string list \<Rightarrow> firmware_spec \<Rightarrow> firmware_spec option" where
  "bundle_values [] fw = Some fw"
| "bundle_values (kv # kvs) fw = Option.bind (bundle_field kv fw) (bundle_values kvs)"

definition parse_bundle :: "string \<Rightarrow> firmware_spec option" where
  "parse_bundle v = Option.bind (bundle_values (split_on (CHR '','') v) zero_firmware) (\<lambda>fw.
     if fs_name fw = [] \<or> fs_image_file fw = [] \<or> fs_image_url fw = [] \<or> fs_version fw = 0 then None else Some fw)"

definition bundle_flag :: flag_spec where
  "bundle_flag = \<lparr>fg_name = ''bundle'', fg_bool = False, fg_ok = (\<lambda>v. parse_bundle v \<noteq> None)\<rparr>"

definition bundles_of :: "settings \<Rightarrow> firmware_spec list" where
  "bundles_of st = List.map_filter (\<lambda>(n, v). if n = ''bundle'' then parse_bundle v else None) st"

subsection \<open>The commands\<close>

definition exit_code :: "'a io \<Rightarrow> int io" where
  "exit_code m = trying m (\<lambda>r. ret (case r of Inl e \<Rightarrow> 1 | Inr x \<Rightarrow> 0))"

text \<open>What follows \<open>if err := fs.Parse(rest); err != nil \<close>\<open>{ return 2 }\<close>.\<close>

definition with_flags :: "flag_spec list \<Rightarrow> string list \<Rightarrow> (settings \<Rightarrow> string list \<Rightarrow> int io) \<Rightarrow> int io" where
  "with_flags fs args k = (case parse_flags fs args of None \<Rightarrow> ret 2 | Some (st, rest) \<Rightarrow> k st rest)"

definition keygen_cmd :: "signer \<Rightarrow> string list \<Rightarrow> int io" where
  "keygen_cmd sg args = with_flags [str_flag ''priv'', str_flag ''pub''] args (\<lambda>st rest.
     exit_code (GenerateKeyFiles sg (str_value st ''priv'' ''root.key'') (str_value st ''pub'' ''root.pub'')))"

definition year_nanos :: int where
  "year_nanos = 365 * 24 * 3600 * 1000000000"

definition dur_flag :: "(string \<Rightarrow> int option) \<Rightarrow> string \<Rightarrow> flag_spec" where
  "dur_flag dur n = \<lparr>fg_name = n, fg_bool = False, fg_ok = (\<lambda>v. dur v \<noteq> None)\<rparr>"

definition dur_value :: "(string \<Rightarrow> int option) \<Rightarrow> settings \<Rightarrow> string \<Rightarrow> int \<Rightarrow> int" where
  "dur_value dur st n d = (case setting st n of None \<Rightarrow> d | Some v \<Rightarrow> (case dur v of None \<Rightarrow> d | Some t \<Rightarrow> t))"

definition or_else :: "string \<Rightarrow> string \<Rightarrow> string" where
  "or_else s d = (if s = [] then d else s)"

definition issue_cert_cmd :: "signer \<Rightarrow> (string \<Rightarrow> int option) \<Rightarrow> int \<Rightarrow> string list \<Rightarrow> int io" where
  "issue_cert_cmd sg dur now args =
     with_flags [str_flag ''root'', int_flag ''version'', dur_flag dur ''validity'', str_flag ''cert'', str_flag ''signing-key''] args (\<lambda>st rest.
       let version = int_value st ''version'' 0 in
       if version \<le> 0 then ret 2
       else exit_code (IssueCert sg (str_value st ''root'' ''root.key'')
         (or_else (str_value st ''cert'' []) (''signing-cert-v'' @ itoa version @ ''.json''))
         (or_else (str_value st ''signing-key'' []) (''signing-v'' @ itoa version @ ''.key''))
         version (dur_value dur st ''validity'' year_nanos) now))"

text \<open>The versions of \<open>--revoked\<close>; \<open>nil\<close> when there are none.\<close>

fun revoked_list :: "string list \<Rightarrow> int list option" where
  "revoked_list [] = Some []"
| "revoked_list (s # ss) =
     (if trim_space s = [] then revoked_list ss
      else Option.bind (atoi (trim_space s)) (\<lambda>n. map_option ((#) n) (revoked_list ss)))"

definition revoke_cmd :: "signer \<Rightarrow> int \<Rightarrow> string list \<Rightarrow> int io" where
  "revoke_cmd sg now args =
     with_flags [str_flag ''root'', int_flag ''min-version'', str_flag ''revoked'', str_flag ''out''] args (\<lambda>st rest.
       let out = str_value st ''out'' ''revocation/latest.json'' in
       (case revoked_list (split_on (CHR '','') (str_value st ''revoked'' [])) of
          None \<Rightarrow> ret 2
        | Some vs \<Rightarrow> exit_code (seqE (mkdir_all (path_dir (sg_file sg out))) (\<lambda>_.
            Revoke sg (str_value st ''root'' ''root.key'') out (int_value st ''min-version'' 0)
              (if vs = [] then None else Some vs) now))))"

definition manifest_flags :: "flag_spec list" where
  "manifest_flags = map str_flag [''out'', ''version'', ''min-version'', ''product-name'', ''product-version'', ''product-build'',
     ''rootfs'', ''rootfs-url'', ''kernelcache'', ''kc-url'', ''rootfs-verity-hash'', ''rootfs-hashtree'', ''rootfs-hashtree-url'',
     ''kc-sig'', ''kc-sig-url'', ''firmware'', ''firmware-url'', ''firmware-verity-hash'', ''firmware-hashtree'',
     ''firmware-hashtree-url'', ''loader'', ''loader-url'', ''loader-sig'', ''loader-sig-url'', ''recovery'', ''recovery-url'',
     ''recovery-sig'', ''recovery-sig-url'']
     @ map int_flag [''firmware-version'', ''firmware-min-version'', ''recovery-version''] @ [bundle_flag]"

definition release_options :: "settings \<Rightarrow> release_spec" where
  "release_options st = (let s = (\<lambda>n. str_value st n []) in
     \<lparr>rs_version = s ''version'', rs_min_version = s ''min-version'', rs_product_name = s ''product-name'',
      rs_product_version = s ''product-version'', rs_product_build = s ''product-build'',
      rs_rootfs_file = s ''rootfs'', rs_rootfs_url = s ''rootfs-url'', rs_rootfs_verity_hash = s ''rootfs-verity-hash'',
      rs_hashtree_file = s ''rootfs-hashtree'', rs_hashtree_url = s ''rootfs-hashtree-url'',
      rs_kc_file = s ''kernelcache'', rs_kc_url = s ''kc-url'', rs_kc_sig_file = s ''kc-sig'', rs_kc_sig_url = s ''kc-sig-url'',
      rs_loader_file = s ''loader'', rs_loader_url = s ''loader-url'', rs_loader_sig_file = s ''loader-sig'',
      rs_loader_sig_url = s ''loader-sig-url'', rs_recovery_version = int_value st ''recovery-version'' 0,
      rs_recovery_file = s ''recovery'', rs_recovery_url = s ''recovery-url'', rs_recovery_sig_file = s ''recovery-sig'',
      rs_recovery_sig_url = s ''recovery-sig-url''\<rparr>)"

definition single_firmware :: "settings \<Rightarrow> firmware_spec" where
  "single_firmware st = zero_firmware\<lparr>fs_version := int_value st ''firmware-version'' 0,
     fs_min_version := int_value st ''firmware-min-version'' 0, fs_image_file := str_value st ''firmware'' [],
     fs_image_url := str_value st ''firmware-url'' [], fs_verity_hash := str_value st ''firmware-verity-hash'' [],
     fs_hashtree_file := str_value st ''firmware-hashtree'' [], fs_hashtree_url := str_value st ''firmware-hashtree-url'' []\<rparr>"

text \<open>The firmware of the command line; \<open>None\<close> when the two ways to give it are mixed or one is incomplete.\<close>

definition firmware_options :: "settings \<Rightarrow> firmware_spec list option" where
  "firmware_options st =
     (let bundles = bundles_of st; f = single_firmware st in
      if 0 < length bundles \<and> fs_image_file f \<noteq> [] then None
      else if 0 < length bundles then Some bundles
      else if fs_image_file f \<noteq> [] then
        (if fs_image_url f = [] \<or> fs_verity_hash f = [] \<or> fs_hashtree_file f = [] \<or> fs_hashtree_url f = [] \<or> fs_version f = 0
         then None else Some [f])
      else Some [])"

definition manifest_cmd :: "signer \<Rightarrow> string list \<Rightarrow> int io" where
  "manifest_cmd sg args = with_flags manifest_flags args (\<lambda>st rest.
     let r = release_options st in
     if rs_version r = [] \<or> rs_rootfs_file r = [] \<or> rs_rootfs_url r = [] \<or> rs_kc_file r = [] \<or> rs_kc_url r = [] then ret 2
     else if rs_hashtree_file r = [] \<or> rs_hashtree_url r = [] \<or> rs_kc_sig_file r = [] \<or> rs_kc_sig_url r = [] \<or>
       rs_rootfs_verity_hash r = [] then ret 2
     else (case firmware_options st of
         None \<Rightarrow> ret 2
       | Some fw \<Rightarrow> exit_code (BuildManifest sg (str_value st ''out'' ''manifest.json'') r fw)))"

definition sign_cmd :: "signer \<Rightarrow> string list \<Rightarrow> int io" where
  "sign_cmd sg args = with_flags [str_flag ''priv'', str_flag ''manifest''] args (\<lambda>st rest.
     if str_value st ''manifest'' [] = [] then ret 2
     else exit_code (SignManifest sg (str_value st ''priv'' ''root.key'') (str_value st ''manifest'' [])))"

definition sign_run :: "signer \<Rightarrow> (string \<Rightarrow> int option) \<Rightarrow> int \<Rightarrow> string list \<Rightarrow> int io" where
  "sign_run sg dur now args =
     (case args of
        [] \<Rightarrow> ret 2
      | cmd # rest \<Rightarrow>
          if cmd = ''keygen'' then keygen_cmd sg rest
          else if cmd = ''issue-cert'' then issue_cert_cmd sg dur now rest
          else if cmd = ''revoke'' then revoke_cmd sg now rest
          else if cmd = ''manifest'' then manifest_cmd sg rest
          else if cmd = ''sign'' then sign_cmd sg rest
          else ret 2)"

subsection \<open>Exit states\<close>

text \<open>\<open>exits m\<close>: the command ends with one of its three states, and a refused command line has done nothing.\<close>

definition exits :: "int io \<Rightarrow> bool" where
  "exits m \<longleftrightarrow> (\<forall>w. \<exists>c w'. m w = (Inr c, w') \<and> c \<in> {0, 1, 2} \<and> (c = 2 \<longrightarrow> w' = w))"

lemma exits_ret [simp]: "exits (ret 2)"
  by (simp add: exits_def ret_def)

lemma exits_exit_code [simp]: "exits (exit_code m)"
  by (auto simp: exits_def exit_code_def trying_def ret_def split: prod.split sum.split)

lemma exits_with_flags: "(\<And>st rest. exits (k st rest)) \<Longrightarrow> exits (with_flags fs args k)"
  by (auto simp: with_flags_def split: option.split)

lemma exits_branch:
  "exits m \<Longrightarrow> exits n \<Longrightarrow> exits (if b then m else n)"
  "exits m \<Longrightarrow> (\<And>x. exits (k x)) \<Longrightarrow> exits (case y of None \<Rightarrow> m | Some x \<Rightarrow> k x)"
  "exits m \<Longrightarrow> (\<And>x xs. exits (h x xs)) \<Longrightarrow> exits (case ys of [] \<Rightarrow> m | x # xs \<Rightarrow> h x xs)"
  by (auto split: option.split list.split)

lemma exits_sign_run: "exits (sign_run sg dur now args)"
  unfolding sign_run_def keygen_cmd_def issue_cert_cmd_def revoke_cmd_def manifest_cmd_def sign_cmd_def Let_def
  by (intro exits_branch exits_with_flags exits_ret exits_exit_code)

text \<open>The release tool ends with one of three states; 2, for a refused command line, leaves the
  disk as it was.\<close>

theorem sign_run_exit_states:
  "\<exists>c w'. sign_run sg dur now args w = (Inr c, w') \<and> c \<in> {0, 1, 2} \<and> (c = 2 \<longrightarrow> w' = w)"
  using exits_sign_run unfolding exits_def by blast

subsection \<open>What the command manifest publishes\<close>

definition int_versions :: "firmware_spec \<Rightarrow> bool" where
  "int_versions fw \<longleftrightarrow> int64_range (fs_version fw) \<and> int64_range (fs_min_version fw)"

definition if_some :: "('a \<Rightarrow> bool) \<Rightarrow> 'a option \<Rightarrow> bool" where
  "if_some P x \<longleftrightarrow> (\<forall>y. x = Some y \<longrightarrow> P y)"

lemma if_some_branch:
  "if_some P a \<Longrightarrow> if_some P b \<Longrightarrow> if_some P (if c then a else b)" "if_some P None"
  by (simp_all add: if_some_def)

lemma bundle_key_ints:
  assumes "int_versions fw"
  shows "if_some int_versions (bundle_key k v fw)"
  unfolding bundle_key_def
  by (intro if_some_branch) (use assms in \<open>auto simp: if_some_def int_versions_def dest: atoi_range\<close>)

lemma bundle_values_ints: "int_versions fw \<Longrightarrow> if_some int_versions (bundle_values kvs fw)"
proof (induction kvs arbitrary: fw)
  case (Cons kv kvs)
  have "if_some int_versions (bundle_field kv fw)"
    using bundle_key_ints [OF Cons.prems] by (simp add: bundle_field_def if_some_branch(2) split: option.split prod.split)
  then show ?case using Cons.IH unfolding if_some_def bundle_values.simps bind_eq_Some_conv by blast
qed (simp add: if_some_def)

lemma zero_in_range: "int64_range 0"
  by (simp add: int64_range_def)

lemma parse_bundle_ints: "if_some int_versions (parse_bundle v)"
proof -
  have "int_versions zero_firmware" by (simp add: int_versions_def zero_firmware_def zero_in_range)
  then have "int_versions fw" if "bundle_values kvs zero_firmware = Some fw" for kvs fw
    using bundle_values_ints that by (simp add: if_some_def)
  then show ?thesis
    unfolding parse_bundle_def if_some_def bind_eq_Some_conv by (metis option.distinct(1) option.inject)
qed

lemma bundles_of_parsed: "f \<in> set (bundles_of st) \<Longrightarrow> \<exists>v. parse_bundle v = Some f"
  by (force simp: bundles_of_def List.map_filter_def split: if_splits)

lemma firmware_options_ints:
  assumes "firmware_options st = Some fw"
  shows "list_all int_versions fw"
proof -
  have "int_versions f" if "f \<in> set (bundles_of st)" for f
    using bundles_of_parsed [OF that] parse_bundle_ints by (auto simp: if_some_def)
  moreover have "int_versions (single_firmware st)"
    using int_value_range [OF zero_in_range] by (simp add: int_versions_def single_firmware_def)
  ultimately show ?thesis
    using assms by (auto simp: firmware_options_def Let_def list_all_iff split: if_splits)
qed

text \<open>C37. The command that builds a manifest publishes what its flags say: with state 0 the device accepts the
  manifest and finds in it the digests of the files.\<close>

theorem manifest_cmd_publishes:
  assumes "outputs sg ns (w_disk w)" and "str_value st ''out'' ''manifest.json'' \<in> set ns"
    and "parse_flags manifest_flags args = Some (st, rest)" and "manifest_cmd sg args w = (Inr 0, w')"
  shows "\<exists>fw. firmware_options st = Some fw \<and>
    published sg (w_disk w) (release_options st) fw (str_value st ''out'' ''manifest.json'') (w_disk w')"
proof -
  let ?out = "str_value st ''out'' ''manifest.json''"
  obtain fw where fw: "firmware_options st = Some fw"
    and run: "exit_code (BuildManifest sg ?out (release_options st) fw) w = (Inr 0, w')"
    using assms(3,4) by (auto simp: manifest_cmd_def with_flags_def Let_def ret_def split: if_splits option.splits)
  have ints: "int_options (release_options st) fw"
    using firmware_options_ints [OF fw] int_value_range [OF zero_in_range]
    by (simp add: int_options_def release_options_def Let_def int_versions_def [abs_def])
  obtain q w1 where build: "BuildManifest sg ?out (release_options st) fw w = (q, w1)" by fastforce
  then have "w1 = w'" "\<exists>p. q = Inr p"
    using run by (auto simp: exit_code_def trying_def ret_def split: sum.splits)
  then have "published sg (w_disk w) (release_options st) fw ?out (w_disk w')"
    using wpD [OF wp_BuildManifest [OF assms(1,2) ints] build] by auto
  with fw show ?thesis by blast
qed

definition sample_settings :: settings where
  "sample_settings = [(''version'', ''v2''), (''rootfs'', ''r''), (''rootfs-url'', ''u''), (''kernelcache'', ''k''), (''kc-url'', ''u''),
     (''rootfs-verity-hash'', ''00''), (''rootfs-hashtree'', ''t''), (''rootfs-hashtree-url'', ''u''), (''kc-sig'', ''s''), (''kc-sig-url'', ''u''),
     (''out'', ''m'')]"

definition sample_args :: "string list" where
  "sample_args = concat (map (\<lambda>(n, v). [''--'' @ n, v]) sample_settings)"

lemma sample_args_parse: "parse_flags manifest_flags sample_args = Some (sample_settings, [])"
  by code_simp

lemma sample_options: "release_options sample_settings = sample_release" "firmware_options sample_settings = Some []"
  "str_value sample_settings ''out'' ''manifest.json'' = ''m''"
  by code_simp+

lemma sample_manifest_cmd: "\<exists>w'. manifest_cmd sample_signer sample_args sample_builder = (Inr 0, w')"
proof -
  have "fst (BuildManifest sample_signer ''m'' sample_release [] sample_builder) = Inr ''m''"
    by (rule sample_build_calm [OF _ _ sample_outputs])
      (auto simp: sample_builder_def file_data_def lookup_put_file release_names_def)
  then obtain w' where "BuildManifest sample_signer ''m'' sample_release [] sample_builder = (Inr ''m'', w')"
    by (metis prod.collapse)
  then show ?thesis
    unfolding manifest_cmd_def with_flags_def sample_args_parse option.case prod.case sample_options Let_def
    by (simp add: sample_release_def exit_code_def trying_def ret_def)
qed

lemma manifest_cmd_publishes_witness:
  "\<exists>w'. published sample_signer (w_disk sample_builder) sample_release [] ''m'' (w_disk (w' :: world))"
proof -
  obtain w' where run: "manifest_cmd sample_signer sample_args sample_builder = (Inr 0, w')" using sample_manifest_cmd by blast
  have "''m'' \<in> set (release_names ''c'' ''key'' ''m'')" by (simp add: release_names_def)
  then show ?thesis
    using manifest_cmd_publishes [OF sample_outputs _ sample_args_parse run] by (auto simp: sample_options)
qed

end
