(* ===== verification/Succeeds.thy ===== *)
theory Succeeds
  imports Sys
begin

section \<open>Operations that cannot fail\<close>

text \<open>\<open>succeeds m\<close>: whatever fails below it, the operation returns a value.\<close>

definition succeeds :: "'a io \<Rightarrow> bool" where
  "succeeds m \<longleftrightarrow> (\<forall>w. \<exists>x w'. m w = (Inr x, w'))"

lemma succeeds_ret [simp]: "succeeds (ret x)"
  by (simp add: succeeds_def ret_def)

lemma succeeds_trying: "(\<And>r. succeeds (k r)) \<Longrightarrow> succeeds (trying m k)"
  unfolding succeeds_def trying_def by (metis old.prod.case surj_pair)

lemma succeeds_ignoring [simp]: "succeeds (ignoring m)"
  unfolding ignoring_def by (rule succeeds_trying) simp

lemma succeeds_seqE:
  assumes "succeeds m" and "\<And>x. succeeds (k x)"
  shows "succeeds (seqE m k)"
  unfolding succeeds_def
proof
  fix w
  obtain x w1 where "m w = (Inr x, w1)" using assms(1) unfolding succeeds_def by blast
  then show "\<exists>y w'. seqE m k w = (Inr y, w')" using assms(2) by (simp add: seqE_def trying_def succeeds_def)
qed

end
