(* ===== verification/Diag.thy ===== *)
theory Diag
  imports Civil Succeeds Flags Manifest
begin

section \<open>Boot diagnostics\<close>

text \<open>
  internal/diag/diag.go and cmd/sinty-diag/main.go: what is collected when a boot or an install
  fails, the full report and the compact one that fits a QR code. A source that is a command is
  run by the parameter \<open>dg_shell\<close>, its standard output; the compression of package
  \<open>compress/gzip\<close> is the parameter \<open>dg_gzip\<close>.
\<close>

record diag_env =
  dg_shell :: "string \<Rightarrow> string"
  dg_gzip :: "string \<Rightarrow> string"
  dg_sha256 :: "string \<Rightarrow> string"
  dg_now :: int
  dg_file :: "string \<Rightarrow> path"

record source =
  sr_label :: string
  sr_path :: string
  sr_cmd :: string
  sr_max :: int

record diag_config =
  dc_stage :: string
  dc_error :: string
  dc_sources :: "source list"

record diag_bundle =
  db_stage :: string
  db_error :: string
  db_when :: string
  db_sections :: "(string \<times> string) list"

definition DefaultConfig :: "string \<Rightarrow> string \<Rightarrow> diag_config" where
  "DefaultConfig stage errLine = \<lparr>dc_stage = stage, dc_error = errLine, dc_sources =
     [\<lparr>sr_label = ''cmdline'', sr_path = ''/proc/cmdline'', sr_cmd = [], sr_max = 0\<rparr>,
      \<lparr>sr_label = ''dmesg'', sr_path = [], sr_cmd = ''dmesg'', sr_max = 65536\<rparr>,
      \<lparr>sr_label = ''failed-units'', sr_path = [], sr_cmd = ''atomctl list-failed'', sr_max = 0\<rparr>,
      \<lparr>sr_label = ''session'', sr_path = ''/run/atom/boot.log'', sr_cmd = [], sr_max = 32768\<rparr>,
      \<lparr>sr_label = ''rescue'', sr_path = ''/run/sintylogs/rescue.log'', sr_cmd = [], sr_max = 16384\<rparr>]\<rparr>"

text \<open>The last bytes, all of them without a limit.\<close>

definition tail :: "string \<Rightarrow> int \<Rightarrow> string" where
  "tail b limit = (if 0 < limit \<and> limit < int (length b) then drop (length b - nat limit) b else b)"

subsection \<open>Collecting\<close>

definition read_source :: "diag_env \<Rightarrow> source \<Rightarrow> string io" where
  "read_source de s =
     (if sr_path s \<noteq> [] then trying (read_file (dg_file de (sr_path s))) (\<lambda>r. ret (case r of Inl e \<Rightarrow> [] | Inr b \<Rightarrow> b))
      else if sr_cmd s \<noteq> [] then ret (dg_shell de (sr_cmd s))
      else ret [])"

primrec collect_sources :: "diag_env \<Rightarrow> source list \<Rightarrow> (string \<times> string) list io" where
  "collect_sources de [] = ret []"
| "collect_sources de (s # ss) =
     seqE (read_source de s) (\<lambda>dat. seqE (collect_sources de ss) (\<lambda>rest. ret ((sr_label s, tail dat (sr_max s)) # rest)))"

definition Collect :: "diag_env \<Rightarrow> diag_config \<Rightarrow> diag_bundle io" where
  "Collect de cfg = seqE (collect_sources de (dc_sources cfg)) (\<lambda>secs.
     ret \<lparr>db_stage = dc_stage cfg, db_error = dc_error cfg, db_when = format_rfc3339 (dg_now de), db_sections = secs\<rparr>)"

subsection \<open>The reports\<close>

definition error_line :: "diag_bundle \<Rightarrow> string" where
  "error_line b = (if db_error b = [] then [] else ''error: '' @ db_error b @ [newline])"

definition section_text :: "string \<times> string \<Rightarrow> string" where
  "section_text s = (case s of (label, dat) \<Rightarrow>
     [newline] @ ''===== '' @ label @ '' ====='' @ [newline] @ dat @
     (if 0 < length dat \<and> last dat \<noteq> newline then [newline] else []))"

definition Full :: "diag_bundle \<Rightarrow> string" where
  "Full b = ''SINTY-DIAG stage='' @ db_stage b @ '' when='' @ db_when b @ [newline] @ error_line b @
     concat (map section_text (db_sections b))"

definition ID :: "diag_env \<Rightarrow> diag_bundle \<Rightarrow> string" where
  "ID de b = take 8 (hex_encode (dg_sha256 de (Full b)))"

definition lastLines :: "string \<Rightarrow> nat \<Rightarrow> string" where
  "lastLines b n =
     (let ls = split_on newline (rev (dropWhile (\<lambda>c. c = newline) (rev b)))
      in join_with [newline] (if n < length ls then drop (length ls - n) ls else ls))"

definition section_of :: "diag_bundle \<Rightarrow> string \<Rightarrow> string" where
  "section_of b label = (case List.find (\<lambda>s. fst s = label) (db_sections b) of None \<Rightarrow> [] | Some s \<Rightarrow> snd s)"

definition opt_line :: "string \<Rightarrow> string \<Rightarrow> string" where
  "opt_line label v = (if v = [] then [] else label @ v @ [newline])"

text \<open>The compact report without and with the last lines of the kernel log.\<close>

definition compact_head :: "diag_env \<Rightarrow> diag_bundle \<Rightarrow> string" where
  "compact_head de b = ''stage: '' @ db_stage b @ [newline] @ error_line b @ ''id: '' @ ID de b @ [newline] @
     ''when: '' @ db_when b @ [newline] @ opt_line ''cmdline: '' (trim_space (section_of b ''cmdline'')) @
     opt_line ''failed: '' (join_with '' '' (Prelude.fields (trim_space (section_of b ''failed-units''))))"

definition Compact :: "diag_env \<Rightarrow> diag_bundle \<Rightarrow> nat \<Rightarrow> string" where
  "Compact de b dmesgLines = compact_head de b @
     (let dm = section_of b ''dmesg'' in
      if 0 < length dm \<and> 0 < dmesgLines then ''dmesg-tail:'' @ [newline] @ lastLines dm dmesgLines @ [newline] else [])"

text \<open>\<open>base64.RawURLEncoding\<close>: the alphabet for addresses, without padding.\<close>

definition base64_raw_url :: "string \<Rightarrow> string" where
  "base64_raw_url s = map (\<lambda>c. if c = CHR ''+'' then CHR ''-'' else if c = CHR ''/'' then CHR ''_'' else c)
     (filter (\<lambda>c. c \<noteq> CHR ''='') (base64_encode s))"

definition EncodeQRPayload :: "diag_env \<Rightarrow> string \<Rightarrow> string" where
  "EncodeQRPayload de payload = ''SINTY-FAIL v1'' @ [newline] @ base64_raw_url (dg_gzip de payload)"

function compact_from :: "diag_env \<Rightarrow> diag_bundle \<Rightarrow> int \<Rightarrow> int \<Rightarrow> string \<times> string \<times> nat" where
  "compact_from de b budget lines0 =
     (let lines = (if lines0 < 0 then 0 else lines0); compact = Compact de b (nat lines); encoded = EncodeQRPayload de compact in
      if int (length encoded) \<le> budget \<or> lines = 0 then (compact, encoded, nat lines)
      else compact_from de b budget (lines - 4))"
  by pat_completeness auto

termination
  by (relation "measure (\<lambda>(de, b, budget, lines). nat lines)") auto

declare compact_from.simps [simp del]

definition CompactWithin :: "diag_env \<Rightarrow> diag_bundle \<Rightarrow> int \<Rightarrow> string \<times> string \<times> nat" where
  "CompactWithin de b budget = compact_from de b budget 40"

subsection \<open>The command sinty-diag\<close>

definition slash_char :: char where
  "slash_char = CHR ''/''"

definition dirOf :: "string \<Rightarrow> string" where
  "dirOf p = (if slash_char \<in> set p then rev (tl (dropWhile (\<lambda>c. c \<noteq> slash_char) (rev p))) else ''.'')"

text \<open>\<open>os.MkdirAll\<close>, which refuses the empty name \<open>dirOf\<close> makes of a file in the root directory.\<close>

definition make_dir :: "diag_env \<Rightarrow> string \<Rightarrow> unit io" where
  "make_dir de name = (if name = [] then throw (Sys ENOENT) else mkdir_all (dg_file de name))"

definition diag_flags :: "flag_spec list" where
  "diag_flags = [str_flag ''stage'', str_flag ''error'', str_flag ''out'', str_flag ''qr'', int_flag ''max-bytes'']"

text \<open>What is printed on the standard output; \<open>None\<close> when the flags are refused.\<close>

definition sinty_diag :: "diag_env \<Rightarrow> string list \<Rightarrow> string option io" where
  "sinty_diag de args =
     (case parse_flags diag_flags args of
        None \<Rightarrow> ret None
      | Some (st, _) \<Rightarrow>
          let out = str_value st ''out'' ''/run/sintylogs/diag-full.log''; qr = str_value st ''qr'' [] in
          seqE (Collect de (DefaultConfig (str_value st ''stage'' ''boot'') (str_value st ''error'' []))) (\<lambda>b.
          let payload = fst (snd (CompactWithin de b (int_value st ''max-bytes'' 1800))) in
          seqE (ignoring (seqE (make_dir de (dirOf out)) (\<lambda>_. write_file (dg_file de out) (Full b)))) (\<lambda>_.
          seqE (if qr = [] then ret () else ignoring (write_file (dg_file de qr) payload)) (\<lambda>_.
          ret (Some (payload @ [newline]))))))"

subsection \<open>Best effort\<close>

lemma succeeds_read_source: "succeeds (read_source de s)"
  by (simp add: read_source_def succeeds_trying)

lemma succeeds_collect: "succeeds (collect_sources de ss)"
  by (induction ss) (simp_all add: succeeds_seqE succeeds_read_source)

lemma succeeds_Collect: "succeeds (Collect de cfg)"
  unfolding Collect_def by (rule succeeds_seqE [OF succeeds_collect]) simp

subsection \<open>What the compact report keeps\<close>

text \<open>The lines that are tried, and whether the payload with so many of them fits.\<close>

definition fits :: "diag_env \<Rightarrow> diag_bundle \<Rightarrow> int \<Rightarrow> nat \<Rightarrow> bool" where
  "fits de b budget n \<longleftrightarrow> int (length (EncodeQRPayload de (Compact de b n))) \<le> budget"

lemma compact_from_step:
  "compact_from de b budget (int n) =
     (if fits de b budget n \<or> n = 0 then (Compact de b n, EncodeQRPayload de (Compact de b n), n)
      else compact_from de b budget (int n - 4))"
  by (subst compact_from.simps) (simp add: Let_def fits_def)

lemma compact_from_fours:
  "\<exists>n. compact_from de b budget (int (4 * m)) = (Compact de b n, EncodeQRPayload de (Compact de b n), n) \<and>
     (\<exists>j \<le> m. n = 4 * j \<and> (\<forall>i. j < i \<longrightarrow> i \<le> m \<longrightarrow> \<not> fits de b budget (4 * i))) \<and> (fits de b budget n \<or> n = 0)"
proof (induction m)
  case 0
  show ?case by (subst compact_from_step) auto
next
  case (Suc m)
  show ?case
  proof (cases "fits de b budget (4 * Suc m)")
    case True
    then show ?thesis by (subst compact_from_step) (auto intro!: exI [of _ "Suc m"])
  next
    case False
    have "int (4 * Suc m) - 4 = int (4 * m)" by simp
    then have step: "compact_from de b budget (int (4 * Suc m)) = compact_from de b budget (int (4 * m))"
      using False by (subst compact_from_step) simp
    obtain n j where "compact_from de b budget (int (4 * m)) = (Compact de b n, EncodeQRPayload de (Compact de b n), n)"
        "j \<le> m" "n = 4 * j" "\<forall>i. j < i \<longrightarrow> i \<le> m \<longrightarrow> \<not> fits de b budget (4 * i)" "fits de b budget n \<or> n = 0"
      using Suc by blast
    then show ?thesis unfolding step using False by (metis le_SucE le_SucI)
  qed
qed

text \<open>C40. The compact report.\<close>

theorem CompactWithin_fits:
  "\<exists>j \<le> 10. CompactWithin de b budget = (Compact de b (4 * j), EncodeQRPayload de (Compact de b (4 * j)), 4 * j) \<and>
     has_prefix (compact_head de b) (Compact de b (4 * j)) \<and> (fits de b budget (4 * j) \<or> j = 0) \<and>
     (\<forall>i. j < i \<and> i \<le> 10 \<longrightarrow> \<not> fits de b budget (4 * i))"
  using compact_from_fours [of de b budget 10] by (auto simp: CompactWithin_def Compact_def has_prefix_iff)

lemma collected_labels: "collect_sources de ss w = (Inr secs, w') \<Longrightarrow> map fst secs = map sr_label ss"
proof (induction ss arbitrary: w secs w')
  case (Cons s ss)
  obtain x w1 where 1: "read_source de s w = (Inr x, w1)" using succeeds_read_source unfolding succeeds_def by blast
  obtain xs w2 where 2: "collect_sources de ss w1 = (Inr xs, w2)" using succeeds_collect unfolding succeeds_def by blast
  show ?case using Cons.prems Cons.IH [OF 2] 1 2 by (auto simp: seqE_def trying_def ret_def)
qed (simp add: ret_def)

text \<open>The collector never fails: whatever cannot be read, a report with every section is printed.\<close>

theorem sinty_diag_best_effort:
  assumes "parse_flags diag_flags args = Some (st, rest)"
  shows "\<exists>b w'. sinty_diag de args w =
      (Inr (Some (fst (snd (CompactWithin de b (int_value st ''max-bytes'' 1800))) @ [newline])), w') \<and>
    db_stage b = str_value st ''stage'' ''boot'' \<and> db_error b = str_value st ''error'' [] \<and>
    db_when b = format_rfc3339 (dg_now de) \<and>
    map fst (db_sections b) = [''cmdline'', ''dmesg'', ''failed-units'', ''session'', ''rescue'']"
proof -
  let ?cfg = "DefaultConfig (str_value st ''stage'' ''boot'') (str_value st ''error'' [])"
  let ?out = "str_value st ''out'' ''/run/sintylogs/diag-full.log''" and ?qr = "str_value st ''qr'' []"
  obtain secs w1 where secs: "collect_sources de (dc_sources ?cfg) w = (Inr secs, w1)"
    using succeeds_collect unfolding succeeds_def by blast
  define b where "b = \<lparr>db_stage = dc_stage ?cfg, db_error = dc_error ?cfg, db_when = format_rfc3339 (dg_now de), db_sections = secs\<rparr>"
  have run: "Collect de ?cfg w = (Inr b, w1)" using secs by (simp add: Collect_def seqE_def trying_def ret_def b_def)
  let ?pay = "fst (snd (CompactWithin de b (int_value st ''max-bytes'' 1800)))"
  obtain w2 where 2: "ignoring (seqE (make_dir de (dirOf ?out)) (\<lambda>_. write_file (dg_file de ?out) (Full b))) w1 = (Inr (), w2)"
    using succeeds_ignoring unfolding succeeds_def by (metis old.unit.exhaust)
  have "succeeds (if ?qr = [] then ret () else ignoring (write_file (dg_file de ?qr) ?pay))" by simp
  then obtain w3 where 3: "(if ?qr = [] then ret () else ignoring (write_file (dg_file de ?qr) ?pay)) w2 = (Inr (), w3)"
    unfolding succeeds_def by (metis old.unit.exhaust)
  have "sinty_diag de args w = (Inr (Some (?pay @ [newline])), w3)"
    unfolding sinty_diag_def assms option.case prod.case Let_def using run 2 3 by (simp add: seqE_def trying_def ret_def)
  moreover have "map fst secs = [''cmdline'', ''dmesg'', ''failed-units'', ''session'', ''rescue'']"
    using collected_labels [OF secs] by (simp add: DefaultConfig_def)
  ultimately show ?thesis by (intro exI [of _ b] exI [of _ w3]) (simp add: b_def DefaultConfig_def)
qed

definition sample_diag :: diag_env where
  "sample_diag = \<lparr>dg_shell = (\<lambda>c. c), dg_gzip = (\<lambda>s. s), dg_sha256 = (\<lambda>_. replicate 32 (CHR ''h'')), dg_now = 0, dg_file = (\<lambda>n. [n])\<rparr>"

lemma sinty_diag_best_effort_witness:
  "\<exists>b w'. sinty_diag sample_diag [] (world_of empty_disk) = (Inr (Some (fst (snd (CompactWithin sample_diag b 1800)) @ [newline])), w') \<and>
    db_stage b = ''boot''"
proof -
  have p: "parse_flags diag_flags [] = Some ([], [])" by simp
  have "int_value [] ''max-bytes'' 1800 = 1800" "str_value [] ''stage'' ''boot'' = ''boot''"
    by (simp_all add: int_value_def str_value_def setting_def)
  then show ?thesis using sinty_diag_best_effort [OF p, of sample_diag "world_of empty_disk"] by auto
qed

lemma CompactWithin_fits_witness:
  "\<exists>j \<le> 10. snd (snd (CompactWithin sample_diag \<lparr>db_stage = ''boot'', db_error = [], db_when = [], db_sections = [(''dmesg'', ''panic'')]\<rparr> 1800)) = 4 * j"
proof -
  let ?b = "\<lparr>db_stage = ''boot'', db_error = [], db_when = [], db_sections = [(''dmesg'', ''panic'')]\<rparr>"
  from CompactWithin_fits [of sample_diag ?b 1800] show ?thesis by auto
qed

end
