(* ===== verification/RecoveryApi.thy ===== *)
theory RecoveryApi
  imports Auditlog Feed Daemon
begin

section \<open>The recovery API\<close>

text \<open>
  internal/recovery/recovery.go: the HTTP requests of the recovery image. The server of
  package \<open>srv\<close> finds the handler; an answer is the status code and the JSON value. A handler that
  panics gives no answer.
\<close>

datatype answer = Answer int json | Panics | No_route

definition error_answer :: "(errno \<Rightarrow> string) \<Rightarrow> error \<Rightarrow> answer" where
  "error_answer tx e = Answer 500 (JObj [(''error'', JStr (error_text tx e))])"

text \<open>\<open>GET /history\<close>; an empty path disables the history.\<close>

definition history_answer :: "(errno \<Rightarrow> string) \<Rightarrow> path \<Rightarrow> answer io" where
  "history_answer tx auditPath =
     (if auditPath = [] then ret (Answer 200 (JArr []))
      else trying (audit_Read auditPath) (\<lambda>r. ret (case r of
          Inl e \<Rightarrow> error_answer tx e
        | Inr events \<Rightarrow> Answer 200 (JArr (map enc_event events)))))"

text \<open>\<open>GET /status\<close>. The members of a map are printed by name.\<close>

definition status_json :: "deployment \<Rightarrow> json" where
  "status_json d = JObj
     [(''boot_attempts'', JInt (rf_boot_attempts (d_rootfs d))),
      (''current'', JStr (rf_current (d_rootfs d))),
      (''kernelcache'', JInt (kc_current_version (d_kernelcache d))),
      (''last_known_good'', JStr (rf_last_known_good (d_rootfs d))),
      (''pending'', JStr (rf_pending (d_rootfs d))),
      (''recovery'', JStr (rc_version (d_recovery d))),
      (''rollback'', JStr (rf_rollback (d_rootfs d))),
      (''security_level'', JInt (sc_level (d_security d)))]"

definition status_answer :: "(errno \<Rightarrow> string) \<Rightarrow> path \<Rightarrow> answer io" where
  "status_answer tx walPath =
     trying (Load walPath) (\<lambda>r. ret (case r of Inl e \<Rightarrow> error_answer tx e | Inr d \<Rightarrow> Answer 200 (status_json d)))"

text \<open>\<open>POST /rollback\<close>. The error of the second \<open>Load\<close> is dropped, and with it there is no record to
  read the current version of.\<close>

definition rollback_answer :: "(errno \<Rightarrow> string) \<Rightarrow> path \<Rightarrow> stage_dirs \<Rightarrow> answer io" where
  "rollback_answer tx walPath dirs =
     trying (otad_Rollback walPath dirs) (\<lambda>r. case r of
        Inl e \<Rightarrow> ret (error_answer tx e)
      | Inr msg \<Rightarrow> trying (Load walPath) (\<lambda>r2. ret (case r2 of
            Inl e \<Rightarrow> Panics
          | Inr d \<Rightarrow> Answer 200 (JObj [(''current'', JStr (rf_current (d_rootfs d))), (''result'', JStr msg)]))))"

definition recovery_request :: "(errno \<Rightarrow> string) \<Rightarrow> path \<Rightarrow> path \<Rightarrow> stage_dirs \<Rightarrow> string \<Rightarrow> string \<Rightarrow> answer io" where
  "recovery_request tx walPath auditPath dirs method target =
     (if method = ''GET'' \<and> target = ''/history'' then history_answer tx auditPath
      else if method = ''GET'' \<and> target = ''/status'' then status_answer tx walPath
      else if method = ''POST'' \<and> target = ''/rollback'' then rollback_answer tx walPath dirs
      else ret No_route)"

subsection \<open>Looking changes nothing\<close>

lemma quietly_audit_Read [simp]: "quietly (audit_Read p)"
  unfolding quietly_def audit_Read_def
  by (auto simp: wp_simps sys_defs quiet_def split: option.splits)

lemma quietly_then_ret: "quietly m \<Longrightarrow> quietly (trying m (\<lambda>r. ret (f r)))"
  unfolding quietly_def by (intro allI wp_tryingI) (auto simp: wp_simps)

lemma quietly_looking:
  "quietly (history_answer tx ap)" "quietly (status_answer tx p)" "quietly (ret x)"
proof -
  show r: "quietly (ret x)" for x :: 'x by (simp add: quietly_def wp_simps quiet_def)
  show "quietly (history_answer tx ap)" "quietly (status_answer tx p)"
    unfolding history_answer_def status_answer_def by (auto intro!: quietly_then_ret r)
qed

subsection \<open>Rolling back under failures\<close>

text \<open>The boot state is no file of the record.\<close>

definition rollback_paths :: "path \<Rightarrow> stage_dirs \<Rightarrow> bool" where
  "rollback_paths p dirs \<longleftrightarrow> plain_path p \<and> boot_state_path dirs \<notin> wal_files p"

text \<open>The disks of a rollback from \<open>d0\<close>: the record is the old one or rolled back.\<close>

definition rollback_disk :: "path \<Rightarrow> stage_dirs \<Rightarrow> disk \<Rightarrow> disk \<Rightarrow> bool" where
  "rollback_disk p dirs d0 h \<longleftrightarrow> wf_disk h \<and>
     (wal_of p h = wal_of p d0 \<or> (\<exists>d \<in> wal_versions p d0. wal_of p h = Some (stored (Rollback d)))) \<and>
     same_outside (insert (boot_state_path dirs) (wal_files p) \<union> dot_names) d0 h"

lemma wal_keeps_boot_state: "rollback_paths p dirs \<Longrightarrow> same_outside ({boot_state_path dirs} \<union> dot_names) d0 h \<Longrightarrow> wal_of p h = wal_of p d0"
  by (rule wal_same_outside [where S = "{boot_state_path dirs} \<union> dot_names"]) (auto simp: rollback_paths_def)

lemma wp_rollback_boot_state:
  assumes wf: "wf_disk (w_disk w)" and p: "rollback_paths p dirs"
  shows "wp (wrapE s (writeDeploymentBootState d dirs)) (\<lambda>r w'. evolves (\<lambda>h. rollback_disk p dirs (w_disk w) h \<and> wal_of p h = wal_of p (w_disk w)) w w') w"
proof (cases "sd_esp dirs = []")
  case True
  then show ?thesis using wf by (simp add: writeDeploymentBootState_def wp_simps rollback_disk_def)
next
  case False
  have "wp (WriteBootState (boot_state_path dirs) (boot_state_of d))
      (\<lambda>r w'. evolves (\<lambda>h. rollback_disk p dirs (w_disk w) h \<and> wal_of p h = wal_of p (w_disk w)) w w') w"
    by (rule wp_mono [OF wp_WriteBootState [OF wf boot_state_path_fresh(1)]])
      (auto simp: rollback_disk_def replaced_def wal_keeps_boot_state [OF p] elim!: evolves_mono intro: same_outside_mono)
  then show ?thesis
    unfolding writeDeploymentBootState_def wp_wrapE using False by (simp add: wp_def split: prod.splits sum.splits)
qed

lemma wp_rollback_save:
  assumes p: "rollback_paths p dirs" and ev: "evolves (\<lambda>h. rollback_disk p dirs (w_disk w) h \<and> wal_of p h = wal_of p (w_disk w)) w w1"
    and d: "d \<in> wal_versions p (w_disk w)" and st: "storable (Rollback d)"
  shows "wp (Save p (Rollback d)) (\<lambda>r w'. evolves (rollback_disk p dirs (w_disk w)) w w' \<and>
     (r = Inr () \<longrightarrow> saved p (Rollback d) (w_disk w'))) w1"
proof -
  have w1: "rollback_disk p dirs (w_disk w) (w_disk w1)" "wal_of p (w_disk w1) = wal_of p (w_disk w)"
    using evolves_final [OF ev] by auto
  have pl: "plain_path p" using p by (simp add: rollback_paths_def)
  have wf: "wf_disk (w_disk w1)" using w1 by (simp add: rollback_disk_def)
  have step: "rollback_disk p dirs (w_disk w) h" if "wal_step_disk p (Rollback d) (w_disk w1) h" for h
    using that w1 d by (auto simp: wal_step_disk_def rollback_disk_def intro: same_outside_trans same_outside_mono)
  have ev': "evolves (rollback_disk p dirs (w_disk w)) w w1" using ev by (auto elim: evolves_mono)
  show ?thesis
    by (rule wp_mono [OF wp_Save [OF wf pl st]]) (auto intro!: evolves_trans [OF ev'] elim: evolves_mono intro: step)
qed

lemma wp_otad_Rollback:
  assumes wf: "wf_disk (w_disk w)" and p: "rollback_paths p dirs"
    and st: "\<And>d. d \<in> wal_versions p (w_disk w) \<Longrightarrow> storable (Rollback d)"
  shows "wp (otad_Rollback p dirs) (\<lambda>r w'. evolves (rollback_disk p dirs (w_disk w)) w w' \<and>
     (\<forall>m. r = Inr m \<longrightarrow> (\<exists>d \<in> wal_versions p (w_disk w). saved p (Rollback d) (w_disk w') \<and>
        m = ''rolled back to '' @ rf_current (d_rootfs (Rollback d))))) w"
  unfolding otad_Rollback_def Let_def
proof (rule wp_seqEI [OF wp_Load])
  fix e w1 assume "quiet w w1 \<and> (\<forall>d. Inl e = Inr d \<longrightarrow> d \<in> wal_versions p (w_disk w))"
  then show "evolves (rollback_disk p dirs (w_disk w)) w w1 \<and> (\<forall>m. Inl e = Inr m \<longrightarrow>
      (\<exists>d \<in> wal_versions p (w_disk w). saved p (Rollback d) (w_disk w1) \<and> m = ''rolled back to '' @ rf_current (d_rootfs (Rollback d))))"
    using wf by (simp add: quiet_def evolves_def rollback_disk_def)
next
  fix d w1 assume 1: "quiet w w1 \<and> (\<forall>d'. Inr d = Inr d' \<longrightarrow> d' \<in> wal_versions p (w_disk w))"
  then have d: "d \<in> wal_versions p (w_disk w)" and q: "w_disk w1 = w_disk w" "w_history w1 = w_history w" by (simp_all add: quiet_def)
  have wf1: "wf_disk (w_disk w1)" using wf q by simp
  show "wp (seqE (wrapE ''rollback boot-state commit failed'' (writeDeploymentBootState (Rollback d) dirs)) (\<lambda>_.
      seqE (Save p (Rollback d)) (\<lambda>_. ret (''rolled back to '' @ rf_current (d_rootfs (Rollback d))))))
     (\<lambda>r w'. evolves (rollback_disk p dirs (w_disk w)) w w' \<and> (\<forall>m. r = Inr m \<longrightarrow>
      (\<exists>d \<in> wal_versions p (w_disk w). saved p (Rollback d) (w_disk w') \<and> m = ''rolled back to '' @ rf_current (d_rootfs (Rollback d))))) w1"
  proof (rule wp_seqEI [OF wp_rollback_boot_state [OF wf1 p]])
    fix e w2 assume "evolves (\<lambda>h. rollback_disk p dirs (w_disk w1) h \<and> wal_of p h = wal_of p (w_disk w1)) w1 w2"
    then show "evolves (rollback_disk p dirs (w_disk w)) w w2 \<and> (\<forall>m. Inl e = Inr m \<longrightarrow>
      (\<exists>d \<in> wal_versions p (w_disk w). saved p (Rollback d) (w_disk w2) \<and> m = ''rolled back to '' @ rf_current (d_rootfs (Rollback d))))"
      using q by (auto simp: evolves_def)
  next
    fix x w2 assume "evolves (\<lambda>h. rollback_disk p dirs (w_disk w1) h \<and> wal_of p h = wal_of p (w_disk w1)) w1 w2"
    then have "evolves (\<lambda>h. rollback_disk p dirs (w_disk w) h \<and> wal_of p h = wal_of p (w_disk w)) w w2"
      using q by (simp add: evolves_def)
    from wp_rollback_save [OF p this d st [OF d]]
    show "wp (seqE (Save p (Rollback d)) (\<lambda>_. ret (''rolled back to '' @ rf_current (d_rootfs (Rollback d)))))
       (\<lambda>r w'. evolves (rollback_disk p dirs (w_disk w)) w w' \<and> (\<forall>m. r = Inr m \<longrightarrow>
      (\<exists>d \<in> wal_versions p (w_disk w). saved p (Rollback d) (w_disk w') \<and> m = ''rolled back to '' @ rf_current (d_rootfs (Rollback d))))) w2"
      by (rule wp_seqEI) (use d in \<open>auto simp: wp_simps\<close>)
  qed
qed

subsection \<open>Properties\<close>

lemma saved_versions: "saved p d h \<Longrightarrow> storable d \<Longrightarrow> wal_versions p h = {stored d}"
  by (auto simp: saved_def wal_versions_def wal_at_new)

lemma stored_rootfs [simp]: "d_rootfs (stored d) = d_rootfs d"
  by (simp add: stored_def)

definition rollback_json :: "deployment \<Rightarrow> json" where
  "rollback_json d = JObj [(''current'', JStr (rf_current (d_rootfs d))), (''result'', JStr (''rolled back to '' @ rf_current (d_rootfs d)))]"

lemma wp_rollback_answer:
  assumes wf: "wf_disk (w_disk w)" and p: "rollback_paths p dirs"
    and st: "\<And>d. d \<in> wal_versions p (w_disk w) \<Longrightarrow> storable (Rollback d)"
  shows "wp (rollback_answer tx p dirs) (\<lambda>r w'. evolves (rollback_disk p dirs (w_disk w)) w w' \<and>
     (\<exists>a. r = Inr a \<and> (\<forall>j. a = Answer 200 j \<longrightarrow> (\<exists>d \<in> wal_versions p (w_disk w). saved p (Rollback d) (w_disk w') \<and> j = rollback_json (Rollback d))))) w"
  unfolding rollback_answer_def
proof (rule wp_tryingI [OF wp_otad_Rollback [OF wf p st]])
  fix r :: "error + string" and w1 assume 1: "evolves (rollback_disk p dirs (w_disk w)) w w1 \<and> (\<forall>m. r = Inr m \<longrightarrow> (\<exists>d \<in> wal_versions p (w_disk w).
     saved p (Rollback d) (w_disk w1) \<and> m = ''rolled back to '' @ rf_current (d_rootfs (Rollback d))))"
  show "wp (case r of Inl e \<Rightarrow> ret (error_answer tx e) | Inr msg \<Rightarrow> trying (Load p) (\<lambda>r2. ret (case r2 of Inl e \<Rightarrow> Panics
          | Inr d \<Rightarrow> Answer 200 (JObj [(''current'', JStr (rf_current (d_rootfs d))), (''result'', JStr msg)]))))
     (\<lambda>r w'. evolves (rollback_disk p dirs (w_disk w)) w w' \<and>
     (\<exists>a. r = Inr a \<and> (\<forall>j. a = Answer 200 j \<longrightarrow> (\<exists>d \<in> wal_versions p (w_disk w). saved p (Rollback d) (w_disk w') \<and> j = rollback_json (Rollback d))))) w1"
  proof (cases r)
    case (Inl e)
    then show ?thesis using 1 by (simp add: wp_simps error_answer_def)
  next
    case (Inr m)
    with 1 obtain d where d: "d \<in> wal_versions p (w_disk w)" "saved p (Rollback d) (w_disk w1)" "m = ''rolled back to '' @ rf_current (d_rootfs (Rollback d))"
      by auto
    have ev: "evolves (rollback_disk p dirs (w_disk w)) w w1" using 1 by simp
    have "wp (trying (Load p) (\<lambda>r2. ret (case r2 of Inl e \<Rightarrow> Panics
          | Inr d \<Rightarrow> Answer 200 (JObj [(''current'', JStr (rf_current (d_rootfs d))), (''result'', JStr m)]))))
     (\<lambda>r w'. evolves (rollback_disk p dirs (w_disk w)) w w' \<and>
     (\<exists>a. r = Inr a \<and> (\<forall>j. a = Answer 200 j \<longrightarrow> (\<exists>d \<in> wal_versions p (w_disk w). saved p (Rollback d) (w_disk w') \<and> j = rollback_json (Rollback d))))) w1"
      by (rule wp_tryingI [OF wp_Load])
        (use ev d saved_versions [OF d(2) st [OF d(1)]] in \<open>auto simp: wp_simps quiet_def evolves_def rollback_json_def split: sum.splits intro!: bexI [of _ d]\<close>)
    with Inr show ?thesis by simp
  qed
qed

text \<open>C10. The recovery API under failures.  A request that looks leaves the disk as it is.  A rollback
  touches only the record with its backup and the boot state; at every moment the record is the one
  before or a rolled back one, and an answer 200 says that the rolled back record is on the disk and
  names its current version.\<close>

theorem recovery_request_safe:
  assumes "wf_disk (w_disk w)" and "rollback_paths p dirs" and "\<forall>d \<in> wal_versions p (w_disk w). storable (Rollback d)"
    and "recovery_request tx p auditPath dirs method target w = (r, w')"
  shows "evolves (\<lambda>h. (wal_of p h = wal_of p (w_disk w) \<or> (\<exists>d \<in> wal_versions p (w_disk w). wal_of p h = Some (stored (Rollback d)))) \<and>
           same_outside (insert (boot_state_path dirs) (wal_files p) \<union> dot_names) (w_disk w) h) w w' \<and>
    (method \<noteq> ''POST'' \<longrightarrow> w_disk w' = w_disk w) \<and>
    (\<forall>j. method = ''POST'' \<and> r = Inr (Answer 200 j) \<longrightarrow>
       (\<exists>d \<in> wal_versions p (w_disk w). saved p (Rollback d) (w_disk w') \<and> j = rollback_json (Rollback d)))"
proof (cases "method = ''POST'' \<and> target = ''/rollback''")
  case True
  then have "rollback_answer tx p dirs w = (r, w')" using assms(4) by (simp add: recovery_request_def)
  from wpD [OF wp_rollback_answer [OF assms(1,2)] this] assms(3) True
  show ?thesis by (auto simp: rollback_disk_def elim!: evolves_mono)
next
  case False
  have "quietly (recovery_request tx p auditPath dirs method target)"
    using False by (auto simp: recovery_request_def quietly_looking)
  from wpD [OF quietlyD [OF this] assms(4)] have "quiet w w'" .
  moreover have "r = Inr No_route" if "method = ''POST''" using that False assms(4) by (auto simp: recovery_request_def ret_def)
  ultimately show ?thesis using assms(1) by (auto simp: quiet_def evolves_def)
qed

lemma rollback_answer_calm:
  assumes calm: "calm (3 + k) w" and p: "rollback_paths p dirs" and esp: "sd_esp dirs \<noteq> []" and d: "wal_of p (w_disk w) = Some d" and st: "storable (Rollback d)"
  shows "\<exists>w'. rollback_answer tx p dirs w = (Inr (Answer 200 (rollback_json (Rollback d))), w') \<and> w_faults w' = [] \<and>
     wal_of p (w_disk w') = Some (stored (Rollback d)) \<and>
     file_data (w_disk w') (boot_state_path dirs) = Some (Marshal (boot_state_of (Rollback d)))"
proof -
  let ?b = "boot_state_path dirs"
  have plain: "plain_path p" "?b \<notin> wal_files p" using p by (simp_all add: rollback_paths_def)
  have nf: "w_faults w = []" using calm by (simp add: calm_def)
  have l: "Load p w = (Inr d, w)" using Load_calm [OF nf] d by simp
  have "calm (Suc (2 + k)) w" using calm by (simp add: numeral_3_eq_3)
  from calm_WriteBootState [OF this boot_state_path_fresh(1), where b = "boot_state_of (Rollback d)"]
  obtain w1 where w1: "WriteBootState ?b (boot_state_of (Rollback d)) w = (Inr (), w1)" "calm (2 + k) w1"
    "lookup (w_disk w1) = (lookup (w_disk w))(?b := Some \<lparr>ino_data = Marshal (boot_state_of (Rollback d)), ino_synced = True\<rparr>)" by blast
  obtain w2 where w2: "Save p (Rollback d) w1 = (Inr (), w2)" "calm k w2" "saved p (Rollback d) (w_disk w2)" "same_outside (wal_files p) (w_disk w1) (w_disk w2)"
    using calm_Save [OF w1(2) plain(1)] by blast
  have nf2: "w_faults w2 = []" using w2(2) by (simp add: calm_def)
  have wal2: "wal_of p (w_disk w2) = Some (stored (Rollback d))" by (rule saved_content [OF st w2(3)])
  have roll: "otad_Rollback p dirs w = (Inr (''rolled back to '' @ rf_current (d_rootfs (Rollback d))), w2)"
    using w1(1) w2(1) esp l
    by (simp add: otad_Rollback_def writeDeploymentBootState_def Let_def seqE_def trying_def wrapE_def ret_def)
  have "lookup (w_disk w2) ?b = lookup (w_disk w1) ?b" using w2(4) plain(2) by (simp add: same_outside_def)
  then have "file_data (w_disk w2) ?b = Some (Marshal (boot_state_of (Rollback d)))"
    using w1(3) by (simp add: file_data_def)
  moreover have "rollback_answer tx p dirs w = (Inr (Answer 200 (rollback_json (Rollback d))), w2)"
    unfolding rollback_answer_def trying_def roll using Load_calm [OF nf2] wal2 by (simp add: ret_def rollback_json_def)
  ultimately show ?thesis using wal2 nf2 by blast
qed

text \<open>C9. The recovery floor needs no network.  Without failures a rollback of a device that has a last
  known good version answers with that version, the boot state, which names a slot and no version, selects the
  active slot, and the status reports the version as current with nothing pending.\<close>

theorem recovery_rollback_restores:
  assumes "calm (3 + k) w" and "rollback_paths p dirs" and "sd_esp dirs \<noteq> []"
    and "wal_of p (w_disk w) = Some d" and "storable (Rollback d)" and "rf_last_known_good (d_rootfs d) = v" and "v \<noteq> []"
  shows "\<exists>w'. recovery_request tx p auditPath dirs ''POST'' ''/rollback'' w =
       (Inr (Answer 200 (JObj [(''current'', JStr v), (''result'', JStr (''rolled back to '' @ v))])), w') \<and>
     file_data (w_disk w') (boot_state_path dirs) = Some (Marshal (boot_state_of (Rollback d))) \<and> bs_target (boot_state_of (Rollback d)) = ''active'' \<and>
     (\<exists>ms. recovery_request tx p auditPath dirs ''GET'' ''/status'' w' = (Inr (Answer 200 (JObj ms)), w') \<and>
        map_of ms ''current'' = Some (JStr v) \<and> map_of ms ''pending'' = Some (JStr []))"
proof -
  obtain w' where w': "rollback_answer tx p dirs w = (Inr (Answer 200 (rollback_json (Rollback d))), w')" "w_faults w' = []"
     "wal_of p (w_disk w') = Some (stored (Rollback d))" "file_data (w_disk w') (boot_state_path dirs) = Some (Marshal (boot_state_of (Rollback d)))"
    using rollback_answer_calm [OF assms(1-5)] by blast
  have cur: "rf_current (d_rootfs (Rollback d)) = v" "rf_pending (d_rootfs (Rollback d)) = []"
    using assms(6,7) by (simp_all add: Rollback_def Let_def)
  have load: "Load p w' = (Inr (stored (Rollback d)), w')" using Load_calm [OF w'(2)] w'(3) by simp
  have "bs_target (boot_state_of (Rollback d)) = ''active''" using cur by (simp add: boot_state_of_def HasPending_def NeedsRecovery_def)
  moreover have "status_answer tx p w' = (Inr (Answer 200 (status_json (stored (Rollback d)))), w')"
    using load by (simp add: status_answer_def trying_def ret_def)
  ultimately show ?thesis
    using w'(1,4) cur by (auto simp: recovery_request_def rollback_json_def status_json_def)
qed

subsection \<open>A device with a failed candidate\<close>

definition sample_stuck :: disk where
  "sample_stuck = put_file sample_path (marshal sample_storable) (put_file (path_suffix sample_path BakSuffix) (marshal sample_storable) empty_disk)"

definition recovery_dirs :: stage_dirs where
  "recovery_dirs = \<lparr>sd_rootfs = [''rootfs''], sd_esp = [''esp''], sd_firmware = []\<rparr>"

lemma sample_stuck_facts:
  "clean sample_stuck" "saved sample_path sample_storable sample_stuck" "rollback_paths sample_path recovery_dirs"
  "storable (Rollback sample_storable)" "rf_last_known_good (d_rootfs sample_storable) = ''v42''"
proof -
  have ne: "path_suffix sample_path BakSuffix \<noteq> sample_path" by code_simp
  show "saved sample_path sample_storable sample_stuck" using ne by (simp add: sample_stuck_def saved_def lookup_put_file)
  have "sample_path \<notin> dot_names" "path_suffix sample_path BakSuffix \<notin> dot_names" using plain_path_names [OF sample_path_ok] by simp_all
  then show "clean sample_stuck" by (auto simp: clean_def sample_stuck_def put_file_def empty_disk_def wf_disk_def)
  have "boot_state_path recovery_dirs \<notin> wal_files sample_path" by code_simp
  then show "rollback_paths sample_path recovery_dirs" by (simp add: rollback_paths_def sample_path_ok)
  show "storable (Rollback sample_storable)" "rf_last_known_good (d_rootfs sample_storable) = ''v42''" by code_simp+
qed

lemma sample_stuck_record: "wal_versions sample_path sample_stuck = {sample_storable}" "wal_of sample_path sample_stuck = Some sample_storable"
  using saved_versions [OF sample_stuck_facts(2) sample_storable_ok(1)] saved_content [OF sample_storable_ok(1) sample_stuck_facts(2)]
  by (simp_all add: sample_storable_ok(2))

lemma recovery_request_safe_witness:
  "evolves (\<lambda>h. wal_of sample_path h \<in> {Some sample_storable, Some (stored (Rollback sample_storable))}) (world_of sample_stuck)
     (snd (recovery_request (\<lambda>_. []) sample_path [] recovery_dirs ''POST'' ''/rollback'' (world_of sample_stuck)))"
proof -
  have d: "w_disk (world_of sample_stuck) = sample_stuck" by (simp add: world_of_def)
  have "wf_disk (w_disk (world_of sample_stuck))" "\<forall>d \<in> wal_versions sample_path (w_disk (world_of sample_stuck)). storable (Rollback d)"
    using sample_stuck_facts(1,4) by (simp_all add: d clean_def sample_stuck_record)
  from recovery_request_safe [OF this(1) sample_stuck_facts(3) this(2) prod.collapse [symmetric], THEN conjunct1]
  show ?thesis by (rule evolves_mono) (auto simp: d sample_stuck_record)
qed

lemma recovery_rollback_restores_witness:
  "\<exists>w'. recovery_request (\<lambda>_. []) sample_path [] recovery_dirs ''POST'' ''/rollback'' (world_of sample_stuck) =
       (Inr (Answer 200 (JObj [(''current'', JStr ''v42''), (''result'', JStr ''rolled back to v42'')])), w')"
proof -
  have "calm (3 + 5) (world_of sample_stuck)" using calm_world_of [OF sample_stuck_facts(1), of 8] by simp
  moreover have "wal_of sample_path (w_disk (world_of sample_stuck)) = Some sample_storable" by (simp add: world_of_def sample_stuck_record)
  ultimately show ?thesis
    using recovery_rollback_restores [OF _ sample_stuck_facts(3) _ _ sample_stuck_facts(4,5), of 5 "world_of sample_stuck"]
    by (auto simp: recovery_dirs_def)
qed

end
