(* ===== verification/Atomd.thy ===== *)
theory Atomd
  imports RecoveryApi Civil Flags Succeeds
begin

section \<open>The commands atomd and fw-verify\<close>

text \<open>
  cmd/atomd/main.go and loader.go: the commands of the update daemon, and cmd/fw-verify, the check of
  the firmware at boot. A command gives its exit code and the lines of the standard output.
  Parameters are the scheduler of package \<open>scheduler\<close> (whether it starts with the given
  job, and how often the job fires before the signal that ends the daemon, one firing after the other),
  the server of package \<open>srv\<close> (the requests it is asked and whether it ends with an error), the
  files behind names, and the time of each line of the update history.
\<close>

record atomd_env =
  ad_env :: env
  ad_errno :: "errno \<Rightarrow> string"
  ad_file :: "string \<Rightarrow> path"
  ad_time :: "nat \<Rightarrow> int"
  ad_schedule :: "string option \<Rightarrow> nat option"
  ad_listen :: "string \<Rightarrow> (string \<times> string) list \<times> bool"
  ad_version :: string

type_synonym command = "(int \<times> string list) io"

definition report :: "string io \<Rightarrow> command" where
  "report m = trying m (\<lambda>r. ret (case r of Inl e \<Rightarrow> (1, []) | Inr msg \<Rightarrow> (0, [msg])))"

text \<open>What follows \<open>if err := fs.Parse(rest); err != nil \<close>\<open>{ return 2 }\<close>, and
  \<open>pub, err := os.ReadFile(name)\<close> with \<open>return 1\<close>.\<close>

definition command_flags :: "flag_spec list \<Rightarrow> string list \<Rightarrow> (settings \<Rightarrow> string list \<Rightarrow> command) \<Rightarrow> command" where
  "command_flags fs args k = (case parse_flags fs args of None \<Rightarrow> ret (2, []) | Some (st, rest) \<Rightarrow> k st rest)"

definition with_file :: "atomd_env \<Rightarrow> string \<Rightarrow> (string \<Rightarrow> command) \<Rightarrow> command" where
  "with_file ad name k = trying (read_file (ad_file ad name)) (\<lambda>r. case r of Inl e \<Rightarrow> ret (1, []) | Inr s \<Rightarrow> k s)"

subsection \<open>Settings\<close>

text \<open>A directory that is not set stays so.\<close>

definition dir_at :: "atomd_env \<Rightarrow> string \<Rightarrow> path" where
  "dir_at ad name = (if name = [] then [] else ad_file ad name)"

definition wal_setting :: "atomd_env \<Rightarrow> settings \<Rightarrow> path" where
  "wal_setting ad st = ad_file ad (str_value st ''wal'' ''/boot/rootfs/deployment.json'')"

definition esp_setting :: "atomd_env \<Rightarrow> settings \<Rightarrow> path" where
  "esp_setting ad st = dir_at ad (str_value st ''esp-dir'' ''/boot/efi/EFI/atom'')"

definition rootfs_setting :: "atomd_env \<Rightarrow> settings \<Rightarrow> path" where
  "rootfs_setting ad st = dir_at ad (str_value st ''rootfs-dir'' ''/boot/rootfs'')"

definition firmware_setting :: "atomd_env \<Rightarrow> settings \<Rightarrow> path" where
  "firmware_setting ad st = dir_at ad (str_value st ''firmware-dir'' ''/boot/firmware'')"

definition slot_dirs :: "atomd_env \<Rightarrow> settings \<Rightarrow> stage_dirs" where
  "slot_dirs ad st = \<lparr>sd_rootfs = rootfs_setting ad st, sd_esp = esp_setting ad st, sd_firmware = []\<rparr>"

definition all_dirs :: "atomd_env \<Rightarrow> settings \<Rightarrow> stage_dirs" where
  "all_dirs ad st = (slot_dirs ad st)\<lparr>sd_firmware := firmware_setting ad st\<rparr>"

definition health_setting :: "atomd_env \<Rightarrow> settings \<Rightarrow> path" where
  "health_setting ad st = ad_file ad (str_value st ''health-dir'' ''/etc/atom/health.d'')"

definition marker_setting :: "settings \<Rightarrow> string" where
  "marker_setting st = str_value st ''installed-marker'' ''/run/atom/installed''"

text \<open>The hardware counter when both of its commands are given, otherwise the file counter.\<close>

definition pickCounter :: "path \<Rightarrow> string \<Rightarrow> string \<Rightarrow> counter_store" where
  "pickCounter filePath readCmd advanceCmd =
     (if readCmd \<noteq> [] \<and> advanceCmd \<noteq> [] then CommandCounter readCmd advanceCmd else FileCounter filePath)"

definition counter_setting :: "atomd_env \<Rightarrow> settings \<Rightarrow> counter_store" where
  "counter_setting ad st = pickCounter (ad_file ad (str_value st ''counter'' ''/var/lib/atom/anti-rollback''))
     (str_value st ''counter-read'' []) (str_value st ''counter-advance'' [])"

text \<open>Any error of \<open>Stat\<close> reads as not installed.\<close>

definition isInstalled :: "atomd_env \<Rightarrow> string \<Rightarrow> bool io" where
  "isInstalled ad marker = exists_file (ad_file ad marker)"

definition live_line :: "string \<Rightarrow> string \<Rightarrow> string" where
  "live_line marker what = ''atomd: live/uninstalled system (no '' @ marker @ ''), '' @ what"

subsection \<open>The daemon\<close>

text \<open>Best effort: an error of the update history is dropped.\<close>

definition record_event :: "atomd_env \<Rightarrow> string \<Rightarrow> nat \<Rightarrow> string \<Rightarrow> string \<Rightarrow> unit io" where
  "record_event ad auditPath n action detail =
     (if auditPath = [] then ret () else ignoring (Append (ad_file ad auditPath) action detail (format_rfc3339 (ad_time ad n))))"

text \<open>The job; its lines.\<close>

definition update_check :: "atomd_env \<Rightarrow> string \<Rightarrow> nat \<Rightarrow> string io \<Rightarrow> string list io" where
  "update_check ad auditPath n m =
     trying m (\<lambda>r. case r of
        Inl e \<Rightarrow> ret []
      | Inr msg \<Rightarrow> seqE (record_event ad auditPath n ''stage'' msg) (\<lambda>_. ret [''atomd: '' @ msg]))"

primrec update_checks :: "atomd_env \<Rightarrow> string \<Rightarrow> string io \<Rightarrow> nat \<Rightarrow> string list io" where
  "update_checks ad auditPath m 0 = ret []"
| "update_checks ad auditPath m (Suc n) =
     seqE (update_checks ad auditPath m n) (\<lambda>before.
     seqE (update_check ad auditPath (Suc n) m) (\<lambda>out. ret (before @ out)))"

definition confirm_boot :: "atomd_env \<Rightarrow> path \<Rightarrow> path \<Rightarrow> counter_store \<Rightarrow> string \<Rightarrow> stage_dirs \<Rightarrow> string list io" where
  "confirm_boot ad wal healthDir store auditPath dirs =
     trying (BootSuccess (ad_env ad) wal healthDir (Some store) dirs) (\<lambda>r. case r of
        Inl e \<Rightarrow> ret []
      | Inr msg \<Rightarrow> seqE (record_event ad auditPath 0 ''boot-success'' msg) (\<lambda>_. ret [msg]))"

definition poll_updates :: "atomd_env \<Rightarrow> path \<Rightarrow> string \<Rightarrow> string \<Rightarrow> string \<Rightarrow> string \<Rightarrow> string \<Rightarrow> stage_dirs \<Rightarrow> command" where
  "poll_updates ad wal auditPath manifestURL revocationURL pubkeyPath cron dirs =
     (if manifestURL = []
      then (case ad_schedule ad None of None \<Rightarrow> ret (1, []) | Some _ \<Rightarrow> ret (0, []))
      else with_file ad pubkeyPath (\<lambda>pubkey.
        case ad_schedule ad (Some cron) of
          None \<Rightarrow> ret (1, [])
        | Some n \<Rightarrow> seqE (update_checks ad auditPath (Stage (ad_env ad) wal manifestURL revocationURL pubkey dirs) n) (\<lambda>out. ret (0, out))))"

definition runDaemon :: "atomd_env \<Rightarrow> path \<Rightarrow> path \<Rightarrow> counter_store \<Rightarrow> string \<Rightarrow> string \<Rightarrow> string \<Rightarrow> string \<Rightarrow> string \<Rightarrow> string \<Rightarrow> stage_dirs \<Rightarrow> command" where
  "runDaemon ad wal healthDir store auditPath manifestURL revocationURL pubkeyPath cron marker dirs =
     seqE (isInstalled ad marker) (\<lambda>installed.
       if \<not> installed then ret (0, [live_line marker ''staying inert: no boot-success, no counter, no update checks''])
       else seqE (confirm_boot ad wal healthDir store auditPath dirs) (\<lambda>out.
            seqE (poll_updates ad wal auditPath manifestURL revocationURL pubkeyPath cron dirs) (\<lambda>(code, lines). ret (code, out @ lines))))"

subsection \<open>The boot loader and the recovery image\<close>

definition pubkey_setting :: "settings \<Rightarrow> string" where
  "pubkey_setting st = str_value st ''pubkey'' ''/etc/atom-fw-root.pub''"

definition esp_only :: "atomd_env \<Rightarrow> settings \<Rightarrow> stage_dirs" where
  "esp_only ad st = \<lparr>sd_rootfs = [], sd_esp = esp_setting ad st, sd_firmware = []\<rparr>"

definition loader_flags :: "flag_spec list" where
  "loader_flags = map str_flag [''esp-dir'', ''wal'', ''pubkey'', ''manifest'', ''image'', ''sig''] @ [bool_flag ''retry'']"

definition signature_setting :: "settings \<Rightarrow> string \<Rightarrow> string" where
  "signature_setting st img = (let sig = str_value st ''sig'' [] in if sig = [] then img @ ''.sig'' else sig)"

definition loader_repair :: "atomd_env \<Rightarrow> settings \<Rightarrow> command" where
  "loader_repair ad st =
     (let image = str_value st ''image'' [] in
      if image = [] then ret (2, [])
      else with_file ad (pubkey_setting st) (\<lambda>pub.
           with_file ad image (\<lambda>img.
           with_file ad (signature_setting st image) (\<lambda>sig.
           report (RepairLoader (ad_env ad) (esp_only ad st) img sig pub)))))"

definition loader_update :: "atomd_env \<Rightarrow> settings \<Rightarrow> command" where
  "loader_update ad st =
     (let manifest = str_value st ''manifest'' [] in
      if manifest = [] then ret (2, [])
      else with_file ad (pubkey_setting st) (\<lambda>pub.
           report (StageLoader (ad_env ad) (wal_setting ad st) manifest [] pub (esp_only ad st) (bool_value st ''retry''))))"

definition runLoader :: "atomd_env \<Rightarrow> string list \<Rightarrow> command" where
  "runLoader ad args =
     (case args of
        [] \<Rightarrow> ret (2, [])
      | sub # rest \<Rightarrow> command_flags loader_flags rest (\<lambda>st _.
          if sub = ''status'' then
            seqE (ReadLoaderStatus (esp_only ad st)) (\<lambda>ls.
            ret (0, [json_indent 0 (JObj (loader_members ls))]))
          else if sub = ''update'' then loader_update ad st
          else if sub = ''repair'' then loader_repair ad st
          else ret (2, [])))"

definition runRecovery :: "atomd_env \<Rightarrow> string list \<Rightarrow> command" where
  "runRecovery ad args =
     (case args of
        [] \<Rightarrow> ret (2, [])
      | sub # rest \<Rightarrow>
          if sub \<noteq> ''update'' then ret (2, [])
          else command_flags (map str_flag [''esp-dir'', ''wal'', ''pubkey'', ''manifest'']) rest (\<lambda>st _.
            let manifest = str_value st ''manifest'' [] in
            if manifest = [] then ret (2, [])
            else with_file ad (pubkey_setting st) (\<lambda>pub.
              report (StageRecovery (ad_env ad) (wal_setting ad st) manifest [] pub (esp_only ad st)))))"

subsection \<open>The command line\<close>

definition needs_one :: "string list \<Rightarrow> (string \<Rightarrow> command) \<Rightarrow> command" where
  "needs_one rest k = (case rest of [v] \<Rightarrow> k v | _ \<Rightarrow> ret (2, []))"

definition init_cmd :: "atomd_env \<Rightarrow> string list \<Rightarrow> command" where
  "init_cmd ad args = command_flags (map str_flag [''wal'', ''device-id'']) args (\<lambda>st rest.
     needs_one rest (\<lambda>v. report (Init (ad_env ad) (wal_setting ad st) (str_value st ''device-id'' ''unknown'') v)))"

definition run_flags :: "flag_spec list" where
  "run_flags = map str_flag [''wal'', ''health-dir'', ''manifest'', ''pubkey'', ''cron'', ''revocation'', ''counter'', ''counter-read'',
     ''counter-advance'', ''audit'', ''installed-marker'', ''rootfs-dir'', ''esp-dir'', ''firmware-dir'']"

definition audit_setting :: "settings \<Rightarrow> string" where
  "audit_setting st = str_value st ''audit'' ''/var/log/atom/history.jsonl''"

definition run_cmd :: "atomd_env \<Rightarrow> string list \<Rightarrow> command" where
  "run_cmd ad args = command_flags run_flags args (\<lambda>st rest.
     runDaemon ad (wal_setting ad st) (health_setting ad st) (counter_setting ad st) (audit_setting st)
       (str_value st ''manifest'' []) (str_value st ''revocation'' []) (str_value st ''pubkey'' ''/etc/atom/root.pub'')
       (str_value st ''cron'' ''0 * * * *'') (marker_setting st) (all_dirs ad st))"

text \<open>The requests the recovery server answers before it ends.\<close>

primrec serve_requests :: "(string \<Rightarrow> string \<Rightarrow> answer io) \<Rightarrow> (string \<times> string) list \<Rightarrow> unit io" where
  "serve_requests h [] = ret ()"
| "serve_requests h (q # qs) = seqE (h (fst q) (snd q)) (\<lambda>_. serve_requests h qs)"

definition recover_cmd :: "atomd_env \<Rightarrow> string list \<Rightarrow> command" where
  "recover_cmd ad args = command_flags (map str_flag [''wal'', ''addr'', ''audit'', ''rootfs-dir'', ''esp-dir'']) args (\<lambda>st rest.
     let addr = str_value st ''addr'' '':7654''; auditPath = audit_setting st in
     (case ad_listen ad addr of (qs, failed) \<Rightarrow>
        seqE (serve_requests (recovery_request (ad_errno ad) (wal_setting ad st) (dir_at ad auditPath) (slot_dirs ad st)) qs) (\<lambda>_.
        ret (if failed then 1 else 0, [''atomd: recovery API on '' @ addr]))))"

definition stage_cmd :: "atomd_env \<Rightarrow> string list \<Rightarrow> command" where
  "stage_cmd ad args =
     command_flags (map str_flag [''wal'', ''manifest'', ''pubkey'', ''revocation'', ''rootfs-dir'', ''esp-dir'', ''firmware-dir'']) args (\<lambda>st rest.
       let manifest = str_value st ''manifest'' [] in
       if manifest = [] then ret (2, [])
       else with_file ad (str_value st ''pubkey'' ''/etc/atom/root.pub'') (\<lambda>pubkey.
         report (Stage (ad_env ad) (wal_setting ad st) manifest (str_value st ''revocation'' []) pubkey (all_dirs ad st))))"

definition boot_success_flags :: "flag_spec list" where
  "boot_success_flags = map str_flag [''wal'', ''health-dir'', ''counter'', ''counter-read'', ''counter-advance'', ''installed-marker'',
     ''rootfs-dir'', ''esp-dir'']"

definition boot_success_cmd :: "atomd_env \<Rightarrow> string list \<Rightarrow> command" where
  "boot_success_cmd ad args = command_flags boot_success_flags args (\<lambda>st rest.
     seqE (isInstalled ad (marker_setting st)) (\<lambda>installed.
       if \<not> installed then ret (0, [live_line (marker_setting st) ''boot-success is a no-op''])
       else report (BootSuccess (ad_env ad) (wal_setting ad st) (health_setting ad st) (Some (counter_setting ad st)) (slot_dirs ad st))))"

definition status_cmd :: "atomd_env \<Rightarrow> string list \<Rightarrow> command" where
  "status_cmd ad args = command_flags [str_flag ''wal''] args (\<lambda>st rest. report (Status (wal_setting ad st)))"

definition deploy_cmd :: "atomd_env \<Rightarrow> string list \<Rightarrow> command" where
  "deploy_cmd ad args = command_flags [str_flag ''wal''] args (\<lambda>st rest.
     needs_one rest (\<lambda>v. report (otad_Deploy (wal_setting ad st) v)))"

definition rollback_cmd :: "atomd_env \<Rightarrow> string list \<Rightarrow> command" where
  "rollback_cmd ad args = command_flags (map str_flag [''wal'', ''rootfs-dir'', ''esp-dir'']) args (\<lambda>st rest.
     report (otad_Rollback (wal_setting ad st) (slot_dirs ad st)))"

definition firmware_confirm_flags :: "flag_spec list" where
  "firmware_confirm_flags = map str_flag [''wal'', ''firmware-dir'', ''bundle'', ''installed-marker''] @ [bool_flag ''probe-ok'']"

definition firmware_confirm_cmd :: "atomd_env \<Rightarrow> string list \<Rightarrow> command" where
  "firmware_confirm_cmd ad args = command_flags firmware_confirm_flags args (\<lambda>st rest.
     seqE (isInstalled ad (marker_setting st)) (\<lambda>installed.
       if \<not> installed then ret (0, [live_line (marker_setting st) ''firmware-confirm is a no-op''])
       else
         let dirs = \<lparr>sd_rootfs = [], sd_esp = [], sd_firmware = firmware_setting ad st\<rparr>;
             bundle = str_value st ''bundle'' []; probeOK = bool_value st ''probe-ok'' in
         report (if bundle = [] then FirmwareBootConfirmAll (ad_env ad) (wal_setting ad st) dirs probeOK
                 else FirmwareBootConfirm (ad_env ad) (wal_setting ad st) dirs bundle probeOK)))"

definition atomd_run :: "atomd_env \<Rightarrow> string list \<Rightarrow> command" where
  "atomd_run ad args =
     (case args of
        [] \<Rightarrow> ret (2, [])
      | cmd # rest \<Rightarrow>
          if cmd = ''init'' then init_cmd ad rest
          else if cmd = ''run'' then run_cmd ad rest
          else if cmd = ''recover'' then recover_cmd ad rest
          else if cmd = ''stage'' then stage_cmd ad rest
          else if cmd = ''boot-success'' then boot_success_cmd ad rest
          else if cmd = ''recovery'' then runRecovery ad rest
          else if cmd = ''loader'' then runLoader ad rest
          else if cmd = ''status'' then status_cmd ad rest
          else if cmd = ''deploy'' then deploy_cmd ad rest
          else if cmd = ''rollback'' then rollback_cmd ad rest
          else if cmd = ''firmware-confirm'' then firmware_confirm_cmd ad rest
          else if cmd \<in> {''version'', ''--version'', ''-v''} then ret (0, [''atomd '' @ ad_version ad])
          else ret (2, []))"

subsection \<open>fw-verify\<close>

text \<open>\<open>os.Args\<close> without the program name; the time is an argument.\<close>

definition fw_verify :: "atomd_env \<Rightarrow> int \<Rightarrow> string list \<Rightarrow> command" where
  "fw_verify ad now args =
     (case args of
        dir # sl # rootPubPath # bundle # extra \<Rightarrow>
          let field = (case extra of [] \<Rightarrow> ''verity'' | f # _ \<Rightarrow> f) in
          with_file ad rootPubPath (\<lambda>rootPub.
          trying (VerifiedFirmwareBundle (e_crypto (ad_env ad)) (ad_file ad dir) sl rootPub now bundle) (\<lambda>r. ret (case r of
              Inl e \<Rightarrow> (1, [])
            | Inr fw \<Rightarrow>
                if field = ''verity'' then (0, [bd_verity_hash fw])
                else if field = ''critical'' then (0, case_option [] id (bd_critical_devices fw))
                else (2, []))))
      | _ \<Rightarrow> ret (2, []))"

subsection \<open>Exit states\<close>

text \<open>\<open>ends S m\<close>: the command ends with a state of \<open>S\<close>, and with 2 it has left the disk as it was.\<close>

definition ends :: "int set \<Rightarrow> command \<Rightarrow> bool" where
  "ends S m \<longleftrightarrow> (\<forall>w. \<exists>c out w'. m w = (Inr (c, out), w') \<and> c \<in> S \<and> (c = 2 \<longrightarrow> w_disk w' = w_disk w))"

lemma ends_ret: "c \<in> S \<Longrightarrow> ends S (ret (c, out))"
  by (simp add: ends_def ret_def)

lemma ends_mono: "ends S m \<Longrightarrow> S \<subseteq> T \<Longrightarrow> ends T m"
  unfolding ends_def by blast

lemma ends_trying: "(\<And>r. ends {0, 1} (k r)) \<Longrightarrow> ends {0, 1} (trying m k)"
  unfolding ends_def trying_def
proof (intro allI)
  fix w assume k: "\<And>r. \<forall>w. \<exists>c out w'. k r w = (Inr (c, out), w') \<and> c \<in> {0, 1} \<and> (c = 2 \<longrightarrow> w_disk w' = w_disk w)"
  obtain r w1 where "m w = (r, w1)" by fastforce
  moreover obtain c out w2 where "k r w1 = (Inr (c, out), w2)" "c \<in> {0, 1}" using k [of r] by blast
  ultimately show "\<exists>c out w'. (case m w of (r, w') \<Rightarrow> k r w') = (Inr (c, out), w') \<and> c \<in> {0, 1} \<and> (c = 2 \<longrightarrow> w_disk w' = w_disk w)"
    by auto
qed

lemma ends_seqE:
  assumes "succeeds m" and "\<And>x. ends {0, 1} (k x)"
  shows "ends {0, 1} (seqE m k)"
  unfolding ends_def
proof
  fix w
  obtain x w1 where "m w = (Inr x, w1)" using assms(1) unfolding succeeds_def by blast
  moreover obtain c out w2 where "k x w1 = (Inr (c, out), w2)" "c \<in> {0, 1}" using assms(2) [of x] unfolding ends_def by blast
  ultimately show "\<exists>c out w'. seqE m k w = (Inr (c, out), w') \<and> c \<in> {0, 1} \<and> (c = 2 \<longrightarrow> w_disk w' = w_disk w)"
    by (auto simp: seqE_def trying_def)
qed

lemma ends_report: "ends {0, 1} (report m)"
  unfolding report_def by (rule ends_trying) (auto intro: ends_ret split: sum.splits)

lemma ends_quietly: "quietly m \<Longrightarrow> (\<And>r. ends S (k r)) \<Longrightarrow> ends S (trying m k)"
  unfolding ends_def
proof
  fix w assume m: "quietly m" and k: "\<And>r. \<forall>w. \<exists>c out w'. k r w = (Inr (c, out), w') \<and> c \<in> S \<and> (c = 2 \<longrightarrow> w_disk w' = w_disk w)"
  obtain r w1 where 1: "m w = (r, w1)" by fastforce
  have "w_disk w1 = w_disk w" using wpD [OF quietlyD [OF m] 1] by (simp add: quiet_def)
  with k [of r] 1 show "\<exists>c out w'. trying m k w = (Inr (c, out), w') \<and> c \<in> S \<and> (c = 2 \<longrightarrow> w_disk w' = w_disk w)"
    by (metis trying_def old.prod.case)
qed

lemma ends_with_file: "1 \<in> S \<Longrightarrow> (\<And>s. ends S (k s)) \<Longrightarrow> ends S (with_file ad name k)"
  unfolding with_file_def by (rule ends_quietly) (auto intro: ends_ret split: sum.splits)

lemma ends_installed: "(\<And>b. ends S (k b)) \<Longrightarrow> ends S (seqE (isInstalled ad marker) k)"
proof -
  assume k: "\<And>b. ends S (k b)"
  have "ends S (trying (stat (ad_file ad marker)) (\<lambda>r. k (case r of Inl e \<Rightarrow> False | Inr _ \<Rightarrow> True)))"
    by (rule ends_quietly) (simp_all add: k)
  moreover have "seqE (isInstalled ad marker) k = trying (stat (ad_file ad marker)) (\<lambda>r. k (case r of Inl e \<Rightarrow> False | Inr _ \<Rightarrow> True))"
    by (rule ext) (auto simp: isInstalled_def exists_file_def seqE_def trying_def ret_def split: prod.splits)
  ultimately show ?thesis by simp
qed

lemma ends_command_flags: "2 \<in> S \<Longrightarrow> (\<And>st rest. ends S (k st rest)) \<Longrightarrow> ends S (command_flags fs args k)"
  unfolding command_flags_def by (auto intro: ends_ret split: option.splits)

lemma ends_if: "ends S m \<Longrightarrow> ends S n \<Longrightarrow> ends S (if b then m else n)"
  by simp

lemma ends_needs_one: "2 \<in> S \<Longrightarrow> (\<And>v. ends S (k v)) \<Longrightarrow> ends S (needs_one rest k)"
  unfolding needs_one_def by (auto intro: ends_ret split: list.splits)

lemma succeeds_quiet_reading:
  "succeeds (ReadLoaderStatus dirs)" "succeeds (isInstalled ad marker)"
  unfolding ReadLoaderStatus_def InstalledLoaderVersion_def markerVersion_def readKeyFile_def isInstalled_def exists_file_def
  by (auto intro!: succeeds_seqE succeeds_trying)

lemma succeeds_requests: "succeeds (serve_requests (recovery_request tx p ap dirs) qs)"
proof (induction qs)
  case (Cons q qs)
  have "succeeds (recovery_request tx p ap dirs m t)" for m t
    unfolding recovery_request_def history_answer_def status_answer_def rollback_answer_def
    by (auto intro!: succeeds_trying split: sum.splits)
  with Cons show ?case by (simp add: succeeds_seqE)
qed simp

lemma succeeds_record_event: "succeeds (record_event ad ap n a d)"
  by (simp add: record_event_def)

lemma succeeds_checks: "succeeds (update_checks ad ap m n)"
proof (induction n)
  case (Suc n)
  have "succeeds (update_check ad ap k m)" for k
    unfolding update_check_def by (auto intro!: succeeds_trying succeeds_seqE succeeds_record_event split: sum.splits)
  with Suc show ?case by (auto intro!: succeeds_seqE)
qed simp

lemma succeeds_confirm_boot: "succeeds (confirm_boot ad wal hdir store ap dirs)"
  unfolding confirm_boot_def by (auto intro!: succeeds_trying succeeds_seqE succeeds_record_event split: sum.splits)

lemma ends_poll_updates: "ends {0, 1} (poll_updates ad wal ap murl rurl key cron dirs)"
  unfolding poll_updates_def
  by (auto intro!: ends_with_file ends_ret ends_seqE succeeds_checks split: option.splits)

lemma ends_runDaemon: "ends {0, 1} (runDaemon ad wal hdir store ap murl rurl key cron marker dirs)"
proof -
  have "ends {0, 1} (seqE (poll_updates ad wal ap murl rurl key cron dirs) (\<lambda>(code, lines). ret (code, out @ lines)))" for out
    unfolding ends_def
  proof
    fix w
    obtain c more w' where "poll_updates ad wal ap murl rurl key cron dirs w = (Inr (c, more), w')" "c \<in> {0, 1}"
      using ends_poll_updates unfolding ends_def by blast
    then show "\<exists>c out' w'. seqE (poll_updates ad wal ap murl rurl key cron dirs) (\<lambda>(code, lines). ret (code, out @ lines)) w = (Inr (c, out'), w') \<and>
        c \<in> {0, 1} \<and> (c = 2 \<longrightarrow> w_disk w' = w_disk w)"
      by (auto simp: seqE_def trying_def ret_def)
  qed
  then have "ends {0, 1} (seqE (confirm_boot ad wal hdir store ap dirs) (\<lambda>out.
      seqE (poll_updates ad wal ap murl rurl key cron dirs) (\<lambda>(code, lines). ret (code, out @ lines))))"
    by (rule ends_seqE [OF succeeds_confirm_boot])
  then show ?thesis
    unfolding runDaemon_def by (intro ends_installed ends_if ends_ret) simp_all
qed

lemmas ends_steps = ends_command_flags ends_needs_one ends_with_file ends_if ends_ret ends_installed
  ends_mono [OF ends_report] ends_mono [OF ends_runDaemon]

lemma ends_commands:
  "ends {0, 1, 2} (init_cmd ad args)" "ends {0, 1, 2} (run_cmd ad args)" "ends {0, 1, 2} (stage_cmd ad args)"
  "ends {0, 1, 2} (boot_success_cmd ad args)" "ends {0, 1, 2} (status_cmd ad args)" "ends {0, 1, 2} (deploy_cmd ad args)"
  "ends {0, 1, 2} (rollback_cmd ad args)" "ends {0, 1, 2} (firmware_confirm_cmd ad args)"
  unfolding init_cmd_def run_cmd_def stage_cmd_def boot_success_cmd_def status_cmd_def deploy_cmd_def rollback_cmd_def firmware_confirm_cmd_def Let_def
  by (intro ends_steps; simp)+

lemma ends_recover: "ends {0, 1, 2} (recover_cmd ad args)"
  unfolding recover_cmd_def Let_def
  by (intro ends_command_flags)
    (auto intro!: ends_mono [OF ends_seqE [OF succeeds_requests ends_ret], where T = "{0, 1, 2}"] split: prod.splits)

lemma ends_loader_recovery: "ends {0, 1, 2} (runRecovery ad args)" "ends {0, 1, 2} (runLoader ad args)"
proof -
  show "ends {0, 1, 2} (runRecovery ad args)"
    unfolding runRecovery_def Let_def by (simp split: list.split add: ends_ret) (intro allI impI ends_steps; simp)
  have "ends {0, 1, 2} (loader_update ad st)" "ends {0, 1, 2} (loader_repair ad st)" for st
    unfolding loader_update_def loader_repair_def Let_def by (intro ends_steps; simp)+
  then show "ends {0, 1, 2} (runLoader ad args)"
    unfolding runLoader_def
    by (cases args) (auto intro!: ends_command_flags ends_ret ends_mono [OF ends_seqE [OF succeeds_quiet_reading(1) ends_ret], where T = "{0, 1, 2}"])
qed

lemma ends_atomd: "ends {0, 1, 2} (atomd_run ad args)"
proof (cases args)
  case (Cons cmd rest)
  show ?thesis
    unfolding atomd_run_def Cons list.case
    by (intro ends_if ends_commands ends_recover ends_loader_recovery ends_ret) simp_all
qed (simp add: atomd_run_def ends_ret)


subsection \<open>A live system is left alone\<close>

lemma isInstalled_absent:
  assumes "file_data (w_disk w) (ad_file ad marker) = None"
  shows "\<exists>w'. isInstalled ad marker w = (Inr False, w') \<and> w_disk w' = w_disk w \<and> w_hw w' = w_hw w \<and> w_urls w' = w_urls w"
proof -
  have "dk_names (w_disk w) (ad_file ad marker) = None" using assms by (simp add: file_data_def lookup_def split: option.splits)
  then show ?thesis by (auto simp: isInstalled_def exists_file_def trying_def ret_def sys_defs sys_call_def split: option.splits)
qed

lemma command_flags_inert:
  assumes "\<And>st more. parse_flags fs rest = Some (st, more) \<Longrightarrow>
     \<exists>out w'. k st more w = (Inr (0, out), w') \<and> w_disk w' = w_disk w \<and> w_hw w' = w_hw w \<and> w_urls w' = w_urls w"
  shows "\<exists>c out w'. command_flags fs rest k w = (Inr (c, out), w') \<and> c \<in> {0, 2} \<and> w_disk w' = w_disk w \<and> w_hw w' = w_hw w \<and> w_urls w' = w_urls w"
  using assms by (cases "parse_flags fs rest") (fastforce simp: command_flags_def ret_def)+

lemma installed_guard_inert:
  assumes "file_data (w_disk w) (ad_file ad marker) = None"
  shows "\<exists>out w'. seqE (isInstalled ad marker) (\<lambda>b. if \<not> b then ret (0, line) else m) w = (Inr (0, out), w') \<and>
    w_disk w' = w_disk w \<and> w_hw w' = w_hw w \<and> w_urls w' = w_urls w"
  using isInstalled_absent [OF assms] by (auto simp: seqE_def trying_def ret_def)

text \<open>C8. On a live system, where the boot wrote no marker, the daemon is inert: \<open>run\<close>, \<open>boot-success\<close> and
  \<open>firmware-confirm\<close> write no file, move no hardware counter and ask no server, whatever the flags
  and whatever fails.\<close>

theorem atomd_inert_on_live_system:
  assumes "(cmd, fs) \<in> {(''run'', run_flags), (''boot-success'', boot_success_flags), (''firmware-confirm'', firmware_confirm_flags)}"
    and "\<And>st more. parse_flags fs rest = Some (st, more) \<Longrightarrow> file_data (w_disk w) (ad_file ad (marker_setting st)) = None"
  shows "\<exists>c out w'. atomd_run ad (cmd # rest) w = (Inr (c, out), w') \<and> c \<in> {0, 2} \<and>
    w_disk w' = w_disk w \<and> w_hw w' = w_hw w \<and> w_urls w' = w_urls w"
proof -
  consider "cmd = ''run''" "fs = run_flags" | "cmd = ''boot-success''" "fs = boot_success_flags"
    | "cmd = ''firmware-confirm''" "fs = firmware_confirm_flags"
    using assms(1) by auto
  then show ?thesis
  proof cases
    case 1
    then have eq: "atomd_run ad (cmd # rest) = run_cmd ad rest" by (simp add: atomd_run_def)
    show ?thesis unfolding eq run_cmd_def runDaemon_def
      by (rule command_flags_inert) (rule installed_guard_inert, use assms(2) 1 in auto)
  next
    case 2
    then have eq: "atomd_run ad (cmd # rest) = boot_success_cmd ad rest" by (simp add: atomd_run_def)
    show ?thesis unfolding eq boot_success_cmd_def
      by (rule command_flags_inert) (rule installed_guard_inert, use assms(2) 2 in auto)
  next
    case 3
    then have eq: "atomd_run ad (cmd # rest) = firmware_confirm_cmd ad rest" by (simp add: atomd_run_def)
    show ?thesis unfolding eq firmware_confirm_cmd_def Let_def
      by (rule command_flags_inert) (rule installed_guard_inert, use assms(2) 3 in auto)
  qed
qed

definition sample_atomd :: atomd_env where
  "sample_atomd = \<lparr>ad_env = sample_env, ad_errno = (\<lambda>_. []), ad_file = (\<lambda>n. [n]), ad_time = int, ad_schedule = (\<lambda>_. Some 1),
     ad_listen = (\<lambda>_. ([], False)), ad_version = ''dev''\<rparr>"

lemma atomd_inert_on_live_system_witness:
  "\<exists>c out w'. atomd_run sample_atomd [''boot-success'', ''--wal'', ''deployment.json''] (world_of sample_stuck) = (Inr (c, out), w') \<and>
     w_disk w' = sample_stuck"
proof -
  have marker: "file_data (w_disk (world_of sample_stuck)) (ad_file sample_atomd (marker_setting st)) = None"
    if "parse_flags boot_success_flags [''--wal'', ''deployment.json''] = Some (st, more)" for st more
  proof -
    have "parse_flags boot_success_flags [''--wal'', ''deployment.json''] = Some ([(''wal'', ''deployment.json'')], [])"
      by code_simp
    then have "st = [(''wal'', ''deployment.json'')]" using that by (metis option.inject prod.inject)
    then have "marker_setting st = ''/run/atom/installed''" by (simp add: marker_setting_def str_value_def setting_def)
    then show ?thesis
      by (simp add: sample_atomd_def world_of_def sample_stuck_def file_data_def put_file_def sample_path_def path_suffix_def empty_disk_def lookup_def)
  qed
  have "(''boot-success'', boot_success_flags) \<in> {(''run'', run_flags), (''boot-success'', boot_success_flags), (''firmware-confirm'', firmware_confirm_flags)}"
    by simp
  then have "\<exists>c out w'. atomd_run sample_atomd (''boot-success'' # [''--wal'', ''deployment.json'']) (world_of sample_stuck) = (Inr (c, out), w') \<and>
      c \<in> {0, 2} \<and> w_disk w' = w_disk (world_of sample_stuck) \<and> w_hw w' = w_hw (world_of sample_stuck) \<and> w_urls w' = w_urls (world_of sample_stuck)"
    by (rule atomd_inert_on_live_system) (rule marker)
  moreover have "w_disk (world_of sample_stuck) = sample_stuck" by (simp add: world_of_def)
  ultimately show ?thesis by auto
qed

subsection \<open>What fw-verify vouches for\<close>

lemma read_file_result: "read_file p w = (r, w') \<Longrightarrow> w_disk w' = w_disk w \<and> (\<forall>x. r = Inr x \<longrightarrow> file_data (w_disk w) p = Some x)"
  by (auto simp: sys_defs sys_call_def file_data_def split: option.splits)

text \<open>C38. \<open>fw-verify\<close> prints the root hash of a firmware bundle, or its critical devices, only when
  the whole signature chain under the root key vouches for that bundle; otherwise it prints nothing. It changes no file.\<close>

theorem fw_verify_vouched:
  assumes "fw_verify ad now args w = (Inr (c, out), w')"
  shows "w_disk w' = w_disk w \<and> (c \<noteq> 0 \<longrightarrow> out = []) \<and>
    (c = 0 \<longrightarrow> (\<exists>dir sl key bundle extra rootPub fw. args = dir # sl # key # bundle # extra \<and>
       file_data (w_disk w) (ad_file ad key) = Some rootPub \<and>
       anchored (e_crypto (ad_env ad)) (w_disk w) (ad_file ad dir) sl rootPub now bundle fw \<and>
       out = (if extra = [] \<or> hd extra = ''verity'' then [bd_verity_hash fw] else case_option [] id (bd_critical_devices fw))))"
proof (cases "\<exists>dir sl key bundle extra. args = dir # sl # key # bundle # extra")
  case False
  then have "fw_verify ad now args = ret (2, [])" by (auto simp: fw_verify_def split: list.splits)
  with assms show ?thesis by (simp add: ret_def)
next
  case True
  then obtain dir sl key bn extra where args: "args = dir # sl # key # bn # extra" by blast
  obtain r w1 where 1: "read_file (ad_file ad key) w = (r, w1)" by fastforce
  have rd: "w_disk w1 = w_disk w" "r = Inr x \<Longrightarrow> file_data (w_disk w) (ad_file ad key) = Some x" for x
    using read_file_result [OF 1] by auto
  show ?thesis
  proof (cases r)
    case (Inl e)
    with assms 1 rd show ?thesis by (simp add: fw_verify_def args with_file_def trying_def ret_def Let_def)
  next
    case (Inr rootPub)
    obtain v w2 where 2: "VerifiedFirmwareBundle (e_crypto (ad_env ad)) (ad_file ad dir) sl rootPub now bn w1 = (v, w2)" by fastforce
    have vf: "w_disk w2 = w_disk w" "v = Inr fw \<Longrightarrow> anchored (e_crypto (ad_env ad)) (w_disk w) (ad_file ad dir) sl rootPub now bn fw" for fw
      using wpD [OF wp_VerifiedFirmwareBundle 2] rd(1) by auto
    show ?thesis
      using assms 1 2 Inr rd vf
      by (cases v) (auto simp: fw_verify_def args with_file_def trying_def ret_def Let_def split: if_splits list.splits)
  qed
qed

definition firmware_world :: world where
  "firmware_world = world_of (put_file [''root.pub''] sample_key wifi_disk)"

lemma fw_verify_vouched_witness:
  "\<exists>fw. anchored sample_crypto (w_disk firmware_world) [''fw''] ''active'' sample_key 0 ''wifi'' fw \<and> bd_verity_hash fw = ''ab''"
proof -
  let ?run = "fw_verify sample_atomd 0 [''fw'', ''active'', ''root.pub'', ''wifi''] firmware_world"
  have "fst ?run = Inr (0, [''ab''])" by code_simp
  then have run: "?run = (Inr (0, [''ab'']), snd ?run)" by (simp add: prod_eq_iff)
  have "wf_disk wifi_disk" by (simp add: wifi_disk_def)
  then have key: "file_data (w_disk firmware_world) (ad_file sample_atomd ''root.pub'') = Some sample_key"
    by (simp add: firmware_world_def world_of_def sample_atomd_def file_data_def lookup_put_file)
  show ?thesis
    using fw_verify_vouched [OF run] key by (auto simp: sample_atomd_def sample_env_def)
qed


end
