(* ===== verification/Spec2Isabelle.thy ===== *)
theory Spec2Isabelle
  imports Lifecycle Wal Counter Hwselect Fetch Fwanchor Running ConfirmSafe FwmountSafe Auditlog Server AgentSafe Signtool Diag Atomd
begin

text \<open>
  A verification development for AtomLoops, the over-the-air update system of an immutable Linux
  image: a root file system image with its dm-verity hash tree, a kernel, firmware bundles, a
  boot loader and a recovery image, each with a slot for the version in use, the candidate and
  the one before. A record (\<open>deployment.json\<close>) says which candidate is on trial. An update is
  staged under a signature chain from an embedded root key, tried by the boot loader for a
  limited number of boots, promoted after confirmed good boots, and rolled back otherwise.

  \<^bold>\<open>The parts and their theories\<close> (paths under \<open>src/\<close>; a definition has the name of the
  function it models, a field the name of its Go field behind a prefix of the record; smaller
  definitions are the loops and branches of a function).

  \<^item> The ground. \<open>Prelude\<close>: errors as values (\<open>errno\<close>, \<open>error\<close> with \<open>Wrap\<close> for \<open>%w\<close>),
    byte and decimal texts, splitting and trimming, the search of maps. \<open>Sys\<close>: the disk (names
    to inodes with data and a synced flag), the \<open>world\<close> with the list of faults, the
    random names and the history of all disks, and the monad \<open>io\<close> over it; \<open>wp\<close>,
    \<open>evolves\<close> (what holds on every disk of a run, hence after a crash at any moment) and
    \<open>frames\<close>. \<open>AtomicFile\<close>: write, sync, rename as the program does it everywhere.
    \<open>Confine\<close>: the same frames for operations that also write in place. \<open>Store\<close>: the
    contract of a file that is loaded and saved as a whole.
  \<^item> The record. \<open>Deployment\<close> (internal/deployment/deployment.go, transition.go, slots.go):
    the record and all its transitions. \<open>Lifecycle\<close>: the step relation over them, its
    reachable records, the invariant, the boot budget, promotion, rollback, and the refinement
    of an abstract protocol. \<open>Json\<close>: \<open>encoding/json\<close> as far as the program uses it, both
    layouts, over valid UTF-8. \<open>Wal\<close> (wal.go): the record on disk with its backup.
  \<^item> The update daemon, internal/otad. \<open>Counter\<close> (counter.go): the anti-rollback counters.
    \<open>Slots\<close> (slots.go, durable.go): boot state and artifact slots. \<open>Trust\<close> (internal/trust)
    and \<open>Manifest\<close> (manifest.go): the signature chain, the signed description of an update.
    \<open>Hwselect\<close> (hwselect.go), \<open>Fetch\<close> (fetch.go), \<open>Fwanchor\<close> (fwanchor.go), \<open>Running\<close>
    (promote.go), \<open>Stage\<close> and \<open>StageSafe\<close> (stage.go), \<open>Loader\<close> and \<open>LoaderSafe\<close>
    (loader.go), \<open>RecoveryImage\<close> (recovery.go), \<open>Daemon\<close>, \<open>DaemonSafe\<close>, \<open>ConfirmSafe\<close>
    (otad.go).
  \<^item> The boot, package boot and cmd/atom-init. \<open>Kernel\<close>: the monad of system calls, which
    records them in a trace. \<open>Bootsys\<close>, \<open>Early\<close> (system.go), \<open>Verity\<close>, \<open>VeritySafe\<close>
    (verity.go), \<open>Root\<close>, \<open>RootSafe\<close> (loop.go, root.go), \<open>Layout\<close> (layout.go, rescue.go),
    \<open>Fwmount\<close>, \<open>FwmountSafe\<close> (firmware.go), \<open>AtomInit\<close>, \<open>AtomInitSafe\<close> (the boot from
    end to end).
  \<^item> The update agent, cmd/updated. \<open>Feed\<close>: the signed feed, the status and its file.
    \<open>Updated\<close>: lock, status store, staging, history, socket. \<open>Server\<close>: HTTP handlers and
    commands. \<open>Frames\<close>: what they may write. \<open>Agent\<close>, \<open>AgentSafe\<close>: all of it as a state
    machine of interleaved tasks with other processes and restarts, and its invariant.
    \<open>StageRun\<close>: without faults, an offered, whole and authentic update is staged.
  \<^item> The history of updates. \<open>Auditlog\<close> (internal/audit/audit.go).
  \<^item> The commands. \<open>Flags\<close>: the package \<open>flag\<close>. \<open>RecoveryApi\<close> (internal/recovery/recovery.go):
    the requests of the recovery image. \<open>Atomd\<close> (cmd/atomd, cmd/fw-verify): every command of the
    daemon, the daemon itself, the firmware check. \<open>Diag\<close> (internal/diag, cmd/sinty-diag): the
    report of a failed boot. \<open>Succeeds\<close>: operations that cannot fail.
  \<^item> The release side. \<open>Civil\<close>: times and base64 written so that \<open>Trust\<close> reads them back.
    \<open>Members\<close>: JSON members that may be left out. \<open>Signing\<close> and \<open>Release\<close>
    (internal/signing/signing.go): certificates, revocation lists, manifests and signatures.
    \<open>Signtool\<close> (cmd/atom-sign): the command.

  \<^bold>\<open>How they interact.\<close> \<open>Stage\<close> reads the record with \<open>Load\<close>, fetches and checks with
  \<open>Fetch\<close>, \<open>Trust\<close>, \<open>Manifest\<close> and \<open>Hwselect\<close>, and ends with \<open>Deploy\<close>, \<open>Save\<close> and
  the boot state. The boot selects and verifies the root that boot state and loader name, and
  mounts it and its firmware. \<open>BootSuccess\<close> confirms that boot in the record and, at the
  threshold, \<open>commit_promotion\<close> moves slots, boot state and record in this order. The
  interfaces are locales: \<open>durable_store\<close> (interpreted on the record and the boot state),
  \<open>monotonic_counter\<close> (on the file, the command and the chosen counter), \<open>json_layout\<close>
  (on the indented and the compact printer), \<open>emitting_ops\<close> (on the system's operations of
  the boot, for two sets of events). The agent calls \<open>StageExpectedManifest\<close> with the digest
  the user's token was computed from, under the lock that also claims a reboot. The release
  side meets the device in the files it publishes: \<open>Release\<close> shows that \<open>VerifyCert\<close>,
  \<open>CheckRevocation\<close>, \<open>Verify\<close> and \<open>ParseManifest\<close> of the device accept them. The recovery
  API and \<open>atomd\<close> call the operations of the update daemon.

  \<^bold>\<open>What the lemmas show.\<close> Invariants of reachable records; that each writer leaves on
  every disk on the way the old or the complete new content, under every list of faults;
  that what staging arms comes from an authentic manifest, with the hashes of its root image,
  hash tree, kernel cache and kernel signature on the disk; that what is mounted was vouched for
  and what is confirmed was booted; that a verdict installs only a loader that has started;
  that counters and floors only rise; without faults, the order of a promotion and the swap of
  the recovery image at every crash; round trips of the record,
  the superblock, the device-mapper request, times and manifests; that what the release tools
  publish is accepted and what they revoke is not; and, without faults, that a good candidate
  is promoted and a bad one rolled back. In the boot the statements are about the trace and
  hold for every kernel.

  \<^bold>\<open>Parameters.\<close> Ed25519, SHA-256, the HTTP client, the clock, the health scripts, the
  counter commands and the kernel are arguments (\<open>env\<close>, \<open>crypto\<close>, \<open>kernel\<close>,
  \<open>boot_env\<close>, \<open>signer\<close>, \<open>diag_env\<close>, \<open>atomd_env\<close>, the last with the scheduler and the
  server of go-foundation); no theorem assumes more of them than its hypotheses say. A file is its list
  of bytes, read and hashed in one call; a failing system call does nothing but return its
  errno.

  \<^bold>\<open>Bounds.\<close> The JSON reader's fuel is the length of the text, which each step shortens. A
  download follows five redirects, as the client does. A mapping is closed in at most forty
  requests and a loop device taken in eight, as in the code. The walks over a directory
  tree stop at depth 4096, the longest path of the kernel.

  \<^bold>\<open>Not modelled.\<close> \<open>SaveDiagnostics\<close> and the lines written to the console, the standard
  error or a log: no decision depends on them. Mode bits of files. Progress callbacks. The Zig loader under
  \<open>src/loader\<close>, which is another language and meets the Go code in the files of the EFI
  partition. The package \<open>atom\<close>, which re-exports. The mock under \<open>scripts\<close>,
  a demonstration no part of the program uses.
\<close>

end
